(* ===== verification/Prelude.thy ===== *)
theory Prelude
  imports Main "HOL-Library.Word"
begin

text \<open>
  Shared vocabulary of the development: Rust's machine integers and byte slices, the
  \<open>Result\<close> type with panics made visible, \<open>std::io::Error\<close>, the decimal printer and
  parser of the standard library, and the generic facts the component theories use.

  A Rust function that returns \<open>Result<T, E>\<close> is modelled by a function into
  \<open>(T, E) rresult\<close>: \<open>Ok\<close> and \<open>Err\<close> are Rust's constructors, \<open>Panic\<close> is the outcome of a
  panicking operation (slice index out of range, \<open>unwrap\<close> of an error, an arithmetic
  overflow in a checked build, \<open>unreachable!\<close>). Strings are their UTF-8 bytes, one
  Isabelle \<open>char\<close> per byte, so that literals keep their usual syntax.
\<close>

section \<open>Machine integers and bytes\<close>

type_synonym u8 = "8 word"
type_synonym u16 = "16 word"
type_synonym u32 = "32 word"
type_synonym u64 = "64 word"
type_synonym i8 = "8 word"
type_synonym i16 = "16 word"
type_synonym i32 = "32 word"
type_synonym i64 = "64 word"

text \<open>Signed and unsigned integers of one width share the type; signed code reads it by \<open>sint\<close>.\<close>

type_synonym bytes = "u8 list"
type_synonym str = string

abbreviation ascii :: "string \<Rightarrow> bytes" where
  "ascii s \<equiv> map of_char s"

abbreviation as_bytes :: "str \<Rightarrow> bytes" where
  "as_bytes s \<equiv> map of_char s"

abbreviation of_bytes :: "bytes \<Rightarrow> str" where
  "of_bytes b \<equiv> map (\<lambda>w. char_of (unat w)) b"

lemma of_char_word: "of_char c = (of_nat (of_char c) :: u8)"
  by (simp only: of_nat_of_char)

lemma of_char_char_of_unat [simp]: "of_char (char_of (unat b)) = (b :: u8)"
proof -
  have "unat b < 2 ^ LENGTH(8)" by (rule unsigned_less)
  then have "unat b mod 256 = unat b" by simp
  then show ?thesis by (simp only: of_char_word of_char_of) simp
qed

lemma char_of_unat_of_char [simp]: "char_of (unat (of_char c :: u8)) = c"
proof -
  have "unat (of_char c :: u8) = of_char c mod 2 ^ LENGTH(8)"
    by (simp only: of_char_word unat_of_nat take_bit_eq_mod)
  then have "unat (of_char c :: u8) = of_char c" by simp
  then show ?thesis by simp
qed

lemma as_bytes_of_bytes [simp]: "as_bytes (of_bytes b) = b"
  by (induction b) simp_all

lemma of_bytes_as_bytes [simp]: "of_bytes (as_bytes s) = s"
  by (induction s) simp_all

lemma comp_of_bytes [simp]: "map (of_char \<circ> (\<lambda>w. char_of (unat w))) b = (b :: bytes)"
  by (induction b) simp_all

lemma comp_as_bytes [simp]: "map ((\<lambda>w :: u8. char_of (unat w)) \<circ> of_char) s = s"
  by (induction s) simp_all

lemma sint_nonneg:
  fixes w :: "'a::len word"
  assumes "0 \<le> sint w"
  shows "sint w = int (unat w)"
proof -
  have "sint w < 2 ^ (LENGTH('a) - Suc 0)" by (rule sint_less)
  also have "\<dots> \<le> (2 :: int) ^ LENGTH('a)" by (rule power_increasing) simp_all
  finally have "take_bit LENGTH('a) (sint w) = sint w"
    using assms by (simp add: take_bit_int_eq_self)
  then show ?thesis by (simp only: uint_sint [symmetric] uint_nat)
qed

section \<open>Proof collections\<close>

named_theorems appends_intros \<open>what a serializer appends to its buffer\<close>
named_theorems reader_simps \<open>what a reader returns on an input it wrote itself\<close>

section \<open>Results\<close>

datatype ('a, 'e) rresult = Ok 'a | Err 'e | Panic

primrec rbind :: "('a, 'e) rresult \<Rightarrow> ('a \<Rightarrow> ('b, 'e) rresult) \<Rightarrow> ('b, 'e) rresult" where
  "rbind (Ok x) f = f x"
| "rbind (Err e) f = Err e"
| "rbind Panic f = Panic"

primrec map_err :: "('e \<Rightarrow> 'd) \<Rightarrow> ('a, 'e) rresult \<Rightarrow> ('a, 'd) rresult" where
  "map_err g (Ok x) = Ok x"
| "map_err g (Err e) = Err (g e)"
| "map_err g Panic = Panic"

primrec map_ok :: "('a \<Rightarrow> 'b) \<Rightarrow> ('a, 'e) rresult \<Rightarrow> ('b, 'e) rresult" where
  "map_ok f (Ok x) = Ok (f x)"
| "map_ok f (Err e) = Err e"
| "map_ok f Panic = Panic"

definition ok_or :: "'a option \<Rightarrow> 'e \<Rightarrow> ('a, 'e) rresult" where
  "ok_or x e = (case x of Some v \<Rightarrow> Ok v | None \<Rightarrow> Err e)"

definition unwrap :: "('a, 'e) rresult \<Rightarrow> ('a, 'd) rresult" where
  "unwrap r = (case r of Ok x \<Rightarrow> Ok x | Err _ \<Rightarrow> Panic | Panic \<Rightarrow> Panic)"

lemma rbind_eq_Ok [simp]: "rbind m f = Ok y \<longleftrightarrow> (\<exists>x. m = Ok x \<and> f x = Ok y)"
  by (cases m) auto

lemma rbind_eq_Panic: "rbind m f = Panic \<longleftrightarrow> m = Panic \<or> (\<exists>x. m = Ok x \<and> f x = Panic)"
  by (cases m) auto

lemma rbind_eq_Err: "rbind m f = Err e \<longleftrightarrow> m = Err e \<or> (\<exists>x. m = Ok x \<and> f x = Err e)"
  by (cases m) auto

lemma map_err_eq_Ok [simp]: "map_err g m = Ok x \<longleftrightarrow> m = Ok x"
  by (cases m) auto

lemma map_err_eq_Panic [simp]: "map_err g m = Panic \<longleftrightarrow> m = Panic"
  by (cases m) auto

lemma map_ok_eq_Ok [simp]: "map_ok f m = Ok y \<longleftrightarrow> (\<exists>x. m = Ok x \<and> y = f x)"
  by (cases m) auto

lemma map_ok_eq_Panic [simp]: "map_ok f m = Panic \<longleftrightarrow> m = Panic"
  by (cases m) auto

lemma ok_or_simps [simp]: "ok_or (Some v) e = Ok v" "ok_or None e = Err e"
  by (simp_all add: ok_or_def)

lemma ok_or_eq_Ok [simp]: "ok_or x e = Ok v \<longleftrightarrow> x = Some v"
  by (cases x) auto

lemma ok_or_not_Panic [simp]: "ok_or x e \<noteq> Panic"
  by (cases x) auto

lemma unwrap_simps [simp]: "unwrap (Ok x) = Ok x" "unwrap (Err e) = Panic" "unwrap Panic = Panic"
  by (simp_all add: unwrap_def)

lemma rbind_assoc: "rbind (rbind m f) g = rbind m (\<lambda>x. rbind (f x) g)"
  by (cases m) auto

lemma map_ok_rbind: "map_ok f m = rbind m (\<lambda>x. Ok (f x))"
  by (cases m) auto

text \<open>A loop that threads an accumulator and stops at the first error.\<close>

primrec try_foldl :: "('a \<Rightarrow> 'b \<Rightarrow> ('a, 'e) rresult) \<Rightarrow> 'a \<Rightarrow> 'b list \<Rightarrow> ('a, 'e) rresult" where
  "try_foldl f acc [] = Ok acc"
| "try_foldl f acc (x # xs) = rbind (f acc x) (\<lambda>a. try_foldl f a xs)"

lemma try_foldl_append: "try_foldl f acc (xs @ ys) = rbind (try_foldl f acc xs) (\<lambda>a. try_foldl f a ys)"
  by (induction xs arbitrary: acc) (simp_all add: rbind_assoc)

lemma try_foldl_snoc: "try_foldl f acc (xs @ [x]) = rbind (try_foldl f acc xs) (\<lambda>a. f a x)"
proof -
  have "rbind m Ok = m" for m :: "('a, 'b) rresult" by (cases m) simp_all
  then show ?thesis by (simp add: try_foldl_append)
qed

section \<open>I/O errors\<close>

datatype io_error_kind = InvalidInput | InvalidData | UnexpectedEof | PermissionDenied
  | TimedOut | OtherKind

text \<open>An \<open>io::Error\<close> is its kind and the text of its payload.\<close>

datatype io_error = IoError (io_kind: io_error_kind) (io_text: string)

definition eof_error :: io_error where
  "eof_error = IoError UnexpectedEof ''failed to fill whole buffer''"

section \<open>Overwriting a part of a buffer\<close>

text \<open>
  \<open>BigEndian::write_i32(&mut buf[base..], n)\<close> and its siblings: panics where the slice is
  too short.
\<close>

definition write_at :: "nat \<Rightarrow> bytes \<Rightarrow> bytes \<Rightarrow> (bytes, 'e) rresult" where
  "write_at base bs buf =
     (if base + length bs \<le> length buf
      then Ok (take base buf @ bs @ drop (base + length bs) buf) else Panic)"

lemma write_at_append [simp]:
  "length bs = length hole \<Longrightarrow> write_at (length pre) bs (pre @ hole @ post) = Ok (pre @ bs @ post)"
  by (simp add: write_at_def)

lemma write_at_append_end [simp]:
  "length bs = length hole \<Longrightarrow> write_at (length pre) bs (pre @ hole) = Ok (pre @ bs)"
  by (simp add: write_at_def)

section \<open>Decimal numbers\<close>

text \<open>\<open>Display\<close> for unsigned integers, and \<open>str::parse\<close> into an unsigned integer below a bound.\<close>

fun show_nat :: "nat \<Rightarrow> string" where
  "show_nat n = (if n < 10 then [char_of (48 + n)] else show_nat (n div 10) @ [char_of (48 + n mod 10)])"

declare show_nat.simps [simp del]

definition show_int :: "int \<Rightarrow> string" where
  "show_int i = (if i < 0 then ''-'' @ show_nat (nat (- i)) else show_nat (nat i))"

definition is_digit :: "char \<Rightarrow> bool" where
  "is_digit c \<longleftrightarrow> 48 \<le> (of_char c :: nat) \<and> (of_char c :: nat) \<le> 57"

definition digits_value :: "string \<Rightarrow> nat" where
  "digits_value s = foldl (\<lambda>a c. 10 * a + (of_char c - 48)) 0 s"

text \<open>
  The standard library's \<open>parse\<close> for an unsigned type: an optional leading plus sign, then
  at least one digit and nothing else, and the value must fit.
\<close>

definition strip_plus :: "string \<Rightarrow> string" where
  "strip_plus s = (case s of [] \<Rightarrow> [] | c # r \<Rightarrow> if c = CHR ''+'' then r else s)"

definition parse_unsigned :: "nat \<Rightarrow> string \<Rightarrow> nat option" where
  "parse_unsigned mx s =
     (let d = strip_plus s
      in if d \<noteq> [] \<and> list_all is_digit d \<and> digits_value d \<le> mx then Some (digits_value d) else None)"

text \<open>For a signed type: an optional sign, then digits, and the value must fit.\<close>

definition parse_signed :: "int \<Rightarrow> int \<Rightarrow> string \<Rightarrow> int option" where
  "parse_signed mn mx s =
     (let (neg, d) = (case s of [] \<Rightarrow> (False, [])
                      | c # r \<Rightarrow> if c = CHR ''-'' then (True, r) else if c = CHR ''+'' then (False, r) else (False, s));
          v = (if neg then - int (digits_value d) else int (digits_value d))
      in if d \<noteq> [] \<and> list_all is_digit d \<and> mn \<le> v \<and> v \<le> mx then Some v else None)"

lemma digits_value_append: "digits_value (a @ [c]) = 10 * digits_value a + (of_char c - 48)"
  by (simp add: digits_value_def)

lemma show_nat_digit: "n < 10 \<Longrightarrow> show_nat n = [char_of (48 + n)]"
  by (subst show_nat.simps) simp

lemma of_char_digit: "d < 10 \<Longrightarrow> (of_char (char_of (48 + d) :: char) :: nat) = 48 + d"
  by simp

lemma show_nat_digits: "list_all is_digit (show_nat n)"
proof (induction n rule: show_nat.induct)
  case (1 n)
  show ?case
  proof (cases "n < 10")
    case True
    then show ?thesis by (simp add: show_nat_digit is_digit_def)
  next
    case False
    with 1 have "list_all is_digit (show_nat (n div 10))" by simp
    moreover have "is_digit (char_of (48 + n mod 10))"
    proof -
      have "n mod 10 < 10" by simp
      then show ?thesis unfolding is_digit_def by (simp add: of_char_digit)
    qed
    ultimately show ?thesis using False by (subst show_nat.simps) simp
  qed
qed

lemma show_nat_not_Nil: "show_nat n \<noteq> []"
  by (subst show_nat.simps) simp

lemma digits_value_show_nat: "digits_value (show_nat n) = n"
proof (induction n rule: show_nat.induct)
  case (1 n)
  show ?case
  proof (cases "n < 10")
    case True
    then show ?thesis by (simp add: show_nat_digit digits_value_def)
  next
    case False
    have m: "n mod 10 < 10" by simp
    from False 1 have "digits_value (show_nat (n div 10)) = n div 10" by simp
    with False m show ?thesis
      by (subst show_nat.simps) (simp add: digits_value_append of_char_digit del: of_char_of)
  qed
qed

lemma show_nat_inject: "show_nat m = show_nat n \<Longrightarrow> m = n"
  by (metis digits_value_show_nat)

lemma is_digit_not_plus: "is_digit c \<Longrightarrow> c \<noteq> CHR ''+''"
  by (auto simp: is_digit_def)

lemma parse_show_nat: "n \<le> mx \<Longrightarrow> parse_unsigned mx (show_nat n) = Some n"
proof -
  assume "n \<le> mx"
  moreover have "strip_plus (show_nat n) = show_nat n"
    using show_nat_digits [of n] by (auto simp: strip_plus_def is_digit_def split: list.splits)
  ultimately show ?thesis
    by (simp add: parse_unsigned_def show_nat_digits show_nat_not_Nil digits_value_show_nat)
qed

section \<open>Lists\<close>

lemma append_eq_same_length:
  "length a = length c \<Longrightarrow> a @ b = c @ d \<longleftrightarrow> a = c \<and> b = d"
  by simp

lemma take_drop_split: "take n xs @ drop n xs = xs"
  by simp

end
