(* ===== verification/ByteOrder.thy ===== *)
theory ByteOrder
  imports Prelude
begin

text \<open>
  Big-endian integers on byte buffers: what \<open>bytes::BufMut::put_*\<close> writes and what
  \<open>byteorder::ReadBytesExt::read_*\<close> reads from a \<open>&[u8]\<close> (both are documented library
  behaviour that every message and value format of the repository rests on), the interface
  \<open>fixed_codec\<close> they meet, and the shape "read one value, then require the end of the
  buffer" that the value decoders share.
\<close>

section \<open>Positional notation\<close>

fun be_bytes :: "nat \<Rightarrow> nat \<Rightarrow> bytes" where
  "be_bytes 0 v = []"
| "be_bytes (Suc n) v = be_bytes n (v div 256) @ [of_nat v]"

definition be_val :: "bytes \<Rightarrow> nat" where
  "be_val bs = foldl (\<lambda>a b. a * 256 + unat b) 0 bs"

lemma length_be_bytes [simp]: "length (be_bytes n v) = n"
  by (induction n arbitrary: v) auto

lemma be_bytes_numeral: "be_bytes (numeral k) v = be_bytes (pred_numeral k) (v div 256) @ [of_nat v]"
  by (simp only: numeral_eq_Suc be_bytes.simps)

lemma be_val_Nil [simp]: "be_val [] = 0"
  by (simp add: be_val_def)

lemma be_val_snoc: "be_val (bs @ [b]) = be_val bs * 256 + unat b"
  by (simp add: be_val_def)

lemma unat_u8_less: "unat (b :: u8) < 256"
  using unsigned_less [of b] by simp

lemma unat_u8_of_nat: "unat (of_nat v :: u8) = v mod 256"
  by (simp add: unat_of_nat)

lemma be_val_be_bytes: "be_val (be_bytes n v) = v mod 256 ^ n"
proof (induction n arbitrary: v)
  case 0
  then show ?case by simp
next
  case (Suc n)
  have "v mod 256 ^ Suc n = 256 * (v div 256 mod 256 ^ n) + v mod 256"
    by (simp add: mod_mult2_eq mult.commute)
  with Suc show ?case by (simp add: be_val_snoc unat_u8_of_nat)
qed

lemma be_val_less: "be_val bs < 256 ^ length bs"
proof (induction bs rule: rev_induct)
  case Nil
  then show ?case by simp
next
  case (snoc b bs)
  have "be_val bs * 256 + unat b < (be_val bs + 1) * 256"
    using unat_u8_less [of b] by simp
  also have "\<dots> \<le> 256 ^ length bs * 256"
    using snoc by (intro mult_right_mono) auto
  finally show ?case by (simp add: be_val_snoc mult.commute)
qed

lemma be_bytes_be_val: "be_bytes (length bs) (be_val bs) = bs"
proof (induction bs rule: rev_induct)
  case Nil
  then show ?case by simp
next
  case (snoc b bs)
  have "(be_val bs * 256 + unat b) div 256 = be_val bs"
    using unat_u8_less [of b] by simp
  moreover have "(of_nat (be_val bs * 256 + unat b) :: u8) = b"
    using unat_u8_less [of b] by (simp only: word_unat_eq_iff unat_u8_of_nat) simp
  ultimately show ?case using snoc by (simp add: be_val_snoc)
qed

section \<open>Words as bytes\<close>

definition put_word :: "nat \<Rightarrow> 'a::len word \<Rightarrow> bytes" where
  "put_word n w = be_bytes n (unat w)"

text \<open>\<open>read_exact\<close> on a slice: all the bytes asked for, or the library's EOF error.\<close>

definition read_exact :: "nat \<Rightarrow> bytes \<Rightarrow> (bytes \<times> bytes, io_error) rresult" where
  "read_exact n buf = (if length buf < n then Err eof_error else Ok (take n buf, drop n buf))"

definition read_word :: "nat \<Rightarrow> bytes \<Rightarrow> ('a::len word \<times> bytes, io_error) rresult" where
  "read_word n buf = rbind (read_exact n buf) (\<lambda>(bs, r). Ok (of_nat (be_val bs), r))"

abbreviation put_u8 :: "u8 \<Rightarrow> bytes" where "put_u8 w \<equiv> [w]"
abbreviation put_u16 :: "u16 \<Rightarrow> bytes" where "put_u16 \<equiv> put_word 2"
abbreviation put_u32 :: "u32 \<Rightarrow> bytes" where "put_u32 \<equiv> put_word 4"
abbreviation put_u64 :: "u64 \<Rightarrow> bytes" where "put_u64 \<equiv> put_word 8"
abbreviation put_i8 :: "i8 \<Rightarrow> bytes" where "put_i8 w \<equiv> [w]"
abbreviation put_i16 :: "i16 \<Rightarrow> bytes" where "put_i16 \<equiv> put_word 2"
abbreviation put_i32 :: "i32 \<Rightarrow> bytes" where "put_i32 \<equiv> put_word 4"
abbreviation put_i64 :: "i64 \<Rightarrow> bytes" where "put_i64 \<equiv> put_word 8"

definition read_u8 :: "bytes \<Rightarrow> (u8 \<times> bytes, io_error) rresult" where
  "read_u8 buf = (case buf of [] \<Rightarrow> Err eof_error | b # r \<Rightarrow> Ok (b, r))"

abbreviation read_i8 :: "bytes \<Rightarrow> (i8 \<times> bytes, io_error) rresult" where "read_i8 \<equiv> read_u8"
abbreviation read_u16 :: "bytes \<Rightarrow> (u16 \<times> bytes, io_error) rresult" where "read_u16 \<equiv> read_word 2"
abbreviation read_u32 :: "bytes \<Rightarrow> (u32 \<times> bytes, io_error) rresult" where "read_u32 \<equiv> read_word 4"
abbreviation read_u64 :: "bytes \<Rightarrow> (u64 \<times> bytes, io_error) rresult" where "read_u64 \<equiv> read_word 8"
abbreviation read_i16 :: "bytes \<Rightarrow> (i16 \<times> bytes, io_error) rresult" where "read_i16 \<equiv> read_word 2"
abbreviation read_i32 :: "bytes \<Rightarrow> (i32 \<times> bytes, io_error) rresult" where "read_i32 \<equiv> read_word 4"
abbreviation read_i64 :: "bytes \<Rightarrow> (i64 \<times> bytes, io_error) rresult" where "read_i64 \<equiv> read_word 8"

lemma length_put_word [simp]: "length (put_word n w) = n"
  by (simp add: put_word_def)

lemma put_word_not_Nil [simp]: "0 < n \<Longrightarrow> put_word n w \<noteq> []"
  by (metis length_put_word less_irrefl list.size(3))

lemma read_exact_eq_Ok: "read_exact n buf = Ok (bs, r) \<longleftrightarrow> buf = bs @ r \<and> length bs = n"
  by (auto simp: read_exact_def)

lemma read_exact_append: "length bs = n \<Longrightarrow> read_exact n (bs @ r) = Ok (bs, r)"
  by (simp add: read_exact_def)

lemma read_exact_not_Panic [simp]: "read_exact n buf \<noteq> Panic"
  by (simp add: read_exact_def)

lemma read_word_not_Panic [simp]: "read_word n buf \<noteq> Panic"
  by (auto simp: read_word_def rbind_eq_Panic split: prod.splits)

lemma read_u8_not_Panic [simp]: "read_u8 buf \<noteq> Panic"
  by (simp add: read_u8_def split: list.splits)

lemma read_word_short: "length buf < n \<Longrightarrow> read_word n buf = Err eof_error"
  by (simp add: read_word_def read_exact_def)

lemma word_bytes_bound:
  assumes "8 * n = LENGTH('a::len)"
  shows "(256::nat) ^ n = 2 ^ LENGTH('a)"
proof -
  have "(256::nat) ^ n = (2 ^ 8) ^ n" by simp
  also have "\<dots> = 2 ^ LENGTH('a)" by (simp only: power_mult [symmetric] assms)
  finally show ?thesis .
qed

lemma read_put_word:
  assumes "8 * n = LENGTH('a::len)"
  shows "read_word n (put_word n (w :: 'a word) @ r) = Ok (w, r)"
proof -
  have "be_val (be_bytes n (unat w)) = unat w"
    using unsigned_less [of w] by (simp add: be_val_be_bytes word_bytes_bound [OF assms])
  then show ?thesis
    by (simp add: read_word_def read_exact_append put_word_def)
qed

lemma read_word_exact:
  assumes "8 * n = LENGTH('a::len)" and "read_word n buf = Ok (w :: 'a word, r)"
  shows "buf = put_word n w @ r"
proof -
  from assms(2) obtain bs where b: "buf = bs @ r" "length bs = n" "w = of_nat (be_val bs)"
    by (auto simp: read_word_def read_exact_eq_Ok)
  have "be_val bs < 2 ^ LENGTH('a)"
    using be_val_less [of bs] word_bytes_bound [OF assms(1)] b(2) by simp
  then have "unat w = be_val bs" by (simp add: b(3) unat_of_nat)
  then have "put_word n w = bs"
    using be_bytes_be_val [of bs] b(2) by (simp add: put_word_def)
  with b(1) show ?thesis by simp
qed

section \<open>The interface of a fixed-width value\<close>

text \<open>
  What a value decoder of the repository relies on: the reader returns what the writer
  wrote and leaves the rest, accepts nothing else, and reports end of file on fewer bytes.
\<close>

locale fixed_codec =
  fixes put :: "'v \<Rightarrow> bytes"
    and get :: "bytes \<Rightarrow> ('v \<times> bytes, io_error) rresult"
    and width :: nat
  assumes put_width: "length (put x) = width"
    and get_put: "get (put x @ r) = Ok (x, r)"
    and get_exact: "get b = Ok (x, r) \<Longrightarrow> b = put x @ r"
    and get_short: "length b < width \<Longrightarrow> get b = Err eof_error"
begin

lemma get_put_end: "get (put x) = Ok (x, [])"
  using get_put [of x "[]"] by simp

lemma put_inject: "put x = put y \<longleftrightarrow> x = y"
  by (metis get_put_end prod.inject rresult.inject(1))

lemma get_iff: "get b = Ok (x, r) \<longleftrightarrow> b = put x @ r"
  using get_put get_exact by blast

lemma get_decreases: "get b = Ok (x, r) \<Longrightarrow> length b = width + length r"
  using get_exact put_width by fastforce

end

lemma read_u8_iff: "read_u8 b = Ok (x, r) \<longleftrightarrow> b = x # r"
  by (auto simp: read_u8_def split: list.splits)

interpretation u8c: fixed_codec "\<lambda>w. put_u8 w" read_u8 1
  by unfold_locales (auto simp: read_u8_def split: list.splits)

interpretation u16c: fixed_codec put_u16 read_u16 2
  by unfold_locales (auto simp: read_put_word read_word_short dest: read_word_exact [rotated])

interpretation u32c: fixed_codec put_u32 read_u32 4
  by unfold_locales (auto simp: read_put_word read_word_short dest: read_word_exact [rotated])

interpretation u64c: fixed_codec put_u64 read_u64 8
  by unfold_locales (auto simp: read_put_word read_word_short dest: read_word_exact [rotated])

lemmas word_reads [reader_simps] = u16c.get_put u32c.get_put u64c.get_put
  u16c.get_put_end u32c.get_put_end u64c.get_put_end

section \<open>One value and nothing after it\<close>

text \<open>
  The errors a value codec returns (\<open>Box<dyn Error>\<close>): a text, an \<open>io::Error\<close>, a UTF-8 error,
  the \<open>WasNull\<close> of a value that cannot be \<open>NULL\<close>, or the \<open>WrongType\<close> of the names of a
  PostgreSQL type and of a Rust type, which callers look for by downcasting.
\<close>

datatype sql_error = Msg string | Io io_error | Utf8Error | WasNull | WrongType string string

definition whole_value ::
  "(bytes \<Rightarrow> ('v \<times> bytes, io_error) rresult) \<Rightarrow> string \<Rightarrow> bytes \<Rightarrow> ('v, sql_error) rresult" where
  "whole_value get msg buf =
     rbind (map_err Io (get buf)) (\<lambda>(v, rest). if rest \<noteq> [] then Err (Msg msg) else Ok v)"

context fixed_codec
begin

lemma whole_iff: "whole_value get msg b = Ok x \<longleftrightarrow> b = put x"
  by (auto simp: whole_value_def get_iff split: prod.splits if_splits)

lemma whole_put: "whole_value get msg (put x) = Ok x"
  by (simp add: whole_iff)

lemma whole_length: "whole_value get msg b = Ok x \<Longrightarrow> length b = width"
  by (simp add: whole_iff put_width)

lemma whole_short: "length b < width \<Longrightarrow> whole_value get msg b = Err (Io eof_error)"
  by (simp add: whole_value_def get_short)

lemma whole_long: "whole_value get msg (put x @ r) = (if r = [] then Ok x else Err (Msg msg))"
  using get_put [of x r] by (simp add: whole_value_def)

lemma whole_too_long: "get b = Ok (x, r) \<Longrightarrow> width < length b \<Longrightarrow> whole_value get msg b = Err (Msg msg)"
  using get_decreases [of b x r] by (auto simp: whole_value_def)

end

lemma read_word_long: "n \<le> length b \<Longrightarrow> \<exists>x r. read_word n b = Ok (x, r)"
  by (simp add: read_word_def read_exact_def)

lemma read_word_cases:
  "read_word n b = (if length b < n then Err eof_error else Ok (of_nat (be_val (take n b)), drop n b))"
  by (simp add: read_word_def read_exact_def)

text \<open>The whole behaviour of a fixed-width decoder, by the length of its input.\<close>

lemma whole_value_word:
  "whole_value (read_word n) msg b =
     (if length b < n then Err (Io eof_error)
      else if length b = n then Ok (of_nat (be_val b)) else Err (Msg msg))"
  by (simp add: whole_value_def read_word_cases)

lemma whole_value_not_Panic: "(\<And>b. get b \<noteq> Panic) \<Longrightarrow> whole_value get msg b \<noteq> Panic"
  by (auto simp: whole_value_def rbind_eq_Panic split: prod.splits if_splits)

end
