(* ===== verification/Writers.thy ===== *)
theory Writers
  imports ByteOrder
begin

text \<open>
  Serializers write to a \<open>BytesMut\<close>: state passing over the buffer, with the buffer kept on
  every outcome, because an early return leaves what was already written in it
  (\<open>postgres-protocol/src/lib.rs\<close>: \<open>IsNull\<close>, \<open>FromUsize\<close>, \<open>write_nullable\<close>;
  \<open>message/frontend.rs\<close>: \<open>write_body\<close>, \<open>write_counted\<close>, \<open>write_cstr\<close>).

  The code reserves the room of a length field, writes the rest and patches the field.
  The relation \<open>denotes w r\<close> abstracts from that: on every buffer the serializer \<open>w\<close> behaves
  as the pure image \<open>r\<close> says, appending the bytes of an \<open>Ok\<close> image and leaving the old
  contents alone on each outcome. Its rules let the message theories prove each serializer
  against a pure functional format.
\<close>

section \<open>The writer monad\<close>

type_synonym ('a, 'e) writer = "bytes \<Rightarrow> ('a, 'e) rresult \<times> bytes"

definition wok :: "'a \<Rightarrow> ('a, 'e) writer" where
  "wok x buf = (Ok x, buf)"

definition wres :: "('a, 'e) rresult \<Rightarrow> ('a, 'e) writer" where
  "wres r buf = (r, buf)"

definition wbind :: "('a, 'e) writer \<Rightarrow> ('a \<Rightarrow> ('b, 'e) writer) \<Rightarrow> ('b, 'e) writer" where
  "wbind m f buf =
     (case m buf of (Ok x, b) \<Rightarrow> f x b | (Err e, b) \<Rightarrow> (Err e, b) | (Panic, b) \<Rightarrow> (Panic, b))"

definition wseq :: "('a, 'e) writer \<Rightarrow> ('b, 'e) writer \<Rightarrow> ('b, 'e) writer" where
  "wseq m n = wbind m (\<lambda>_. n)"

text \<open>\<open>put_slice\<close>, \<open>put_u8\<close>, \<open>put_i32\<close> and their kin.\<close>

definition put :: "bytes \<Rightarrow> (unit, 'e) writer" where
  "put bs buf = (Ok (), buf @ bs)"

definition with_len :: "(nat \<Rightarrow> ('a, 'e) rresult) \<Rightarrow> ('a, 'e) writer" where
  "with_len f buf = (f (length buf), buf)"

definition overwrite :: "nat \<Rightarrow> bytes \<Rightarrow> (unit, 'e) writer" where
  "overwrite base bs buf =
     (case write_at base bs buf of Ok b \<Rightarrow> (Ok (), b) | Err e \<Rightarrow> (Err e, buf) | Panic \<Rightarrow> (Panic, buf))"

definition usize_sub :: "nat \<Rightarrow> nat \<Rightarrow> (nat, 'e) rresult" where
  "usize_sub a b = (if b \<le> a then Ok (a - b) else Panic)"

text \<open>A loop over the items that stops at the first error.\<close>

primrec write_all :: "('t \<Rightarrow> (unit, 'e) writer) \<Rightarrow> 't list \<Rightarrow> (unit, 'e) writer" where
  "write_all ser [] = wok ()"
| "write_all ser (x # xs) = wseq (ser x) (write_all ser xs)"

section \<open>The shared pieces of the protocol crate\<close>

datatype is_null = Yes | No

definition too_large :: io_error where
  "too_large = IoError InvalidInput ''value too large to transmit''"

definition i16_from_usize :: "nat \<Rightarrow> (i16, io_error) rresult" where
  "i16_from_usize x = (if x > 32767 then Err too_large else Ok (of_nat x))"

definition u16_from_usize :: "nat \<Rightarrow> (u16, io_error) rresult" where
  "u16_from_usize x = (if x > 65535 then Err too_large else Ok (of_nat x))"

definition i32_from_usize :: "nat \<Rightarrow> (i32, io_error) rresult" where
  "i32_from_usize x = (if x > 2147483647 then Err too_large else Ok (of_nat x))"

definition write_nullable :: "(io_error \<Rightarrow> 'e) \<Rightarrow> (is_null, 'e) writer \<Rightarrow> (unit, 'e) writer" where
  "write_nullable from_io serializer buf =
     (let base = length buf in
      wseq (put (put_i32 0))
        (wbind serializer (\<lambda>null.
          wbind (case null of
                   No \<Rightarrow> with_len (\<lambda>len. rbind (usize_sub len (base + 4)) (\<lambda>n. map_err from_io (i32_from_usize n)))
                 | Yes \<Rightarrow> wok (- 1)) (\<lambda>size.
          overwrite base (put_i32 size)))) buf)"

definition write_body :: "(io_error \<Rightarrow> 'e) \<Rightarrow> (unit, 'e) writer \<Rightarrow> (unit, 'e) writer" where
  "write_body from_io f buf =
     (let base = length buf in
      wseq (put [0, 0, 0, 0])
        (wseq f
          (wbind (with_len (\<lambda>len. rbind (usize_sub len base) (\<lambda>n. map_err from_io (i32_from_usize n)))) (\<lambda>size.
          overwrite base (put_i32 size)))) buf)"

definition write_counted ::
  "(io_error \<Rightarrow> 'e) \<Rightarrow> ('t \<Rightarrow> (unit, 'e) writer) \<Rightarrow> 't list \<Rightarrow> (unit, 'e) writer" where
  "write_counted from_io serializer items buf =
     (let base = length buf in
      wseq (put [0, 0])
        (wseq (write_all serializer items)
          (wbind (wres (map_err from_io (u16_from_usize (length items)))) (\<lambda>count.
          overwrite base (put_u16 count)))) buf)"

definition embedded_null :: io_error where
  "embedded_null = IoError InvalidInput ''string contains embedded null''"

definition write_cstr :: "bytes \<Rightarrow> (unit, io_error) writer" where
  "write_cstr s = (if 0 \<in> set s then wres (Err embedded_null) else wseq (put s) (put [0]))"

section \<open>Pure images\<close>

type_synonym 'e image = "(bytes, 'e) rresult"

definition outcome :: "'e image \<Rightarrow> bytes \<Rightarrow> (unit, 'e) rresult \<times> bytes \<Rightarrow> bool" where
  "outcome r buf o' \<longleftrightarrow>
     (case r of Ok ext \<Rightarrow> o' = (Ok (), buf @ ext)
      | Err e \<Rightarrow> (\<exists>junk. o' = (Err e, buf @ junk))
      | Panic \<Rightarrow> (\<exists>junk. o' = (Panic, buf @ junk)))"

definition denotes :: "(unit, 'e) writer \<Rightarrow> 'e image \<Rightarrow> bool" where
  "denotes w r \<longleftrightarrow> (\<forall>buf. outcome r buf (w buf))"

text \<open>The same for a serializer that may report \<open>NULL\<close>: the image is then \<open>None\<close>.\<close>

definition vdenotes :: "(is_null, 'e) writer \<Rightarrow> (bytes option, 'e) rresult \<Rightarrow> bool" where
  "vdenotes w r \<longleftrightarrow>
     (\<forall>buf. case r of
        Ok (Some ext) \<Rightarrow> w buf = (Ok No, buf @ ext)
      | Ok None \<Rightarrow> w buf = (Ok Yes, buf)
      | Err e \<Rightarrow> (\<exists>junk. w buf = (Err e, buf @ junk))
      | Panic \<Rightarrow> (\<exists>junk. w buf = (Panic, buf @ junk)))"

definition icat :: "'e image \<Rightarrow> 'e image \<Rightarrow> 'e image" where
  "icat a b = rbind a (\<lambda>x. map_ok (append x) b)"

primrec iconcat :: "'e image list \<Rightarrow> 'e image" where
  "iconcat [] = Ok []"
| "iconcat (r # rs) = icat r (iconcat rs)"

definition cstr_image :: "bytes \<Rightarrow> io_error image" where
  "cstr_image s = (if 0 \<in> set s then Err embedded_null else Ok (s @ [0]))"

definition body_image :: "(io_error \<Rightarrow> 'e) \<Rightarrow> 'e image \<Rightarrow> 'e image" where
  "body_image from_io r =
     rbind r (\<lambda>ext. map_ok (\<lambda>n. put_i32 n @ ext) (map_err from_io (i32_from_usize (length ext + 4))))"

definition counted_image :: "(io_error \<Rightarrow> 'e) \<Rightarrow> 'e image list \<Rightarrow> 'e image" where
  "counted_image from_io rs =
     rbind (iconcat rs) (\<lambda>ext. map_ok (\<lambda>n. put_u16 n @ ext) (map_err from_io (u16_from_usize (length rs))))"

definition nullable_image :: "(io_error \<Rightarrow> 'e) \<Rightarrow> (bytes option, 'e) rresult \<Rightarrow> 'e image" where
  "nullable_image from_io r =
     rbind r (\<lambda>v. case v of None \<Rightarrow> Ok (put_i32 (- 1))
                 | Some ext \<Rightarrow> map_ok (\<lambda>n. put_i32 n @ ext) (map_err from_io (i32_from_usize (length ext))))"

lemmas writer_defs = wok_def wres_def wbind_def wseq_def put_def with_len_def overwrite_def

lemma i32_from_usize_not_Panic [simp]: "i32_from_usize n \<noteq> Panic"
  by (simp add: i32_from_usize_def)

lemma u16_from_usize_not_Panic [simp]: "u16_from_usize n \<noteq> Panic"
  by (simp add: u16_from_usize_def)

lemma icat_Ok [simp]: "icat (Ok a) (Ok b) = Ok (a @ b)"
  by (simp add: icat_def)

lemma icat_Nil [simp]: "icat (Ok []) r = r"
  by (cases r) (auto simp: icat_def)

lemma icat_not_Panic: "a \<noteq> Panic \<Longrightarrow> b \<noteq> Panic \<Longrightarrow> icat a b \<noteq> Panic"
  by (cases a) (auto simp: icat_def)

section \<open>Composition rules\<close>

lemma denotesI:
  assumes "\<And>buf. outcome r buf (w buf)"
  shows "denotes w r"
  using assms by (simp add: denotes_def)

lemma denotesD: "denotes w r \<Longrightarrow> outcome r buf (w buf)"
  by (simp add: denotes_def)

lemma denotes_Ok_iff: "denotes w (Ok ext) \<longleftrightarrow> (\<forall>buf. w buf = (Ok (), buf @ ext))"
  by (simp add: denotes_def outcome_def)

lemma denotes_append_only: "denotes w r \<Longrightarrow> \<exists>ext. snd (w buf) = buf @ ext"
  by (drule denotesD [of _ _ buf]) (auto simp: outcome_def split: rresult.splits)

lemma denotes_fst: "denotes w r \<Longrightarrow> fst (w buf) = map_ok (\<lambda>_. ()) r"
  by (drule denotesD [of _ _ buf]) (auto simp: outcome_def split: rresult.splits)

lemma denotes_run: "denotes w (Ok ext) \<Longrightarrow> w buf = (Ok (), buf @ ext)"
  by (simp add: denotes_Ok_iff)

lemma denotes_put [appends_intros]: "denotes (put bs) (Ok bs)"
  by (simp add: denotes_Ok_iff put_def)

lemma denotes_wok [appends_intros]: "denotes (wok ()) (Ok [])"
  by (simp add: denotes_Ok_iff wok_def)

lemma denotes_wseq [appends_intros]:
  assumes "denotes m a" and "denotes n b"
  shows "denotes (wseq m n) (icat a b)"
proof (rule denotesI)
  fix buf
  show "outcome (icat a b) buf (wseq m n buf)"
  proof (cases a)
    case (Ok ext)
    with assms(1) have m: "m buf = (Ok (), buf @ ext)" by (simp add: denotes_run)
    show ?thesis
      using denotesD [OF assms(2), of "buf @ ext"] m Ok
      by (cases b) (auto simp: outcome_def wseq_def wbind_def icat_def)
  next
    case (Err e)
    then show ?thesis
      using denotesD [OF assms(1), of buf] by (auto simp: outcome_def wseq_def wbind_def icat_def)
  next
    case Panic
    then show ?thesis
      using denotesD [OF assms(1), of buf] by (auto simp: outcome_def wseq_def wbind_def icat_def)
  qed
qed

lemma denotes_write_cstr [appends_intros]: "denotes (write_cstr s) (cstr_image s)"
  by (auto simp: denotes_def outcome_def write_cstr_def cstr_image_def writer_defs)

lemma denotes_write_all [appends_intros]:
  assumes "\<And>x. x \<in> set xs \<Longrightarrow> denotes (ser x) (img x)"
  shows "denotes (write_all ser xs) (iconcat (map img xs))"
  using assms by (induction xs) (auto intro: appends_intros)

lemma overwrite_hole:
  "length bs = length hole \<Longrightarrow> overwrite (length buf) bs (buf @ hole @ ext) = (Ok (), buf @ bs @ ext)"
  by (simp add: overwrite_def)

lemma denotes_write_body [appends_intros]:
  assumes "denotes f r"
  shows "denotes (write_body from_io f) (body_image from_io r)"
proof (rule denotesI)
  fix buf
  have o: "outcome r (buf @ [0, 0, 0, 0]) (f (buf @ [0, 0, 0, 0]))"
    using assms by (rule denotesD)
  show "outcome (body_image from_io r) buf (write_body from_io f buf)"
  proof (cases r)
    case (Ok ext)
    with o have "f (buf @ [0, 0, 0, 0]) = (Ok (), buf @ [0, 0, 0, 0] @ ext)" by (simp add: outcome_def)
    then show ?thesis
      using Ok overwrite_hole [of "put_i32 _" "[0, 0, 0, 0]" buf ext]
      by (auto simp: write_body_def body_image_def outcome_def wseq_def wbind_def put_def
          with_len_def usize_sub_def i32_from_usize_def add.commute)
  qed (use o in \<open>auto simp: write_body_def body_image_def outcome_def wseq_def wbind_def put_def\<close>)
qed

lemma denotes_write_counted [appends_intros]:
  assumes "\<And>x. x \<in> set xs \<Longrightarrow> denotes (ser x) (img x)"
  shows "denotes (write_counted from_io ser xs) (counted_image from_io (map img xs))"
proof (rule denotesI)
  fix buf
  let ?r = "iconcat (map img xs)"
  have o: "outcome ?r (buf @ [0, 0]) (write_all ser xs (buf @ [0, 0]))"
    using denotes_write_all [OF assms] by (rule denotesD)
  show "outcome (counted_image from_io (map img xs)) buf (write_counted from_io ser xs buf)"
  proof (cases ?r)
    case (Ok ext)
    with o have "write_all ser xs (buf @ [0, 0]) = (Ok (), buf @ [0, 0] @ ext)" by (simp add: outcome_def)
    then show ?thesis
      using Ok overwrite_hole [of "put_u16 _" "[0, 0]" buf ext]
      by (auto simp: write_counted_def counted_image_def outcome_def wseq_def wbind_def put_def
          wres_def u16_from_usize_def)
  qed (use o in \<open>auto simp: write_counted_def counted_image_def outcome_def wseq_def wbind_def put_def\<close>)
qed

lemma denotes_write_nullable [appends_intros]:
  assumes "vdenotes w r"
  shows "denotes (write_nullable from_io w) (nullable_image from_io r)"
proof (rule denotesI)
  fix buf
  let ?b = "buf @ put_i32 0"
  show "outcome (nullable_image from_io r) buf (write_nullable from_io w buf)"
  proof (cases r)
    case (Ok v)
    show ?thesis
    proof (cases v)
      case None
      with Ok assms have "w ?b = (Ok Yes, ?b)" by (force simp: vdenotes_def)
      then show ?thesis
        using Ok None overwrite_hole [of "put_i32 _" "put_i32 0" buf "[]"]
        by (auto simp: write_nullable_def nullable_image_def outcome_def wseq_def wbind_def put_def wok_def)
    next
      case (Some ext)
      with Ok assms have "w ?b = (Ok No, buf @ put_i32 0 @ ext)" by (force simp: vdenotes_def)
      then show ?thesis
        using Ok Some overwrite_hole [of "put_i32 _" "put_i32 0" buf ext]
        by (auto simp: write_nullable_def nullable_image_def outcome_def wseq_def wbind_def put_def
            with_len_def usize_sub_def i32_from_usize_def)
    qed
  next
    case (Err e)
    with assms have "\<forall>b. \<exists>junk. w b = (Err e, b @ junk)" by (simp add: vdenotes_def)
    then obtain junk where "w ?b = (Err e, ?b @ junk)" by blast
    with Err show ?thesis
      by (auto simp: write_nullable_def nullable_image_def outcome_def wseq_def wbind_def put_def)
  next
    case Panic
    with assms have "\<forall>b. \<exists>junk. w b = (Panic, b @ junk)" by (simp add: vdenotes_def)
    then obtain junk where "w ?b = (Panic, ?b @ junk)" by blast
    with Panic show ?thesis
      by (auto simp: write_nullable_def nullable_image_def outcome_def wseq_def wbind_def put_def)
  qed
qed

section \<open>The interface of a value serializer\<close>

text \<open>
  The closure a caller hands to \<open>bind\<close> or \<open>array_to_sql\<close>: it appends the bytes of the value,
  or appends nothing and reports \<open>NULL\<close>, or fails.
\<close>

locale value_serializer =
  fixes ser :: "'v \<Rightarrow> (is_null, 'e) writer"
    and img :: "'v \<Rightarrow> (bytes option, 'e) rresult"
    and from_io :: "io_error \<Rightarrow> 'e"
  assumes ser_denotes: "vdenotes (ser v) (img v)"
begin

lemma nullable: "denotes (write_nullable from_io (ser v)) (nullable_image from_io (img v))"
  by (rule denotes_write_nullable) (rule ser_denotes)

lemma counted_values:
  "denotes (write_counted from_io (\<lambda>v. write_nullable from_io (ser v)) vs)
     (counted_image from_io (map (\<lambda>v. nullable_image from_io (img v)) vs))"
  by (rule denotes_write_counted) (rule nullable)

lemma all_values:
  "denotes (write_all (\<lambda>v. write_nullable from_io (ser v)) vs)
     (iconcat (map (\<lambda>v. nullable_image from_io (img v)) vs))"
  by (rule denotes_write_all) (rule nullable)

end

end
