(* ===== verification/Frontend.thy ===== *)
theory Frontend
  imports Writers
begin

text \<open>
  \<open>postgres-protocol/src/message/frontend.rs\<close>: every frontend message as a serializer, each
  with its pure image (\<open>*_image\<close>) and the theorem that the serializer denotes it.
\<close>

section \<open>Serializers\<close>

definition tag :: "char \<Rightarrow> bytes" where
  "tag c = [of_char c]"

definition map_werr :: "('e \<Rightarrow> 'd) \<Rightarrow> ('a, 'e) writer \<Rightarrow> ('a, 'd) writer" where
  "map_werr g w buf = (map_err g (fst (w buf)), snd (w buf))"

definition wunwrap :: "('a, 'e) writer \<Rightarrow> ('a, 'd) writer" where
  "wunwrap w buf = (unwrap (fst (w buf)), snd (w buf))"

datatype 'c bind_error = Conversion 'c | Serialization io_error

text \<open>
  \<open>boxed\<close> is \<open>From<io::Error> for Box<dyn Error>\<close>: an over-long value or too many values are
  reported through the conversion error, the rest of the message through \<open>Serialization\<close>.
\<close>

definition bind ::
  "(io_error \<Rightarrow> 'c) \<Rightarrow> str \<Rightarrow> str \<Rightarrow> i16 list \<Rightarrow> 't list \<Rightarrow> ('t \<Rightarrow> (is_null, 'c) writer) \<Rightarrow> i16 list
    \<Rightarrow> (unit, 'c bind_error) writer" where
  "bind boxed portal statement formats values serializer result_formats =
     wseq (put (tag CHR ''B''))
       (write_body Serialization
         (wseq (map_werr Serialization (write_cstr (as_bytes portal)))
         (wseq (map_werr Serialization (write_cstr (as_bytes statement)))
         (wseq (map_werr Serialization (write_counted id (\<lambda>f. put (put_i16 f)) formats))
         (wseq (map_werr Conversion (write_counted boxed (\<lambda>v. write_nullable boxed (serializer v)) values))
               (map_werr Serialization (write_counted id (\<lambda>f. put (put_i16 f)) result_formats)))))))"

definition cancel_request :: "i32 \<Rightarrow> i32 \<Rightarrow> (unit, io_error) writer" where
  "cancel_request process_id secret_key =
     wunwrap (write_body id
       (wseq (put (put_i32 80877102)) (wseq (put (put_i32 process_id)) (put (put_i32 secret_key))))
       :: (unit, io_error) writer)"

definition close :: "u8 \<Rightarrow> str \<Rightarrow> (unit, io_error) writer" where
  "close variant nm =
     wseq (put (tag CHR ''C'')) (write_body id (wseq (put (put_u8 variant)) (write_cstr (as_bytes nm))))"

record copy_data =
  cd_buf :: bytes
  cd_len :: i32

definition checked_add_usize :: "nat \<Rightarrow> nat \<Rightarrow> nat option" where
  "checked_add_usize a b = (if a + b < 2 ^ 64 then Some (a + b) else None)"

definition i32_try_from :: "nat \<Rightarrow> i32 option" where
  "i32_try_from n = (if n \<le> 2147483647 then Some (of_nat n) else None)"

definition copy_data_new :: "bytes \<Rightarrow> (copy_data, io_error) rresult" where
  "copy_data_new buf =
     map_ok (\<lambda>len. \<lparr>cd_buf = buf, cd_len = len\<rparr>)
       (ok_or (Option.bind (checked_add_usize (length buf) 4) i32_try_from)
          (IoError InvalidInput ''message length overflow''))"

definition copy_data_write :: "copy_data \<Rightarrow> (unit, 'e) writer" where
  "copy_data_write d = wseq (put (tag CHR ''d'')) (wseq (put (put_i32 (cd_len d))) (put (cd_buf d)))"

definition copy_done :: "(unit, 'e) writer" where
  "copy_done = wseq (put (tag CHR ''c'')) (wunwrap (write_body id (wok ()) :: (unit, io_error) writer))"

definition copy_fail :: "str \<Rightarrow> (unit, io_error) writer" where
  "copy_fail message = wseq (put (tag CHR ''f'')) (write_body id (write_cstr (as_bytes message)))"

definition describe :: "u8 \<Rightarrow> str \<Rightarrow> (unit, io_error) writer" where
  "describe variant nm =
     wseq (put (tag CHR ''D'')) (write_body id (wseq (put (put_u8 variant)) (write_cstr (as_bytes nm))))"

definition execute :: "str \<Rightarrow> i32 \<Rightarrow> (unit, io_error) writer" where
  "execute portal max_rows =
     wseq (put (tag CHR ''E'')) (write_body id (wseq (write_cstr (as_bytes portal)) (put (put_i32 max_rows))))"

definition parse :: "str \<Rightarrow> str \<Rightarrow> u32 list \<Rightarrow> (unit, io_error) writer" where
  "parse nm query param_types =
     wseq (put (tag CHR ''P''))
       (write_body id
         (wseq (write_cstr (as_bytes nm))
         (wseq (write_cstr (as_bytes query))
               (write_counted id (\<lambda>t. put (put_u32 t)) param_types))))"

definition password_message :: "bytes \<Rightarrow> (unit, io_error) writer" where
  "password_message password = wseq (put (tag CHR ''p'')) (write_body id (write_cstr password))"

definition query :: "str \<Rightarrow> (unit, io_error) writer" where
  "query q = wseq (put (tag CHR ''Q'')) (write_body id (write_cstr (as_bytes q)))"

definition sasl_initial_response :: "str \<Rightarrow> bytes \<Rightarrow> (unit, io_error) writer" where
  "sasl_initial_response mechanism data =
     wseq (put (tag CHR ''p''))
       (write_body id
         (wseq (write_cstr (as_bytes mechanism))
           (wbind (wres (i32_from_usize (length data))) (\<lambda>len.
             wseq (put (put_i32 len)) (put data)))))"

definition sasl_response :: "bytes \<Rightarrow> (unit, io_error) writer" where
  "sasl_response data = wseq (put (tag CHR ''p'')) (write_body id (put data))"

definition ssl_request :: "(unit, 'e) writer" where
  "ssl_request = wunwrap (write_body id (put (put_i32 80877103)) :: (unit, io_error) writer)"

definition startup_message :: "(str \<times> str) list \<Rightarrow> (unit, io_error) writer" where
  "startup_message parameters =
     write_body id
       (wseq (put (put_i32 0x00030000))
       (wseq (write_all (\<lambda>(key, value). wseq (write_cstr (as_bytes key)) (write_cstr (as_bytes value))) parameters)
             (put (put_u8 0))))"

definition flush :: "(unit, 'e) writer" where
  "flush = wseq (put (tag CHR ''H'')) (wunwrap (write_body id (wok ()) :: (unit, io_error) writer))"

definition sync :: "(unit, 'e) writer" where
  "sync = wseq (put (tag CHR ''S'')) (wunwrap (write_body id (wok ()) :: (unit, io_error) writer))"

definition terminate :: "(unit, 'e) writer" where
  "terminate = wseq (put (tag CHR ''X'')) (wunwrap (write_body id (wok ()) :: (unit, io_error) writer))"

section \<open>Images\<close>

definition frame :: "char \<Rightarrow> io_error image \<Rightarrow> io_error image" where
  "frame c r = icat (Ok (tag c)) (body_image id r)"

lemma denotes_map_werr [appends_intros]: "denotes w r \<Longrightarrow> denotes (map_werr g w) (map_err g r)"
  unfolding denotes_def outcome_def map_werr_def
  by (cases r) (auto, (metis fst_conv snd_conv map_err.simps)+)

lemma denotes_wunwrap: "denotes w (Ok ext) \<Longrightarrow> denotes (wunwrap w) (Ok ext)"
  by (simp add: denotes_Ok_iff wunwrap_def)

lemma denotes_frame [appends_intros]:
  "denotes f r \<Longrightarrow> denotes (wseq (put (tag c)) (write_body id f)) (frame c r)"
  unfolding frame_def by (intro appends_intros)

lemma iconcat_Ok: "iconcat (map (\<lambda>x. Ok (f x)) xs) = Ok (concat (map f xs))"
  by (induction xs) auto

lemma frame_eq_Ok:
  "frame c r = Ok ext \<longleftrightarrow>
     (\<exists>payload. r = Ok payload \<and> length payload + 4 \<le> 2147483647 \<and>
        ext = tag c @ put_i32 (of_nat (length payload + 4)) @ payload)"
  by (cases r) (auto simp: frame_def body_image_def i32_from_usize_def icat_def)

lemma body_image_eq_Ok:
  "body_image id r = Ok ext \<longleftrightarrow>
     (\<exists>payload. r = Ok payload \<and> length payload + 4 \<le> 2147483647 \<and>
        ext = put_i32 (of_nat (length payload + 4)) @ payload)"
  by (cases r) (auto simp: body_image_def i32_from_usize_def)

definition frame_bytes :: "char \<Rightarrow> bytes \<Rightarrow> bytes" where
  "frame_bytes c payload = tag c @ put_i32 (of_nat (length payload + 4)) @ payload"

text \<open>The two-byte counted array of fixed-width items.\<close>

definition counted_bytes :: "('t \<Rightarrow> bytes) \<Rightarrow> 't list \<Rightarrow> bytes" where
  "counted_bytes f xs = put_u16 (of_nat (length xs)) @ concat (map f xs)"

lemma counted_image_Ok:
  "counted_image id (map (\<lambda>x. Ok (f x)) xs) =
     (if length xs > 65535 then Err too_large else Ok (counted_bytes f xs))"
  by (simp add: counted_image_def iconcat_Ok u16_from_usize_def counted_bytes_def)

definition parse_image :: "str \<Rightarrow> str \<Rightarrow> u32 list \<Rightarrow> io_error image" where
  "parse_image nm q ts =
     frame CHR ''P'' (icat (cstr_image (as_bytes nm)) (icat (cstr_image (as_bytes q))
       (counted_image id (map (\<lambda>t. Ok (put_u32 t)) ts))))"

definition startup_image :: "(str \<times> str) list \<Rightarrow> io_error image" where
  "startup_image ps =
     body_image id (icat (Ok (put_i32 0x00030000))
       (icat (iconcat (map (\<lambda>p. icat (cstr_image (as_bytes (fst p))) (cstr_image (as_bytes (snd p)))) ps)) (Ok [0])))"

definition bind_image ::
  "(io_error \<Rightarrow> 'c) \<Rightarrow> str \<Rightarrow> str \<Rightarrow> i16 list \<Rightarrow> (bytes option, 'c) rresult list \<Rightarrow> i16 list
    \<Rightarrow> 'c bind_error image" where
  "bind_image boxed portal statement formats imgs result_formats =
     icat (Ok (tag CHR ''B''))
       (body_image Serialization
         (icat (map_err Serialization (cstr_image (as_bytes portal)))
         (icat (map_err Serialization (cstr_image (as_bytes statement)))
         (icat (map_err Serialization (counted_image id (map (\<lambda>f. Ok (put_i16 f)) formats)))
         (icat (map_err Conversion (counted_image boxed (map (nullable_image boxed) imgs)))
               (map_err Serialization (counted_image id (map (\<lambda>f. Ok (put_i16 f)) result_formats))))))))"

section \<open>Every serializer denotes its image\<close>

lemma parse_denotes: "denotes (parse nm q ts) (parse_image nm q ts)"
  unfolding parse_def parse_image_def by (intro appends_intros)

lemma query_denotes: "denotes (query q) (frame CHR ''Q'' (cstr_image (as_bytes q)))"
  unfolding query_def by (intro appends_intros)

lemma password_denotes: "denotes (password_message p) (frame CHR ''p'' (cstr_image p))"
  unfolding password_message_def by (intro appends_intros)

lemma close_denotes:
  "denotes (close v nm) (frame CHR ''C'' (icat (Ok [v]) (cstr_image (as_bytes nm))))"
  unfolding close_def by (intro appends_intros)

lemma describe_denotes:
  "denotes (describe v nm) (frame CHR ''D'' (icat (Ok [v]) (cstr_image (as_bytes nm))))"
  unfolding describe_def by (intro appends_intros)

lemma execute_denotes:
  "denotes (execute p n) (frame CHR ''E'' (icat (cstr_image (as_bytes p)) (Ok (put_i32 n))))"
  unfolding execute_def by (intro appends_intros)

lemma copy_fail_denotes: "denotes (copy_fail m) (frame CHR ''f'' (cstr_image (as_bytes m)))"
  unfolding copy_fail_def by (intro appends_intros)

lemma sasl_response_denotes: "denotes (sasl_response d) (frame CHR ''p'' (Ok d))"
  unfolding sasl_response_def by (intro appends_intros)

lemma sasl_data_denotes [appends_intros]:
  "denotes (wbind (wres (i32_from_usize (length d))) (\<lambda>len. wseq (put (put_i32 len)) (put d)))
     (rbind (i32_from_usize (length d)) (\<lambda>len. Ok (put_i32 len @ d)))"
  by (auto simp: denotes_def outcome_def writer_defs i32_from_usize_def)

lemma sasl_initial_denotes:
  "denotes (sasl_initial_response m d)
     (frame CHR ''p'' (icat (cstr_image (as_bytes m)) (rbind (i32_from_usize (length d)) (\<lambda>len. Ok (put_i32 len @ d)))))"
  unfolding sasl_initial_response_def by (intro appends_intros)

lemma startup_denotes: "denotes (startup_message ps) (startup_image ps)"
  unfolding startup_message_def startup_image_def
  by (intro appends_intros) (auto split: prod.splits intro: appends_intros)

context value_serializer begin

lemma bind_denotes:
  "denotes (bind from_io portal statement formats vs ser rfs) (bind_image from_io portal statement formats (map img vs) rfs)"
  unfolding bind_def bind_image_def map_map comp_def
  by (intro appends_intros counted_values)

end

end
