(* ===== verification/FrontendSpec.thy ===== *)
theory FrontendSpec
  imports Frontend
begin

text \<open>
  What a server reads from the frontend messages: a reference decoder of the documented
  message layouts, written without reference to the serializers, and the theorems that each
  serializer of \<open>message/frontend.rs\<close> writes exactly what the decoder reads back, together
  with the complete behaviour (every error branch) of the serializers.
\<close>

section \<open>The reference decoder\<close>

text \<open>A NUL-terminated string.\<close>

fun take_cstr :: "bytes \<Rightarrow> (bytes \<times> bytes) option" where
  "take_cstr [] = None"
| "take_cstr (b # r) =
     (if b = 0 then Some ([], r) else map_option (\<lambda>(s, r'). (b # s, r')) (take_cstr r))"

definition take_n :: "nat \<Rightarrow> bytes \<Rightarrow> (bytes \<times> bytes) option" where
  "take_n n b = (if length b < n then None else Some (take n b, drop n b))"

definition take_num :: "nat \<Rightarrow> bytes \<Rightarrow> (nat \<times> bytes) option" where
  "take_num n b = map_option (\<lambda>(v, r). (be_val v, r)) (take_n n b)"

fun take_many :: "(bytes \<Rightarrow> ('x \<times> bytes) option) \<Rightarrow> nat \<Rightarrow> bytes \<Rightarrow> ('x list \<times> bytes) option" where
  "take_many f 0 b = Some ([], b)"
| "take_many f (Suc n) b =
     (case f b of None \<Rightarrow> None
      | Some (x, r) \<Rightarrow> map_option (\<lambda>(xs, r'). (x # xs, r')) (take_many f n r))"

definition take_counted :: "(bytes \<Rightarrow> ('x \<times> bytes) option) \<Rightarrow> bytes \<Rightarrow> ('x list \<times> bytes) option" where
  "take_counted f b = Option.bind (take_num 2 b) (\<lambda>(n, r). take_many f n r)"

text \<open>A length-prefixed value of \<open>Bind\<close>; the length -1 is \<open>NULL\<close>.\<close>

definition take_value :: "bytes \<Rightarrow> (bytes option \<times> bytes) option" where
  "take_value b =
     Option.bind (take_num 4 b) (\<lambda>(n, r).
       if n = 2 ^ 32 - 1 then Some (None, r)
       else map_option (\<lambda>(v, r'). (Some v, r')) (take_n n r))"

text \<open>One tagged message: the tag, the payload and the bytes after the message.\<close>

definition take_frame :: "bytes \<Rightarrow> (u8 \<times> bytes \<times> bytes) option" where
  "take_frame b =
     (case b of [] \<Rightarrow> None
      | t # r \<Rightarrow> Option.bind (take_num 4 r) (\<lambda>(n, r').
          if n < 4 then None else map_option (\<lambda>(p, r''). (t, p, r'')) (take_n (n - 4) r')))"

definition to_end :: "('x \<times> bytes) option \<Rightarrow> 'x option" where
  "to_end x = (case x of Some (v, []) \<Rightarrow> Some v | _ \<Rightarrow> None)"

definition server_parse :: "bytes \<Rightarrow> (bytes \<times> bytes \<times> nat list) option" where
  "server_parse p =
     to_end (Option.bind (take_cstr p) (\<lambda>(nm, r).
       Option.bind (take_cstr r) (\<lambda>(q, r').
       map_option (\<lambda>(ts, r''). ((nm, q, ts), r'')) (take_counted (take_num 4) r'))))"

definition server_bind ::
  "bytes \<Rightarrow> (bytes \<times> bytes \<times> nat list \<times> bytes option list \<times> nat list) option" where
  "server_bind p =
     to_end (Option.bind (take_cstr p) (\<lambda>(portal, r).
       Option.bind (take_cstr r) (\<lambda>(stmt, r).
       Option.bind (take_counted (take_num 2) r) (\<lambda>(fs, r).
       Option.bind (take_counted take_value r) (\<lambda>(vs, r).
       map_option (\<lambda>(rfs, r). ((portal, stmt, fs, vs, rfs), r)) (take_counted (take_num 2) r))))))"

text \<open>The key/value pairs of a startup packet, up to the empty key; fuel is the length.\<close>

fun take_params :: "nat \<Rightarrow> bytes \<Rightarrow> ((bytes \<times> bytes) list \<times> bytes) option" where
  "take_params 0 b = None"
| "take_params (Suc n) b =
     (case b of [] \<Rightarrow> None
      | c # r \<Rightarrow> if c = 0 then Some ([], r)
          else Option.bind (take_cstr b) (\<lambda>(k, r).
               Option.bind (take_cstr r) (\<lambda>(v, r).
               map_option (\<lambda>(ps, r'). ((k, v) # ps, r')) (take_params n r))))"

definition server_startup :: "bytes \<Rightarrow> (nat \<times> (bytes \<times> bytes) list) option" where
  "server_startup b =
     to_end (Option.bind (take_num 4 b) (\<lambda>(n, r).
       if n \<noteq> length b then None
       else Option.bind (take_num 4 r) (\<lambda>(ver, r).
            map_option (\<lambda>(ps, r'). ((ver, ps), r')) (take_params (length r) r))))"

section \<open>The decoder on what the images hold\<close>

lemma take_cstr_append: "0 \<notin> set s \<Longrightarrow> take_cstr (s @ 0 # r) = Some (s, r)"
  by (induction s) auto

lemma take_n_append: "length s = n \<Longrightarrow> take_n n (s @ r) = Some (s, r)"
  by (simp add: take_n_def)

lemma take_num_put:
  assumes "8 * n = LENGTH('a::len)"
  shows "take_num n (put_word n (w :: 'a word) @ r) = Some (unat w, r)"
  using unsigned_less [of w] word_bytes_bound [OF assms]
  by (simp add: take_num_def take_n_append put_word_def be_val_be_bytes)

lemma take_num_put16: "take_num 2 (put_word 2 (w :: 16 word) @ r) = Some (unat w, r)"
  by (rule take_num_put) simp

lemma take_num_put32: "take_num 4 (put_word 4 (w :: 32 word) @ r) = Some (unat w, r)"
  by (rule take_num_put) simp

lemma take_many_concat:
  assumes "\<And>x r. x \<in> set xs \<Longrightarrow> f (g x @ r) = Some (h x, r)"
  shows "take_many f (length xs) (concat (map g xs) @ r) = Some (map h xs, r)"
  using assms by (induction xs) auto

lemma take_counted_bytes:
  assumes "length xs \<le> 65535" and "\<And>x r. x \<in> set xs \<Longrightarrow> f (g x @ r) = Some (h x, r)"
  shows "take_counted f (counted_bytes g xs @ r) = Some (map h xs, r)"
proof -
  have "unat (of_nat (length xs) :: u16) = length xs"
    using assms(1) by (simp add: unat_of_nat)
  then show ?thesis
    using take_many_concat [of xs f g h r] assms(2)
    by (simp add: take_counted_def counted_bytes_def take_num_put16)
qed

definition value_bytes :: "bytes option \<Rightarrow> bytes" where
  "value_bytes v = (case v of None \<Rightarrow> put_i32 (- 1) | Some b \<Rightarrow> put_i32 (of_nat (length b)) @ b)"

definition value_fits :: "bytes option \<Rightarrow> bool" where
  "value_fits v = (case v of None \<Rightarrow> True | Some b \<Rightarrow> length b \<le> 2147483647)"

lemma take_value_bytes: "value_fits v \<Longrightarrow> take_value (value_bytes v @ r) = Some (v, r)"
  by (cases v) (auto simp: value_fits_def value_bytes_def take_value_def take_num_put32
      take_n_append unat_of_nat unsigned_minus_1_eq_mask mask_eq_exp_minus_1)

lemma take_frame_bytes:
  assumes "length p + 4 \<le> 2147483647"
  shows "take_frame (frame_bytes c p @ r) = Some (of_char c, p, r)"
  using assms
  by (simp add: take_frame_def frame_bytes_def tag_def take_num_put32 take_n_append unat_of_nat
      del: of_nat_add)

section \<open>The simple messages\<close>

lemma cstr_image_eq_Ok: "cstr_image s = Ok b \<longleftrightarrow> 0 \<notin> set s \<and> b = s @ [0]"
  by (auto simp: cstr_image_def)

lemma icat_eq_Ok: "icat a b = Ok x \<longleftrightarrow> (\<exists>y z. a = Ok y \<and> b = Ok z \<and> x = y @ z)"
  by (cases a; cases b) (auto simp: icat_def)

lemma icat_Err [simp]: "icat (Err e) b = Err e" "icat (Ok x) (Err e) = Err e"
  by (simp_all add: icat_def)

lemma frame_bytes_Ok: "frame c r = Ok ext \<longleftrightarrow> (\<exists>p. r = Ok p \<and> length p + 4 \<le> 2147483647 \<and> ext = frame_bytes c p)"
  by (simp add: frame_eq_Ok frame_bytes_def)

lemma tagged_body_Ok:
  "icat (Ok (tag c)) (body_image from_io r) = Ok ext \<longleftrightarrow>
     (\<exists>p. r = Ok p \<and> length p + 4 \<le> 2147483647 \<and> ext = frame_bytes c p)"
  by (cases r) (auto simp: body_image_def i32_from_usize_def icat_def frame_bytes_def)

lemma denotes_Ok_out: "denotes w r \<Longrightarrow> w buf = (Ok (), out) \<Longrightarrow> \<exists>ext. r = Ok ext \<and> out = buf @ ext"
  by (drule denotesD [of _ _ buf]) (auto simp: outcome_def split: rresult.splits)

lemma fixed_message_denotes: "denotes (wseq (put (tag c)) (wunwrap (write_body id (wok ()) :: (unit, io_error) writer)))
    (Ok (frame_bytes c []))"
proof -
  have "denotes (write_body id (wok ()) :: (unit, io_error) writer) (body_image id (Ok []))"
    by (intro appends_intros)
  then have "denotes (wunwrap (write_body id (wok ()) :: (unit, io_error) writer)) (Ok (put_i32 4))"
    by (intro denotes_wunwrap) (simp add: body_image_def i32_from_usize_def)
  with denotes_put have "denotes (wseq (put (tag c)) (wunwrap (write_body id (wok ()) :: (unit, io_error) writer)))
      (icat (Ok (tag c)) (Ok (put_i32 4)))"
    by (rule denotes_wseq)
  then show ?thesis by (simp add: frame_bytes_def)
qed

lemma sync_denotes [appends_intros]: "denotes sync (Ok (frame_bytes CHR ''S'' []))"
  unfolding sync_def by (rule fixed_message_denotes)

lemma flush_denotes [appends_intros]: "denotes flush (Ok (frame_bytes CHR ''H'' []))"
  unfolding flush_def by (rule fixed_message_denotes)

lemma terminate_denotes [appends_intros]: "denotes terminate (Ok (frame_bytes CHR ''X'' []))"
  unfolding terminate_def by (rule fixed_message_denotes)

lemma copy_done_denotes [appends_intros]: "denotes copy_done (Ok (frame_bytes CHR ''c'' []))"
  unfolding copy_done_def by (rule fixed_message_denotes)

lemma ssl_request_denotes: "denotes ssl_request (Ok (put_i32 8 @ put_i32 80877103))"
proof -
  have "denotes (write_body id (put (put_i32 80877103)) :: (unit, io_error) writer)
      (body_image id (Ok (put_i32 80877103)))"
    by (intro appends_intros)
  then show ?thesis
    unfolding ssl_request_def
    by (intro denotes_wunwrap) (simp add: body_image_def i32_from_usize_def)
qed

lemma cancel_request_denotes:
  "denotes (cancel_request pid key) (Ok (put_i32 16 @ put_i32 80877102 @ put_i32 pid @ put_i32 key))"
proof -
  let ?w = "wseq (put (put_i32 80877102)) (wseq (put (put_i32 pid)) (put (put_i32 key)))
    :: (unit, io_error) writer"
  have "denotes (write_body id ?w)
     (body_image id (icat (Ok (put_i32 80877102)) (icat (Ok (put_i32 pid)) (Ok (put_i32 key)))))"
    by (intro appends_intros)
  then show ?thesis
    unfolding cancel_request_def
    by (intro denotes_wunwrap) (simp add: body_image_def i32_from_usize_def)
qed

lemma copy_data_denotes:
  assumes "copy_data_new b = Ok d"
  shows "denotes (copy_data_write d) (Ok (frame_bytes CHR ''d'' b))"
proof -
  from assms have d: "d = \<lparr>cd_buf = b, cd_len = of_nat (length b + 4)\<rparr>"
    by (auto simp: copy_data_new_def bind_eq_Some_conv checked_add_usize_def i32_try_from_def
        split: if_splits)
  have "denotes (copy_data_write d) (icat (Ok (tag CHR ''d'')) (icat (Ok (put_i32 (cd_len d))) (Ok (cd_buf d))))"
    unfolding copy_data_write_def by (intro appends_intros)
  then show ?thesis by (simp add: d frame_bytes_def)
qed

lemma copy_data_new_iff:
  "copy_data_new b = (if length b + 4 \<le> 2147483647
     then Ok \<lparr>cd_buf = b, cd_len = of_nat (length b + 4)\<rparr>
     else Err (IoError InvalidInput ''message length overflow''))"
  by (auto simp: copy_data_new_def checked_add_usize_def i32_try_from_def)

section \<open>The payloads the server reads back\<close>

definition parse_payload :: "str \<Rightarrow> str \<Rightarrow> u32 list \<Rightarrow> bytes" where
  "parse_payload nm q ts = as_bytes nm @ 0 # as_bytes q @ 0 # counted_bytes put_u32 ts"

lemma server_parse_payload:
  assumes "0 \<notin> set (as_bytes nm)" and "0 \<notin> set (as_bytes q)" and "length ts \<le> 65535"
  shows "server_parse (parse_payload nm q ts) = Some (as_bytes nm, as_bytes q, map unat ts)"
proof -
  have "take_counted (take_num 4) (counted_bytes put_u32 ts @ []) = Some (map unat ts, [])"
    using assms(3) by (rule take_counted_bytes) (rule take_num_put32)
  then show ?thesis
    using assms(1,2) by (simp add: server_parse_def parse_payload_def take_cstr_append to_end_def)
qed

lemma parse_image_closed:
  "parse_image nm q ts =
     (if 0 \<in> set (as_bytes nm) \<or> 0 \<in> set (as_bytes q) then Err embedded_null
      else if length ts > 65535 \<or> length (parse_payload nm q ts) + 4 > 2147483647 then Err too_large
      else Ok (frame_bytes CHR ''P'' (parse_payload nm q ts)))"
  by (auto simp: parse_image_def cstr_image_def counted_image_Ok frame_def body_image_def icat_def
      i32_from_usize_def parse_payload_def frame_bytes_def)

definition startup_params :: "(str \<times> str) list \<Rightarrow> bytes" where
  "startup_params ps = concat (map (\<lambda>(k, v). as_bytes k @ 0 # as_bytes v @ [0]) ps)"

definition startup_packet :: "(str \<times> str) list \<Rightarrow> bytes" where
  "startup_packet ps = put_i32 (of_nat (length (startup_params ps) + 9)) @ put_i32 0x00030000 @ startup_params ps @ [0]"

lemma take_params_startup:
  assumes "length ps < n"
    and "\<forall>(k, v) \<in> set ps. k \<noteq> [] \<and> 0 \<notin> set (as_bytes k) \<and> 0 \<notin> set (as_bytes v)"
  shows "take_params n (startup_params ps @ 0 # r) = Some (map (\<lambda>(k, v). (as_bytes k, as_bytes v)) ps, r)"
  using assms
proof (induction ps arbitrary: n)
  case Nil
  then show ?case by (cases n) (auto simp: startup_params_def)
next
  case (Cons p ps)
  obtain k v where p: "p = (k, v)" by fastforce
  from Cons.prems p obtain m where n: "n = Suc m" "length ps < m" by (cases n) auto
  from Cons.prems p have kv: "k \<noteq> []" "0 \<notin> set (as_bytes k)" "0 \<notin> set (as_bytes v)" by auto
  let ?rest = "startup_params ps @ 0 # r"
  have split: "startup_params (p # ps) @ 0 # r = as_bytes k @ 0 # as_bytes v @ 0 # ?rest"
    by (simp add: startup_params_def p)
  have k: "take_cstr (as_bytes k @ 0 # as_bytes v @ 0 # ?rest) = Some (as_bytes k, as_bytes v @ 0 # ?rest)"
    using kv(2) by (rule take_cstr_append)
  have v: "take_cstr (as_bytes v @ 0 # ?rest) = Some (as_bytes v, ?rest)"
    using kv(3) by (rule take_cstr_append)
  obtain c cs where c: "as_bytes k = c # cs" "c \<noteq> 0" using kv(1,2) by (cases k) auto
  have IH: "take_params m ?rest = Some (map (\<lambda>(k, v). (as_bytes k, as_bytes v)) ps, r)"
    using Cons.IH n(2) Cons.prems(2) by simp
  show ?case
    using k v IH c unfolding split n(1) by (simp add: p del: take_cstr.simps)
qed

lemma params_length: "length ps \<le> length (startup_params ps)"
  by (induction ps) (auto simp: startup_params_def)

lemma server_startup_packet:
  assumes "length (startup_params ps) + 9 \<le> 2147483647"
    and "\<forall>(k, v) \<in> set ps. k \<noteq> [] \<and> 0 \<notin> set (as_bytes k) \<and> 0 \<notin> set (as_bytes v)"
  shows "server_startup (startup_packet ps) = Some (0x00030000, map (\<lambda>(k, v). (as_bytes k, as_bytes v)) ps)"
proof -
  have "take_params (Suc (length (startup_params ps))) (startup_params ps @ [0]) =
      Some (map (\<lambda>(k, v). (as_bytes k, as_bytes v)) ps, [])"
    using params_length [of ps] assms(2) by (intro take_params_startup) auto
  moreover have "unat (of_nat (length (startup_params ps) + 9) :: i32) = length (startup_params ps) + 9"
    using assms(1) by (simp add: unat_of_nat del: of_nat_add)
  ultimately show ?thesis
    by (simp add: server_startup_def startup_packet_def take_num_put32 to_end_def del: of_nat_add)
qed

lemma startup_iconcat:
  "iconcat (map (\<lambda>p. icat (cstr_image (as_bytes (fst p))) (cstr_image (as_bytes (snd p)))) ps) =
     (if \<exists>(k, v) \<in> set ps. 0 \<in> set (as_bytes k) \<or> 0 \<in> set (as_bytes v) then Err embedded_null
      else Ok (startup_params ps))"
  by (induction ps) (auto simp: startup_params_def cstr_image_def icat_def)

lemma startup_image_closed:
  "startup_image ps =
     (if \<exists>(k, v) \<in> set ps. 0 \<in> set (as_bytes k) \<or> 0 \<in> set (as_bytes v) then Err embedded_null
      else if length (startup_params ps) + 9 > 2147483647 then Err too_large
      else Ok (startup_packet ps))"
  by (simp add: startup_image_def startup_iconcat body_image_def i32_from_usize_def
      startup_packet_def add.commute split: prod.splits)

definition bind_payload :: "str \<Rightarrow> str \<Rightarrow> i16 list \<Rightarrow> bytes option list \<Rightarrow> i16 list \<Rightarrow> bytes" where
  "bind_payload portal stmt fs vs rfs =
     as_bytes portal @ 0 # as_bytes stmt @ 0 # counted_bytes put_i16 fs @
     counted_bytes value_bytes vs @ counted_bytes put_i16 rfs"

lemma server_bind_payload:
  assumes "0 \<notin> set (as_bytes portal)" "0 \<notin> set (as_bytes stmt)"
    and "length fs \<le> 65535" "length vs \<le> 65535" "length rfs \<le> 65535" "list_all value_fits vs"
  shows "server_bind (bind_payload portal stmt fs vs rfs) =
           Some (as_bytes portal, as_bytes stmt, map unat fs, vs, map unat rfs)"
proof -
  have nums: "take_counted (take_num 2) (counted_bytes put_i16 xs @ r) = Some (map unat xs, r)"
    if "length xs \<le> 65535" for xs :: "i16 list" and r
    using that by (rule take_counted_bytes) (rule take_num_put16)
  have vals: "take_counted take_value (counted_bytes value_bytes vs @ r) = Some (map id vs, r)" for r
    using assms(4) by (rule take_counted_bytes)
      (use assms(6) in \<open>simp add: take_value_bytes list_all_iff\<close>)
  have last: "take_counted (take_num 2) (counted_bytes put_i16 rfs) = Some (map unat rfs, [])"
    using nums [OF assms(5), of "[]"] by simp
  show ?thesis
    using assms(1,2) vals nums [OF assms(3)] last
    by (simp add: server_bind_def bind_payload_def take_cstr_append to_end_def)
qed

lemma nullable_image_eq_Ok:
  "nullable_image boxed r = Ok b \<longleftrightarrow> (\<exists>v. r = Ok v \<and> value_fits v \<and> b = value_bytes v)"
  by (cases r) (auto simp: nullable_image_def value_fits_def value_bytes_def i32_from_usize_def
      split: option.splits if_splits)

lemma iconcat_nullable_Ok:
  "iconcat (map (nullable_image boxed) rs) = Ok b \<longleftrightarrow>
     (\<exists>vs. rs = map Ok vs \<and> list_all value_fits vs \<and> b = concat (map value_bytes vs))"
proof (induction rs arbitrary: b)
  case Nil
  then show ?case by auto
next
  case (Cons r rs)
  have "(\<exists>vs. r # rs = map Ok vs \<and> list_all value_fits vs \<and> b = concat (map value_bytes vs)) \<longleftrightarrow>
      (\<exists>v vs. r = Ok v \<and> rs = map Ok vs \<and> value_fits v \<and> list_all value_fits vs \<and>
         b = value_bytes v @ concat (map value_bytes vs))"
    by (rule iffI; elim exE conjE; (rule exI [of _ "_ # _"])?) (auto simp: Cons_eq_map_conv)
  then show ?case
    by (auto simp: icat_eq_Ok Cons nullable_image_eq_Ok)
qed

lemma counted_nullable_Ok:
  "counted_image boxed (map (nullable_image boxed) rs) = Ok b \<longleftrightarrow>
     (\<exists>vs. rs = map Ok vs \<and> length vs \<le> 65535 \<and> list_all value_fits vs \<and> b = counted_bytes value_bytes vs)"
  by (auto simp: counted_image_def iconcat_nullable_Ok u16_from_usize_def counted_bytes_def
      split: if_splits)

lemma bind_image_eq_Ok:
  "bind_image boxed portal stmt fs rs rfs = Ok ext \<longleftrightarrow>
     (\<exists>vs. rs = map Ok vs \<and> 0 \<notin> set (as_bytes portal) \<and> 0 \<notin> set (as_bytes stmt) \<and>
        length fs \<le> 65535 \<and> length vs \<le> 65535 \<and> length rfs \<le> 65535 \<and> list_all value_fits vs \<and>
        length (bind_payload portal stmt fs vs rfs) + 4 \<le> 2147483647 \<and>
        ext = frame_bytes CHR ''B'' (bind_payload portal stmt fs vs rfs))"
proof -
  let ?body = "icat (map_err Serialization (cstr_image (as_bytes portal)))
     (icat (map_err Serialization (cstr_image (as_bytes stmt)))
     (icat (map_err Serialization (counted_image id (map (\<lambda>f. Ok (put_i16 f)) fs)))
     (icat (map_err Conversion (counted_image boxed (map (nullable_image boxed) rs)))
           (map_err Serialization (counted_image id (map (\<lambda>f. Ok (put_i16 f)) rfs))))))"
  have body: "?body = Ok p \<longleftrightarrow> (\<exists>vs. rs = map Ok vs \<and> 0 \<notin> set (as_bytes portal) \<and> 0 \<notin> set (as_bytes stmt) \<and>
      length fs \<le> 65535 \<and> length vs \<le> 65535 \<and> length rfs \<le> 65535 \<and> list_all value_fits vs \<and>
      p = bind_payload portal stmt fs vs rfs)" for p
    by (auto simp: icat_eq_Ok cstr_image_eq_Ok counted_image_Ok counted_nullable_Ok bind_payload_def
        split: if_splits)
  have "bind_image boxed portal stmt fs rs rfs = Ok ext \<longleftrightarrow>
      (\<exists>p. ?body = Ok p \<and> length p + 4 \<le> 2147483647 \<and> ext = frame_bytes CHR ''B'' p)"
    unfolding bind_image_def by (rule tagged_body_Ok)
  then show ?thesis unfolding body by blast
qed

text \<open>
  The two error classes of \<open>bind\<close>: \<open>Conversion\<close> only from a value (its own error, its length or
  the number of values), \<open>Serialization\<close> from the strings, the format arrays and the frame.
\<close>

context value_serializer
begin

lemma bind_server:
  assumes "bind from_io portal stmt fs vs ser rfs buf = (Ok (), out)"
  shows "\<exists>p bs. out = buf @ frame_bytes CHR ''B'' p \<and> length p + 4 \<le> 2147483647 \<and> map img vs = map Ok bs \<and>
           server_bind p = Some (as_bytes portal, as_bytes stmt, map unat fs, bs, map unat rfs)"
proof -
  obtain ext where o: "bind_image from_io portal stmt fs (map img vs) rfs = Ok ext" "out = buf @ ext"
    using denotes_Ok_out [OF bind_denotes assms] by blast
  then show ?thesis
    using server_bind_payload unfolding bind_image_eq_Ok by blast
qed

lemma bind_keeps_prefix: "\<exists>ext. snd (bind from_io portal stmt fs vs ser rfs buf) = buf @ ext"
  by (rule denotes_append_only) (rule bind_denotes)

end

section \<open>The properties\<close>

text \<open>
  C21. \<open>frontend::parse\<close>: the complete behaviour. It fails with the embedded-NUL error, with the
  too-large error, or appends to the untouched buffer one frame that a server splits off at
  its exact end and reads back as the same name, query and parameter types.
\<close>

theorem parse_message_outcome:
  "case parse nm q ts buf of
     (Ok _, out) \<Rightarrow> (\<exists>p. out = buf @ frame_bytes CHR ''P'' p \<and> server_parse p = Some (as_bytes nm, as_bytes q, map unat ts) \<and>
        (\<forall>rest. take_frame (drop (length buf) out @ rest) = Some (of_char CHR ''P'', p, rest)))
   | (Err e, out) \<Rightarrow> take (length buf) out = buf \<and>
        (if 0 \<in> set (as_bytes nm) \<or> 0 \<in> set (as_bytes q) then e = embedded_null
         else e = too_large \<and> (length ts > 65535 \<or> length (parse_payload nm q ts) + 4 > 2147483647))
   | (Panic, out) \<Rightarrow> False"
proof -
  have o: "outcome (parse_image nm q ts) buf (parse nm q ts buf)"
    by (rule denotesD) (rule parse_denotes)
  show ?thesis
  proof (cases "parse_image nm q ts")
    case (Ok ext)
    then have ok: "0 \<notin> set (as_bytes nm)" "0 \<notin> set (as_bytes q)" "length ts \<le> 65535"
        "length (parse_payload nm q ts) + 4 \<le> 2147483647"
      and ext: "ext = frame_bytes CHR ''P'' (parse_payload nm q ts)"
      unfolding parse_image_closed by (simp_all split: if_splits)
    from o Ok have run: "parse nm q ts buf = (Ok (), buf @ ext)" by (simp add: outcome_def)
    show ?thesis
      using server_parse_payload [OF ok(1-3)] take_frame_bytes [OF ok(4)]
      by (simp only: run prod.case rresult.case ext append_eq_conv_conj) auto
  next
    case (Err e)
    with o show ?thesis by (auto simp: outcome_def parse_image_closed split: if_splits)
  next
    case Panic
    then show ?thesis by (simp add: parse_image_closed split: if_splits)
  qed
qed

text \<open>
  \<open>frontend::startup_message\<close>: the complete behaviour. A parameter with an embedded NUL is
  refused, so no parameter can be smuggled in through a value: the server reads exactly the
  protocol version 3.0 and the given key/value pairs, as long as no key is empty.
\<close>

theorem startup_message_outcome:
  "case startup_message ps buf of
     (Ok _, out) \<Rightarrow> out = buf @ startup_packet ps \<and>
        ((\<forall>(k, v) \<in> set ps. k \<noteq> []) \<longrightarrow>
           server_startup (startup_packet ps) = Some (196608, map (\<lambda>(k, v). (as_bytes k, as_bytes v)) ps))
   | (Err e, out) \<Rightarrow> take (length buf) out = buf \<and>
        (if \<exists>(k, v) \<in> set ps. 0 \<in> set (as_bytes k) \<or> 0 \<in> set (as_bytes v) then e = embedded_null
         else e = too_large \<and> length (startup_params ps) + 9 > 2147483647)
   | (Panic, out) \<Rightarrow> False"
proof -
  have o: "outcome (startup_image ps) buf (startup_message ps buf)"
    by (rule denotesD) (rule startup_denotes)
  show ?thesis
  proof (cases "startup_image ps")
    case (Ok ext)
    then have ok: "length (startup_params ps) + 9 \<le> 2147483647"
        "\<forall>(k, v) \<in> set ps. 0 \<notin> set (as_bytes k) \<and> 0 \<notin> set (as_bytes v)"
      and ext: "ext = startup_packet ps"
      unfolding startup_image_closed by (auto split: if_splits)
    from o Ok have run: "startup_message ps buf = (Ok (), buf @ startup_packet ps)"
      by (simp add: outcome_def ext)
    have "(\<forall>(k, v) \<in> set ps. k \<noteq> []) \<Longrightarrow>
        server_startup (startup_packet ps) = Some (196608, map (\<lambda>(k, v). (as_bytes k, as_bytes v)) ps)"
      using ok by (intro server_startup_packet) auto
    with run show ?thesis by simp
  next
    case (Err e)
    with o show ?thesis by (auto simp: outcome_def startup_image_closed split: if_splits)
  next
    case Panic
    then show ?thesis by (simp add: startup_image_closed split: if_splits)
  qed
qed

theorem startup_message_outcome_witness:
  "snd (startup_message [(''user'', ''u'')] []) = startup_packet [(''user'', ''u'')] \<and>
   server_startup (startup_packet [(''user'', ''u'')]) = Some (196608, [(as_bytes ''user'', as_bytes ''u'')])"
proof -
  have "startup_image [(''user'', ''u'')] = Ok (startup_packet [(''user'', ''u'')])"
    by (simp add: startup_image_closed startup_params_def)
  then have "startup_message [(''user'', ''u'')] [] = (Ok (), [] @ startup_packet [(''user'', ''u'')])"
    using denotes_run [of "startup_message [(''user'', ''u'')]"] startup_denotes by metis
  then show ?thesis
    using startup_message_outcome [of "[]" "[(''user'', ''u'')]"] by simp
qed

end
