(* ===== verification/Utf8.thy ===== *)
theory Utf8
  imports ByteOrder
begin

text \<open>
  \<open>std::str::from_utf8\<close>: which byte sequences are strings, and the error the standard
  library reports on the others (\<open>Utf8Error\<close> with \<open>valid_up_to\<close> and \<open>error_len\<close>, and its
  \<open>Display\<close>). The repository hands every text it receives to this function.
\<close>

datatype utf8_error = Utf8Error' (valid_up_to: nat) (error_len: "nat option")

definition between :: "u8 \<Rightarrow> u8 \<Rightarrow> u8 \<Rightarrow> bool" where
  "between lo hi b \<longleftrightarrow> lo \<le> b \<and> b \<le> hi"

definition cont :: "u8 \<Rightarrow> bool" where
  "cont b \<longleftrightarrow> between 0x80 0xBF b"

text \<open>The tests on the bytes after a given first byte; \<open>None\<close> for a byte that starts no character.\<close>

definition follow_tests :: "u8 \<Rightarrow> (u8 \<Rightarrow> bool) list option" where
  "follow_tests b =
     (if b < 0x80 then Some []
      else if between 0xC2 0xDF b then Some [cont]
      else if b = 0xE0 then Some [between 0xA0 0xBF, cont]
      else if b = 0xED then Some [between 0x80 0x9F, cont]
      else if between 0xE1 0xEF b then Some [cont, cont]
      else if b = 0xF0 then Some [between 0x90 0xBF, cont, cont]
      else if between 0xF1 0xF3 b then Some [cont, cont, cont]
      else if b = 0xF4 then Some [between 0x80 0x8F, cont, cont]
      else None)"

fun check_follow :: "(u8 \<Rightarrow> bool) list \<Rightarrow> nat \<Rightarrow> bytes \<Rightarrow> (nat, nat option) rresult" where
  "check_follow [] n r = Ok n"
| "check_follow (p # ps) n [] = Err None"
| "check_follow (p # ps) n (b # r) = (if p b then check_follow ps (Suc n) r else Err (Some n))"

function utf8_scan :: "nat \<Rightarrow> bytes \<Rightarrow> (unit, utf8_error) rresult" where
  "utf8_scan i [] = Ok ()"
| "utf8_scan i (b # r) =
     (case follow_tests b of
        None \<Rightarrow> Err (Utf8Error' i (Some 1))
      | Some ps \<Rightarrow>
          (case check_follow ps 1 r of
             Ok n \<Rightarrow> utf8_scan (i + n) (drop (n - 1) r)
           | Err l \<Rightarrow> Err (Utf8Error' i l)
           | Panic \<Rightarrow> Panic))"
  by pat_completeness auto
termination
  by (relation "measure (length \<circ> snd)") auto

definition from_utf8 :: "bytes \<Rightarrow> (str, utf8_error) rresult" where
  "from_utf8 b = map_ok (\<lambda>_. of_bytes b) (utf8_scan 0 b)"

definition utf8_valid :: "bytes \<Rightarrow> bool" where
  "utf8_valid b \<longleftrightarrow> utf8_scan 0 b = Ok ()"

text \<open>\<open>String::from_utf8_lossy\<close>: every ill-formed piece becomes U+FFFD.\<close>

function lossy_bytes :: "bytes \<Rightarrow> bytes" where
  "lossy_bytes [] = []"
| "lossy_bytes (b # r) =
     (case follow_tests b of
        None \<Rightarrow> [0xEF, 0xBF, 0xBD] @ lossy_bytes r
      | Some ps \<Rightarrow>
          (case check_follow ps 1 r of
             Ok n \<Rightarrow> take n (b # r) @ lossy_bytes (drop (n - 1) r)
           | Err (Some n) \<Rightarrow> [0xEF, 0xBF, 0xBD] @ lossy_bytes (drop (n - 1) r)
           | _ \<Rightarrow> [0xEF, 0xBF, 0xBD]))"
  by pat_completeness auto
termination
  by (relation "measure length") auto

definition from_utf8_lossy :: "bytes \<Rightarrow> str" where
  "from_utf8_lossy b = of_bytes (lossy_bytes b)"

definition utf8_error_text :: "utf8_error \<Rightarrow> string" where
  "utf8_error_text e =
     (case error_len e of
        Some l \<Rightarrow> ''invalid utf-8 sequence of '' @ show_nat l @ '' bytes from index '' @ show_nat (valid_up_to e)
      | None \<Rightarrow> ''incomplete utf-8 byte sequence from index '' @ show_nat (valid_up_to e))"

lemma check_follow_not_Panic [simp]: "check_follow ps n r \<noteq> Panic"
  by (induction ps n r rule: check_follow.induct) auto

lemma utf8_scan_not_Panic [simp]: "utf8_scan i b \<noteq> Panic"
  by (induction i b rule: utf8_scan.induct) (auto split: option.splits rresult.splits)

lemma from_utf8_iff: "from_utf8 b = Ok s \<longleftrightarrow> utf8_valid b \<and> s = of_bytes b"
  by (auto simp: from_utf8_def utf8_valid_def)

lemma from_utf8_not_Panic [simp]: "from_utf8 b \<noteq> Panic"
  by (simp add: from_utf8_def)

lemma utf8_ascii: "list_all (\<lambda>b. b < 0x80) b \<Longrightarrow> utf8_scan i b = Ok ()"
  by (induction b arbitrary: i) (auto simp: follow_tests_def)

lemma utf8_valid_ascii [simp]: "list_all (\<lambda>b. b < 0x80) b \<Longrightarrow> utf8_valid b"
  by (simp add: utf8_valid_def utf8_ascii)

text \<open>Where a string fails does not matter for whether it fails, and strings concatenate.\<close>

lemma utf8_scan_index: "(utf8_scan i b = Ok ()) = (utf8_scan j b = Ok ())"
proof (induction i b arbitrary: j rule: utf8_scan.induct)
  case (2 i b r)
  show ?case
  proof (cases "\<exists>ps n. follow_tests b = Some ps \<and> check_follow ps 1 r = Ok n")
    case True
    then obtain ps n where f: "follow_tests b = Some ps" "check_follow ps 1 r = Ok n" by blast
    from 2 [OF f, of "j + n"] f show ?thesis by simp
  next
    case False
    then show ?thesis by (auto split: option.splits rresult.splits)
  qed
qed simp

lemma check_follow_append: "check_follow ps n r = Ok m \<Longrightarrow> check_follow ps n (r @ s) = Ok m \<and> m = n + length ps \<and> length ps \<le> length r"
  by (induction ps n r rule: check_follow.induct) (auto split: if_splits)

lemma utf8_scan_append: "utf8_scan i a = Ok () \<Longrightarrow> utf8_scan i (a @ b) = utf8_scan (i + length a) b"
proof (induction i a rule: utf8_scan.induct)
  case (2 i c r)
  from 2(2) obtain ps n where f: "follow_tests c = Some ps" "check_follow ps 1 r = Ok n"
    "utf8_scan (i + n) (drop (n - 1) r) = Ok ()"
    by (auto split: option.splits rresult.splits)
  from check_follow_append [OF f(2), of b] have n: "check_follow ps 1 (r @ b) = Ok n" "n = 1 + length ps" "length ps \<le> length r"
    by auto
  have "utf8_scan (i + n) (drop (n - 1) r @ b) = utf8_scan (i + n + length (drop (n - 1) r)) b"
    by (rule 2(1) [OF f(1,2,3)])
  with f n show ?case by simp
qed simp

lemma utf8_valid_append: "utf8_valid a \<Longrightarrow> utf8_valid b \<Longrightarrow> utf8_valid (a @ b)"
  unfolding utf8_valid_def using utf8_scan_append utf8_scan_index by metis

lemma utf8_valid_Nil [simp]: "utf8_valid []"
  by (simp add: utf8_valid_def)

lemma lossy_valid: "utf8_scan i b = Ok () \<Longrightarrow> lossy_bytes b = b"
proof (induction i b rule: utf8_scan.induct)
  case (2 i c r)
  from 2(2) obtain ps n where f: "follow_tests c = Some ps" "check_follow ps 1 r = Ok n"
    "utf8_scan (i + n) (drop (n - 1) r) = Ok ()"
    by (auto split: option.splits rresult.splits)
  have "1 \<le> n" using check_follow_append [OF f(2)] by simp
  then have "take n (c # r) @ drop (n - 1) r = c # r" by (cases n) simp_all
  with 2(1) [OF f] f show ?case by simp
qed simp

lemma from_utf8_lossy_valid: "utf8_valid b \<Longrightarrow> from_utf8_lossy b = of_bytes b"
  by (simp add: from_utf8_lossy_def utf8_valid_def lossy_valid)

end
