(* ===== verification/Backend.thy ===== *)
theory Backend
  imports Utf8
begin

text \<open>
  \<open>postgres-protocol/src/message/backend.rs\<close>: the header and the message parser. The buffer
  \<open>BytesMut\<close> is its unread bytes; the parser returns its result and the buffer it leaves,
  because \<open>split_to\<close> consumes the message before its body is looked at. The private \<open>Buffer\<close>
  of the source (bytes and index) is its unread suffix.
\<close>

section \<open>Tags\<close>

abbreviation PARSE_COMPLETE_TAG :: u8 where "PARSE_COMPLETE_TAG \<equiv> 0x31"
abbreviation BIND_COMPLETE_TAG :: u8 where "BIND_COMPLETE_TAG \<equiv> 0x32"
abbreviation CLOSE_COMPLETE_TAG :: u8 where "CLOSE_COMPLETE_TAG \<equiv> 0x33"
abbreviation NOTIFICATION_RESPONSE_TAG :: u8 where "NOTIFICATION_RESPONSE_TAG \<equiv> 0x41"
abbreviation COPY_DONE_TAG :: u8 where "COPY_DONE_TAG \<equiv> 0x63"
abbreviation COMMAND_COMPLETE_TAG :: u8 where "COMMAND_COMPLETE_TAG \<equiv> 0x43"
abbreviation COPY_DATA_TAG :: u8 where "COPY_DATA_TAG \<equiv> 0x64"
abbreviation DATA_ROW_TAG :: u8 where "DATA_ROW_TAG \<equiv> 0x44"
abbreviation ERROR_RESPONSE_TAG :: u8 where "ERROR_RESPONSE_TAG \<equiv> 0x45"
abbreviation COPY_IN_RESPONSE_TAG :: u8 where "COPY_IN_RESPONSE_TAG \<equiv> 0x47"
abbreviation COPY_OUT_RESPONSE_TAG :: u8 where "COPY_OUT_RESPONSE_TAG \<equiv> 0x48"
abbreviation EMPTY_QUERY_RESPONSE_TAG :: u8 where "EMPTY_QUERY_RESPONSE_TAG \<equiv> 0x49"
abbreviation BACKEND_KEY_DATA_TAG :: u8 where "BACKEND_KEY_DATA_TAG \<equiv> 0x4B"
abbreviation NO_DATA_TAG :: u8 where "NO_DATA_TAG \<equiv> 0x6E"
abbreviation NOTICE_RESPONSE_TAG :: u8 where "NOTICE_RESPONSE_TAG \<equiv> 0x4E"
abbreviation AUTHENTICATION_TAG :: u8 where "AUTHENTICATION_TAG \<equiv> 0x52"
abbreviation PORTAL_SUSPENDED_TAG :: u8 where "PORTAL_SUSPENDED_TAG \<equiv> 0x73"
abbreviation PARAMETER_STATUS_TAG :: u8 where "PARAMETER_STATUS_TAG \<equiv> 0x53"
abbreviation PARAMETER_DESCRIPTION_TAG :: u8 where "PARAMETER_DESCRIPTION_TAG \<equiv> 0x74"
abbreviation ROW_DESCRIPTION_TAG :: u8 where "ROW_DESCRIPTION_TAG \<equiv> 0x54"
abbreviation READY_FOR_QUERY_TAG :: u8 where "READY_FOR_QUERY_TAG \<equiv> 0x5A"

section \<open>Header\<close>

record header =
  h_tag :: u8
  h_len :: i32

definition header_parse :: "bytes \<Rightarrow> (header option, io_error) rresult" where
  "header_parse buf =
     (if length buf < 5 then Ok None
      else let tag = buf ! 0; len = of_nat (be_val (take 4 (drop 1 buf))) :: i32 in
        if sint len < 4 then Err (IoError InvalidData ''invalid message length: header length < 4'')
        else Ok (Some \<lparr>h_tag = tag, h_len = len\<rparr>))"

section \<open>Messages\<close>

record copy_response_body =
  cr_format :: u8
  cr_len :: u16
  cr_storage :: bytes

record data_row_body =
  dr_storage :: bytes
  dr_len :: u16

record notification_response_body =
  nr_process_id :: i32
  nr_channel :: bytes
  nr_message :: bytes

record backend_key_data_body =
  kd_process_id :: i32
  kd_secret_key :: i32

record parameter_status_body =
  ps_name :: bytes
  ps_value :: bytes

record counted_body =
  cb_storage :: bytes
  cb_len :: u16

text \<open>
  The bodies with one field are that field. \<open>CopyInResponseBody\<close> and \<open>CopyOutResponseBody\<close>
  have the same fields, as have \<open>ParameterDescriptionBody\<close> and \<open>RowDescriptionBody\<close>.
\<close>

datatype message =
    AuthenticationCleartextPassword
  | AuthenticationGss
  | AuthenticationKerberosV5
  | AuthenticationMd5Password bytes
  | AuthenticationOk
  | AuthenticationScmCredential
  | AuthenticationSspi
  | AuthenticationGssContinue bytes
  | AuthenticationSasl bytes
  | AuthenticationSaslContinue bytes
  | AuthenticationSaslFinal bytes
  | BackendKeyData backend_key_data_body
  | BindComplete
  | CloseComplete
  | CommandComplete bytes
  | CopyData bytes
  | CopyDone
  | CopyInResponse copy_response_body
  | CopyOutResponse copy_response_body
  | DataRow data_row_body
  | EmptyQueryResponse
  | ErrorResponse bytes
  | NoData
  | NoticeResponse bytes
  | NotificationResponse notification_response_body
  | ParameterDescription counted_body
  | ParameterStatus parameter_status_body
  | ParseComplete
  | PortalSuspended
  | ReadyForQuery u8
  | RowDescription counted_body

section \<open>The body parser\<close>

definition unexpected_eof :: io_error where
  "unexpected_eof = IoError UnexpectedEof ''unexpected EOF''"

fun memchr :: "u8 \<Rightarrow> bytes \<Rightarrow> nat option" where
  "memchr x [] = None"
| "memchr x (b # r) = (if b = x then Some 0 else map_option Suc (memchr x r))"

definition read_cstr :: "bytes \<Rightarrow> (bytes \<times> bytes, io_error) rresult" where
  "read_cstr b =
     (case memchr 0 b of
        Some pos \<Rightarrow> Ok (take pos b, drop (pos + 1) b)
      | None \<Rightarrow> Err unexpected_eof)"

definition read_all :: "bytes \<Rightarrow> bytes \<times> bytes" where
  "read_all b = (b, [])"

type_synonym 'a buf_reader = "bytes \<Rightarrow> ('a \<times> bytes, io_error) rresult"

definition parse_authentication :: "message buf_reader" where
  "parse_authentication b =
     rbind (read_i32 b) (\<lambda>(code :: i32, b).
       if code = 0 then Ok (AuthenticationOk, b)
       else if code = 2 then Ok (AuthenticationKerberosV5, b)
       else if code = 3 then Ok (AuthenticationCleartextPassword, b)
       else if code = 5 then rbind (read_exact 4 b) (\<lambda>(salt, b). Ok (AuthenticationMd5Password salt, b))
       else if code = 6 then Ok (AuthenticationScmCredential, b)
       else if code = 7 then Ok (AuthenticationGss, b)
       else if code = 8 then (let (storage, b) = read_all b in Ok (AuthenticationGssContinue storage, b))
       else if code = 9 then Ok (AuthenticationSspi, b)
       else if code = 10 then (let (storage, b) = read_all b in Ok (AuthenticationSasl storage, b))
       else if code = 11 then (let (storage, b) = read_all b in Ok (AuthenticationSaslContinue storage, b))
       else if code = 12 then (let (storage, b) = read_all b in Ok (AuthenticationSaslFinal storage, b))
       else Err (IoError InvalidInput (''unknown authentication tag `'' @ show_int (sint code) @ ''`'')))"

definition parse_copy_response :: "(copy_response_body \<Rightarrow> message) \<Rightarrow> message buf_reader" where
  "parse_copy_response mk b =
     rbind (read_u8 b) (\<lambda>(format, b).
     rbind (read_u16 b) (\<lambda>(len, b).
       let (storage, b) = read_all b in
       Ok (mk \<lparr>cr_format = format, cr_len = len, cr_storage = storage\<rparr>, b)))"

definition parse_counted :: "(counted_body \<Rightarrow> message) \<Rightarrow> message buf_reader" where
  "parse_counted mk b =
     rbind (read_u16 b) (\<lambda>(len, b).
       let (storage, b) = read_all b in Ok (mk \<lparr>cb_storage = storage, cb_len = len\<rparr>, b))"

definition parse_body :: "u8 \<Rightarrow> message buf_reader" where
  "parse_body tag b =
     (if tag = PARSE_COMPLETE_TAG then Ok (ParseComplete, b)
      else if tag = BIND_COMPLETE_TAG then Ok (BindComplete, b)
      else if tag = CLOSE_COMPLETE_TAG then Ok (CloseComplete, b)
      else if tag = NOTIFICATION_RESPONSE_TAG then
        rbind (read_i32 b) (\<lambda>(process_id, b).
        rbind (read_cstr b) (\<lambda>(channel, b).
        rbind (read_cstr b) (\<lambda>(message, b).
          Ok (NotificationResponse \<lparr>nr_process_id = process_id, nr_channel = channel, nr_message = message\<rparr>, b))))
      else if tag = COPY_DONE_TAG then Ok (CopyDone, b)
      else if tag = COMMAND_COMPLETE_TAG then rbind (read_cstr b) (\<lambda>(tag, b). Ok (CommandComplete tag, b))
      else if tag = COPY_DATA_TAG then (let (storage, b) = read_all b in Ok (CopyData storage, b))
      else if tag = DATA_ROW_TAG then
        rbind (read_u16 b) (\<lambda>(len, b).
          let (storage, b) = read_all b in Ok (DataRow \<lparr>dr_storage = storage, dr_len = len\<rparr>, b))
      else if tag = ERROR_RESPONSE_TAG then (let (storage, b) = read_all b in Ok (ErrorResponse storage, b))
      else if tag = COPY_IN_RESPONSE_TAG then parse_copy_response CopyInResponse b
      else if tag = COPY_OUT_RESPONSE_TAG then parse_copy_response CopyOutResponse b
      else if tag = EMPTY_QUERY_RESPONSE_TAG then Ok (EmptyQueryResponse, b)
      else if tag = BACKEND_KEY_DATA_TAG then
        rbind (read_i32 b) (\<lambda>(process_id, b).
        rbind (read_i32 b) (\<lambda>(secret_key, b).
          Ok (BackendKeyData \<lparr>kd_process_id = process_id, kd_secret_key = secret_key\<rparr>, b)))
      else if tag = NO_DATA_TAG then Ok (NoData, b)
      else if tag = NOTICE_RESPONSE_TAG then (let (storage, b) = read_all b in Ok (NoticeResponse storage, b))
      else if tag = AUTHENTICATION_TAG then parse_authentication b
      else if tag = PORTAL_SUSPENDED_TAG then Ok (PortalSuspended, b)
      else if tag = PARAMETER_STATUS_TAG then
        rbind (read_cstr b) (\<lambda>(name, b).
        rbind (read_cstr b) (\<lambda>(value, b).
          Ok (ParameterStatus \<lparr>ps_name = name, ps_value = value\<rparr>, b)))
      else if tag = PARAMETER_DESCRIPTION_TAG then parse_counted ParameterDescription b
      else if tag = ROW_DESCRIPTION_TAG then parse_counted RowDescription b
      else if tag = READY_FOR_QUERY_TAG then rbind (read_u8 b) (\<lambda>(status, b). Ok (ReadyForQuery status, b))
      else Err (IoError InvalidInput (''unknown message tag `'' @ show_nat (unat tag) @ ''`'')))"

definition message_parse :: "bytes \<Rightarrow> (message option, io_error) rresult \<times> bytes" where
  "message_parse buf =
     (if length buf < 5 then (Ok None, buf)
      else let tag = buf ! 0; len = of_nat (be_val (take 4 (drop 1 buf))) :: u32 in
        if len < 4 then (Err (IoError InvalidInput ''invalid message length: parsing u32''), buf)
        else let total_len = unat len + 1 in
          if length buf < total_len then (Ok None, buf)
          else
            (rbind (parse_body tag (drop 5 (take total_len buf))) (\<lambda>(message, rest).
               if rest \<noteq> [] then Err (IoError InvalidInput ''invalid message length: expected buffer to be empty'')
               else Ok (Some message)),
             drop total_len buf))"

section \<open>The format of a message\<close>

text \<open>
  The documented layout of each message, as a printer. It is the specification the parser is
  proved against in both directions.
\<close>

primrec message_tag :: "message \<Rightarrow> u8" where
  "message_tag AuthenticationCleartextPassword = AUTHENTICATION_TAG"
| "message_tag AuthenticationGss = AUTHENTICATION_TAG"
| "message_tag AuthenticationKerberosV5 = AUTHENTICATION_TAG"
| "message_tag (AuthenticationMd5Password _) = AUTHENTICATION_TAG"
| "message_tag AuthenticationOk = AUTHENTICATION_TAG"
| "message_tag AuthenticationScmCredential = AUTHENTICATION_TAG"
| "message_tag AuthenticationSspi = AUTHENTICATION_TAG"
| "message_tag (AuthenticationGssContinue _) = AUTHENTICATION_TAG"
| "message_tag (AuthenticationSasl _) = AUTHENTICATION_TAG"
| "message_tag (AuthenticationSaslContinue _) = AUTHENTICATION_TAG"
| "message_tag (AuthenticationSaslFinal _) = AUTHENTICATION_TAG"
| "message_tag (BackendKeyData _) = BACKEND_KEY_DATA_TAG"
| "message_tag BindComplete = BIND_COMPLETE_TAG"
| "message_tag CloseComplete = CLOSE_COMPLETE_TAG"
| "message_tag (CommandComplete _) = COMMAND_COMPLETE_TAG"
| "message_tag (CopyData _) = COPY_DATA_TAG"
| "message_tag CopyDone = COPY_DONE_TAG"
| "message_tag (CopyInResponse _) = COPY_IN_RESPONSE_TAG"
| "message_tag (CopyOutResponse _) = COPY_OUT_RESPONSE_TAG"
| "message_tag (DataRow _) = DATA_ROW_TAG"
| "message_tag EmptyQueryResponse = EMPTY_QUERY_RESPONSE_TAG"
| "message_tag (ErrorResponse _) = ERROR_RESPONSE_TAG"
| "message_tag NoData = NO_DATA_TAG"
| "message_tag (NoticeResponse _) = NOTICE_RESPONSE_TAG"
| "message_tag (NotificationResponse _) = NOTIFICATION_RESPONSE_TAG"
| "message_tag (ParameterDescription _) = PARAMETER_DESCRIPTION_TAG"
| "message_tag (ParameterStatus _) = PARAMETER_STATUS_TAG"
| "message_tag ParseComplete = PARSE_COMPLETE_TAG"
| "message_tag PortalSuspended = PORTAL_SUSPENDED_TAG"
| "message_tag (ReadyForQuery _) = READY_FOR_QUERY_TAG"
| "message_tag (RowDescription _) = ROW_DESCRIPTION_TAG"

definition copy_response_bytes :: "copy_response_body \<Rightarrow> bytes" where
  "copy_response_bytes c = [cr_format c] @ put_u16 (cr_len c) @ cr_storage c"

definition counted_body_bytes :: "counted_body \<Rightarrow> bytes" where
  "counted_body_bytes c = put_u16 (cb_len c) @ cb_storage c"

primrec message_body :: "message \<Rightarrow> bytes" where
  "message_body AuthenticationCleartextPassword = put_i32 3"
| "message_body AuthenticationGss = put_i32 7"
| "message_body AuthenticationKerberosV5 = put_i32 2"
| "message_body (AuthenticationMd5Password salt) = put_i32 5 @ salt"
| "message_body AuthenticationOk = put_i32 0"
| "message_body AuthenticationScmCredential = put_i32 6"
| "message_body AuthenticationSspi = put_i32 9"
| "message_body (AuthenticationGssContinue b) = put_i32 8 @ b"
| "message_body (AuthenticationSasl b) = put_i32 10 @ b"
| "message_body (AuthenticationSaslContinue b) = put_i32 11 @ b"
| "message_body (AuthenticationSaslFinal b) = put_i32 12 @ b"
| "message_body (BackendKeyData k) = put_i32 (kd_process_id k) @ put_i32 (kd_secret_key k)"
| "message_body BindComplete = []"
| "message_body CloseComplete = []"
| "message_body (CommandComplete t) = t @ [0]"
| "message_body (CopyData b) = b"
| "message_body CopyDone = []"
| "message_body (CopyInResponse c) = copy_response_bytes c"
| "message_body (CopyOutResponse c) = copy_response_bytes c"
| "message_body (DataRow d) = put_u16 (dr_len d) @ dr_storage d"
| "message_body EmptyQueryResponse = []"
| "message_body (ErrorResponse b) = b"
| "message_body NoData = []"
| "message_body (NoticeResponse b) = b"
| "message_body (NotificationResponse n) = put_i32 (nr_process_id n) @ nr_channel n @ 0 # nr_message n @ [0]"
| "message_body (ParameterDescription c) = counted_body_bytes c"
| "message_body (ParameterStatus p) = ps_name p @ 0 # ps_value p @ [0]"
| "message_body ParseComplete = []"
| "message_body PortalSuspended = []"
| "message_body (ReadyForQuery s) = [s]"
| "message_body (RowDescription c) = counted_body_bytes c"

text \<open>The fields a message can hold, and the size a frame can announce.\<close>

definition message_wf :: "message \<Rightarrow> bool" where
  "message_wf m \<longleftrightarrow>
     (case m of
        AuthenticationMd5Password salt \<Rightarrow> length salt = 4
      | CommandComplete t \<Rightarrow> 0 \<notin> set t
      | NotificationResponse n \<Rightarrow> 0 \<notin> set (nr_channel n) \<and> 0 \<notin> set (nr_message n)
      | ParameterStatus p \<Rightarrow> 0 \<notin> set (ps_name p) \<and> 0 \<notin> set (ps_value p)
      | _ \<Rightarrow> True)
     \<and> length (message_body m) + 4 < 2 ^ 32"

definition encode_message :: "message \<Rightarrow> bytes" where
  "encode_message m = message_tag m # put_u32 (of_nat (length (message_body m) + 4)) @ message_body m"

end
