(* ===== verification/BackendSpec.thy ===== *)
theory BackendSpec
  imports Backend
begin

text \<open>
  The message parser against the message format: it accepts exactly the encodings of
  well-formed messages, waits on every proper prefix of a message, always makes progress on a
  complete one, and never panics.
\<close>

section \<open>Readers\<close>

lemma memchr_None: "memchr x b = None \<longleftrightarrow> x \<notin> set b"
  by (induction b) auto

lemma memchr_Some: "memchr x b = Some n \<longleftrightarrow> (\<exists>r. b = take n b @ x # r \<and> n = length (take n b) \<and> x \<notin> set (take n b))"
proof (induction b arbitrary: n)
  case Nil
  then show ?case by simp
next
  case (Cons c b)
  then show ?case by (cases n) auto
qed

lemma memchr_append: "x \<notin> set s \<Longrightarrow> memchr x (s @ x # r) = Some (length s)"
  by (induction s) auto

lemma read_cstr_iff: "read_cstr b = Ok (s, r) \<longleftrightarrow> 0 \<notin> set s \<and> b = s @ 0 # r"
proof
  assume "read_cstr b = Ok (s, r)"
  then obtain n where n: "memchr 0 b = Some n" "s = take n b" "r = drop (n + 1) b"
    by (auto simp: read_cstr_def split: option.splits)
  from n(1) obtain r' where r: "b = take n b @ 0 # r'" "n = length (take n b)" "0 \<notin> set (take n b)"
    unfolding memchr_Some by blast
  then have "drop (n + 1) b = r'"
    by (metis Suc_eq_plus1 append_eq_conv_conj drop_Suc list.sel(3) tl_drop)
  with n r show "0 \<notin> set s \<and> b = s @ 0 # r" by simp
qed (auto simp: read_cstr_def memchr_append)

lemma read_cstr_not_Panic [simp]: "read_cstr b \<noteq> Panic"
  by (simp add: read_cstr_def split: option.splits)

lemma read_cstr_put [reader_simps]: "0 \<notin> set s \<Longrightarrow> read_cstr (s @ 0 # r) = Ok (s, r)"
  by (simp add: read_cstr_iff)

lemma read_u8_put [reader_simps]: "read_u8 (x # r) = Ok (x, r)"
  by (simp add: read_u8_def)

lemma read_exact_put [reader_simps]: "length s = n \<Longrightarrow> read_exact n s = Ok (s, [])"
  by (simp add: read_exact_def)

lemmas readers_iff = u16c.get_iff u32c.get_iff read_cstr_iff read_u8_iff read_exact_eq_Ok

section \<open>Bodies\<close>

definition fields_wf :: "message \<Rightarrow> bool" where
  "fields_wf m \<longleftrightarrow>
     (case m of
        AuthenticationMd5Password salt \<Rightarrow> length salt = 4
      | CommandComplete t \<Rightarrow> 0 \<notin> set t
      | NotificationResponse n \<Rightarrow> 0 \<notin> set (nr_channel n) \<and> 0 \<notin> set (nr_message n)
      | ParameterStatus p \<Rightarrow> 0 \<notin> set (ps_name p) \<and> 0 \<notin> set (ps_value p)
      | _ \<Rightarrow> True)"

lemma message_wf_fields: "message_wf m \<longleftrightarrow> fields_wf m \<and> length (message_body m) + 4 < 2 ^ 32"
  by (simp add: message_wf_def fields_wf_def)

lemma parse_body_encode: "fields_wf m \<Longrightarrow> parse_body (message_tag m) (message_body m) = Ok (m, [])"
  by (cases m) (simp_all add: fields_wf_def parse_body_def parse_authentication_def parse_copy_response_def
      parse_counted_def copy_response_bytes_def counted_body_bytes_def read_all_def reader_simps)

lemma parse_authentication_sound:
  "parse_authentication b = Ok (m, []) \<Longrightarrow> fields_wf m \<and> message_tag m = AUTHENTICATION_TAG \<and> b = message_body m"
  by (auto simp: parse_authentication_def readers_iff read_all_def fields_wf_def split: if_splits prod.splits)

lemma parse_body_sound:
  assumes "parse_body t b = Ok (m, [])"
  shows "fields_wf m \<and> t = message_tag m \<and> b = message_body m"
proof (cases "t = AUTHENTICATION_TAG")
  case True
  with assms show ?thesis
    using parse_authentication_sound [of b m] by (simp add: parse_body_def)
next
  case False
  with assms show ?thesis
    unfolding parse_body_def
    by (auto simp: parse_copy_response_def parse_counted_def copy_response_bytes_def
        counted_body_bytes_def readers_iff read_all_def fields_wf_def split: if_splits)
qed

lemma parse_body_iff: "parse_body t b = Ok (m, []) \<longleftrightarrow> fields_wf m \<and> t = message_tag m \<and> b = message_body m"
  using parse_body_encode parse_body_sound by blast

lemma parse_authentication_not_Panic: "parse_authentication b \<noteq> Panic"
  by (auto simp: parse_authentication_def rbind_eq_Panic read_all_def split: if_splits prod.splits)

lemma parse_body_not_Panic: "parse_body t b \<noteq> Panic"
  by (auto simp: parse_body_def parse_authentication_not_Panic parse_copy_response_def parse_counted_def
      rbind_eq_Panic read_all_def split: if_splits prod.splits)

section \<open>Frames\<close>

lemma split5:
  assumes "5 \<le> length buf"
  obtains t and len :: u32 and rest where "buf = t # put_u32 len @ rest"
    and "len = of_nat (be_val (take 4 (drop 1 buf)))"
proof -
  obtain t r where b: "buf = t # r" using assms by (cases buf) auto
  with assms have "4 \<le> length r" by simp
  then obtain len :: u32 and rest where g: "read_u32 r = Ok (len, rest)"
    using read_word_long [of 4 r] by auto
  then have r: "r = put_u32 len @ rest" by (rule u32c.get_exact)
  moreover have "len = of_nat (be_val (take 4 r))"
    using g \<open>4 \<le> length r\<close> by (simp add: read_word_cases)
  ultimately show ?thesis using that b by simp
qed

lemma be_val_put_u32: "of_nat (be_val (put_u32 (len :: u32))) = len"
  using u32c.get_put_end [of len] by (simp add: read_word_cases)

lemma message_parse_frame:
  "message_parse (t # put_u32 len @ rest) =
     (if len < 4 then (Err (IoError InvalidInput ''invalid message length: parsing u32''), t # put_u32 len @ rest)
      else if length rest < unat len - 4 then (Ok None, t # put_u32 len @ rest)
      else
        (rbind (parse_body t (take (unat len - 4) rest)) (\<lambda>(message, rest).
           if rest \<noteq> [] then Err (IoError InvalidInput ''invalid message length: expected buffer to be empty'')
           else Ok (Some message)),
         drop (unat len - 4) rest))"
proof (cases "len < 4")
  case True
  then show ?thesis by (simp add: message_parse_def Let_def be_val_put_u32)
next
  case False
  then have "4 \<le> unat len" by (simp add: word_less_nat_alt)
  then obtain k where k: "unat len = k + 4" by (metis add.commute le_Suc_ex)
  let ?p = "t # put_u32 len"
  have p: "t # put_u32 len @ rest = ?p @ rest" "length ?p = 5" by simp_all
  then have "take (k + 5) (t # put_u32 len @ rest) = ?p @ take k rest"
    and "drop (k + 5) (t # put_u32 len @ rest) = drop k rest"
    by (simp_all only: take_append drop_append) simp_all
  moreover have "drop 5 (?p @ take k rest) = take k rest"
    using p(2) by (simp only: drop_append) simp
  moreover have "take 4 (drop 1 (t # put_u32 len @ rest)) = put_u32 len" by simp
  ultimately show ?thesis
    using False k
    by (simp add: message_parse_def Let_def be_val_put_u32 add.commute [of k] del: drop_append take_append drop_Suc_Cons take_Suc_Cons)
qed

lemma announced:
  assumes "length p + 4 < 2 ^ 32"
  shows "\<not> (of_nat (length p + 4) :: u32) < 4" and "unat (of_nat (length p + 4) :: u32) = length p + 4"
proof -
  have "unat (of_nat (length p + 4) :: u32) = (length p + 4) mod 2 ^ LENGTH(32)"
    by (simp only: unat_of_nat take_bit_eq_mod)
  then show u: "unat (of_nat (length p + 4) :: u32) = length p + 4" using assms by simp
  then show "\<not> (of_nat (length p + 4) :: u32) < 4" by (simp only: word_less_nat_alt) simp
qed

lemma message_parse_sound:
  assumes "message_parse buf = (Ok (Some m), rest)"
  shows "message_wf m \<and> buf = encode_message m @ rest"
proof -
  have "5 \<le> length buf" using assms by (cases "length buf < 5") (simp_all add: message_parse_def)
  then obtain t and len :: u32 and r where buf: "buf = t # put_u32 len @ r" by (rule split5)
  from assms have len: "\<not> len < 4" "unat len - 4 \<le> length r"
    and body: "parse_body t (take (unat len - 4) r) = Ok (m, [])" and rest: "rest = drop (unat len - 4) r"
    unfolding buf message_parse_frame by (auto split: if_splits)
  have b: "fields_wf m" "t = message_tag m" "take (unat len - 4) r = message_body m"
    using parse_body_sound [OF body] by simp_all
  have l: "length (message_body m) + 4 = unat len"
    using arg_cong [OF b(3), of length] len by (simp add: word_less_nat_alt)
  moreover have "unat len < 2 ^ LENGTH(32)" by (rule unsigned_less)
  ultimately have "message_wf m" using b(1) by (simp add: message_wf_fields)
  moreover have "buf = encode_message m @ rest"
  proof -
    have "(of_nat (unat len) :: u32) = len" by simp
    then show ?thesis
      using append_take_drop_id [of "unat len - 4" r]
      by (simp only: buf encode_message_def l b(2) b(3) rest append_Cons append_assoc)
  qed
  ultimately show ?thesis by simp
qed

lemma message_parse_encode:
  assumes "message_wf m"
  shows "message_parse (encode_message m @ rest) = (Ok (Some m), rest)"
proof -
  from assms have w: "fields_wf m" "length (message_body m) + 4 < 2 ^ 32" by (simp_all add: message_wf_fields)
  show ?thesis
    using announced [OF w(2)] parse_body_encode [OF w(1)]
    by (simp add: encode_message_def message_parse_frame del: of_nat_add)
qed

section \<open>Properties of the parser\<close>

lemma message_parse_exact:
  "message_parse buf = (Ok (Some m), rest) \<longleftrightarrow> message_wf m \<and> buf = encode_message m @ rest"
  using message_parse_sound message_parse_encode by blast

text \<open>
  C1. \<open>Message::parse\<close> accepts exactly the documented encodings: it returns the message \<open>m\<close> and
  leaves \<open>rest\<close> if and only if \<open>m\<close> is well formed and the buffer is the encoding of \<open>m\<close>
  followed by \<open>rest\<close>. So every message kind parses, and no two buffers of one length parse to
  the same message.
\<close>

theorem message_parse_iff:
  "message_parse buf = (Ok (Some m), rest) \<longleftrightarrow> message_wf m \<and> buf = encode_message m @ rest"
  by (rule message_parse_exact)

lemma message_parse_waits:
  assumes "message_wf m" and "encode_message m = p @ s" and "s \<noteq> []"
  shows "message_parse p = (Ok None, p)"
proof (cases "length p < 5")
  case True
  then show ?thesis by (simp add: message_parse_def)
next
  case False
  then obtain t and len :: u32 and r where p: "p = t # put_u32 len @ r" by (meson not_less split5)
  from assms(2) [unfolded encode_message_def p append_Cons append_assoc list.inject, THEN conjunct2]
  have parts: "put_u32 (of_nat (length (message_body m) + 4)) = put_u32 len \<and> message_body m = r @ s"
    by (rule append_eq_append_conv [THEN iffD1, rotated]) simp
  then have len: "len = of_nat (length (message_body m) + 4)"
    by (metis u32c.put_inject)
  note parts [THEN conjunct2]
  moreover have "length (message_body m) + 4 < 2 ^ 32" using assms(1) by (simp add: message_wf_fields)
  ultimately show ?thesis
    using announced [of "message_body m"] assms(3)
    by (simp add: p message_parse_frame len del: of_nat_add)
qed

text \<open>
  What a call leaves in the buffer: nothing is consumed while the message is incomplete or its
  length is invalid; once it is complete exactly its bytes are consumed, on success and on
  error; a call never panics.
\<close>

definition announced_len :: "bytes \<Rightarrow> nat" where
  "announced_len buf = be_val (take 4 (drop 1 buf))"

lemma message_parse_progress:
  "case message_parse buf of (r, rest) \<Rightarrow>
     r \<noteq> Panic \<and>
     (if length buf < 5 \<or> 4 \<le> announced_len buf \<and> length buf < announced_len buf + 1
      then r = Ok None \<and> rest = buf
      else if announced_len buf < 4
      then r = Err (IoError InvalidInput ''invalid message length: parsing u32'') \<and> rest = buf
      else r \<noteq> Ok None \<and> rest = drop (announced_len buf + 1) buf)"
proof (cases "length buf < 5")
  case True
  then show ?thesis by (simp add: message_parse_def)
next
  case False
  have "length (take 4 (drop 1 buf)) = 4" using False by simp
  then have "be_val (take 4 (drop 1 buf)) < 2 ^ 32" using be_val_less [of "take 4 (drop 1 buf)"] by simp
  then have u: "unat (of_nat (announced_len buf) :: u32) = announced_len buf"
    by (simp add: announced_len_def unat_of_nat)
  then have lt: "(of_nat (announced_len buf) :: u32) < 4 \<longleftrightarrow> announced_len buf < 4"
    by (simp add: word_less_nat_alt)
  show ?thesis
    using False parse_body_not_Panic
    unfolding message_parse_def Let_def announced_len_def [symmetric] u lt
    by (auto simp: rbind_eq_Panic split: if_splits)
qed

lemma message_parse_not_Panic [simp]: "fst (message_parse buf) \<noteq> Panic"
  using message_parse_progress [of buf] by (auto split: prod.splits)

text \<open>More bytes after a complete message change nothing.\<close>

lemma message_parse_append:
  "message_parse buf = (Ok (Some m), rest) \<Longrightarrow> message_parse (buf @ tail) = (Ok (Some m), rest @ tail)"
  using message_parse_sound message_parse_encode by (metis append_assoc)

text \<open>
  The header of a message, as \<open>Header::parse\<close> reads it, agrees with the message parser on the
  length (both count the length field and not the tag).
\<close>

lemma header_parse_frame:
  "header_parse (t # put_i32 len @ rest) =
     (if sint len < 4 then Err (IoError InvalidData ''invalid message length: header length < 4'')
      else Ok (Some \<lparr>h_tag = t, h_len = len\<rparr>))"
  by (simp add: header_parse_def Let_def be_val_put_u32)

end
