(* ===== verification/Iterators.thy ===== *)
theory Iterators
  imports Prelude
begin

text \<open>
  The external crate \<open>fallible_iterator\<close>: an iterator is a state and a \<open>next\<close> that returns an
  item and the next state, the end, or an error; \<open>collect\<close> is the loop
  \<open>while let Some(x) = it.next()? { v.push(x) }\<close> that the repository also writes out by hand.

  The loop runs on fuel. The locale \<open>fallible_iter\<close> is the contract under which the fuel
  \<open>collect\<close> gives it is enough: every item makes the state smaller. It is interpreted by each
  iterator of the protocol crate. An iterator's state after an error is not modelled, because
  every user stops at the first error.
\<close>

type_synonym ('s, 'a, 'e) next_fn = "'s \<Rightarrow> ('a option \<times> 's, 'e) rresult"

fun drain :: "nat \<Rightarrow> ('s, 'a, 'e) next_fn \<Rightarrow> 's \<Rightarrow> ('a list, 'e) rresult option" where
  "drain 0 nxt s = None"
| "drain (Suc n) nxt s =
     (case nxt s of
        Err e \<Rightarrow> Some (Err e)
      | Panic \<Rightarrow> Some Panic
      | Ok (None, s') \<Rightarrow> Some (Ok [])
      | Ok (Some x, s') \<Rightarrow> map_option (map_ok (Cons x)) (drain n nxt s'))"

text \<open>The out-of-fuel case is never reached by an interpreted iterator (\<open>drain_collect\<close>).\<close>

definition collect :: "('s \<Rightarrow> nat) \<Rightarrow> ('s, 'a, 'e) next_fn \<Rightarrow> 's \<Rightarrow> ('a list, 'e) rresult" where
  "collect sz nxt s = (case drain (Suc (sz s)) nxt s of Some r \<Rightarrow> r | None \<Rightarrow> Panic)"

text \<open>\<open>it.map(f)\<close> with a fallible \<open>f\<close>.\<close>

definition map_iter :: "('a \<Rightarrow> ('b, 'e) rresult) \<Rightarrow> ('s, 'a, 'e) next_fn \<Rightarrow> ('s, 'b, 'e) next_fn" where
  "map_iter f nxt s =
     rbind (nxt s) (\<lambda>(x, s'). case x of None \<Rightarrow> Ok (None, s')
                                | Some v \<Rightarrow> rbind (f v) (\<lambda>y. Ok (Some y, s')))"

text \<open>\<open>while let Some(x) = it.next()? { acc = f(acc, x)? }\<close>\<close>

fun fold_iter :: "nat \<Rightarrow> ('s, 'a, 'e) next_fn \<Rightarrow> ('b \<Rightarrow> 'a \<Rightarrow> ('b, 'e) rresult) \<Rightarrow> 'b \<Rightarrow> 's \<Rightarrow> ('b, 'e) rresult" where
  "fold_iter 0 nxt f acc s = Panic"
| "fold_iter (Suc n) nxt f acc s =
     rbind (nxt s) (\<lambda>(x, s'). case x of None \<Rightarrow> Ok acc
                                | Some v \<Rightarrow> rbind (f acc v) (\<lambda>acc. fold_iter n nxt f acc s'))"

locale fallible_iter =
  fixes sz :: "'s \<Rightarrow> nat" and nxt :: "('s, 'a, 'e) next_fn"
  assumes next_decreases: "nxt s = Ok (Some x, s') \<Longrightarrow> sz s' < sz s"
begin

lemma drain_enough: "sz s < n \<Longrightarrow> \<exists>r. drain n nxt s = Some r"
proof (induction n arbitrary: s)
  case 0
  then show ?case by simp
next
  case (Suc n)
  show ?case
  proof (cases "\<exists>x s'. nxt s = Ok (Some x, s')")
    case True
    then obtain x s' where n: "nxt s = Ok (Some x, s')" by blast
    with next_decreases Suc.prems have "sz s' < n" by fastforce
    with Suc.IH obtain r where "drain n nxt s' = Some r" by blast
    with n show ?thesis by simp
  next
    case False
    then show ?thesis by (auto split: rresult.splits option.splits)
  qed
qed

lemma drain_Suc: "drain n nxt s = Some r \<Longrightarrow> drain (Suc n) nxt s = Some r"
proof (induction n arbitrary: s r)
  case 0
  then show ?case by simp
next
  case (Suc n)
  show ?case
  proof (cases "\<exists>x s'. nxt s = Ok (Some x, s')")
    case True
    then obtain x s' where n: "nxt s = Ok (Some x, s')" by blast
    with Suc.prems obtain r' where "drain n nxt s' = Some r'" "r = map_ok (Cons x) r'" by auto
    with Suc.IH have "drain (Suc n) nxt s' = Some r'" by blast
    with n \<open>r = map_ok (Cons x) r'\<close> show ?thesis by simp
  next
    case False
    with Suc.prems show ?thesis by (auto split: rresult.splits option.splits)
  qed
qed

lemma drain_mono:
  assumes "n \<le> m" and "drain n nxt s = Some r"
  shows "drain m nxt s = Some r"
  using assms(1)
proof (induction rule: dec_induct)
  case base
  show ?case by (rule assms(2))
next
  case (step k)
  show ?case by (rule drain_Suc) (rule step.IH)
qed

lemma drain_collect: "sz s < n \<Longrightarrow> drain n nxt s = Some (collect sz nxt s)"
proof -
  assume n: "sz s < n"
  obtain r where r: "drain (Suc (sz s)) nxt s = Some r"
    using drain_enough [OF lessI] by blast
  from n have "Suc (sz s) \<le> n" by simp
  then have "drain n nxt s = Some r" using r by (rule drain_mono)
  with r show ?thesis by (simp add: collect_def del: drain.simps)
qed

text \<open>The loop equation: the fuel is gone from the statement.\<close>

lemma collect_unfold:
  "collect sz nxt s =
     rbind (nxt s) (\<lambda>(x, s'). case x of None \<Rightarrow> Ok [] | Some v \<Rightarrow> map_ok (Cons v) (collect sz nxt s'))"
proof (cases "\<exists>x s'. nxt s = Ok (Some x, s')")
  case True
  then obtain x s' where n: "nxt s = Ok (Some x, s')" by blast
  then have "sz s' < sz s" by (rule next_decreases)
  then have "drain (sz s) nxt s' = Some (collect sz nxt s')" by (rule drain_collect)
  with n show ?thesis by (simp add: collect_def [of sz nxt s])
next
  case False
  then show ?thesis
    by (cases "nxt s") (auto simp: collect_def split: option.splits)
qed

lemma collect_end: "nxt s = Ok (None, s') \<Longrightarrow> collect sz nxt s = Ok []"
  by (simp add: collect_unfold)

lemma collect_item: "nxt s = Ok (Some x, s') \<Longrightarrow> collect sz nxt s = map_ok (Cons x) (collect sz nxt s')"
  by (subst collect_unfold) simp

lemma collect_err: "nxt s = Err e \<Longrightarrow> collect sz nxt s = Err e"
  by (subst collect_unfold) simp

lemma collect_not_Panic:
  assumes "\<And>s. nxt s \<noteq> Panic"
  shows "collect sz nxt s \<noteq> Panic"
proof (induction s rule: measure_induct_rule [of sz])
  case (less s)
  then show ?case
    using assms [of s] next_decreases [of s]
    by (subst collect_unfold) (auto simp: rbind_eq_Panic split: option.splits)
qed

lemma fold_collect:
  "collect sz nxt s = Ok xs \<Longrightarrow> sz s < n \<Longrightarrow> fold_iter n nxt f acc s = try_foldl f acc xs"
proof (induction n arbitrary: s xs acc)
  case 0
  then show ?case by simp
next
  case (Suc n)
  from Suc.prems(1) [unfolded collect_unfold [of s]] obtain x s' where x: "nxt s = Ok (x, s')"
    "(case x of None \<Rightarrow> Ok [] | Some v \<Rightarrow> map_ok (Cons v) (collect sz nxt s')) = Ok xs" by auto
  show ?case
  proof (cases x)
    case None
    with x show ?thesis by auto
  next
    case (Some v)
    with x obtain ys where ys: "collect sz nxt s' = Ok ys" "xs = v # ys" by auto
    have "sz s' < n" using next_decreases [of s v s'] x(1) Some Suc.prems(2) by simp
    from Suc.IH [OF ys(1) this] x(1) Some ys(2) show ?thesis by simp
  qed
qed

lemma fold_not_Panic:
  assumes "\<And>s. nxt s \<noteq> Panic" and "\<And>acc x. f acc x \<noteq> Panic"
  shows "sz s < n \<Longrightarrow> fold_iter n nxt f acc s \<noteq> Panic"
proof (induction n arbitrary: s acc)
  case (Suc n)
  then show ?case
    using assms(1) [of s] assms(2) next_decreases [of s]
    by (fastforce simp: rbind_eq_Panic split: option.splits)
qed simp

lemma mapped: "fallible_iter sz (map_iter f nxt)"
proof
  fix s x s'
  assume "map_iter f nxt s = Ok (Some x, s')"
  then show "sz s' < sz s"
    by (auto simp: map_iter_def intro: next_decreases split: option.splits)
qed

lemma collect_map_iter:
  "collect sz nxt s = Ok vs \<Longrightarrow> list_all2 (\<lambda>v x. f v = Ok x) vs xs \<Longrightarrow> collect sz (map_iter f nxt) s = Ok xs"
proof (induction vs arbitrary: s xs)
  case Nil
  from Nil.prems(1) [unfolded collect_unfold [of s]] obtain s' where "nxt s = Ok (None, s')"
    by (auto split: option.splits)
  with Nil show ?case by (subst fallible_iter.collect_unfold [OF mapped]) (simp add: map_iter_def)
next
  case (Cons v vs)
  from Cons.prems(1) [unfolded collect_unfold [of s]]
  obtain s' where s': "nxt s = Ok (Some v, s')" "collect sz nxt s' = Ok vs"
    by (auto split: option.splits)
  from Cons.prems(2) obtain x xs' where x: "xs = x # xs'" "f v = Ok x" "list_all2 (\<lambda>v x. f v = Ok x) vs xs'"
    by (auto simp: list_all2_Cons1)
  have "map_iter f nxt s = Ok (Some x, s')" using s'(1) x(2) by (simp add: map_iter_def)
  with Cons.IH [OF s'(2) x(3)] x(1) show ?case
    by (subst fallible_iter.collect_unfold [OF mapped]) simp
qed

end

end
