(* ===== verification/BackendIters.thy ===== *)
theory BackendIters
  imports BackendSpec Iterators Frontend
begin

text \<open>
  The iterators of \<open>message/backend.rs\<close> over message bodies: \<open>SaslMechanisms\<close>,
  \<open>ColumnFormats\<close>, \<open>DataRowRanges\<close>, \<open>ErrorFields\<close>, \<open>Parameters\<close> and \<open>Fields\<close>. Each is a
  \<open>next\<close> function on its state, interpreted as a \<open>fallible_iter\<close>; the counted ones and the
  terminated ones are each proved against one list format.
\<close>

section \<open>Helpers of the source\<close>

definition find_null :: "bytes \<Rightarrow> nat \<Rightarrow> (nat, io_error) rresult" where
  "find_null buf start =
     (if length buf < start then Panic
      else case memchr 0 (drop start buf) of Some pos \<Rightarrow> Ok (pos + start) | None \<Rightarrow> Err unexpected_eof)"

definition get_str :: "bytes \<Rightarrow> (str, io_error) rresult" where
  "get_str buf = map_err (\<lambda>e. IoError InvalidInput (utf8_error_text e)) (from_utf8 buf)"

section \<open>The iterators\<close>

definition sasl_mechanisms_next :: "(bytes, str, io_error) next_fn" where
  "sasl_mechanisms_next b =
     rbind (find_null b 0) (\<lambda>value_end.
       if value_end = 0 then
         (if length b \<noteq> 1
          then Err (IoError InvalidData ''invalid message length: expected to be at end of iterator for sasl'')
          else Ok (None, b))
       else rbind (get_str (take value_end b)) (\<lambda>value. Ok (Some value, drop (value_end + 1) b)))"

record counted_iter =
  ci_buf :: bytes
  ci_remaining :: u16

definition column_formats_next :: "(counted_iter, u16, io_error) next_fn" where
  "column_formats_next s =
     (if ci_remaining s = 0 then
        (if ci_buf s = [] then Ok (None, s)
         else Err (IoError InvalidInput ''invalid message length: wrong column formats''))
      else let remaining = ci_remaining s - 1 in
        rbind (read_u16 (ci_buf s)) (\<lambda>(x, b). Ok (Some x, \<lparr>ci_buf = b, ci_remaining = remaining\<rparr>)))"

definition parameters_next :: "(counted_iter, u32, io_error) next_fn" where
  "parameters_next s =
     (if ci_remaining s = 0 then
        (if ci_buf s = [] then Ok (None, s)
         else Err (IoError InvalidInput ''invalid message length: parameters is not drained''))
      else let remaining = ci_remaining s - 1 in
        rbind (read_u32 (ci_buf s)) (\<lambda>(x, b). Ok (Some x, \<lparr>ci_buf = b, ci_remaining = remaining\<rparr>)))"

record field =
  f_name :: str
  f_table_oid :: u32
  f_column_id :: i16
  f_type_oid :: u32
  f_type_size :: i16
  f_type_modifier :: i32
  f_format :: i16

definition fields_next :: "(counted_iter, field, io_error) next_fn" where
  "fields_next s =
     (if ci_remaining s = 0 then
        (if ci_buf s = [] then Ok (None, s)
         else Err (IoError InvalidInput ''invalid message length: field is not drained''))
      else let remaining = ci_remaining s - 1; b = ci_buf s in
        rbind (find_null b 0) (\<lambda>name_end.
        rbind (get_str (take name_end b)) (\<lambda>name.
        rbind (read_u32 (drop (name_end + 1) b)) (\<lambda>(table_oid, b).
        rbind (read_i16 b) (\<lambda>(column_id, b).
        rbind (read_u32 b) (\<lambda>(type_oid, b).
        rbind (read_i16 b) (\<lambda>(type_size, b).
        rbind (read_i32 b) (\<lambda>(type_modifier, b).
        rbind (read_i16 b) (\<lambda>(format, b).
          Ok (Some \<lparr>f_name = name, f_table_oid = table_oid, f_column_id = column_id, f_type_oid = type_oid,
                    f_type_size = type_size, f_type_modifier = type_modifier, f_format = format\<rparr>,
              \<lparr>ci_buf = b, ci_remaining = remaining\<rparr>))))))))))"

record ranges_iter =
  ri_buf :: bytes
  ri_len :: nat
  ri_remaining :: u16

definition data_row_ranges_next :: "(ranges_iter, (nat \<times> nat) option, io_error) next_fn" where
  "data_row_ranges_next s =
     (if ri_remaining s = 0 then
        (if ri_buf s = [] then Ok (None, s)
         else Err (IoError InvalidInput ''invalid message length: datarowrange is not empty''))
      else let remaining = ri_remaining s - 1 in
        rbind (read_i32 (ri_buf s)) (\<lambda>(len :: i32, b).
          if sint len < 0 then Ok (Some None, s\<lparr>ri_buf := b, ri_remaining := remaining\<rparr>)
          else let len = unat len in
            if length b < len then Err unexpected_eof
            else rbind (if length b \<le> ri_len s then Ok (ri_len s - length b) else Panic) (\<lambda>base.
              Ok (Some (Some (base, base + len)),
                  s\<lparr>ri_buf := drop len b, ri_remaining := remaining\<rparr>))))"

record error_field =
  ef_type :: u8
  ef_value :: bytes

definition error_fields_next :: "(bytes, error_field, io_error) next_fn" where
  "error_fields_next buf =
     rbind (read_u8 buf) (\<lambda>(ty, b).
       if ty = 0 then
         (if b = [] then Ok (None, b)
          else Err (IoError InvalidInput ''invalid message length: error fields is not drained''))
       else rbind (find_null b 0) (\<lambda>value_end.
         Ok (Some \<lparr>ef_type = ty, ef_value = take value_end b\<rparr>, drop (value_end + 1) b)))"

section \<open>The accessors\<close>

definition mechanisms :: "bytes \<Rightarrow> bytes" where
  "mechanisms b = b"

definition column_formats :: "copy_response_body \<Rightarrow> counted_iter" where
  "column_formats c = \<lparr>ci_buf = cr_storage c, ci_remaining = cr_len c\<rparr>"

definition ranges :: "data_row_body \<Rightarrow> ranges_iter" where
  "ranges d = \<lparr>ri_buf = dr_storage d, ri_len = length (dr_storage d), ri_remaining = dr_len d\<rparr>"

definition parameters :: "counted_body \<Rightarrow> counted_iter" where
  "parameters c = \<lparr>ci_buf = cb_storage c, ci_remaining = cb_len c\<rparr>"

definition fields :: "counted_body \<Rightarrow> counted_iter" where
  "fields c = \<lparr>ci_buf = cb_storage c, ci_remaining = cb_len c\<rparr>"

definition error_fields :: "bytes \<Rightarrow> bytes" where
  "error_fields b = b"

definition command_tag :: "bytes \<Rightarrow> (str, io_error) rresult" where
  "command_tag t = get_str t"

definition notification_channel :: "notification_response_body \<Rightarrow> (str, io_error) rresult" where
  "notification_channel n = get_str (nr_channel n)"

definition notification_message :: "notification_response_body \<Rightarrow> (str, io_error) rresult" where
  "notification_message n = get_str (nr_message n)"

definition parameter_name :: "parameter_status_body \<Rightarrow> (str, io_error) rresult" where
  "parameter_name p = get_str (ps_name p)"

definition parameter_value :: "parameter_status_body \<Rightarrow> (str, io_error) rresult" where
  "parameter_value p = get_str (ps_value p)"

section \<open>They are fallible iterators\<close>

lemma find_null_zero:
  "find_null b 0 = (case memchr 0 b of Some pos \<Rightarrow> Ok pos | None \<Rightarrow> Err unexpected_eof)"
  by (simp add: find_null_def split: option.splits)

lemma find_null_iff: "find_null b 0 = Ok n \<longleftrightarrow> (\<exists>s r. b = s @ 0 # r \<and> n = length s \<and> 0 \<notin> set s)"
proof
  assume "find_null b 0 = Ok n"
  then have "memchr 0 b = Some n" by (simp add: find_null_zero split: option.splits)
  then show "\<exists>s r. b = s @ 0 # r \<and> n = length s \<and> 0 \<notin> set s" unfolding memchr_Some by blast
qed (auto simp: find_null_zero memchr_append)

lemma find_null_append: "0 \<notin> set s \<Longrightarrow> find_null (s @ 0 # r) 0 = Ok (length s)"
  by (simp add: find_null_zero memchr_append)

lemma find_null_not_Panic [simp]: "find_null b 0 \<noteq> Panic"
  by (simp add: find_null_zero split: option.splits)

lemma get_str_iff: "get_str b = Ok s \<longleftrightarrow> utf8_valid b \<and> s = of_bytes b"
  by (simp add: get_str_def from_utf8_iff)

lemma get_str_not_Panic [simp]: "get_str b \<noteq> Panic"
  by (simp add: get_str_def)

lemma remaining_decreases: "(x :: u16) \<noteq> 0 \<Longrightarrow> unat (x - 1) < unat x"
  by (metis Suc_pred' gr0I lessI unat_0_iff unat_minus_one)

interpretation sasl_it: fallible_iter length sasl_mechanisms_next
  by unfold_locales (auto simp: sasl_mechanisms_next_def find_null_iff split: if_splits)

interpretation formats_it: fallible_iter "\<lambda>s. unat (ci_remaining s)" column_formats_next
  by unfold_locales (auto simp: column_formats_next_def Let_def remaining_decreases split: if_splits)

interpretation params_it: fallible_iter "\<lambda>s. unat (ci_remaining s)" parameters_next
  by unfold_locales (auto simp: parameters_next_def Let_def remaining_decreases split: if_splits)

interpretation fields_it: fallible_iter "\<lambda>s. unat (ci_remaining s)" fields_next
  by unfold_locales (auto simp: fields_next_def Let_def remaining_decreases split: if_splits)

interpretation ranges_it: fallible_iter "\<lambda>s. unat (ri_remaining s)" data_row_ranges_next
  by unfold_locales (auto simp: data_row_ranges_next_def Let_def remaining_decreases split: if_splits)

interpretation errors_it: fallible_iter length error_fields_next
  by unfold_locales (auto simp: error_fields_next_def find_null_iff read_u8_iff split: if_splits)

section \<open>Counted lists\<close>

definition counted_next :: "'x buf_reader \<Rightarrow> string \<Rightarrow> (counted_iter, 'x, io_error) next_fn" where
  "counted_next get msg s =
     (if ci_remaining s = 0 then
        (if ci_buf s = [] then Ok (None, s) else Err (IoError InvalidInput msg))
      else rbind (get (ci_buf s)) (\<lambda>(x, b). Ok (Some x, \<lparr>ci_buf = b, ci_remaining = ci_remaining s - 1\<rparr>)))"

locale exact_reader =
  fixes get :: "'x buf_reader" and enc :: "'x \<Rightarrow> bytes" and ok :: "'x \<Rightarrow> bool"
  assumes get_exactly: "get b = Ok (x, r) \<longleftrightarrow> ok x \<and> b = enc x @ r"
begin

lemma counted_iter: "fallible_iter (\<lambda>s. unat (ci_remaining s)) (counted_next get msg)"
  by unfold_locales (auto simp: counted_next_def remaining_decreases split: if_splits)

lemma counted_list:
  "collect (\<lambda>s. unat (ci_remaining s)) (counted_next get msg) \<lparr>ci_buf = b, ci_remaining = n\<rparr> = Ok xs \<longleftrightarrow>
     length xs = unat n \<and> list_all ok xs \<and> b = concat (map enc xs)"
proof (induction xs arbitrary: b n)
  case Nil
  show ?case
    by (subst fallible_iter.collect_unfold [OF counted_iter])
      (auto simp: counted_next_def unat_eq_zero)
next
  case (Cons x xs)
  show ?case
  proof (cases "n = 0")
    case True
    then show ?thesis
      by (subst fallible_iter.collect_unfold [OF counted_iter]) (auto simp: counted_next_def)
  next
    case False
    then have n: "unat (n - 1) = unat n - 1" "0 < unat n"
      by (simp_all add: unat_minus_one unat_gt_0)
    have "collect (\<lambda>s. unat (ci_remaining s)) (counted_next get msg) \<lparr>ci_buf = b, ci_remaining = n\<rparr> = Ok (x # xs) \<longleftrightarrow>
        (\<exists>r. get b = Ok (x, r) \<and> collect (\<lambda>s. unat (ci_remaining s)) (counted_next get msg)
               \<lparr>ci_buf = r, ci_remaining = n - 1\<rparr> = Ok xs)"
      using False by (subst fallible_iter.collect_unfold [OF counted_iter]) (auto simp: counted_next_def)
    also have "\<dots> \<longleftrightarrow> (\<exists>r. ok x \<and> b = enc x @ r \<and> length xs = unat n - 1 \<and> list_all ok xs \<and> r = concat (map enc xs))"
      by (simp only: Cons get_exactly n(1)) blast
    finally show ?thesis using n(2) by auto
  qed
qed

end

text \<open>A fixed-width value is read exactly.\<close>

sublocale fixed_codec \<subseteq> rd: exact_reader get put "\<lambda>_. True"
  by unfold_locales (simp add: get_iff)

definition field_get :: "field buf_reader" where
  "field_get b =
     rbind (find_null b 0) (\<lambda>name_end.
     rbind (get_str (take name_end b)) (\<lambda>name.
     rbind (read_u32 (drop (name_end + 1) b)) (\<lambda>(table_oid, b).
     rbind (read_i16 b) (\<lambda>(column_id, b).
     rbind (read_u32 b) (\<lambda>(type_oid, b).
     rbind (read_i16 b) (\<lambda>(type_size, b).
     rbind (read_i32 b) (\<lambda>(type_modifier, b).
     rbind (read_i16 b) (\<lambda>(format, b).
       Ok (\<lparr>f_name = name, f_table_oid = table_oid, f_column_id = column_id, f_type_oid = type_oid,
            f_type_size = type_size, f_type_modifier = type_modifier, f_format = format\<rparr>, b)))))))))"

definition field_bytes :: "field \<Rightarrow> bytes" where
  "field_bytes f = as_bytes (f_name f) @ 0 # put_u32 (f_table_oid f) @ put_i16 (f_column_id f) @
     put_u32 (f_type_oid f) @ put_i16 (f_type_size f) @ put_i32 (f_type_modifier f) @ put_i16 (f_format f)"

definition field_ok :: "field \<Rightarrow> bool" where
  "field_ok f \<longleftrightarrow> 0 \<notin> set (as_bytes (f_name f)) \<and> utf8_valid (as_bytes (f_name f))"

lemma field_get_iff: "field_get b = Ok (f, r) \<longleftrightarrow> field_ok f \<and> b = field_bytes f @ r"
proof
  assume "field_get b = Ok (f, r)"
  then show "field_ok f \<and> b = field_bytes f @ r"
    by (auto simp: field_get_def find_null_iff get_str_iff u16c.get_iff u32c.get_iff field_ok_def field_bytes_def)
next
  assume f: "field_ok f \<and> b = field_bytes f @ r"
  obtain tl where b: "b = as_bytes (f_name f) @ 0 # tl"
      and tl: "tl = put_u32 (f_table_oid f) @ put_i16 (f_column_id f) @ put_u32 (f_type_oid f) @
        put_i16 (f_type_size f) @ put_i32 (f_type_modifier f) @ put_i16 (f_format f) @ r"
    using f by (simp add: field_bytes_def)
  have "find_null b 0 = Ok (length (as_bytes (f_name f)))"
    using f unfolding find_null_iff field_ok_def b by blast
  moreover have "get_str (take (length (as_bytes (f_name f))) b) = Ok (f_name f)"
    using f [THEN conjunct1] by (simp add: get_str_iff b field_ok_def)
  moreover have "drop (length (as_bytes (f_name f)) + 1) b = tl" by (simp add: b)
  ultimately show "field_get b = Ok (f, r)"
    by (simp add: field_get_def tl reader_simps)
qed

interpretation field_rd: exact_reader field_get field_bytes field_ok
  by unfold_locales (rule field_get_iff)

lemma column_formats_counted: "column_formats_next = counted_next read_u16 ''invalid message length: wrong column formats''"
  by (simp add: fun_eq_iff column_formats_next_def counted_next_def Let_def)

lemma parameters_counted: "parameters_next = counted_next read_u32 ''invalid message length: parameters is not drained''"
  by (simp add: fun_eq_iff parameters_next_def counted_next_def Let_def)

lemma fields_counted: "fields_next = counted_next field_get ''invalid message length: field is not drained''"
  by (simp add: fun_eq_iff fields_next_def counted_next_def field_get_def Let_def rbind_assoc split_def)

section \<open>Terminated lists\<close>

definition error_field_bytes :: "error_field \<Rightarrow> bytes" where
  "error_field_bytes f = ef_type f # ef_value f @ [0]"

definition error_field_ok :: "error_field \<Rightarrow> bool" where
  "error_field_ok f \<longleftrightarrow> ef_type f \<noteq> 0 \<and> 0 \<notin> set (ef_value f)"

lemma error_fields_step:
  "error_fields_next b = Ok (Some f, r) \<longleftrightarrow> error_field_ok f \<and> b = error_field_bytes f @ r"
proof
  assume "error_fields_next b = Ok (Some f, r)"
  then show "error_field_ok f \<and> b = error_field_bytes f @ r"
    by (auto simp: error_fields_next_def read_u8_iff find_null_iff error_field_ok_def error_field_bytes_def
        split: if_splits)
next
  assume f: "error_field_ok f \<and> b = error_field_bytes f @ r"
  have "find_null (ef_value f @ 0 # r) 0 = Ok (length (ef_value f))"
    using f by (intro find_null_append) (simp add: error_field_ok_def)
  with f show "error_fields_next b = Ok (Some f, r)"
    by (simp add: error_fields_next_def read_u8_def error_field_ok_def error_field_bytes_def)
qed

lemma error_fields_end: "error_fields_next b = Ok (None, r) \<longleftrightarrow> b = [0] \<and> r = []"
  by (auto simp: error_fields_next_def read_u8_def split: list.splits)

lemma error_fields_list:
  "collect length error_fields_next b = Ok fs \<longleftrightarrow>
     list_all error_field_ok fs \<and> b = concat (map error_field_bytes fs) @ [0]"
proof (induction fs arbitrary: b)
  case Nil
  have "collect length error_fields_next b = Ok [] \<longleftrightarrow> (\<exists>r. error_fields_next b = Ok (None, r))"
    by (subst errors_it.collect_unfold) (auto split: option.splits)
  then show ?case by (simp add: error_fields_end)
next
  case (Cons f fs)
  have "collect length error_fields_next b = Ok (f # fs) \<longleftrightarrow>
      (\<exists>r. error_fields_next b = Ok (Some f, r) \<and> collect length error_fields_next r = Ok fs)"
    by (subst errors_it.collect_unfold) (auto split: option.splits)
  then show ?case by (auto simp: error_fields_step Cons)
qed

definition mechanism_ok :: "str \<Rightarrow> bool" where
  "mechanism_ok m \<longleftrightarrow> m \<noteq> [] \<and> 0 \<notin> set (as_bytes m) \<and> utf8_valid (as_bytes m)"

lemma sasl_step:
  "sasl_mechanisms_next b = Ok (Some m, r) \<longleftrightarrow> mechanism_ok m \<and> b = as_bytes m @ 0 # r"
proof
  assume "sasl_mechanisms_next b = Ok (Some m, r)"
  then show "mechanism_ok m \<and> b = as_bytes m @ 0 # r"
    by (auto simp: sasl_mechanisms_next_def find_null_iff get_str_iff mechanism_ok_def split: if_splits)
next
  assume m: "mechanism_ok m \<and> b = as_bytes m @ 0 # r"
  have "find_null b 0 = Ok (length m)"
    using m find_null_append [of "as_bytes m" r] by (simp add: mechanism_ok_def)
  moreover have "get_str (take (length m) b) = Ok m"
    using m by (simp add: get_str_iff mechanism_ok_def)
  ultimately show "sasl_mechanisms_next b = Ok (Some m, r)"
    using m by (simp add: sasl_mechanisms_next_def mechanism_ok_def)
qed

lemma sasl_end: "sasl_mechanisms_next b = Ok (None, r) \<longleftrightarrow> b = [0] \<and> r = b"
  by (auto simp: sasl_mechanisms_next_def find_null_iff length_Suc_conv split: if_splits)

lemma sasl_list:
  "collect length sasl_mechanisms_next b = Ok ms \<longleftrightarrow>
     list_all mechanism_ok ms \<and> b = concat (map (\<lambda>m. as_bytes m @ [0]) ms) @ [0]"
proof (induction ms arbitrary: b)
  case Nil
  have "collect length sasl_mechanisms_next b = Ok [] \<longleftrightarrow> (\<exists>r. sasl_mechanisms_next b = Ok (None, r))"
    by (subst sasl_it.collect_unfold) (auto split: option.splits)
  then show ?case by (simp add: sasl_end)
next
  case (Cons m ms)
  have "collect length sasl_mechanisms_next b = Ok (m # ms) \<longleftrightarrow>
      (\<exists>r. sasl_mechanisms_next b = Ok (Some m, r) \<and> collect length sasl_mechanisms_next r = Ok ms)"
    by (subst sasl_it.collect_unfold) (auto split: option.splits)
  then show ?case by (auto simp: sasl_step Cons)
qed

section \<open>Data rows\<close>

text \<open>A cell of a row: its length field and its bytes; any negative length is \<open>NULL\<close>.\<close>

type_synonym cell = "i32 \<times> bytes"

definition cell_ok :: "cell \<Rightarrow> bool" where
  "cell_ok c \<longleftrightarrow> (if sint (fst c) < 0 then snd c = [] else length (snd c) = unat (fst c))"

definition cell_bytes :: "cell \<Rightarrow> bytes" where
  "cell_bytes c = put_i32 (fst c) @ snd c"

definition cell_value :: "cell \<Rightarrow> bytes option" where
  "cell_value c = (if sint (fst c) < 0 then None else Some (snd c))"

fun cell_ranges :: "nat \<Rightarrow> cell list \<Rightarrow> (nat \<times> nat) option list" where
  "cell_ranges base [] = []"
| "cell_ranges base (c # cs) =
     (if sint (fst c) < 0 then None else Some (base + 4, base + 4 + length (snd c)))
       # cell_ranges (base + 4 + length (snd c)) cs"

text \<open>What a reader of the row does with a range: \<open>&body.buffer()[range]\<close>.\<close>

definition slice_range :: "bytes \<Rightarrow> (nat \<times> nat) option \<Rightarrow> bytes option" where
  "slice_range storage r = map_option (\<lambda>(a, e). take (e - a) (drop a storage)) r"

definition range_ok :: "bytes \<Rightarrow> (nat \<times> nat) option \<Rightarrow> bool" where
  "range_ok storage r \<longleftrightarrow> (case r of None \<Rightarrow> True | Some (a, e) \<Rightarrow> a \<le> e \<and> e \<le> length storage)"

lemma ranges_step:
  assumes "ri_len s = base + length (ri_buf s)" and "ri_remaining s \<noteq> 0"
  shows "data_row_ranges_next s = Ok (Some rg, s') \<longleftrightarrow>
    (\<exists>c. cell_ok c \<and> ri_buf s = cell_bytes c @ ri_buf s' \<and> rg # [] = cell_ranges base [c] \<and>
       s' = s\<lparr>ri_buf := ri_buf s', ri_remaining := ri_remaining s - 1\<rparr>)"
proof
  assume "data_row_ranges_next s = Ok (Some rg, s')"
  then obtain len :: i32 and b where r: "ri_buf s = put_i32 len @ b"
    and rest: "if sint len < 0 then rg = None \<and> s' = s\<lparr>ri_buf := b, ri_remaining := ri_remaining s - 1\<rparr>
      else unat len \<le> length b \<and> rg = Some (ri_len s - length b, ri_len s - length b + unat len) \<and>
        s' = s\<lparr>ri_buf := drop (unat len) b, ri_remaining := ri_remaining s - 1\<rparr>"
    using assms(2)
    by (auto simp: data_row_ranges_next_def Let_def u32c.get_iff not_less split: if_splits)
  show "\<exists>c. cell_ok c \<and> ri_buf s = cell_bytes c @ ri_buf s' \<and> rg # [] = cell_ranges base [c] \<and>
       s' = s\<lparr>ri_buf := ri_buf s', ri_remaining := ri_remaining s - 1\<rparr>"
  proof (cases "sint len < 0")
    case True
    with rest r show ?thesis
      by (intro exI [of _ "(len, [])"]) (simp add: cell_ok_def cell_bytes_def)
  next
    case False
    with rest r assms(1) show ?thesis
      by (intro exI [of _ "(len, take (unat len) b)"]) (simp add: cell_ok_def cell_bytes_def)
  qed
next
  assume "\<exists>c. cell_ok c \<and> ri_buf s = cell_bytes c @ ri_buf s' \<and> rg # [] = cell_ranges base [c] \<and>
       s' = s\<lparr>ri_buf := ri_buf s', ri_remaining := ri_remaining s - 1\<rparr>"
  then obtain len v where c: "cell_ok (len, v)" "ri_buf s = cell_bytes (len, v) @ ri_buf s'"
      "rg # [] = cell_ranges base [(len, v)]"
      "s' = s\<lparr>ri_buf := ri_buf s', ri_remaining := ri_remaining s - 1\<rparr>" by force
  have rd: "read_i32 (ri_buf s) = Ok (len, v @ ri_buf s')"
    using c(2) by (simp add: u32c.get_iff cell_bytes_def)
  have base: "ri_len s - length (v @ ri_buf s') = base + 4"
    using c(2) assms(1) by (simp add: cell_bytes_def)
  show "data_row_ranges_next s = Ok (Some rg, s')"
  proof (cases "sint len < 0")
    case True
    with rd c(1,3,4) assms(2) show ?thesis
      by (simp add: data_row_ranges_next_def cell_ok_def Let_def)
  next
    case False
    then show ?thesis
      using rd c base assms
      by (simp add: data_row_ranges_next_def cell_ok_def Let_def cell_bytes_def)
  qed
qed

lemma ranges_step':
  assumes "ri_len s = base + length (ri_buf s)" and "ri_remaining s \<noteq> 0"
  shows "data_row_ranges_next s = Ok (Some rg, s') \<longleftrightarrow>
    (\<exists>c b. cell_ok c \<and> ri_buf s = cell_bytes c @ b \<and> cell_ranges base [c] = [rg] \<and>
       s' = s\<lparr>ri_buf := b, ri_remaining := ri_remaining s - 1\<rparr>)"
proof -
  have "(s' = s\<lparr>ri_buf := b, ri_remaining := n\<rparr>) =
      (ri_buf s' = b \<and> s' = s\<lparr>ri_buf := ri_buf s', ri_remaining := n\<rparr>)" for b n
    by (cases s; cases s') auto
  then show ?thesis unfolding ranges_step [OF assms] by (metis (no_types))
qed

lemma cell_ranges_Cons:
  "cell_ranges base (c # cs) = cell_ranges base [c] @ cell_ranges (base + length (cell_bytes c)) cs"
  by (simp add: cell_bytes_def add.assoc)

lemma ranges_list:
  assumes "ri_len s = base + length (ri_buf s)"
  shows "collect (\<lambda>s. unat (ri_remaining s)) data_row_ranges_next s = Ok rs \<longleftrightarrow>
    (\<exists>cs. list_all cell_ok cs \<and> length cs = unat (ri_remaining s) \<and>
       ri_buf s = concat (map cell_bytes cs) \<and> rs = cell_ranges base cs)"
  using assms
proof (induction "unat (ri_remaining s)" arbitrary: s base rs)
  case 0
  then have z: "ri_remaining s = 0" by (simp add: unat_eq_zero)
  then show ?case
    by (subst ranges_it.collect_unfold) (auto simp: data_row_ranges_next_def)
next
  case (Suc n)
  let ?col = "collect (\<lambda>s. unat (ri_remaining s)) data_row_ranges_next"
  let ?s' = "\<lambda>b. s\<lparr>ri_buf := b, ri_remaining := ri_remaining s - 1\<rparr>"
  have nz: "ri_remaining s \<noteq> 0" using Suc.hyps(2) by auto
  then have n: "n = unat (ri_remaining (?s' b))" for b
    using Suc.hyps(2) by (simp add: unat_minus_one)
  have IH: "?col (?s' b) = Ok ts \<longleftrightarrow> (\<exists>cs. list_all cell_ok cs \<and> length cs = n \<and>
       b = concat (map cell_bytes cs) \<and> ts = cell_ranges (base + k) cs)"
    if "length (ri_buf s) = k + length b" for b k ts
    using Suc.hyps(1) [OF n, where base = "base + k"] n [of b] Suc.prems that by simp
  have not_end: "data_row_ranges_next s \<noteq> Ok (None, s')" for s'
    using nz by (auto simp: data_row_ranges_next_def Let_def split: if_splits)
  have "?col s = Ok rs \<longleftrightarrow> (\<exists>rg s' ts. data_row_ranges_next s = Ok (Some rg, s') \<and> ?col s' = Ok ts \<and> rs = rg # ts)"
    using not_end by (subst ranges_it.collect_unfold) (auto split: option.splits)
  also have "\<dots> \<longleftrightarrow> (\<exists>rg c b. cell_ok c \<and> ri_buf s = cell_bytes c @ b \<and> cell_ranges base [c] = [rg] \<and>
      (\<exists>ts. ?col (?s' b) = Ok ts \<and> rs = rg # ts))"
    unfolding ranges_step' [OF Suc.prems nz] by blast
  also have "\<dots> \<longleftrightarrow> (\<exists>c b cs. cell_ok c \<and> ri_buf s = cell_bytes c @ b \<and> list_all cell_ok cs \<and> length cs = n \<and>
       b = concat (map cell_bytes cs) \<and> rs = cell_ranges base (c # cs))"
  proof -
    have "(\<exists>rg. cell_ranges base [c] = [rg] \<and> (\<exists>ts. ?col (?s' b) = Ok ts \<and> rs = rg # ts)) \<longleftrightarrow>
        (\<exists>cs. list_all cell_ok cs \<and> length cs = n \<and> b = concat (map cell_bytes cs) \<and> rs = cell_ranges base (c # cs))"
      if "ri_buf s = cell_bytes c @ b" for c b
    proof -
      have "\<exists>rg. cell_ranges base [c] = [rg]" by simp
      then obtain rg where rg: "cell_ranges base [c] = [rg]" ..
      have "length (ri_buf s) = length (cell_bytes c) + length b" using that by simp
      note ih = IH [OF this]
      have rc: "cell_ranges base (c # cs) = rg # cell_ranges (base + length (cell_bytes c)) cs" for cs
        using cell_ranges_Cons [of base c cs] rg by simp
      show ?thesis
        unfolding ih rc by auto
    qed
    then show ?thesis by blast
  qed
  also have "\<dots> \<longleftrightarrow> (\<exists>cs. list_all cell_ok cs \<and> length cs = Suc n \<and>
       ri_buf s = concat (map cell_bytes cs) \<and> rs = cell_ranges base cs)" (is "_ \<longleftrightarrow> (\<exists>cs. ?P cs)")
  proof -
    have "(\<exists>cs. ?P cs) \<longleftrightarrow> (\<exists>c cs. ?P (c # cs))"
      by (metis Zero_not_Suc length_0_conv neq_Nil_conv)
    then show ?thesis by (simp del: cell_ranges.simps split_paired_Ex) blast
  qed
  finally show ?case using Suc.hyps(2) by simp
qed

lemma ranges_slice:
  "list_all cell_ok cs \<Longrightarrow>
     map (slice_range (pre @ concat (map cell_bytes cs))) (cell_ranges (length pre) cs) = map cell_value cs"
proof (induction cs arbitrary: pre)
  case Nil
  then show ?case by simp
next
  case (Cons c cs)
  have "pre @ concat (map cell_bytes (c # cs)) = (pre @ cell_bytes c) @ concat (map cell_bytes cs)" by simp
  moreover have "base + 4 + length (snd c) = length (pre @ cell_bytes c)" if "base = length pre" for base
    using that by (simp add: cell_bytes_def)
  ultimately show ?case
    using Cons.IH [of "pre @ cell_bytes c"] Cons.prems
    by (simp add: slice_range_def cell_value_def cell_bytes_def add.assoc)
qed

lemma ranges_within:
  "list_all cell_ok cs \<Longrightarrow>
     list_all (range_ok (pre @ concat (map cell_bytes cs))) (cell_ranges (length pre) cs)"
proof (induction cs arbitrary: pre)
  case Nil
  then show ?case by simp
next
  case (Cons c cs)
  then show ?case
    using Cons.IH [of "pre @ cell_bytes c"] by (simp add: range_ok_def cell_bytes_def add.assoc)
qed

section \<open>Properties of the iterators\<close>

text \<open>
  C35. \<open>DataRowBody::ranges\<close>: draining the iterator succeeds exactly when the body is the stated
  number of well-formed cells and nothing else; then there is one range per column, every range
  lies inside the buffer, and slicing the buffer by the ranges gives the column values, with
  \<open>None\<close> for \<open>NULL\<close>.
\<close>

theorem data_row_ranges_exact:
  "collect (\<lambda>s. unat (ri_remaining s)) data_row_ranges_next (ranges d) = Ok rs \<longleftrightarrow>
     (\<exists>cs. list_all cell_ok cs \<and> length cs = unat (dr_len d) \<and> dr_storage d = concat (map cell_bytes cs) \<and>
        rs = cell_ranges 0 cs \<and> map (slice_range (dr_storage d)) rs = map cell_value cs \<and>
        list_all (range_ok (dr_storage d)) rs)"
proof -
  have len: "ri_len (ranges d) = 0 + length (ri_buf (ranges d))" by (simp add: ranges_def)
  have "list_all cell_ok cs \<and> length cs = unat (dr_len d) \<and> dr_storage d = concat (map cell_bytes cs) \<and>
        rs = cell_ranges 0 cs \<and> map (slice_range (dr_storage d)) rs = map cell_value cs \<and>
        list_all (range_ok (dr_storage d)) rs \<longleftrightarrow>
      list_all cell_ok cs \<and> length cs = unat (dr_len d) \<and> dr_storage d = concat (map cell_bytes cs) \<and>
        rs = cell_ranges 0 cs" for cs
    using ranges_slice [of cs "[]"] ranges_within [of cs "[]"] by auto
  then show ?thesis
    using ranges_list [OF len, of rs] by (simp add: ranges_def)
qed

text \<open>
  \<open>RowDescriptionBody::fields\<close>: draining the iterator succeeds exactly when the body holds the
  stated number of column descriptions in the documented layout, with UTF-8 names, and nothing
  after them; the fields returned are those.
\<close>

theorem row_description_fields_exact:
  "collect (\<lambda>s. unat (ci_remaining s)) fields_next (fields c) = Ok fs \<longleftrightarrow>
     length fs = unat (cb_len c) \<and> list_all field_ok fs \<and> cb_storage c = concat (map field_bytes fs)"
  unfolding fields_counted fields_def by (rule field_rd.counted_list)

text \<open>
  \<open>ErrorResponseBody::fields\<close>: draining the iterator succeeds exactly on a sequence of
  non-zero type bytes with NUL-terminated values, closed by one zero byte that ends the message.
\<close>

theorem error_fields_exact:
  "collect length error_fields_next (error_fields b) = Ok fs \<longleftrightarrow>
     list_all error_field_ok fs \<and> b = concat (map error_field_bytes fs) @ [0]"
  unfolding error_fields_def by (rule error_fields_list)

text \<open>The other lists, for the components that use them.\<close>

lemma sasl_mechanisms_exact:
  "collect length sasl_mechanisms_next (mechanisms b) = Ok ms \<longleftrightarrow>
     list_all mechanism_ok ms \<and> b = concat (map (\<lambda>m. as_bytes m @ [0]) ms) @ [0]"
  unfolding mechanisms_def by (rule sasl_list)

lemma parameters_exact:
  "collect (\<lambda>s. unat (ci_remaining s)) parameters_next (parameters c) = Ok ts \<longleftrightarrow>
     length ts = unat (cb_len c) \<and> cb_storage c = concat (map put_u32 ts)"
  unfolding parameters_counted parameters_def by (simp add: u32c.rd.counted_list list_all_iff)

lemma column_formats_exact:
  "collect (\<lambda>s. unat (ci_remaining s)) column_formats_next (column_formats c) = Ok fs \<longleftrightarrow>
     length fs = unat (cr_len c) \<and> cr_storage c = concat (map put_u16 fs)"
  unfolding column_formats_counted column_formats_def by (simp add: u16c.rd.counted_list list_all_iff)

lemma iterators_never_panic:
  "collect length sasl_mechanisms_next b \<noteq> Panic" "collect length error_fields_next b \<noteq> Panic"
  "collect (\<lambda>s. unat (ci_remaining s)) parameters_next s \<noteq> Panic"
  "collect (\<lambda>s. unat (ci_remaining s)) column_formats_next s \<noteq> Panic"
  "collect (\<lambda>s. unat (ci_remaining s)) fields_next s \<noteq> Panic"
proof -
  show "collect length sasl_mechanisms_next b \<noteq> Panic"
    by (rule sasl_it.collect_not_Panic) (auto simp: sasl_mechanisms_next_def rbind_eq_Panic)
  show "collect length error_fields_next b \<noteq> Panic"
    by (rule errors_it.collect_not_Panic) (auto simp: error_fields_next_def rbind_eq_Panic split: prod.splits if_splits)
  show "collect (\<lambda>s. unat (ci_remaining s)) parameters_next s \<noteq> Panic"
    by (rule params_it.collect_not_Panic) (auto simp: parameters_next_def Let_def rbind_eq_Panic split: if_splits)
  show "collect (\<lambda>s. unat (ci_remaining s)) column_formats_next s \<noteq> Panic"
    by (rule formats_it.collect_not_Panic) (auto simp: column_formats_next_def Let_def rbind_eq_Panic split: if_splits)
  show "collect (\<lambda>s. unat (ci_remaining s)) fields_next s \<noteq> Panic"
    by (rule fields_it.collect_not_Panic)
      (auto simp: fields_next_def Let_def rbind_eq_Panic split: if_splits)
qed

end
