(* ===== verification/Codec.thy ===== *)
theory Codec
  imports BackendSpec Iterators Frontend
begin

text \<open>
  \<open>tokio-postgres/src/codec.rs\<close>: the codec between the socket's byte buffer and the
  connection. \<open>decode\<close> looks at the headers in the buffer and hands out either one
  asynchronous message or the longest run of complete messages up to the end of a request.
\<close>

section \<open>Messages of the codec\<close>

datatype frontend_message = Raw bytes | CopyDataMessage copy_data

text \<open>\<open>BackendMessages\<close> is the buffer of the run; it is parsed on demand by its \<open>next\<close>.\<close>

datatype backend_message = Normal (run_messages: bytes) (request_complete: bool) | Async message

definition backend_messages_next :: "(bytes, message, io_error) next_fn" where
  "backend_messages_next b =
     (case message_parse b of
        (Ok m, rest) \<Rightarrow> Ok (m, rest)
      | (Err e, rest) \<Rightarrow> Err e
      | (Panic, rest) \<Rightarrow> Panic)"

primrec encode :: "frontend_message \<Rightarrow> bytes \<Rightarrow> (unit, io_error) rresult \<times> bytes" where
  "encode (Raw buf) dst = (Ok (), dst @ buf)"
| "encode (CopyDataMessage d) dst = copy_data_write d dst"

section \<open>The decoder\<close>

datatype scan = ScanErr io_error | ScanAsync | ScanDone nat bool

definition is_async_tag :: "u8 \<Rightarrow> bool" where
  "is_async_tag t \<longleftrightarrow> t = NOTICE_RESPONSE_TAG \<or> t = NOTIFICATION_RESPONSE_TAG \<or> t = PARAMETER_STATUS_TAG"

text \<open>The \<open>while let\<close> loop, from the index \<open>idx\<close>.\<close>

function decode_scan :: "bytes \<Rightarrow> nat \<Rightarrow> scan" where
  "decode_scan src idx =
     (case header_parse (drop idx src) of
        Err e \<Rightarrow> ScanErr e
      | Panic \<Rightarrow> ScanDone idx False
      | Ok None \<Rightarrow> ScanDone idx False
      | Ok (Some h) \<Rightarrow>
          let len = nat (sint (h_len h)) + 1 in
          if length (drop idx src) < len then ScanDone idx False
          else if is_async_tag (h_tag h) then (if idx = 0 then ScanAsync else ScanDone idx False)
          else if h_tag h = READY_FOR_QUERY_TAG then ScanDone (idx + len) True
          else decode_scan src (idx + len))"
  by pat_completeness auto
termination
  by (relation "measure (\<lambda>(src, idx). length src - idx)") auto

declare decode_scan.simps [simp del]

definition decode :: "bytes \<Rightarrow> (backend_message option, io_error) rresult \<times> bytes" where
  "decode src =
     (case decode_scan src 0 of
        ScanErr e \<Rightarrow> (Err e, src)
      | ScanAsync \<Rightarrow>
          (case message_parse src of
             (Err e, rest) \<Rightarrow> (Err e, rest)
           | (Ok (Some m), rest) \<Rightarrow> (Ok (Some (Async m)), rest)
           | (Ok None, rest) \<Rightarrow> (Panic, rest)
           | (Panic, rest) \<Rightarrow> (Panic, rest))
      | ScanDone idx complete \<Rightarrow>
          if idx = 0 then (Ok None, src)
          else (Ok (Some (Normal (take idx src) complete)), drop idx src))"

interpretation run_it: fallible_iter length backend_messages_next
proof
  fix s x s'
  assume "backend_messages_next s = Ok (Some x, s')"
  then have "message_parse s = (Ok (Some x), s')"
    by (auto simp: backend_messages_next_def split: prod.splits rresult.splits)
  then have "s = encode_message x @ s'" by (simp add: message_parse_exact)
  then show "length s' < length s" by (simp add: encode_message_def)
qed

section \<open>Whole messages on the wire\<close>

text \<open>The messages whose length the (signed) header can announce; a server sends no others.\<close>

definition sendable :: "message \<Rightarrow> bool" where
  "sendable m \<longleftrightarrow> fields_wf m \<and> length (message_body m) + 4 < 2 ^ 31"

definition encode_all :: "message list \<Rightarrow> bytes" where
  "encode_all ms = concat (map encode_message ms)"

definition is_async :: "message \<Rightarrow> bool" where
  "is_async m \<longleftrightarrow> is_async_tag (message_tag m)"

definition is_ready :: "message \<Rightarrow> bool" where
  "is_ready m \<longleftrightarrow> message_tag m = READY_FOR_QUERY_TAG"

text \<open>A proper prefix of a message: what a read may leave at the end of the buffer.\<close>

definition partial :: "bytes \<Rightarrow> bool" where
  "partial p \<longleftrightarrow> p = [] \<or> (\<exists>m s. sendable m \<and> encode_message m = p @ s \<and> s \<noteq> [])"

text \<open>The run of messages one decoding step hands out, and what it leaves.\<close>

fun first_run :: "message list \<Rightarrow> message list \<times> message list \<times> bool" where
  "first_run [] = ([], [], False)"
| "first_run (m # ms) =
     (if is_async m then ([], m # ms, False)
      else if is_ready m then ([m], ms, True)
      else (let (run, rest, complete) = first_run ms in (m # run, rest, complete)))"

lemma sendable_wf: "sendable m \<Longrightarrow> message_wf m"
  by (auto simp: sendable_def message_wf_fields)

lemma encode_all_simps [simp]: "encode_all [] = []" "encode_all (m # ms) = encode_message m @ encode_all ms"
  "encode_all (ms @ ns) = encode_all ms @ encode_all ns"
  by (simp_all add: encode_all_def)

lemma encode_message_length: "length (encode_message m) = length (message_body m) + 5"
  by (simp add: encode_message_def)

lemma encode_message_not_Nil [simp]: "encode_message m \<noteq> []"
  by (simp add: encode_message_def)

lemma announced_signed:
  assumes "n < 2 ^ 31"
  shows "sint (of_nat n :: i32) = int n"
proof -
  have "sint (of_nat n :: i32) = signed_take_bit 31 (int n)"
    by (simp add: signed_of_nat)
  also have "\<dots> = int n" using assms by (simp add: signed_take_bit_int_eq_self)
  finally show ?thesis .
qed

lemma header_of_message:
  assumes "sendable m"
  shows "header_parse (encode_message m @ r) =
    Ok (Some \<lparr>h_tag = message_tag m, h_len = of_nat (length (message_body m) + 4)\<rparr>)"
  using assms announced_signed [of "length (message_body m) + 4"]
  by (simp add: encode_message_def header_parse_frame sendable_def del: of_nat_add)

lemma header_of_partial:
  assumes "partial p"
  shows "header_parse p = Ok None \<or>
    (\<exists>h. header_parse p = Ok (Some h) \<and> length p < nat (sint (h_len h)) + 1)"
proof (cases "length p < 5")
  case True
  then show ?thesis by (simp add: header_parse_def)
next
  case False
  with assms obtain m s where m: "sendable m" "encode_message m = p @ s" "s \<noteq> []"
    by (auto simp: partial_def)
  have "header_parse p = header_parse (encode_message m)"
    using False m(2) by (simp add: header_parse_def nth_append)
  also have "\<dots> = Ok (Some \<lparr>h_tag = message_tag m, h_len = of_nat (length (message_body m) + 4)\<rparr>)"
    using header_of_message [OF m(1), of "[]"] by simp
  finally have h: "header_parse p = \<dots>" .
  have "length (p @ s) = length (message_body m) + 5"
    by (simp only: m(2) [symmetric] encode_message_length)
  with m(3) have "length p < length (message_body m) + 5" by (cases s) auto
  with h show ?thesis
    using m(1) announced_signed [of "length (message_body m) + 4"]
    by (simp add: sendable_def del: of_nat_add)
qed

lemma first_run_append: "first_run ms = (run, rest, c) \<Longrightarrow> ms = run @ rest"
  by (induction ms arbitrary: run rest c) (auto split: if_splits prod.splits)

lemma first_run_no_async: "first_run ms = (run, rest, c) \<Longrightarrow> list_all (\<lambda>m. \<not> is_async m) run"
  by (induction ms arbitrary: run rest c) (auto split: if_splits prod.splits)

lemma first_run_complete:
  "first_run ms = (run, rest, c) \<Longrightarrow>
     (c \<longleftrightarrow> run \<noteq> [] \<and> is_ready (last run)) \<and> list_all (\<lambda>m. \<not> is_ready m) (butlast run)"
proof (induction ms arbitrary: run rest c)
  case (Cons m ms)
  obtain run' rest' c' where f: "first_run ms = (run', rest', c')" by (metis prod_cases3)
  from Cons.IH [OF f] Cons.prems f show ?case by (auto split: if_splits)
qed simp

lemma first_run_nonempty: "first_run (m # ms) = (run, rest, c) \<Longrightarrow> run = [] \<longleftrightarrow> is_async m"
  by (auto split: if_splits prod.splits)

lemma header_facts:
  assumes "sendable m"
  shows "Suc (nat (sint (of_nat (length (message_body m) + 4) :: i32))) = length (encode_message m)"
  using assms announced_signed [of "length (message_body m) + 4"]
  by (simp add: sendable_def encode_message_length del: of_nat_add)

lemma scan_partial:
  assumes "partial p"
  shows "decode_scan (pre @ p) (length pre) = ScanDone (length pre) False"
  using header_of_partial [OF assms]
  by (subst decode_scan.simps) (auto simp: Let_def)

lemma scan_messages:
  assumes "list_all sendable ms" and "partial p" and "first_run ms = (run, rest, c)"
  shows "decode_scan (pre @ encode_all ms @ p) (length pre) =
    (if pre = [] \<and> run = [] \<and> ms \<noteq> [] then ScanAsync
     else ScanDone (length pre + length (encode_all run)) c)"
  using assms(1,3)
proof (induction ms arbitrary: pre run rest c)
  case Nil
  then show ?case using scan_partial [OF assms(2)] by auto
next
  case (Cons m ms)
  let ?src = "pre @ encode_all (m # ms) @ p"
  from Cons.prems have m: "sendable m" and ms: "list_all sendable ms" by auto
  have drop: "drop (length pre) ?src = encode_message m @ encode_all ms @ p" by simp
  note unfold = decode_scan.simps [of ?src "length pre"] drop header_of_message [OF m]
  show ?case
  proof (cases "is_async m \<or> is_ready m")
    case True
    with Cons.prems(2) show ?thesis
      unfolding unfold
      by (auto simp: Let_def header_facts [OF m] is_async_def is_ready_def simp del: of_nat_add split: if_splits)
  next
    case False
    obtain run' rest' c' where f: "first_run ms = (run', rest', c')" by (metis prod_cases3)
    have run: "run = m # run'" "c = c'" using Cons.prems(2) False f by auto
    have pre: "pre @ encode_message m \<noteq> []" by (simp add: encode_message_def)
    have "decode_scan ?src (length pre) = decode_scan ?src (length (pre @ encode_message m))"
      unfolding unfold using False
      by (simp add: Let_def header_facts [OF m] is_async_def is_ready_def del: of_nat_add)
    also have "\<dots> = ScanDone (length (pre @ encode_message m) + length (encode_all run')) c'"
      using Cons.IH [OF ms f, of "pre @ encode_message m"] pre by simp
    finally show ?thesis by (simp add: run)
  qed
qed

lemma run_parses:
  assumes "list_all sendable ms"
  shows "collect length backend_messages_next (encode_all ms) = Ok ms"
  using assms
proof (induction ms)
  case Nil
  have "backend_messages_next [] = Ok (None, [])"
    by (simp add: backend_messages_next_def message_parse_def)
  then show ?case by (simp add: run_it.collect_end)
next
  case (Cons m ms)
  then have "backend_messages_next (encode_all (m # ms)) = Ok (Some m, encode_all ms)"
    by (simp add: backend_messages_next_def message_parse_encode sendable_wf)
  with Cons show ?case by (simp add: run_it.collect_item)
qed

lemma decode_messages:
  assumes "list_all sendable ms" and "partial p"
  shows "decode (encode_all ms @ p) =
    (case ms of
       [] \<Rightarrow> (Ok None, p)
     | m # ms' \<Rightarrow>
         if is_async m then (Ok (Some (Async m)), encode_all ms' @ p)
         else (case first_run ms of (run, rest, c) \<Rightarrow>
                 (Ok (Some (Normal (encode_all run) c)), encode_all rest @ p)))"
proof (cases ms)
  case Nil
  with scan_partial [OF assms(2), of "[]"] show ?thesis by (simp add: decode_def)
next
  case (Cons m ms')
  obtain run rest c where f: "first_run ms = (run, rest, c)" by (metis prod_cases3)
  have scan: "decode_scan (encode_all ms @ p) 0 =
      (if run = [] then ScanAsync else ScanDone (length (encode_all run)) c)"
    using scan_messages [OF assms f, of "[]"] Cons by simp
  have ms: "encode_all ms = encode_all run @ encode_all rest"
    using first_run_append [OF f] by simp
  show ?thesis
  proof (cases "is_async m")
    case True
    then have "run = []" using f first_run_nonempty Cons by blast
    with True Cons assms(1) show ?thesis
      using scan by (simp add: decode_def message_parse_encode sendable_wf)
  next
    case False
    then have "run \<noteq> []" using f first_run_nonempty Cons by blast
    moreover from this have "encode_all run \<noteq> []" by (cases run) (simp_all add: encode_message_def)
    ultimately show ?thesis
      using scan f False Cons ms by (simp add: decode_def del: encode_all_simps first_run.simps)
  qed
qed

section \<open>A byte stream in arbitrary pieces\<close>

text \<open>
  \<open>Framed\<close> of \<open>tokio_util\<close> appends what a read returns to its buffer and calls \<open>decode\<close> until it
  answers \<open>None\<close>. Fuel: every item takes at least one byte off the buffer, so the length of the
  buffer is enough (\<open>decode_all_enough\<close>).
\<close>

fun decode_all :: "nat \<Rightarrow> bytes \<Rightarrow> (backend_message list \<times> bytes, io_error) rresult" where
  "decode_all 0 src = Panic"
| "decode_all (Suc n) src =
     (case decode src of
        (Err e, _) \<Rightarrow> Err e
      | (Panic, _) \<Rightarrow> Panic
      | (Ok None, rest) \<Rightarrow> Ok ([], rest)
      | (Ok (Some x), rest) \<Rightarrow> map_ok (\<lambda>(xs, r). (x # xs, r)) (decode_all n rest))"

fun framed_read :: "bytes \<Rightarrow> bytes list \<Rightarrow> (backend_message list, io_error) rresult" where
  "framed_read buf [] = Ok []"
| "framed_read buf (c # cs) =
     rbind (decode_all (Suc (length (buf @ c))) (buf @ c)) (\<lambda>(xs, rest).
       map_ok (append xs) (framed_read rest cs))"

text \<open>The messages an item holds, as the code reads them out of it.\<close>

definition item_messages :: "backend_message \<Rightarrow> (message list, io_error) rresult" where
  "item_messages x =
     (case x of Async m \<Rightarrow> Ok [m] | Normal b _ \<Rightarrow> collect length backend_messages_next b)"

text \<open>
  The contract of an item: an asynchronous message alone, or a non-empty run with no
  asynchronous message whose flag says whether it ends in \<open>ReadyForQuery\<close>, which can only be
  its last message.
\<close>

definition item_ok :: "message list \<Rightarrow> backend_message \<Rightarrow> bool" where
  "item_ok ms x \<longleftrightarrow>
     item_messages x = Ok ms \<and>
     (case x of
        Async m \<Rightarrow> is_async m
      | Normal _ c \<Rightarrow> ms \<noteq> [] \<and> list_all (\<lambda>m. \<not> is_async m) ms \<and> list_all (\<lambda>m. \<not> is_ready m) (butlast ms) \<and>
          (c \<longleftrightarrow> is_ready (last ms)))"

lemma first_run_rest_shorter: "first_run (m # ms) = (run, rest, c) \<Longrightarrow> \<not> is_async m \<Longrightarrow> length rest \<le> length ms"
  using first_run_append [of "m # ms" run rest c] first_run_nonempty [of m ms run rest c] by (cases run) auto

lemma decode_all_messages:
  assumes "list_all sendable ms" and "partial p" and "length ms < n"
  shows "\<exists>xs groups. decode_all n (encode_all ms @ p) = Ok (xs, p) \<and> list_all2 item_ok groups xs \<and> concat groups = ms"
  using assms(1,3)
proof (induction "length ms" arbitrary: ms n rule: less_induct)
  case less
  from less.prems obtain k where n: "n = Suc k" "length ms \<le> k" by (cases n) auto
  show ?case
  proof (cases ms)
    case Nil
    then show ?thesis
      using decode_messages [OF less.prems(1) assms(2)] n
      by (intro exI [of _ "[]"]) simp
  next
    case (Cons m ms')
    obtain run rest c where f: "first_run ms = (run, rest, c)" by (metis prod_cases3)
    show ?thesis
    proof (cases "is_async m")
      case True
      have d: "decode (encode_all ms @ p) = (Ok (Some (Async m)), encode_all ms' @ p)"
        using decode_messages [OF less.prems(1) assms(2)] Cons True by simp
      obtain xs groups where IH: "decode_all k (encode_all ms' @ p) = Ok (xs, p)"
          "list_all2 item_ok groups xs" "concat groups = ms'"
        using less.hyps [of ms' k] less.prems Cons n by auto
      have "item_ok [m] (Async m)" using True by (simp add: item_ok_def item_messages_def)
      with IH d n(1) Cons show ?thesis
        by (intro exI [of _ "Async m # xs"] exI [of _ "[m] # groups"]) (simp del: encode_all_simps)
    next
      case False
      have d: "decode (encode_all ms @ p) = (Ok (Some (Normal (encode_all run) c)), encode_all rest @ p)"
        using decode_messages [OF less.prems(1) assms(2)] Cons False f by (simp del: encode_all_simps first_run.simps)
      have ms: "ms = run @ rest" by (rule first_run_append [OF f])
      have run: "run \<noteq> []" using f first_run_nonempty Cons False by blast
      have rest: "list_all sendable rest" "length rest < length ms" "length rest < k"
        using less.prems ms run n by (cases run; auto)+
      obtain xs groups where IH: "decode_all k (encode_all rest @ p) = Ok (xs, p)"
          "list_all2 item_ok groups xs" "concat groups = rest"
        using less.hyps [OF rest(2,1,3)] by blast
      have "item_ok run (Normal (encode_all run) c)"
        using run_parses [of run] first_run_no_async [OF f] first_run_complete [OF f] run ms less.prems(1)
        by (simp add: item_ok_def item_messages_def)
      with IH d n(1) ms show ?thesis
        by (intro exI [of _ "Normal (encode_all run) c # xs"] exI [of _ "run # groups"]) (simp del: encode_all_simps)
    qed
  qed
qed

lemma encode_all_length: "length ms \<le> length (encode_all ms)"
  by (induction ms) (auto simp: encode_message_length)

lemma partial_no_message: "partial (encode_message m @ r) \<Longrightarrow> sendable m \<Longrightarrow> False"
  using message_parse_encode [of m r] message_parse_waits [of _ "encode_message m @ r"] sendable_wf
  by (auto simp: partial_def)

text \<open>A prefix of a message stream is whole messages and a partial one.\<close>

lemma split_stream:
  "list_all sendable ms \<Longrightarrow> b @ r = encode_all ms \<Longrightarrow>
     \<exists>ms1 ms2 p. ms = ms1 @ ms2 \<and> b = encode_all ms1 @ p \<and> partial p \<and> p @ r = encode_all ms2"
proof (induction ms arbitrary: b)
  case Nil
  then show ?case by (auto simp: partial_def)
next
  case (Cons m ms)
  show ?case
  proof (cases "length b < length (encode_message m)")
    case True
    with Cons.prems(2) obtain s where s: "b @ s = encode_message m"
      by (auto simp: append_eq_append_conv2)
    with True have "s \<noteq> []" by auto
    with s [symmetric] Cons.prems show ?thesis
      by (intro exI [of _ "[]"] exI [of _ "m # ms"] exI [of _ b]) (auto simp: partial_def)
  next
    case False
    let ?n = "length (encode_message m)"
    have "take ?n (b @ r) = encode_message m" "drop ?n (b @ r) = encode_all ms"
      using Cons.prems(2) by simp_all
    with False have "take ?n b = encode_message m" and b'2: "drop ?n b @ r = encode_all ms" by simp_all
    then have b'1: "b = encode_message m @ drop ?n b" by (metis append_take_drop_id)
    from Cons.IH [OF _ b'2] Cons.prems(1) obtain ms1 ms2 p where IH: "ms = ms1 @ ms2" "drop ?n b = encode_all ms1 @ p" "partial p" "p @ r = encode_all ms2"
      by auto
    have "b = encode_all (m # ms1) @ p" using b'1 IH(2) by simp
    with IH show ?thesis by (intro exI [of _ "m # ms1"] exI [of _ ms2] exI [of _ p]) simp
  qed
qed

lemma framed_read_messages:
  assumes "partial buf" and "list_all sendable ms" and "buf @ concat chunks = encode_all ms"
  shows "\<exists>xs groups. framed_read buf chunks = Ok xs \<and> list_all2 item_ok groups xs \<and> (chunks \<noteq> [] \<longrightarrow> concat groups = ms)"
  using assms
proof (induction chunks arbitrary: buf ms)
  case Nil
  then show ?case by (intro exI [of _ "[]"]) simp
next
  case (Cons c cs)
  from Cons.prems(3) have "(buf @ c) @ concat cs = encode_all ms" by simp
  from split_stream [OF Cons.prems(2) this] obtain ms1 ms2 p where s: "ms = ms1 @ ms2"
    "buf @ c = encode_all ms1 @ p" "partial p" "p @ concat cs = encode_all ms2" by blast
  have "length ms1 < Suc (length (buf @ c))" using encode_all_length [of ms1] s(2) by simp
  then obtain xs groups where d: "decode_all (Suc (length (buf @ c))) (buf @ c) = Ok (xs, p)"
      "list_all2 item_ok groups xs" "concat groups = ms1"
    using decode_all_messages [of ms1 p] Cons.prems(2) s by (metis list_all_append)
  from s Cons.prems(2) have ms2: "list_all sendable ms2" by simp
  from Cons.IH [OF s(3) ms2 s(4)] obtain ys groups' where i: "framed_read p cs = Ok ys"
      "list_all2 item_ok groups' ys" "cs \<noteq> [] \<longrightarrow> concat groups' = ms2" by blast
  show ?case
  proof (cases "cs = []")
    case True
    have "ms2 = []"
    proof (rule ccontr)
      assume "ms2 \<noteq> []"
      then obtain m ms' where "ms2 = m # ms'" by (cases ms2) auto
      with True s(4) ms2 have "p = encode_message m @ encode_all ms'" "sendable m" by auto
      with s(3) show False using partial_no_message by blast
    qed
    with d s True show ?thesis by (intro exI [of _ xs] exI [of _ groups]) (simp del: decode_all.simps)
  next
    case False
    with d i s show ?thesis
      by (intro exI [of _ "xs @ ys"] exI [of _ "groups @ groups'"]) (simp add: list_all2_appendI del: decode_all.simps)
  qed
qed

section \<open>Arbitrary bytes\<close>

lemma header_complete:
  assumes "header_parse src = Ok (Some h)"
  shows "5 \<le> length src" and "4 \<le> announced_len src" and "nat (sint (h_len h)) = announced_len src"
proof -
  from assms show l: "5 \<le> length src" by (simp add: header_parse_def split: if_splits)
  let ?w = "of_nat (announced_len src) :: i32"
  from assms l have h: "h_len h = ?w" and s: "4 \<le> sint ?w"
    by (auto simp: header_parse_def Let_def announced_len_def split: if_splits)
  have "announced_len src < 2 ^ 32"
    using be_val_less [of "take 4 (drop 1 src)"] l by (simp add: announced_len_def)
  then have u: "unat ?w = announced_len src" by (simp add: unat_of_nat)
  have "sint ?w = int (unat ?w)" using s by (intro sint_nonneg) simp
  then have i: "sint ?w = int (announced_len src)" by (simp only: u)
  from s show "4 \<le> announced_len src" by (simp only: i)
  show "nat (sint (h_len h)) = announced_len src" by (simp only: h i nat_int)
qed

lemma decode_scan_within:
  "idx \<le> length src \<Longrightarrow>
     (case decode_scan src idx of
        ScanDone n c \<Rightarrow> idx \<le> n \<and> n \<le> length src
      | ScanAsync \<Rightarrow> idx = 0 \<and> 5 \<le> length src \<and> 4 \<le> announced_len src \<and> announced_len src < length src
      | ScanErr e \<Rightarrow> True)"
proof (induction src idx rule: decode_scan.induct)
  case (1 src idx)
  show ?case
  proof (cases "header_parse (drop idx src)")
    case (Ok ho)
    show ?thesis
    proof (cases ho)
      case None
      with Ok 1(2) show ?thesis by (simp add: decode_scan.simps)
    next
      case (Some h)
      with Ok have hp: "header_parse (drop idx src) = Ok (Some h)" by simp
      show ?thesis
      proof (cases "length (drop idx src) < nat (sint (h_len h)) + 1")
        case True
        with hp 1(2) show ?thesis by (simp add: decode_scan.simps Let_def)
      next
        case False
        then have le: "idx + (nat (sint (h_len h)) + 1) \<le> length src" by simp
        consider "is_async_tag (h_tag h)" "idx = 0" | "is_async_tag (h_tag h)" "idx \<noteq> 0"
          | "\<not> is_async_tag (h_tag h)" "h_tag h = READY_FOR_QUERY_TAG"
          | "\<not> is_async_tag (h_tag h)" "h_tag h \<noteq> READY_FOR_QUERY_TAG" by blast
        then show ?thesis
        proof cases
          case 1
          with hp False le header_complete [OF hp] show ?thesis
            by (subst decode_scan.simps) (simp add: Let_def)
        next
          case 2
          with hp False le \<open>idx \<le> length src\<close> show ?thesis
            by (subst decode_scan.simps) (simp add: Let_def)
        next
          case 3
          with hp False le show ?thesis by (subst decode_scan.simps) (simp add: Let_def)
        next
          case 4
          have eq: "decode_scan src idx = decode_scan src (idx + (nat (sint (h_len h)) + 1))"
            using hp False 4 by (subst decode_scan.simps) (simp add: Let_def)
          from 1(1) [OF Ok Some refl False 4 le] show ?thesis
            unfolding eq by (auto split: scan.splits)
        qed
      qed
    qed
  qed (use 1(2) in \<open>simp_all add: decode_scan.simps\<close>)
qed

text \<open>
  Whatever the server sends, \<open>decode\<close> never panics (the \<open>unwrap\<close> on the parsed asynchronous
  message never meets \<open>None\<close>), an item's bytes are exactly the bytes it takes off the front of
  the buffer, and an item takes at least one byte, so the loop of \<open>Framed\<close> ends.
\<close>

lemma decode_any:
  "case decode src of (r, rest) \<Rightarrow>
     r \<noteq> Panic \<and>
     (case r of
        Ok None \<Rightarrow> rest = src
      | Ok (Some (Normal b c)) \<Rightarrow> b \<noteq> [] \<and> src = b @ rest
      | Ok (Some (Async m)) \<Rightarrow> message_wf m \<and> src = encode_message m @ rest
      | _ \<Rightarrow> \<exists>b. src = b @ rest)"
proof (cases "decode_scan src 0")
  case (ScanErr e)
  then show ?thesis by (simp add: decode_def)
next
  case ScanAsync
  with decode_scan_within [of 0 src] have len: "5 \<le> length src" "4 \<le> announced_len src" "announced_len src < length src"
    by auto
  obtain r rest where m: "message_parse src = (r, rest)" by fastforce
  with message_parse_progress [of src] len have r: "r \<noteq> Panic" "r \<noteq> Ok None" "rest = drop (announced_len src + 1) src"
    by auto
  show ?thesis
  proof (cases r)
    case (Ok mo)
    with r(2) obtain x where x: "mo = Some x" by (cases mo) auto
    with m Ok have "message_wf x \<and> src = encode_message x @ rest" using message_parse_sound by blast
    with ScanAsync m Ok x show ?thesis by (simp add: decode_def)
  next
    case (Err e)
    have "\<exists>b. src = b @ rest" unfolding r(3) by (metis append_take_drop_id)
    with Err ScanAsync m show ?thesis by (simp add: decode_def)
  qed (use r in simp)
next
  case (ScanDone n c)
  with decode_scan_within [of 0 src] have "n \<le> length src" by simp
  with ScanDone show ?thesis by (auto simp: decode_def)
qed

lemma decode_not_Panic [simp]: "fst (decode src) \<noteq> Panic"
  using decode_any [of src] by (simp split: prod.splits)

lemma decode_shrinks: "decode src = (Ok (Some x), rest) \<Longrightarrow> length rest < length src"
  using decode_any [of src] by (cases x) auto

lemma decode_all_enough: "length src < n \<Longrightarrow> decode_all n src \<noteq> Panic"
proof (induction n arbitrary: src)
  case (Suc n)
  obtain r rest where d: "decode src = (r, rest)" by fastforce
  have "r \<noteq> Panic" using decode_not_Panic [of src] d by simp
  with d show ?case
    using Suc.IH [of rest] Suc.prems decode_shrinks [of src _ rest]
    by (cases r) (auto split: option.splits)
qed simp

section \<open>Properties of the codec\<close>

text \<open>
  C8. The codec is independent of how the network cuts the stream: for every sequence of reads
  whose bytes are the encodings of the messages \<open>ms\<close>, the items handed out hold exactly \<open>ms\<close>, in
  order, none lost, repeated or split; each item is one asynchronous message or a run without
  asynchronous messages whose completion flag says whether it ends in \<open>ReadyForQuery\<close>.
\<close>

theorem framed_read_any_chunks:
  assumes "list_all sendable ms" and "concat chunks = encode_all ms"
  shows "\<exists>xs groups. framed_read [] chunks = Ok xs \<and> list_all2 item_ok groups xs \<and> concat groups = ms"
proof (cases "chunks = []")
  case True
  with assms have "ms = []" by (cases ms) auto
  with True show ?thesis by simp
next
  case False
  have "partial []" by (simp add: partial_def)
  from framed_read_messages [OF this assms(1), of chunks] assms(2) False show ?thesis by auto
qed

text \<open>
  One decoding step on whole messages followed by an incomplete one: the exact item and the
  exact rest of the buffer.
\<close>

theorem decode_step_messages:
  assumes "list_all sendable ms" and "partial p"
  shows "decode (encode_all ms @ p) =
    (case ms of
       [] \<Rightarrow> (Ok None, p)
     | m # ms' \<Rightarrow>
         if is_async m then (Ok (Some (Async m)), encode_all ms' @ p)
         else (case first_run ms of (run, rest, c) \<Rightarrow>
                 (Ok (Some (Normal (encode_all run) c)), encode_all rest @ p)))"
  using assms by (rule decode_messages)

text \<open>
  \<open>decode\<close> on arbitrary bytes: no panic, an item is exactly the bytes taken off the front of
  the buffer, nothing is taken when it asks for more input.
\<close>

theorem decode_total:
  "case decode src of
     (Ok None, rest) \<Rightarrow> rest = src
   | (Ok (Some (Normal b c)), rest) \<Rightarrow> b \<noteq> [] \<and> src = b @ rest
   | (Ok (Some (Async m)), rest) \<Rightarrow> message_wf m \<and> src = encode_message m @ rest
   | (Err e, rest) \<Rightarrow> \<exists>b. src = b @ rest
   | (Panic, rest) \<Rightarrow> False"
  using decode_any [of src] by (auto split: prod.splits rresult.splits option.splits backend_message.splits)

definition sample_messages :: "message list" where
  "sample_messages = [BindComplete, CommandComplete (ascii ''SELECT 0''), ReadyForQuery 0x49]"

lemma sample_sendable: "list_all sendable sample_messages"
  by (simp add: sample_messages_def sendable_def fields_wf_def)

theorem framed_read_any_chunks_witness:
  "\<exists>xs groups. framed_read [] [take 3 (encode_all sample_messages), drop 3 (encode_all sample_messages)] = Ok xs \<and>
     list_all2 item_ok groups xs \<and> concat groups = sample_messages"
  by (rule framed_read_any_chunks [OF sample_sendable]) simp

theorem decode_step_messages_witness:
  "decode (encode_all sample_messages @ [0x5A]) =
     (Ok (Some (Normal (encode_all sample_messages) True)), [0x5A])"
proof -
  have "encode_message (ReadyForQuery 0x49) = [0x5A] @ tl (encode_message (ReadyForQuery 0x49))"
      "tl (encode_message (ReadyForQuery 0x49)) \<noteq> []" "sendable (ReadyForQuery 0x49)"
    by (simp_all add: encode_message_def sendable_def fields_wf_def)
  then have "partial [0x5A]" unfolding partial_def by blast
  then show ?thesis
    using decode_step_messages [OF sample_sendable, of "[0x5A]"]
    by (simp add: sample_messages_def is_async_def is_async_tag_def is_ready_def)
qed

end
