(* ===== verification/DbErrors.thy ===== *)
theory DbErrors
  imports BackendIters
begin

text \<open>
  \<open>tokio-postgres/src/error/mod.rs\<close>: \<open>DbError::parse\<close> over the fields of an error or notice
  message, and the \<open>Error\<close> type of the client with its kinds, causes and texts. A \<open>SqlState\<close> is
  its five-character code (\<open>from_code\<close> of the generated table keeps the code of known and
  unknown states alike).
\<close>

section \<open>Database errors\<close>

datatype severity = SevPanic | SevFatal | SevError | SevWarning | SevNotice | SevDebug | SevInfo | SevLog

definition severity_display :: "severity \<Rightarrow> string" where
  "severity_display s =
     (case s of SevPanic \<Rightarrow> ''PANIC'' | SevFatal \<Rightarrow> ''FATAL'' | SevError \<Rightarrow> ''ERROR''
      | SevWarning \<Rightarrow> ''WARNING'' | SevNotice \<Rightarrow> ''NOTICE'' | SevDebug \<Rightarrow> ''DEBUG''
      | SevInfo \<Rightarrow> ''INFO'' | SevLog \<Rightarrow> ''LOG'')"

definition severity_from_str :: "str \<Rightarrow> severity option" where
  "severity_from_str s =
     (if s = ''PANIC'' then Some SevPanic else if s = ''FATAL'' then Some SevFatal
      else if s = ''ERROR'' then Some SevError else if s = ''WARNING'' then Some SevWarning
      else if s = ''NOTICE'' then Some SevNotice else if s = ''DEBUG'' then Some SevDebug
      else if s = ''INFO'' then Some SevInfo else if s = ''LOG'' then Some SevLog else None)"

datatype error_position = Original nat | Internal nat str

record db_error =
  db_severity :: str
  db_parsed_severity :: "severity option"
  db_code :: str
  db_message :: str
  db_detail :: "str option"
  db_hint :: "str option"
  db_position :: "error_position option"
  db_where :: "str option"
  db_schema :: "str option"
  db_table :: "str option"
  db_column :: "str option"
  db_datatype :: "str option"
  db_constraint :: "str option"
  db_file :: "str option"
  db_line :: "nat option"
  db_routine :: "str option"

text \<open>The local variables of \<open>DbError::parse\<close>.\<close>

record db_fields =
  v_severity :: "str option"
  v_parsed_severity :: "severity option"
  v_code :: "str option"
  v_message :: "str option"
  v_detail :: "str option"
  v_hint :: "str option"
  v_normal_position :: "nat option"
  v_internal_position :: "nat option"
  v_internal_query :: "str option"
  v_where :: "str option"
  v_schema :: "str option"
  v_table :: "str option"
  v_column :: "str option"
  v_datatype :: "str option"
  v_constraint :: "str option"
  v_file :: "str option"
  v_line :: "nat option"
  v_routine :: "str option"

definition no_fields :: db_fields where
  "no_fields = \<lparr>v_severity = None, v_parsed_severity = None, v_code = None, v_message = None,
     v_detail = None, v_hint = None, v_normal_position = None, v_internal_position = None,
     v_internal_query = None, v_where = None, v_schema = None, v_table = None, v_column = None,
     v_datatype = None, v_constraint = None, v_file = None, v_line = None, v_routine = None\<rparr>"

abbreviation u32_max :: nat where "u32_max \<equiv> 4294967295"

definition invalid_input :: "string \<Rightarrow> io_error" where
  "invalid_input t = IoError InvalidInput t"

definition db_step :: "db_fields \<Rightarrow> error_field \<Rightarrow> (db_fields, io_error) rresult" where
  "db_step a field =
     (let value = from_utf8_lossy (ef_value field); ty = ef_type field in
      if ty = 0x53 then Ok (a\<lparr>v_severity := Some value\<rparr>)
      else if ty = 0x43 then Ok (a\<lparr>v_code := Some value\<rparr>)
      else if ty = 0x4D then Ok (a\<lparr>v_message := Some value\<rparr>)
      else if ty = 0x44 then Ok (a\<lparr>v_detail := Some value\<rparr>)
      else if ty = 0x48 then Ok (a\<lparr>v_hint := Some value\<rparr>)
      else if ty = 0x50 then
        rbind (ok_or (parse_unsigned u32_max value) (invalid_input ''`P` field did not contain an integer''))
          (\<lambda>n. Ok (a\<lparr>v_normal_position := Some n\<rparr>))
      else if ty = 0x70 then
        rbind (ok_or (parse_unsigned u32_max value) (invalid_input ''`p` field did not contain an integer''))
          (\<lambda>n. Ok (a\<lparr>v_internal_position := Some n\<rparr>))
      else if ty = 0x71 then Ok (a\<lparr>v_internal_query := Some value\<rparr>)
      else if ty = 0x57 then Ok (a\<lparr>v_where := Some value\<rparr>)
      else if ty = 0x73 then Ok (a\<lparr>v_schema := Some value\<rparr>)
      else if ty = 0x74 then Ok (a\<lparr>v_table := Some value\<rparr>)
      else if ty = 0x63 then Ok (a\<lparr>v_column := Some value\<rparr>)
      else if ty = 0x64 then Ok (a\<lparr>v_datatype := Some value\<rparr>)
      else if ty = 0x6E then Ok (a\<lparr>v_constraint := Some value\<rparr>)
      else if ty = 0x46 then Ok (a\<lparr>v_file := Some value\<rparr>)
      else if ty = 0x4C then
        rbind (ok_or (parse_unsigned u32_max value) (invalid_input ''`L` field did not contain an integer''))
          (\<lambda>n. Ok (a\<lparr>v_line := Some n\<rparr>))
      else if ty = 0x52 then Ok (a\<lparr>v_routine := Some value\<rparr>)
      else if ty = 0x56 then
        rbind (ok_or (severity_from_str value) (invalid_input ''`V` field contained an invalid value''))
          (\<lambda>s. Ok (a\<lparr>v_parsed_severity := Some s\<rparr>))
      else Ok a)"

definition db_position_of :: "db_fields \<Rightarrow> (error_position option, io_error) rresult" where
  "db_position_of a =
     (case v_normal_position a of
        Some position \<Rightarrow> Ok (Some (Original position))
      | None \<Rightarrow>
          (case v_internal_position a of
             Some position \<Rightarrow>
               rbind (ok_or (v_internal_query a) (invalid_input ''`q` field missing but `p` field present''))
                 (\<lambda>query. Ok (Some (Internal position query)))
           | None \<Rightarrow> Ok None))"

definition db_finish :: "db_fields \<Rightarrow> (db_error, io_error) rresult" where
  "db_finish a =
     rbind (ok_or (v_severity a) (invalid_input ''`S` field missing'')) (\<lambda>severity.
     rbind (ok_or (v_code a) (invalid_input ''`C` field missing'')) (\<lambda>code.
     rbind (ok_or (v_message a) (invalid_input ''`M` field missing'')) (\<lambda>message.
     rbind (db_position_of a) (\<lambda>position.
       Ok \<lparr>db_severity = severity, db_parsed_severity = v_parsed_severity a, db_code = code,
           db_message = message, db_detail = v_detail a, db_hint = v_hint a, db_position = position,
           db_where = v_where a, db_schema = v_schema a, db_table = v_table a, db_column = v_column a,
           db_datatype = v_datatype a, db_constraint = v_constraint a, db_file = v_file a,
           db_line = v_line a, db_routine = v_routine a\<rparr>))))"

definition db_error_parse :: "bytes \<Rightarrow> (db_error, io_error) rresult" where
  "db_error_parse it =
     rbind (fold_iter (Suc (length it)) error_fields_next db_step no_fields it) db_finish"

definition db_error_display :: "db_error \<Rightarrow> string" where
  "db_error_display e =
     db_severity e @ '': '' @ db_message e @
     (case db_detail e of Some d \<Rightarrow> [CHR 0x0A] @ ''DETAIL: '' @ d | None \<Rightarrow> []) @
     (case db_hint e of Some h \<Rightarrow> [CHR 0x0A] @ ''HINT: '' @ h | None \<Rightarrow> [])"

section \<open>Client errors\<close>

datatype kind = KIo | KUnexpectedMessage | KTls | KToSql nat | KFromSql nat | KColumn str | KColumnCount
  | KParameters nat nat | KClosed | KDb | KParse | KEncode | KAuthentication | KConfigParse | KConfig
  | KRowCount | KConnect | KTimeout

datatype cause = CauseText string | CauseIo io_error | CauseDb db_error | CauseSql sql_error

datatype error = Error (err_kind: kind) (err_cause: "cause option")

definition err_closed :: error where "err_closed = Error KClosed None"
definition err_unexpected_message :: error where "err_unexpected_message = Error KUnexpectedMessage None"

definition err_db :: "bytes \<Rightarrow> error" where
  "err_db body =
     (case db_error_parse (error_fields body) of
        Ok e \<Rightarrow> Error KDb (Some (CauseDb e))
      | Err e \<Rightarrow> Error KParse (Some (CauseIo e))
      | Panic \<Rightarrow> Error KParse None)"

definition err_parse :: "io_error \<Rightarrow> error" where "err_parse e = Error KParse (Some (CauseIo e))"
definition err_encode :: "io_error \<Rightarrow> error" where "err_encode e = Error KEncode (Some (CauseIo e))"
definition err_to_sql :: "cause \<Rightarrow> nat \<Rightarrow> error" where "err_to_sql e idx = Error (KToSql idx) (Some e)"
definition err_from_sql :: "cause \<Rightarrow> nat \<Rightarrow> error" where "err_from_sql e idx = Error (KFromSql idx) (Some e)"
definition err_column :: "str \<Rightarrow> error" where "err_column c = Error (KColumn c) None"
definition err_column_count :: error where "err_column_count = Error KColumnCount None"
definition err_parameters :: "nat \<Rightarrow> nat \<Rightarrow> error" where "err_parameters real expected = Error (KParameters real expected) None"
definition err_tls :: "cause \<Rightarrow> error" where "err_tls e = Error KTls (Some e)"
definition err_io :: "io_error \<Rightarrow> error" where "err_io e = Error KIo (Some (CauseIo e))"
definition err_authentication :: "cause \<Rightarrow> error" where "err_authentication e = Error KAuthentication (Some e)"
definition err_config_parse :: "string \<Rightarrow> error" where "err_config_parse e = Error KConfigParse (Some (CauseText e))"
definition err_config :: "string \<Rightarrow> error" where "err_config e = Error KConfig (Some (CauseText e))"
definition err_row_count :: error where "err_row_count = Error KRowCount None"
definition err_connect :: "io_error \<Rightarrow> error" where "err_connect e = Error KConnect (Some (CauseIo e))"
definition err_timeout :: error where "err_timeout = Error KTimeout None"

definition as_db_error :: "error \<Rightarrow> db_error option" where
  "as_db_error e = (case err_cause e of Some (CauseDb d) \<Rightarrow> Some d | _ \<Rightarrow> None)"

definition is_closed :: "error \<Rightarrow> bool" where
  "is_closed e \<longleftrightarrow> err_kind e = KClosed"

definition error_code :: "error \<Rightarrow> str option" where
  "error_code e = map_option db_code (as_db_error e)"

definition error_display :: "error \<Rightarrow> string" where
  "error_display e =
     (case err_kind e of
        KIo \<Rightarrow> ''error communicating with the server''
      | KUnexpectedMessage \<Rightarrow> ''unexpected message from server''
      | KTls \<Rightarrow> ''error performing TLS handshake''
      | KToSql idx \<Rightarrow> ''error serializing parameter '' @ show_nat idx
      | KFromSql idx \<Rightarrow> ''error deserializing column '' @ show_nat idx
      | KColumn column \<Rightarrow> ''invalid column `'' @ column @ ''`''
      | KColumnCount \<Rightarrow> ''query returned an unexpected number of columns''
      | KParameters real expected \<Rightarrow> ''expected '' @ show_nat expected @ '' parameters but got '' @ show_nat real
      | KClosed \<Rightarrow> ''connection closed''
      | KDb \<Rightarrow> ''db error''
      | KParse \<Rightarrow> ''error parsing response from server''
      | KEncode \<Rightarrow> ''error encoding message to server''
      | KAuthentication \<Rightarrow> ''authentication error''
      | KConfigParse \<Rightarrow> ''invalid connection string''
      | KConfig \<Rightarrow> ''invalid configuration''
      | KRowCount \<Rightarrow> ''query returned an unexpected number of rows''
      | KConnect \<Rightarrow> ''error connecting to server''
      | KTimeout \<Rightarrow> ''timeout waiting for server'')"

section \<open>The specification of \<open>DbError::parse\<close>\<close>

text \<open>The last field of a type wins.\<close>

definition last_field :: "u8 \<Rightarrow> error_field list \<Rightarrow> str option" where
  "last_field t fs =
     (let gs = filter (\<lambda>f. ef_type f = t) fs in
      if gs = [] then None else Some (from_utf8_lossy (ef_value (last gs))))"

definition field_valid :: "error_field \<Rightarrow> bool" where
  "field_valid f \<longleftrightarrow>
     (ef_type f \<in> {0x50, 0x70, 0x4C} \<longrightarrow> parse_unsigned u32_max (from_utf8_lossy (ef_value f)) \<noteq> None) \<and>
     (ef_type f = 0x56 \<longrightarrow> severity_from_str (from_utf8_lossy (ef_value f)) \<noteq> None)"

definition num_field :: "u8 \<Rightarrow> error_field list \<Rightarrow> nat option" where
  "num_field t fs = Option.bind (last_field t fs) (parse_unsigned u32_max)"

definition gather :: "error_field list \<Rightarrow> db_fields" where
  "gather fs = \<lparr>v_severity = last_field 0x53 fs,
     v_parsed_severity = Option.bind (last_field 0x56 fs) severity_from_str,
     v_code = last_field 0x43 fs, v_message = last_field 0x4D fs, v_detail = last_field 0x44 fs,
     v_hint = last_field 0x48 fs, v_normal_position = num_field 0x50 fs,
     v_internal_position = num_field 0x70 fs, v_internal_query = last_field 0x71 fs,
     v_where = last_field 0x57 fs, v_schema = last_field 0x73 fs, v_table = last_field 0x74 fs,
     v_column = last_field 0x63 fs, v_datatype = last_field 0x64 fs, v_constraint = last_field 0x6E fs,
     v_file = last_field 0x46 fs, v_line = num_field 0x4C fs, v_routine = last_field 0x52 fs\<rparr>"

lemma last_field_Nil [simp]: "last_field t [] = None"
  by (simp add: last_field_def)

lemma last_field_snoc [simp]:
  "last_field t (fs @ [f]) = (if ef_type f = t then Some (from_utf8_lossy (ef_value f)) else last_field t fs)"
  by (simp add: last_field_def Let_def)

lemma gather_Nil: "gather [] = no_fields"
  by (simp add: gather_def no_fields_def num_field_def)

lemma db_step_iff:
  "db_step (gather fs) f = Ok a \<longleftrightarrow> field_valid f \<and> a = gather (fs @ [f])"
  by (auto simp: db_step_def Let_def gather_def num_field_def field_valid_def)

lemma db_step_not_Panic [simp]: "db_step a f \<noteq> Panic"
  by (simp add: db_step_def Let_def rbind_eq_Panic)

lemma db_fold: "try_foldl db_step no_fields fs = Ok a \<longleftrightarrow> list_all field_valid fs \<and> a = gather fs"
proof (induction fs arbitrary: a rule: rev_induct)
  case Nil
  show ?case by (auto simp: gather_Nil)
next
  case (snoc f fs)
  show ?case unfolding try_foldl_snoc rbind_eq_Ok snoc by (auto simp: db_step_iff)
qed

text \<open>
  \<open>DbError::parse\<close>: an error message that decodes to the fields \<open>fs\<close> gives a \<open>DbError\<close> exactly
  when every numeric field is a \<open>u32\<close> and every \<open>V\<close> field a severity, \<open>S\<close>, \<open>C\<close> and \<open>M\<close> are
  present, and an internal position comes with its query unless a normal position is given;
  every component is then the last field of its type, lossily decoded.
\<close>

theorem db_error_parse_fields:
  assumes "collect length error_fields_next (error_fields b) = Ok fs"
  shows "db_error_parse (error_fields b) = Ok d \<longleftrightarrow>
    list_all field_valid fs \<and>
    last_field 0x53 fs = Some (db_severity d) \<and> last_field 0x43 fs = Some (db_code d) \<and>
    last_field 0x4D fs = Some (db_message d) \<and>
    db_parsed_severity d = Option.bind (last_field 0x56 fs) severity_from_str \<and>
    db_position d =
      (case num_field 0x50 fs of Some n \<Rightarrow> Some (Original n)
       | None \<Rightarrow> (case num_field 0x70 fs of Some n \<Rightarrow> Some (Internal n (the (last_field 0x71 fs))) | None \<Rightarrow> None)) \<and>
    (num_field 0x50 fs = None \<and> num_field 0x70 fs \<noteq> None \<longrightarrow> last_field 0x71 fs \<noteq> None) \<and>
    db_detail d = last_field 0x44 fs \<and> db_hint d = last_field 0x48 fs \<and> db_where d = last_field 0x57 fs \<and>
    db_schema d = last_field 0x73 fs \<and> db_table d = last_field 0x74 fs \<and> db_column d = last_field 0x63 fs \<and>
    db_datatype d = last_field 0x64 fs \<and> db_constraint d = last_field 0x6E fs \<and> db_file d = last_field 0x46 fs \<and>
    db_line d = num_field 0x4C fs \<and> db_routine d = last_field 0x52 fs"
proof -
  have "fold_iter (Suc (length b)) error_fields_next db_step no_fields b = try_foldl db_step no_fields fs"
    using assms by (intro errors_it.fold_collect) (simp_all add: error_fields_def)
  then have "db_error_parse (error_fields b) = Ok d \<longleftrightarrow> list_all field_valid fs \<and> db_finish (gather fs) = Ok d"
    by (auto simp: db_error_parse_def error_fields_def db_fold)
  moreover have "db_position_of (gather fs) = Ok p \<longleftrightarrow>
      p = (case num_field 0x50 fs of Some n \<Rightarrow> Some (Original n)
        | None \<Rightarrow> (case num_field 0x70 fs of Some n \<Rightarrow> Some (Internal n (the (last_field 0x71 fs))) | None \<Rightarrow> None)) \<and>
      (num_field 0x50 fs = None \<and> num_field 0x70 fs \<noteq> None \<longrightarrow> last_field 0x71 fs \<noteq> None)" for p
    by (auto simp: db_position_of_def gather_def split: option.splits)
  ultimately show ?thesis
    by (cases d) (auto simp: db_finish_def gather_def simp del: split_paired_Ex)
qed

text \<open>Parsing an error message never panics, so \<open>err_db\<close> is always a \<open>Db\<close> or a \<open>Parse\<close> error.\<close>

lemma error_fields_next_not_Panic: "error_fields_next s \<noteq> Panic"
  by (auto simp: error_fields_next_def rbind_eq_Panic split: prod.splits if_splits)

lemma db_error_parse_not_Panic [simp]: "db_error_parse b \<noteq> Panic"
proof -
  have "fold_iter (Suc (length b)) error_fields_next db_step no_fields b \<noteq> Panic"
    by (rule errors_it.fold_not_Panic) (simp_all add: error_fields_next_not_Panic)
  moreover have "db_finish a \<noteq> Panic" for a
    by (auto simp: db_finish_def db_position_of_def rbind_eq_Panic split: option.splits)
  ultimately show ?thesis by (simp add: db_error_parse_def rbind_eq_Panic)
qed

lemma err_db_kind:
  "err_kind (err_db body) = KDb \<and> as_db_error (err_db body) \<noteq> None \<or>
   err_kind (err_db body) = KParse \<and> as_db_error (err_db body) = None"
  by (auto simp: err_db_def as_db_error_def split: rresult.splits)

definition sample_fields :: "error_field list" where
  "sample_fields = [\<lparr>ef_type = 0x53, ef_value = ascii ''ERROR''\<rparr>, \<lparr>ef_type = 0x43, ef_value = ascii ''42P01''\<rparr>,
     \<lparr>ef_type = 0x4D, ef_value = ascii ''no such table''\<rparr>, \<lparr>ef_type = 0x50, ef_value = ascii ''15''\<rparr>]"

definition sample_error :: db_error where
  "sample_error = \<lparr>db_severity = ''ERROR'', db_parsed_severity = None, db_code = ''42P01'',
     db_message = ''no such table'', db_detail = None, db_hint = None, db_position = Some (Original 15),
     db_where = None, db_schema = None, db_table = None, db_column = None, db_datatype = None,
     db_constraint = None, db_file = None, db_line = None, db_routine = None\<rparr>"

theorem db_error_parse_fields_witness:
  "db_error_parse (error_fields (concat (map error_field_bytes sample_fields) @ [0])) = Ok sample_error"
proof -
  have c: "collect length error_fields_next (error_fields (concat (map error_field_bytes sample_fields) @ [0])) = Ok sample_fields"
    unfolding error_fields_def error_fields_list by (simp add: sample_fields_def error_field_ok_def)
  have l: "from_utf8_lossy (ascii s) = s" if "list_all (\<lambda>b. b < 0x80) (ascii s)" for s
    using that by (simp add: from_utf8_lossy_valid)
  have v: "from_utf8_lossy (ascii ''ERROR'') = ''ERROR''" "from_utf8_lossy (ascii ''42P01'') = ''42P01''"
      "from_utf8_lossy (ascii ''no such table'') = ''no such table''" "from_utf8_lossy (ascii ''15'') = ''15''"
    by (rule l, simp)+
  show ?thesis
    unfolding db_error_parse_fields [OF c]
    by (simp only: sample_fields_def last_field_def field_valid_def num_field_def Let_def filter.simps list.pred_inject
          error_field.simps v if_True if_False simp_thms)
      (simp add: sample_error_def parse_unsigned_def strip_plus_def is_digit_def digits_value_def v
        last_field_def field_valid_def num_field_def del: list.map)
qed

end
