(* ===== verification/Connection.thy ===== *)
theory Connection
  imports Codec DbErrors FrontendSpec
begin

text \<open>
  \<open>tokio-postgres/src/connection.rs\<close>: the task that owns the socket. One call of
  \<open>poll_message\<close> is a function of the connection and of an environment that scripts what every
  external poll returns during the call (the framed stream, the response channels, the request
  channel, the sink); a script that runs out answers \<open>Pending\<close>, so a theorem over all
  environments is a theorem over all schedules. The logs \<open>c_issued\<close>, \<open>c_requests\<close>,
  \<open>c_received\<close>, \<open>c_items\<close>, \<open>c_routed\<close> and \<open>c_sent\<close> are history variables: the code does
  not read them.
\<close>

section \<open>The environment\<close>

datatype 'a poll = Ready 'a | Pending

type_synonym sender = nat

datatype copy_poll = CopyMsg frontend_message | CopyEnd | CopyPending

text \<open>\<open>CopyIn\<close> carries what the successive polls of its receiver return.\<close>

datatype request_messages = Single frontend_message | CopyIn "copy_poll list"

record request =
  rq_messages :: request_messages
  rq_sender :: sender

record env =
  e_stream :: "(backend_message, io_error) rresult option poll list"
  e_sender :: "bool poll list"
  e_receiver :: "request option poll list"
  e_sink_ready :: "(unit, io_error) rresult poll list"
  e_send :: "(unit, io_error) rresult list"
  e_flush :: "(unit, io_error) rresult poll list"
  e_close :: "(unit, io_error) rresult poll list"

definition next_poll :: "'a poll list \<Rightarrow> 'a poll \<times> 'a poll list" where
  "next_poll xs = (case xs of [] \<Rightarrow> (Pending, []) | x # r \<Rightarrow> (x, r))"

section \<open>The connection\<close>

datatype conn_state = Active | Terminating | Closing

record conn =
  c_parameters :: "str \<rightharpoonup> str"
  c_receiver_done :: bool
  c_pending_request :: "request_messages option"
  c_pending_responses :: "backend_message list"
  c_responses :: "sender list"
  c_state :: conn_state
  c_receiver_closed :: bool
  c_issued :: "sender list"
  c_requests :: "request_messages list"
  c_received :: "backend_message list"
  c_items :: "(bytes \<times> bool) list"
  c_routed :: "(sender \<times> bytes \<times> bool) list"
  c_sent :: "frontend_message list"

datatype async_message = AsyncNotice db_error | AsyncNotification i32 str str

definition connection_new :: "backend_message list \<Rightarrow> (str \<rightharpoonup> str) \<Rightarrow> conn" where
  "connection_new pending params =
     \<lparr>c_parameters = params, c_receiver_done = False, c_pending_request = None,
      c_pending_responses = pending, c_responses = [], c_state = Active,
      c_receiver_closed = False, c_issued = [], c_requests = [], c_received = [], c_items = [],
      c_routed = [], c_sent = []\<rparr>"

definition parameter :: "conn \<Rightarrow> str \<Rightarrow> str option" where
  "parameter c nm = c_parameters c nm"

text \<open>A loop body either leaves the loop with a result or goes round again.\<close>

datatype 'r iter = Done 'r conn env | Again conn env

definition poll_response ::
  "conn \<Rightarrow> env \<Rightarrow> (backend_message, error) rresult option poll \<times> conn \<times> env" where
  "poll_response c e =
     (case c_pending_responses c of
        message # ms \<Rightarrow> (Ready (Some (Ok message)), c\<lparr>c_pending_responses := ms\<rparr>, e)
      | [] \<Rightarrow>
          let (p, ps) = next_poll (e_stream e) in
          (case p of
             Ready None \<Rightarrow> Ready None
           | Ready (Some r) \<Rightarrow> Ready (Some (map_err err_io r))
           | Pending \<Rightarrow> Pending,
           case p of Ready (Some (Ok m)) \<Rightarrow> c\<lparr>c_received := c_received c @ [m]\<rparr> | _ \<Rightarrow> c,
           e\<lparr>e_stream := ps\<rparr>))"

text \<open>The front of the response queue takes the messages of a \<open>Normal\<close> item.\<close>

definition route ::
  "bytes \<Rightarrow> bool \<Rightarrow> conn \<Rightarrow> env \<Rightarrow> (async_message option, error) rresult iter" where
  "route messages complete c e =
     (case c_responses c of
        [] \<Rightarrow>
          (case backend_messages_next messages of
             Err x \<Rightarrow> Done (Err (err_parse x)) c e
           | Panic \<Rightarrow> Done Panic c e
           | Ok (Some (ErrorResponse body), _) \<Rightarrow> Done (Err (err_db body)) c e
           | Ok _ \<Rightarrow> Done (Err err_unexpected_message) c e)
      | response # rs \<Rightarrow>
          let (p, ps) = next_poll (e_sender e); e = e\<lparr>e_sender := ps\<rparr> in
          (case p of
             Ready ok \<Rightarrow>
               Again (c\<lparr>c_responses := (if complete then rs else response # rs),
                        c_items := c_items c @ [(messages, complete)],
                        c_routed := c_routed c @ [(response, messages, ok)]\<rparr>) e
           | Pending \<Rightarrow>
               Done (Ok None)
                 (c\<lparr>c_pending_responses := c_pending_responses c @ [Normal messages complete]\<rparr>) e))"

definition read_step :: "conn \<Rightarrow> env \<Rightarrow> (async_message option, error) rresult iter" where
  "read_step c e =
     (let (p, c, e) = poll_response c e in
      case p of
        Pending \<Rightarrow> Done (Ok None) c e
      | Ready None \<Rightarrow> Done (Err err_closed) c e
      | Ready (Some (Err x)) \<Rightarrow> Done (Err x) c e
      | Ready (Some Panic) \<Rightarrow> Done Panic c e
      | Ready (Some (Ok (Async (NoticeResponse body)))) \<Rightarrow>
          Done (map_ok (\<lambda>x. Some (AsyncNotice x)) (map_err err_parse (db_error_parse (error_fields body)))) c e
      | Ready (Some (Ok (Async (NotificationResponse body)))) \<Rightarrow>
          Done (rbind (map_err err_parse (notification_channel body)) (\<lambda>channel.
                rbind (map_err err_parse (notification_message body)) (\<lambda>payload.
                  Ok (Some (AsyncNotification (nr_process_id body) channel payload))))) c e
      | Ready (Some (Ok (Async (ParameterStatus body)))) \<Rightarrow>
          (case rbind (map_err err_parse (parameter_name body)) (\<lambda>nm.
                rbind (map_err err_parse (parameter_value body)) (\<lambda>v. Ok (nm, v))) of
             Ok (nm, v) \<Rightarrow> Again (c\<lparr>c_parameters := (c_parameters c)(nm \<mapsto> v)\<rparr>) e
           | Err x \<Rightarrow> Done (Err x) c e
           | Panic \<Rightarrow> Done Panic c e)
      | Ready (Some (Ok (Async _))) \<Rightarrow> Done Panic c e
      | Ready (Some (Ok (Normal messages complete))) \<Rightarrow> route messages complete c e)"

definition read_size :: "conn \<Rightarrow> env \<Rightarrow> nat" where
  "read_size c e = length (c_pending_responses c) + length (e_stream e)"

lemma route_Again: "route m k c e = Again c' e' \<Longrightarrow> read_size c' e' = read_size c e"
  by (auto simp: route_def read_size_def Let_def next_poll_def
      split: list.splits rresult.splits option.splits message.splits poll.splits)

lemma read_step_Again: "read_step c e = Again c' e' \<Longrightarrow> read_size c' e' < read_size c e"
proof -
  assume a: "read_step c e = Again c' e'"
  obtain p c1 e1 where p: "poll_response c e = (p, c1, e1)" by (metis prod_cases3)
  from a p obtain x where x: "p = Ready (Some (Ok x))" and
      st: "read_size c' e' = read_size c1 e1"
    by (auto simp: read_step_def read_size_def dest: route_Again
        split: poll.splits option.splits rresult.splits backend_message.splits message.splits)
  from p x have "read_size c1 e1 < read_size c e"
    by (auto simp: poll_response_def read_size_def Let_def next_poll_def
        split: list.splits poll.splits option.splits prod.splits rresult.splits)
  with st show ?thesis by simp
qed

function read_loop :: "conn \<Rightarrow> env \<Rightarrow> (async_message option, error) rresult \<times> conn \<times> env" where
  "read_loop c e = (case read_step c e of Done r c e \<Rightarrow> (r, c, e) | Again c e \<Rightarrow> read_loop c e)"
  by pat_completeness auto
termination
  by (relation "measure (\<lambda>(c, e). read_size c e)") (auto dest: read_step_Again)

declare read_loop.simps [simp del]

definition poll_read :: "conn \<Rightarrow> env \<Rightarrow> (async_message option, error) rresult \<times> conn \<times> env" where
  "poll_read c e = (if c_state c \<noteq> Active then (Ok None, c, e) else read_loop c e)"

definition poll_request :: "conn \<Rightarrow> env \<Rightarrow> request_messages option poll \<times> conn \<times> env" where
  "poll_request c e =
     (case c_pending_request c of
        Some messages \<Rightarrow> (Ready (Some messages), c\<lparr>c_pending_request := None\<rparr>, e)
      | None \<Rightarrow>
          if c_receiver_done c then (Ready None, c, e)
          else
            (let (p, ps) = next_poll (e_receiver e); e = e\<lparr>e_receiver := ps\<rparr> in
             case p of
               Ready (Some request) \<Rightarrow>
                 (Ready (Some (rq_messages request)),
                  c\<lparr>c_responses := c_responses c @ [rq_sender request],
                    c_issued := c_issued c @ [rq_sender request],
                    c_requests := c_requests c @ [rq_messages request]\<rparr>, e)
             | Ready None \<Rightarrow> (Ready None, c\<lparr>c_receiver_done := True\<rparr>, e)
             | Pending \<Rightarrow> (Pending, c, e)))"

definition terminate_bytes :: bytes where
  "terminate_bytes = snd ((terminate :: (unit, io_error) writer) [])"

text \<open>\<open>start_send\<close>: the message is accepted unless the sink reports an error.\<close>

definition start_send :: "frontend_message \<Rightarrow> conn \<Rightarrow> env \<Rightarrow> (unit, error) rresult \<times> conn \<times> env" where
  "start_send m c e =
     (let (r, rs) = (case e_send e of [] \<Rightarrow> (Ok (), []) | r # rs \<Rightarrow> (r, rs)); e = e\<lparr>e_send := rs\<rparr> in
      case r of
        Ok _ \<Rightarrow> (Ok (), c\<lparr>c_sent := c_sent c @ [m]\<rparr>, e)
      | Err x \<Rightarrow> (Err (err_io x), c, e)
      | Panic \<Rightarrow> (Panic, c, e))"

definition send_single :: "frontend_message \<Rightarrow> conn \<Rightarrow> env \<Rightarrow> (bool, error) rresult iter" where
  "send_single m c e =
     (case start_send m c e of
        (Ok _, c, e) \<Rightarrow> Again (if c_state c = Terminating then c\<lparr>c_state := Closing\<rparr> else c) e
      | (Err x, c, e) \<Rightarrow> Done (Err x) c e
      | (Panic, c, e) \<Rightarrow> Done Panic c e)"

definition send_copy :: "copy_poll list \<Rightarrow> conn \<Rightarrow> env \<Rightarrow> (bool, error) rresult iter" where
  "send_copy receiver c e =
     (case receiver of
        CopyMsg m # r \<Rightarrow>
          (case start_send m c e of
             (Ok _, c, e) \<Rightarrow> Again (c\<lparr>c_pending_request := Some (CopyIn r)\<rparr>) e
           | (Err x, c, e) \<Rightarrow> Done (Err x) c e
           | (Panic, c, e) \<Rightarrow> Done Panic c e)
      | CopyEnd # r \<Rightarrow> Again c e
      | CopyPending # r \<Rightarrow> Done (Ok True) (c\<lparr>c_pending_request := Some (CopyIn r)\<rparr>) e
      | [] \<Rightarrow> Done (Ok True) (c\<lparr>c_pending_request := Some (CopyIn [])\<rparr>) e)"

definition write_step :: "conn \<Rightarrow> env \<Rightarrow> (bool, error) rresult iter" where
  "write_step c e =
     (if c_state c = Closing then Done (Ok False) c e
      else
        (let (p, ps) = next_poll (e_sink_ready e); e = e\<lparr>e_sink_ready := ps\<rparr> in
         case p of
           Pending \<Rightarrow> Done (Ok False) c e
         | Ready (Err x) \<Rightarrow> Done (Err (err_io x)) c e
         | Ready Panic \<Rightarrow> Done Panic c e
         | Ready (Ok _) \<Rightarrow>
             (case poll_request c e of
                (Ready (Some (Single m)), c, e) \<Rightarrow> send_single m c e
              | (Ready (Some (CopyIn receiver)), c, e) \<Rightarrow> send_copy receiver c e
              | (Ready None, c, e) \<Rightarrow>
                  if c_responses c = [] \<and> c_state c = Active
                  then send_single (Raw terminate_bytes) (c\<lparr>c_state := Terminating\<rparr>) e
                  else Done (Ok True) c e
              | (Pending, c, e) \<Rightarrow> Done (Ok True) c e)))"

lemma start_send_env: "start_send m c e = (r, c', e') \<Longrightarrow> e_sink_ready e' = e_sink_ready e"
  by (auto simp: start_send_def Let_def split: list.splits rresult.splits)

lemma poll_request_env: "poll_request c e = (p, c', e') \<Longrightarrow> e_sink_ready e' = e_sink_ready e"
  by (auto simp: poll_request_def Let_def split: list.splits option.splits poll.splits prod.splits if_splits)

lemma send_single_env: "send_single m c e = Again c' e' \<Longrightarrow> e_sink_ready e' = e_sink_ready e"
  by (auto simp: send_single_def dest!: start_send_env split: prod.splits rresult.splits)

lemma send_copy_env: "send_copy r c e = Again c' e' \<Longrightarrow> e_sink_ready e' = e_sink_ready e"
  by (auto simp: send_copy_def dest!: start_send_env
      split: list.splits copy_poll.splits prod.splits rresult.splits)

lemma write_step_Again: "write_step c e = Again c' e' \<Longrightarrow> length (e_sink_ready e') < length (e_sink_ready e)"
  by (auto simp: write_step_def Let_def next_poll_def dest!: send_single_env send_copy_env poll_request_env
      split: if_splits list.splits poll.splits rresult.splits prod.splits option.splits request_messages.splits)

function write_loop :: "conn \<Rightarrow> env \<Rightarrow> (bool, error) rresult \<times> conn \<times> env" where
  "write_loop c e = (case write_step c e of Done r c e \<Rightarrow> (r, c, e) | Again c e \<Rightarrow> write_loop c e)"
  by pat_completeness auto
termination
  by (relation "measure (\<lambda>(c, e). length (e_sink_ready e))") (auto dest: write_step_Again)

declare write_loop.simps [simp del]

definition poll_write :: "conn \<Rightarrow> env \<Rightarrow> (bool, error) rresult \<times> conn \<times> env" where
  "poll_write c e = write_loop c e"

definition poll_flush :: "conn \<Rightarrow> env \<Rightarrow> (unit, error) rresult \<times> conn \<times> env" where
  "poll_flush c e =
     (let (p, ps) = next_poll (e_flush e); e = e\<lparr>e_flush := ps\<rparr> in
      (case p of Ready r \<Rightarrow> map_err err_io r | Pending \<Rightarrow> Ok (), c, e))"

definition poll_shutdown :: "conn \<Rightarrow> env \<Rightarrow> (unit, error) rresult poll \<times> conn \<times> env" where
  "poll_shutdown c e =
     (if c_state c \<noteq> Closing then (Pending, c, e)
      else (let (p, ps) = next_poll (e_close e); e = e\<lparr>e_close := ps\<rparr> in
            (case p of Ready r \<Rightarrow> Ready (map_err err_io r) | Pending \<Rightarrow> Pending, c, e)))"

definition poll_message_inner ::
  "conn \<Rightarrow> env \<Rightarrow> (async_message, error) rresult option poll \<times> conn \<times> env" where
  "poll_message_inner c e =
     (case poll_read c e of
        (Err x, c, e) \<Rightarrow> (Ready (Some (Err x)), c, e)
      | (Panic, c, e) \<Rightarrow> (Ready (Some Panic), c, e)
      | (Ok message, c, e) \<Rightarrow>
          (case poll_write c e of
             (Err x, c, e) \<Rightarrow> (Ready (Some (Err x)), c, e)
           | (Panic, c, e) \<Rightarrow> (Ready (Some Panic), c, e)
           | (Ok want_flush, c, e) \<Rightarrow>
               (case (if want_flush then poll_flush c e else (Ok (), c, e)) of
                  (Err x, c, e) \<Rightarrow> (Ready (Some (Err x)), c, e)
                | (Panic, c, e) \<Rightarrow> (Ready (Some Panic), c, e)
                | (Ok _, c, e) \<Rightarrow>
                    (case message of
                       Some m \<Rightarrow> (Ready (Some (Ok m)), c, e)
                     | None \<Rightarrow>
                         (case poll_shutdown c e of
                            (Ready (Ok _), c, e) \<Rightarrow> (Ready None, c, e)
                          | (Ready (Err x), c, e) \<Rightarrow> (Ready (Some (Err x)), c, e)
                          | (Ready Panic, c, e) \<Rightarrow> (Ready (Some Panic), c, e)
                          | (Pending, c, e) \<Rightarrow> (Pending, c, e))))))"

definition poll_message ::
  "conn \<Rightarrow> env \<Rightarrow> (async_message, error) rresult option poll \<times> conn \<times> env" where
  "poll_message c e =
     (case poll_message_inner c e of
        (Pending, c, e) \<Rightarrow> (Pending, c, e)
      | (Ready (Some (Ok m)), c, e) \<Rightarrow> (Ready (Some (Ok m)), c, e)
      | (terminal, c, e) \<Rightarrow> (terminal, c\<lparr>c_receiver_closed := True\<rparr>, e))"

text \<open>
  A running connection: made by \<open>Connection::new\<close> with nothing but asynchronous messages left
  over from the startup, and polled under any environment while the results are not terminal.
\<close>

definition asyncs :: "backend_message list \<Rightarrow> bool" where
  "asyncs ms \<longleftrightarrow> list_all (\<lambda>m. case m of Async _ \<Rightarrow> True | Normal _ _ \<Rightarrow> False) ms"

inductive running :: "conn \<Rightarrow> bool" where
  start: "asyncs pending \<Longrightarrow> running (connection_new pending params)"
| polled: "running c \<Longrightarrow> poll_message c e = (Pending, c', e') \<Longrightarrow> running c'"
| message: "running c \<Longrightarrow> poll_message c e = (Ready (Some (Ok m)), c', e') \<Longrightarrow> running c'"

end
