(* ===== verification/ConnectionSpec.thy ===== *)
theory ConnectionSpec
  imports Connection
begin

text \<open>
  What the connection task promises: responses go to the requests in the order in which the
  requests were taken from the channel, the server's items are handled in the order in which
  they arrived, the messages of the requests go out in order and never interleave, and the
  connection is terminated once, last, and only when nothing is outstanding. The promises are
  one invariant of the running connections, proved by rule induction.
\<close>

section \<open>The specification\<close>

text \<open>The queue discipline: an item belongs to the first request that is not yet complete.\<close>

fun assign :: "sender list \<Rightarrow> (bytes \<times> bool) list \<Rightarrow> (sender \<times> bytes) list" where
  "assign (s # ss) ((b, c) # items) = (s, b) # assign (if c then ss else s # ss) items"
| "assign _ _ = []"

fun leftover :: "sender list \<Rightarrow> (bytes \<times> bool) list \<Rightarrow> sender list" where
  "leftover ss [] = ss"
| "leftover [] (i # items) = []"
| "leftover (s # ss) ((b, c) # items) = leftover (if c then ss else s # ss) items"

text \<open>No item arrives while no request is outstanding.\<close>

fun fits :: "sender list \<Rightarrow> (bytes \<times> bool) list \<Rightarrow> bool" where
  "fits ss [] = True"
| "fits [] (i # items) = False"
| "fits (s # ss) ((b, c) # items) = fits (if c then ss else s # ss) items"

fun normals :: "backend_message list \<Rightarrow> (bytes \<times> bool) list" where
  "normals [] = []"
| "normals (Normal m k # xs) = (m, k) # normals xs"
| "normals (Async m # xs) = normals xs"

text \<open>The messages of a request, in order: one, or what the copy stream yields up to its end.\<close>

fun copy_messages :: "copy_poll list \<Rightarrow> frontend_message list" where
  "copy_messages [] = []"
| "copy_messages (CopyMsg m # r) = m # copy_messages r"
| "copy_messages (CopyPending # r) = copy_messages r"
| "copy_messages (CopyEnd # r) = []"

primrec request_flat :: "request_messages \<Rightarrow> frontend_message list" where
  "request_flat (Single m) = [m]"
| "request_flat (CopyIn r) = copy_messages r"

definition pending_flat :: "request_messages option \<Rightarrow> frontend_message list" where
  "pending_flat p = (case p of None \<Rightarrow> [] | Some r \<Rightarrow> request_flat r)"

definition fifo_inv :: "conn \<Rightarrow> bool" where
  "fifo_inv c \<longleftrightarrow>
     fits (c_issued c) (c_items c) \<and>
     map (\<lambda>(s, b, _). (s, b)) (c_routed c) = assign (c_issued c) (c_items c) \<and>
     c_responses c = leftover (c_issued c) (c_items c)"

definition order_inv :: "conn \<Rightarrow> bool" where
  "order_inv c \<longleftrightarrow>
     normals (c_received c) = c_items c @ normals (c_pending_responses c) \<and>
     (asyncs (c_pending_responses c) \<or> (\<exists>m k. c_pending_responses c = [Normal m k]))"

definition wire_inv :: "conn \<Rightarrow> bool" where
  "wire_inv c \<longleftrightarrow>
     (case c_state c of
        Active \<Rightarrow> c_sent c @ pending_flat (c_pending_request c) = concat (map request_flat (c_requests c))
      | Terminating \<Rightarrow> False
      | Closing \<Rightarrow> c_sent c = concat (map request_flat (c_requests c)) @ [Raw terminate_bytes] \<and>
          c_receiver_done c \<and> c_responses c = [] \<and> c_pending_request c = None)"

definition conn_inv :: "conn \<Rightarrow> bool" where
  "conn_inv c \<longleftrightarrow> fifo_inv c \<and> order_inv c \<and> wire_inv c"

section \<open>The queue discipline\<close>

lemma assign_Nil [simp]: "assign ss [] = []" "assign [] items = []"
  by (cases ss; simp) (cases items; simp)

lemma fits_append: "fits ss items \<Longrightarrow>
    fits (ss @ ts) items \<and> assign (ss @ ts) items = assign ss items \<and> leftover (ss @ ts) items = leftover ss items @ ts"
proof (induction ss items rule: fits.induct)
  case (3 s ss b c items)
  then show ?case by (cases c) simp_all
qed simp_all

lemma fits_snoc: "fits ss items \<Longrightarrow> leftover ss items = s # rest \<Longrightarrow>
    fits ss (items @ [(b, c)]) \<and> assign ss (items @ [(b, c)]) = assign ss items @ [(s, b)] \<and>
    leftover ss (items @ [(b, c)]) = (if c then rest else s # rest)"
proof (induction ss items rule: fits.induct)
  case (1 ss)
  then show ?case by auto
next
  case (3 s' ss b' c' items)
  then show ?case by (cases c') simp_all
qed simp

lemma normals_append [simp]: "normals (xs @ ys) = normals xs @ normals ys"
  by (induction xs rule: normals.induct) simp_all

lemma asyncs_normals [simp]: "asyncs xs \<Longrightarrow> normals xs = []"
  by (induction xs rule: normals.induct) (simp_all add: asyncs_def)

lemma asyncs_Cons [simp]: "asyncs (Async m # xs) = asyncs xs" "\<not> asyncs (Normal b k # xs)" "asyncs []"
  by (simp_all add: asyncs_def)

section \<open>Reading\<close>

text \<open>
  Between taking an item and handling it the item is counted separately.
\<close>

lemma poll_response_inv:
  assumes "poll_response c e = (p, c', e')" and "conn_inv c" and "c_state c = Active"
  shows "c_state c' = Active \<and> fifo_inv c' \<and> wire_inv c' \<and>
    (case p of
       Ready (Some (Ok (Normal m k))) \<Rightarrow>
         c_pending_responses c' = [] \<and> normals (c_received c') = c_items c' @ [(m, k)]
     | Ready (Some (Ok (Async m))) \<Rightarrow> order_inv c'
     | Pending \<Rightarrow> order_inv c'
     | _ \<Rightarrow> True)"
proof (cases "c_pending_responses c")
  case Nil
  with assms show ?thesis
    by (cases "fst (next_poll (e_stream e))")
      (auto simp: poll_response_def Let_def conn_inv_def fifo_inv_def wire_inv_def order_inv_def
        split: prod.splits option.splits rresult.splits backend_message.splits)
next
  case (Cons x xs)
  with assms show ?thesis
    by (cases x) (auto simp: poll_response_def conn_inv_def fifo_inv_def wire_inv_def order_inv_def)
qed

lemma route_inv:
  assumes "fifo_inv c" "wire_inv c" "c_state c = Active" "c_pending_responses c = []"
    and "normals (c_received c) = c_items c @ [(m, k)]"
  shows "case route m k c e of
      Again c' e' \<Rightarrow> conn_inv c' \<and> c_state c' = Active
    | Done (Ok r) c' e' \<Rightarrow> conn_inv c' \<and> c_state c' = Active
    | Done _ c' e' \<Rightarrow> True"
proof (cases "c_responses c")
  case Nil
  then show ?thesis
    by (auto simp: route_def split: rresult.splits option.splits message.splits)
next
  case (Cons s rest)
  from assms(1) Cons have f: "fits (c_issued c) (c_items c)" "leftover (c_issued c) (c_items c) = s # rest"
    by (auto simp: fifo_inv_def)
  have step: "route m k c e =
      (case fst (next_poll (e_sender e)) of
         Ready ok \<Rightarrow>
           Again (c\<lparr>c_responses := (if k then rest else s # rest), c_items := c_items c @ [(m, k)],
                    c_routed := c_routed c @ [(s, m, ok)]\<rparr>) (e\<lparr>e_sender := snd (next_poll (e_sender e))\<rparr>)
       | Pending \<Rightarrow> Done (Ok None) (c\<lparr>c_pending_responses := c_pending_responses c @ [Normal m k]\<rparr>)
           (e\<lparr>e_sender := snd (next_poll (e_sender e))\<rparr>))"
    by (simp add: route_def Let_def Cons split_def)
  from fits_snoc [OF f, of m k] assms show ?thesis
    unfolding step by (auto simp: conn_inv_def fifo_inv_def order_inv_def wire_inv_def split: poll.splits)
qed

lemma read_step_inv:
  assumes "conn_inv c" "c_state c = Active"
  shows "case read_step c e of
      Again c' e' \<Rightarrow> conn_inv c' \<and> c_state c' = Active
    | Done (Ok r) c' e' \<Rightarrow> conn_inv c' \<and> c_state c' = Active
    | Done _ c' e' \<Rightarrow> True"
proof -
  obtain p c1 e1 where p: "poll_response c e = (p, c1, e1)" by (metis prod_cases3)
  note i = poll_response_inv [OF p assms]
  show ?thesis
  proof (cases "\<exists>m k. p = Ready (Some (Ok (Normal m k)))")
    case True
    then obtain m k where mk: "p = Ready (Some (Ok (Normal m k)))" by blast
    with i have "c_state c1 = Active" "fifo_inv c1" "wire_inv c1" "c_pending_responses c1 = []"
      "normals (c_received c1) = c_items c1 @ [(m, k)]" by auto
    then show ?thesis using route_inv [of c1 m k e1] p mk by (simp add: read_step_def)
  next
    case False
    then show ?thesis
      using i p
      by (auto simp: read_step_def conn_inv_def fifo_inv_def wire_inv_def order_inv_def
          split: poll.splits option.splits rresult.splits backend_message.splits message.splits prod.splits)
  qed
qed

lemma read_loop_inv:
  "conn_inv c \<Longrightarrow> c_state c = Active \<Longrightarrow> read_loop c e = (Ok r, c', e') \<Longrightarrow> conn_inv c'"
proof (induction c e rule: read_loop.induct)
  case (1 c e)
  show ?case
  proof (cases "read_step c e")
    case (Done x c1 e1)
    with 1(4) have "x = Ok r" "c1 = c'" by (simp_all add: read_loop.simps)
    with read_step_inv [OF 1(2,3), of e] Done show ?thesis by simp
  next
    case (Again c1 e1)
    with read_step_inv [OF 1(2,3), of e] have "conn_inv c1" "c_state c1 = Active" by simp_all
    moreover have "read_loop c1 e1 = (Ok r, c', e')" using 1(4) Again by (simp add: read_loop.simps)
    ultimately show ?thesis by (rule 1(1) [OF Again])
  qed
qed

lemma poll_read_inv: "conn_inv c \<Longrightarrow> poll_read c e = (Ok r, c', e') \<Longrightarrow> conn_inv c'"
  by (auto simp: poll_read_def dest: read_loop_inv split: if_splits)

section \<open>Writing\<close>

lemma start_send_cases:
  assumes "start_send m c e = (r, c', e')"
  shows "(\<exists>u. r = Ok u) \<and> c' = c\<lparr>c_sent := c_sent c @ [m]\<rparr> \<or> (\<forall>u. r \<noteq> Ok u) \<and> c' = c"
  using assms by (auto simp: start_send_def Let_def split: list.splits rresult.splits)

lemma send_copy_inv:
  assumes "fifo_inv c" "order_inv c" "c_state c = Active" "c_pending_request c = None"
    and "c_sent c @ copy_messages r = concat (map request_flat (c_requests c))"
  shows "case send_copy r c e of
      Again c' e' \<Rightarrow> conn_inv c'
    | Done (Ok x) c' e' \<Rightarrow> conn_inv c'
    | Done _ c' e' \<Rightarrow> True"
proof (cases r)
  case (Cons x xs)
  show ?thesis
  proof (cases x)
    case (CopyMsg m)
    obtain q c1 e1 where q: "start_send m c e = (q, c1, e1)" by (metis prod_cases3)
    from start_send_cases [OF q] show ?thesis
      using q CopyMsg Cons assms
      by (auto simp: send_copy_def conn_inv_def fifo_inv_def order_inv_def wire_inv_def pending_flat_def
          split: rresult.splits)
  qed (use Cons assms in \<open>auto simp: send_copy_def conn_inv_def fifo_inv_def order_inv_def wire_inv_def pending_flat_def\<close>)
qed (use assms in \<open>auto simp: send_copy_def conn_inv_def fifo_inv_def order_inv_def wire_inv_def pending_flat_def\<close>)

lemma send_single_inv:
  assumes "fifo_inv c" "order_inv c" "c_state c = Active" "c_pending_request c = None"
    and "c_sent c @ [m] = concat (map request_flat (c_requests c))"
  shows "case send_single m c e of
      Again c' e' \<Rightarrow> conn_inv c'
    | Done (Ok x) c' e' \<Rightarrow> conn_inv c'
    | Done _ c' e' \<Rightarrow> True"
proof -
  obtain q c1 e1 where q: "start_send m c e = (q, c1, e1)" by (metis prod_cases3)
  from start_send_cases [OF q] show ?thesis
    using q assms
    by (auto simp: send_single_def conn_inv_def fifo_inv_def order_inv_def wire_inv_def pending_flat_def
        split: rresult.splits)
qed

lemma send_terminate_inv:
  assumes "fifo_inv c" "order_inv c" "c_pending_request c = None" "c_receiver_done c" "c_responses c = []"
    and "c_sent c = concat (map request_flat (c_requests c))"
  shows "case send_single (Raw terminate_bytes) (c\<lparr>c_state := Terminating\<rparr>) e of
      Again c' e' \<Rightarrow> conn_inv c'
    | Done (Ok x) c' e' \<Rightarrow> conn_inv c'
    | Done _ c' e' \<Rightarrow> True"
proof -
  obtain q c1 e1 where q: "start_send (Raw terminate_bytes) (c\<lparr>c_state := Terminating\<rparr>) e = (q, c1, e1)"
    by (metis prod_cases3)
  from start_send_cases [OF q] show ?thesis
    using q assms
    by (auto simp: send_single_def conn_inv_def fifo_inv_def order_inv_def wire_inv_def split: rresult.splits)
qed

lemma poll_request_new:
  assumes "poll_request c e = (q, c1, e1)" and "c_pending_request c = None"
  obtains (request) rq :: request where "q = Ready (Some (rq_messages rq))"
      "c1 = c\<lparr>c_responses := c_responses c @ [rq_sender rq], c_issued := c_issued c @ [rq_sender rq],
              c_requests := c_requests c @ [rq_messages rq]\<rparr>"
  | (finished) "q = Ready None" "c_receiver_done c1" "c1 = c \<or> c1 = c\<lparr>c_receiver_done := True\<rparr>"
  | (waiting) "q = Pending" "c1 = c"
proof (cases "c_receiver_done c")
  case True
  with assms show ?thesis by (intro finished) (auto simp: poll_request_def)
next
  case False
  obtain p ps where p: "next_poll (e_receiver e) = (p, ps)" by fastforce
  consider rq where "p = Ready (Some rq)" | "p = Ready None" | "p = Pending"
    by (metis option.exhaust poll.exhaust)
  then show ?thesis
  proof cases
    case (1 rq)
    with assms False p show ?thesis by (intro request [of rq]) (auto simp: poll_request_def)
  next
    case 2
    with assms False p show ?thesis by (intro finished) (auto simp: poll_request_def)
  next
    case 3
    with assms False p show ?thesis by (intro waiting) (auto simp: poll_request_def)
  qed
qed

lemma write_step_inv:
  assumes "conn_inv c"
  shows "case write_step c e of
      Again c' e' \<Rightarrow> conn_inv c'
    | Done (Ok x) c' e' \<Rightarrow> conn_inv c'
    | Done _ c' e' \<Rightarrow> True"
proof (cases "c_state c = Active")
  case False
  with assms show ?thesis
    by (auto simp: write_step_def conn_inv_def wire_inv_def split: conn_state.splits)
next
  case True
  obtain p ps where p: "next_poll (e_sink_ready e) = (p, ps)" by fastforce
  show ?thesis
  proof (cases "\<exists>u. p = Ready (Ok u)")
    case False
    then consider "p = Pending" | x where "p = Ready (Err x)" | "p = Ready Panic"
      by (metis poll.exhaust rresult.exhaust)
    then show ?thesis using p True assms by cases (simp_all add: write_step_def Let_def)
  next
    case ready: True
    let ?e = "e\<lparr>e_sink_ready := ps\<rparr>"
    obtain q c1 e1 where q: "poll_request c ?e = (q, c1, e1)" by (metis prod_cases3)
    have step: "write_step c e =
       (case q of
          Ready (Some (Single m)) \<Rightarrow> send_single m c1 e1
        | Ready (Some (CopyIn receiver)) \<Rightarrow> send_copy receiver c1 e1
        | Ready None \<Rightarrow>
            if c_responses c1 = [] \<and> c_state c1 = Active
            then send_single (Raw terminate_bytes) (c1\<lparr>c_state := Terminating\<rparr>) e1
            else Done (Ok True) c1 e1
        | Pending \<Rightarrow> Done (Ok True) c1 e1)"
      using ready p q True
      by (auto simp: write_step_def Let_def split: poll.splits option.splits request_messages.splits)
    show ?thesis
    proof (cases "c_pending_request c")
      case (Some req)
      with q have c1: "q = Ready (Some req)" "c1 = c\<lparr>c_pending_request := None\<rparr>"
        by (simp_all add: poll_request_def)
      have "fifo_inv c1" "order_inv c1" "c_state c1 = Active" "c_pending_request c1 = None"
          "c_sent c1 @ request_flat req = concat (map request_flat (c_requests c1))"
        using assms True Some
        by (simp_all add: c1 conn_inv_def fifo_inv_def order_inv_def wire_inv_def pending_flat_def)
      then show ?thesis
        unfolding step using c1(1) send_single_inv [of c1 _ e1] send_copy_inv [of c1 _ e1] by (cases req) simp_all
    next
      case None
      then have sent: "c_sent c = concat (map request_flat (c_requests c))"
        using assms True by (simp add: conn_inv_def wire_inv_def pending_flat_def)
      have base: "fifo_inv c" "order_inv c" using assms by (simp_all add: conn_inv_def)
      from q None show ?thesis
      proof (cases rule: poll_request_new)
        case (request rq)
        have "fifo_inv c1"
          using base(1) fits_append [of "c_issued c" "c_items c" "[rq_sender rq]"]
          by (simp add: request(2) fifo_inv_def)
        moreover have "order_inv c1" "c_state c1 = Active" "c_pending_request c1 = None"
            "c_sent c1 @ request_flat (rq_messages rq) = concat (map request_flat (c_requests c1))"
          using base(2) True None sent by (simp_all add: request(2) order_inv_def)
        ultimately show ?thesis
          unfolding step using request(1) send_single_inv [of c1 _ e1] send_copy_inv [of c1 _ e1]
          by (cases "rq_messages rq") simp_all
      next
        case finished
        have "fifo_inv c1" "order_inv c1" "c_pending_request c1 = None" "c_receiver_done c1"
            "c_sent c1 = concat (map request_flat (c_requests c1))"
          using base None sent finished(2,3) by (auto simp: fifo_inv_def order_inv_def)
        moreover have "c_state c1 = Active" using finished(3) True by auto
        ultimately show ?thesis
          unfolding step using finished(1) send_terminate_inv [of c1 e1]
          by (simp add: conn_inv_def wire_inv_def pending_flat_def)
      next
        case waiting
        with step assms show ?thesis by simp
      qed
    qed
  qed
qed

lemma write_loop_inv: "conn_inv c \<Longrightarrow> write_loop c e = (Ok r, c', e') \<Longrightarrow> conn_inv c'"
proof (induction c e rule: write_loop.induct)
  case (1 c e)
  show ?case
  proof (cases "write_step c e")
    case (Done x c1 e1)
    with 1(3) have "x = Ok r" "c1 = c'" by (simp_all add: write_loop.simps)
    with write_step_inv [OF 1(2), of e] Done show ?thesis by simp
  next
    case (Again c1 e1)
    with write_step_inv [OF 1(2), of e] have "conn_inv c1" by simp
    moreover have "write_loop c1 e1 = (Ok r, c', e')" using 1(3) Again by (simp add: write_loop.simps)
    ultimately show ?thesis by (rule 1(1) [OF Again])
  qed
qed

section \<open>Running connections\<close>

lemma poll_message_inner_inv:
  assumes "conn_inv c" "poll_message_inner c e = (p, c', e')" "p = Pending \<or> (\<exists>m. p = Ready (Some (Ok m)))"
  shows "conn_inv c'"
proof -
  obtain r c1 e1 where r: "poll_read c e = (r, c1, e1)" by (metis prod_cases3)
  with assms(2,3) obtain msg where msg: "r = Ok msg"
    by (cases r) (auto simp: poll_message_inner_def)
  have i1: "conn_inv c1" using poll_read_inv [OF assms(1)] r msg by blast
  obtain w c2 e2 where w: "poll_write c1 e1 = (w, c2, e2)" by (metis prod_cases3)
  with assms(2,3) r msg obtain want where want: "w = Ok want"
    by (cases w) (auto simp: poll_message_inner_def)
  have "conn_inv c2" using write_loop_inv [OF i1] w want by (simp add: poll_write_def)
  moreover have "c' = c2"
    using assms(2,3) r msg w want
    by (auto simp: poll_message_inner_def poll_flush_def poll_shutdown_def Let_def
        split: if_splits prod.splits poll.splits rresult.splits option.splits)
  ultimately show ?thesis by simp
qed

lemma running_inv: "running c \<Longrightarrow> conn_inv c"
proof (induction rule: running.induct)
  case (start pending params)
  then show ?case
    by (simp add: conn_inv_def fifo_inv_def order_inv_def wire_inv_def connection_new_def pending_flat_def)
next
  case (polled c e c' e')
  then have "poll_message_inner c e = (Pending, c', e')"
    by (auto simp: poll_message_def split: prod.splits poll.splits option.splits rresult.splits)
  with polled.IH poll_message_inner_inv show ?case by blast
next
  case (message c e m c' e')
  then have "poll_message_inner c e = (Ready (Some (Ok m)), c', e')"
    by (auto simp: poll_message_def split: prod.splits poll.splits option.splits rresult.splits)
  with message.IH poll_message_inner_inv show ?case by blast
qed

section \<open>Properties of the connection\<close>

text \<open>
  C2. Responses go to the right requests: on every running connection, under every schedule, the
  runs of backend messages handed to (or dropped for a hung-up) response channel are those of
  the queue discipline, every item for the oldest request that has not seen \<open>ReadyForQuery\<close>;
  and the items are handled in exactly the order in which the server sent them, also when a
  full channel made the task put an item aside.
\<close>

theorem responses_in_order:
  assumes "running c"
  shows "map (\<lambda>(s, b, _). (s, b)) (c_routed c) = assign (c_issued c) (c_items c) \<and>
    c_responses c = leftover (c_issued c) (c_items c) \<and>
    normals (c_received c) = c_items c @ normals (c_pending_responses c)"
  using running_inv [OF assms] by (simp_all add: conn_inv_def fifo_inv_def order_inv_def)

text \<open>
  C24. The outgoing wire: what has been sent, followed by what the request in progress still has
  to send, is the concatenation of the requests' messages in the order in which the requests
  were taken, so two requests never interleave, also when a \<open>COPY IN\<close> stream stalls; after that
  comes at most one \<open>Terminate\<close>, and only when the clients are gone, every response is complete
  and no request is in progress.
\<close>

theorem requests_do_not_interleave:
  assumes "running c"
  shows "case c_state c of
      Active \<Rightarrow> c_sent c @ pending_flat (c_pending_request c) = concat (map request_flat (c_requests c))
    | Terminating \<Rightarrow> False
    | Closing \<Rightarrow> c_sent c = concat (map request_flat (c_requests c)) @ [Raw terminate_bytes] \<and>
        c_receiver_done c \<and> c_responses c = [] \<and> c_pending_request c = None"
  using running_inv [OF assms] by (simp add: conn_inv_def wire_inv_def)

lemma closing_write: "c_state c = Closing \<Longrightarrow> write_loop c e = (Ok False, c, e)"
  by (simp add: write_loop.simps write_step_def)

text \<open>
  Nothing follows \<open>Terminate\<close>: once the connection is closing, a poll neither reads, sends
  nor takes requests any more; it only shuts the socket down, and its result is that of the
  shutdown.
\<close>

theorem closing_is_final:
  assumes "c_state c = Closing"
  shows "poll_message_inner c e =
    (case fst (next_poll (e_close e)) of
       Ready (Ok _) \<Rightarrow> Ready None
     | Ready (Err x) \<Rightarrow> Ready (Some (Err (err_io x)))
     | Ready Panic \<Rightarrow> Ready (Some Panic)
     | Pending \<Rightarrow> Pending, c, e\<lparr>e_close := snd (next_poll (e_close e))\<rparr>)"
  using assms
  by (simp add: poll_message_inner_def poll_read_def poll_write_def closing_write poll_shutdown_def Let_def
      split: prod.splits poll.splits rresult.splits)

text \<open>
  The \<open>unreachable!\<close> of \<open>poll_read\<close>: items that come from the codec carry one of the three
  asynchronous messages, so reading never panics.
\<close>

definition stream_ok :: "backend_message list \<Rightarrow> bool" where
  "stream_ok ms \<longleftrightarrow> list_all (\<lambda>m. case m of Async m \<Rightarrow> is_async m | Normal _ _ \<Rightarrow> True) ms"

definition env_ok :: "env \<Rightarrow> bool" where
  "env_ok e \<longleftrightarrow> list_all (\<lambda>p. case p of Ready (Some (Ok m)) \<Rightarrow> stream_ok [m] | Ready (Some Panic) \<Rightarrow> False | _ \<Rightarrow> True) (e_stream e)"

lemma is_async_cases:
  "is_async m \<longleftrightarrow> (\<exists>b. m = NoticeResponse b) \<or> (\<exists>n. m = NotificationResponse n) \<or> (\<exists>p. m = ParameterStatus p)"
  by (cases m) (simp_all add: is_async_def is_async_tag_def)

lemma run_next_not_Panic [simp]: "backend_messages_next b \<noteq> Panic"
proof -
  obtain r rest where m: "message_parse b = (r, rest)" by fastforce
  then have "r \<noteq> Panic" using message_parse_not_Panic [of b] by simp
  with m show ?thesis by (auto simp: backend_messages_next_def split: rresult.splits)
qed

lemma env_ok_sender: "env_ok (e\<lparr>e_sender := x\<rparr>) = env_ok e"
  by (simp add: env_ok_def)

lemma read_step_not_Panic:
  assumes "stream_ok (c_pending_responses c)" "env_ok e"
  shows "case read_step c e of
      Again c' e' \<Rightarrow> stream_ok (c_pending_responses c') \<and> env_ok e'
    | Done r c' e' \<Rightarrow> r \<noteq> Panic"
proof -
  obtain p c1 e1 where p: "poll_response c e = (p, c1, e1)" by (metis prod_cases3)
  have ok: "stream_ok (c_pending_responses c1)" "env_ok e1" "p \<noteq> Ready (Some Panic)"
      "\<And>m. p = Ready (Some (Ok m)) \<Longrightarrow> stream_ok [m]"
    using p assms
    by (auto simp: poll_response_def stream_ok_def env_ok_def Let_def next_poll_def
        split: list.splits poll.splits option.splits rresult.splits)
  have str: "notification_channel n \<noteq> Panic" "notification_message n \<noteq> Panic"
      "parameter_name q \<noteq> Panic" "parameter_value q \<noteq> Panic" for n q
    by (simp_all add: notification_channel_def notification_message_def parameter_name_def parameter_value_def)
  show ?thesis
  proof (cases "\<exists>m k. p = Ready (Some (Ok (Normal m k)))")
    case True
    then obtain m k where mk: "p = Ready (Some (Ok (Normal m k)))" by blast
    have "case route m k c1 e1 of
        Again c' e' \<Rightarrow> stream_ok (c_pending_responses c') \<and> env_ok e'
      | Done r c' e' \<Rightarrow> r \<noteq> Panic"
      using ok(1,2) run_next_not_Panic [of m]
      by (auto simp: route_def Let_def env_ok_sender stream_ok_def
          split: list.splits rresult.splits option.splits message.splits poll.splits prod.splits)
    with p mk show ?thesis by (simp add: read_step_def)
  next
    case False
    then consider "p = Pending" | "p = Ready None" | x where "p = Ready (Some (Err x))"
      | m where "p = Ready (Some (Ok (Async m)))"
      using ok(3) by (metis backend_message.exhaust option.exhaust poll.exhaust rresult.exhaust)
    then show ?thesis
    proof cases
      case (4 m)
      with ok(4) have "is_async m" by (simp add: stream_ok_def)
      then consider b where "m = NoticeResponse b" | n where "m = NotificationResponse n" | q where "m = ParameterStatus q"
        unfolding is_async_cases by blast
      then show ?thesis
        using p 4 ok(1,2) str
        by cases (auto simp: read_step_def rbind_eq_Panic split: rresult.splits)
    qed (use p in \<open>simp_all add: read_step_def\<close>)
  qed
qed

text \<open>
  Reading never panics: when the items of the stream and the items kept back carry only the
  three kinds of asynchronous messages the codec hands out, the unreachable arm of \<open>poll_read\<close>
  is not reached, whatever the polls return.
\<close>

theorem poll_read_never_panics:
  assumes "stream_ok (c_pending_responses c)" "env_ok e"
  shows "fst (poll_read c e) \<noteq> Panic"
proof -
  have "fst (read_loop c e) \<noteq> Panic"
    using assms
  proof (induction c e rule: read_loop.induct)
    case (1 c e)
    with read_step_not_Panic [OF 1(2,3)] show ?case
      by (subst read_loop.simps) (auto split: iter.splits)
  qed
  then show ?thesis by (simp add: poll_read_def)
qed

section \<open>A short run\<close>

text \<open>Two requests go out and are answered by a run each; then the clients hang up.\<close>

definition sample_env1 :: env where
  "sample_env1 = \<lparr>e_stream = [], e_sender = [],
     e_receiver = [Ready (Some \<lparr>rq_messages = Single (Raw [1]), rq_sender = 7\<rparr>),
                   Ready (Some \<lparr>rq_messages = CopyIn [CopyMsg (Raw [2]), CopyPending, CopyMsg (Raw [3]), CopyEnd], rq_sender = 8\<rparr>)],
     e_sink_ready = replicate 6 (Ready (Ok ())), e_send = [], e_flush = [], e_close = []\<rparr>"

definition sample_env2 :: env where
  "sample_env2 = \<lparr>e_stream = [Ready (Some (Ok (Normal [5] True))), Ready (Some (Ok (Normal [6] False))),
                     Ready (Some (Ok (Normal [7] True)))],
     e_sender = [Ready True, Ready True, Ready True],
     e_receiver = [Ready None],
     e_sink_ready = replicate 6 (Ready (Ok ())), e_send = [], e_flush = [], e_close = []\<rparr>"

definition sample_conn1 :: conn where
  "sample_conn1 = fst (snd (poll_message (connection_new [] Map.empty) sample_env1))"

definition sample_conn2 :: conn where
  "sample_conn2 = fst (snd (poll_message sample_conn1 sample_env2))"

lemmas run_defs = poll_message_def poll_message_inner_def poll_read_def read_loop.simps read_step_def
  poll_response_def route_def poll_write_def write_loop.simps write_step_def poll_request_def send_single_def
  send_copy_def start_send_def poll_flush_def poll_shutdown_def next_poll_def connection_new_def

lemma sample_poll1:
  "poll_message (connection_new [] Map.empty) sample_env1 =
     (Pending,
      \<lparr>c_parameters = Map.empty, c_receiver_done = False,
       c_pending_request = Some (CopyIn [CopyMsg (Raw [3]), CopyEnd]), c_pending_responses = [],
       c_responses = [7, 8], c_state = Active, c_receiver_closed = False, c_issued = [7, 8],
       c_requests = [Single (Raw [1]), CopyIn [CopyMsg (Raw [2]), CopyPending, CopyMsg (Raw [3]), CopyEnd]],
       c_received = [], c_items = [], c_routed = [], c_sent = [Raw [1], Raw [2]]\<rparr>,
      sample_env1\<lparr>e_receiver := [], e_sink_ready := replicate 3 (Ready (Ok ()))\<rparr>)"
  by (simp add: run_defs sample_env1_def numeral_eq_Suc)

lemma sample_conn1_eq:
  "sample_conn1 = \<lparr>c_parameters = Map.empty, c_receiver_done = False,
       c_pending_request = Some (CopyIn [CopyMsg (Raw [3]), CopyEnd]), c_pending_responses = [],
       c_responses = [7, 8], c_state = Active, c_receiver_closed = False, c_issued = [7, 8],
       c_requests = [Single (Raw [1]), CopyIn [CopyMsg (Raw [2]), CopyPending, CopyMsg (Raw [3]), CopyEnd]],
       c_received = [], c_items = [], c_routed = [], c_sent = [Raw [1], Raw [2]]\<rparr>"
  by (simp add: sample_conn1_def sample_poll1)

lemma sample_poll2:
  "poll_message sample_conn1 sample_env2 =
     (Pending,
      \<lparr>c_parameters = Map.empty, c_receiver_done = True, c_pending_request = None, c_pending_responses = [],
       c_responses = [], c_state = Closing, c_receiver_closed = False, c_issued = [7, 8],
       c_requests = [Single (Raw [1]), CopyIn [CopyMsg (Raw [2]), CopyPending, CopyMsg (Raw [3]), CopyEnd]],
       c_received = [Normal [5] True, Normal [6] False, Normal [7] True],
       c_items = [([5], True), ([6], False), ([7], True)],
       c_routed = [(7, [5], True), (8, [6], True), (8, [7], True)],
       c_sent = [Raw [1], Raw [2], Raw [3], Raw terminate_bytes]\<rparr>,
      sample_env2\<lparr>e_stream := [], e_sender := [], e_receiver := [], e_sink_ready := replicate 3 (Ready (Ok ()))\<rparr>)"
  by (simp add: sample_conn1_eq run_defs sample_env2_def numeral_eq_Suc)

lemma sample_running: "running sample_conn1" "running sample_conn2"
proof -
  have "running (connection_new [] Map.empty)" by (rule running.start) simp
  then show 1: "running sample_conn1"
    unfolding sample_conn1_def sample_poll1 by (auto intro: running.polled [OF _ sample_poll1])
  then show "running sample_conn2"
    unfolding sample_conn2_def sample_poll2 by (auto intro: running.polled [OF _ sample_poll2])
qed

lemma sample_conn2_eq:
  "sample_conn2 = \<lparr>c_parameters = Map.empty, c_receiver_done = True, c_pending_request = None,
       c_pending_responses = [], c_responses = [], c_state = Closing, c_receiver_closed = False,
       c_issued = [7, 8],
       c_requests = [Single (Raw [1]), CopyIn [CopyMsg (Raw [2]), CopyPending, CopyMsg (Raw [3]), CopyEnd]],
       c_received = [Normal [5] True, Normal [6] False, Normal [7] True],
       c_items = [([5], True), ([6], False), ([7], True)],
       c_routed = [(7, [5], True), (8, [6], True), (8, [7], True)],
       c_sent = [Raw [1], Raw [2], Raw [3], Raw terminate_bytes]\<rparr>"
  by (simp add: sample_conn2_def sample_poll2)

lemmas sample_eqs = sample_conn1_eq sample_conn2_eq

theorem responses_in_order_witness:
  "map (\<lambda>(s, b, _). (s, b)) (c_routed sample_conn2) = [(7, [5]), (8, [6]), (8, [7])]"
proof -
  have "assign (c_issued sample_conn2) (c_items sample_conn2) = [(7, [5]), (8, [6]), (8, [7])]"
    by (simp add: sample_eqs)
  with responses_in_order [OF sample_running(2)] show ?thesis by simp
qed

theorem requests_do_not_interleave_witness:
  "c_sent sample_conn2 = [Raw [1], Raw [2], Raw [3], Raw terminate_bytes]"
  using requests_do_not_interleave [OF sample_running(2)] by (simp add: sample_eqs)

theorem closing_is_final_witness:
  "fst (poll_message_inner sample_conn2 (sample_env2\<lparr>e_close := [Ready (Ok ())]\<rparr>)) = Ready None"
proof -
  have "c_state sample_conn2 = Closing" by (simp add: sample_eqs)
  from closing_is_final [OF this, of "sample_env2\<lparr>e_close := [Ready (Ok ())]\<rparr>"] show ?thesis
    by (simp add: next_poll_def)
qed

theorem poll_read_never_panics_witness:
  "fst (poll_read sample_conn1 sample_env2) \<noteq> Panic"
proof (rule poll_read_never_panics)
  show "stream_ok (c_pending_responses sample_conn1)" by (simp add: stream_ok_def sample_eqs)
  show "env_ok sample_env2" by (simp add: env_ok_def stream_ok_def sample_env2_def)
qed

end
