(* ===== verification/ConnectTls.thy ===== *)
theory ConnectTls
  imports DbErrors FrontendSpec
begin

text \<open>
  \<open>tokio-postgres/src/connect_tls.rs\<close>: how a fresh socket becomes the stream of a connection.
  The outside world is an argument: what writing the request returns, the byte the server
  answers with, whether the TLS connector can connect, and what its handshake returns. The
  result carries the bytes sent in clear text and whether the handshake was started, so that
  what goes over the wire before TLS can be stated.
\<close>

datatype ssl_mode = Disable | Prefer | Require
datatype ssl_negotiation = Postgres | Direct
datatype maybe_tls = RawStream | TlsStream

record tls_world =
  tw_can_connect :: bool
  tw_write :: "(unit, io_error) rresult"
  tw_reply :: "(u8, io_error) rresult"
  tw_handshake :: "(unit, string) rresult"

record tls_outcome =
  to_result :: "(maybe_tls, error) rresult"
  to_sent :: bytes
  to_handshake :: bool

definition tls_return :: "(maybe_tls, error) rresult \<Rightarrow> bytes \<Rightarrow> bool \<Rightarrow> tls_outcome" where
  "tls_return r sent hs = \<lparr>to_result = r, to_sent = sent, to_handshake = hs\<rparr>"

definition tls_text :: "string \<Rightarrow> error" where
  "tls_text s = err_tls (CauseText s)"

text \<open>The part after the negotiation: host name check and handshake.\<close>

definition tls_handshake :: "tls_world \<Rightarrow> bool \<Rightarrow> bytes \<Rightarrow> tls_outcome" where
  "tls_handshake w has_hostname sent =
     (if \<not> has_hostname then tls_return (Err (tls_text ''no hostname provided for TLS handshake'')) sent False
      else tls_return (map_ok (\<lambda>_. TlsStream) (map_err tls_text (tw_handshake w))) sent True)"

definition connect_tls :: "tls_world \<Rightarrow> ssl_mode \<Rightarrow> ssl_negotiation \<Rightarrow> bool \<Rightarrow> tls_outcome" where
  "connect_tls w mode negotiation has_hostname =
     (if mode = Disable then tls_return (Ok RawStream) [] False
      else if mode = Prefer \<and> \<not> tw_can_connect w then tls_return (Ok RawStream) [] False
      else if mode = Prefer \<and> negotiation = Direct then
        tls_return (Err (tls_text ''weak sslmode \"prefer\" may not be used with sslnegotiation=direct (use \"require\")'')) [] False
      else if negotiation = Postgres then
        (let buf = snd ((ssl_request :: (unit, io_error) writer) []) in
         case tw_write w of
           Err e \<Rightarrow> tls_return (Err (err_io e)) [] False
         | Panic \<Rightarrow> tls_return Panic [] False
         | Ok _ \<Rightarrow>
             (case tw_reply w of
                Err e \<Rightarrow> tls_return (Err (err_io e)) buf False
              | Panic \<Rightarrow> tls_return Panic buf False
              | Ok b \<Rightarrow>
                  if b \<noteq> 0x53 then
                    (if mode = Require then tls_return (Err (tls_text ''server does not support TLS'')) buf False
                     else tls_return (Ok RawStream) buf False)
                  else tls_handshake w has_hostname buf))
      else tls_handshake w has_hostname [])"

lemma ssl_request_bytes: "snd ((ssl_request :: (unit, io_error) writer) []) = [0, 0, 0, 8, 4, 210, 22, 47]"
proof -
  have "put_i32 8 @ put_i32 80877103 = ([0, 0, 0, 8, 4, 210, 22, 47] :: bytes)"
    by (simp add: put_word_def be_bytes_numeral)
  moreover have "(ssl_request :: (unit, io_error) writer) [] = (Ok (), [] @ put_i32 8 @ put_i32 80877103)"
    by (rule denotes_run) (rule ssl_request_denotes)
  ultimately show ?thesis by simp
qed

text \<open>
  C23. The encryption policy of \<open>connect_tls\<close>. Under \<open>Require\<close> the stream is never a raw one:
  the call returns a TLS stream after a successful handshake, or fails. Under \<open>Disable\<close>
  nothing is sent and the stream is raw. In every mode the only bytes that can be sent in clear
  text are the eight bytes of the SSL request, and a TLS stream means that the handshake
  succeeded and, with the PostgreSQL negotiation, that the server answered \<open>S\<close>.
\<close>

theorem connect_tls_policy:
  "(to_result (connect_tls w Require neg host) \<noteq> Ok RawStream) \<and>
   connect_tls w Disable neg host = tls_return (Ok RawStream) [] False \<and>
   to_sent (connect_tls w mode neg host) \<in> {[], [0, 0, 0, 8, 4, 210, 22, 47]} \<and>
   (to_result (connect_tls w mode neg host) = Ok TlsStream \<longleftrightarrow>
      mode \<noteq> Disable \<and> host \<and> tw_handshake w = Ok () \<and> (mode = Prefer \<longrightarrow> tw_can_connect w \<and> neg = Postgres) \<and>
      (neg = Postgres \<longrightarrow> (\<exists>u. tw_write w = Ok u) \<and> tw_reply w = Ok 0x53))"
proof -
  have r: "to_result (tls_return x y z) = x" "to_sent (tls_return x y z) = y" for x y z
    by (simp_all add: tls_return_def)
  have "to_result (connect_tls w Require neg host) \<noteq> Ok RawStream"
    by (cases neg) (auto simp: connect_tls_def tls_handshake_def Let_def r split: rresult.splits)
  moreover have "connect_tls w Disable neg host = tls_return (Ok RawStream) [] False"
    by (simp add: connect_tls_def)
  moreover have "to_sent (connect_tls w mode neg host) \<in> {[], [0, 0, 0, 8, 4, 210, 22, 47]}"
    by (simp add: connect_tls_def tls_handshake_def Let_def r ssl_request_bytes split: rresult.splits)
  moreover have "to_result (connect_tls w mode neg host) = Ok TlsStream \<longleftrightarrow>
      mode \<noteq> Disable \<and> host \<and> tw_handshake w = Ok () \<and> (mode = Prefer \<longrightarrow> tw_can_connect w \<and> neg = Postgres) \<and>
      (neg = Postgres \<longrightarrow> (\<exists>u. tw_write w = Ok u) \<and> tw_reply w = Ok 0x53)"
    by (cases mode; cases neg; cases "tw_write w"; cases "tw_reply w")
       (auto simp: connect_tls_def tls_handshake_def Let_def r)
  ultimately show ?thesis by blast
qed

text \<open>
  A downgrade is only ever a choice of \<open>Prefer\<close>: a raw stream under another mode than
  \<open>Disable\<close> means that \<open>Prefer\<close> was asked for and that TLS is unavailable locally or refused by
  the server; an error of the handshake is never turned into a raw stream.
\<close>

theorem connect_tls_downgrade:
  "to_result (connect_tls w mode neg host) = Ok RawStream \<longleftrightarrow>
     mode = Disable \<or> mode = Prefer \<and>
       (\<not> tw_can_connect w \<or> neg = Postgres \<and> (\<exists>u. tw_write w = Ok u) \<and> (\<exists>b. tw_reply w = Ok b \<and> b \<noteq> 0x53))"
proof -
  have r: "to_result (tls_return x y z) = x" for x y z by (simp add: tls_return_def)
  show ?thesis
    by (cases mode; cases neg; cases "tw_write w"; cases "tw_reply w")
       (auto simp: connect_tls_def tls_handshake_def Let_def r)
qed

definition sample_tls_world :: tls_world where
  "sample_tls_world = \<lparr>tw_can_connect = True, tw_write = Ok (), tw_reply = Ok 0x4E, tw_handshake = Err ''refused''\<rparr>"

theorem connect_tls_policy_witness:
  "to_result (connect_tls sample_tls_world Require Postgres True) \<noteq> Ok RawStream \<and>
   to_sent (connect_tls sample_tls_world Prefer Postgres True) \<in> {[], [0, 0, 0, 8, 4, 210, 22, 47]}"
  using connect_tls_policy [of sample_tls_world Postgres True Prefer] by blast

theorem connect_tls_downgrade_witness:
  "to_result (connect_tls sample_tls_world Prefer Postgres True) = Ok RawStream"
  unfolding connect_tls_downgrade by (simp add: sample_tls_world_def)

end
