(* ===== verification/SqlTypes.thy ===== *)
theory SqlTypes
  imports Writers Utf8 Iterators
begin

text \<open>
  \<open>postgres-protocol/src/types/mod.rs\<close>: the binary format of the SQL values. Serializers are
  writers, deserializers take the value's bytes. A float is its bit pattern (\<open>put_f64\<close> writes
  the pattern); \<open>Box<dyn Error>\<close> is \<open>sql_error\<close>. \<open>split_at\<close> panics out of range,
  \<open>split_at_checked\<close> does not, and an \<open>i32\<close> decrement panics at the minimum.
\<close>

unbundle bit_operations_syntax

section \<open>Scalars\<close>

definition bool_to_sql :: "bool \<Rightarrow> (unit, sql_error) writer" where
  "bool_to_sql v = put (put_u8 (if v then 1 else 0))"

definition bool_from_sql :: "bytes \<Rightarrow> (bool, sql_error) rresult" where
  "bool_from_sql buf = (if length buf \<noteq> 1 then Err (Msg ''invalid buffer size'') else Ok (buf ! 0 \<noteq> 0))"

definition bytea_to_sql :: "bytes \<Rightarrow> (unit, sql_error) writer" where
  "bytea_to_sql v = put v"

definition bytea_from_sql :: "bytes \<Rightarrow> bytes" where
  "bytea_from_sql buf = buf"

definition text_to_sql :: "str \<Rightarrow> (unit, sql_error) writer" where
  "text_to_sql v = put (as_bytes v)"

definition text_from_sql :: "bytes \<Rightarrow> (str, sql_error) rresult" where
  "text_from_sql buf = map_err (\<lambda>_. Utf8Error) (from_utf8 buf)"

definition char_to_sql :: "i8 \<Rightarrow> (unit, sql_error) writer" where "char_to_sql v = put (put_i8 v)"
definition char_from_sql :: "bytes \<Rightarrow> (i8, sql_error) rresult" where
  "char_from_sql = whole_value read_i8 ''invalid buffer size''"

definition int2_to_sql :: "i16 \<Rightarrow> (unit, sql_error) writer" where "int2_to_sql v = put (put_i16 v)"
definition int2_from_sql :: "bytes \<Rightarrow> (i16, sql_error) rresult" where
  "int2_from_sql = whole_value read_i16 ''invalid buffer size''"

definition int4_to_sql :: "i32 \<Rightarrow> (unit, sql_error) writer" where "int4_to_sql v = put (put_i32 v)"
definition int4_from_sql :: "bytes \<Rightarrow> (i32, sql_error) rresult" where
  "int4_from_sql = whole_value read_i32 ''invalid buffer size''"

definition oid_to_sql :: "u32 \<Rightarrow> (unit, sql_error) writer" where "oid_to_sql v = put (put_u32 v)"
definition oid_from_sql :: "bytes \<Rightarrow> (u32, sql_error) rresult" where
  "oid_from_sql = whole_value read_u32 ''invalid buffer size''"

definition int8_to_sql :: "i64 \<Rightarrow> (unit, sql_error) writer" where "int8_to_sql v = put (put_i64 v)"
definition int8_from_sql :: "bytes \<Rightarrow> (i64, sql_error) rresult" where
  "int8_from_sql = whole_value read_i64 ''invalid buffer size''"

definition lsn_to_sql :: "u64 \<Rightarrow> (unit, sql_error) writer" where "lsn_to_sql v = put (put_u64 v)"
definition lsn_from_sql :: "bytes \<Rightarrow> (u64, sql_error) rresult" where
  "lsn_from_sql = whole_value read_u64 ''invalid buffer size''"

type_synonym f32 = u32
type_synonym f64 = u64

definition float4_to_sql :: "f32 \<Rightarrow> (unit, sql_error) writer" where "float4_to_sql v = put (put_u32 v)"
definition float4_from_sql :: "bytes \<Rightarrow> (f32, sql_error) rresult" where
  "float4_from_sql = whole_value read_u32 ''invalid buffer size''"

definition float8_to_sql :: "f64 \<Rightarrow> (unit, sql_error) writer" where "float8_to_sql v = put (put_u64 v)"
definition float8_from_sql :: "bytes \<Rightarrow> (f64, sql_error) rresult" where
  "float8_from_sql = whole_value read_u64 ''invalid buffer size''"

definition timestamp_to_sql :: "i64 \<Rightarrow> (unit, sql_error) writer" where "timestamp_to_sql v = put (put_i64 v)"
definition timestamp_from_sql :: "bytes \<Rightarrow> (i64, sql_error) rresult" where
  "timestamp_from_sql = whole_value read_i64 ''invalid message length: timestamp not drained''"

definition date_to_sql :: "i32 \<Rightarrow> (unit, sql_error) writer" where "date_to_sql v = put (put_i32 v)"
definition date_from_sql :: "bytes \<Rightarrow> (i32, sql_error) rresult" where
  "date_from_sql = whole_value read_i32 ''invalid message length: date not drained''"

definition time_to_sql :: "i64 \<Rightarrow> (unit, sql_error) writer" where "time_to_sql v = put (put_i64 v)"
definition time_from_sql :: "bytes \<Rightarrow> (i64, sql_error) rresult" where
  "time_from_sql = whole_value read_i64 ''invalid message length: time not drained''"

text \<open>\<open>[u8; 6]\<close> and \<open>[u8; 16]\<close> are byte lists; the length is part of the argument's type in Rust.\<close>

definition macaddr_to_sql :: "bytes \<Rightarrow> (unit, sql_error) writer" where "macaddr_to_sql v = put v"
definition macaddr_from_sql :: "bytes \<Rightarrow> (bytes, sql_error) rresult" where
  "macaddr_from_sql buf =
     (if length buf \<noteq> 6 then Err (Msg ''invalid message length: macaddr length mismatch'') else Ok buf)"

definition uuid_to_sql :: "bytes \<Rightarrow> (unit, sql_error) writer" where "uuid_to_sql v = put v"
definition uuid_from_sql :: "bytes \<Rightarrow> (bytes, sql_error) rresult" where
  "uuid_from_sql buf =
     (if length buf \<noteq> 16 then Err (Msg ''invalid message length: uuid size mismatch'') else Ok buf)"

section \<open>Readers with \<open>Box<dyn Error>\<close>\<close>

abbreviation sq :: "('a, io_error) rresult \<Rightarrow> ('a, sql_error) rresult" where
  "sq \<equiv> map_err Io"

definition split_at :: "nat \<Rightarrow> bytes \<Rightarrow> (bytes \<times> bytes, sql_error) rresult" where
  "split_at n b = (if n \<le> length b then Ok (take n b, drop n b) else Panic)"

definition split_at_checked :: "nat \<Rightarrow> bytes \<Rightarrow> (bytes \<times> bytes) option" where
  "split_at_checked n b = (if n \<le> length b then Some (take n b, drop n b) else None)"

text \<open>\<open>self.remaining -= 1\<close> on an \<open>i32\<close>.\<close>

definition i32_dec :: "i32 \<Rightarrow> (i32, 'e) rresult" where
  "i32_dec n = (if sint n = - 2147483648 then Panic else Ok (n - 1))"

section \<open>HSTORE\<close>

definition write_pascal_string :: "str \<Rightarrow> (unit, sql_error) writer" where
  "write_pascal_string s =
     wbind (wres (sq (i32_from_usize (length (as_bytes s))))) (\<lambda>size.
       wseq (put (put_i32 size)) (put (as_bytes s)))"

definition hstore_to_sql :: "(str \<times> str option) list \<Rightarrow> (unit, sql_error) writer" where
  "hstore_to_sql values buf =
     (let base = length buf in
      wseq (put (put_i32 0))
        (wseq (write_all (\<lambda>(key, value).
                 wseq (write_pascal_string key)
                   (case value of Some v \<Rightarrow> write_pascal_string v | None \<Rightarrow> put (put_i32 (- 1)))) values)
          (wbind (wres (sq (i32_from_usize (length values)))) (\<lambda>count. overwrite base (put_i32 count)))) buf)"

record hstore_entries =
  he_remaining :: i32
  he_buf :: bytes

definition hstore_from_sql :: "bytes \<Rightarrow> (hstore_entries, sql_error) rresult" where
  "hstore_from_sql buf =
     rbind (sq (read_i32 buf)) (\<lambda>(count :: i32, buf).
       if sint count < 0 then Err (Msg ''invalid entry count'')
       else Ok \<lparr>he_remaining = count, he_buf = buf\<rparr>)"

definition hstore_next :: "(hstore_entries, str \<times> str option, sql_error) next_fn" where
  "hstore_next s =
     (if he_remaining s = 0 then
        (if he_buf s \<noteq> [] then Err (Msg ''invalid buffer size'') else Ok (None, s))
      else
        rbind (i32_dec (he_remaining s)) (\<lambda>remaining.
        rbind (sq (read_i32 (he_buf s))) (\<lambda>(key_len :: i32, buf).
          if sint key_len < 0 then Err (Msg ''invalid key length'')
          else
            rbind (split_at (unat key_len) buf) (\<lambda>(key, buf).
            rbind (text_from_sql key) (\<lambda>key.
            rbind (sq (read_i32 buf)) (\<lambda>(value_len :: i32, buf).
              if sint value_len < 0 then Ok (Some (key, None), \<lparr>he_remaining = remaining, he_buf = buf\<rparr>)
              else
                rbind (split_at (unat value_len) buf) (\<lambda>(value, buf).
                rbind (text_from_sql value) (\<lambda>value.
                  Ok (Some (key, Some value), \<lparr>he_remaining = remaining, he_buf = buf\<rparr>)))))))))"

section \<open>VARBIT\<close>

definition varbit_to_sql :: "nat \<Rightarrow> bytes \<Rightarrow> (unit, sql_error) writer" where
  "varbit_to_sql len v =
     wbind (wres (sq (i32_from_usize len))) (\<lambda>len. wseq (put (put_i32 len)) (put v))"

record varbit =
  vb_len :: nat
  vb_bytes :: bytes

definition varbit_from_sql :: "bytes \<Rightarrow> (varbit, sql_error) rresult" where
  "varbit_from_sql buf =
     rbind (sq (read_i32 buf)) (\<lambda>(len :: i32, buf).
       if sint len < 0 then Err (Msg ''invalid varbit length: varbit < 0'')
       else if length buf \<noteq> (unat len + 7) div 8 then Err (Msg ''invalid message length: varbit mismatch'')
       else Ok \<lparr>vb_len = unat len, vb_bytes = buf\<rparr>)"

section \<open>Arrays\<close>

record array_dimension =
  ad_len :: i32
  ad_lower_bound :: i32

text \<open>One element: the closure notes in \<open>has_nulls\<close> that the serializer said \<open>NULL\<close>.\<close>

definition write_element ::
  "('t \<Rightarrow> (is_null, sql_error) writer) \<Rightarrow> 't \<Rightarrow> bool \<Rightarrow> (bool, sql_error) writer" where
  "write_element serializer element has_nulls buf =
     (case write_nullable Io (serializer element) buf of
        (Ok _, b) \<Rightarrow> (Ok (has_nulls \<or> fst (serializer element (buf @ put_i32 0)) = Ok Yes), b)
      | (Err e, b) \<Rightarrow> (Err e, b)
      | (Panic, b) \<Rightarrow> (Panic, b))"

primrec write_elements ::
  "('t \<Rightarrow> (is_null, sql_error) writer) \<Rightarrow> 't list \<Rightarrow> bool \<Rightarrow> (bool, sql_error) writer" where
  "write_elements serializer [] has_nulls = wok has_nulls"
| "write_elements serializer (x # xs) has_nulls =
     wbind (write_element serializer x has_nulls) (\<lambda>h. write_elements serializer xs h)"

definition array_to_sql ::
  "array_dimension list \<Rightarrow> u32 \<Rightarrow> 't list \<Rightarrow> ('t \<Rightarrow> (is_null, sql_error) writer) \<Rightarrow> (unit, sql_error) writer" where
  "array_to_sql dimensions element_type elements serializer buf =
     (let dimensions_idx = length buf; flags_idx = length buf + 4 in
      wseq (put (put_i32 0))
      (wseq (put (put_i32 0))
      (wseq (put (put_u32 element_type))
      (wseq (write_all (\<lambda>d. wseq (put (put_i32 (ad_len d))) (put (put_i32 (ad_lower_bound d)))) dimensions)
      (wbind (wres (sq (i32_from_usize (length dimensions)))) (\<lambda>num_dimensions.
      wseq (overwrite dimensions_idx (put_i32 num_dimensions))
      (wbind (write_elements serializer elements False) (\<lambda>has_nulls.
       overwrite flags_idx (put_i32 (if has_nulls then 1 else 0)))))))))  buf)"

record array =
  a_dimensions :: i32
  a_has_nulls :: bool
  a_element_type :: u32
  a_elements :: i32
  a_buf :: bytes

definition i32_checked_mul :: "i32 \<Rightarrow> i32 \<Rightarrow> i32 option" where
  "i32_checked_mul a b =
     (let p = sint a * sint b in
      if - 2147483648 \<le> p \<and> p \<le> 2147483647 then Some (a * b) else None)"

text \<open>The loop over the dimensions in \<open>array_from_sql\<close>.\<close>

fun scan_dimensions :: "nat \<Rightarrow> bytes \<Rightarrow> i32 \<Rightarrow> (i32, sql_error) rresult" where
  "scan_dimensions 0 r elements = Ok elements"
| "scan_dimensions (Suc n) r elements =
     rbind (sq (read_i32 r)) (\<lambda>(len :: i32, r).
       if sint len < 0 then Err (Msg ''invalid dimension size'')
       else
         rbind (sq (read_i32 r)) (\<lambda>(lower_bound :: i32, r).
           case i32_checked_mul elements len of
             Some elements \<Rightarrow> scan_dimensions n r elements
           | None \<Rightarrow> Err (Msg ''too many array elements'')))"

definition array_from_sql :: "bytes \<Rightarrow> (array, sql_error) rresult" where
  "array_from_sql buf =
     rbind (sq (read_i32 buf)) (\<lambda>(dimensions :: i32, buf).
       if sint dimensions < 0 then Err (Msg ''invalid dimension count'')
       else
         rbind (sq (read_i32 buf)) (\<lambda>(flags :: i32, buf).
         rbind (sq (read_u32 buf)) (\<lambda>(element_type, buf).
         rbind (scan_dimensions (unat dimensions) buf 1) (\<lambda>elements.
           Ok \<lparr>a_dimensions = dimensions, a_has_nulls = (flags \<noteq> 0), a_element_type = element_type,
               a_elements = (if dimensions = 0 then 0 else elements), a_buf = buf\<rparr>))))"

definition array_dimensions :: "array \<Rightarrow> (bytes, sql_error) rresult" where
  "array_dimensions a =
     (if unat (a_dimensions a) * 8 \<le> length (a_buf a) then Ok (take (unat (a_dimensions a) * 8) (a_buf a)) else Panic)"

record array_values =
  av_remaining :: i32
  av_buf :: bytes

definition array_values_of :: "array \<Rightarrow> (array_values, sql_error) rresult" where
  "array_values_of a =
     (if unat (a_dimensions a) * 8 \<le> length (a_buf a)
      then Ok \<lparr>av_remaining = a_elements a, av_buf = drop (unat (a_dimensions a) * 8) (a_buf a)\<rparr> else Panic)"

definition array_dimensions_next :: "(bytes, array_dimension, sql_error) next_fn" where
  "array_dimensions_next b =
     (if b = [] then Ok (None, b)
      else
        rbind (sq (read_i32 b)) (\<lambda>(len, b).
        rbind (sq (read_i32 b)) (\<lambda>(lower_bound, b).
          Ok (Some \<lparr>ad_len = len, ad_lower_bound = lower_bound\<rparr>, b))))"

definition array_values_next :: "(array_values, bytes option, sql_error) next_fn" where
  "array_values_next s =
     (if av_remaining s = 0 then
        (if av_buf s \<noteq> [] then Err (Msg ''invalid message length: arrayvalue not drained'') else Ok (None, s))
      else
        rbind (i32_dec (av_remaining s)) (\<lambda>remaining.
        rbind (sq (read_i32 (av_buf s))) (\<lambda>(len :: i32, buf).
          if sint len < 0 then Ok (Some None, \<lparr>av_remaining = remaining, av_buf = buf\<rparr>)
          else
            rbind (ok_or (split_at_checked (unat len) buf) (Msg ''invalid value length'')) (\<lambda>(val, buf).
              Ok (Some (Some val), \<lparr>av_remaining = remaining, av_buf = buf\<rparr>)))))"

section \<open>Ranges\<close>

abbreviation RANGE_UPPER_UNBOUNDED :: u8 where "RANGE_UPPER_UNBOUNDED \<equiv> 0x10"
abbreviation RANGE_LOWER_UNBOUNDED :: u8 where "RANGE_LOWER_UNBOUNDED \<equiv> 0x08"
abbreviation RANGE_UPPER_INCLUSIVE :: u8 where "RANGE_UPPER_INCLUSIVE \<equiv> 0x04"
abbreviation RANGE_LOWER_INCLUSIVE :: u8 where "RANGE_LOWER_INCLUSIVE \<equiv> 0x02"
abbreviation RANGE_EMPTY :: u8 where "RANGE_EMPTY \<equiv> 0x01"

datatype 'a range_bound = Inclusive 'a | Exclusive 'a | Unbounded

definition empty_range_to_sql :: "(unit, sql_error) writer" where
  "empty_range_to_sql = put (put_u8 RANGE_EMPTY)"

text \<open>The length field of a bound is kept for a bound and taken back with the rest for none.\<close>

definition write_bound ::
  "(is_null range_bound, sql_error) writer \<Rightarrow> (unit range_bound, sql_error) writer" where
  "write_bound bound buf =
     (let base = length buf in
      wseq (put (put_i32 0))
        (wbind bound (\<lambda>b.
           let (null, ret) = (case b of
                 Inclusive n \<Rightarrow> (Some n, Inclusive ())
               | Exclusive n \<Rightarrow> (Some n, Exclusive ())
               | Unbounded \<Rightarrow> (None, Unbounded)) in
           case null of
             Some n \<Rightarrow>
               wbind (case n of
                   No \<Rightarrow> with_len (\<lambda>len. rbind (usize_sub len (base + 4)) (\<lambda>k. sq (i32_from_usize k)))
                 | Yes \<Rightarrow> wok (- 1)) (\<lambda>len.
               wseq (overwrite base (put_i32 len)) (wok ret))
           | None \<Rightarrow> (\<lambda>buf. (Ok ret, take base buf)))) buf)"

definition bound_tag :: "unit range_bound \<Rightarrow> u8 \<Rightarrow> u8 \<Rightarrow> u8 \<Rightarrow> u8" where
  "bound_tag b inclusive unbounded tag =
     (case b of Inclusive _ \<Rightarrow> tag OR inclusive | Exclusive _ \<Rightarrow> tag | Unbounded \<Rightarrow> tag OR unbounded)"

definition range_to_sql ::
  "(is_null range_bound, sql_error) writer \<Rightarrow> (is_null range_bound, sql_error) writer \<Rightarrow> (unit, sql_error) writer" where
  "range_to_sql lower upper buf =
     (let tag_idx = length buf in
      wseq (put (put_u8 0))
        (wbind (write_bound lower) (\<lambda>l.
           let tag = bound_tag l RANGE_LOWER_INCLUSIVE RANGE_LOWER_UNBOUNDED 0 in
           wbind (write_bound upper) (\<lambda>u.
             let tag = bound_tag u RANGE_UPPER_INCLUSIVE RANGE_UPPER_UNBOUNDED tag in
             overwrite tag_idx [tag]))) buf)"

datatype sql_range = EmptyRange | Nonempty "bytes option range_bound" "bytes option range_bound"

definition read_bound :: "bytes \<Rightarrow> u8 \<Rightarrow> u8 \<Rightarrow> u8 \<Rightarrow> (bytes option range_bound \<times> bytes, sql_error) rresult" where
  "read_bound buf tag unbounded inclusive =
     (if tag AND unbounded \<noteq> 0 then Ok (Unbounded, buf)
      else
        rbind (sq (read_i32 buf)) (\<lambda>(len :: i32, buf).
        rbind (if sint len < 0 then Ok (None, buf)
               else map_ok (\<lambda>(v, tl). (Some v, tl))
                 (ok_or (split_at_checked (unat len) buf) (Msg ''invalid message size''))) (\<lambda>(value, buf).
          if tag AND inclusive \<noteq> 0 then Ok (Inclusive value, buf) else Ok (Exclusive value, buf))))"

definition range_from_sql :: "bytes \<Rightarrow> (sql_range, sql_error) rresult" where
  "range_from_sql buf =
     rbind (sq (read_u8 buf)) (\<lambda>(tag, buf).
       if tag = RANGE_EMPTY then
         (if buf \<noteq> [] then Err (Msg ''invalid message size'') else Ok EmptyRange)
       else
         rbind (read_bound buf tag RANGE_LOWER_UNBOUNDED RANGE_LOWER_INCLUSIVE) (\<lambda>(lower, buf).
         rbind (read_bound buf tag RANGE_UPPER_UNBOUNDED RANGE_UPPER_INCLUSIVE) (\<lambda>(upper, buf).
           if buf \<noteq> [] then Err (Msg ''invalid message size'') else Ok (Nonempty lower upper))))"

section \<open>Geometry\<close>

record point =
  pt_x :: f64
  pt_y :: f64

definition point_to_sql :: "f64 \<Rightarrow> f64 \<Rightarrow> (unit, sql_error) writer" where
  "point_to_sql x y = wseq (put (put_u64 x)) (put (put_u64 y))"

definition point_from_sql :: "bytes \<Rightarrow> (point, sql_error) rresult" where
  "point_from_sql buf =
     rbind (sq (read_u64 buf)) (\<lambda>(x, buf).
     rbind (sq (read_u64 buf)) (\<lambda>(y, buf).
       if buf \<noteq> [] then Err (Msg ''invalid buffer size'') else Ok \<lparr>pt_x = x, pt_y = y\<rparr>))"

record pg_box =
  bx_upper_right :: point
  bx_lower_left :: point

definition box_to_sql :: "f64 \<Rightarrow> f64 \<Rightarrow> f64 \<Rightarrow> f64 \<Rightarrow> (unit, sql_error) writer" where
  "box_to_sql x1 y1 x2 y2 =
     wseq (put (put_u64 x1)) (wseq (put (put_u64 y1)) (wseq (put (put_u64 x2)) (put (put_u64 y2))))"

definition box_from_sql :: "bytes \<Rightarrow> (pg_box, sql_error) rresult" where
  "box_from_sql buf =
     rbind (sq (read_u64 buf)) (\<lambda>(x1, buf).
     rbind (sq (read_u64 buf)) (\<lambda>(y1, buf).
     rbind (sq (read_u64 buf)) (\<lambda>(x2, buf).
     rbind (sq (read_u64 buf)) (\<lambda>(y2, buf).
       if buf \<noteq> [] then Err (Msg ''invalid buffer size'')
       else Ok \<lparr>bx_upper_right = \<lparr>pt_x = x1, pt_y = y1\<rparr>, bx_lower_left = \<lparr>pt_x = x2, pt_y = y2\<rparr>\<rparr>))))"

definition path_to_sql :: "bool \<Rightarrow> (f64 \<times> f64) list \<Rightarrow> (unit, sql_error) writer" where
  "path_to_sql closed points =
     wseq (put (put_u8 (if closed then 1 else 0)))
       (\<lambda>buf. let points_idx = length buf in
          wseq (put (put_i32 0))
            (wseq (write_all (\<lambda>(x, y). wseq (put (put_u64 x)) (put (put_u64 y))) points)
              (wbind (wres (sq (i32_from_usize (length points)))) (\<lambda>num_points.
                 overwrite points_idx (put_i32 num_points)))) buf)"

record path =
  pa_closed :: bool
  pa_points :: i32
  pa_buf :: bytes

definition path_from_sql :: "bytes \<Rightarrow> (path, sql_error) rresult" where
  "path_from_sql buf =
     rbind (sq (read_u8 buf)) (\<lambda>(closed, buf).
     rbind (sq (read_i32 buf)) (\<lambda>(points, buf).
       Ok \<lparr>pa_closed = (closed \<noteq> 0), pa_points = points, pa_buf = buf\<rparr>))"

record path_points =
  pp_remaining :: i32
  pp_buf :: bytes

definition path_points_of :: "path \<Rightarrow> path_points" where
  "path_points_of p = \<lparr>pp_remaining = pa_points p, pp_buf = pa_buf p\<rparr>"

definition path_points_next :: "(path_points, point, sql_error) next_fn" where
  "path_points_next s =
     (if pp_remaining s = 0 then
        (if pp_buf s \<noteq> [] then Err (Msg ''invalid message length: path points not drained'') else Ok (None, s))
      else
        rbind (i32_dec (pp_remaining s)) (\<lambda>remaining.
        rbind (sq (read_u64 (pp_buf s))) (\<lambda>(x, buf).
        rbind (sq (read_u64 buf)) (\<lambda>(y, buf).
          Ok (Some \<lparr>pt_x = x, pt_y = y\<rparr>, \<lparr>pp_remaining = remaining, pp_buf = buf\<rparr>)))))"

section \<open>Network addresses\<close>

abbreviation PGSQL_AF_INET :: u8 where "PGSQL_AF_INET \<equiv> 2"
abbreviation PGSQL_AF_INET6 :: u8 where "PGSQL_AF_INET6 \<equiv> 3"

text \<open>The octets of an address: four or sixteen bytes.\<close>

datatype ip_addr = V4 bytes | V6 bytes

definition inet_to_sql :: "ip_addr \<Rightarrow> u8 \<Rightarrow> (unit, sql_error) writer" where
  "inet_to_sql addr netmask =
     wseq (put (put_u8 (case addr of V4 _ \<Rightarrow> PGSQL_AF_INET | V6 _ \<Rightarrow> PGSQL_AF_INET6)))
     (wseq (put (put_u8 netmask))
     (wseq (put (put_u8 0))
       (case addr of
          V4 a \<Rightarrow> wseq (put (put_u8 4)) (put a)
        | V6 a \<Rightarrow> wseq (put (put_u8 16)) (put a))))"

record inet =
  in_addr :: ip_addr
  in_netmask :: u8

definition inet_from_sql :: "bytes \<Rightarrow> (inet, sql_error) rresult" where
  "inet_from_sql buf =
     rbind (sq (read_u8 buf)) (\<lambda>(family, buf).
     rbind (sq (read_u8 buf)) (\<lambda>(netmask, buf).
     rbind (sq (read_u8 buf)) (\<lambda>(is_cidr, buf).
     rbind (sq (read_u8 buf)) (\<lambda>(len, buf).
     rbind (if family = PGSQL_AF_INET then
              (if netmask > 32 then Err (Msg ''invalid IPv4 netmask'')
               else if len \<noteq> 4 then Err (Msg ''invalid IPv4 address length'')
               else map_ok (\<lambda>(a, r). (V4 a, r)) (sq (read_exact 4 buf)))
            else if family = PGSQL_AF_INET6 then
              (if netmask > 128 then Err (Msg ''invalid IPv6 netmask'')
               else if len \<noteq> 16 then Err (Msg ''invalid IPv6 address length'')
               else map_ok (\<lambda>(a, r). (V6 a, r)) (sq (read_exact 16 buf)))
            else Err (Msg ''invalid IP family'')) (\<lambda>(addr, buf).
       if buf \<noteq> [] then Err (Msg ''invalid buffer size'')
       else Ok \<lparr>in_addr = addr, in_netmask = netmask\<rparr>)))))"

section \<open>Label trees\<close>

definition ltree_to_sql :: "str \<Rightarrow> (unit, sql_error) writer" where
  "ltree_to_sql v = wseq (put (put_u8 1)) (put (as_bytes v))"

definition ltree_from_sql :: "bytes \<Rightarrow> (str, sql_error) rresult" where
  "ltree_from_sql buf =
     (case buf of
        b # rest \<Rightarrow> if b = 1 then text_from_sql rest else Err (Msg ''ltree version 1 only supported'')
      | [] \<Rightarrow> Err (Msg ''ltree version 1 only supported''))"

definition lquery_to_sql :: "str \<Rightarrow> (unit, sql_error) writer" where
  "lquery_to_sql v = wseq (put (put_u8 1)) (put (as_bytes v))"

definition lquery_from_sql :: "bytes \<Rightarrow> (str, sql_error) rresult" where
  "lquery_from_sql buf =
     (case buf of
        b # rest \<Rightarrow> if b = 1 then text_from_sql rest else Err (Msg ''lquery version 1 only supported'')
      | [] \<Rightarrow> Err (Msg ''lquery version 1 only supported''))"

definition ltxtquery_to_sql :: "str \<Rightarrow> (unit, sql_error) writer" where
  "ltxtquery_to_sql v = wseq (put (put_u8 1)) (put (as_bytes v))"

definition ltxtquery_from_sql :: "bytes \<Rightarrow> (str, sql_error) rresult" where
  "ltxtquery_from_sql buf =
     (case buf of
        b # rest \<Rightarrow> if b = 1 then text_from_sql rest else Err (Msg ''ltxtquery version 1 only supported'')
      | [] \<Rightarrow> Err (Msg ''ltxtquery version 1 only supported''))"

end
