(* ===== verification/SqlTypesSpec.thy ===== *)
theory SqlTypesSpec
  imports SqlTypes FrontendSpec
begin

text \<open>
  The SQL value formats: every decoder returns what its encoder wrote, the fixed-width ones
  accept nothing else, and the decoders of arrays, ranges and addresses reject malformed input
  without panicking; where one does panic, that is stated too.
\<close>

section \<open>Patched length fields\<close>

lemma denotes_patched:
  assumes "denotes f r" and "\<And>n. length (enc n) = length hole"
  shows "denotes (\<lambda>buf. wseq (put hole) (wseq f (wbind (wres cnt) (\<lambda>n. overwrite (length buf) (enc n)))) buf)
    (rbind r (\<lambda>ext. map_ok (\<lambda>n. enc n @ ext) cnt))"
proof (rule denotesI)
  fix buf
  have o: "outcome r (buf @ hole) (f (buf @ hole))" using assms(1) by (rule denotesD)
  show "outcome (rbind r (\<lambda>ext. map_ok (\<lambda>n. enc n @ ext) cnt)) buf
      (wseq (put hole) (wseq f (wbind (wres cnt) (\<lambda>n. overwrite (length buf) (enc n)))) buf)"
  proof (cases r)
    case (Ok ext)
    with o have "f (buf @ hole) = (Ok (), buf @ hole @ ext)" by (simp add: outcome_def)
    then show ?thesis
      using Ok overwrite_hole [OF assms(2), where buf = buf and ext = ext]
      by (cases cnt) (auto simp: outcome_def wseq_def wbind_def put_def wres_def)
  qed (use o in \<open>auto simp: outcome_def wseq_def wbind_def put_def\<close>)
qed

lemma iconcat_map_Ok: "iconcat (map (\<lambda>x. if P x then Ok (f x) else Err e) xs) = Ok b \<longleftrightarrow>
    list_all P xs \<and> b = concat (map f xs)"
  by (induction xs arbitrary: b) (auto simp: icat_eq_Ok)

lemma i32_from_usize_eq_Ok: "i32_from_usize n = Ok k \<longleftrightarrow> n \<le> 2147483647 \<and> k = of_nat n"
  by (auto simp: i32_from_usize_def)

lemma i32_len_signed:
  assumes "n \<le> 2147483647"
  shows "sint (of_nat n :: i32) = int n" and "unat (of_nat n :: i32) = n"
proof -
  have "sint (of_nat n :: i32) = signed_take_bit 31 (int n)" by (simp add: signed_of_nat)
  also have "\<dots> = int n" using assms by (simp add: signed_take_bit_int_eq_self)
  finally show "sint (of_nat n :: i32) = int n" .
  show "unat (of_nat n :: i32) = n" using assms by (simp add: unat_of_nat)
qed

lemma i32_count_step:
  assumes "Suc n \<le> 2147483647"
  shows "(of_nat (Suc n) :: i32) \<noteq> 0" and "i32_dec (of_nat (Suc n)) = Ok (of_nat n)"
proof -
  have "unat (of_nat (Suc n) :: i32) = Suc n" using assms by (rule i32_len_signed)
  then show "(of_nat (Suc n) :: i32) \<noteq> 0" by (metis nat.distinct(1) unat_0)
  have "sint (of_nat (Suc n) :: i32) = int (Suc n)" using assms by (rule i32_len_signed)
  then show "i32_dec (of_nat (Suc n)) = Ok (of_nat n)" by (simp add: i32_dec_def)
qed

section \<open>Fixed-width values\<close>

text \<open>
  The fixed-width values: a buffer decodes to a value exactly when it is what the encoder
  writes for that value, for every integer, date, time, float and identifier type.
\<close>

theorem fixed_width_exact:
  "(char_from_sql b = Ok v8 \<longleftrightarrow> char_to_sql v8 [] = (Ok (), b)) \<and>
   (int2_from_sql b = Ok v16 \<longleftrightarrow> int2_to_sql v16 [] = (Ok (), b)) \<and>
   (int4_from_sql b = Ok v32 \<longleftrightarrow> int4_to_sql v32 [] = (Ok (), b)) \<and>
   (oid_from_sql b = Ok v32 \<longleftrightarrow> oid_to_sql v32 [] = (Ok (), b)) \<and>
   (float4_from_sql b = Ok v32 \<longleftrightarrow> float4_to_sql v32 [] = (Ok (), b)) \<and>
   (date_from_sql b = Ok v32 \<longleftrightarrow> date_to_sql v32 [] = (Ok (), b)) \<and>
   (int8_from_sql b = Ok v64 \<longleftrightarrow> int8_to_sql v64 [] = (Ok (), b)) \<and>
   (lsn_from_sql b = Ok v64 \<longleftrightarrow> lsn_to_sql v64 [] = (Ok (), b)) \<and>
   (float8_from_sql b = Ok v64 \<longleftrightarrow> float8_to_sql v64 [] = (Ok (), b)) \<and>
   (timestamp_from_sql b = Ok v64 \<longleftrightarrow> timestamp_to_sql v64 [] = (Ok (), b)) \<and>
   (time_from_sql b = Ok v64 \<longleftrightarrow> time_to_sql v64 [] = (Ok (), b))"
  unfolding char_from_sql_def int2_from_sql_def int4_from_sql_def oid_from_sql_def float4_from_sql_def
    date_from_sql_def int8_from_sql_def lsn_from_sql_def float8_from_sql_def timestamp_from_sql_def
    time_from_sql_def char_to_sql_def int2_to_sql_def int4_to_sql_def oid_to_sql_def float4_to_sql_def
    date_to_sql_def int8_to_sql_def lsn_to_sql_def float8_to_sql_def timestamp_to_sql_def time_to_sql_def
  by (auto simp: u8c.whole_iff u16c.whole_iff u32c.whole_iff u64c.whole_iff put_def)

text \<open>The error of a fixed-width decoder, by the length of the value.\<close>

lemma int8_from_sql_cases:
  "int8_from_sql b =
     (if length b < 8 then Err (Io eof_error)
      else if length b = 8 then Ok (of_nat (be_val b)) else Err (Msg ''invalid buffer size''))"
  unfolding int8_from_sql_def by (rule whole_value_word)

lemma bool_roundtrip: "bool_to_sql v [] = (Ok (), b) \<Longrightarrow> bool_from_sql b = Ok v"
  by (cases v) (auto simp: bool_to_sql_def put_def bool_from_sql_def)

lemma text_from_sql_iff: "text_from_sql b = Ok s \<longleftrightarrow> utf8_valid b \<and> s = of_bytes b"
  by (simp add: text_from_sql_def from_utf8_iff)

lemma text_from_as_bytes: "utf8_valid (as_bytes s) \<Longrightarrow> text_from_sql (as_bytes s) = Ok s"
  by (simp add: text_from_sql_iff)

lemma text_from_sql_not_Panic [simp]: "text_from_sql b \<noteq> Panic"
  by (simp add: text_from_sql_def)

section \<open>HSTORE\<close>

definition pascal :: "str \<Rightarrow> bytes" where
  "pascal s = put_i32 (of_nat (length s)) @ as_bytes s"

definition hstore_entry_bytes :: "str \<times> str option \<Rightarrow> bytes" where
  "hstore_entry_bytes e = pascal (fst e) @ (case snd e of Some v \<Rightarrow> pascal v | None \<Rightarrow> put_i32 (- 1))"

definition hstore_entry_fits :: "str \<times> str option \<Rightarrow> bool" where
  "hstore_entry_fits e \<longleftrightarrow> length (fst e) \<le> 2147483647 \<and> (case snd e of Some v \<Rightarrow> length v \<le> 2147483647 | None \<Rightarrow> True)"

definition hstore_entry_utf8 :: "str \<times> str option \<Rightarrow> bool" where
  "hstore_entry_utf8 e \<longleftrightarrow> utf8_valid (as_bytes (fst e)) \<and> (case snd e of Some v \<Rightarrow> utf8_valid (as_bytes v) | None \<Rightarrow> True)"

lemma pascal_denotes [appends_intros]:
  "denotes (write_pascal_string s) (if length s \<le> 2147483647 then Ok (pascal s) else Err (Io too_large))"
  by (auto simp: denotes_def outcome_def write_pascal_string_def writer_defs i32_from_usize_def pascal_def)

lemma hstore_entry_denotes:
  "denotes (case e of (key, value) \<Rightarrow>
      wseq (write_pascal_string key) (case value of Some v \<Rightarrow> write_pascal_string v | None \<Rightarrow> put (put_i32 (- 1))))
    (if hstore_entry_fits e then Ok (hstore_entry_bytes e) else Err (Io too_large))"
proof -
  obtain k v where e: "e = (k, v)" by fastforce
  have "denotes (case v of Some v \<Rightarrow> write_pascal_string v | None \<Rightarrow> put (put_i32 (- 1)))
     (case v of Some v \<Rightarrow> (if length v \<le> 2147483647 then Ok (pascal v) else Err (Io too_large)) | None \<Rightarrow> Ok (put_i32 (- 1)))"
    by (cases v) (simp_all add: pascal_denotes denotes_put del: if_split)
  note d = denotes_wseq [OF pascal_denotes [of k] this]
  have "icat (if length k \<le> 2147483647 then Ok (pascal k) else Err (Io too_large))
      (case v of Some v \<Rightarrow> (if length v \<le> 2147483647 then Ok (pascal v) else Err (Io too_large)) | None \<Rightarrow> Ok (put_i32 (- 1))) =
    (if hstore_entry_fits e then Ok (hstore_entry_bytes e) else Err (Io too_large))"
    by (auto simp: e hstore_entry_fits_def hstore_entry_bytes_def split: option.splits)
  with d show ?thesis by (simp add: e)
qed

lemma hstore_to_sql_Ok:
  assumes "hstore_to_sql es buf = (Ok (), out)"
  shows "list_all hstore_entry_fits es \<and> length es \<le> 2147483647 \<and>
    out = buf @ put_i32 (of_nat (length es)) @ concat (map hstore_entry_bytes es)"
proof -
  have "denotes (hstore_to_sql es)
     (rbind (iconcat (map (\<lambda>e. if hstore_entry_fits e then Ok (hstore_entry_bytes e) else Err (Io too_large)) es))
        (\<lambda>ext. map_ok (\<lambda>n. put_i32 n @ ext) (sq (i32_from_usize (length es)))))"
    unfolding hstore_to_sql_def Let_def
    by (rule denotes_patched, rule denotes_write_all, rule hstore_entry_denotes) simp
  from denotes_Ok_out [OF this assms] show ?thesis
    by (auto simp: iconcat_map_Ok i32_from_usize_eq_Ok)
qed

lemma hstore_size_decreases: "hstore_next s = Ok (Some x, s') \<Longrightarrow> length (he_buf s') < length (he_buf s)"
  by (auto simp: hstore_next_def split_at_def dest!: u32c.get_decreases split: if_splits)

interpretation hstore_it: fallible_iter "\<lambda>s. length (he_buf s)" hstore_next
  by unfold_locales (rule hstore_size_decreases)

lemma read_pascal:
  assumes "length s \<le> 2147483647"
  shows "read_i32 (pascal s @ r) = Ok (of_nat (length s), as_bytes s @ r)"
  by (simp add: pascal_def reader_simps)

lemma hstore_next_entry:
  assumes "hstore_entry_fits e" "hstore_entry_utf8 e" "Suc n \<le> 2147483647"
  shows "hstore_next \<lparr>he_remaining = of_nat (Suc n), he_buf = hstore_entry_bytes e @ r\<rparr> =
    Ok (Some e, \<lparr>he_remaining = of_nat n, he_buf = r\<rparr>)"
proof -
  obtain k v where e: "e = (k, v)" by fastforce
  note step = i32_count_step [OF assms(3)]
  show ?thesis
  proof (cases v)
    case None
    then show ?thesis
      using assms(1,2) step
      by (simp add: e hstore_next_def hstore_entry_bytes_def hstore_entry_fits_def hstore_entry_utf8_def
          read_pascal i32_len_signed split_at_def text_from_as_bytes reader_simps del: of_nat_Suc)
  next
    case (Some w)
    then show ?thesis
      using assms(1,2) step
      by (simp add: e hstore_next_def hstore_entry_bytes_def hstore_entry_fits_def hstore_entry_utf8_def
          read_pascal i32_len_signed split_at_def text_from_as_bytes reader_simps del: of_nat_Suc)
  qed
qed

lemma hstore_collect:
  "list_all hstore_entry_fits es \<Longrightarrow> list_all hstore_entry_utf8 es \<Longrightarrow> length es \<le> 2147483647 \<Longrightarrow>
     collect (\<lambda>s. length (he_buf s)) hstore_next
       \<lparr>he_remaining = of_nat (length es), he_buf = concat (map hstore_entry_bytes es)\<rparr> = Ok es"
proof (induction es)
  case Nil
  have "hstore_next \<lparr>he_remaining = 0, he_buf = []\<rparr> = Ok (None, \<lparr>he_remaining = 0, he_buf = []\<rparr>)"
    by (simp add: hstore_next_def)
  then show ?case by (simp add: hstore_it.collect_end)
next
  case (Cons e es)
  have "hstore_next \<lparr>he_remaining = of_nat (Suc (length es)), he_buf = hstore_entry_bytes e @ concat (map hstore_entry_bytes es)\<rparr> =
      Ok (Some e, \<lparr>he_remaining = of_nat (length es), he_buf = concat (map hstore_entry_bytes es)\<rparr>)"
    using Cons.prems by (intro hstore_next_entry) simp_all
  from hstore_it.collect_item [OF this] Cons show ?case by simp
qed

text \<open>
  HSTORE: whatever \<open>hstore_to_sql\<close> writes, \<open>hstore_from_sql\<close> reads back as the same entries
  in the same order, \<open>NULL\<close> values included.
\<close>

theorem hstore_roundtrip:
  assumes "hstore_to_sql es [] = (Ok (), b)" and "list_all hstore_entry_utf8 es"
  shows "\<exists>it. hstore_from_sql b = Ok it \<and> collect (\<lambda>s. length (he_buf s)) hstore_next it = Ok es"
proof -
  from hstore_to_sql_Ok [OF assms(1)] have w: "list_all hstore_entry_fits es" "length es \<le> 2147483647"
    "b = put_i32 (of_nat (length es)) @ concat (map hstore_entry_bytes es)" by simp_all
  have "hstore_from_sql b = Ok \<lparr>he_remaining = of_nat (length es), he_buf = concat (map hstore_entry_bytes es)\<rparr>"
    by (simp add: hstore_from_sql_def w(3) reader_simps i32_len_signed [OF w(2)])
  with hstore_collect [OF w(1) assms(2) w(2)] show ?thesis by blast
qed

text \<open>
  A server can make the HSTORE iterator panic: a key or value length beyond the end of the
  buffer reaches the unchecked \<open>split_at\<close>, where the array and range decoders return an error.
\<close>

theorem hstore_truncated_panics:
  "hstore_from_sql (put_i32 1 @ put_i32 5 @ [0x61]) = Ok \<lparr>he_remaining = 1, he_buf = put_i32 5 @ [0x61]\<rparr> \<and>
   hstore_next \<lparr>he_remaining = 1, he_buf = put_i32 5 @ [0x61]\<rparr> = Panic"
  by (simp add: hstore_from_sql_def hstore_next_def reader_simps i32_dec_def split_at_def)

theorem hstore_roundtrip_witness:
  "\<exists>b it. hstore_to_sql [(''k'', Some ''v''), (''n'', None)] [] = (Ok (), b) \<and> hstore_from_sql b = Ok it \<and>
     collect (\<lambda>s. length (he_buf s)) hstore_next it = Ok [(''k'', Some ''v''), (''n'', None)]"
proof -
  let ?es = "[(''k'', Some ''v''), (''n'', None)]"
  have "fst (hstore_to_sql ?es []) = Ok ()"
    by (simp add: hstore_to_sql_def write_pascal_string_def writer_defs i32_from_usize_def write_at_def)
  then obtain b where b: "hstore_to_sql ?es [] = (Ok (), b)" by (metis prod.collapse)
  moreover have "list_all hstore_entry_utf8 ?es" by (simp add: hstore_entry_utf8_def)
  ultimately show ?thesis using hstore_roundtrip by blast
qed

section \<open>Arrays\<close>

definition dimension_bytes :: "array_dimension \<Rightarrow> bytes" where
  "dimension_bytes d = put_i32 (ad_len d) @ put_i32 (ad_lower_bound d)"

definition array_bytes :: "array_dimension list \<Rightarrow> u32 \<Rightarrow> bytes option list \<Rightarrow> bytes" where
  "array_bytes ds ty vs =
     put_i32 (of_nat (length ds)) @ put_i32 (if None \<in> set vs then 1 else 0) @ put_u32 ty @
     concat (map dimension_bytes ds) @ concat (map value_bytes vs)"

text \<open>
  What an element serializer is asked for: on success it has appended the bytes of a value for
  which \<open>Q\<close> holds, or has written nothing and reported \<open>NULL\<close>.
\<close>

definition appends :: "(is_null, 'e) writer \<Rightarrow> (bytes option \<Rightarrow> bool) \<Rightarrow> bool" where
  "appends w Q \<longleftrightarrow> (\<forall>buf n out. w buf = (Ok n, out) \<longrightarrow>
     (case n of No \<Rightarrow> \<exists>b. out = buf @ b \<and> Q (Some b) | Yes \<Rightarrow> out = buf \<and> Q None))"

lemma appends_No: "appends w Q \<Longrightarrow> w buf = (Ok No, out) \<Longrightarrow> \<exists>b. out = buf @ b \<and> Q (Some b)"
  by (fastforce simp: appends_def split: is_null.splits)

lemma appends_Yes: "appends w Q \<Longrightarrow> w buf = (Ok Yes, out) \<Longrightarrow> out = buf \<and> Q None"
  by (fastforce simp: appends_def split: is_null.splits)

lemma vdenotes_appends: "vdenotes w r \<Longrightarrow> appends w (\<lambda>v. r = Ok v)"
  unfolding appends_def
proof (intro allI impI)
  fix buf n out
  assume v: "vdenotes w r" and w: "w buf = (Ok n, out)"
  show "case n of Yes \<Rightarrow> out = buf \<and> r = Ok None | No \<Rightarrow> \<exists>b. out = buf @ b \<and> r = Ok (Some b)"
  proof (cases r)
    case (Ok x)
    from v w show ?thesis unfolding Ok by (cases x) (auto simp: vdenotes_def dest!: spec [of _ buf])
  next
    case (Err e)
    from v w show ?thesis unfolding Err by (auto simp: vdenotes_def dest!: spec [of _ buf])
  next
    case Panic
    from v w show ?thesis unfolding Panic by (auto simp: vdenotes_def dest!: spec [of _ buf])
  qed
qed

lemma write_nullable_Ok:
  assumes "appends w Q" and "write_nullable from_io w buf = (Ok u, b)"
  shows "\<exists>v. Q v \<and> value_fits v \<and> b = buf @ value_bytes v \<and> (v = None \<longleftrightarrow> fst (w (buf @ put_i32 0)) = Ok Yes)"
proof -
  let ?b = "buf @ put_i32 0"
  obtain r b1 where w: "w ?b = (r, b1)" by fastforce
  show ?thesis
  proof (cases r)
    case (Ok n)
    show ?thesis
    proof (cases n)
      case Yes
      then have q: "b1 = ?b" "Q None" using appends_Yes [OF assms(1)] w Ok by blast+
      have "b = buf @ put_i32 (- 1)"
        using assms(2) w Ok Yes q(1)
        by (simp add: write_nullable_def wseq_def wbind_def put_def wok_def
            overwrite_hole [of "put_i32 (- 1)" "put_i32 0" buf "[]", simplified])
      with q w Ok Yes show ?thesis by (intro exI [of _ None]) (simp add: value_fits_def value_bytes_def)
    next
      case No
      then obtain ext where q: "b1 = ?b @ ext" "Q (Some ext)" using appends_No [OF assms(1)] w Ok by blast
      have "length ext \<le> 2147483647 \<and> b = buf @ put_i32 (of_nat (length ext)) @ ext"
        using assms(2) w Ok No q(1)
        by (auto simp: write_nullable_def wseq_def wbind_def put_def with_len_def usize_sub_def i32_from_usize_def
            overwrite_hole [of "put_i32 (of_nat (length ext))" "put_i32 0" buf ext, simplified] split: if_splits)
      with q w Ok No show ?thesis by (intro exI [of _ "Some ext"]) (simp add: value_fits_def value_bytes_def)
    qed
  qed (use assms(2) w in \<open>auto simp: write_nullable_def wseq_def wbind_def put_def\<close>)
qed

lemma write_elements_list:
  assumes "\<And>x. x \<in> set xs \<Longrightarrow> appends (ser x) (Q x)"
  shows "write_elements ser xs h buf = (Ok h', out) \<Longrightarrow>
    \<exists>vs. list_all2 Q xs vs \<and> list_all value_fits vs \<and> out = buf @ concat (map value_bytes vs) \<and>
      (h' \<longleftrightarrow> h \<or> None \<in> set vs)"
  using assms
proof (induction xs arbitrary: h buf)
  case Nil
  then show ?case by (simp add: wok_def)
next
  case (Cons x xs)
  from Cons.prems(1) obtain b h1 where e: "write_element ser x h buf = (Ok h1, b)"
      and rest: "write_elements ser xs h1 b = (Ok h', out)"
    by (auto simp: wbind_def split: prod.splits rresult.splits)
  from e obtain u where n: "write_nullable Io (ser x) buf = (Ok u, b)"
      and h1: "h1 \<longleftrightarrow> h \<or> fst (ser x (buf @ put_i32 0)) = Ok Yes"
    by (auto simp: write_element_def split: prod.splits rresult.splits)
  have "appends (ser x) (Q x)" using Cons.prems(2) by simp
  from write_nullable_Ok [OF this n] obtain v where v: "Q x v" "value_fits v" "b = buf @ value_bytes v"
    "v = None \<longleftrightarrow> fst (ser x (buf @ put_i32 0)) = Ok Yes" by blast
  from Cons.IH [OF rest] Cons.prems(2) obtain vs where vs: "list_all2 Q xs vs" "list_all value_fits vs"
    "out = b @ concat (map value_bytes vs)" "h' \<longleftrightarrow> h1 \<or> None \<in> set vs" by auto
  show ?case
    using v vs h1 by (intro exI [of _ "v # vs"]) auto
qed

lemma dimensions_denotes:
  "denotes (write_all (\<lambda>d. wseq (put (put_i32 (ad_len d))) (put (put_i32 (ad_lower_bound d)))) ds)
     (Ok (concat (map dimension_bytes ds)))"
proof -
  have "denotes (wseq (put (put_i32 (ad_len d))) (put (put_i32 (ad_lower_bound d)))) (Ok (dimension_bytes d))" for d
    using denotes_wseq [OF denotes_put denotes_put] by (simp add: dimension_bytes_def)
  then have "denotes (write_all (\<lambda>d. wseq (put (put_i32 (ad_len d))) (put (put_i32 (ad_lower_bound d)))) ds)
     (iconcat (map (\<lambda>d. Ok (dimension_bytes d)) ds))" by (rule denotes_write_all)
  then show ?thesis by (simp add: iconcat_Ok)
qed

lemma array_to_sql_list:
  assumes "\<And>x. x \<in> set xs \<Longrightarrow> appends (ser x) (Q x)" and "array_to_sql ds ty xs ser buf = (Ok (), out)"
  shows "\<exists>vs. list_all2 Q xs vs \<and> list_all value_fits vs \<and> length ds \<le> 2147483647 \<and> out = buf @ array_bytes ds ty vs"
proof -
  let ?D = "concat (map dimension_bytes ds)"
  let ?n = "of_nat (length ds) :: i32"
  let ?dims = "write_all (\<lambda>d. wseq (put (put_i32 (ad_len d))) (put (put_i32 (ad_lower_bound d)))) ds
    :: (unit, sql_error) writer"
  have dims: "?dims b = (Ok (), b @ ?D)" for b
    by (rule denotes_run) (rule dimensions_denotes)
  have fix1: "overwrite (length buf) (put_i32 ?n) (((buf @ put_i32 0) @ put_i32 0) @ put_u32 ty @ ?D) =
      ((Ok (), buf @ put_i32 ?n @ put_i32 0 @ put_u32 ty @ ?D) :: (unit, sql_error) rresult \<times> bytes)"
    using overwrite_hole [of "put_i32 ?n" "put_i32 0" buf "put_i32 0 @ put_u32 ty @ ?D"] by simp
  have len: "length ds \<le> 2147483647" and run:
    "(case write_elements ser xs False (buf @ put_i32 ?n @ put_i32 0 @ put_u32 ty @ ?D) of
        (Ok h, b) \<Rightarrow> overwrite (length buf + 4) (put_i32 (if h then 1 else 0)) b
      | (Err e, b) \<Rightarrow> (Err e, b) | (Panic, b) \<Rightarrow> (Panic, b)) = (Ok (), out)"
    using assms(2) dims fix1
    by (auto simp: array_to_sql_def Let_def wseq_def wbind_def put_def wres_def i32_from_usize_def split: if_splits)
  then obtain h b where e: "write_elements ser xs False (buf @ put_i32 ?n @ put_i32 0 @ put_u32 ty @ ?D) = (Ok h, b)"
      and o: "overwrite (length buf + 4) (put_i32 (if h then 1 else 0)) b =
        ((Ok (), out) :: (unit, sql_error) rresult \<times> bytes)"
    by (auto split: prod.splits rresult.splits)
  from write_elements_list [OF assms(1) e] obtain vs where vs: "list_all2 Q xs vs" "list_all value_fits vs"
      "b = buf @ put_i32 ?n @ put_i32 0 @ put_u32 ty @ ?D @ concat (map value_bytes vs)"
      "h \<longleftrightarrow> None \<in> set vs" by auto
  have "overwrite (length buf + 4) (put_i32 (if h then 1 else 0)) b =
      ((Ok (), buf @ array_bytes ds ty vs) :: (unit, sql_error) rresult \<times> bytes)"
    using overwrite_hole [of "put_i32 (if h then 1 else 0)" "put_i32 0" "buf @ put_i32 ?n"
        "put_u32 ty @ ?D @ concat (map value_bytes vs)"]
    by (simp add: vs(3,4) array_bytes_def)
  with o have "out = buf @ array_bytes ds ty vs" by simp
  with vs len show ?thesis by blast
qed

lemma array_to_sql_Ok:
  assumes "\<And>x. vdenotes (ser x) (img x)" and "array_to_sql ds ty xs ser buf = (Ok (), out)"
  shows "\<exists>vs. map img xs = map Ok vs \<and> list_all value_fits vs \<and> length ds \<le> 2147483647 \<and> out = buf @ array_bytes ds ty vs"
proof -
  have "list_all2 (\<lambda>x v. img x = Ok v) xs vs \<longleftrightarrow> map img xs = map Ok vs" for xs vs
    by (induction xs arbitrary: vs) (auto simp: list_all2_Cons1)
  with array_to_sql_list [OF vdenotes_appends [OF assms(1)] assms(2)] show ?thesis by simp
qed

text \<open>The element count a reader derives from the dimensions.\<close>

fun dimension_product :: "array_dimension list \<Rightarrow> nat" where
  "dimension_product [] = 1"
| "dimension_product (d # ds) = unat (ad_len d) * dimension_product ds"

definition dimension_ok :: "array_dimension \<Rightarrow> bool" where
  "dimension_ok d \<longleftrightarrow> 0 \<le> sint (ad_len d)"

lemma checked_mul_nonneg:
  assumes "0 \<le> sint a" "0 \<le> sint b" "unat a * unat b \<le> 2147483647"
  shows "i32_checked_mul a b = Some (a * b)" and "unat (a * b) = unat a * unat b" and "0 \<le> sint (a * b)"
proof -
  have ab: "sint a = int (unat a)" "sint b = int (unat b)" using assms(1,2) by (simp_all add: sint_nonneg)
  have p: "sint a * sint b = int (unat a * unat b)" by (simp only: ab of_nat_mult)
  obtain n where n: "n = unat a * unat b" "n \<le> 2147483647" using assms(3) by blast
  show "i32_checked_mul a b = Some (a * b)"
    using n(2) by (simp only: i32_checked_mul_def Let_def p n(1) [symmetric]) simp
  have w: "a * b = of_nat (unat a * unat b)" by simp
  show "unat (a * b) = unat a * unat b" unfolding w using assms(3) by (rule i32_len_signed)
  have "sint (a * b) = int (unat a * unat b)" unfolding w using assms(3) by (rule i32_len_signed)
  then show "0 \<le> sint (a * b)" by simp
qed

lemma scan_dimensions_ok:
  "list_all dimension_ok ds \<Longrightarrow> 0 \<le> sint e \<Longrightarrow>
     (\<And>n. n \<le> length ds \<Longrightarrow> unat e * dimension_product (take n ds) \<le> 2147483647) \<Longrightarrow>
     \<exists>k. scan_dimensions (length ds) (concat (map dimension_bytes ds) @ r) e = Ok k \<and>
         unat k = unat e * dimension_product ds \<and> 0 \<le> sint k"
proof (induction ds arbitrary: e)
  case Nil
  then show ?case by simp
next
  case (Cons d ds)
  have le: "unat e * unat (ad_len d) \<le> 2147483647" using Cons.prems(3) [of 1] by simp
  from Cons.prems(1) have d: "0 \<le> sint (ad_len d)" by (simp add: dimension_ok_def)
  note m = checked_mul_nonneg [OF Cons.prems(2) d le]
  have "\<exists>k. scan_dimensions (length ds) (concat (map dimension_bytes ds) @ r) (e * ad_len d) = Ok k \<and>
      unat k = unat (e * ad_len d) * dimension_product ds \<and> 0 \<le> sint k"
  proof (rule Cons.IH)
    show "unat (e * ad_len d) * dimension_product (take n ds) \<le> 2147483647" if "n \<le> length ds" for n
      using Cons.prems(3) [of "Suc n"] that by (simp add: m(2) mult.assoc)
  qed (use Cons.prems m in simp_all)
  moreover have "concat (map dimension_bytes (d # ds)) @ r =
      put_i32 (ad_len d) @ put_i32 (ad_lower_bound d) @ concat (map dimension_bytes ds) @ r"
    by (simp add: dimension_bytes_def)
  ultimately show ?case
    using m d by (simp only: list.size scan_dimensions.simps) (auto simp: reader_simps mult.assoc)
qed

lemma array_values_size: "array_values_next s = Ok (Some x, s') \<Longrightarrow> length (av_buf s') < length (av_buf s)"
  by (auto simp: array_values_next_def split_at_checked_def dest!: u32c.get_decreases split: if_splits)

interpretation array_values_it: fallible_iter "\<lambda>s. length (av_buf s)" array_values_next
  by unfold_locales (rule array_values_size)

interpretation array_dimensions_it: fallible_iter length array_dimensions_next
  by unfold_locales (auto simp: array_dimensions_next_def dest!: u32c.get_decreases split: if_splits)

lemma array_values_next_value:
  assumes "value_fits v" "Suc n \<le> 2147483647"
  shows "array_values_next \<lparr>av_remaining = of_nat (Suc n), av_buf = value_bytes v @ r\<rparr> =
    Ok (Some v, \<lparr>av_remaining = of_nat n, av_buf = r\<rparr>)"
  using assms(1) i32_count_step [OF assms(2)]
  by (cases v) (simp_all add: array_values_next_def value_bytes_def value_fits_def reader_simps
      i32_len_signed split_at_checked_def del: of_nat_Suc)

lemma array_values_collect:
  "list_all value_fits vs \<Longrightarrow> length vs \<le> 2147483647 \<Longrightarrow>
     collect (\<lambda>s. length (av_buf s)) array_values_next
       \<lparr>av_remaining = of_nat (length vs), av_buf = concat (map value_bytes vs)\<rparr> = Ok vs"
proof (induction vs)
  case Nil
  have "array_values_next \<lparr>av_remaining = 0, av_buf = []\<rparr> = Ok (None, \<lparr>av_remaining = 0, av_buf = []\<rparr>)"
    by (simp add: array_values_next_def)
  then show ?case by (simp add: array_values_it.collect_end)
next
  case (Cons v vs)
  have "array_values_next \<lparr>av_remaining = of_nat (Suc (length vs)), av_buf = value_bytes v @ concat (map value_bytes vs)\<rparr> =
      Ok (Some v, \<lparr>av_remaining = of_nat (length vs), av_buf = concat (map value_bytes vs)\<rparr>)"
    using Cons.prems by (intro array_values_next_value) simp_all
  from array_values_it.collect_item [OF this] Cons show ?case by simp
qed

lemma array_dimensions_collect:
  "collect length array_dimensions_next (concat (map dimension_bytes ds)) = Ok ds"
proof (induction ds)
  case Nil
  have "array_dimensions_next [] = Ok (None, [])" by (simp add: array_dimensions_next_def)
  then show ?case by (simp add: array_dimensions_it.collect_end)
next
  case (Cons d ds)
  have "array_dimensions_next (dimension_bytes d @ concat (map dimension_bytes ds)) =
      Ok (Some d, concat (map dimension_bytes ds))"
    by (simp add: array_dimensions_next_def dimension_bytes_def reader_simps)
  from array_dimensions_it.collect_item [OF this] Cons show ?case by simp
qed

lemma array_bytes_read:
  assumes vs: "list_all value_fits vs" and small_ds: "length ds \<le> 2147483647"
    and ok: "list_all dimension_ok ds" and prods: "\<And>n. n \<le> length ds \<Longrightarrow> dimension_product (take n ds) \<le> 2147483647"
    and len: "length vs = (if ds = [] then 0 else dimension_product ds)"
  shows "\<exists>a it db. array_from_sql (array_bytes ds ty vs) = Ok a \<and>
     a_element_type a = ty \<and> (a_has_nulls a \<longleftrightarrow> None \<in> set vs) \<and>
     array_dimensions a = Ok db \<and> collect length array_dimensions_next db = Ok ds \<and>
     array_values_of a = Ok it \<and> collect (\<lambda>s. length (av_buf s)) array_values_next it = Ok vs"
proof -
  let ?D = "concat (map dimension_bytes ds)" and ?V = "concat (map value_bytes vs)"
  obtain k where k: "scan_dimensions (length ds) (?D @ ?V) 1 = Ok k" "unat k = dimension_product ds"
    using scan_dimensions_ok [OF ok, of 1 ?V] prods by auto
  define e where "e = (if (of_nat (length ds) :: i32) = 0 then 0 else k)"
  have z: "(of_nat (length ds) :: i32) = 0 \<longleftrightarrow> ds = []"
  proof
    assume "(of_nat (length ds) :: i32) = 0"
    then have "unat (of_nat (length ds) :: i32) = 0" by simp
    then show "ds = []" using i32_len_signed(2) [OF small_ds] by simp
  qed simp
  have ev: "unat e = length vs" using len k(2) z by (simp add: e_def)
  then have ew: "e = of_nat (length vs)" by (simp only: ev [symmetric]) simp
  have small: "length vs \<le> 2147483647"
    using prods [of "length ds"] len by (simp split: if_splits)
  have D: "length ?D = length ds * 8"
    by (induction ds) (simp_all add: dimension_bytes_def)
  let ?a = "\<lparr>a_dimensions = of_nat (length ds), a_has_nulls = None \<in> set vs, a_element_type = ty,
             a_elements = e, a_buf = ?D @ ?V\<rparr>"
  have a: "array_from_sql (array_bytes ds ty vs) = Ok ?a"
    using k(1) i32_len_signed [OF small_ds]
    by (simp add: array_from_sql_def array_bytes_def reader_simps e_def)
  have "array_dimensions ?a = Ok ?D"
    using i32_len_signed(2) [OF small_ds] D by (simp add: array_dimensions_def)
  moreover have "array_values_of ?a = Ok \<lparr>av_remaining = of_nat (length vs), av_buf = ?V\<rparr>"
    using i32_len_signed(2) [OF small_ds] D by (simp add: array_values_of_def ew)
  ultimately show ?thesis
    using a array_dimensions_collect [of ds] array_values_collect [OF vs small]
    by (intro exI [of _ ?a] exI [of _ "\<lparr>av_remaining = of_nat (length vs), av_buf = ?V\<rparr>"]
        exI [of _ ?D]) simp
qed

text \<open>
  C37. Arrays: what \<open>array_to_sql\<close> writes for any element serializer, \<open>array_from_sql\<close> reads back:
  the element type, the dimensions with their lower bounds, the null flag exactly when some
  element is \<open>NULL\<close>, and the element values in order, provided the dimensions are those of the
  elements (non-negative, with a product that fits and equals the number of elements).
\<close>

theorem array_roundtrip:
  assumes "\<And>x. vdenotes (ser x) (img x)" and "array_to_sql ds ty xs ser [] = (Ok (), b)"
    and "list_all dimension_ok ds" and "\<And>n. n \<le> length ds \<Longrightarrow> dimension_product (take n ds) \<le> 2147483647"
    and "length xs = (if ds = [] then 0 else dimension_product ds)"
  shows "\<exists>a vs it db. array_from_sql b = Ok a \<and> map img xs = map Ok vs \<and>
     a_element_type a = ty \<and> (a_has_nulls a \<longleftrightarrow> None \<in> set vs) \<and>
     array_dimensions a = Ok db \<and> collect length array_dimensions_next db = Ok ds \<and>
     array_values_of a = Ok it \<and> collect (\<lambda>s. length (av_buf s)) array_values_next it = Ok vs"
proof -
  from array_to_sql_Ok [OF assms(1,2)] obtain vs where vs: "map img xs = map Ok vs" "list_all value_fits vs"
    "length ds \<le> 2147483647" "b = array_bytes ds ty vs" by auto
  have "length vs = length xs" using vs(1) by (metis length_map)
  with array_bytes_read [OF vs(2,3) assms(3,4), of ty] assms(5) vs show ?thesis by fastforce
qed

text \<open>A serializer of optional byte strings, as the client's element closures are.\<close>

definition raw_ser :: "bytes option \<Rightarrow> (is_null, sql_error) writer" where
  "raw_ser v = (case v of None \<Rightarrow> wok Yes | Some b \<Rightarrow> wseq (put b) (wok No))"

lemma raw_ser_denotes: "vdenotes (raw_ser v) (Ok v)"
  by (cases v) (auto simp: vdenotes_def raw_ser_def writer_defs)

interpretation raw_values: value_serializer raw_ser Ok Io
  by unfold_locales (rule raw_ser_denotes)

theorem array_roundtrip_witness:
  "\<exists>b a vs it db. array_to_sql [\<lparr>ad_len = 2, ad_lower_bound = 1\<rparr>] 23 [Some [7], None] raw_ser [] = (Ok (), b) \<and>
     array_from_sql b = Ok a \<and> a_has_nulls a \<and>
     array_values_of a = Ok it \<and> collect (\<lambda>s. length (av_buf s)) array_values_next it = Ok vs \<and> vs = [Some [7], None]"
proof -
  let ?ds = "[\<lparr>ad_len = 2, ad_lower_bound = 1\<rparr>]" and ?xs = "[Some [7], None] :: bytes option list"
  have "fst (array_to_sql ?ds 23 ?xs raw_ser []) = Ok ()"
    by (simp add: array_to_sql_def write_element_def write_nullable_def raw_ser_def writer_defs
        i32_from_usize_def write_at_def usize_sub_def Let_def)
  then obtain b where b: "array_to_sql ?ds 23 ?xs raw_ser [] = (Ok (), b)" by (metis prod.collapse)
  have "dimension_product (take n ?ds) \<le> 2147483647" if "n \<le> length ?ds" for n
    using that by (cases n) simp_all
  moreover have "list_all dimension_ok ?ds" by (simp add: dimension_ok_def)
  moreover have "length ?xs = (if ?ds = [] then 0 else dimension_product ?ds)" by simp
  ultimately show ?thesis
    using array_roundtrip [of raw_ser Ok ?ds 23 ?xs b, OF raw_ser_denotes b] b by fastforce
qed

section \<open>Decoding arrays from the wire\<close>

lemma scan_dimensions_Ok:
  "scan_dimensions n r e = Ok k \<Longrightarrow> 8 * n \<le> length r \<and> (0 \<le> sint e \<longrightarrow> 0 \<le> sint k)"
proof (induction n r e rule: scan_dimensions.induct)
  case (2 n r e)
  from 2(2) obtain len lb :: i32 and r1 r2 e' where r: "read_i32 r = Ok (len, r1)" "\<not> sint len < 0"
      "read_i32 r1 = Ok (lb, r2)" "i32_checked_mul e len = Some e'" "scan_dimensions n r2 e' = Ok k"
    by (auto split: if_splits option.splits)
  have IH: "8 * n \<le> length r2 \<and> (0 \<le> sint e' \<longrightarrow> 0 \<le> sint k)"
    using 2(1) [OF r(2) r(4,5)] by simp
  have "0 \<le> sint e'" if "0 \<le> sint e"
  proof -
    let ?n = "unat e * unat len"
    have s: "sint e = int (unat e)" "sint len = int (unat len)" using that r(2) by (simp_all add: sint_nonneg)
    obtain n where n: "n = ?n" by blast
    have p: "sint e * sint len = int n" by (simp only: s of_nat_mult n)
    from r(4) have "n \<le> 2147483647" "e' = e * len"
      unfolding i32_checked_mul_def Let_def p by (auto split: if_splits)
    with checked_mul_nonneg(3) [of e len] that r(2) show ?thesis by (simp add: n)
  qed
  with IH u32c.get_decreases [OF r(1)] u32c.get_decreases [OF r(3)] show ?case by simp
qed simp

lemma scan_dimensions_not_Panic: "scan_dimensions n r e \<noteq> Panic"
  by (induction n r e rule: scan_dimensions.induct) (auto simp: rbind_eq_Panic split: option.splits)

lemma array_values_next_safe:
  "0 \<le> sint (av_remaining s) \<Longrightarrow>
     array_values_next s \<noteq> Panic \<and> (\<forall>x s'. array_values_next s = Ok (x, s') \<longrightarrow> 0 \<le> sint (av_remaining s'))"
proof -
  assume nn: "0 \<le> sint (av_remaining s)"
  show ?thesis
  proof (cases "av_remaining s = 0")
    case True
    with nn show ?thesis by (auto simp: array_values_next_def split: if_splits)
  next
    case False
    then have "0 < unat (av_remaining s)" by (simp add: unat_gt_0)
    then obtain n where n: "unat (av_remaining s) = Suc n" by (cases "unat (av_remaining s)") auto
    have "sint (av_remaining s) < 2 ^ (LENGTH(32) - Suc 0)" by (rule sint_less)
    then have le: "Suc n \<le> 2147483647" using nn n by (simp add: sint_nonneg)
    have "(of_nat (unat (av_remaining s)) :: i32) = av_remaining s" by simp
    then have w: "av_remaining s = of_nat (Suc n)" by (simp only: n)
    have "sint (of_nat n :: i32) = int n" using le by (intro i32_len_signed) simp
    then show ?thesis
      by (auto simp: array_values_next_def w rbind_eq_Panic i32_count_step [OF le] simp del: of_nat_Suc split: if_splits)
  qed
qed

lemma drain_values_safe:
  "0 \<le> sint (av_remaining s) \<Longrightarrow> collect (\<lambda>s. length (av_buf s)) array_values_next s \<noteq> Panic"
proof (induction s rule: measure_induct_rule [of "\<lambda>s. length (av_buf s)"])
  case (less s)
  from array_values_next_safe [OF less.prems] show ?case
    using less.IH array_values_size [of s]
    by (subst array_values_it.collect_unfold) (auto simp: rbind_eq_Panic split: option.splits)
qed

text \<open>
  Arrays from the wire: decoding any bytes never panics, and neither do the accessors of a
  decoded array, whose slices are computed from the header, nor draining the values; the number
  of elements is never negative.
\<close>

theorem array_decoding_never_panics:
  "array_from_sql b \<noteq> Panic \<and>
   (array_from_sql b = Ok a \<longrightarrow>
      array_dimensions a \<noteq> Panic \<and> 0 \<le> sint (a_elements a) \<and>
      (\<exists>it. array_values_of a = Ok it \<and> collect (\<lambda>s. length (av_buf s)) array_values_next it \<noteq> Panic))"
proof (intro conjI impI)
  show "array_from_sql b \<noteq> Panic"
    by (auto simp: array_from_sql_def rbind_eq_Panic scan_dimensions_not_Panic split: if_splits prod.splits)
next
  assume "array_from_sql b = Ok a"
  then obtain n :: i32 and buf k where s: "scan_dimensions (unat n) buf 1 = Ok k"
      and a: "a_dimensions a = n" "a_buf a = buf" "a_elements a = (if n = 0 then 0 else k)"
    by (auto simp: array_from_sql_def split: if_splits)
  from scan_dimensions_Ok [OF s] have len: "8 * unat n \<le> length buf" and k: "0 \<le> sint k" by simp_all
  then show "array_dimensions a \<noteq> Panic" by (simp add: array_dimensions_def a mult.commute)
  show e: "0 \<le> sint (a_elements a)" using k by (simp add: a)
  have "array_values_of a = Ok \<lparr>av_remaining = a_elements a, av_buf = drop (unat n * 8) buf\<rparr>"
    using len by (simp add: array_values_of_def a mult.commute)
  then show "\<exists>it. array_values_of a = Ok it \<and> collect (\<lambda>s. length (av_buf s)) array_values_next it \<noteq> Panic"
    using drain_values_safe e by fastforce
qed

theorem array_decoding_never_panics_witness:
  "\<exists>a. array_from_sql (array_bytes [\<lparr>ad_len = 1, ad_lower_bound = 1\<rparr>] 23 [Some [7]]) = Ok a \<and> array_dimensions a \<noteq> Panic"
proof -
  let ?b = "array_bytes [\<lparr>ad_len = 1, ad_lower_bound = 1\<rparr>] 23 [Some [7]]"
  have "\<exists>a. array_from_sql ?b = Ok a"
    by (simp add: array_from_sql_def array_bytes_def dimension_bytes_def value_bytes_def reader_simps
        i32_checked_mul_def Let_def)
  then show ?thesis using array_decoding_never_panics by blast
qed

end
