(* ===== verification/RangeSpec.thy ===== *)
theory RangeSpec
  imports SqlTypesSpec
begin

text \<open>
  Ranges, paths and network addresses of \<open>types/mod.rs\<close>: round trips, and exactly which inputs the
  address decoder accepts.
\<close>

section \<open>Bounds\<close>

text \<open>
  What the closure of a bound does: it appends the bytes of the bound's value, or nothing for
  \<open>NULL\<close>, or reports that there is no bound (what it wrote then is taken back).
\<close>

definition bound_denotes :: "(is_null range_bound, sql_error) writer \<Rightarrow> bytes option range_bound \<Rightarrow> bool" where
  "bound_denotes w b \<longleftrightarrow>
     (\<forall>buf. case b of
        Inclusive (Some e) \<Rightarrow> w buf = (Ok (Inclusive No), buf @ e)
      | Inclusive None \<Rightarrow> w buf = (Ok (Inclusive Yes), buf)
      | Exclusive (Some e) \<Rightarrow> w buf = (Ok (Exclusive No), buf @ e)
      | Exclusive None \<Rightarrow> w buf = (Ok (Exclusive Yes), buf)
      | Unbounded \<Rightarrow> \<exists>junk. w buf = (Ok Unbounded, buf @ junk))"

primrec bound_bytes :: "bytes option range_bound \<Rightarrow> bytes" where
  "bound_bytes (Inclusive v) = value_bytes v"
| "bound_bytes (Exclusive v) = value_bytes v"
| "bound_bytes Unbounded = []"

primrec bound_fits :: "bytes option range_bound \<Rightarrow> bool" where
  "bound_fits (Inclusive v) = value_fits v"
| "bound_fits (Exclusive v) = value_fits v"
| "bound_fits Unbounded = True"

primrec bound_kind :: "'a range_bound \<Rightarrow> unit range_bound" where
  "bound_kind (Inclusive _) = Inclusive ()"
| "bound_kind (Exclusive _) = Exclusive ()"
| "bound_kind Unbounded = Unbounded"

lemma overwrite_hole_sql:
  "length bs = length hole \<Longrightarrow>
     overwrite (length buf) bs (buf @ hole @ ext) = ((Ok (), buf @ bs @ ext) :: (unit, sql_error) rresult \<times> bytes)"
  by (rule overwrite_hole)

lemma overwrite_hole_end:
  "length bs = length hole \<Longrightarrow>
     overwrite (length buf) bs (buf @ hole) = ((Ok (), buf @ bs) :: (unit, sql_error) rresult \<times> bytes)"
  using overwrite_hole_sql [of bs hole buf "[]"] by simp

lemma write_bound_Ok:
  assumes "bound_denotes w b" and "write_bound w buf = (Ok k, out)"
  shows "bound_fits b \<and> k = bound_kind b \<and> out = buf @ bound_bytes b"
proof (cases b)
  case (Inclusive v)
  show ?thesis
  proof (cases v)
    case None
    with assms(1) Inclusive have "w (buf @ put_i32 0) = (Ok (Inclusive Yes), buf @ put_i32 0)"
      by (simp add: bound_denotes_def)
    with assms(2) Inclusive None show ?thesis
      by (simp add: write_bound_def wseq_def wbind_def put_def wok_def overwrite_hole_end value_bytes_def value_fits_def)
  next
    case (Some e)
    with assms(1) Inclusive have "w (buf @ put_i32 0) = (Ok (Inclusive No), buf @ put_i32 0 @ e)"
      by (simp add: bound_denotes_def)
    with assms(2) Inclusive Some show ?thesis
      by (auto simp: write_bound_def wseq_def wbind_def put_def wok_def with_len_def usize_sub_def
          i32_from_usize_def overwrite_hole_sql value_bytes_def value_fits_def split: if_splits)
  qed
next
  case (Exclusive v)
  show ?thesis
  proof (cases v)
    case None
    with assms(1) Exclusive have "w (buf @ put_i32 0) = (Ok (Exclusive Yes), buf @ put_i32 0)"
      by (simp add: bound_denotes_def)
    with assms(2) Exclusive None show ?thesis
      by (simp add: write_bound_def wseq_def wbind_def put_def wok_def overwrite_hole_end value_bytes_def value_fits_def)
  next
    case (Some e)
    with assms(1) Exclusive have "w (buf @ put_i32 0) = (Ok (Exclusive No), buf @ put_i32 0 @ e)"
      by (simp add: bound_denotes_def)
    with assms(2) Exclusive Some show ?thesis
      by (auto simp: write_bound_def wseq_def wbind_def put_def wok_def with_len_def usize_sub_def
          i32_from_usize_def overwrite_hole_sql value_bytes_def value_fits_def split: if_splits)
  qed
next
  case Unbounded
  with assms(1) have "\<forall>buf. \<exists>junk. w buf = (Ok Unbounded, buf @ junk)" by (simp add: bound_denotes_def)
  then obtain junk where "w (buf @ put_i32 0) = (Ok Unbounded, (buf @ put_i32 0) @ junk)" by blast
  with assms(2) Unbounded show ?thesis
    by (simp add: write_bound_def wseq_def wbind_def put_def)
qed

section \<open>Ranges\<close>

definition range_tag :: "'a range_bound \<Rightarrow> 'b range_bound \<Rightarrow> u8" where
  "range_tag l u =
     bound_tag (bound_kind u) RANGE_UPPER_INCLUSIVE RANGE_UPPER_UNBOUNDED
       (bound_tag (bound_kind l) RANGE_LOWER_INCLUSIVE RANGE_LOWER_UNBOUNDED 0)"

lemma range_tag_bits:
  "(range_tag l u AND RANGE_LOWER_UNBOUNDED \<noteq> 0) = (l = Unbounded)"
  "(range_tag l u AND RANGE_UPPER_UNBOUNDED \<noteq> 0) = (u = Unbounded)"
  "(range_tag l u AND RANGE_LOWER_INCLUSIVE \<noteq> 0) = (\<exists>v. l = Inclusive v)"
  "(range_tag l u AND RANGE_UPPER_INCLUSIVE \<noteq> 0) = (\<exists>v. u = Inclusive v)"
  "range_tag l u \<noteq> RANGE_EMPTY"
  by (cases l; cases u; simp add: range_tag_def bound_tag_def)+

lemma range_to_sql_Ok:
  assumes "bound_denotes wl l" and "bound_denotes wu u" and "range_to_sql wl wu buf = (Ok (), out)"
  shows "bound_fits l \<and> bound_fits u \<and> out = buf @ [range_tag l u] @ bound_bytes l @ bound_bytes u"
proof -
  from assms(3) obtain lk b1 where l: "write_bound wl (buf @ [0]) = (Ok lk, b1)"
    by (auto simp: range_to_sql_def Let_def wseq_def wbind_def put_def split: prod.splits rresult.splits)
  from write_bound_Ok [OF assms(1) l] have l': "bound_fits l" "lk = bound_kind l" "b1 = buf @ [0] @ bound_bytes l" by auto
  from assms(3) l obtain uk b2 where u: "write_bound wu b1 = (Ok uk, b2)"
    by (auto simp: range_to_sql_def Let_def wseq_def wbind_def put_def split: prod.splits rresult.splits)
  from write_bound_Ok [OF assms(2) u] have u': "bound_fits u" "uk = bound_kind u"
      "b2 = buf @ [0] @ bound_bytes l @ bound_bytes u" using l'(3) by auto
  have "range_to_sql wl wu buf = overwrite (length buf) [range_tag l u] b2"
    using l u by (simp add: range_to_sql_def Let_def wseq_def wbind_def put_def range_tag_def l'(2) u'(2))
  also have "\<dots> = (Ok (), buf @ [range_tag l u] @ bound_bytes l @ bound_bytes u)"
    unfolding u'(3) by (rule overwrite_hole_sql) simp
  finally show ?thesis using assms(3) l'(1) u'(1) by simp
qed

lemma read_bound_bytes:
  assumes "bound_fits b" and "(tg AND unb \<noteq> 0) = (b = Unbounded)" and "(tg AND inc \<noteq> 0) = (\<exists>v. b = Inclusive v)"
  shows "read_bound (bound_bytes b @ r) tg unb inc = Ok (b, r)"
proof (cases b)
  case Unbounded
  with assms show ?thesis by (simp add: read_bound_def)
next
  case (Inclusive v)
  with assms show ?thesis
    by (cases v) (simp_all add: read_bound_def value_bytes_def value_fits_def reader_simps
        i32_len_signed split_at_checked_def)
next
  case (Exclusive v)
  with assms show ?thesis
    by (cases v) (simp_all add: read_bound_def value_bytes_def value_fits_def reader_simps
        i32_len_signed split_at_checked_def)
qed

text \<open>
  Ranges: whatever bounds the closures denote (inclusive, exclusive, \<open>NULL\<close> or none), the
  range written decodes to those bounds; the tag never collides with that of the empty range,
  which round-trips on its own.
\<close>

theorem range_roundtrip:
  assumes "bound_denotes wl l" and "bound_denotes wu u" and "range_to_sql wl wu [] = (Ok (), b)"
  shows "range_from_sql b = Ok (Nonempty l u) \<and> b \<noteq> snd (empty_range_to_sql [])"
proof -
  from range_to_sql_Ok [OF assms] have w: "bound_fits l" "bound_fits u"
      "b = range_tag l u # bound_bytes l @ bound_bytes u" by auto
  have "read_bound (bound_bytes l @ bound_bytes u) (range_tag l u) RANGE_LOWER_UNBOUNDED RANGE_LOWER_INCLUSIVE
      = Ok (l, bound_bytes u)"
    by (rule read_bound_bytes [OF w(1) range_tag_bits(1,3)])
  moreover have "read_bound (bound_bytes u @ []) (range_tag l u) RANGE_UPPER_UNBOUNDED RANGE_UPPER_INCLUSIVE = Ok (u, [])"
    by (rule read_bound_bytes [OF w(2) range_tag_bits(2,4)])
  ultimately have "range_from_sql b = Ok (Nonempty l u)"
    by (simp add: range_from_sql_def w(3) read_u8_def range_tag_bits(5))
  then show ?thesis
    using range_tag_bits(5) [of l u] by (simp add: w(3) empty_range_to_sql_def put_def)
qed

definition raw_bound :: "bytes option range_bound \<Rightarrow> (is_null range_bound, sql_error) writer" where
  "raw_bound b =
     (case b of
        Inclusive v \<Rightarrow> wbind (raw_ser v) (\<lambda>n. wok (Inclusive n))
      | Exclusive v \<Rightarrow> wbind (raw_ser v) (\<lambda>n. wok (Exclusive n))
      | Unbounded \<Rightarrow> wseq (put [0xFF]) (wok Unbounded))"

lemma raw_bound_denotes: "bound_denotes (raw_bound b) b"
  by (auto simp: bound_denotes_def raw_bound_def raw_ser_def writer_defs split: range_bound.splits option.splits)

theorem range_roundtrip_witness:
  "\<exists>b. range_to_sql (raw_bound (Inclusive (Some [1, 2]))) (raw_bound Unbounded) [] = (Ok (), b) \<and>
     range_from_sql b = Ok (Nonempty (Inclusive (Some [1, 2])) Unbounded)"
proof -
  have "fst (range_to_sql (raw_bound (Inclusive (Some [1, 2]))) (raw_bound Unbounded) []) = Ok ()"
    by (simp add: range_to_sql_def write_bound_def raw_bound_def raw_ser_def writer_defs Let_def
        usize_sub_def i32_from_usize_def write_at_def)
  then obtain b where "range_to_sql (raw_bound (Inclusive (Some [1, 2]))) (raw_bound Unbounded) [] = (Ok (), b)"
    by (metis prod.collapse)
  then show ?thesis using range_roundtrip [OF raw_bound_denotes raw_bound_denotes] by blast
qed

text \<open>Decoding a range never panics.\<close>

lemma read_bound_not_Panic: "read_bound buf tg unb inc \<noteq> Panic"
  by (auto simp: read_bound_def rbind_eq_Panic split: if_splits prod.splits)

lemma range_from_sql_not_Panic: "range_from_sql b \<noteq> Panic"
  by (auto simp: range_from_sql_def rbind_eq_Panic read_bound_not_Panic split: if_splits prod.splits)

section \<open>Network addresses\<close>

definition ip_octets :: "ip_addr \<Rightarrow> bytes" where
  "ip_octets a = (case a of V4 b \<Rightarrow> b | V6 b \<Rightarrow> b)"

definition ip_wf :: "ip_addr \<Rightarrow> bool" where
  "ip_wf a \<longleftrightarrow> (case a of V4 b \<Rightarrow> length b = 4 | V6 b \<Rightarrow> length b = 16)"

definition netmask_ok :: "ip_addr \<Rightarrow> u8 \<Rightarrow> bool" where
  "netmask_ok a m \<longleftrightarrow> (case a of V4 _ \<Rightarrow> m \<le> 32 | V6 _ \<Rightarrow> m \<le> 128)"

lemma inet_from_sql_iff:
  "inet_from_sql b = Ok i \<longleftrightarrow>
     (\<exists>c. b = [(case in_addr i of V4 _ \<Rightarrow> 2 | V6 _ \<Rightarrow> 3), in_netmask i, c, (case in_addr i of V4 _ \<Rightarrow> 4 | V6 _ \<Rightarrow> 16)]
        @ ip_octets (in_addr i)) \<and> ip_wf (in_addr i) \<and> netmask_ok (in_addr i) (in_netmask i)"
  (is "?L \<longleftrightarrow> ?R")
proof
  assume ?L
  then show ?R
    by (auto simp: inet_from_sql_def read_u8_iff read_exact_eq_Ok ip_octets_def ip_wf_def netmask_ok_def
        not_less split: if_splits)
next
  assume ?R
  then show ?L
    by (cases i; cases "in_addr i")
      (clarsimp simp: inet_from_sql_def read_u8_def read_exact_def ip_octets_def ip_wf_def netmask_ok_def
        linorder_not_less [THEN iffD2] simp del: rbind_eq_Ok map_ok_eq_Ok map_err_eq_Ok)+
qed

text \<open>
  \<open>INET\<close> and \<open>CIDR\<close>: a value decodes exactly when it has a known family, a netmask within the
  width of the address, the right address length and nothing after the address; the \<open>is_cidr\<close>
  byte is ignored. So the encoder's output decodes to the same address and netmask if and only
  if the netmask fits the family, which the encoder itself does not check.
\<close>

theorem inet_exact:
  "(inet_from_sql b = Ok i \<longleftrightarrow>
     (\<exists>c. b = [(case in_addr i of V4 _ \<Rightarrow> 2 | V6 _ \<Rightarrow> 3), in_netmask i, c, (case in_addr i of V4 _ \<Rightarrow> 4 | V6 _ \<Rightarrow> 16)]
        @ ip_octets (in_addr i)) \<and> ip_wf (in_addr i) \<and> netmask_ok (in_addr i) (in_netmask i)) \<and>
   (ip_wf a \<longrightarrow> (inet_from_sql (snd (inet_to_sql a m [])) = Ok \<lparr>in_addr = a, in_netmask = m\<rparr> \<longleftrightarrow> netmask_ok a m))"
proof (rule conjI)
  show "ip_wf a \<longrightarrow> (inet_from_sql (snd (inet_to_sql a m [])) = Ok \<lparr>in_addr = a, in_netmask = m\<rparr> \<longleftrightarrow> netmask_ok a m)"
    unfolding inet_from_sql_iff
    by (cases a) (auto simp: inet_to_sql_def writer_defs ip_octets_def)
qed (rule inet_from_sql_iff)

theorem inet_exact_witness:
  "inet_from_sql (snd (inet_to_sql (V4 [127, 0, 0, 1]) 32 [])) = Ok \<lparr>in_addr = V4 [127, 0, 0, 1], in_netmask = 32\<rparr>"
  using inet_exact [of "[]" "\<lparr>in_addr = V4 [], in_netmask = 0\<rparr>" "V4 [127, 0, 0, 1]" 32]
  by (simp add: ip_wf_def netmask_ok_def)

section \<open>Paths\<close>

lemma path_points_size: "path_points_next s = Ok (Some x, s') \<Longrightarrow> length (pp_buf s') < length (pp_buf s)"
  by (auto simp: path_points_next_def dest!: u64c.get_decreases split: if_splits)

interpretation path_it: fallible_iter "\<lambda>s. length (pp_buf s)" path_points_next
  by unfold_locales (rule path_points_size)

definition point_bytes :: "point \<Rightarrow> bytes" where
  "point_bytes p = put_u64 (pt_x p) @ put_u64 (pt_y p)"

lemma path_collect:
  "length ps \<le> 2147483647 \<Longrightarrow>
     collect (\<lambda>s. length (pp_buf s)) path_points_next
       \<lparr>pp_remaining = of_nat (length ps), pp_buf = concat (map point_bytes ps)\<rparr> = Ok ps"
proof (induction ps)
  case Nil
  have "path_points_next \<lparr>pp_remaining = 0, pp_buf = []\<rparr> = Ok (None, \<lparr>pp_remaining = 0, pp_buf = []\<rparr>)"
    by (simp add: path_points_next_def)
  then show ?case by (simp add: path_it.collect_end)
next
  case (Cons p ps)
  have "path_points_next \<lparr>pp_remaining = of_nat (Suc (length ps)), pp_buf = point_bytes p @ concat (map point_bytes ps)\<rparr> =
      Ok (Some p, \<lparr>pp_remaining = of_nat (length ps), pp_buf = concat (map point_bytes ps)\<rparr>)"
    using i32_count_step(1) [of "length ps"] Cons.prems
    by (simp add: path_points_next_def point_bytes_def reader_simps i32_count_step(2) del: of_nat_Suc)
  from path_it.collect_item [OF this] Cons show ?case by simp
qed

lemma path_to_sql_Ok:
  assumes "path_to_sql closed pts buf = (Ok (), out)"
  shows "length pts \<le> 2147483647 \<and>
    out = buf @ [if closed then 1 else 0] @ put_i32 (of_nat (length pts)) @ concat (map (\<lambda>(x, y). put_u64 x @ put_u64 y) pts)"
proof -
  have pt: "denotes (case p of (x, y) \<Rightarrow> wseq (put (put_u64 x)) (put (put_u64 y))) (Ok (case p of (x, y) \<Rightarrow> put_u64 x @ put_u64 y))" for p
    using denotes_wseq [OF denotes_put denotes_put] by (cases p) simp
  have "denotes (write_all (\<lambda>(x, y). wseq (put (put_u64 x)) (put (put_u64 y))) pts)
      (iconcat (map (\<lambda>p. Ok (case p of (x, y) \<Rightarrow> put_u64 x @ put_u64 y)) pts))"
    by (rule denotes_write_all) (rule pt)
  from denotes_patched [OF this, of put_i32 "put_i32 0" "sq (i32_from_usize (length pts))"]
  have "denotes (path_to_sql closed pts)
     (icat (Ok [if closed then 1 else 0])
       (rbind (iconcat (map (\<lambda>p. Ok (case p of (x, y) \<Rightarrow> put_u64 x @ put_u64 y)) pts))
          (\<lambda>ext. map_ok (\<lambda>n. put_i32 n @ ext) (sq (i32_from_usize (length pts))))))"
    unfolding path_to_sql_def Let_def by (intro denotes_wseq denotes_put) simp
  from denotes_Ok_out [OF this assms] show ?thesis
    by (auto simp: icat_eq_Ok iconcat_Ok i32_from_usize_eq_Ok split: if_splits)
qed

text \<open>
  Paths round-trip; but a path's point count is not checked when it is decoded (an array's
  dimension count is), so a negative count reaches the iterator, whose decrement overflows at
  the smallest one.
\<close>

theorem path_roundtrip:
  "(path_to_sql closed pts [] = (Ok (), b) \<longrightarrow>
      (\<exists>p. path_from_sql b = Ok p \<and> pa_closed p = closed \<and>
         collect (\<lambda>s. length (pp_buf s)) path_points_next (path_points_of p) =
           Ok (map (\<lambda>(x, y). \<lparr>pt_x = x, pt_y = y\<rparr>) pts))) \<and>
   (\<exists>p. path_from_sql ([1] @ put_i32 0x80000000) = Ok p \<and> path_points_next (path_points_of p) = Panic)"
proof (intro conjI impI)
  assume "path_to_sql closed pts [] = (Ok (), b)"
  from path_to_sql_Ok [OF this] have w: "length pts \<le> 2147483647"
    "b = [if closed then 1 else 0] @ put_i32 (of_nat (length pts)) @ concat (map (\<lambda>(x, y). put_u64 x @ put_u64 y) pts)"
    by auto
  let ?ps = "map (\<lambda>(x, y). \<lparr>pt_x = x, pt_y = y\<rparr>) pts"
  have eq: "concat (map (\<lambda>(x, y). put_u64 x @ put_u64 y) pts) = concat (map point_bytes ?ps)"
    by (simp add: comp_def split_def point_bytes_def)
  have "path_from_sql b = Ok \<lparr>pa_closed = closed, pa_points = of_nat (length ?ps), pa_buf = concat (map point_bytes ?ps)\<rparr>"
    unfolding w(2) eq by (simp add: path_from_sql_def read_u8_def reader_simps)
  moreover have "length ?ps \<le> 2147483647" using w(1) by simp
  note path_collect [OF this]
  ultimately show "\<exists>p. path_from_sql b = Ok p \<and> pa_closed p = closed \<and>
      collect (\<lambda>s. length (pp_buf s)) path_points_next (path_points_of p) = Ok ?ps"
    by (simp add: path_points_of_def)
next
  show "\<exists>p. path_from_sql ([1] @ put_i32 0x80000000) = Ok p \<and> path_points_next (path_points_of p) = Panic"
    by (simp add: path_from_sql_def read_u8_def reader_simps path_points_of_def path_points_next_def i32_dec_def)
qed

theorem path_roundtrip_witness:
  "\<exists>b p. path_to_sql True [(1, 2)] [] = (Ok (), b) \<and> path_from_sql b = Ok p \<and> pa_closed p"
proof -
  have "fst (path_to_sql True [(1, 2)] []) = Ok ()"
    by (simp add: path_to_sql_def writer_defs i32_from_usize_def write_at_def Let_def)
  then obtain b where "path_to_sql True [(1, 2)] [] = (Ok (), b)" by (metis prod.collapse)
  then show ?thesis using path_roundtrip by blast
qed

end
