(* ===== verification/Escape.thy ===== *)
theory Escape
  imports Prelude
begin

text \<open>
  \<open>postgres-protocol/src/escape/mod.rs\<close>, with a reference lexer of the server for quoted
  literals and identifiers. Strings are UTF-8 bytes; the characters the code looks for are ASCII,
  so that scanning bytes and scanning characters agree.
\<close>

section \<open>The code\<close>

definition quote :: "bool \<Rightarrow> char" where
  "quote as_ident = (if as_ident then CHR 0x22 else CHR 0x27)"

abbreviation backslash :: char where "backslash \<equiv> CHR 0x5C"

text \<open>The two counters of the scan, and the loop of the slow path.\<close>

definition num_quotes :: "bool \<Rightarrow> str \<Rightarrow> nat" where
  "num_quotes as_ident s = length (filter (\<lambda>ch. ch = quote as_ident) s)"

definition num_backslashes :: "bool \<Rightarrow> str \<Rightarrow> nat" where
  "num_backslashes as_ident s = length (filter (\<lambda>ch. ch \<noteq> quote as_ident \<and> ch = backslash) s)"

definition double_chars :: "bool \<Rightarrow> str \<Rightarrow> str" where
  "double_chars as_ident s =
     concat (map (\<lambda>ch. if ch = quote as_ident \<or> \<not> as_ident \<and> ch = backslash then [ch, ch] else [ch]) s)"

definition escape_internal :: "str \<Rightarrow> bool \<Rightarrow> str" where
  "escape_internal s as_ident =
     (if \<not> as_ident \<and> num_backslashes as_ident s > 0 then '' E'' else []) @
     [quote as_ident] @
     (if num_quotes as_ident s = 0 \<and> (num_backslashes as_ident s = 0 \<or> as_ident) then s
      else double_chars as_ident s) @
     [quote as_ident]"

definition escape_literal :: "str \<Rightarrow> str" where
  "escape_literal s = escape_internal s False"

definition escape_identifier :: "str \<Rightarrow> str" where
  "escape_identifier s = escape_internal s True"

section \<open>The server's lexer\<close>

text \<open>
  The body of a quoted token after its opening quote: a doubled quote stands for a quote, and
  where \<open>bs\<close> says so a backslash escapes the next character (here only the escape of a
  backslash or a quote is given a meaning; any other escape is left undefined). The result is
  the content and the input after the closing quote.
\<close>

fun lex_quoted :: "char \<Rightarrow> bool \<Rightarrow> str \<Rightarrow> (str \<times> str) option" where
  "lex_quoted q bs [] = None"
| "lex_quoted q bs (c # r) =
     (if c = q then
        (case r of
           d # r' \<Rightarrow> if d = q then map_option (\<lambda>(s, t). (q # s, t)) (lex_quoted q bs r') else Some ([], r)
         | [] \<Rightarrow> Some ([], []))
      else if bs \<and> c = backslash then
        (case r of
           d # r' \<Rightarrow> if d = backslash \<or> d = q then map_option (\<lambda>(s, t). (d # s, t)) (lex_quoted q bs r') else None
         | [] \<Rightarrow> None)
      else map_option (\<lambda>(s, t). (c # s, t)) (lex_quoted q bs r))"

text \<open>
  A string constant: an \<open>E\<close> prefix turns backslash escapes on; without it they are on or off
  according to \<open>standard_conforming_strings\<close> (\<open>scs\<close>).
\<close>

definition lex_literal :: "bool \<Rightarrow> str \<Rightarrow> (str \<times> str) option" where
  "lex_literal scs s =
     (case dropWhile (\<lambda>c. c = CHR '' '') s of
        c # r \<Rightarrow>
          if c = CHR 0x27 then lex_quoted CHR 0x27 (\<not> scs) r
          else if c = CHR ''E'' then
            (case r of d # r' \<Rightarrow> if d = CHR 0x27 then lex_quoted CHR 0x27 True r' else None | [] \<Rightarrow> None)
          else None
      | [] \<Rightarrow> None)"

definition lex_identifier :: "str \<Rightarrow> (str \<times> str) option" where
  "lex_identifier s =
     (case s of c # r \<Rightarrow> if c = CHR 0x22 then lex_quoted CHR 0x22 False r else None | [] \<Rightarrow> None)"

section \<open>No input can leave the quotes\<close>

lemma double_chars_simps [simp]:
  "double_chars as_ident [] = []"
  "double_chars as_ident (c # s) =
     (if c = quote as_ident \<or> \<not> as_ident \<and> c = backslash then [c, c] else [c]) @ double_chars as_ident s"
  by (simp_all add: double_chars_def)

text \<open>What may follow the closing quote so that it is not read as half of a doubled one.\<close>

definition not_quote :: "char \<Rightarrow> str \<Rightarrow> bool" where
  "not_quote q rest \<longleftrightarrow> (case rest of [] \<Rightarrow> True | c # _ \<Rightarrow> c \<noteq> q)"

lemma lex_closing: "not_quote q rest \<Longrightarrow> lex_quoted q bs (q # rest) = Some ([], rest)"
  by (cases rest) (auto simp: not_quote_def)

lemma lex_doubled:
  assumes "not_quote (quote as_ident) rest" and "bs \<longrightarrow> \<not> as_ident" and "\<not> bs \<longrightarrow> as_ident \<or> backslash \<notin> set s"
  shows "lex_quoted (quote as_ident) bs (double_chars as_ident s @ quote as_ident # rest) = Some (s, rest)"
  using assms(2,3)
proof (induction s)
  case Nil
  then show ?case using lex_closing [OF assms(1)] by simp
next
  case (Cons c s)
  then show ?case by (auto simp: quote_def split: if_splits)
qed

lemma double_chars_id:
  "num_quotes as_ident s = 0 \<Longrightarrow> num_backslashes as_ident s = 0 \<or> as_ident \<Longrightarrow> double_chars as_ident s = s"
  by (induction s) (auto simp: num_quotes_def num_backslashes_def quote_def split: if_splits)

lemma escape_internal_double:
  "escape_internal s as_ident =
     (if \<not> as_ident \<and> backslash \<in> set s then '' E'' else []) @ [quote as_ident] @ double_chars as_ident s @ [quote as_ident]"
proof -
  have "num_backslashes False s > 0 \<longleftrightarrow> backslash \<in> set s"
    by (auto simp: num_backslashes_def quote_def filter_empty_conv)
  then show ?thesis
    using double_chars_id [of as_ident s] by (cases as_ident) (auto simp: escape_internal_def)
qed

text \<open>
  C36. Injection safety of \<open>escape_literal\<close>: under either setting of
  \<open>standard_conforming_strings\<close>, the server reads the escaped text as one string constant whose
  value is exactly the input, and continues right after it, whatever the input holds.
\<close>

theorem escape_literal_lexes:
  assumes "not_quote CHR 0x27 rest"
  shows "lex_literal scs (escape_literal s @ rest) = Some (s, rest)"
proof (cases "backslash \<in> set s")
  case True
  have "lex_quoted (quote False) True (double_chars False s @ quote False # rest) = Some (s, rest)"
    using assms by (intro lex_doubled) (auto simp: quote_def)
  then show ?thesis
    using True by (simp add: lex_literal_def escape_literal_def escape_internal_double quote_def)
next
  case False
  have "lex_quoted (quote False) (\<not> scs) (double_chars False s @ quote False # rest) = Some (s, rest)"
    using assms False by (intro lex_doubled) (auto simp: quote_def)
  then show ?thesis
    using False by (simp add: lex_literal_def escape_literal_def escape_internal_double quote_def)
qed

text \<open>
  Injection safety of \<open>escape_identifier\<close>: the server reads one quoted identifier whose name
  is exactly the input.
\<close>

theorem escape_identifier_lexes:
  assumes "not_quote CHR 0x22 rest"
  shows "lex_identifier (escape_identifier s @ rest) = Some (s, rest)"
proof -
  have "lex_quoted (quote True) False (double_chars True s @ quote True # rest) = Some (s, rest)"
    using assms by (intro lex_doubled) (auto simp: quote_def)
  then show ?thesis
    by (simp add: lex_identifier_def escape_identifier_def escape_internal_double quote_def)
qed

theorem escape_literal_lexes_witness:
  "lex_literal False (escape_literal [CHR ''a'', CHR 0x27, CHR 0x5C] @ '' OR'') = Some ([CHR ''a'', CHR 0x27, CHR 0x5C], '' OR'')"
  by (rule escape_literal_lexes) (simp add: not_quote_def)

theorem escape_identifier_lexes_witness:
  "lex_identifier (escape_identifier [CHR 0x22, CHR ''x''] @ ''.'') = Some ([CHR 0x22, CHR ''x''], ''.'')"
  by (rule escape_identifier_lexes) (simp add: not_quote_def)

end
