(* ===== verification/Scram.thy ===== *)
theory Scram
  imports Utf8
begin

text \<open>
  \<open>postgres-protocol/src/authentication/sasl.rs\<close>: the client side of SCRAM-SHA-256, with the
  parser of the server's messages; \<open>authentication/mod.rs\<close> (\<open>md5_hash\<close>), \<open>password/mod.rs\<close> and
  \<open>hex.rs\<close>. The cryptographic crates are an argument: a record of HMAC-SHA-256, SHA-256, MD5,
  the standard base64 engine and \<open>saslprep\<close>. The random nonce and salt are arguments.
\<close>

unbundle bit_operations_syntax

record crypto =
  hmac :: "bytes \<Rightarrow> bytes \<Rightarrow> bytes"
  sha256 :: "bytes \<Rightarrow> bytes"
  md5_digest :: "bytes \<Rightarrow> bytes"
  b64_encode :: "bytes \<Rightarrow> str"
  b64_decode :: "str \<Rightarrow> (bytes, string) rresult"
  saslprep :: "str \<Rightarrow> str option"

section \<open>Hexadecimal text\<close>

definition hex_chars :: string where
  "hex_chars = ''0123456789abcdef''"

definition lower_nibble_to_hex :: "u8 \<Rightarrow> char" where
  "lower_nibble_to_hex half_byte = hex_chars ! unat (half_byte AND 0x0F)"

definition encode_byte :: "u8 \<Rightarrow> string" where
  "encode_byte b = [lower_nibble_to_hex (drop_bit 4 b), lower_nibble_to_hex b]"

definition lower_hex :: "bytes \<Rightarrow> string" where
  "lower_hex bs = concat (map encode_byte bs)"

definition md5_hash :: "crypto \<Rightarrow> bytes \<Rightarrow> bytes \<Rightarrow> bytes \<Rightarrow> str" where
  "md5_hash c username password salt =
     (let output = lower_hex (md5_digest c (password @ username)) in
      ''md5'' @ lower_hex (md5_digest c (as_bytes output @ salt)))"

definition password_md5 :: "crypto \<Rightarrow> bytes \<Rightarrow> str \<Rightarrow> str" where
  "password_md5 c password username = ''md5'' @ lower_hex (md5_digest c (password @ as_bytes username))"

section \<open>Keys\<close>

text \<open>\<open>normalize\<close>, also written out in \<open>password/mod.rs\<close>.\<close>

definition normalize :: "crypto \<Rightarrow> bytes \<Rightarrow> bytes" where
  "normalize c pass =
     (case from_utf8 pass of
        Ok p \<Rightarrow> (case saslprep c p of Some q \<Rightarrow> as_bytes q | None \<Rightarrow> as_bytes p)
      | _ \<Rightarrow> pass)"

definition xor_bytes :: "bytes \<Rightarrow> bytes \<Rightarrow> bytes" where
  "xor_bytes a b = map (\<lambda>(x, y). x XOR y) (zip a b) @ drop (length b) a"

text \<open>The loop of \<open>hi\<close>: \<open>n\<close> more rounds from the last block and the accumulator.\<close>

primrec hi_rounds :: "crypto \<Rightarrow> bytes \<Rightarrow> nat \<Rightarrow> bytes \<Rightarrow> bytes \<Rightarrow> bytes" where
  "hi_rounds c s 0 prev acc = acc"
| "hi_rounds c s (Suc n) prev acc =
     (let prev = hmac c s prev in hi_rounds c s n prev (xor_bytes acc prev))"

definition hi :: "crypto \<Rightarrow> bytes \<Rightarrow> bytes \<Rightarrow> nat \<Rightarrow> bytes" where
  "hi c s salt i = (let prev = hmac c s (salt @ [0, 0, 0, 1]) in hi_rounds c s (i - 1) prev prev)"

definition scram_sha_256_salt :: "crypto \<Rightarrow> bytes \<Rightarrow> bytes \<Rightarrow> str" where
  "scram_sha_256_salt c password salt =
     (let salted_password = hi c (normalize c password) salt 4096;
          client_key = hmac c salted_password (ascii ''Client Key'');
          stored_key = sha256 c client_key;
          server_key = hmac c salted_password (ascii ''Server Key'') in
      ''SCRAM-SHA-256$'' @ show_nat 4096 @ '':'' @ b64_encode c salt @ ''$'' @
      b64_encode c stored_key @ '':'' @ b64_encode c server_key)"

section \<open>Channel binding\<close>

datatype channel_binding = Unrequested | Unsupported | TlsServerEndPoint bytes

definition gs2_header :: "channel_binding \<Rightarrow> str" where
  "gs2_header b =
     (case b of Unrequested \<Rightarrow> ''y,,'' | Unsupported \<Rightarrow> ''n,,'' | TlsServerEndPoint _ \<Rightarrow> ''p=tls-server-end-point,,'')"

definition cbind_data :: "channel_binding \<Rightarrow> bytes" where
  "cbind_data b = (case b of TlsServerEndPoint buf \<Rightarrow> buf | _ \<Rightarrow> [])"

section \<open>The parser of the server's messages\<close>

text \<open>The position of the next character and the text from there.\<close>

type_synonym pstate = "nat \<times> str"
type_synonym 'a parser = "pstate \<Rightarrow> ('a \<times> pstate, io_error) rresult"

text \<open>The whole character at the front of a text, for the error message.\<close>

definition first_char :: "str \<Rightarrow> str" where
  "first_char s =
     (case s of [] \<Rightarrow> []
      | c # r \<Rightarrow> (case follow_tests (of_char c) of Some ps \<Rightarrow> take (1 + length ps) s | None \<Rightarrow> [c]))"

definition eat :: "char \<Rightarrow> unit parser" where
  "eat target st =
     (case st of (i, s) \<Rightarrow>
        (case s of
           [] \<Rightarrow> Err (IoError UnexpectedEof ''unexpected EOF'')
         | c # r \<Rightarrow>
             if c = target then Ok ((), (i + 1, r))
             else Err (IoError InvalidInput (''unexpected character at byte '' @ show_nat i @ '': expected `'' @
                    [target] @ ''` but got `'' @ first_char s))))"

definition take_while :: "(char \<Rightarrow> bool) \<Rightarrow> str parser" where
  "take_while f st =
     (case st of (i, s) \<Rightarrow>
        Ok (takeWhile f s, (i + length (takeWhile f s), dropWhile f s)))"

definition char_in :: "nat \<Rightarrow> nat \<Rightarrow> char \<Rightarrow> bool" where
  "char_in lo up c \<longleftrightarrow> lo \<le> of_char c \<and> of_char c \<le> up"

definition is_printable :: "char \<Rightarrow> bool" where
  "is_printable c \<longleftrightarrow> char_in 0x21 0x2B c \<or> char_in 0x2D 0x7E c"

definition is_base64 :: "char \<Rightarrow> bool" where
  "is_base64 c \<longleftrightarrow> char_in 97 122 c \<or> char_in 65 90 c \<or> char_in 48 57 c \<or> c = CHR ''/'' \<or> c = CHR ''+'' \<or> c = CHR ''=''"

definition printable :: "str parser" where "printable = take_while is_printable"
definition base64 :: "str parser" where "base64 = take_while is_base64"

definition pthen :: "'a parser \<Rightarrow> ('a \<Rightarrow> 'b parser) \<Rightarrow> 'b parser" where
  "pthen p f st = rbind (p st) (\<lambda>(x, st). f x st)"

definition p_nonce :: "str parser" where
  "p_nonce = pthen (eat CHR ''r'') (\<lambda>_. pthen (eat CHR ''='') (\<lambda>_. printable))"

definition p_salt :: "str parser" where
  "p_salt = pthen (eat CHR ''s'') (\<lambda>_. pthen (eat CHR ''='') (\<lambda>_. base64))"

definition posit_number :: "nat parser" where
  "posit_number =
     pthen (take_while is_digit) (\<lambda>n st.
       case parse_unsigned 4294967295 n of
         Some v \<Rightarrow> Ok (v, st)
       | None \<Rightarrow> Err (IoError InvalidInput
           (if n = [] then ''cannot parse integer from empty string''
            else ''number too large to fit in target type'')))"

definition iteration_count :: "nat parser" where
  "iteration_count = pthen (eat CHR ''i'') (\<lambda>_. pthen (eat CHR ''='') (\<lambda>_. posit_number))"

definition p_eof :: "unit parser" where
  "p_eof st =
     (case st of (i, s) \<Rightarrow>
        if s \<noteq> [] then Err (IoError InvalidInput (''unexpected trailing data at byte '' @ show_nat i))
        else Ok ((), st))"

record server_first =
  sf_nonce :: str
  sf_salt :: str
  sf_iteration_count :: nat

definition server_first_message :: "server_first parser" where
  "server_first_message =
     pthen p_nonce (\<lambda>nonce. pthen (eat CHR '','') (\<lambda>_.
     pthen p_salt (\<lambda>salt. pthen (eat CHR '','') (\<lambda>_.
     pthen iteration_count (\<lambda>n. pthen p_eof (\<lambda>_ st.
       Ok (\<lparr>sf_nonce = nonce, sf_salt = salt, sf_iteration_count = n\<rparr>, st)))))))"

definition is_value_char :: "char \<Rightarrow> bool" where
  "is_value_char c \<longleftrightarrow> c = CHR 0x00 \<or> c = CHR ''='' \<or> c = CHR '',''"

definition p_value :: "str parser" where "p_value = take_while is_value_char"

definition server_error :: "str option parser" where
  "server_error st =
     (case st of (i, s) \<Rightarrow>
        (case s of
           c # _ \<Rightarrow>
             if c = CHR ''e'' then
               pthen (eat CHR ''e'') (\<lambda>_. pthen (eat CHR ''='') (\<lambda>_. pthen p_value (\<lambda>v st. Ok (Some v, st)))) st
             else Ok (None, st)
         | [] \<Rightarrow> Ok (None, st)))"

definition p_verifier :: "str parser" where
  "p_verifier = pthen (eat CHR ''v'') (\<lambda>_. pthen (eat CHR ''='') (\<lambda>_. base64))"

datatype server_final = ServerError str | Verifier str

definition server_final_message :: "server_final parser" where
  "server_final_message =
     pthen server_error (\<lambda>e.
     pthen (case e of Some x \<Rightarrow> (\<lambda>st. Ok (ServerError x, st)) | None \<Rightarrow> pthen p_verifier (\<lambda>v st. Ok (Verifier v, st))) (\<lambda>m.
     pthen p_eof (\<lambda>_ st. Ok (m, st))))"

definition run_parser :: "'a parser \<Rightarrow> str \<Rightarrow> ('a, io_error) rresult" where
  "run_parser p s = map_ok fst (p (0, s))"

section \<open>The state machine\<close>

datatype scram_state =
    Update (su_nonce: str) (su_password: bytes) (su_binding: channel_binding)
  | Finish (sf_salted: bytes) (sf_auth: str)
  | ScramDone

record scram =
  sc_message :: str
  sc_state :: scram_state

definition new_inner :: "crypto \<Rightarrow> bytes \<Rightarrow> channel_binding \<Rightarrow> str \<Rightarrow> scram" where
  "new_inner c password binding nonce =
     \<lparr>sc_message = gs2_header binding @ ''n=,r='' @ nonce,
      sc_state = Update nonce (normalize c password) binding\<rparr>"

text \<open>\<open>new\<close> draws 24 numbers from \<open>0x21..0x7e\<close> (the end excluded) and replaces the comma.\<close>

definition nonce_char :: "nat \<Rightarrow> char" where
  "nonce_char v = char_of (if v = 0x2C then 0x7E else v)"

definition scram_new :: "crypto \<Rightarrow> bytes \<Rightarrow> channel_binding \<Rightarrow> nat list \<Rightarrow> scram" where
  "scram_new c password binding draws = new_inner c password binding (map nonce_char draws)"

definition scram_message :: "scram \<Rightarrow> (bytes, io_error) rresult" where
  "scram_message s = (if sc_state s = ScramDone then Panic else Ok (as_bytes (sc_message s)))"

definition utf8_text :: "bytes \<Rightarrow> (str, io_error) rresult" where
  "utf8_text b = map_err (\<lambda>e. IoError InvalidInput (utf8_error_text e)) (from_utf8 b)"

definition invalid_state :: io_error where
  "invalid_state = IoError OtherKind ''invalid SCRAM state''"

definition starts_with :: "str \<Rightarrow> str \<Rightarrow> bool" where
  "starts_with s prefix \<longleftrightarrow> take (length prefix) s = prefix"

text \<open>
  The texts computed by \<open>update\<close>: the message without its proof, the text both sides
  authenticate, and the proof.
\<close>

definition client_final_bare :: "crypto \<Rightarrow> channel_binding \<Rightarrow> str \<Rightarrow> str" where
  "client_final_bare c binding nonce =
     ''c='' @ b64_encode c (as_bytes (gs2_header binding) @ cbind_data binding) @ '',r='' @ nonce"

definition auth_message_of :: "str \<Rightarrow> str \<Rightarrow> str \<Rightarrow> str" where
  "auth_message_of client_nonce server_first bare = ''n=,r='' @ client_nonce @ '','' @ server_first @ '','' @ bare"

definition scram_update :: "crypto \<Rightarrow> bytes \<Rightarrow> scram \<Rightarrow> (unit, io_error) rresult \<times> scram" where
  "scram_update c msg s =
     (let d = s\<lparr>sc_state := ScramDone\<rparr> in
      case sc_state s of
        Update client_nonce password binding \<Rightarrow>
          (case rbind (utf8_text msg) (\<lambda>text.
                rbind (run_parser server_first_message text) (\<lambda>parsed.
                  if \<not> starts_with (sf_nonce parsed) client_nonce then Err (IoError InvalidInput ''invalid nonce'')
                  else rbind (map_err (IoError InvalidInput) (b64_decode c (sf_salt parsed))) (\<lambda>salt.
                    Ok (text, parsed, salt)))) of
             Err e \<Rightarrow> (Err e, d)
           | Panic \<Rightarrow> (Panic, d)
           | Ok (text, parsed, salt) \<Rightarrow>
               let salted_password = hi c password salt (sf_iteration_count parsed);
                   client_key = hmac c salted_password (ascii ''Client Key'');
                   stored_key = sha256 c client_key;
                   bare = client_final_bare c binding (sf_nonce parsed);
                   auth_message = auth_message_of client_nonce text bare;
                   client_signature = hmac c stored_key (as_bytes auth_message);
                   client_proof = xor_bytes client_key client_signature in
               (Ok (), \<lparr>sc_message = bare @ '',p='' @ b64_encode c client_proof,
                        sc_state = Finish salted_password auth_message\<rparr>))
      | _ \<Rightarrow> (Err invalid_state, d))"

definition scram_finish :: "crypto \<Rightarrow> bytes \<Rightarrow> scram \<Rightarrow> (unit, io_error) rresult \<times> scram" where
  "scram_finish c msg s =
     (let d = s\<lparr>sc_state := ScramDone\<rparr> in
      case sc_state s of
        Finish salted_password auth_message \<Rightarrow>
          (rbind (utf8_text msg) (\<lambda>text.
           rbind (run_parser server_final_message text) (\<lambda>parsed.
             case parsed of
               ServerError e \<Rightarrow> Err (IoError OtherKind (''SCRAM error: '' @ e))
             | Verifier v \<Rightarrow>
                 rbind (map_err (IoError InvalidInput) (b64_decode c v)) (\<lambda>verifier.
                   let server_key = hmac c salted_password (ascii ''Server Key'') in
                   if verifier = hmac c server_key (as_bytes auth_message) then Ok ()
                   else Err (IoError InvalidInput ''SCRAM verification error'')))), d)
      | _ \<Rightarrow> (Err invalid_state, d))"

end
