(* ===== verification/ScramSpec.thy ===== *)
theory ScramSpec
  imports Scram
begin

text \<open>
  SCRAM: the exact language of the server's messages, the order of the calls, what a successful
  \<open>finish\<close> proves about the server, and the exchange with an honest server.
\<close>

section \<open>The parser\<close>

lemma pthen_eq_Ok: "pthen p f st = Ok (y, st') \<longleftrightarrow> (\<exists>x st1. p st = Ok (x, st1) \<and> f x st1 = Ok (y, st'))"
  by (auto simp: pthen_def)

lemma eat_eq_Ok: "eat t (i, s) = Ok (u, st) \<longleftrightarrow> (\<exists>r. s = t # r \<and> st = (i + 1, r))"
  by (cases s) (auto simp: eat_def)

lemma takeWhile_eq: "takeWhile f s = x \<and> dropWhile f s = r \<longleftrightarrow>
    s = x @ r \<and> list_all f x \<and> (r = [] \<or> \<not> f (hd r))"
proof (induction x arbitrary: s)
  case Nil
  then show ?case by (cases s) auto
next
  case (Cons a x)
  then show ?case by (cases s) auto
qed

lemma take_while_eq_Ok: "take_while f (i, s) = Ok (x, (j, r)) \<longleftrightarrow>
    s = x @ r \<and> list_all f x \<and> (r = [] \<or> \<not> f (hd r)) \<and> j = i + length x"
  using takeWhile_eq [of f s x r] by (auto simp: take_while_def)

lemma p_eof_eq_Ok: "p_eof (i, s) = Ok (u, st) \<longleftrightarrow> s = [] \<and> st = (i, s)"
  by (auto simp: p_eof_def)

lemma posit_number_eq_Ok: "posit_number (i, s) = Ok (n, (j, r)) \<longleftrightarrow>
    (\<exists>d. s = d @ r \<and> list_all is_digit d \<and> (r = [] \<or> \<not> is_digit (hd r)) \<and> parse_unsigned 4294967295 d = Some n \<and>
         j = i + length d)"
proof -
  have "posit_number (i, s) = Ok (n, (j, r)) \<longleftrightarrow>
      parse_unsigned 4294967295 (takeWhile is_digit s) = Some n \<and> j = i + length (takeWhile is_digit s) \<and>
      dropWhile is_digit s = r"
    by (cases "parse_unsigned 4294967295 (takeWhile is_digit s)")
      (auto simp: posit_number_def pthen_def take_while_def)
  also have "\<dots> \<longleftrightarrow> (\<exists>d. (takeWhile is_digit s = d \<and> dropWhile is_digit s = r) \<and>
      parse_unsigned 4294967295 d = Some n \<and> j = i + length d)" by blast
  also have "\<dots> \<longleftrightarrow> (\<exists>d. s = d @ r \<and> list_all is_digit d \<and> (r = [] \<or> \<not> is_digit (hd r)) \<and>
      parse_unsigned 4294967295 d = Some n \<and> j = i + length d)" unfolding takeWhile_eq by simp
  finally show ?thesis .
qed

lemma whole_run: "list_all f d \<Longrightarrow> takeWhile f d = d \<and> dropWhile f d = []"
  using takeWhile_eq [of f d d "[]"] by simp

lemmas parser_iff = pthen_eq_Ok eat_eq_Ok take_while_eq_Ok p_eof_eq_Ok posit_number_eq_Ok

lemma not_printable_comma [simp]: "\<not> is_printable CHR '',''" "\<not> is_base64 CHR '',''"
  by (simp_all add: is_printable_def is_base64_def char_in_def)

lemma server_first_parse:
  "run_parser server_first_message s = Ok p \<longleftrightarrow>
     (\<exists>d. s = ''r='' @ sf_nonce p @ '',s='' @ sf_salt p @ '',i='' @ d \<and>
        list_all is_printable (sf_nonce p) \<and> list_all is_base64 (sf_salt p) \<and> list_all is_digit d \<and>
        parse_unsigned 4294967295 d = Some (sf_iteration_count p))"
  (is "?L \<longleftrightarrow> ?R")
proof
  assume ?L
  then show ?R
    by (auto simp: run_parser_def server_first_message_def p_nonce_def p_salt_def iteration_count_def
        printable_def base64_def parser_iff)
next
  assume ?R
  then obtain d where s: "s = ''r='' @ sf_nonce p @ '',s='' @ sf_salt p @ '',i='' @ d"
      and ok: "list_all is_printable (sf_nonce p)" "list_all is_base64 (sf_salt p)" "list_all is_digit d"
        "parse_unsigned 4294967295 d = Some (sf_iteration_count p)" by blast
  note d = whole_run [OF ok(3), THEN conjunct1] whole_run [OF ok(3), THEN conjunct2]
  have "\<exists>st. server_first_message (0, s) = Ok (p, st)"
    using ok unfolding s server_first_message_def p_nonce_def p_salt_def iteration_count_def printable_def base64_def
    by (cases p) (simp add: pthen_eq_Ok eat_eq_Ok p_eof_eq_Ok posit_number_def take_while_def takeWhile_append2
        dropWhile_append2 list_all_iff d)
  then show ?L by (auto simp: run_parser_def)
qed

lemma server_final_verifier:
  "run_parser server_final_message s = Ok (Verifier v) \<longleftrightarrow> s = ''v='' @ v \<and> list_all is_base64 v"
proof
  assume "run_parser server_final_message s = Ok (Verifier v)"
  then show "s = ''v='' @ v \<and> list_all is_base64 v"
    by (auto simp: run_parser_def server_final_message_def server_error_def p_verifier_def base64_def p_value_def
        pthen_eq_Ok eat_eq_Ok take_while_eq_Ok p_eof_eq_Ok split: list.splits if_splits option.splits)
next
  assume s: "s = ''v='' @ v \<and> list_all is_base64 v"
  then have "\<exists>st. server_final_message (0, s) = Ok (Verifier v, st)"
    unfolding server_final_message_def p_verifier_def base64_def
    by (simp add: pthen_eq_Ok eat_eq_Ok p_eof_eq_Ok server_error_def take_while_def list_all_iff)
  then show "run_parser server_final_message s = Ok (Verifier v)" by (auto simp: run_parser_def)
qed

text \<open>
  The error branch of the final message accepts only NUL, equals signs and commas as the text of
  the error, the characters the grammar of RFC 5802 excludes.
\<close>

lemma server_final_error:
  "run_parser server_final_message s = Ok (ServerError e) \<longleftrightarrow> s = ''e='' @ e \<and> list_all is_value_char e"
proof
  assume "run_parser server_final_message s = Ok (ServerError e)"
  then show "s = ''e='' @ e \<and> list_all is_value_char e"
    by (auto simp: run_parser_def server_final_message_def server_error_def p_verifier_def base64_def p_value_def
        pthen_eq_Ok eat_eq_Ok take_while_eq_Ok p_eof_eq_Ok split: list.splits if_splits option.splits)
next
  assume s: "s = ''e='' @ e \<and> list_all is_value_char e"
  then have "\<exists>st. server_final_message (0, s) = Ok (ServerError e, st)"
    unfolding server_final_message_def
    by (simp add: pthen_eq_Ok eat_eq_Ok p_eof_eq_Ok server_error_def p_value_def take_while_def list_all_iff)
  then show "run_parser server_final_message s = Ok (ServerError e)" by (auto simp: run_parser_def)
qed

section \<open>The state machine\<close>

lemma b64_ascii: "is_base64 x \<Longrightarrow> of_char x < (0x80 :: u8)"
proof -
  assume that: "is_base64 x"
  have "(of_char x :: nat) < 128" using that by (auto simp: is_base64_def char_in_def)
  moreover have "unat (of_char x :: u8) = of_char x"
  proof -
    have "unat (of_char x :: u8) = of_char x mod 2 ^ LENGTH(8)"
      by (simp only: of_char_word unat_of_nat take_bit_eq_mod)
    then show ?thesis by simp
  qed
  ultimately show ?thesis by (simp add: word_less_nat_alt)
qed

lemma verifier_text: "utf8_text msg = Ok t \<and> t = ''v='' @ v \<and> list_all is_base64 v \<longleftrightarrow>
    msg = ascii ''v='' @ as_bytes v \<and> list_all is_base64 v \<and> t = ''v='' @ v"
proof
  assume l: "utf8_text msg = Ok t \<and> t = ''v='' @ v \<and> list_all is_base64 v"
  then have "t = of_bytes msg" by (simp add: utf8_text_def from_utf8_iff)
  then have "msg = as_bytes t" by simp
  with l show "msg = ascii ''v='' @ as_bytes v \<and> list_all is_base64 v \<and> t = ''v='' @ v" by simp
next
  assume r: "msg = ascii ''v='' @ as_bytes v \<and> list_all is_base64 v \<and> t = ''v='' @ v"
  then have m: "msg = as_bytes (''v='' @ v)" by simp
  have "list_all (\<lambda>b. b < 0x80) (as_bytes (''v='' @ v))"
    using r b64_ascii by (auto simp: list_all_iff)
  then have "utf8_valid msg" unfolding m by (rule utf8_valid_ascii)
  moreover have "of_bytes msg = ''v='' @ v" unfolding m by (rule of_bytes_as_bytes)
  ultimately show "utf8_text msg = Ok t \<and> t = ''v='' @ v \<and> list_all is_base64 v"
    using r by (simp only: utf8_text_def from_utf8_iff map_err_eq_Ok)
qed

lemma scram_finish_Ok:
  "fst (scram_finish c msg s) = Ok () \<longleftrightarrow>
   (\<exists>sp am v. sc_state s = Finish sp am \<and> msg = ascii ''v='' @ as_bytes v \<and> list_all is_base64 v \<and>
      b64_decode c v = Ok (hmac c (hmac c sp (ascii ''Server Key'')) (as_bytes am)))" (is "?L \<longleftrightarrow> ?R")
proof (cases "\<exists>sp am. sc_state s = Finish sp am")
  case False
  then show ?thesis by (auto simp: scram_finish_def Let_def split: scram_state.splits)
next
  case True
  then obtain sp am where st: "sc_state s = Finish sp am" by blast
  let ?tagv = "hmac c (hmac c sp (ascii ''Server Key'')) (as_bytes am)"
  have "?L \<longleftrightarrow> (\<exists>t v. utf8_text msg = Ok t \<and> run_parser server_final_message t = Ok (Verifier v) \<and> b64_decode c v = Ok ?tagv)"
  proof (cases "utf8_text msg")
    case text_ok: (Ok t)
    show ?thesis
    proof (cases "run_parser server_final_message t")
      case (Ok m)
      with text_ok st show ?thesis
        by (cases m) (auto simp: scram_finish_def Let_def)
    qed (simp_all add: scram_finish_def Let_def st text_ok)
  qed (simp_all add: scram_finish_def Let_def st)
  also have "\<dots> \<longleftrightarrow> (\<exists>t v. (utf8_text msg = Ok t \<and> t = ''v='' @ v \<and> list_all is_base64 v) \<and> b64_decode c v = Ok ?tagv)"
    unfolding server_final_verifier by blast
  also have "\<dots> \<longleftrightarrow> (\<exists>v. msg = ascii ''v='' @ as_bytes v \<and> list_all is_base64 v \<and> b64_decode c v = Ok ?tagv)"
    unfolding verifier_text by blast
  finally show ?thesis by (simp add: st)
qed

text \<open>
  C22. What a successful \<open>finish\<close> means: exactly that the exchange had reached its last step and that
  the server's message is the base64 text of the HMAC of the authentication message under the
  server key, which only a holder of the salted password's keys can compute. Every other
  message, in every other state, is an error, and the machine is done either way.
\<close>

theorem finish_verifies_server:
  "(fst (scram_finish c msg s) = Ok () \<longleftrightarrow>
     (\<exists>sp am v. sc_state s = Finish sp am \<and> msg = ascii ''v='' @ as_bytes v \<and> list_all is_base64 v \<and>
        b64_decode c v = Ok (hmac c (hmac c sp (ascii ''Server Key'')) (as_bytes am)))) \<and>
   sc_state (snd (scram_finish c msg s)) = ScramDone"
  by (rule conjI [OF scram_finish_Ok]) (simp add: scram_finish_def Let_def split: scram_state.splits)

text \<open>The calls a driver can make, and which of them succeed.\<close>

datatype call = CallUpdate bytes | CallFinish bytes
datatype success = UpdateOk | FinishOk

fun successes :: "crypto \<Rightarrow> scram \<Rightarrow> call list \<Rightarrow> success list" where
  "successes c s [] = []"
| "successes c s (CallUpdate m # calls) =
     (case scram_update c m s of (r, s') \<Rightarrow> (if r = Ok () then [UpdateOk] else []) @ successes c s' calls)"
| "successes c s (CallFinish m # calls) =
     (case scram_finish c m s of (r, s') \<Rightarrow> (if r = Ok () then [FinishOk] else []) @ successes c s' calls)"

lemma update_state:
  assumes "scram_update c m s = (r, s')"
  shows "(r = Ok () \<longrightarrow> (\<exists>n p b. sc_state s = Update n p b) \<and> (\<exists>sp am. sc_state s' = Finish sp am)) \<and>
    (r \<noteq> Ok () \<longrightarrow> sc_state s' = ScramDone)"
  using assms
  by (auto simp: scram_update_def Let_def split: scram_state.splits rresult.splits prod.splits)

lemma finish_state:
  assumes "scram_finish c m s = (r, s')"
  shows "(r = Ok () \<longrightarrow> (\<exists>sp am. sc_state s = Finish sp am)) \<and> sc_state s' = ScramDone"
  using assms
  by (auto simp: scram_finish_def Let_def split: scram_state.splits)

lemma successes_done: "sc_state s = ScramDone \<Longrightarrow> successes c s calls = []"
proof (induction calls arbitrary: s)
  case (Cons x calls)
  show ?case
  proof (cases x)
    case (CallUpdate m)
    obtain r s' where u: "scram_update c m s = (r, s')" by fastforce
    from update_state [OF u] Cons.prems have "r \<noteq> Ok ()" "sc_state s' = ScramDone" by auto
    with u CallUpdate Cons.IH show ?thesis by simp
  next
    case (CallFinish m)
    obtain r s' where u: "scram_finish c m s = (r, s')" by fastforce
    from finish_state [OF u] Cons.prems have "r \<noteq> Ok ()" "sc_state s' = ScramDone" by auto
    with u CallFinish Cons.IH show ?thesis by simp
  qed
qed simp

lemma successes_finish: "sc_state s = Finish sp am \<Longrightarrow> successes c s calls \<in> {[], [FinishOk]}"
proof (cases calls)
  case (Cons x rest)
  assume st: "sc_state s = Finish sp am"
  show ?thesis
  proof (cases x)
    case (CallUpdate m)
    obtain r s' where u: "scram_update c m s = (r, s')" by fastforce
    from update_state [OF u] st have "r \<noteq> Ok ()" "sc_state s' = ScramDone" by auto
    with u CallUpdate Cons successes_done show ?thesis by simp
  next
    case (CallFinish m)
    obtain r s' where u: "scram_finish c m s = (r, s')" by fastforce
    from finish_state [OF u] have "sc_state s' = ScramDone" by simp
    with u CallFinish Cons successes_done show ?thesis by simp
  qed
qed simp

text \<open>
  The calls succeed only in order and once each: whatever a driver calls on a fresh exchange,
  with whatever messages, the successful calls are none, one \<open>update\<close>, or one \<open>update\<close> and
  after it one \<open>finish\<close>. So authentication never ends without both steps.
\<close>

theorem scram_call_order:
  "successes c (new_inner c password binding nonce) calls \<in> {[], [UpdateOk], [UpdateOk, FinishOk]}"
proof (cases calls)
  case (Cons x rest)
  let ?s = "new_inner c password binding nonce"
  show ?thesis
  proof (cases x)
    case (CallUpdate m)
    obtain r s' where u: "scram_update c m ?s = (r, s')" by fastforce
    show ?thesis
    proof (cases "r = Ok ()")
      case True
      with update_state [OF u] obtain sp am where "sc_state s' = Finish sp am" by blast
      from successes_finish [OF this, of c rest] u CallUpdate Cons True show ?thesis by auto
    next
      case False
      with update_state [OF u] have "sc_state s' = ScramDone" by blast
      with u CallUpdate Cons False successes_done show ?thesis by simp
    qed
  next
    case (CallFinish m)
    obtain r s' where u: "scram_finish c m ?s = (r, s')" by fastforce
    from finish_state [OF u] have "r \<noteq> Ok ()" "sc_state s' = ScramDone" by (auto simp: new_inner_def)
    with u CallFinish Cons successes_done show ?thesis by simp
  qed
qed simp

section \<open>Which first messages are accepted\<close>

lemma printable_ascii: "is_printable x \<or> is_base64 x \<or> is_digit x \<Longrightarrow> of_char x < (0x80 :: u8)"
proof -
  assume "is_printable x \<or> is_base64 x \<or> is_digit x"
  then have "(of_char x :: nat) < 128" by (auto simp: is_base64_def is_printable_def is_digit_def char_in_def)
  moreover have "unat (of_char x :: u8) = of_char x"
  proof -
    have "unat (of_char x :: u8) = of_char x mod 2 ^ LENGTH(8)"
      by (simp only: of_char_word unat_of_nat take_bit_eq_mod)
    then show ?thesis by simp
  qed
  ultimately show ?thesis by (simp add: word_less_nat_alt)
qed

lemma utf8_text_as_bytes: "list_all (\<lambda>x. of_char x < (0x80 :: u8)) s \<Longrightarrow> utf8_text (as_bytes s) = Ok s"
proof -
  assume "list_all (\<lambda>x. of_char x < (0x80 :: u8)) s"
  then have "list_all (\<lambda>b. b < 0x80) (as_bytes s)" by (auto simp: list_all_iff)
  then have "utf8_valid (as_bytes s)" by (rule utf8_valid_ascii)
  then show ?thesis by (simp only: utf8_text_def map_err_eq_Ok from_utf8_iff of_bytes_as_bytes)
qed

lemma utf8_text_eq: "utf8_text msg = Ok t \<Longrightarrow> msg = as_bytes t"
  by (simp add: utf8_text_def from_utf8_iff)

definition first_text :: "server_first \<Rightarrow> str \<Rightarrow> str" where
  "first_text p d = ''r='' @ sf_nonce p @ '',s='' @ sf_salt p @ '',i='' @ d"

definition first_wf :: "server_first \<Rightarrow> str \<Rightarrow> bool" where
  "first_wf p d \<longleftrightarrow> list_all is_printable (sf_nonce p) \<and> list_all is_base64 (sf_salt p) \<and> list_all is_digit d \<and>
     parse_unsigned 4294967295 d = Some (sf_iteration_count p)"

lemma first_text_utf8: "first_wf p d \<Longrightarrow> utf8_text (as_bytes (first_text p d)) = Ok (first_text p d)"
  by (rule utf8_text_as_bytes) (auto simp: first_text_def first_wf_def list_all_iff intro: printable_ascii)

lemma parse_first_text: "run_parser server_first_message s = Ok p \<longleftrightarrow> (\<exists>d. first_wf p d \<and> s = first_text p d)"
  unfolding server_first_parse first_text_def first_wf_def by blast

text \<open>
  Which server-first messages \<open>update\<close> accepts: exactly those of the grammar
  \<open>r=nonce,s=salt,i=count\<close> whose nonce extends the client's own nonce, whose salt is base64 and whose
  iteration count fits 32 bits, and only in the first state. A replayed or foreign nonce, or any
  other text, ends the exchange.
\<close>

theorem scram_update_accepts:
  "fst (scram_update c msg s) = Ok () \<longleftrightarrow>
     (\<exists>n pw b p d salt. sc_state s = Update n pw b \<and> first_wf p d \<and> msg = as_bytes (first_text p d) \<and>
        starts_with (sf_nonce p) n \<and> b64_decode c (sf_salt p) = Ok salt)"
proof (cases "\<exists>n pw b. sc_state s = Update n pw b")
  case False
  then show ?thesis by (auto simp: scram_update_def Let_def split: scram_state.splits)
next
  case True
  then obtain n pw b where st: "sc_state s = Update n pw b" by blast
  have "fst (scram_update c msg s) = Ok () \<longleftrightarrow>
      (\<exists>t p salt. utf8_text msg = Ok t \<and> run_parser server_first_message t = Ok p \<and> starts_with (sf_nonce p) n \<and>
        b64_decode c (sf_salt p) = Ok salt)"
  proof (cases "utf8_text msg")
    case text_ok: (Ok t)
    show ?thesis
    proof (cases "run_parser server_first_message t")
      case (Ok p)
      with text_ok st show ?thesis
        by (cases "b64_decode c (sf_salt p)") (simp_all add: scram_update_def Let_def)
    qed (simp_all add: scram_update_def Let_def st text_ok)
  qed (simp_all add: scram_update_def Let_def st)
  also have "\<dots> \<longleftrightarrow> (\<exists>p d salt. first_wf p d \<and> msg = as_bytes (first_text p d) \<and> starts_with (sf_nonce p) n \<and>
        b64_decode c (sf_salt p) = Ok salt)"
  proof -
    have "utf8_text msg = Ok t \<and> first_wf p d \<and> t = first_text p d \<longleftrightarrow>
        first_wf p d \<and> msg = as_bytes (first_text p d) \<and> t = first_text p d" for t p d
      using first_text_utf8 [of p d] utf8_text_eq [of msg t] by blast
    then show ?thesis unfolding parse_first_text by blast
  qed
  finally show ?thesis by (simp add: st)
qed

section \<open>The exchange with an honest server\<close>

text \<open>What the code relies on of the crates: base64 decodes what it encodes, digests have 32 bytes.\<close>

definition crypto_ok :: "crypto \<Rightarrow> bool" where
  "crypto_ok c \<longleftrightarrow>
     (\<forall>b. b64_decode c (b64_encode c b) = Ok b \<and> list_all is_base64 (b64_encode c b)) \<and>
     (\<forall>k m. length (hmac c k m) = 32)"

text \<open>The server of RFC 5802 knows the stored key and the server key only.\<close>

definition server_accepts :: "crypto \<Rightarrow> bytes \<Rightarrow> str \<Rightarrow> bytes \<Rightarrow> bool" where
  "server_accepts c stored_key am proof \<longleftrightarrow> sha256 c (xor_bytes proof (hmac c stored_key (as_bytes am))) = stored_key"

lemma xor_bytes_same_length: "length a = length b \<Longrightarrow> xor_bytes a b = map2 (XOR) a b"
  by (simp add: xor_bytes_def)

lemma xor_bytes_cancel: "length a = length b \<Longrightarrow> xor_bytes (xor_bytes a b) b = a"
  by (simp add: xor_bytes_same_length) (induction a b rule: list_induct2, simp_all add: xor.assoc)

lemma honest_steps:
  fixes c :: crypto and cnonce snonce :: str and pw salt :: bytes and n :: nat and b :: channel_binding
  assumes c: "crypto_ok c"
    and p: "list_all is_printable (cnonce @ snonce)"
    and n: "n \<le> 4294967295"
  defines "sp \<equiv> hi c (normalize c pw) salt n"
  defines "first \<equiv> ''r='' @ cnonce @ snonce @ '',s='' @ b64_encode c salt @ '',i='' @ show_nat n"
  defines "bare \<equiv> client_final_bare c b (cnonce @ snonce)"
  defines "am \<equiv> auth_message_of cnonce first bare"
  defines "stored_key \<equiv> sha256 c (hmac c sp (ascii ''Client Key''))"
  shows "\<exists>s' proof. scram_update c (as_bytes first) (new_inner c pw b cnonce) = (Ok (), s') \<and>
    sc_message s' = bare @ '',p='' @ b64_encode c proof \<and> server_accepts c stored_key am proof \<and>
    fst (scram_finish c (as_bytes (''v='' @ b64_encode c (hmac c (hmac c sp (ascii ''Server Key'')) (as_bytes am)))) s') = Ok () \<and>
    proof = xor_bytes (hmac c sp (ascii ''Client Key'')) (hmac c stored_key (as_bytes am))"
proof -
  let ?p = "\<lparr>sf_nonce = cnonce @ snonce, sf_salt = b64_encode c salt, sf_iteration_count = n\<rparr>"
  let ?proof = "xor_bytes (hmac c sp (ascii ''Client Key'')) (hmac c stored_key (as_bytes am))"
  let ?s' = "\<lparr>sc_message = bare @ '',p='' @ b64_encode c ?proof, sc_state = Finish sp am\<rparr>"
  let ?v = "b64_encode c (hmac c (hmac c sp (ascii ''Server Key'')) (as_bytes am))"
  have wf: "first_wf ?p (show_nat n)"
    using c p parse_show_nat [OF n] show_nat_digits by (simp add: first_wf_def crypto_ok_def)
  have ft: "first = first_text ?p (show_nat n)" by (simp add: first_def first_text_def)
  have "run_parser server_first_message first = Ok ?p" using wf ft parse_first_text by blast
  moreover have "utf8_text (as_bytes first) = Ok first" unfolding ft using wf by (rule first_text_utf8)
  moreover have "b64_decode c (b64_encode c salt) = Ok salt" using c by (simp add: crypto_ok_def)
  ultimately have u: "scram_update c (as_bytes first) (new_inner c pw b cnonce) = (Ok (), ?s')"
    by (simp add: scram_update_def new_inner_def Let_def starts_with_def sp_def am_def bare_def stored_key_def)
  have acc: "server_accepts c stored_key am ?proof"
    using c by (simp add: server_accepts_def xor_bytes_cancel crypto_ok_def stored_key_def)
  have base: "list_all is_base64 ?v" "b64_decode c ?v = Ok (hmac c (hmac c sp (ascii ''Server Key'')) (as_bytes am))"
    using c by (simp_all add: crypto_ok_def)
  have "run_parser server_final_message (''v='' @ ?v) = Ok (Verifier ?v)" using base server_final_verifier by blast
  moreover have "utf8_text (as_bytes (''v='' @ ?v)) = Ok (''v='' @ ?v)"
    by (rule utf8_text_as_bytes) (use base(1) in \<open>auto simp: list_all_iff intro: printable_ascii\<close>)
  ultimately have "fst (scram_finish c (as_bytes (''v='' @ ?v)) ?s') = Ok ()"
    using base(2) by (simp add: scram_finish_def Let_def del: map_append list.map)
  with u acc show ?thesis by (intro exI [of _ ?s'] exI [of _ ?proof]) simp
qed

text \<open>
  C3. With a server that holds the verifier of the same password under the same salt and
  iteration count, the exchange succeeds on both sides: \<open>update\<close> accepts the server's first
  message, the proof it sends passes the server's check of the stored key (without the server
  knowing the client key), and \<open>finish\<close> accepts the server's signature.
\<close>

theorem scram_honest_exchange:
  fixes c :: crypto and cnonce snonce :: str and pw salt :: bytes and n :: nat and b :: channel_binding
  assumes c: "crypto_ok c"
    and p: "list_all is_printable (cnonce @ snonce)"
    and n: "n \<le> 4294967295"
  defines "sp \<equiv> hi c (normalize c pw) salt n"
  defines "first \<equiv> ''r='' @ cnonce @ snonce @ '',s='' @ b64_encode c salt @ '',i='' @ show_nat n"
  defines "bare \<equiv> client_final_bare c b (cnonce @ snonce)"
  defines "am \<equiv> auth_message_of cnonce first bare"
  defines "stored_key \<equiv> sha256 c (hmac c sp (ascii ''Client Key''))"
  shows "\<exists>s' proof. scram_update c (as_bytes first) (new_inner c pw b cnonce) = (Ok (), s') \<and>
    sc_message s' = bare @ '',p='' @ b64_encode c proof \<and> server_accepts c stored_key am proof \<and>
    fst (scram_finish c (as_bytes (''v='' @ b64_encode c (hmac c (hmac c sp (ascii ''Server Key'')) (as_bytes am)))) s') = Ok ()"
  unfolding sp_def first_def bare_def am_def stored_key_def
  using honest_steps [OF c p n, of salt pw b] by blast

text \<open>Unary digits stand for base64 in the witness: each byte is that many letters and a stroke.\<close>

fun unary_decode :: "nat \<Rightarrow> str \<Rightarrow> bytes" where
  "unary_decode k [] = []"
| "unary_decode k (x # r) = (if x = CHR ''/'' then of_nat k # unary_decode 0 r else unary_decode (Suc k) r)"

definition unary_encode :: "bytes \<Rightarrow> str" where
  "unary_encode b = concat (map (\<lambda>w. replicate (unat w) CHR ''A'' @ ''/'') b)"

definition unary_crypto :: crypto where
  "unary_crypto = \<lparr>hmac = \<lambda>k m. replicate 32 (of_nat (length k + length m)), sha256 = \<lambda>m. replicate 32 (of_nat (length m)),
     md5_digest = \<lambda>m. [], b64_encode = unary_encode, b64_decode = \<lambda>s. Ok (unary_decode 0 s), saslprep = Some\<rparr>"

lemma unary_run: "unary_decode k (replicate n CHR ''A'' @ ''/'' @ r) = of_nat (k + n) # unary_decode 0 r"
  by (induction n arbitrary: k) auto

lemma unary_crypto_ok: "crypto_ok unary_crypto"
proof -
  have "unary_decode 0 (unary_encode b) = b" for b
  proof (induction b)
    case (Cons w b)
    have "unary_decode 0 (unary_encode (w # b)) = unary_decode 0 (replicate (unat w) CHR ''A'' @ ''/'' @ unary_encode b)"
      by (simp add: unary_encode_def)
    also have "\<dots> = w # b" unfolding unary_run using Cons by simp
    finally show ?case .
  qed (simp add: unary_encode_def)
  moreover have "list_all is_base64 (unary_encode b)" for b
    by (auto simp: unary_encode_def list_all_iff is_base64_def char_in_def)
  ultimately show ?thesis by (simp add: crypto_ok_def unary_crypto_def)
qed

theorem scram_honest_exchange_witness:
  "\<exists>s'. fst (scram_update unary_crypto (as_bytes (''r='' @ ''ab'' @ ''cd'' @ '',s='' @ b64_encode unary_crypto [1, 2] @ '',i='' @ show_nat 2))
      (new_inner unary_crypto [7] Unsupported ''ab'')) = Ok () \<and>
    scram_update unary_crypto (as_bytes (''r='' @ ''ab'' @ ''cd'' @ '',s='' @ b64_encode unary_crypto [1, 2] @ '',i='' @ show_nat 2))
      (new_inner unary_crypto [7] Unsupported ''ab'') = (Ok (), s')"
  using scram_honest_exchange [where c = unary_crypto and cnonce = "''ab''" and snonce = "''cd''" and n = 2 and pw = "[7]"
      and salt = "[1, 2]" and b = Unsupported, OF unary_crypto_ok]
  by (auto simp: is_printable_def char_in_def)

section \<open>Errors reported by the server\<close>

text \<open>
  C40. An error of the server is not reported as such: the text of \<open>e=...\<close> is read as a run of the
  characters the grammar forbids, so a final message such as \<open>e=invalid-proof\<close>, with any text that
  starts with a printable character, ends as unexpected trailing data at byte 2 and the server's
  reason is lost.
\<close>

theorem scram_server_error_lost:
  assumes "sc_state s = Finish sp am" and "list_all is_printable (x # e)" and "x \<noteq> CHR ''=''"
  shows "fst (scram_finish c (as_bytes (''e='' @ x # e)) s) =
    Err (IoError InvalidInput ''unexpected trailing data at byte 2'')"
proof -
  have "utf8_text (as_bytes (''e='' @ x # e)) = Ok (''e='' @ x # e)"
    by (rule utf8_text_as_bytes) (use assms(2) in \<open>auto simp: list_all_iff intro: printable_ascii\<close>)
  moreover have "run_parser server_final_message (''e='' @ x # e) =
      Err (IoError InvalidInput ''unexpected trailing data at byte 2'')"
  proof -
    have v: "\<not> is_value_char x"
      using assms(2, 3) by (auto simp: is_value_char_def is_printable_def char_in_def)
    have "show_nat (Suc (Suc 0)) = ''2''" by code_simp
    with v show ?thesis
      by (simp add: run_parser_def server_final_message_def server_error_def pthen_def eat_def p_value_def
          take_while_def p_eof_def)
  qed
  ultimately show ?thesis using assms(1) by (simp add: scram_finish_def Let_def del: map_append list.map)
qed

theorem scram_server_error_lost_witness:
  "fst (scram_finish unary_crypto (as_bytes ''e=invalid-proof'') \<lparr>sc_message = [], sc_state = Finish [] []\<rparr>) =
    Err (IoError InvalidInput ''unexpected trailing data at byte 2'')"
  using scram_server_error_lost [of "\<lparr>sc_message = [], sc_state = Finish [] []\<rparr>" "[]" "[]" "CHR ''i''" "''nvalid-proof''" unary_crypto]
  by (simp add: is_printable_def char_in_def)

end
