(* ===== verification/TypeTable.thy ===== *)
theory TypeTable
  imports Prelude
begin

text \<open>
  \<open>postgres-types/src/type_gen.rs\<close>: the table of the built-in types. A variant of \<open>Inner\<close> other
  than \<open>Other\<close> is named by its OID; the three matches of the file (\<open>from_oid\<close> and \<open>oid\<close>, \<open>kind\<close>,
  \<open>name\<close>) are the lists below, in the order of the file.
\<close>

datatype builtin_kind = BSimple | BPseudo | BArray nat | BRange nat | BMultirange nat

definition builtin_oids :: "nat list" where
  "builtin_oids = [
    16, 17, 18, 19, 20, 21, 22, 23, 24, 25, 26, 27, 28, 29, 30, 32, 114, 142, 143, 194, 199, 269, 271, 325,
    600, 601, 602, 603, 604, 628, 629, 650, 651, 700, 701, 705, 718, 719, 774, 775, 790, 791, 829, 869,
    1000, 1001, 1002, 1003, 1005, 1006, 1007, 1008, 1009, 1010, 1011, 1012, 1013, 1014, 1015, 1016, 1017,
    1018, 1019, 1020, 1021, 1022, 1027, 1028, 1033, 1034, 1040, 1041, 1042, 1043, 1082, 1083, 1114, 1115,
    1182, 1183, 1184, 1185, 1186, 1187, 1231, 1263, 1266, 1270, 1560, 1561, 1562, 1563, 1700, 1790, 2201,
    2202, 2203, 2204, 2205, 2206, 2207, 2208, 2209, 2210, 2211, 2249, 2275, 2276, 2277, 2278, 2279, 2280,
    2281, 2283, 2287, 2776, 2949, 2950, 2951, 2970, 3115, 3220, 3221, 3310, 3361, 3402, 3500, 3614, 3615,
    3642, 3643, 3644, 3645, 3734, 3735, 3769, 3770, 3802, 3807, 3831, 3838, 3904, 3905, 3906, 3907, 3908,
    3909, 3910, 3911, 3912, 3913, 3926, 3927, 4072, 4073, 4089, 4090, 4096, 4097, 4191, 4192, 4451, 4532,
    4533, 4534, 4535, 4536, 4537, 4538, 4600, 4601, 5017, 5038, 5039, 5069, 5077, 5078, 5079, 5080, 6150,
    6151, 6152, 6153, 6155, 6157]"

definition builtin_kinds :: "(nat \<times> builtin_kind) list" where
  "builtin_kinds = [
    (16, BSimple), (17, BSimple), (18, BSimple), (19, BSimple), (20, BSimple), (21, BSimple),
    (22, BArray 21), (23, BSimple), (24, BSimple), (25, BSimple), (26, BSimple), (27, BSimple),
    (28, BSimple), (29, BSimple), (30, BArray 26), (32, BPseudo), (114, BSimple), (142, BSimple),
    (143, BArray 142), (194, BSimple), (199, BArray 114), (269, BPseudo), (271, BArray 5069),
    (325, BPseudo), (600, BSimple), (601, BSimple), (602, BSimple), (603, BSimple), (604, BSimple),
    (628, BSimple), (629, BArray 628), (650, BSimple), (651, BArray 650), (700, BSimple), (701, BSimple),
    (705, BSimple), (718, BSimple), (719, BArray 718), (774, BSimple), (775, BArray 774), (790, BSimple),
    (791, BArray 790), (829, BSimple), (869, BSimple), (1000, BArray 16), (1001, BArray 17),
    (1002, BArray 18), (1003, BArray 19), (1005, BArray 21), (1006, BArray 22), (1007, BArray 23),
    (1008, BArray 24), (1009, BArray 25), (1010, BArray 27), (1011, BArray 28), (1012, BArray 29),
    (1013, BArray 30), (1014, BArray 1042), (1015, BArray 1043), (1016, BArray 20), (1017, BArray 600),
    (1018, BArray 601), (1019, BArray 602), (1020, BArray 603), (1021, BArray 700), (1022, BArray 701),
    (1027, BArray 604), (1028, BArray 26), (1033, BSimple), (1034, BArray 1033), (1040, BArray 829),
    (1041, BArray 869), (1042, BSimple), (1043, BSimple), (1082, BSimple), (1083, BSimple),
    (1114, BSimple), (1115, BArray 1114), (1182, BArray 1082), (1183, BArray 1083), (1184, BSimple),
    (1185, BArray 1184), (1186, BSimple), (1187, BArray 1186), (1231, BArray 1700), (1263, BArray 2275),
    (1266, BSimple), (1270, BArray 1266), (1560, BSimple), (1561, BArray 1560), (1562, BSimple),
    (1563, BArray 1562), (1700, BSimple), (1790, BSimple), (2201, BArray 1790), (2202, BSimple),
    (2203, BSimple), (2204, BSimple), (2205, BSimple), (2206, BSimple), (2207, BArray 2202),
    (2208, BArray 2203), (2209, BArray 2204), (2210, BArray 2205), (2211, BArray 2206), (2249, BPseudo),
    (2275, BPseudo), (2276, BPseudo), (2277, BPseudo), (2278, BPseudo), (2279, BPseudo), (2280, BPseudo),
    (2281, BPseudo), (2283, BPseudo), (2287, BPseudo), (2776, BPseudo), (2949, BArray 2970),
    (2950, BSimple), (2951, BArray 2950), (2970, BSimple), (3115, BPseudo), (3220, BSimple),
    (3221, BArray 3220), (3310, BPseudo), (3361, BSimple), (3402, BSimple), (3500, BPseudo),
    (3614, BSimple), (3615, BSimple), (3642, BSimple), (3643, BArray 3614), (3644, BArray 3642),
    (3645, BArray 3615), (3734, BSimple), (3735, BArray 3734), (3769, BSimple), (3770, BArray 3769),
    (3802, BSimple), (3807, BArray 3802), (3831, BPseudo), (3838, BPseudo), (3904, BRange 23),
    (3905, BArray 3904), (3906, BRange 1700), (3907, BArray 3906), (3908, BRange 1114),
    (3909, BArray 3908), (3910, BRange 1184), (3911, BArray 3910), (3912, BRange 1082),
    (3913, BArray 3912), (3926, BRange 20), (3927, BArray 3926), (4072, BSimple), (4073, BArray 4072),
    (4089, BSimple), (4090, BArray 4089), (4096, BSimple), (4097, BArray 4096), (4191, BSimple),
    (4192, BArray 4191), (4451, BMultirange 23), (4532, BMultirange 1700), (4533, BMultirange 1114),
    (4534, BMultirange 1184), (4535, BMultirange 1082), (4536, BMultirange 20), (4537, BPseudo),
    (4538, BPseudo), (4600, BSimple), (4601, BSimple), (5017, BSimple), (5038, BSimple),
    (5039, BArray 5038), (5069, BSimple), (5077, BPseudo), (5078, BPseudo), (5079, BPseudo),
    (5080, BPseudo), (6150, BArray 4451), (6151, BArray 4532), (6152, BArray 4533), (6153, BArray 4534),
    (6155, BArray 4535), (6157, BArray 4536)]"

definition builtin_names :: "(nat \<times> string) list" where
  "builtin_names = [
    (16, ''bool''), (17, ''bytea''), (18, ''char''), (19, ''name''), (20, ''int8''), (21, ''int2''),
    (22, ''int2vector''), (23, ''int4''), (24, ''regproc''), (25, ''text''), (26, ''oid''), (27, ''tid''),
    (28, ''xid''), (29, ''cid''), (30, ''oidvector''), (32, ''pg_ddl_command''), (114, ''json''),
    (142, ''xml''), (143, ''_xml''), (194, ''pg_node_tree''), (199, ''_json''),
    (269, ''table_am_handler''), (271, ''_xid8''), (325, ''index_am_handler''), (600, ''point''),
    (601, ''lseg''), (602, ''path''), (603, ''box''), (604, ''polygon''), (628, ''line''),
    (629, ''_line''), (650, ''cidr''), (651, ''_cidr''), (700, ''float4''), (701, ''float8''),
    (705, ''unknown''), (718, ''circle''), (719, ''_circle''), (774, ''macaddr8''), (775, ''_macaddr8''),
    (790, ''money''), (791, ''_money''), (829, ''macaddr''), (869, ''inet''), (1000, ''_bool''),
    (1001, ''_bytea''), (1002, ''_char''), (1003, ''_name''), (1005, ''_int2''), (1006, ''_int2vector''),
    (1007, ''_int4''), (1008, ''_regproc''), (1009, ''_text''), (1010, ''_tid''), (1011, ''_xid''),
    (1012, ''_cid''), (1013, ''_oidvector''), (1014, ''_bpchar''), (1015, ''_varchar''), (1016, ''_int8''),
    (1017, ''_point''), (1018, ''_lseg''), (1019, ''_path''), (1020, ''_box''), (1021, ''_float4''),
    (1022, ''_float8''), (1027, ''_polygon''), (1028, ''_oid''), (1033, ''aclitem''), (1034, ''_aclitem''),
    (1040, ''_macaddr''), (1041, ''_inet''), (1042, ''bpchar''), (1043, ''varchar''), (1082, ''date''),
    (1083, ''time''), (1114, ''timestamp''), (1115, ''_timestamp''), (1182, ''_date''), (1183, ''_time''),
    (1184, ''timestamptz''), (1185, ''_timestamptz''), (1186, ''interval''), (1187, ''_interval''),
    (1231, ''_numeric''), (1263, ''_cstring''), (1266, ''timetz''), (1270, ''_timetz''), (1560, ''bit''),
    (1561, ''_bit''), (1562, ''varbit''), (1563, ''_varbit''), (1700, ''numeric''), (1790, ''refcursor''),
    (2201, ''_refcursor''), (2202, ''regprocedure''), (2203, ''regoper''), (2204, ''regoperator''),
    (2205, ''regclass''), (2206, ''regtype''), (2207, ''_regprocedure''), (2208, ''_regoper''),
    (2209, ''_regoperator''), (2210, ''_regclass''), (2211, ''_regtype''), (2249, ''record''),
    (2275, ''cstring''), (2276, ''any''), (2277, ''anyarray''), (2278, ''void''), (2279, ''trigger''),
    (2280, ''language_handler''), (2281, ''internal''), (2283, ''anyelement''), (2287, ''_record''),
    (2776, ''anynonarray''), (2949, ''_txid_snapshot''), (2950, ''uuid''), (2951, ''_uuid''),
    (2970, ''txid_snapshot''), (3115, ''fdw_handler''), (3220, ''pg_lsn''), (3221, ''_pg_lsn''),
    (3310, ''tsm_handler''), (3361, ''pg_ndistinct''), (3402, ''pg_dependencies''), (3500, ''anyenum''),
    (3614, ''tsvector''), (3615, ''tsquery''), (3642, ''gtsvector''), (3643, ''_tsvector''),
    (3644, ''_gtsvector''), (3645, ''_tsquery''), (3734, ''regconfig''), (3735, ''_regconfig''),
    (3769, ''regdictionary''), (3770, ''_regdictionary''), (3802, ''jsonb''), (3807, ''_jsonb''),
    (3831, ''anyrange''), (3838, ''event_trigger''), (3904, ''int4range''), (3905, ''_int4range''),
    (3906, ''numrange''), (3907, ''_numrange''), (3908, ''tsrange''), (3909, ''_tsrange''),
    (3910, ''tstzrange''), (3911, ''_tstzrange''), (3912, ''daterange''), (3913, ''_daterange''),
    (3926, ''int8range''), (3927, ''_int8range''), (4072, ''jsonpath''), (4073, ''_jsonpath''),
    (4089, ''regnamespace''), (4090, ''_regnamespace''), (4096, ''regrole''), (4097, ''_regrole''),
    (4191, ''regcollation''), (4192, ''_regcollation''), (4451, ''int4multirange''),
    (4532, ''nummultirange''), (4533, ''tsmultirange''), (4534, ''tstzmultirange''),
    (4535, ''datemultirange''), (4536, ''int8multirange''), (4537, ''anymultirange''),
    (4538, ''anycompatiblemultirange''), (4600, ''pg_brin_bloom_summary''),
    (4601, ''pg_brin_minmax_multi_summary''), (5017, ''pg_mcv_list''), (5038, ''pg_snapshot''),
    (5039, ''_pg_snapshot''), (5069, ''xid8''), (5077, ''anycompatible''), (5078, ''anycompatiblearray''),
    (5079, ''anycompatiblenonarray''), (5080, ''anycompatiblerange''), (6150, ''_int4multirange''),
    (6151, ''_nummultirange''), (6152, ''_tsmultirange''), (6153, ''_tstzmultirange''),
    (6155, ''_datemultirange''), (6157, ''_int8multirange'')]"

fun ascending :: "nat list \<Rightarrow> bool" where
  "ascending (x # y # r) \<longleftrightarrow> x < y \<and> ascending (y # r)"
| "ascending _ \<longleftrightarrow> True"

lemma ascending_sorted: "ascending xs \<Longrightarrow> sorted_wrt (<) xs"
proof (induction xs rule: ascending.induct)
  case (1 x y r)
  then show ?case by (auto intro: less_trans)
qed simp_all

lemma builtin_oids_ascending: "ascending builtin_oids"
  unfolding builtin_oids_def by simp

lemma builtin_oids_distinct: "distinct builtin_oids"
  using ascending_sorted [OF builtin_oids_ascending] by (simp add: strict_sorted_iff)

lemma builtin_tables: "map fst builtin_kinds = builtin_oids \<and> map fst builtin_names = builtin_oids"
  unfolding builtin_oids_def builtin_kinds_def builtin_names_def by simp

end
