(* ===== verification/PgTypes.thy ===== *)
theory PgTypes
  imports TypeTable SqlTypes
begin

text \<open>
  \<open>postgres-types/src/lib.rs\<close>: the type of a column or parameter (\<open>Type\<close>, \<open>Kind\<close>, \<open>Field\<close>), the
  traits \<open>FromSql\<close> and \<open>ToSql\<close> as dictionaries of their methods, and the implementations for the
  types of the standard library; \<open>special.rs\<close> (\<open>Date\<close>, \<open>Timestamp\<close>), \<open>pg_lsn.rs\<close>, \<open>private.rs\<close> and
  \<open>serde_json_1.rs\<close>, whose JSON reader and writer are arguments.
\<close>

section \<open>Types\<close>

text \<open>A built-in type is its OID in the table of \<open>type_gen.rs\<close>; \<open>Other\<close> has its four fields.\<close>

datatype pg_type = Builtin nat | OtherType str u32 type_kind str
  and type_kind = TSimple | TEnum "str list" | TPseudo | TArray pg_type | TRange pg_type
  | TMultirange pg_type | TDomain pg_type | TComposite "(str \<times> pg_type) list"

definition type_new :: "str \<Rightarrow> u32 \<Rightarrow> type_kind \<Rightarrow> str \<Rightarrow> pg_type" where
  "type_new nm oid k schema = OtherType nm oid k schema"

definition type_from_oid :: "u32 \<Rightarrow> pg_type option" where
  "type_from_oid oid = (if List.member builtin_oids (unat oid) then Some (Builtin (unat oid)) else None)"

primrec type_oid :: "pg_type \<Rightarrow> u32" where
  "type_oid (Builtin n) = of_nat n"
| "type_oid (OtherType nm oid k schema) = oid"

definition builtin_kind_of :: "nat \<Rightarrow> type_kind" where
  "builtin_kind_of n =
     (case map_of builtin_kinds n of
        Some (BArray e) \<Rightarrow> TArray (Builtin e)
      | Some (BRange e) \<Rightarrow> TRange (Builtin e)
      | Some (BMultirange e) \<Rightarrow> TMultirange (Builtin e)
      | Some BPseudo \<Rightarrow> TPseudo
      | _ \<Rightarrow> TSimple)"

primrec kind_of :: "pg_type \<Rightarrow> type_kind" where
  "kind_of (Builtin n) = builtin_kind_of n"
| "kind_of (OtherType nm oid k schema) = k"

primrec schema_of :: "pg_type \<Rightarrow> str" where
  "schema_of (Builtin n) = ''pg_catalog''"
| "schema_of (OtherType nm oid k schema) = schema"

primrec name_of :: "pg_type \<Rightarrow> str" where
  "name_of (Builtin n) = (case map_of builtin_names n of Some nm \<Rightarrow> nm | None \<Rightarrow> [])"
| "name_of (OtherType nm oid k schema) = nm"

definition type_display :: "pg_type \<Rightarrow> str" where
  "type_display ty =
     (if schema_of ty = ''public'' \<or> schema_of ty = ''pg_catalog'' then [] else schema_of ty @ ''.'') @ name_of ty"

abbreviation "BOOL \<equiv> Builtin 16"
abbreviation "BYTEA \<equiv> Builtin 17"
abbreviation "CHAR_T \<equiv> Builtin 18"
abbreviation "NAME \<equiv> Builtin 19"
abbreviation "INT8 \<equiv> Builtin 20"
abbreviation "INT2 \<equiv> Builtin 21"
abbreviation "INT2_VECTOR \<equiv> Builtin 22"
abbreviation "INT4 \<equiv> Builtin 23"
abbreviation "TEXT \<equiv> Builtin 25"
abbreviation "OID \<equiv> Builtin 26"
abbreviation "OID_VECTOR \<equiv> Builtin 30"
abbreviation "JSON \<equiv> Builtin 114"
abbreviation "FLOAT4 \<equiv> Builtin 700"
abbreviation "FLOAT8 \<equiv> Builtin 701"
abbreviation "UNKNOWN \<equiv> Builtin 705"
abbreviation "INET \<equiv> Builtin 869"
abbreviation "BPCHAR \<equiv> Builtin 1042"
abbreviation "VARCHAR \<equiv> Builtin 1043"
abbreviation "DATE \<equiv> Builtin 1082"
abbreviation "TIME \<equiv> Builtin 1083"
abbreviation "TIMESTAMP \<equiv> Builtin 1114"
abbreviation "TIMESTAMPTZ \<equiv> Builtin 1184"
abbreviation "PG_LSN \<equiv> Builtin 3220"
abbreviation "JSONB \<equiv> Builtin 3802"

section \<open>The traits\<close>

record 'a from_sql =
  fs_from :: "pg_type \<Rightarrow> bytes \<Rightarrow> ('a, sql_error) rresult"
  fs_null :: "pg_type \<Rightarrow> ('a, sql_error) rresult"
  fs_accepts :: "pg_type \<Rightarrow> bool"

text \<open>The default of \<open>from_sql_null\<close>.\<close>

definition was_null :: "pg_type \<Rightarrow> ('a, sql_error) rresult" where
  "was_null ty = Err WasNull"

definition from_sql_nullable :: "'a from_sql \<Rightarrow> pg_type \<Rightarrow> bytes option \<Rightarrow> ('a, sql_error) rresult" where
  "from_sql_nullable F ty raw = (case raw of Some raw \<Rightarrow> fs_from F ty raw | None \<Rightarrow> fs_null F ty)"

text \<open>A \<open>Format\<close> is sent as its number: text is 0, binary is 1. The Rust name is that of \<open>type_name\<close>.\<close>

datatype format = FormatText | FormatBinary

record 'a to_sql =
  ts_to :: "'a \<Rightarrow> pg_type \<Rightarrow> (is_null, sql_error) writer"
  ts_accepts :: "pg_type \<Rightarrow> bool"
  ts_format :: "'a \<Rightarrow> pg_type \<Rightarrow> format"
  ts_rust :: string

definition binary_format :: "'a \<Rightarrow> pg_type \<Rightarrow> format" where
  "binary_format v ty = FormatBinary"

definition wrong_type :: "string \<Rightarrow> pg_type \<Rightarrow> sql_error" where
  "wrong_type rust ty = WrongType (type_display ty) rust"

definition to_sql_checked :: "'a to_sql \<Rightarrow> 'a \<Rightarrow> pg_type \<Rightarrow> (is_null, sql_error) writer" where
  "to_sql_checked T v ty =
     (if \<not> ts_accepts T ty then wres (Err (wrong_type (ts_rust T) ty)) else ts_to T v ty)"

text \<open>\<open>&dyn ToSql\<close>: the object-safe methods of a value.\<close>

record dyn_to_sql =
  dy_checked :: "pg_type \<Rightarrow> (is_null, sql_error) writer"
  dy_format :: "pg_type \<Rightarrow> format"

definition dyn :: "'a to_sql \<Rightarrow> 'a \<Rightarrow> dyn_to_sql" where
  "dyn T v = \<lparr>dy_checked = to_sql_checked T v, dy_format = ts_format T v\<rparr>"

definition not_null :: "(unit, sql_error) writer \<Rightarrow> (is_null, sql_error) writer" where
  "not_null w = wseq w (wok No)"

section \<open>Implementations\<close>

definition option_from :: "'a from_sql \<Rightarrow> 'a option from_sql" where
  "option_from F =
     \<lparr>fs_from = \<lambda>ty raw. map_ok Some (fs_from F ty raw), fs_null = \<lambda>ty. Ok None, fs_accepts = fs_accepts F\<rparr>"

definition option_to :: "'a to_sql \<Rightarrow> 'a option to_sql" where
  "option_to T =
     \<lparr>ts_to = \<lambda>v ty. case v of Some x \<Rightarrow> ts_to T x ty | None \<Rightarrow> wok Yes, ts_accepts = ts_accepts T,
      ts_format = \<lambda>v ty. case v of Some x \<Rightarrow> ts_format T x ty | None \<Rightarrow> FormatBinary,
      ts_rust = ''Option<'' @ ts_rust T @ ''>''\<rparr>"

definition member_type :: "pg_type \<Rightarrow> (pg_type, sql_error) rresult" where
  "member_type ty = (case kind_of ty of TArray member \<Rightarrow> Ok member | _ \<Rightarrow> Panic)"

definition array_accepts :: "(pg_type \<Rightarrow> bool) \<Rightarrow> pg_type \<Rightarrow> bool" where
  "array_accepts accepts ty = (case kind_of ty of TArray member \<Rightarrow> accepts member | _ \<Rightarrow> False)"

definition vec_from_sql :: "'a from_sql \<Rightarrow> pg_type \<Rightarrow> bytes \<Rightarrow> ('a list, sql_error) rresult" where
  "vec_from_sql F ty raw =
     rbind (member_type ty) (\<lambda>member.
     rbind (array_from_sql raw) (\<lambda>array.
     rbind (array_dimensions array) (\<lambda>dims.
     rbind (collect length array_dimensions_next dims) (\<lambda>ds.
       if length ds > 1 then Err (Msg ''array contains too many dimensions'')
       else
         rbind (array_values_of array) (\<lambda>values.
           collect (\<lambda>s. length (av_buf s)) (map_iter (from_sql_nullable F member) array_values_next) values)))))"

definition vec_from :: "'a from_sql \<Rightarrow> 'a list from_sql" where
  "vec_from F = \<lparr>fs_from = vec_from_sql F, fs_null = was_null, fs_accepts = array_accepts (fs_accepts F)\<rparr>"

definition downcast :: "nat \<Rightarrow> (i32, sql_error) rresult" where
  "downcast len = (if len > 2147483647 then Err (Msg ''value too large to transmit'') else Ok (of_nat len))"

definition slice_to_sql :: "'a to_sql \<Rightarrow> 'a list \<Rightarrow> pg_type \<Rightarrow> (is_null, sql_error) writer" where
  "slice_to_sql T xs ty =
     wbind (wres (member_type ty)) (\<lambda>member.
     wbind (wres (downcast (length xs))) (\<lambda>len.
       wseq (array_to_sql [\<lparr>ad_len = len, ad_lower_bound = (if ty = OID_VECTOR \<or> ty = INT2_VECTOR then 0 else 1)\<rparr>]
               (type_oid member) xs (\<lambda>x. ts_to T x member))
         (wok No)))"

definition slice_to :: "'a to_sql \<Rightarrow> 'a list to_sql" where
  "slice_to T =
     \<lparr>ts_to = slice_to_sql T, ts_accepts = array_accepts (ts_accepts T), ts_format = binary_format,
      ts_rust = ''&['' @ ts_rust T @ '']''\<rparr>"

definition vec_to :: "'a to_sql \<Rightarrow> 'a list to_sql" where
  "vec_to T =
     \<lparr>ts_to = ts_to (slice_to T), ts_accepts = ts_accepts (slice_to T), ts_format = binary_format,
      ts_rust = ''alloc::vec::Vec<'' @ ts_rust T @ ''>''\<rparr>"

definition bytea_from :: "bytes from_sql" where
  "bytea_from = \<lparr>fs_from = \<lambda>ty raw. Ok (bytea_from_sql raw), fs_null = was_null, fs_accepts = \<lambda>ty. ty = BYTEA\<rparr>"

definition bytea_to :: "bytes to_sql" where
  "bytea_to =
     \<lparr>ts_to = \<lambda>v ty. not_null (bytea_to_sql v), ts_accepts = \<lambda>ty. ty = BYTEA, ts_format = binary_format,
      ts_rust = ''&[u8]''\<rparr>"

definition str_accepts :: "pg_type \<Rightarrow> bool" where
  "str_accepts ty \<longleftrightarrow>
     ty = VARCHAR \<or> ty = TEXT \<or> ty = BPCHAR \<or> ty = NAME \<or> ty = UNKNOWN \<or>
     name_of ty = ''citext'' \<or> name_of ty = ''ltree'' \<or> name_of ty = ''lquery'' \<or> name_of ty = ''ltxtquery''"

definition str_from_sql :: "pg_type \<Rightarrow> bytes \<Rightarrow> (str, sql_error) rresult" where
  "str_from_sql ty raw =
     (if name_of ty = ''ltree'' then ltree_from_sql raw
      else if name_of ty = ''lquery'' then lquery_from_sql raw
      else if name_of ty = ''ltxtquery'' then ltxtquery_from_sql raw
      else text_from_sql raw)"

definition str_from :: "str from_sql" where
  "str_from = \<lparr>fs_from = str_from_sql, fs_null = was_null, fs_accepts = str_accepts\<rparr>"

definition str_to_sql :: "str \<Rightarrow> pg_type \<Rightarrow> (is_null, sql_error) writer" where
  "str_to_sql v ty =
     not_null
       (if name_of ty = ''ltree'' then ltree_to_sql v
        else if name_of ty = ''lquery'' then lquery_to_sql v
        else if name_of ty = ''ltxtquery'' then ltxtquery_to_sql v
        else text_to_sql v)"

definition str_to :: "str to_sql" where
  "str_to = \<lparr>ts_to = str_to_sql, ts_accepts = str_accepts, ts_format = binary_format, ts_rust = ''&str''\<rparr>"

text \<open>The macros \<open>simple_from\<close> and \<open>simple_to\<close>, and the types they are used at.\<close>

definition simple_from :: "(bytes \<Rightarrow> ('a, sql_error) rresult) \<Rightarrow> pg_type list \<Rightarrow> 'a from_sql" where
  "simple_from f expected =
     \<lparr>fs_from = \<lambda>ty raw. f raw, fs_null = was_null, fs_accepts = \<lambda>ty. List.member expected ty\<rparr>"

definition simple_to :: "string \<Rightarrow> ('a \<Rightarrow> (unit, sql_error) writer) \<Rightarrow> pg_type list \<Rightarrow> 'a to_sql" where
  "simple_to rust f expected =
     \<lparr>ts_to = \<lambda>v ty. not_null (f v), ts_accepts = \<lambda>ty. List.member expected ty, ts_format = binary_format,
      ts_rust = rust\<rparr>"

definition bool_from :: "bool from_sql" where "bool_from = simple_from bool_from_sql [BOOL]"
definition i8_from :: "i8 from_sql" where "i8_from = simple_from char_from_sql [CHAR_T]"
definition i16_from :: "i16 from_sql" where "i16_from = simple_from int2_from_sql [INT2]"
definition i32_from :: "i32 from_sql" where "i32_from = simple_from int4_from_sql [INT4]"
definition u32_from :: "u32 from_sql" where "u32_from = simple_from oid_from_sql [OID]"
definition i64_from :: "i64 from_sql" where "i64_from = simple_from int8_from_sql [INT8]"
definition f32_from :: "f32 from_sql" where "f32_from = simple_from float4_from_sql [FLOAT4]"
definition f64_from :: "f64 from_sql" where "f64_from = simple_from float8_from_sql [FLOAT8]"

definition bool_to :: "bool to_sql" where "bool_to = simple_to ''bool'' bool_to_sql [BOOL]"
definition i8_to :: "i8 to_sql" where "i8_to = simple_to ''i8'' char_to_sql [CHAR_T]"
definition i16_to :: "i16 to_sql" where "i16_to = simple_to ''i16'' int2_to_sql [INT2]"
definition i32_to :: "i32 to_sql" where "i32_to = simple_to ''i32'' int4_to_sql [INT4]"
definition u32_to :: "u32 to_sql" where "u32_to = simple_to ''u32'' oid_to_sql [OID]"
definition i64_to :: "i64 to_sql" where "i64_to = simple_to ''i64'' int8_to_sql [INT8]"
definition f32_to :: "f32 to_sql" where "f32_to = simple_to ''f32'' float4_to_sql [FLOAT4]"
definition f64_to :: "f64 to_sql" where "f64_to = simple_to ''f64'' float8_to_sql [FLOAT8]"

text \<open>
  A \<open>HashMap\<close>: collecting inserts the entries in order, so the last of equal keys stays; writing
  goes over the entries in the map's own order, which is an argument.
\<close>

definition hstore_from :: "(str \<rightharpoonup> str option) from_sql" where
  "hstore_from =
     \<lparr>fs_from = \<lambda>ty raw.
        rbind (hstore_from_sql raw) (\<lambda>it.
          map_ok (\<lambda>kvs. map_of (rev kvs)) (collect (\<lambda>s. length (he_buf s)) hstore_next it)),
      fs_null = was_null, fs_accepts = \<lambda>ty. name_of ty = ''hstore''\<rparr>"

definition hstore_to :: "((str \<rightharpoonup> str option) \<Rightarrow> (str \<times> str option) list) \<Rightarrow> (str \<rightharpoonup> str option) to_sql" where
  "hstore_to iter =
     \<lparr>ts_to = \<lambda>m ty. not_null (hstore_to_sql (iter m)), ts_accepts = \<lambda>ty. name_of ty = ''hstore'',
      ts_format = binary_format, ts_rust = ''std::collections::hash::map::HashMap''\<rparr>"

text \<open>
  A \<open>SystemTime\<close> is a number of nanoseconds since the Unix epoch. \<open>time.unsigned_abs()\<close> is exact,
  and \<open>-(x as i64)\<close> panics where the negation overflows.
\<close>

abbreviation TIME_SEC_CONVERSION :: int where "TIME_SEC_CONVERSION \<equiv> 946684800"
abbreviation USEC_PER_SEC :: int where "USEC_PER_SEC \<equiv> 1000000"
abbreviation NSEC_PER_USEC :: int where "NSEC_PER_USEC \<equiv> 1000"

definition system_time_from_sql :: "bytes \<Rightarrow> (int, sql_error) rresult" where
  "system_time_from_sql raw =
     rbind (timestamp_from_sql raw) (\<lambda>time.
       let epoch = TIME_SEC_CONVERSION * 1000000000;
           mag = \<bar>sint time\<bar>;
           secs = mag div USEC_PER_SEC;
           nsec = (mag mod USEC_PER_SEC) * NSEC_PER_USEC;
           offset = secs * 1000000000 + nsec in
       Ok (if sint time < 0 then epoch - offset else epoch + offset))"

definition system_time_from :: "int from_sql" where
  "system_time_from = simple_from system_time_from_sql [TIMESTAMP, TIMESTAMPTZ]"

definition to_usec :: "int \<Rightarrow> (i64, sql_error) rresult" where
  "to_usec d =
     (let secs = d div 1000000000; nanos = d mod 1000000000; usec = secs * USEC_PER_SEC + nanos div NSEC_PER_USEC in
      if usec < 18446744073709551616 then Ok (of_int usec) else Panic)"

definition system_time_to_sql :: "int \<Rightarrow> (unit, sql_error) writer" where
  "system_time_to_sql t =
     (let epoch = TIME_SEC_CONVERSION * 1000000000 in
      wbind (wres (if epoch \<le> t then to_usec (t - epoch)
                   else rbind (to_usec (epoch - t)) (\<lambda>u :: i64. if sint u = - 9223372036854775808 then Panic else Ok (- u))))
        timestamp_to_sql)"

definition system_time_to :: "int to_sql" where
  "system_time_to = simple_to ''std::time::SystemTime'' system_time_to_sql [TIMESTAMP, TIMESTAMPTZ]"

definition ip_from :: "ip_addr from_sql" where
  "ip_from = simple_from (\<lambda>raw. map_ok in_addr (inet_from_sql raw)) [INET]"

definition ip_to :: "ip_addr to_sql" where
  "ip_to = simple_to ''core::net::ip_addr::IpAddr''
     (\<lambda>a. inet_to_sql a (case a of V4 _ \<Rightarrow> 32 | V6 _ \<Rightarrow> 128)) [INET]"

section \<open>Infinities\<close>

datatype 'a special = PosInfinity | NegInfinity | Value 'a

definition date_from :: "'a from_sql \<Rightarrow> 'a special from_sql" where
  "date_from F =
     \<lparr>fs_from = \<lambda>ty raw. rbind (date_from_sql raw) (\<lambda>d :: i32.
        if sint d = 2147483647 then Ok PosInfinity
        else if sint d = - 2147483648 then Ok NegInfinity
        else map_ok Value (fs_from F ty raw)),
      fs_null = was_null, fs_accepts = \<lambda>ty. ty = DATE \<and> fs_accepts F ty\<rparr>"

definition date_to :: "'a to_sql \<Rightarrow> 'a special to_sql" where
  "date_to T =
     \<lparr>ts_to = \<lambda>v ty. case v of
        PosInfinity \<Rightarrow> not_null (date_to_sql 2147483647)
      | NegInfinity \<Rightarrow> not_null (date_to_sql (- 2147483648))
      | Value x \<Rightarrow> ts_to T x ty,
      ts_accepts = \<lambda>ty. ty = DATE \<and> ts_accepts T ty, ts_format = binary_format,
      ts_rust = ''postgres_types::special::Date<'' @ ts_rust T @ ''>''\<rparr>"

definition timestamp_from :: "'a from_sql \<Rightarrow> 'a special from_sql" where
  "timestamp_from F =
     \<lparr>fs_from = \<lambda>ty raw. rbind (timestamp_from_sql raw) (\<lambda>d :: i64.
        if sint d = 9223372036854775807 then Ok PosInfinity
        else if sint d = - 9223372036854775808 then Ok NegInfinity
        else map_ok Value (fs_from F ty raw)),
      fs_null = was_null, fs_accepts = \<lambda>ty. (ty = TIMESTAMP \<or> ty = TIMESTAMPTZ) \<and> fs_accepts F ty\<rparr>"

definition timestamp_to :: "'a to_sql \<Rightarrow> 'a special to_sql" where
  "timestamp_to T =
     \<lparr>ts_to = \<lambda>v ty. case v of
        PosInfinity \<Rightarrow> not_null (timestamp_to_sql 9223372036854775807)
      | NegInfinity \<Rightarrow> not_null (timestamp_to_sql (- 9223372036854775808))
      | Value x \<Rightarrow> ts_to T x ty,
      ts_accepts = \<lambda>ty. (ty = TIMESTAMP \<or> ty = TIMESTAMPTZ) \<and> ts_accepts T ty, ts_format = binary_format,
      ts_rust = ''postgres_types::special::Timestamp<'' @ ts_rust T @ ''>''\<rparr>"

section \<open>Log sequence numbers\<close>

text \<open>\<open>u64::from_str_radix(s, 16)\<close>: an optional plus sign and hexadecimal digits of either case.\<close>

definition hex_value :: "char \<Rightarrow> nat option" where
  "hex_value c =
     (let n = of_char c in
      if 48 \<le> n \<and> n \<le> 57 then Some (n - 48)
      else if 65 \<le> n \<and> n \<le> 70 then Some (n - 55)
      else if 97 \<le> n \<and> n \<le> 102 then Some (n - 87) else None)"

fun hex_digits :: "nat \<Rightarrow> str \<Rightarrow> nat option" where
  "hex_digits acc [] = Some acc"
| "hex_digits acc (c # r) = (case hex_value c of Some d \<Rightarrow> hex_digits (16 * acc + d) r | None \<Rightarrow> None)"

definition parse_hex :: "str \<Rightarrow> nat option" where
  "parse_hex s =
     (let d = strip_plus s in
      if d = [] then None
      else (case hex_digits 0 d of Some v \<Rightarrow> if v < 2 ^ 64 then Some v else None | None \<Rightarrow> None))"

definition upper_digit :: "nat \<Rightarrow> char" where
  "upper_digit d = (if d < 10 then char_of (48 + d) else char_of (55 + d))"

fun upper_hex :: "nat \<Rightarrow> string" where
  "upper_hex n = (if n < 16 then [upper_digit n] else upper_hex (n div 16) @ [upper_digit (n mod 16)])"

declare upper_hex.simps [simp del]

text \<open>\<open>split_once('/')\<close>.\<close>

definition split_once :: "char \<Rightarrow> str \<Rightarrow> (str \<times> str) option" where
  "split_once c s =
     (case dropWhile (\<lambda>x. x \<noteq> c) s of [] \<Rightarrow> None | _ # r \<Rightarrow> Some (takeWhile (\<lambda>x. x \<noteq> c) s, r))"

text \<open>\<open>hi << 32\<close> drops the upper bits of \<open>hi\<close>.\<close>

definition pg_lsn_from_str :: "str \<Rightarrow> 64 word option" where
  "pg_lsn_from_str s =
     (case split_once CHR ''/'' s of
        None \<Rightarrow> None
      | Some (split_hi, split_lo) \<Rightarrow>
          (case parse_hex split_hi of None \<Rightarrow> None
           | Some hi \<Rightarrow>
               (case parse_hex split_lo of None \<Rightarrow> None
                | Some lo \<Rightarrow> Some (or (push_bit 32 (of_nat hi)) (of_nat lo)))))"

definition pg_lsn_display :: "64 word \<Rightarrow> string" where
  "pg_lsn_display l = upper_hex (unat (drop_bit 32 l)) @ ''/'' @ upper_hex (unat (and l 0xFFFFFFFF))"

definition pg_lsn_from :: "64 word from_sql" where "pg_lsn_from = simple_from lsn_from_sql [PG_LSN]"
definition pg_lsn_to :: "64 word to_sql" where
  "pg_lsn_to = simple_to ''postgres_types::pg_lsn::PgLsn'' lsn_to_sql [PG_LSN]"

section \<open>Values inside composites\<close>

definition private_read_be_i32 :: "bytes \<Rightarrow> (i32 \<times> bytes, sql_error) rresult" where
  "private_read_be_i32 buf =
     (if length buf < 4 then Err (Msg ''invalid buffer size'')
      else Ok (of_nat (be_val (take 4 buf)), drop 4 buf))"

definition private_read_value :: "'a from_sql \<Rightarrow> pg_type \<Rightarrow> bytes \<Rightarrow> ('a \<times> bytes, sql_error) rresult" where
  "private_read_value F ty buf =
     rbind (private_read_be_i32 buf) (\<lambda>(len, buf).
       if sint len < 0 then map_ok (\<lambda>v. (v, buf)) (from_sql_nullable F ty None)
       else
         rbind (ok_or (split_at_checked (unat len) buf) (Msg ''invalid buffer size'')) (\<lambda>(head, tail).
           map_ok (\<lambda>v. (v, tail)) (from_sql_nullable F ty (Some head))))"

section \<open>JSON\<close>

definition json_from :: "(bytes \<Rightarrow> ('a, sql_error) rresult) \<Rightarrow> 'a from_sql" where
  "json_from from_slice =
     \<lparr>fs_from = \<lambda>ty raw.
        if ty = JSONB then
          rbind (sq (read_u8 raw)) (\<lambda>(b, raw).
            if b \<noteq> 1 then Err (Msg ''unsupported JSONB encoding version'') else from_slice raw)
        else from_slice raw,
      fs_null = was_null, fs_accepts = \<lambda>ty. ty = JSON \<or> ty = JSONB\<rparr>"

definition json_to :: "('a \<Rightarrow> (bytes, sql_error) rresult) \<Rightarrow> 'a to_sql" where
  "json_to to_vec =
     \<lparr>ts_to = \<lambda>v ty. not_null (wseq (if ty = JSONB then put [1] else wok ()) (wbind (wres (to_vec v)) put)),
      ts_accepts = \<lambda>ty. ty = JSON \<or> ty = JSONB, ts_format = binary_format,
      ts_rust = ''postgres_types::serde_json_1::Json''\<rparr>"

end
