(* ===== verification/PgTypesSpec.thy ===== *)
theory PgTypesSpec
  imports PgTypes SqlTypesSpec RangeSpec
begin

text \<open>
  The contract between a \<open>ToSql\<close> and a \<open>FromSql\<close> implementation, as a locale: they accept the same
  types, and what one writes the other reads. It is interpreted by the implementations of the
  standard types and closed under \<open>Option\<close> and \<open>Vec\<close>. Then \<open>SystemTime\<close>, \<open>PgLsn\<close> and the table of
  built-in types.
\<close>

section \<open>The interface of a value codec\<close>

locale sql_codec =
  fixes T :: "'a to_sql" and F :: "'a from_sql" and ok :: "'a \<Rightarrow> bool"
  assumes accepts_same: "ts_accepts T ty \<longleftrightarrow> fs_accepts F ty"
    and writes: "fs_accepts F ty \<Longrightarrow> ok x \<Longrightarrow> appends (ts_to T x ty) (\<lambda>v. from_sql_nullable F ty v = Ok x)"
begin

lemma checked_roundtrip:
  assumes "ok x" and "to_sql_checked T x ty buf = (Ok n, out)"
  shows "fs_accepts F ty \<and> (case n of
      No \<Rightarrow> \<exists>b. out = buf @ b \<and> fs_from F ty b = Ok x
    | Yes \<Rightarrow> out = buf \<and> fs_null F ty = Ok x)"
proof -
  from assms(2) have acc: "fs_accepts F ty" and w: "ts_to T x ty buf = (Ok n, out)"
    by (auto simp: to_sql_checked_def accepts_same wres_def split: if_splits)
  from writes [OF acc assms(1)] w have "case n of
      No \<Rightarrow> \<exists>b. out = buf @ b \<and> from_sql_nullable F ty (Some b) = Ok x
    | Yes \<Rightarrow> out = buf \<and> from_sql_nullable F ty None = Ok x"
    unfolding appends_def by blast
  with acc show ?thesis by (simp add: from_sql_nullable_def split: is_null.splits)
qed

lemma option_codec:
  "sql_codec (option_to T) (option_from F) (\<lambda>v. case v of None \<Rightarrow> True | Some x \<Rightarrow> ok x \<and> (\<forall>ty. fs_null F ty \<noteq> Ok x))"
proof
  show "ts_accepts (option_to T) ty \<longleftrightarrow> fs_accepts (option_from F) ty" for ty
    by (simp add: option_to_def option_from_def accepts_same)
next
  fix ty :: pg_type and v :: "'a option"
  assume acc: "fs_accepts (option_from F) ty"
    and ok: "case v of None \<Rightarrow> True | Some x \<Rightarrow> ok x \<and> (\<forall>ty. fs_null F ty \<noteq> Ok x)"
  show "appends (ts_to (option_to T) v ty) (\<lambda>r. from_sql_nullable (option_from F) ty r = Ok v)"
  proof (cases v)
    case None
    then show ?thesis by (simp add: appends_def option_to_def option_from_def wok_def from_sql_nullable_def)
  next
    case (Some x)
    with acc ok writes [of ty x] have a: "appends (ts_to T x ty) (\<lambda>r. from_sql_nullable F ty r = Ok x)"
      by (simp add: option_from_def)
    have "\<not> from_sql_nullable F ty None = Ok x" using ok Some by (simp add: from_sql_nullable_def)
    with a show ?thesis
      unfolding appends_def by (fastforce simp: Some option_to_def option_from_def from_sql_nullable_def split: is_null.splits)
  qed
qed

lemma vec_codec: "sql_codec (vec_to T) (vec_from F) (list_all ok)"
proof
  show "ts_accepts (vec_to T) ty \<longleftrightarrow> fs_accepts (vec_from F) ty" for ty
    by (simp add: vec_to_def slice_to_def vec_from_def array_accepts_def accepts_same split: type_kind.splits)
next
  fix ty :: pg_type and xs :: "'a list"
  assume acc: "fs_accepts (vec_from F) ty" and ok: "list_all ok xs"
  from acc obtain m where m: "kind_of ty = TArray m" "fs_accepts F m"
    by (auto simp: vec_from_def array_accepts_def split: type_kind.splits)
  show "appends (ts_to (vec_to T) xs ty) (\<lambda>r. from_sql_nullable (vec_from F) ty r = Ok xs)"
    unfolding appends_def
  proof (intro allI impI)
    fix buf n out
    assume w: "ts_to (vec_to T) xs ty buf = (Ok n, out)"
    let ?d = "\<lparr>ad_len = of_nat (length xs), ad_lower_bound = (if ty = OID_VECTOR \<or> ty = INT2_VECTOR then 0 else 1)\<rparr>"
    from w m have len: "length xs \<le> 2147483647" and n: "n = No"
      and a: "array_to_sql [?d] (type_oid m) xs (\<lambda>x. ts_to T x m) buf = (Ok (), out)"
      by (auto simp: vec_to_def slice_to_def slice_to_sql_def member_type_def downcast_def writer_defs
          split: if_splits prod.splits rresult.splits)
    have "appends (ts_to T x m) (\<lambda>v. from_sql_nullable F m v = Ok x)" if "x \<in> set xs" for x
      using writes [OF m(2)] ok that by (simp add: list_all_iff)
    from array_to_sql_list [OF this a] obtain vs where vs: "list_all2 (\<lambda>x v. from_sql_nullable F m v = Ok x) xs vs"
      "list_all value_fits vs" "out = buf @ array_bytes [?d] (type_oid m) vs" by blast
    have l: "length vs = length xs" using vs(1) by (simp add: list_all2_lengthD)
    have u: "unat (of_nat (length xs) :: i32) = length xs" and "0 \<le> sint (of_nat (length xs) :: i32)"
      using i32_len_signed [OF len] by simp_all
    then have d: "list_all dimension_ok [?d]" and p: "dimension_product (take k [?d]) \<le> 2147483647" for k
      using len by (simp_all add: dimension_ok_def take_Cons' )
    from array_bytes_read [OF vs(2) _ d p, of "type_oid m"] l u obtain ar it db where
      r: "array_from_sql (array_bytes [?d] (type_oid m) vs) = Ok ar" "array_dimensions ar = Ok db"
        "collect length array_dimensions_next db = Ok [?d]" "array_values_of ar = Ok it"
        "collect (\<lambda>s. length (av_buf s)) array_values_next it = Ok vs" by auto
    have "list_all2 (\<lambda>v x. from_sql_nullable F m v = Ok x) vs xs"
      using vs(1) by (simp add: list_all2_conv_all_nth)
    from array_values_it.collect_map_iter [OF r(5) this] r(1-4) m(1)
    have "fs_from (vec_from F) ty (array_bytes [?d] (type_oid m) vs) = Ok xs"
      by (simp add: vec_from_def vec_from_sql_def member_type_def)
    with vs(3) n show "case n of
        No \<Rightarrow> \<exists>b. out = buf @ b \<and> from_sql_nullable (vec_from F) ty (Some b) = Ok xs
      | Yes \<Rightarrow> out = buf \<and> from_sql_nullable (vec_from F) ty None = Ok xs"
      by (simp add: from_sql_nullable_def)
  qed
qed

end

section \<open>Its instances\<close>

lemma simple_codec:
  assumes "\<And>x buf. to x buf = (Ok (), buf @ enc x)" and "\<And>x. ok x \<Longrightarrow> from (enc x) = Ok x"
  shows "sql_codec (simple_to rust to expected) (simple_from from expected) ok"
proof
  show "ts_accepts (simple_to rust to expected) ty \<longleftrightarrow> fs_accepts (simple_from from expected) ty" for ty
    by (simp add: simple_to_def simple_from_def)
next
  fix ty :: pg_type and x
  assume "ok x"
  then show "appends (ts_to (simple_to rust to expected) x ty) (\<lambda>v. from_sql_nullable (simple_from from expected) ty v = Ok x)"
    using assms by (auto simp: appends_def simple_to_def simple_from_def not_null_def wseq_def wbind_def wok_def
        from_sql_nullable_def)
qed

lemmas fixed_defs = char_to_sql_def char_from_sql_def int2_to_sql_def int2_from_sql_def int4_to_sql_def int4_from_sql_def
  oid_to_sql_def oid_from_sql_def int8_to_sql_def int8_from_sql_def float4_to_sql_def float4_from_sql_def
  float8_to_sql_def float8_from_sql_def lsn_to_sql_def lsn_from_sql_def

interpretation bool_c: sql_codec bool_to bool_from "\<lambda>_. True"
  unfolding bool_to_def bool_from_def
  by (rule simple_codec [where enc = "\<lambda>v. [if v then 1 else 0]"]) (auto simp: bool_to_sql_def bool_from_sql_def put_def)

interpretation i8_c: sql_codec i8_to i8_from "\<lambda>_. True"
  unfolding i8_to_def i8_from_def by (rule simple_codec [where enc = put_i8]) (simp_all add: fixed_defs put_def u8c.whole_put)

interpretation i16_c: sql_codec i16_to i16_from "\<lambda>_. True"
  unfolding i16_to_def i16_from_def by (rule simple_codec [where enc = put_i16]) (simp_all add: fixed_defs put_def u16c.whole_put)

interpretation i32_c: sql_codec i32_to i32_from "\<lambda>_. True"
  unfolding i32_to_def i32_from_def by (rule simple_codec [where enc = put_i32]) (simp_all add: fixed_defs put_def u32c.whole_put)

interpretation u32_c: sql_codec u32_to u32_from "\<lambda>_. True"
  unfolding u32_to_def u32_from_def by (rule simple_codec [where enc = put_u32]) (simp_all add: fixed_defs put_def u32c.whole_put)

interpretation i64_c: sql_codec i64_to i64_from "\<lambda>_. True"
  unfolding i64_to_def i64_from_def by (rule simple_codec [where enc = put_i64]) (simp_all add: fixed_defs put_def u64c.whole_put)

interpretation f32_c: sql_codec f32_to f32_from "\<lambda>_. True"
  unfolding f32_to_def f32_from_def by (rule simple_codec [where enc = put_u32]) (simp_all add: fixed_defs put_def u32c.whole_put)

interpretation f64_c: sql_codec f64_to f64_from "\<lambda>_. True"
  unfolding f64_to_def f64_from_def by (rule simple_codec [where enc = put_u64]) (simp_all add: fixed_defs put_def u64c.whole_put)

interpretation lsn_c: sql_codec pg_lsn_to pg_lsn_from "\<lambda>_. True"
  unfolding pg_lsn_to_def pg_lsn_from_def by (rule simple_codec [where enc = put_u64]) (simp_all add: fixed_defs put_def u64c.whole_put)

interpretation bytea_c: sql_codec bytea_to bytea_from "\<lambda>_. True"
  by unfold_locales (auto simp: bytea_to_def bytea_from_def appends_def not_null_def wseq_def wbind_def wok_def
      bytea_to_sql_def bytea_from_sql_def put_def from_sql_nullable_def)

interpretation str_c: sql_codec str_to str_from "\<lambda>s. utf8_valid (as_bytes s)"
  by unfold_locales (auto simp: str_to_def str_from_def appends_def not_null_def writer_defs str_to_sql_def
      str_from_sql_def ltree_to_sql_def ltree_from_sql_def lquery_to_sql_def lquery_from_sql_def ltxtquery_to_sql_def
      ltxtquery_from_sql_def text_to_sql_def text_from_as_bytes from_sql_nullable_def read_u8_def)

interpretation vec_i32_c: sql_codec "vec_to i32_to" "vec_from i32_from" "list_all (\<lambda>_. True)"
  by (rule i32_c.vec_codec)

interpretation option_str_c: sql_codec "option_to str_to" "option_from str_from"
    "\<lambda>v. case v of None \<Rightarrow> True | Some x \<Rightarrow> utf8_valid (as_bytes x) \<and> (\<forall>ty. fs_null str_from ty \<noteq> Ok x)"
  by (rule str_c.option_codec)

interpretation vec_option_str_c: sql_codec "vec_to (option_to str_to)" "vec_from (option_from str_from)"
    "list_all (\<lambda>v. case v of None \<Rightarrow> True | Some x \<Rightarrow> utf8_valid (as_bytes x) \<and> (\<forall>ty. fs_null str_from ty \<noteq> Ok x))"
  by (rule option_str_c.vec_codec)

text \<open>
  A list of optional strings survives \<open>Vec<Option<&str>>\<close>: whenever the checked \<open>to_sql\<close>
  accepts the column's type and succeeds, for UTF-8 strings, it has appended one value, not
  \<open>NULL\<close>, and \<open>from_sql\<close> at the same type reads back the same list with its \<open>NULL\<close>s, for text
  arrays, \<open>ltree\<close> arrays and every other type it accepts.
\<close>

theorem option_text_array_roundtrip:
  assumes "list_all (\<lambda>v. case v of None \<Rightarrow> True | Some s \<Rightarrow> utf8_valid (as_bytes s)) xs"
    and "to_sql_checked (vec_to (option_to str_to)) xs ty buf = (Ok n, out)"
  shows "n = No \<and> fs_accepts (vec_from (option_from str_from)) ty \<and>
    (\<exists>b. out = buf @ b \<and> fs_from (vec_from (option_from str_from)) ty b = Ok xs)"
proof -
  have "fs_null str_from ty \<noteq> Ok x" for ty x by (simp add: str_from_def was_null_def)
  with assms(1) have "list_all (\<lambda>v. case v of None \<Rightarrow> True
      | Some x \<Rightarrow> utf8_valid (as_bytes x) \<and> (\<forall>ty. fs_null str_from ty \<noteq> Ok x)) xs"
    by (auto simp: list_all_iff split: option.splits)
  from vec_option_str_c.checked_roundtrip [OF this assms(2)] show ?thesis
    by (cases n) (simp_all add: vec_from_def was_null_def)
qed

section \<open>Times\<close>

lemma usec_split:
  fixes m :: int
  shows "m div 1000000 * 1000000000 + m mod 1000000 * 1000 = 1000 * m"
    and "m div 1000000000 * 1000000 + m mod 1000000000 div 1000 = m div 1000"
proof -
  obtain q r where qr: "q = m div 1000000" "r = m mod 1000000" by blast
  then have "m = q * 1000000 + r" by simp
  then have "q * 1000000000 + r * 1000 = 1000 * m" by simp
  then show "m div 1000000 * 1000000000 + m mod 1000000 * 1000 = 1000 * m" by (simp only: qr)
  have "m div 1000 = (m mod 1000000000 + (m div 1000000000 * 1000000) * 1000) div 1000"
    using div_mult_mod_eq [of m 1000000000] by simp
  also have "\<dots> = m div 1000000000 * 1000000 + m mod 1000000000 div 1000"
    by (subst div_mult_self1) simp_all
  finally show "m div 1000000000 * 1000000 + m mod 1000000000 div 1000 = m div 1000" by simp
qed

lemma system_time_from_sql_iff:
  "system_time_from_sql b = Ok t \<longleftrightarrow> (\<exists>w. b = put_i64 w \<and> t = TIME_SEC_CONVERSION * 1000000000 + 1000 * sint w)"
  by (auto simp: system_time_from_sql_def timestamp_from_sql_def u64c.whole_iff Let_def usec_split abs_if)

lemma to_usec_value: "to_usec d = (if d div 1000 < 18446744073709551616 then Ok (of_int (d div 1000)) else Panic)"
  by (simp add: to_usec_def Let_def usec_split)

lemma sint_i64_bounds: "- 9223372036854775808 \<le> sint (w :: i64) \<and> sint w \<le> 9223372036854775807"
  using sint_ge [of w] sint_less [of w] by simp

text \<open>
  \<open>SystemTime\<close>: every timestamp of the server decodes to the exact time, microseconds from
  2000-01-01. Encoding that time gives the timestamp back, except for the smallest timestamp,
  whose negation overflows (a panic with overflow checks). Encoding any time whose distance
  from 2000 fits writes the number of whole microseconds, truncated towards 2000.
\<close>

theorem system_time_exact:
  "(system_time_from_sql b = Ok t \<longleftrightarrow> (\<exists>w. b = put_i64 w \<and> t = TIME_SEC_CONVERSION * 1000000000 + 1000 * sint w)) \<and>
   system_time_to_sql (TIME_SEC_CONVERSION * 1000000000 + 1000 * sint w) buf =
     (if sint w = - 9223372036854775808 then (Panic, buf) else (Ok (), buf @ put_i64 w)) \<and>
   (\<bar>d\<bar> div 1000 < 9223372036854775808 \<longrightarrow>
      system_time_to_sql (TIME_SEC_CONVERSION * 1000000000 + d) buf =
        (Ok (), buf @ put_i64 (of_int (sgn d * (\<bar>d\<bar> div 1000)))))"
proof (intro conjI impI)
  show "system_time_from_sql b = Ok t \<longleftrightarrow> (\<exists>w. b = put_i64 w \<and> t = TIME_SEC_CONVERSION * 1000000000 + 1000 * sint w)"
    by (rule system_time_from_sql_iff)
next
  show "system_time_to_sql (TIME_SEC_CONVERSION * 1000000000 + 1000 * sint w) buf =
     (if sint w = - 9223372036854775808 then (Panic, buf) else (Ok (), buf @ put_i64 w))"
  proof (cases "0 \<le> sint w")
    case True
    then show ?thesis using sint_i64_bounds [of w]
      by (simp add: system_time_to_sql_def Let_def to_usec_value writer_defs timestamp_to_sql_def)
  next
    case False
    have n: "- (1000 * sint w) div 1000 = - sint w"
      using nonzero_mult_div_cancel_left [of 1000 "- sint w"] by simp
    have "(of_int (- sint w) :: i64) = - w" by simp
    moreover have "sint (- w) = - 9223372036854775808 \<longleftrightarrow> sint w = - 9223372036854775808"
    proof -
      have m: "sint v = - 9223372036854775808 \<longleftrightarrow> v = 0x8000000000000000" for v :: i64
        using signed_word_eqI [of v "0x8000000000000000"] by auto
      have "- w = 0x8000000000000000 \<longleftrightarrow> w = - 0x8000000000000000" by (metis minus_minus)
      moreover have "(- 0x8000000000000000 :: i64) = 0x8000000000000000" by (rule signed_word_eqI) simp
      ultimately show ?thesis unfolding m by simp
    qed
    ultimately show ?thesis using False sint_i64_bounds [of w]
      by (simp add: system_time_to_sql_def Let_def to_usec_value writer_defs timestamp_to_sql_def n)
  qed
next
  assume d: "\<bar>d\<bar> div 1000 < 9223372036854775808"
  show "system_time_to_sql (TIME_SEC_CONVERSION * 1000000000 + d) buf =
        (Ok (), buf @ put_i64 (of_int (sgn d * (\<bar>d\<bar> div 1000))))"
  proof (cases "0 \<le> d")
    case True
    then have s: "sgn d * (\<bar>d\<bar> div 1000) = d div 1000" by (auto simp: sgn_if)
    from True d show ?thesis unfolding s
      by (simp add: system_time_to_sql_def Let_def to_usec_value writer_defs timestamp_to_sql_def)
  next
    case False
    then have s: "sgn d * (\<bar>d\<bar> div 1000) = - (- d div 1000)" and nn: "0 \<le> - d div 1000" by (auto simp: sgn_if)
    let ?k = "- d div 1000"
    have k: "?k < 9223372036854775808" using d False by simp
    have "sint (of_int ?k :: i64) = ?k"
      using k nn by (simp add: signed_of_int signed_take_bit_int_eq_self)
    then have "sint (of_int ?k :: i64) \<noteq> - 9223372036854775808" using nn by simp
    with k False show ?thesis unfolding s
      by (simp add: system_time_to_sql_def Let_def to_usec_value writer_defs timestamp_to_sql_def)
  qed
qed

theorem system_time_exact_witness:
  "system_time_to_sql (TIME_SEC_CONVERSION * 1000000000 + 1500) [] = (Ok (), put_i64 1)"
  using system_time_exact [where d = 1500 and buf = "[]"] by simp

section \<open>Log sequence numbers\<close>

lemma hex_value_upper: "d < 16 \<Longrightarrow> hex_value (upper_digit d) = Some d"
proof -
  assume d: "d < 16"
  then have "(of_char (upper_digit d) :: nat) = (if d < 10 then 48 + d else 55 + d)"
    by (simp add: upper_digit_def)
  with d show ?thesis by (simp add: hex_value_def Let_def)
qed

lemma hex_digits_append: "hex_digits acc (s @ [c]) = Option.bind (hex_digits acc s) (\<lambda>v. map_option (\<lambda>d. 16 * v + d) (hex_value c))"
  by (induction s arbitrary: acc) (auto split: option.splits)

lemma hex_digits_upper: "hex_digits 0 (upper_hex n) = Some n"
proof (induction n rule: upper_hex.induct)
  case (1 n)
  show ?case
  proof (cases "n < 16")
    case True
    then show ?thesis by (subst upper_hex.simps) (simp add: hex_value_upper)
  next
    case False
    then show ?thesis
      using 1 by (subst upper_hex.simps) (simp add: hex_digits_append hex_value_upper)
  qed
qed

definition is_upper_hex :: "char \<Rightarrow> bool" where
  "is_upper_hex c \<longleftrightarrow> (\<exists>d < 16. c = upper_digit d)"

lemma upper_hex_chars: "list_all is_upper_hex (upper_hex n) \<and> upper_hex n \<noteq> []"
proof (induction n rule: upper_hex.induct)
  case (1 n)
  show ?case
  proof (cases "n < 16")
    case True
    then show ?thesis by (subst (1 2) upper_hex.simps) (auto simp: is_upper_hex_def)
  next
    case False
    have "n mod 16 < 16" by simp
    then have "is_upper_hex (upper_digit (n mod 16))" unfolding is_upper_hex_def by blast
    with False 1 show ?thesis by (subst (1 2) upper_hex.simps) simp
  qed
qed

lemma is_upper_hex_range: "is_upper_hex c \<Longrightarrow> c \<noteq> CHR ''/'' \<and> c \<noteq> CHR ''+''"
proof -
  assume "is_upper_hex c"
  then obtain d where "d < 16" "c = upper_digit d" by (auto simp: is_upper_hex_def)
  then have "(of_char c :: nat) = (if d < 10 then 48 + d else 55 + d)" by (simp add: upper_digit_def)
  then have "(of_char c :: nat) \<noteq> of_char CHR ''/''" "(of_char c :: nat) \<noteq> of_char CHR ''+''" by auto
  then show ?thesis by blast
qed

lemma parse_hex_upper: "n < 2 ^ 64 \<Longrightarrow> parse_hex (upper_hex n) = Some n"
proof -
  assume n: "n < 2 ^ 64"
  have "strip_plus (upper_hex n) = upper_hex n"
    using upper_hex_chars [of n] is_upper_hex_range by (cases "upper_hex n") (auto simp: strip_plus_def)
  with n upper_hex_chars [of n] show ?thesis by (simp add: parse_hex_def hex_digits_upper)
qed

lemma lsn_split: "or (push_bit 32 (of_nat (unat (drop_bit 32 l)))) (of_nat (unat (and l 0xFFFFFFFF))) = (l :: 64 word)"
proof -
  have "bit (or (push_bit 32 (drop_bit 32 l)) (and l 0xFFFFFFFF)) n = bit l n" if "n < 64" for n
    using that bit_mask_iff [where 'a = "64 word", of 32 n]
    by (auto simp: bit_simps mask_eq_exp_minus_1)
  then have "or (push_bit 32 (drop_bit 32 l)) (and l 0xFFFFFFFF) = l"
    by (intro bit_word_eqI) simp
  then show ?thesis by simp
qed

text \<open>
  \<open>PgLsn\<close>: parsing what \<open>Display\<close> prints gives the number back, for all of the 64-bit numbers.
\<close>

theorem pg_lsn_roundtrip: "pg_lsn_from_str (pg_lsn_display l) = Some l"
proof -
  let ?h = "upper_hex (unat (drop_bit 32 l))" and ?l = "upper_hex (unat (and l 0xFFFFFFFF))"
  have "\<forall>c \<in> set ?h. c \<noteq> CHR ''/''"
    using upper_hex_chars [of "unat (drop_bit 32 l)"] is_upper_hex_range by (auto simp: list_all_iff)
  then have "split_once CHR ''/'' (?h @ ''/'' @ ?l) = Some (?h, ?l)"
    by (simp add: split_once_def takeWhile_append2 dropWhile_append2)
  moreover have "unat (drop_bit 32 l) < 2 ^ 64" "unat (and l 0xFFFFFFFF) < 2 ^ 64"
    using unsigned_less [of "drop_bit 32 l"] unsigned_less [of "and l 0xFFFFFFFF"] by simp_all
  ultimately show ?thesis
    using lsn_split [of l] by (simp add: pg_lsn_from_str_def pg_lsn_display_def parse_hex_upper del: of_nat_unat)
qed

section \<open>The built-in types\<close>

lemma builtin_oids_bounded: "list_all (\<lambda>n. n < 4294967296) builtin_oids"
  unfolding builtin_oids_def by simp

definition element_of :: "builtin_kind \<Rightarrow> nat option" where
  "element_of k = (case k of BArray e \<Rightarrow> Some e | BRange e \<Rightarrow> Some e | BMultirange e \<Rightarrow> Some e | _ \<Rightarrow> None)"

lemma builtin_elements: "list_all (\<lambda>(n, k). case element_of k of Some e \<Rightarrow> List.member builtin_oids e | None \<Rightarrow> True) builtin_kinds"
  unfolding builtin_kinds_def builtin_oids_def by (simp add: element_of_def)

lemma type_from_oid_eq: "type_from_oid oid = Some t \<longleftrightarrow> (\<exists>n. t = Builtin n \<and> n \<in> set builtin_oids \<and> type_oid t = oid)"
proof -
  have "unat (of_nat n :: u32) = n" if "n \<in> set builtin_oids" for n
    using that builtin_oids_bounded by (auto simp: list_all_iff unat_of_nat)
  then show ?thesis by (auto simp: type_from_oid_def List.member_iff)
qed

lemma builtin_kind_element:
  assumes "map_of builtin_kinds n = Some k" and "element_of k = Some e"
  shows "e \<in> set builtin_oids"
  using map_of_SomeD [OF assms(1)] assms(2) builtin_elements by (fastforce simp: list_all_iff List.member_iff)

text \<open>
  The table of built-in types is consistent: \<open>from_oid\<close> finds exactly the types of the table, each
  under its own OID, and the element type of every built-in array, range and multirange is
  again a built-in type that \<open>from_oid\<close> finds. So the lookup of a built-in type never asks the
  server for anything.
\<close>

theorem builtin_types_consistent:
  "(type_from_oid oid = Some t \<longleftrightarrow> (\<exists>n. t = Builtin n \<and> n \<in> set builtin_oids \<and> type_oid t = oid)) \<and>
   (kind_of (Builtin n) \<in> {TArray m, TRange m, TMultirange m} \<longrightarrow> type_from_oid (type_oid m) = Some m)"
proof (rule conjI)
  show "type_from_oid oid = Some t \<longleftrightarrow> (\<exists>n. t = Builtin n \<and> n \<in> set builtin_oids \<and> type_oid t = oid)"
    by (rule type_from_oid_eq)
  show "kind_of (Builtin n) \<in> {TArray m, TRange m, TMultirange m} \<longrightarrow> type_from_oid (type_oid m) = Some m"
  proof
    assume k: "kind_of (Builtin n) \<in> {TArray m, TRange m, TMultirange m}"
    obtain b e where "map_of builtin_kinds n = Some b" "element_of b = Some e" "m = Builtin e"
      using k by (auto simp: builtin_kind_of_def element_of_def split: option.splits builtin_kind.splits)
    with builtin_kind_element have "e \<in> set builtin_oids" "m = Builtin e" by blast+
    then show "type_from_oid (type_oid m) = Some m" unfolding type_from_oid_eq by blast
  qed
qed

theorem builtin_types_consistent_witness: "type_from_oid (type_oid TEXT) = Some TEXT"
proof -
  have "map_of builtin_kinds 1009 = Some (BArray 25)" unfolding builtin_kinds_def by simp
  then have "kind_of (Builtin 1009) \<in> {TArray TEXT, TRange TEXT, TMultirange TEXT}" by (simp add: builtin_kind_of_def)
  then show ?thesis using builtin_types_consistent [of 0 TEXT 1009 TEXT] by blast
qed

theorem option_text_array_roundtrip_witness:
  "\<exists>out b. to_sql_checked (vec_to (option_to str_to)) [Some ''ab'', None] (Builtin 1009) [] = (Ok No, out) \<and>
     out = [] @ b \<and> fs_from (vec_from (option_from str_from)) (Builtin 1009) b = Ok [Some ''ab'', None]"
proof -
  let ?xs = "[Some ''ab'', None] :: str option list"
  have k: "builtin_kind_of 1009 = TArray TEXT" unfolding builtin_kind_of_def builtin_kinds_def by simp
  have nm: "map_of builtin_names 25 = Some ''text''" unfolding builtin_names_def by simp
  have "fst (to_sql_checked (vec_to (option_to str_to)) ?xs (Builtin 1009) []) = Ok No"
    by (simp add: to_sql_checked_def vec_to_def slice_to_def array_accepts_def k option_to_def str_to_def str_accepts_def
        slice_to_sql_def member_type_def downcast_def writer_defs array_to_sql_def write_element_def write_nullable_def
        str_to_sql_def not_null_def nm text_to_sql_def i32_from_usize_def write_at_def usize_sub_def Let_def)
  then obtain out where w: "to_sql_checked (vec_to (option_to str_to)) ?xs (Builtin 1009) [] = (Ok No, out)"
    by (metis prod.collapse)
  have "list_all (\<lambda>v. case v of None \<Rightarrow> True | Some s \<Rightarrow> utf8_valid (as_bytes s)) ?xs"
    by simp
  from option_text_array_roundtrip [OF this w] w show ?thesis by blast
qed

end
