(* ===== verification/Kingbase.thy ===== *)
theory Kingbase
  imports PgTypesSpec
begin

text \<open>
  \<open>tokio-postgres/src/kingbase\<close>: the compatibility mode of a KingbaseES connection
  (\<open>client.rs\<close>, \<open>CompatibleMode\<close>), the type mappings and codec aliases of the MySQL mode
  (\<open>mysql_types.rs\<close>) and the wrappers \<open>TinyInt\<close> and \<open>Year\<close> (\<open>types.rs\<close>). An alias lets a Rust type
  that does not accept the server's own type be used through a PostgreSQL type of the same wire
  format; what must hold of it is that it is never a different format.
\<close>

section \<open>Compatibility modes\<close>

datatype compatible_mode = PgMode | OracleMode | MysqlMode | SqlServerMode

text \<open>
  \<open>str::trim\<close>: the characters of the Unicode property \<open>White_Space\<close>, by their UTF-8 bytes, are
  removed at both ends; \<open>eq_ignore_ascii_case\<close>.
\<close>

definition white_space :: "str list" where
  "white_space = map (map (\<lambda>n. char_of (n :: nat)))
     ([[32], [9], [10], [11], [12], [13], [0xC2, 0x85], [0xC2, 0xA0], [0xE1, 0x9A, 0x80],
       [0xE2, 0x80, 0xA8], [0xE2, 0x80, 0xA9], [0xE2, 0x80, 0xAF], [0xE2, 0x81, 0x9F], [0xE3, 0x80, 0x80]] @
      map (\<lambda>n. [0xE2, 0x80, n]) [0x80..<0x8B])"

function trim_front :: "str list \<Rightarrow> str \<Rightarrow> str" where
  "trim_front ws s =
     (case find (\<lambda>w. w \<noteq> [] \<and> take (length w) s = w) ws of
        Some w \<Rightarrow> trim_front ws (drop (length w) s)
      | None \<Rightarrow> s)"
  by pat_completeness auto
termination
proof (relation "measure (\<lambda>(ws, s). length s)", goal_cases)
  case (2 ws s w)
  then have "w \<noteq> []" "take (length w) s = w" by (auto simp: find_Some_iff)
  then have "w \<noteq> []" "s \<noteq> []" by auto
  then show ?case by simp
qed simp

declare trim_front.simps [simp del]

definition trim :: "str \<Rightarrow> str" where
  "trim s = rev (trim_front (map rev white_space) (rev (trim_front white_space s)))"

definition ascii_lower :: "char \<Rightarrow> char" where
  "ascii_lower c = (if 65 \<le> (of_char c :: nat) \<and> (of_char c :: nat) \<le> 90 then char_of (of_char c + 32 :: nat) else c)"

definition eq_ignore_ascii_case :: "str \<Rightarrow> str \<Rightarrow> bool" where
  "eq_ignore_ascii_case a b \<longleftrightarrow> map ascii_lower a = map ascii_lower b"

definition from_database_mode :: "str option \<Rightarrow> compatible_mode" where
  "from_database_mode mode =
     (case mode of None \<Rightarrow> PgMode
      | Some m \<Rightarrow>
          let m = trim m in
          if m = [] then PgMode
          else if eq_ignore_ascii_case m ''oracle'' then OracleMode
          else if eq_ignore_ascii_case m ''mysql'' then MysqlMode
          else if eq_ignore_ascii_case m ''sqlserver'' then SqlServerMode
          else PgMode)"

section \<open>Type mappings\<close>

abbreviation SYS_SCHEMA :: str where "SYS_SCHEMA \<equiv> ''sys''"

record mysql_type_mapping =
  mt_oid :: u32
  mt_name :: str
  mt_schema :: str

text \<open>The only strategy of the table is \<open>CustomPending\<close>, which maps to no type of its own.\<close>

definition mysql_type_mappings :: "mysql_type_mapping list" where
  "mysql_type_mappings = [\<lparr>mt_oid = 8100, mt_name = ''tinyint'', mt_schema = SYS_SCHEMA\<rparr>]"

definition map_mysql_type :: "str \<Rightarrow> u32 \<Rightarrow> type_kind \<Rightarrow> str \<Rightarrow> pg_type option" where
  "map_mysql_type nm oid k schema =
     (case find (\<lambda>m. mt_oid m = oid \<and> mt_name m = nm \<and> mt_schema m = schema \<and> k = TSimple) mysql_type_mappings of
        Some _ \<Rightarrow> None
      | None \<Rightarrow> None)"

definition read_codec_alias :: "pg_type \<Rightarrow> pg_type option" where
  "read_codec_alias ty =
     (if schema_of ty \<noteq> SYS_SCHEMA \<or> kind_of ty \<noteq> TSimple then None
      else if type_oid ty = 7944 \<and> name_of ty = ''date'' then Some DATE
      else if type_oid ty = 7950 \<and> name_of ty = ''time'' then Some TIME
      else if type_oid ty = 7952 \<and> name_of ty = ''datetime'' then Some TIMESTAMP
      else if type_oid ty = 3383 \<and> name_of ty = ''binary'' then Some BYTEA
      else if type_oid ty = 3384 \<and> name_of ty = ''varbinary'' then Some BYTEA
      else None)"

definition is_domain_over :: "pg_type \<Rightarrow> pg_type \<Rightarrow> bool" where
  "is_domain_over ty base_type = (case kind_of ty of TDomain base \<Rightarrow> base = base_type | _ \<Rightarrow> False)"

definition is_sys_blob_domain :: "pg_type \<Rightarrow> bool" where
  "is_sys_blob_domain ty =
     (case kind_of ty of
        TDomain base \<Rightarrow>
          schema_of base = SYS_SCHEMA \<and> type_oid base = 8013 \<and> name_of base = ''blob'' \<and> is_domain_over base BYTEA
      | _ \<Rightarrow> False)"

definition param_codec_alias :: "pg_type \<Rightarrow> pg_type option" where
  "param_codec_alias ty =
     (if schema_of ty \<noteq> SYS_SCHEMA then None
      else if type_oid ty = 7944 \<and> name_of ty = ''date'' \<and> kind_of ty = TSimple then Some DATE
      else if type_oid ty = 7950 \<and> name_of ty = ''time'' \<and> kind_of ty = TSimple then Some TIME
      else if type_oid ty = 7952 \<and> name_of ty = ''datetime'' \<and> kind_of ty = TSimple then Some TIMESTAMP
      else if (type_oid ty = 3383 \<and> name_of ty = ''binary'' \<or> type_oid ty = 3384 \<and> name_of ty = ''varbinary'') \<and>
              kind_of ty = TSimple then Some BYTEA
      else if type_oid ty = 7016 \<and> name_of ty = ''mediumint'' \<and> is_domain_over ty INT4 then Some INT4
      else if (type_oid ty = 7020 \<and> name_of ty = ''tinytext'' \<or> type_oid ty = 7019 \<and> name_of ty = ''mediumtext'' \<or>
               type_oid ty = 7018 \<and> name_of ty = ''longtext'') \<and> is_domain_over ty TEXT then Some TEXT
      else if type_oid ty = 8013 \<and> name_of ty = ''blob'' \<and> is_domain_over ty BYTEA then Some BYTEA
      else if (type_oid ty = 7023 \<and> name_of ty = ''tinyblob'' \<or> type_oid ty = 7022 \<and> name_of ty = ''mediumblob'' \<or>
               type_oid ty = 7021 \<and> name_of ty = ''longblob'') \<and> is_sys_blob_domain ty then Some BYTEA
      else if type_oid ty = 7024 \<and> name_of ty = ''json'' \<and> is_domain_over ty JSONB then Some JSONB
      else None)"

definition param_codec_alias_for_mode :: "compatible_mode \<Rightarrow> pg_type \<Rightarrow> pg_type option" where
  "param_codec_alias_for_mode mode ty = (case mode of MysqlMode \<Rightarrow> param_codec_alias ty | _ \<Rightarrow> None)"

definition read_codec_alias_for_mode :: "compatible_mode \<Rightarrow> pg_type \<Rightarrow> pg_type option" where
  "read_codec_alias_for_mode mode ty = (case mode of MysqlMode \<Rightarrow> read_codec_alias ty | _ \<Rightarrow> None)"

section \<open>\<open>TinyInt\<close> and \<open>Year\<close>\<close>

definition is_sys_tinyint :: "pg_type \<Rightarrow> bool" where
  "is_sys_tinyint ty \<longleftrightarrow> type_oid ty = 8100 \<and> name_of ty = ''tinyint'' \<and> schema_of ty = SYS_SCHEMA \<and> kind_of ty = TSimple"

definition tinyint_from :: "i8 from_sql" where
  "tinyint_from =
     \<lparr>fs_from = \<lambda>ty raw. if length raw \<noteq> 1 then Err (Msg ''invalid buffer size'') else Ok (raw ! 0),
      fs_null = was_null, fs_accepts = is_sys_tinyint\<rparr>"

definition tinyint_to :: "i8 to_sql" where
  "tinyint_to =
     \<lparr>ts_to = \<lambda>v ty. not_null (put (put_i8 v)), ts_accepts = is_sys_tinyint, ts_format = binary_format,
      ts_rust = ''kingbase::types::TinyInt''\<rparr>"

definition year_new :: "i32 \<Rightarrow> (i32, sql_error) rresult" where
  "year_new v =
     (if 1901 \<le> sint v \<and> sint v \<le> 2155 then Ok v
      else Err (Msg (''year value '' @ show_int (sint v) @ '' is outside the supported range 1901..=2155'')))"

definition is_sys_year :: "pg_type \<Rightarrow> bool" where
  "is_sys_year ty \<longleftrightarrow> type_oid ty = 7025 \<and> name_of ty = ''year'' \<and> schema_of ty = SYS_SCHEMA \<and> is_domain_over ty INT4"

definition year_from :: "i32 from_sql" where
  "year_from =
     \<lparr>fs_from = \<lambda>ty raw. if length raw \<noteq> 4 then Err (Msg ''invalid buffer size'') else year_new (of_nat (be_val raw)),
      fs_null = was_null, fs_accepts = is_sys_year\<rparr>"

definition year_to :: "i32 to_sql" where
  "year_to =
     \<lparr>ts_to = \<lambda>v ty. not_null (put (put_i32 v)), ts_accepts = is_sys_year, ts_format = binary_format,
      ts_rust = ''kingbase::types::Year''\<rparr>"

text \<open>A \<open>Year\<close> exists only through \<open>Year::new\<close>.\<close>

definition year_ok :: "i32 \<Rightarrow> bool" where
  "year_ok v \<longleftrightarrow> year_new v = Ok v"

interpretation tinyint_c: sql_codec tinyint_to tinyint_from "\<lambda>_. True"
  by unfold_locales (auto simp: tinyint_to_def tinyint_from_def appends_def not_null_def writer_defs from_sql_nullable_def)

lemma be_val_put_i32: "of_nat (be_val (put_i32 v)) = (v :: i32)"
  using u32c.get_put_end [of v] by (simp add: read_word_cases put_word_def)

interpretation year_c: sql_codec year_to year_from year_ok
  by unfold_locales (auto simp: year_to_def year_from_def appends_def not_null_def writer_defs from_sql_nullable_def
      year_ok_def be_val_put_i32)

section \<open>The aliases\<close>

text \<open>The type an alias stands in for: a domain has the wire format of its innermost base type.\<close>

fun wire_type :: "pg_type \<Rightarrow> pg_type" where
  "wire_type (OtherType nm oid (TDomain base) schema) = wire_type base"
| "wire_type ty = ty"

lemma domain_cases: "is_domain_over ty b \<Longrightarrow> b = Builtin k \<Longrightarrow> schema_of ty = SYS_SCHEMA \<Longrightarrow> wire_type ty = b"
  by (cases ty) (auto simp: is_domain_over_def builtin_kind_of_def split: type_kind.splits)

lemma blob_domain_cases: "is_sys_blob_domain ty \<Longrightarrow> schema_of ty = SYS_SCHEMA \<Longrightarrow> wire_type ty = BYTEA"
  by (cases ty) (auto simp: is_sys_blob_domain_def domain_cases builtin_kind_of_def split: type_kind.splits)

lemma param_alias_sys: "param_codec_alias ty = Some a \<Longrightarrow> schema_of ty = SYS_SCHEMA"
  unfolding param_codec_alias_def by (erule contrapos_pp) simp

lemma param_alias_kind:
  "param_codec_alias ty = Some a \<Longrightarrow> kind_of ty = TSimple \<or> is_domain_over ty a \<or> is_sys_blob_domain ty \<and> a = BYTEA"
  unfolding param_codec_alias_def
  by (simp only: split: if_split_asm; simp only: option.inject option.distinct; blast)

lemma param_alias_builtin: "param_codec_alias ty = Some a \<Longrightarrow> \<exists>n. a = Builtin n"
proof -
  let ?b = "pred_option (\<lambda>a. case a of Builtin n \<Rightarrow> True | OtherType nm oid k schema \<Rightarrow> False)"
  have "?b (param_codec_alias ty)"
    unfolding param_codec_alias_def if_distrib [of ?b] by (simp only: option.pred_inject pg_type.case if_cancel)
  moreover assume "param_codec_alias ty = Some a"
  ultimately show ?thesis by (cases a) simp_all
qed

lemma read_alias_param: "read_codec_alias ty = Some a \<Longrightarrow> param_codec_alias ty = Some a"
proof -
  assume r: "read_codec_alias ty = Some a"
  then have s: "schema_of ty = SYS_SCHEMA" "kind_of ty = TSimple"
    by (simp_all add: read_codec_alias_def split: if_split_asm)
  consider "type_oid ty = 7944" "name_of ty = ''date''" "a = DATE" | "type_oid ty = 7950" "name_of ty = ''time''" "a = TIME"
    | "type_oid ty = 7952" "name_of ty = ''datetime''" "a = TIMESTAMP"
    | "type_oid ty = 3383" "name_of ty = ''binary''" "a = BYTEA"
    | "type_oid ty = 3384" "name_of ty = ''varbinary''" "a = BYTEA"
    using r s by (simp add: read_codec_alias_def split: if_split_asm)
  then show ?thesis
    by cases (simp_all add: param_codec_alias_def s)
qed

text \<open>
  The MySQL codec aliases change no other connection and no other type: they exist only in
  the MySQL mode and only for types of the schema \<open>sys\<close>, never for a built-in type, so a
  PostgreSQL, Oracle or SQL Server connection encodes and decodes exactly as without them. An
  alias of a domain is the base type the domain is over, so its wire format is the server's;
  an alias for reading is also one for writing.
\<close>

theorem codec_aliases_contained:
  "(mode \<noteq> MysqlMode \<longrightarrow> param_codec_alias_for_mode mode ty = None \<and> read_codec_alias_for_mode mode ty = None) \<and>
   (param_codec_alias_for_mode mode ty = Some a \<longrightarrow>
      schema_of ty = SYS_SCHEMA \<and> (\<forall>n. ty \<noteq> Builtin n) \<and> (\<forall>base. kind_of ty = TDomain base \<longrightarrow> a = wire_type ty) \<and>
      (\<exists>n. a = Builtin n)) \<and>
   (read_codec_alias_for_mode mode ty = Some a \<longrightarrow> param_codec_alias_for_mode mode ty = Some a)"
proof (intro conjI impI)
  assume "mode \<noteq> MysqlMode"
  then show "param_codec_alias_for_mode mode ty = None" "read_codec_alias_for_mode mode ty = None"
    by (cases mode; simp add: param_codec_alias_for_mode_def read_codec_alias_for_mode_def)+
next
  assume p: "param_codec_alias_for_mode mode ty = Some a"
  then have a: "param_codec_alias ty = Some a"
    by (simp add: param_codec_alias_for_mode_def split: compatible_mode.splits)
  show b: "\<exists>n. a = Builtin n" by (rule param_alias_builtin [OF a])
  show s: "schema_of ty = SYS_SCHEMA" by (rule param_alias_sys [OF a])
  then show "\<forall>n. ty \<noteq> Builtin n" by auto
  show "\<forall>base. kind_of ty = TDomain base \<longrightarrow> a = wire_type ty"
    using param_alias_kind [OF a] s b domain_cases [of ty a] blob_domain_cases [of ty] by fastforce
next
  assume "read_codec_alias_for_mode mode ty = Some a"
  then show "param_codec_alias_for_mode mode ty = Some a"
    by (cases mode) (simp_all add: read_codec_alias_for_mode_def param_codec_alias_for_mode_def read_alias_param)
qed

definition sys_longblob :: pg_type where
  "sys_longblob = OtherType ''longblob'' 7021 (TDomain (OtherType ''blob'' 8013 (TDomain BYTEA) ''sys'')) ''sys''"

theorem codec_aliases_contained_witness:
  "param_codec_alias_for_mode MysqlMode sys_longblob = Some BYTEA \<and> BYTEA = wire_type sys_longblob \<and>
   param_codec_alias_for_mode PgMode sys_longblob = None"
proof -
  have "param_codec_alias_for_mode MysqlMode sys_longblob = Some BYTEA"
    by (simp add: param_codec_alias_for_mode_def param_codec_alias_def sys_longblob_def is_domain_over_def is_sys_blob_domain_def)
  moreover have "kind_of sys_longblob = TDomain (OtherType ''blob'' 8013 (TDomain BYTEA) ''sys'')"
    by (simp add: sys_longblob_def)
  ultimately show ?thesis
    using codec_aliases_contained [of MysqlMode sys_longblob BYTEA] codec_aliases_contained [of PgMode sys_longblob BYTEA]
    by blast
qed

text \<open>
  \<open>Year\<close>: a value decodes exactly when it is four bytes that hold a year of 1901 to 2155, and
  is then what \<open>to_sql\<close> writes for it; \<open>from_sql\<close> and \<open>to_sql\<close> accept only the domain \<open>sys.year\<close> over
  \<open>int4\<close>, never \<open>int4\<close> itself.
\<close>

theorem year_exact:
  "(fs_from year_from ty b = Ok v \<longleftrightarrow> 1901 \<le> sint v \<and> sint v \<le> 2155 \<and> ts_to year_to v ty [] = (Ok No, b)) \<and>
   \<not> fs_accepts year_from INT4 \<and> fs_accepts year_from ty = ts_accepts year_to ty"
proof (intro conjI)
  show "\<not> fs_accepts year_from INT4"
    by (simp add: year_from_def is_sys_year_def)
  show "fs_accepts year_from ty = ts_accepts year_to ty" by (rule year_c.accepts_same [symmetric])
  have "length b = 4 \<and> of_nat (be_val b) = v \<longleftrightarrow> b = put_i32 v"
  proof
    assume "length b = 4 \<and> of_nat (be_val b) = v"
    then have "read_i32 b = Ok (v, [])" by (simp add: read_word_cases)
    then show "b = put_i32 v" by (simp add: u32c.get_iff)
  qed (simp add: be_val_put_i32)
  then show "fs_from year_from ty b = Ok v \<longleftrightarrow> 1901 \<le> sint v \<and> sint v \<le> 2155 \<and> ts_to year_to v ty [] = (Ok No, b)"
    by (auto simp: year_from_def year_to_def year_new_def not_null_def writer_defs)
qed

end
