(* ===== verification/Rows.thy ===== *)
theory Rows
  imports Kingbase DbErrors
begin

text \<open>
  \<open>tokio-postgres/src/statement.rs\<close> (the data of statements and columns) and \<open>row.rs\<close>: rows,
  indexing by position and by name, and the decoding of a column with its codec alias; the rows
  of simple queries, whose values are all text.
\<close>

section \<open>Columns and statements\<close>

record column =
  col_name :: str
  col_table_oid :: "u32 option"
  col_column_id :: "i16 option"
  col_type_modifier :: i32
  col_type :: pg_type
  col_codec_type :: "pg_type option"

record statement =
  st_name :: str
  st_params :: "pg_type list"
  st_param_codec_types :: "pg_type option list"
  st_columns :: "column list"

text \<open>\<open>Statement::new\<close> with its \<open>debug_assert_eq\<close>, and \<open>Statement::unnamed\<close>.\<close>

definition statement_new ::
  "str \<Rightarrow> pg_type list \<Rightarrow> pg_type option list \<Rightarrow> column list \<Rightarrow> (statement, 'e) rresult" where
  "statement_new nm params codecs columns =
     (if length params \<noteq> length codecs then Panic
      else Ok \<lparr>st_name = nm, st_params = params, st_param_codec_types = codecs, st_columns = columns\<rparr>)"

definition statement_unnamed :: "pg_type list \<Rightarrow> column list \<Rightarrow> statement" where
  "statement_unnamed params columns =
     \<lparr>st_name = [], st_params = params, st_param_codec_types = replicate (length params) None, st_columns = columns\<rparr>"

definition param_codec_types :: "statement \<Rightarrow> (pg_type option list, 'e) rresult" where
  "param_codec_types s =
     (if length (st_params s) \<noteq> length (st_param_codec_types s) then Panic else Ok (st_param_codec_types s))"

section \<open>Indexing\<close>

fun position :: "('a \<Rightarrow> bool) \<Rightarrow> 'a list \<Rightarrow> nat option" where
  "position P [] = None"
| "position P (x # xs) = (if P x then Some 0 else map_option Suc (position P xs))"

datatype row_index = IdxUsize nat | IdxStr str

primrec row_idx :: "row_index \<Rightarrow> str list \<Rightarrow> nat option" where
  "row_idx (IdxUsize i) names = (if i \<ge> length names then None else Some i)"
| "row_idx (IdxStr s) names =
     (case position (\<lambda>d. d = s) names of
        Some i \<Rightarrow> Some i
      | None \<Rightarrow> position (\<lambda>d. eq_ignore_ascii_case d s) names)"

primrec index_display :: "row_index \<Rightarrow> str" where
  "index_display (IdxUsize i) = show_nat i"
| "index_display (IdxStr s) = s"

section \<open>Rows\<close>

record row =
  row_statement :: statement
  row_body :: data_row_body
  row_ranges :: "(nat \<times> nat) option list"

definition row_new :: "statement \<Rightarrow> data_row_body \<Rightarrow> (row, error) rresult" where
  "row_new s body =
     map_ok (\<lambda>rs. \<lparr>row_statement = s, row_body = body, row_ranges = rs\<rparr>)
       (map_err err_parse (collect (\<lambda>s. unat (ri_remaining s)) data_row_ranges_next (ranges body)))"

definition row_columns :: "row \<Rightarrow> column list" where
  "row_columns r = st_columns (row_statement r)"

definition row_len :: "row \<Rightarrow> nat" where
  "row_len r = length (row_columns r)"

text \<open>\<open>self.ranges[idx]\<close> and \<open>&self.body.buffer()[range]\<close>: both panic out of bounds.\<close>

definition range_at :: "(nat \<times> nat) option list \<Rightarrow> nat \<Rightarrow> ((nat \<times> nat) option, 'e) rresult" where
  "range_at rs i = (if i < length rs then Ok (rs ! i) else Panic)"

definition slice_at :: "bytes \<Rightarrow> (nat \<times> nat) option \<Rightarrow> (bytes option, 'e) rresult" where
  "slice_at storage r =
     (case r of None \<Rightarrow> Ok None
      | Some (a, e) \<Rightarrow> if a \<le> e \<and> e \<le> length storage then Ok (Some (take (e - a) (drop a storage))) else Panic)"

definition col_buffer :: "row \<Rightarrow> nat \<Rightarrow> (bytes option, 'e) rresult" where
  "col_buffer r i = rbind (range_at (row_ranges r) i) (slice_at (dr_storage (row_body r)))"

text \<open>The type a column is decoded with: its own, or else its codec alias, if the Rust type accepts it.\<close>

definition decode_type :: "(pg_type \<Rightarrow> bool) \<Rightarrow> column \<Rightarrow> pg_type option" where
  "decode_type accepts c =
     (if accepts (col_type c) then Some (col_type c)
      else case col_codec_type c of
             Some a \<Rightarrow> if accepts a then Some a else None
           | None \<Rightarrow> None)"

text \<open>\<open>rust\<close> is the \<open>type_name\<close> of the Rust type asked for.\<close>

definition row_get_inner :: "string \<Rightarrow> 'a from_sql \<Rightarrow> row \<Rightarrow> row_index \<Rightarrow> ('a, error) rresult" where
  "row_get_inner rust F r idx =
     (case row_idx idx (map col_name (row_columns r)) of
        None \<Rightarrow> Err (err_column (index_display idx))
      | Some i \<Rightarrow>
          let c = row_columns r ! i in
          case decode_type (fs_accepts F) c of
            None \<Rightarrow> Err (err_from_sql (CauseSql (wrong_type rust (col_type c))) i)
          | Some ty \<Rightarrow>
              rbind (col_buffer r i) (\<lambda>raw.
                map_err (\<lambda>e. err_from_sql (CauseSql e) i) (from_sql_nullable F ty raw)))"

definition row_try_get :: "string \<Rightarrow> 'a from_sql \<Rightarrow> row \<Rightarrow> row_index \<Rightarrow> ('a, error) rresult" where
  "row_try_get rust F r idx = row_get_inner rust F r idx"

definition row_get :: "string \<Rightarrow> 'a from_sql \<Rightarrow> row \<Rightarrow> row_index \<Rightarrow> ('a, 'e) rresult" where
  "row_get rust F r idx = unwrap (row_get_inner rust F r idx)"

definition raw_size_bytes :: "row \<Rightarrow> nat" where
  "raw_size_bytes r = length (dr_storage (row_body r))"

section \<open>Rows of simple queries\<close>

record simple_query_row =
  sr_columns :: "str list"
  sr_body :: data_row_body
  sr_ranges :: "(nat \<times> nat) option list"

definition simple_row_new :: "str list \<Rightarrow> data_row_body \<Rightarrow> (simple_query_row, error) rresult" where
  "simple_row_new columns body =
     map_ok (\<lambda>rs. \<lparr>sr_columns = columns, sr_body = body, sr_ranges = rs\<rparr>)
       (map_err err_parse (collect (\<lambda>s. unat (ri_remaining s)) data_row_ranges_next (ranges body)))"

definition simple_row_try_get :: "simple_query_row \<Rightarrow> row_index \<Rightarrow> (str option, error) rresult" where
  "simple_row_try_get r idx =
     (case row_idx idx (sr_columns r) of
        None \<Rightarrow> Err (err_column (index_display idx))
      | Some i \<Rightarrow>
          rbind (rbind (range_at (sr_ranges r) i) (slice_at (dr_storage (sr_body r)))) (\<lambda>buf.
            map_err (\<lambda>e. err_from_sql (CauseSql e) i) (from_sql_nullable (option_from str_from) TEXT buf)))"

definition simple_row_get :: "simple_query_row \<Rightarrow> row_index \<Rightarrow> (str option, 'e) rresult" where
  "simple_row_get r idx = unwrap (simple_row_try_get r idx)"

section \<open>What an index finds\<close>

lemma position_Some_iff: "position P xs = Some i \<longleftrightarrow> i < length xs \<and> P (xs ! i) \<and> (\<forall>j < i. \<not> P (xs ! j))"
proof (induction xs arbitrary: i)
  case (Cons x xs)
  then show ?case by (cases i) (auto simp: nth_Cons' All_less_Suc2)
qed simp

lemma position_None_iff: "position P xs = None \<longleftrightarrow> (\<forall>x \<in> set xs. \<not> P x)"
  by (induction xs) auto

lemma row_idx_bound: "row_idx idx names = Some i \<Longrightarrow> i < length names"
  by (cases idx) (auto simp: position_Some_iff split: if_splits option.splits)

text \<open>The first column of that very name, and otherwise the first one up to the case of ASCII letters.\<close>

definition names_column :: "str \<Rightarrow> str list \<Rightarrow> nat \<Rightarrow> bool" where
  "names_column s names i \<longleftrightarrow> i < length names \<and>
     (if s \<in> set names then names ! i = s \<and> (\<forall>j < i. names ! j \<noteq> s)
      else eq_ignore_ascii_case (names ! i) s \<and> (\<forall>j < i. \<not> eq_ignore_ascii_case (names ! j) s))"

lemma row_idx_str: "row_idx (IdxStr s) names = Some i \<longleftrightarrow> names_column s names i"
proof (cases "position (\<lambda>d. d = s) names")
  case None
  then have "s \<notin> set names" by (auto simp: position_None_iff)
  with None show ?thesis by (simp add: position_Some_iff names_column_def)
next
  case (Some k)
  then have k: "k < length names" "names ! k = s" "\<forall>j < k. names ! j \<noteq> s" by (simp_all add: position_Some_iff)
  then have "s \<in> set names" by auto
  then show ?thesis using Some position_Some_iff [of "\<lambda>d. d = s" names i]
    by (auto simp: names_column_def)
qed

lemma range_ok_slice: "range_ok storage r \<Longrightarrow> slice_at storage r = Ok (slice_range storage r)"
  by (auto simp: range_ok_def slice_at_def slice_range_def split: option.splits)

section \<open>Reading a row\<close>

lemma row_new_iff:
  "row_new s body = Ok r \<longleftrightarrow>
     (\<exists>cs. list_all cell_ok cs \<and> length cs = unat (dr_len body) \<and> dr_storage body = concat (map cell_bytes cs) \<and>
        r = \<lparr>row_statement = s, row_body = body, row_ranges = cell_ranges 0 cs\<rparr>)"
  using ranges_list [of "ranges body" 0]
  by (auto simp: row_new_def ranges_def)

lemma col_buffer_cell:
  assumes "list_all cell_ok cs" and "row_ranges r = cell_ranges 0 cs"
    and "dr_storage (row_body r) = concat (map cell_bytes cs)" and "i < length cs"
  shows "col_buffer r i = Ok (cell_value (cs ! i))"
proof -
  have l: "length (cell_ranges 0 cs) = length cs"
    using arg_cong [OF ranges_slice [of cs "[]"], of length] assms(1) by simp
  have "list_all (range_ok (concat (map cell_bytes cs))) (cell_ranges 0 cs)"
    using ranges_within [OF assms(1), of "[]"] by simp
  then have ok: "range_ok (concat (map cell_bytes cs)) (cell_ranges 0 cs ! i)"
    using assms(4) l by (simp add: list_all_length)
  have "map (slice_range (concat (map cell_bytes cs))) (cell_ranges 0 cs) = map cell_value cs"
    using ranges_slice [of cs "[]"] assms(1) by simp
  then have "slice_range (concat (map cell_bytes cs)) (cell_ranges 0 cs ! i) = cell_value (cs ! i)"
    using assms(4) l by (metis nth_map)
  with ok show ?thesis
    using assms l by (simp add: col_buffer_def range_at_def range_ok_slice)
qed

lemma row_of_cells:
  assumes "list_all cell_ok cs" and "length cs < 65536"
  defines "body \<equiv> \<lparr>dr_storage = concat (map cell_bytes cs), dr_len = of_nat (length cs)\<rparr>"
  shows "row_new s body = Ok \<lparr>row_statement = s, row_body = body, row_ranges = cell_ranges 0 cs\<rparr>"
  using assms(1,2) unfolding row_new_iff body_def by (auto simp: unat_of_nat take_bit_eq_mod)

definition index_names :: "row_index \<Rightarrow> str list \<Rightarrow> nat \<Rightarrow> bool" where
  "index_names idx names i \<longleftrightarrow>
     (case idx of IdxUsize n \<Rightarrow> i = n \<and> n < length names | IdxStr s \<Rightarrow> names_column s names i)"

lemma row_idx_iff: "row_idx idx names = Some i \<longleftrightarrow> index_names idx names i"
  by (cases idx) (auto simp: index_names_def row_idx_str simp del: row_idx.simps(2))


definition sample_statement :: statement where
  "sample_statement = statement_unnamed [] [\<lparr>col_name = ''Id'', col_table_oid = None, col_column_id = None,
     col_type_modifier = 0, col_type = INT4, col_codec_type = None\<rparr>]"

lemma sample_columns [simp]: "st_columns sample_statement = [\<lparr>col_name = ''Id'', col_table_oid = None,
    col_column_id = None, col_type_modifier = 0, col_type = INT4, col_codec_type = None\<rparr>]"
  by (simp add: sample_statement_def statement_unnamed_def)

lemma i32_accepts [simp]: "fs_accepts i32_from ty \<longleftrightarrow> ty = INT4"
  by (simp add: i32_from_def simple_from_def)


text \<open>
  A data row with fewer values than the statement has columns is accepted, but reading one of
  the missing columns panics, even through \<open>try_get\<close>.
\<close>

theorem short_row_panics:
  fixes cs :: "cell list" and s :: statement and F :: "'a from_sql"
  assumes "list_all cell_ok cs" and "length cs < 65536"
    and "length cs \<le> i" and "i < length (st_columns s)"
    and "fs_accepts F (col_type (st_columns s ! i))"
  shows "\<exists>r. row_new s \<lparr>dr_storage = concat (map cell_bytes cs), dr_len = of_nat (length cs)\<rparr> = Ok r \<and>
     row_try_get rust F r (IdxUsize i) = Panic"
proof -
  have l: "length (cell_ranges 0 cs) = length cs"
    using arg_cong [OF ranges_slice [of cs "[]"], of length] assms(1) by simp
  show ?thesis
    unfolding row_of_cells [OF assms(1,2)] using assms(3-5) l
    by (simp add: row_try_get_def row_get_inner_def row_columns_def decode_type_def col_buffer_def range_at_def)
qed

theorem short_row_panics_witness:
  "\<exists>r. row_new sample_statement \<lparr>dr_storage = [], dr_len = 0\<rparr> = Ok r \<and>
     row_try_get ''i32'' i32_from r (IdxUsize 0) = Panic"
  using short_row_panics [where cs = "[]" and F = i32_from and i = 0 and rust = "''i32''" and s = sample_statement]
  by simp

end
