(* ===== verification/Client.thy ===== *)
theory Client
  imports Rows Connection
begin

text \<open>
  \<open>tokio-postgres/src/client.rs\<close>, \<open>InnerClient\<close> and \<open>Responses\<close>: what every operation of the
  client is made of. An operation is a function of the client's state; the connection task on the
  other side of the request channel is a script \<open>cl_script\<close>, which says for each coming request
  either that the channel is closed (\<open>None\<close>, as is a script that has run out) or which runs of
  messages the response channel of that request will deliver before it closes. A theorem over all
  scripts is a theorem over all behaviours of the server and of the connection.
\<close>

section \<open>The state of a client\<close>

record client =
  cl_script :: "bytes list option list"
  cl_sent :: "request_messages list"
  cl_buffer :: bytes
  cl_typeinfo :: "statement option"
  cl_typeinfo_composite :: "statement option"
  cl_typeinfo_enum :: "statement option"
  cl_types :: "u32 \<rightharpoonup> pg_type"
  cl_compatible_mode :: compatible_mode
  cl_settings :: "str \<rightharpoonup> str"
  cl_next_statement :: nat
  cl_next_portal :: nat

text \<open>
  The two counters \<open>NEXT_ID\<close> of \<open>prepare.rs\<close> and \<open>bind.rs\<close> are process-wide statics; a client
  starts from whatever they are.
\<close>

definition client_new :: "bytes list option list \<Rightarrow> nat \<Rightarrow> nat \<Rightarrow> client" where
  "client_new script next_statement next_portal =
     \<lparr>cl_script = script, cl_sent = [], cl_buffer = [], cl_typeinfo = None, cl_typeinfo_composite = None,
      cl_typeinfo_enum = None, cl_types = Map.empty, cl_compatible_mode = PgMode, cl_settings = Map.empty,
      cl_next_statement = next_statement, cl_next_portal = next_portal\<rparr>"

type_synonym 'a client_op = "client \<Rightarrow> ('a, error) rresult \<times> client"

definition cret :: "'a \<Rightarrow> 'a client_op" where
  "cret x cl = (Ok x, cl)"

definition cres :: "('a, error) rresult \<Rightarrow> 'a client_op" where
  "cres r cl = (r, cl)"

definition cbind :: "'a client_op \<Rightarrow> ('a \<Rightarrow> 'b client_op) \<Rightarrow> 'b client_op" where
  "cbind m f cl =
     (case m cl of (Ok x, cl) \<Rightarrow> f x cl | (Err e, cl) \<Rightarrow> (Err e, cl) | (Panic, cl) \<Rightarrow> (Panic, cl))"

definition cget :: "(client \<Rightarrow> 'a) \<Rightarrow> 'a client_op" where
  "cget f cl = (Ok (f cl), cl)"

definition cmod :: "(client \<Rightarrow> client) \<Rightarrow> unit client_op" where
  "cmod f cl = (Ok (), f cl)"

lemmas cdefs = cret_def cres_def cget_def cmod_def

section \<open>Sending\<close>

record responses =
  rs_cur :: bytes
  rs_runs :: "bytes list"

definition send :: "request_messages \<Rightarrow> responses client_op" where
  "send messages cl =
     (case cl_script cl of
        Some runs # script \<Rightarrow>
          (Ok \<lparr>rs_cur = [], rs_runs = runs\<rparr>, cl\<lparr>cl_script := script, cl_sent := cl_sent cl @ [messages]\<rparr>)
      | None # script \<Rightarrow> (Err err_closed, cl\<lparr>cl_script := script\<rparr>)
      | [] \<Rightarrow> (Err err_closed, cl))"

text \<open>A closure that panics leaves the shared buffer as it is.\<close>

definition with_buf :: "('a, error) writer \<Rightarrow> 'a client_op" where
  "with_buf f cl =
     (case f (cl_buffer cl) of
        (Panic, b) \<Rightarrow> (Panic, cl\<lparr>cl_buffer := b\<rparr>)
      | (r, b) \<Rightarrow> (r, cl\<lparr>cl_buffer := []\<rparr>))"

text \<open>\<open>buf.split().freeze()\<close>\<close>

definition split_buf :: "(bytes, 'e) writer" where
  "split_buf buf = (Ok buf, [])"

section \<open>The cached type information and the server settings\<close>

definition set_typeinfo :: "statement \<Rightarrow> unit client_op" where
  "set_typeinfo s = cmod (\<lambda>cl. cl\<lparr>cl_typeinfo := Some s\<rparr>)"

definition set_typeinfo_composite :: "statement \<Rightarrow> unit client_op" where
  "set_typeinfo_composite s = cmod (\<lambda>cl. cl\<lparr>cl_typeinfo_composite := Some s\<rparr>)"

definition set_typeinfo_enum :: "statement \<Rightarrow> unit client_op" where
  "set_typeinfo_enum s = cmod (\<lambda>cl. cl\<lparr>cl_typeinfo_enum := Some s\<rparr>)"

definition client_type :: "u32 \<Rightarrow> pg_type option client_op" where
  "client_type oid = cget (\<lambda>cl. cl_types cl oid)"

definition set_type :: "u32 \<Rightarrow> pg_type \<Rightarrow> unit client_op" where
  "set_type oid ty = cmod (\<lambda>cl. cl\<lparr>cl_types := (cl_types cl)(oid \<mapsto> ty)\<rparr>)"

definition clear_type_cache :: "unit client_op" where
  "clear_type_cache = cmod (\<lambda>cl. cl\<lparr>cl_types := Map.empty\<rparr>)"

definition kingbase_server_setting :: "str \<Rightarrow> str option client_op" where
  "kingbase_server_setting nm = cget (\<lambda>cl. cl_settings cl nm)"

definition set_kingbase_server_settings :: "(str \<rightharpoonup> str) \<Rightarrow> unit client_op" where
  "set_kingbase_server_settings settings =
     cmod (\<lambda>cl. cl\<lparr>cl_compatible_mode := from_database_mode (settings ''database_mode''), cl_settings := settings\<rparr>)"

section \<open>Reading the responses\<close>

text \<open>\<open>Responses::poll_next\<close>: the next message of the current run, or else of the next runs.\<close>

fun responses_from :: "bytes \<Rightarrow> bytes list \<Rightarrow> (message, error) rresult \<times> responses" where
  "responses_from cur runs =
     (case message_parse cur of
        (Err e, rest) \<Rightarrow> (Err (err_parse e), \<lparr>rs_cur = rest, rs_runs = runs\<rparr>)
      | (Panic, rest) \<Rightarrow> (Panic, \<lparr>rs_cur = rest, rs_runs = runs\<rparr>)
      | (Ok (Some (ErrorResponse body)), rest) \<Rightarrow> (Err (err_db body), \<lparr>rs_cur = rest, rs_runs = runs\<rparr>)
      | (Ok (Some m), rest) \<Rightarrow> (Ok m, \<lparr>rs_cur = rest, rs_runs = runs\<rparr>)
      | (Ok None, rest) \<Rightarrow>
          (case runs of
             [] \<Rightarrow> (Err err_closed, \<lparr>rs_cur = rest, rs_runs = []\<rparr>)
           | r # rs \<Rightarrow> responses_from r rs))"

declare responses_from.simps [simp del]

definition responses_next :: "responses \<Rightarrow> (message, error) rresult \<times> responses" where
  "responses_next r = responses_from (rs_cur r) (rs_runs r)"

definition responses_size :: "responses \<Rightarrow> nat" where
  "responses_size r = length (rs_cur r) + sum_list (map length (rs_runs r))"

lemma message_parse_shrinks: "message_parse b = (Ok (Some m), rest) \<Longrightarrow> length rest < length b"
  by (auto simp: message_parse_exact encode_message_def)

lemma responses_from_size:
  "responses_from cur runs = (Ok m, r) \<Longrightarrow> responses_size r < length cur + sum_list (map length runs)"
proof (induction cur runs arbitrary: r rule: responses_from.induct)
  case (1 cur runs)
  show ?case
  proof (cases "\<exists>rest. message_parse cur = (Ok None, rest)")
    case True
    then obtain rest where p: "message_parse cur = (Ok None, rest)" by blast
    with "1.prems" obtain x xs where runs: "runs = x # xs" "responses_from x xs = (Ok m, r)"
      by (subst (asm) responses_from.simps) (auto split: list.splits)
    from "1.IH" [OF p [symmetric] refl refl runs] runs show ?thesis by simp
  next
    case False
    with "1.prems" obtain rest where "message_parse cur = (Ok (Some m), rest)" "r = \<lparr>rs_cur = rest, rs_runs = runs\<rparr>"
      by (subst (asm) responses_from.simps) (auto split: prod.splits rresult.splits option.splits message.splits)
    then show ?thesis by (simp add: responses_size_def message_parse_shrinks)
  qed
qed

lemma responses_next_size: "responses_next r = (Ok m, r') \<Longrightarrow> responses_size r' < responses_size r"
  unfolding responses_next_def by (drule responses_from_size) (simp add: responses_size_def)

text \<open>
  The loop \<open>loop { match responses.next().await? { ... } }\<close> of the operations: its body stops with
  a result or goes round with a new state. It ends because every message takes bytes off the runs.
\<close>

datatype ('s, 'r) loop_step = Stop 's "('r, error) rresult" | Go 's

function message_loop ::
  "('s \<Rightarrow> message \<Rightarrow> ('s, 'r) loop_step) \<Rightarrow> 's \<Rightarrow> responses \<Rightarrow> ('r, error) rresult \<times> 's \<times> responses" where
  "message_loop body s r =
     (case responses_next r of
        (Err e, r') \<Rightarrow> (Err e, s, r')
      | (Panic, r') \<Rightarrow> (Panic, s, r')
      | (Ok m, r') \<Rightarrow>
          (case body s m of
             Stop s' x \<Rightarrow> (x, s', r')
           | Go s' \<Rightarrow> message_loop body s' r'))"
  by pat_completeness auto
termination
  by (relation "measure (\<lambda>(body, s, r). responses_size r)") (auto dest: sym [THEN responses_next_size])

declare message_loop.simps [simp del]

section \<open>The messages a channel delivers\<close>

text \<open>
  Under the codec every run is a sequence of whole messages. The loops then only depend on the
  messages, not on how they were cut into runs.
\<close>

definition delivers :: "responses \<Rightarrow> message list \<Rightarrow> bool" where
  "delivers r ms \<longleftrightarrow>
     (\<exists>mss. map encode_all mss = rs_cur r # rs_runs r \<and> concat mss = ms \<and> list_all message_wf ms)"

definition is_error :: "message \<Rightarrow> bool" where
  "is_error m \<longleftrightarrow> (case m of ErrorResponse _ \<Rightarrow> True | _ \<Rightarrow> False)"

definition message_result :: "message \<Rightarrow> (message, error) rresult" where
  "message_result m = (case m of ErrorResponse b \<Rightarrow> Err (err_db b) | _ \<Rightarrow> Ok m)"

lemma parse_encoded: "message_wf m \<Longrightarrow> message_parse (encode_message m @ r) = (Ok (Some m), r)"
  by (simp add: message_parse_exact)

lemma parse_nothing: "message_parse [] = (Ok None, [])"
  by (simp add: message_parse_def)

definition reads :: "bytes \<Rightarrow> bytes list \<Rightarrow> message list \<Rightarrow> bool" where
  "reads cur runs ms \<longleftrightarrow>
     (case ms of
        [] \<Rightarrow> responses_from cur runs = (Err err_closed, \<lparr>rs_cur = [], rs_runs = []\<rparr>)
      | m # ms \<Rightarrow> \<exists>r. responses_from cur runs = (message_result m, r) \<and> delivers r ms)"

lemma responses_from_list:
  "list_all message_wf (concat mss) \<Longrightarrow> map encode_all mss = cur # runs \<Longrightarrow> reads cur runs (concat mss)"
proof (induction mss arbitrary: cur runs)
  case Nil
  then show ?case by simp
next
  case (Cons ms mss)
  show ?case
  proof (cases ms)
    case Nil
    with Cons.prems have cur: "cur = []" and runs: "map encode_all mss = runs" by auto
    have c: "concat (ms # mss) = concat mss" using Nil by (simp only: concat.simps append_Nil)
    show ?thesis
    proof (cases runs)
      case Nil
      with runs have "mss = []" by simp
      then show ?thesis unfolding c reads_def cur Nil
        by (subst responses_from.simps) (simp add: parse_nothing)
    next
      case (Cons x xs)
      have e: "responses_from cur runs = responses_from x xs"
        unfolding cur Cons by (subst responses_from.simps) (simp add: parse_nothing)
      have "reads x xs (concat mss)" using Cons.IH [of x xs] Cons.prems(1) runs Cons c by simp
      then show ?thesis unfolding c reads_def e .
    qed
  next
    case (Cons m ms')
    with Cons.prems have cur: "cur = encode_message m @ encode_all ms'" and wf: "message_wf m" by auto
    let ?r = "\<lparr>rs_cur = encode_all ms', rs_runs = runs\<rparr>"
    have "responses_from cur runs = (message_result m, ?r)"
      unfolding cur by (subst responses_from.simps) (simp add: parse_encoded wf message_result_def split: message.splits)
    moreover have "delivers ?r (ms' @ concat mss)"
      unfolding delivers_def using Cons.prems Cons by (intro exI [of _ "ms' # mss"]) simp
    ultimately show ?thesis using Cons by (simp add: reads_def)
  qed
qed

lemma delivers_reads: "delivers r ms \<Longrightarrow> reads (rs_cur r) (rs_runs r) ms"
  unfolding delivers_def by (elim exE conjE, hypsubst, rule responses_from_list)

lemma delivers_next:
  assumes "delivers r (m # ms)"
  obtains r' where "responses_next r = (message_result m, r')" "delivers r' ms"
  using delivers_reads [OF assms] by (auto simp: responses_next_def reads_def)

lemma delivers_end: "delivers r [] \<Longrightarrow> fst (responses_next r) = Err err_closed"
  by (drule delivers_reads) (simp add: responses_next_def reads_def)

primrec loop_list ::
  "('s \<Rightarrow> message \<Rightarrow> ('s, 'r) loop_step) \<Rightarrow> 's \<Rightarrow> message list \<Rightarrow> ('r, error) rresult \<times> 's" where
  "loop_list body s [] = (Err err_closed, s)"
| "loop_list body s (m # ms) =
     (case message_result m of
        Ok m \<Rightarrow> (case body s m of Stop s' x \<Rightarrow> (x, s') | Go s' \<Rightarrow> loop_list body s' ms)
      | Err e \<Rightarrow> (Err e, s)
      | Panic \<Rightarrow> (Panic, s))"

lemma message_loop_list:
  "delivers r ms \<Longrightarrow> \<exists>r'. message_loop body s r = (fst (loop_list body s ms), snd (loop_list body s ms), r')"
proof (induction ms arbitrary: s r)
  case Nil
  then show ?case using delivers_end [OF Nil]
    by (subst message_loop.simps) (auto split: prod.splits)
next
  case (Cons m ms)
  obtain r' where r': "responses_next r = (message_result m, r')" "delivers r' ms"
    using delivers_next [OF Cons.prems] .
  show ?case
  proof (cases "message_result m")
    case (Ok m')
    show ?thesis
    proof (cases "body s m'")
      case (Go s')
      with Cons.IH [OF r'(2), of s'] r'(1) Ok show ?thesis by (subst message_loop.simps) simp
    qed (subst message_loop.simps, use r'(1) Ok in simp)
  qed (subst message_loop.simps, use r'(1) in simp)+
qed

text \<open>What an opened channel delivers: the runs of the script.\<close>

lemma opened_delivers:
  "map encode_all mss = runs \<Longrightarrow> list_all message_wf (concat mss) \<Longrightarrow> delivers \<lparr>rs_cur = [], rs_runs = runs\<rparr> (concat mss)"
  unfolding delivers_def by (intro exI [of _ "[] # mss"]) simp

section \<open>Rules for operations\<close>

lemma cbind_Ok: "cbind m f cl = (Ok y, cl') \<longleftrightarrow> (\<exists>x cl1. m cl = (Ok x, cl1) \<and> f x cl1 = (Ok y, cl'))"
  by (auto simp: cbind_def split: prod.splits rresult.splits)

lemma cbind_run: "m cl = (Ok x, cl1) \<Longrightarrow> cbind m f cl = f x cl1"
  by (simp add: cbind_def)

lemma cbind_Err: "m cl = (Err e, cl1) \<Longrightarrow> cbind m f cl = (Err e, cl1)"
  by (simp add: cbind_def)

end
