(* ===== verification/Query.thy ===== *)
theory Query
  imports Client
begin

text \<open>
  \<open>tokio-postgres/src/query.rs\<close> without the two operations that look types up (\<open>TypedQuery\<close>):
  encoding the parameters with their codec aliases, running a prepared statement or a portal, and
  the stream of rows; \<open>bind.rs\<close> and \<open>portal.rs\<close>; the closing of dropped statements and portals.
\<close>

section \<open>Encoding the parameters\<close>

record encoded_param =
  ep_format :: i16
  ep_value :: "bytes option"

definition format_code :: "format \<Rightarrow> i16" where
  "format_code f = (case f of FormatText \<Rightarrow> 0 | FormatBinary \<Rightarrow> 1)"

definition param_value :: "is_null \<Rightarrow> bytes \<Rightarrow> bytes option" where
  "param_value null buf = (case null of No \<Rightarrow> Some buf | Yes \<Rightarrow> None)"

definition encode_param_with_type :: "dyn_to_sql \<Rightarrow> pg_type \<Rightarrow> (encoded_param, sql_error) rresult" where
  "encode_param_with_type param ty =
     (case dy_checked param ty [] of
        (Ok null, buf) \<Rightarrow> Ok \<lparr>ep_format = format_code (dy_format param ty), ep_value = param_value null buf\<rparr>
      | (Err e, buf) \<Rightarrow> Err e
      | (Panic, buf) \<Rightarrow> Panic)"

definition is_wrong_type :: "sql_error \<Rightarrow> bool" where
  "is_wrong_type e \<longleftrightarrow> (case e of WrongType _ _ \<Rightarrow> True | _ \<Rightarrow> False)"

definition encode_param_with_alias ::
  "dyn_to_sql \<Rightarrow> pg_type \<Rightarrow> pg_type option \<Rightarrow> (encoded_param, sql_error) rresult" where
  "encode_param_with_alias param original_type codec_type =
     (case encode_param_with_type param original_type of
        Ok encoded \<Rightarrow> Ok encoded
      | Panic \<Rightarrow> Panic
      | Err original_error \<Rightarrow>
          if is_wrong_type original_error then
            (case codec_type of
               Some ty \<Rightarrow>
                 (case encode_param_with_type param ty of
                    Ok encoded \<Rightarrow> Ok encoded
                  | Panic \<Rightarrow> Panic
                  | Err codec_error \<Rightarrow> Err (if is_wrong_type codec_error then original_error else codec_error))
             | None \<Rightarrow> Err original_error)
          else Err original_error)"

type_synonym typed_param = "dyn_to_sql \<times> pg_type \<times> pg_type option"

fun encode_params :: "nat \<Rightarrow> typed_param list \<Rightarrow> (encoded_param list, error) rresult" where
  "encode_params idx [] = Ok []"
| "encode_params idx ((param, original_type, codec_type) # ps) =
     rbind (map_err (\<lambda>e. err_to_sql (CauseSql e) idx) (encode_param_with_alias param original_type codec_type))
       (\<lambda>encoded. map_ok (Cons encoded) (encode_params (Suc idx) ps))"

definition write_param :: "encoded_param \<Rightarrow> (is_null, sql_error) writer" where
  "write_param p = (case ep_value p of Some v \<Rightarrow> wseq (put v) (wok No) | None \<Rightarrow> wok Yes)"

primrec err_bind :: "sql_error bind_error \<Rightarrow> error" where
  "err_bind (Conversion e) = err_to_sql (CauseSql e) 0"
| "err_bind (Serialization e) = err_encode e"

definition encode_bind_raw :: "str \<Rightarrow> typed_param list \<Rightarrow> str \<Rightarrow> (unit, error) writer" where
  "encode_bind_raw statement_name params portal =
     wbind (wres (encode_params 0 params)) (\<lambda>encoded_params.
       map_werr err_bind
         (bind Io portal statement_name (map ep_format encoded_params) encoded_params write_param [1]))"

definition encode_bind :: "statement \<Rightarrow> dyn_to_sql list \<Rightarrow> str \<Rightarrow> (unit, error) writer" where
  "encode_bind st params portal =
     (if length params \<noteq> length (st_params st)
      then wres (Err (err_parameters (length params) (length (st_params st))))
      else wbind (wres (param_codec_types st)) (\<lambda>codecs.
             encode_bind_raw (st_name st) (zip params (zip (st_params st) codecs)) portal))"

definition query_encode :: "statement \<Rightarrow> dyn_to_sql list \<Rightarrow> bytes client_op" where
  "query_encode st params =
     with_buf (wseq (encode_bind st params [])
              (wseq (map_werr err_encode (execute [] 0))
              (wseq sync split_buf)))"

section \<open>Running a statement\<close>

definition send_raw :: "bytes \<Rightarrow> responses client_op" where
  "send_raw buf = send (Single (Raw buf))"

text \<open>\<open>responses.next().await?\<close> followed by a match on the one message expected.\<close>

definition expect :: "(message \<Rightarrow> 'a option) \<Rightarrow> responses \<Rightarrow> ('a \<times> responses) client_op" where
  "expect f r cl =
     (case responses_next r of
        (Ok m, r') \<Rightarrow> (case f m of Some x \<Rightarrow> (Ok (x, r'), cl) | None \<Rightarrow> (Err err_unexpected_message, cl))
      | (Err e, r') \<Rightarrow> (Err e, cl)
      | (Panic, r') \<Rightarrow> (Panic, cl))"

definition is_bind_complete :: "message \<Rightarrow> unit option" where
  "is_bind_complete m = (case m of BindComplete \<Rightarrow> Some () | _ \<Rightarrow> None)"

definition start :: "bytes \<Rightarrow> responses client_op" where
  "start buf =
     cbind (send_raw buf) (\<lambda>responses.
     cbind (expect is_bind_complete responses) (\<lambda>(_, responses). cret responses))"

text \<open>\<open>tag.rsplit(' ').next().unwrap().parse().unwrap_or(0)\<close>\<close>

definition last_word :: "str \<Rightarrow> str" where
  "last_word s = rev (takeWhile (\<lambda>c. c \<noteq> CHR '' '') (rev s))"

definition extract_row_affected :: "bytes \<Rightarrow> (u64, error) rresult" where
  "extract_row_affected body =
     rbind (map_err err_parse (command_tag body)) (\<lambda>tag.
       Ok (case parse_unsigned 18446744073709551615 (last_word tag) of Some n \<Rightarrow> of_nat n | None \<Rightarrow> 0))"

definition go_affected :: "bytes \<Rightarrow> 's \<Rightarrow> (u64 \<Rightarrow> 's) \<Rightarrow> ('s, 'r) loop_step" where
  "go_affected body s f =
     (case extract_row_affected body of Ok n \<Rightarrow> Go (f n) | Err e \<Rightarrow> Stop s (Err e) | Panic \<Rightarrow> Stop s Panic)"

definition execute_body :: "u64 \<Rightarrow> message \<Rightarrow> (u64, u64) loop_step" where
  "execute_body rows m =
     (case m of
        DataRow _ \<Rightarrow> Go rows
      | CommandComplete body \<Rightarrow> go_affected body rows id
      | EmptyQueryResponse \<Rightarrow> Go 0
      | ReadyForQuery _ \<Rightarrow> Stop rows (Ok rows)
      | _ \<Rightarrow> Stop rows (Err err_unexpected_message))"

definition query_execute :: "statement \<Rightarrow> dyn_to_sql list \<Rightarrow> u64 client_op" where
  "query_execute st params =
     cbind (query_encode st params) (\<lambda>buf.
     cbind (start buf) (\<lambda>responses.
       cres (fst (message_loop execute_body 0 responses))))"

section \<open>Row streams\<close>

record row_stream =
  rw_statement :: statement
  rw_responses :: responses
  rw_rows_affected :: "u64 option"

definition stream_body :: "statement \<Rightarrow> u64 option \<Rightarrow> message \<Rightarrow> (u64 option, row option) loop_step" where
  "stream_body st affected m =
     (case m of
        DataRow body \<Rightarrow> Stop affected (map_ok Some (row_new st body))
      | CommandComplete body \<Rightarrow> go_affected body affected Some
      | EmptyQueryResponse \<Rightarrow> Go affected
      | PortalSuspended \<Rightarrow> Go affected
      | ReadyForQuery _ \<Rightarrow> Stop affected (Ok None)
      | _ \<Rightarrow> Stop affected (Err err_unexpected_message))"

definition row_stream_next :: "row_stream \<Rightarrow> (row option, error) rresult \<times> row_stream" where
  "row_stream_next s =
     (case message_loop (stream_body (rw_statement s)) (rw_rows_affected s) (rw_responses s) of
        (x, affected, r) \<Rightarrow> (x, s\<lparr>rw_responses := r, rw_rows_affected := affected\<rparr>))"

definition rows_affected :: "row_stream \<Rightarrow> u64 option" where
  "rows_affected s = rw_rows_affected s"

lemma message_loop_size: "message_loop body s r = (Ok x, s', r') \<Longrightarrow> responses_size r' < responses_size r"
proof (induction body s r rule: message_loop.induct)
  case (1 body s r)
  from "1.prems" obtain m r1 where n: "responses_next r = (Ok m, r1)"
    by (subst (asm) message_loop.simps) (auto split: prod.splits rresult.splits)
  note d = responses_next_size [OF n]
  show ?case
  proof (cases "body s m")
    case (Stop s1 y)
    with "1.prems" n d show ?thesis by (subst (asm) message_loop.simps) simp
  next
    case (Go s1)
    with "1.prems" n have "message_loop body s1 r1 = (Ok x, s', r')" by (subst (asm) message_loop.simps) simp
    from "1.IH" [OF n [symmetric] refl Go this] d show ?thesis by simp
  qed
qed

lemma row_stream_size:
  "row_stream_next s = (Ok (Some r), s') \<Longrightarrow> responses_size (rw_responses s') < responses_size (rw_responses s)"
  by (auto simp: row_stream_next_def dest: message_loop_size split: prod.splits)

text \<open>\<open>try_collect\<close>: all rows, or the first error.\<close>

function stream_collect :: "row_stream \<Rightarrow> (row list, error) rresult \<times> row_stream" where
  "stream_collect s =
     (case row_stream_next s of
        (Ok None, s') \<Rightarrow> (Ok [], s')
      | (Ok (Some r), s') \<Rightarrow> (map_ok (Cons r) (fst (stream_collect s')), snd (stream_collect s'))
      | (Err e, s') \<Rightarrow> (Err e, s')
      | (Panic, s') \<Rightarrow> (Panic, s'))"
  by pat_completeness auto
termination
  by (relation "measure (\<lambda>s. responses_size (rw_responses s))") (auto dest: sym [THEN row_stream_size])

declare stream_collect.simps [simp del]

definition query_query :: "statement \<Rightarrow> dyn_to_sql list \<Rightarrow> row_stream client_op" where
  "query_query st params =
     cbind (query_encode st params) (\<lambda>buf.
     cbind (start buf) (\<lambda>responses.
       cret \<lparr>rw_statement = st, rw_responses = responses, rw_rows_affected = None\<rparr>))"

section \<open>Portals\<close>

record portal =
  pt_name :: str
  pt_statement :: statement

definition query_portal :: "portal \<Rightarrow> i32 \<Rightarrow> row_stream client_op" where
  "query_portal p max_rows =
     cbind (with_buf (wseq (map_werr err_encode (execute (pt_name p) max_rows)) (wseq sync split_buf))) (\<lambda>buf.
     cbind (send_raw buf) (\<lambda>responses.
       cret \<lparr>rw_statement = pt_statement p, rw_responses = responses, rw_rows_affected = None\<rparr>))"

definition next_portal_name :: "str client_op" where
  "next_portal_name cl =
     (Ok (''p'' @ show_nat (cl_next_portal cl)), cl\<lparr>cl_next_portal := (cl_next_portal cl + 1) mod 2 ^ 64\<rparr>)"

definition bind_bind :: "statement \<Rightarrow> dyn_to_sql list \<Rightarrow> portal client_op" where
  "bind_bind st params =
     cbind next_portal_name (\<lambda>nm.
     cbind (with_buf (wseq (encode_bind st params nm) (wseq sync split_buf))) (\<lambda>buf.
     cbind (send_raw buf) (\<lambda>responses.
     cbind (expect is_bind_complete responses) (\<lambda>_.
       cret \<lparr>pt_name = nm, pt_statement = st\<rparr>))))"

definition is_ready_message :: "message \<Rightarrow> unit option" where
  "is_ready_message m = (case m of ReadyForQuery _ \<Rightarrow> Some () | _ \<Rightarrow> None)"

definition query_sync :: "unit client_op" where
  "query_sync =
     cbind (send_raw [0x53, 0, 0, 0, 4]) (\<lambda>responses.
     cbind (expect is_ready_message responses) (\<lambda>_. cret ()))"

section \<open>Dropping statements and portals\<close>

text \<open>
  The last reference is dropped while the client is still there; the result of \<open>send\<close> is ignored
  and the response channel is dropped at once. \<open>close(...).unwrap()\<close> panics if the name has a NUL.
\<close>

definition send_ignored :: "bytes \<Rightarrow> unit client_op" where
  "send_ignored buf cl = (Ok (), snd (send_raw buf cl))"

definition drop_named :: "char \<Rightarrow> str \<Rightarrow> unit client_op" where
  "drop_named variant nm =
     cbind (with_buf (wseq (wunwrap (close (of_char variant) nm)) (wseq sync split_buf))) send_ignored"

definition statement_drop :: "statement \<Rightarrow> unit client_op" where
  "statement_drop st = (if st_name st = [] then cret () else drop_named CHR ''S'' (st_name st))"

definition portal_drop :: "portal \<Rightarrow> unit client_op" where
  "portal_drop p = drop_named CHR ''P'' (pt_name p)"

end
