(* ===== verification/QuerySpec.thy ===== *)
theory QuerySpec
  imports Query
begin

text \<open>
  Properties of \<open>Query\<close>: what the server reads from an execution request, and the outcome of
  \<open>execute\<close> and of draining a row stream as functions of the messages the server sent.
\<close>

section \<open>The request\<close>

lemma write_param_denotes: "vdenotes (write_param p) (Ok (ep_value p))"
  by (auto simp: vdenotes_def write_param_def writer_defs split: option.splits)

interpretation param_ser: value_serializer write_param "\<lambda>p. Ok (ep_value p)" Io
  by unfold_locales (rule write_param_denotes)

text \<open>The encoding of one parameter: at its own type, or at the alias if the type is refused.\<close>

definition param_encodes :: "typed_param \<Rightarrow> encoded_param \<Rightarrow> bool" where
  "param_encodes p e \<longleftrightarrow>
     (case p of (d, ty, alias) \<Rightarrow>
        encode_param_with_type d ty = Ok e \<or>
        (\<exists>pg rust a. encode_param_with_type d ty = Err (WrongType pg rust) \<and> alias = Some a \<and>
           encode_param_with_type d a = Ok e))"

lemma encode_param_alias_iff: "encode_param_with_alias d ty alias = Ok e \<longleftrightarrow> param_encodes (d, ty, alias) e"
  by (auto simp: encode_param_with_alias_def param_encodes_def is_wrong_type_def
      split: rresult.splits option.splits sql_error.splits)

lemma encode_params_iff: "encode_params idx ps = Ok es \<longleftrightarrow> list_all2 param_encodes ps es"
proof (induction ps arbitrary: idx es)
  case Nil
  then show ?case by auto
next
  case (Cons p ps)
  obtain d ty a where p: "p = (d, ty, a)" by (metis prod_cases3)
  show ?case unfolding p by (auto simp: encode_param_alias_iff Cons list_all2_Cons1)
qed

lemma map_werr_Ok: "map_werr g w buf = (Ok x, out) \<longleftrightarrow> w buf = (Ok x, out)"
  by (cases "w buf") (auto simp: map_werr_def)

text \<open>The parameters that fit a \<open>Bind\<close> message, and its payload.\<close>

definition bind_fits :: "str \<Rightarrow> str \<Rightarrow> encoded_param list \<Rightarrow> bool" where
  "bind_fits portal nm es \<longleftrightarrow>
     0 \<notin> set (as_bytes portal) \<and> 0 \<notin> set (as_bytes nm) \<and> length es \<le> 65535 \<and>
     list_all (value_fits \<circ> ep_value) es \<and>
     length (bind_payload portal nm (map ep_format es) (map ep_value es) [1]) + 4 \<le> 2147483647"

lemma map_ep_value: "map (\<lambda>p. Ok (ep_value p) :: (bytes option, sql_error) rresult) es = map Ok vs \<longleftrightarrow> vs = map ep_value es"
  by (induction es arbitrary: vs) (auto simp: Cons_eq_map_conv)

lemma bind_params_iff:
  "bind Io portal nm (map ep_format es) es write_param [1] buf = (Ok (), out) \<longleftrightarrow>
     bind_fits portal nm es \<and>
     out = buf @ frame_bytes CHR ''B'' (bind_payload portal nm (map ep_format es) (map ep_value es) [1])"
proof -
  let ?r = "bind_image Io portal nm (map ep_format es) (map (\<lambda>p. Ok (ep_value p)) es) [1]"
  have d: "denotes (bind Io portal nm (map ep_format es) es write_param [1]) ?r"
    by (rule param_ser.bind_denotes)
  have "?r = Ok ext \<longleftrightarrow> bind_fits portal nm es \<and>
      ext = frame_bytes CHR ''B'' (bind_payload portal nm (map ep_format es) (map ep_value es) [1])" for ext
    by (auto simp: bind_image_eq_Ok map_ep_value bind_fits_def list.pred_map)
  then show ?thesis
    using denotes_Ok_out [OF d] denotes_run [of _ "frame_bytes CHR ''B'' (bind_payload portal nm (map ep_format es) (map ep_value es) [1])" buf] d
    by (metis)
qed

lemma encode_bind_raw_iff:
  "encode_bind_raw nm ps portal buf = (Ok (), out) \<longleftrightarrow>
     (\<exists>es. list_all2 param_encodes ps es \<and> bind_fits portal nm es \<and>
        out = buf @ frame_bytes CHR ''B'' (bind_payload portal nm (map ep_format es) (map ep_value es) [1]))"
proof (cases "encode_params 0 ps")
  case (Ok es)
  then have "list_all2 param_encodes ps es'  \<longleftrightarrow> es' = es" for es'
    by (auto simp: encode_params_iff [of 0, symmetric])
  with Ok show ?thesis
    by (auto simp: encode_bind_raw_def wbind_def wres_def map_werr_Ok bind_params_iff)
next
  case (Err e)
  then have "\<not> list_all2 param_encodes ps es'" for es' by (auto simp: encode_params_iff [of 0, symmetric])
  with Err show ?thesis by (simp add: encode_bind_raw_def wbind_def wres_def)
next
  case Panic
  then have "\<not> list_all2 param_encodes ps es'" for es' by (auto simp: encode_params_iff [of 0, symmetric])
  with Panic show ?thesis by (simp add: encode_bind_raw_def wbind_def wres_def)
qed

lemma bind_fits_read:
  "bind_fits portal nm es \<Longrightarrow>
     server_bind (bind_payload portal nm (map ep_format es) (map ep_value es) [1]) =
       Some (as_bytes portal, as_bytes nm, map (unat \<circ> ep_format) es, map ep_value es, [1])"
  unfolding bind_fits_def by (subst server_bind_payload) (auto simp: list_all_iff)

lemma wseq_Ok: "wseq m n buf = (Ok y, out) \<longleftrightarrow> (\<exists>x mid. m buf = (Ok x, mid) \<and> n mid = (Ok y, out))"
  by (auto simp: wseq_def wbind_def split: prod.splits rresult.splits)

lemma with_buf_Ok:
  "with_buf f cl = (Ok x, cl') \<longleftrightarrow> (\<exists>b. f (cl_buffer cl) = (Ok x, b) \<and> cl' = cl\<lparr>cl_buffer := []\<rparr>)"
  by (auto simp: with_buf_def split: prod.splits rresult.splits)

lemma split_buf_Ok: "split_buf buf = (Ok b, out) \<longleftrightarrow> b = buf \<and> out = []"
  by (auto simp: split_buf_def)

lemma sync_run: "sync buf = (Ok (), buf @ frame_bytes CHR ''S'' [])"
  using sync_denotes by (rule denotes_run)

lemma execute_run:
  "execute p n buf = (Ok (), out) \<longleftrightarrow>
     0 \<notin> set (as_bytes p) \<and> length p + 9 \<le> 2147483647 \<and> out = buf @ frame_bytes CHR ''E'' (as_bytes p @ 0 # put_i32 n)"
proof -
  have "icat (cstr_image (as_bytes p)) (Ok (put_i32 n)) = Ok b \<longleftrightarrow> 0 \<notin> set (as_bytes p) \<and> b = as_bytes p @ 0 # put_i32 n" for b
    by (auto simp: icat_eq_Ok cstr_image_eq_Ok)
  then have "frame CHR ''E'' (icat (cstr_image (as_bytes p)) (Ok (put_i32 n))) = Ok ext \<longleftrightarrow>
      0 \<notin> set (as_bytes p) \<and> length p + 9 \<le> 2147483647 \<and> ext = frame_bytes CHR ''E'' (as_bytes p @ 0 # put_i32 n)" for ext
    by (auto simp: frame_bytes_Ok)
  then show ?thesis
    using denotesD [OF execute_denotes, of p n buf] denotes_Ok_out [OF execute_denotes]
    by (cases "frame CHR ''E'' (icat (cstr_image (as_bytes p)) (Ok (put_i32 n)))") (auto simp: outcome_def)
qed

lemma encode_bind_iff:
  "encode_bind st params portal buf = (Ok (), out) \<longleftrightarrow>
     length params = length (st_params st) \<and> length (st_params st) = length (st_param_codec_types st) \<and>
     (\<exists>es. list_all2 param_encodes (zip params (zip (st_params st) (st_param_codec_types st))) es \<and>
        bind_fits portal (st_name st) es \<and>
        out = buf @ frame_bytes CHR ''B'' (bind_payload portal (st_name st) (map ep_format es) (map ep_value es) [1]))"
  by (auto simp: encode_bind_def param_codec_types_def wbind_def wres_def encode_bind_raw_iff)

lemma query_request_exact_iff:
  assumes "cl_buffer cl = []"
  shows "query_encode st params cl = (Ok buf, cl') \<longleftrightarrow>
     cl' = cl \<and> length params = length (st_params st) \<and> length (st_params st) = length (st_param_codec_types st) \<and>
     (\<exists>es p. list_all2 param_encodes (zip params (zip (st_params st) (st_param_codec_types st))) es \<and>
        bind_fits [] (st_name st) es \<and>
        p = bind_payload [] (st_name st) (map ep_format es) (map ep_value es) [1] \<and>
        server_bind p = Some ([], as_bytes (st_name st), map (unat \<circ> ep_format) es, map ep_value es, [1]) \<and>
        buf = frame_bytes CHR ''B'' p @ frame_bytes CHR ''E'' (0 # put_i32 0) @ frame_bytes CHR ''S'' [])"
proof -
  have cl: "cl\<lparr>cl_buffer := []\<rparr> = cl" using assms by simp
  have "query_encode st params cl = (Ok buf, cl') \<longleftrightarrow>
      cl' = cl \<and> (\<exists>mid. encode_bind st params [] [] = (Ok (), mid) \<and>
        buf = mid @ frame_bytes CHR ''E'' (0 # put_i32 0) @ frame_bytes CHR ''S'' [])"
    using cl assms by (auto simp: query_encode_def with_buf_Ok wseq_Ok map_werr_Ok execute_run sync_run split_buf_Ok)
  then show ?thesis
    unfolding encode_bind_iff append_Nil
    by (auto simp: bind_fits_read [of "[]", simplified])
qed

text \<open>
  C13. What the server reads from an execution. \<open>encode\<close> returns bytes exactly when there is one
  parameter per declared type, each is converted by its \<open>ToSql\<close> at the declared type or, only where
  the Rust type refuses that type, at the codec alias, and everything fits the message. The bytes
  are three frames, \<open>Bind\<close>, \<open>Execute\<close> and \<open>Sync\<close>, and nothing else; the server reads the unnamed portal,
  the statement's name, the formats and values of the parameters in order, and the binary result
  format. The client is left unchanged.
\<close>

theorem query_request_exact:
  assumes "cl_buffer cl = []"
  shows "query_encode st params cl = (Ok buf, cl') \<longleftrightarrow>
     cl' = cl \<and> length params = length (st_params st) \<and> length (st_params st) = length (st_param_codec_types st) \<and>
     (\<exists>es p. list_all2 param_encodes (zip params (zip (st_params st) (st_param_codec_types st))) es \<and>
        bind_fits [] (st_name st) es \<and>
        p = bind_payload [] (st_name st) (map ep_format es) (map ep_value es) [1] \<and>
        server_bind p = Some ([], as_bytes (st_name st), map (unat \<circ> ep_format) es, map ep_value es, [1]) \<and>
        buf = frame_bytes CHR ''B'' p @ frame_bytes CHR ''E'' (0 # put_i32 0) @ frame_bytes CHR ''S'' [])"
  using assms by (rule query_request_exact_iff)

definition sample_st :: statement where
  "sample_st = \<lparr>st_name = ''s0'', st_params = [INT4], st_param_codec_types = [None], st_columns = []\<rparr>"

lemma sample_encodes: "param_encodes (dyn i32_to 7, INT4, None) \<lparr>ep_format = 1, ep_value = Some [0, 0, 0, 7]\<rparr>"
proof -
  have "put_i32 (7 :: i32) = [0, 0, 0, 7]" by code_simp
  then show ?thesis
    by (simp add: param_encodes_def encode_param_with_type_def dyn_def to_sql_checked_def i32_to_def simple_to_def
        not_null_def writer_defs int4_to_sql_def format_code_def binary_format_def param_value_def)
qed

lemma query_encode_run:
  assumes "list_all2 param_encodes (zip params (zip (st_params st) (st_param_codec_types st))) es"
    and "length params = length (st_params st)" and "length (st_params st) = length (st_param_codec_types st)"
    and "cl_buffer cl = []" and "bind_fits [] (st_name st) es"
  shows "\<exists>buf. query_encode st params cl = (Ok buf, cl)"
  unfolding query_request_exact_iff [OF assms(4)]
  using assms bind_fits_read [OF assms(5)] by simp blast

lemma sample_query:
  assumes "cl_buffer cl = []"
  shows "\<exists>buf. query_encode sample_st [dyn i32_to 7] cl = (Ok buf, cl)"
proof -
  let ?e = "\<lparr>ep_format = 1 :: i16, ep_value = Some [0, 0, 0, 7]\<rparr>"
  have "length (bind_payload [] (st_name sample_st) (map ep_format [?e]) (map ep_value [?e]) [1]) = 22"
    by (simp add: sample_st_def bind_payload_def counted_bytes_def value_bytes_def)
  then have f: "bind_fits [] (st_name sample_st) [?e]"
    unfolding bind_fits_def by (simp add: sample_st_def value_fits_def)
  have "list_all2 param_encodes (zip [dyn i32_to 7] (zip (st_params sample_st) (st_param_codec_types sample_st))) [?e]"
    using sample_encodes by (simp add: sample_st_def)
  moreover have "length [dyn i32_to 7] = length (st_params sample_st)"
    and "length (st_params sample_st) = length (st_param_codec_types sample_st)"
    by (simp_all add: sample_st_def)
  ultimately show ?thesis
    using assms f by (intro query_encode_run)
qed

theorem query_request_exact_witness:
  "\<exists>buf p. query_encode sample_st [dyn i32_to 7] (client_new [] 0 0) = (Ok buf, client_new [] 0 0) \<and>
     (\<exists>es :: encoded_param list. server_bind p = Some ([], as_bytes ''s0'', map (unat \<circ> ep_format) es, map ep_value es, [1]))"
proof -
  have b: "cl_buffer (client_new [] 0 0) = []" by (simp add: client_new_def)
  then obtain buf where q: "query_encode sample_st [dyn i32_to 7] (client_new [] 0 0) = (Ok buf, client_new [] 0 0)"
    using sample_query by blast
  have n: "st_name sample_st = ''s0''" by (simp add: sample_st_def)
  from query_request_exact [OF b, THEN iffD1, OF q] obtain es :: "encoded_param list" and p where
    "server_bind p = Some ([], as_bytes (st_name sample_st), map (unat \<circ> ep_format) es, map ep_value es, [1])"
    by (elim conjE exE) (rule that)
  with q show ?thesis unfolding n by (intro exI conjI)
qed

section \<open>The outcome\<close>

text \<open>The number of rows a message reports: the number at the end of a command tag, 0 without one.\<close>

definition tag_rows :: "bytes \<Rightarrow> u64" where
  "tag_rows t = (case parse_unsigned 18446744073709551615 (last_word (of_bytes t)) of Some n \<Rightarrow> of_nat n | None \<Rightarrow> 0)"

definition affected :: "u64 \<Rightarrow> message \<Rightarrow> u64" where
  "affected n m = (case m of CommandComplete t \<Rightarrow> tag_rows t | EmptyQueryResponse \<Rightarrow> 0 | _ \<Rightarrow> n)"

definition reports :: "message \<Rightarrow> bool" where
  "reports m \<longleftrightarrow> (case m of DataRow _ \<Rightarrow> True | CommandComplete t \<Rightarrow> utf8_valid t | EmptyQueryResponse \<Rightarrow> True | _ \<Rightarrow> False)"

lemma extract_row_affected_iff: "extract_row_affected t = Ok n \<longleftrightarrow> utf8_valid t \<and> n = tag_rows t"
  by (auto simp: extract_row_affected_def command_tag_def get_str_iff tag_rows_def split: option.splits)

lemma extract_row_affected_not_Panic: "extract_row_affected t \<noteq> Panic"
  by (simp add: extract_row_affected_def command_tag_def rbind_eq_Panic)

lemma go_affected_Go: "go_affected t s f = Go x \<longleftrightarrow> utf8_valid t \<and> x = f (tag_rows t)"
proof (cases "extract_row_affected t")
  case (Ok n)
  with extract_row_affected_iff [of t n] show ?thesis by (auto simp: go_affected_def)
next
  case (Err e)
  with extract_row_affected_iff [of t "tag_rows t"] show ?thesis by (simp add: go_affected_def)
qed (simp add: extract_row_affected_not_Panic)

lemma go_affected_Stop: "go_affected t s f \<noteq> Stop x (Ok y)"
  by (auto simp: go_affected_def split: rresult.splits)

text \<open>A loop that goes on through \<open>body\<close> messages and ends at \<open>ReadyForQuery\<close>.\<close>

lemma loop_until_ready:
  assumes go: "\<And>s m s'. body s m = Go s' \<longleftrightarrow> P m \<and> s' = f s m"
    and stop: "\<And>s m s' x. body s m = Stop s' (Ok x) \<longleftrightarrow> (\<exists>status. m = ReadyForQuery status) \<and> s' = s \<and> x = g s"
    and err: "\<And>m. P m \<Longrightarrow> message_result m = Ok m"
  shows "loop_list body s ms = (Ok x, s') \<longleftrightarrow>
     (\<exists>ns status rest. ms = ns @ ReadyForQuery status # rest \<and> list_all P ns \<and> s' = foldl f s ns \<and> x = g s')"
proof (induction ms arbitrary: s)
  case Nil
  then show ?case by simp
next
  case (Cons m ms)
  have notP: "\<not> P (ReadyForQuery status)" for status
    using go [of s "ReadyForQuery status" "f s (ReadyForQuery status)"]
      stop [of s "ReadyForQuery status" s "g s"] by auto
  have split: "(\<exists>ns status rest. m # ms = ns @ ReadyForQuery status # rest \<and> list_all P ns \<and> s' = foldl f s ns \<and> x = g s') \<longleftrightarrow>
      (\<exists>status. m = ReadyForQuery status) \<and> s' = s \<and> x = g s \<or>
      P m \<and> (\<exists>ns status rest. ms = ns @ ReadyForQuery status # rest \<and> list_all P ns \<and> s' = foldl f (f s m) ns \<and> x = g s')"
    (is "?l \<longleftrightarrow> ?r")
  proof
    assume ?l
    then obtain ns status rest where l: "m # ms = ns @ ReadyForQuery status # rest" "list_all P ns"
      "s' = foldl f s ns" "x = g s'" by blast
    then show ?r by (cases ns) auto
  next
    assume ?r
    then show ?l
    proof (elim disjE conjE exE)
      fix status assume "m = ReadyForQuery status" "s' = s" "x = g s"
      then show ?l by (intro exI [of _ "[]"]) auto
    next
      fix ns status rest
      assume "P m" "ms = ns @ ReadyForQuery status # rest" "list_all P ns" "s' = foldl f (f s m) ns" "x = g s'"
      then show ?l by (intro exI [of _ "m # ns"] exI [of _ status] exI [of _ rest]) simp
    qed
  qed
  show ?case
  proof (cases "message_result m")
    case (Ok m')
    then have m': "m' = m" by (auto simp: message_result_def split: message.splits)
    show ?thesis
    proof (cases "body s m")
      case (Stop s1 r)
      then have "\<not> P m" using go [of s m "f s m"] by simp
      then show ?thesis unfolding split using Ok m' Stop stop [of s m s' x] by auto
    next
      case (Go s1)
      then have "P m" "s1 = f s m" and "\<not> (\<exists>status. m = ReadyForQuery status)" using go notP by auto
      then show ?thesis unfolding split using Ok m' Go Cons by simp
    qed
  next
    case (Err e)
    then have "\<not> P m" "\<not> (\<exists>status. m = ReadyForQuery status)" using err by (auto simp: message_result_def)
    then show ?thesis unfolding split using Err by simp
  next
    case Panic
    then show ?thesis by (simp add: message_result_def split: message.splits)
  qed
qed

lemma execute_list:
  "loop_list execute_body s ms = (Ok x, s') \<longleftrightarrow>
     (\<exists>ns status rest. ms = ns @ ReadyForQuery status # rest \<and> list_all reports ns \<and> s' = foldl affected s ns \<and> x = id s')"
proof (rule loop_until_ready)
  show "execute_body s m = Go s' \<longleftrightarrow> reports m \<and> s' = affected s m" for s m s'
    by (auto simp: execute_body_def reports_def affected_def go_affected_Go split: message.splits)
  show "execute_body s m = Stop s' (Ok x) \<longleftrightarrow> (\<exists>status. m = ReadyForQuery status) \<and> s' = s \<and> x = id s" for s m s' x
    by (auto simp: execute_body_def go_affected_Stop split: message.splits)
  show "reports m \<Longrightarrow> message_result m = Ok m" for m
    by (auto simp: reports_def message_result_def split: message.splits)
qed

text \<open>What the server answers to a started request, for a client whose next channel delivers \<open>mss\<close>.\<close>

definition answers :: "client \<Rightarrow> message list list \<Rightarrow> bytes list option list \<Rightarrow> bool" where
  "answers cl mss script \<longleftrightarrow>
     cl_script cl = Some (map encode_all mss) # script \<and> list_all message_wf (concat mss) \<and> cl_buffer cl = []"

definition after_send :: "client \<Rightarrow> bytes list option list \<Rightarrow> bytes \<Rightarrow> client" where
  "after_send cl script buf = cl\<lparr>cl_script := script, cl_sent := cl_sent cl @ [Single (Raw buf)]\<rparr>"

lemma send_raw_answers:
  assumes "answers cl mss script"
  shows "send_raw buf cl = (Ok \<lparr>rs_cur = [], rs_runs = map encode_all mss\<rparr>, after_send cl script buf) \<and>
    delivers \<lparr>rs_cur = [], rs_runs = map encode_all mss\<rparr> (concat mss)"
  using assms opened_delivers [OF refl, of mss] by (simp add: send_raw_def send_def answers_def after_send_def)

lemma expect_list:
  assumes "delivers r ms"
  shows "case ms of
      [] \<Rightarrow> \<forall>x cl'. expect f r cl \<noteq> (Ok x, cl')
    | m # ms \<Rightarrow> (\<exists>r'. delivers r' ms \<and>
        expect f r cl = (case message_result m of
            Ok m \<Rightarrow> (case f m of Some x \<Rightarrow> (Ok (x, r'), cl) | None \<Rightarrow> (Err err_unexpected_message, cl))
          | Err e \<Rightarrow> (Err e, cl) | Panic \<Rightarrow> (Panic, cl)))"
proof (cases ms)
  case Nil
  with assms delivers_end [of r] show ?thesis by (cases "responses_next r") (auto simp: expect_def)
next
  case (Cons m ms')
  with assms obtain r' where "responses_next r = (message_result m, r')" "delivers r' ms'"
    using delivers_next by blast
  with Cons show ?thesis by (auto simp: expect_def split: rresult.splits)
qed

lemma start_answers:
  assumes "answers cl mss script"
  shows "start buf cl = (Ok r, cl') \<Longrightarrow> (\<exists>ms. concat mss = BindComplete # ms \<and> delivers r ms \<and> cl' = after_send cl script buf)"
    and "concat mss = BindComplete # ms \<Longrightarrow> \<exists>r. start buf cl = (Ok r, after_send cl script buf) \<and> delivers r ms"
proof -
  let ?r = "\<lparr>rs_cur = [], rs_runs = map encode_all mss\<rparr>"
  let ?c = "after_send cl script buf"
  have s: "start buf cl = cbind (expect is_bind_complete ?r) (\<lambda>(_, responses). cret responses) ?c"
    and d: "delivers ?r (concat mss)"
    using send_raw_answers [OF assms, of buf] by (simp_all add: start_def cbind_run)
  show "\<exists>r. start buf cl = (Ok r, after_send cl script buf) \<and> delivers r ms" if "concat mss = BindComplete # ms"
    using expect_list [OF d, of is_bind_complete ?c] that
    by (auto simp: s cbind_def cret_def message_result_def is_bind_complete_def)
  show "\<exists>ms. concat mss = BindComplete # ms \<and> delivers r ms \<and> cl' = after_send cl script buf"
    if "start buf cl = (Ok r, cl')"
  proof (cases "concat mss")
    case Nil
    with expect_list [OF d, of is_bind_complete ?c] that show ?thesis
      by (auto simp: s cbind_Ok)
  next
    case (Cons m ms)
    with expect_list [OF d, of is_bind_complete ?c] that show ?thesis
      by (auto simp: s cbind_Ok cret_def is_bind_complete_def message_result_def
          split: message.splits)
  qed
qed

lemma query_encode_keeps: "query_encode st params cl = (Ok buf, cl') \<Longrightarrow> cl_buffer cl = [] \<Longrightarrow> cl' = cl"
  by (auto simp: query_encode_def with_buf_Ok)

text \<open>
  The outcome of \<open>execute\<close>, for every way the server's messages are cut into runs. It returns
  \<open>n\<close> exactly when the request could be encoded and the server answered \<open>BindComplete\<close>, then only
  data rows, command completions and empty-query responses, then \<open>ReadyForQuery\<close>; \<open>n\<close> is what the
  last completion reports. The one request sent is the encoded one.
\<close>

theorem execute_outcome:
  assumes "answers cl mss script"
  shows "query_execute st params cl = (Ok n, cl') \<longleftrightarrow>
     (\<exists>buf ns status rest. query_encode st params cl = (Ok buf, cl) \<and>
        concat mss = BindComplete # ns @ ReadyForQuery status # rest \<and> list_all reports ns \<and>
        n = foldl affected 0 ns \<and> cl' = after_send cl script buf)"
proof -
  have b: "cl_buffer cl = []" using assms by (simp add: answers_def)
  have run: "fst (message_loop execute_body 0 r) = Ok n \<longleftrightarrow>
      (\<exists>ns status rest. ms = ns @ ReadyForQuery status # rest \<and> list_all reports ns \<and> n = foldl affected 0 ns)"
    if "delivers r ms" for r ms
  proof -
    have "fst (message_loop execute_body 0 r) = fst (loop_list execute_body 0 ms)"
      using message_loop_list [OF that, of execute_body 0] by fastforce
    also have "\<dots> = Ok n \<longleftrightarrow> (\<exists>s'. loop_list execute_body 0 ms = (Ok n, s'))"
      by (cases "loop_list execute_body 0 ms") auto
    finally show ?thesis unfolding execute_list by auto
  qed
  have q: "query_execute st params cl = (Ok n, cl') \<longleftrightarrow>
      (\<exists>buf r. query_encode st params cl = (Ok buf, cl) \<and> start buf cl = (Ok r, cl') \<and>
         fst (message_loop execute_body 0 r) = Ok n)"
    unfolding query_execute_def cbind_Ok cres_def by (metis b query_encode_keeps prod.inject)
  show ?thesis
  proof
    assume "query_execute st params cl = (Ok n, cl')"
    then obtain buf r where e: "query_encode st params cl = (Ok buf, cl)" "start buf cl = (Ok r, cl')"
      "fst (message_loop execute_body 0 r) = Ok n" unfolding q by blast
    from start_answers(1) [OF assms e(2)] run e(1,3)
    show "\<exists>buf ns status rest. query_encode st params cl = (Ok buf, cl) \<and>
        concat mss = BindComplete # ns @ ReadyForQuery status # rest \<and> list_all reports ns \<and>
        n = foldl affected 0 ns \<and> cl' = after_send cl script buf" by auto
  next
    assume "\<exists>buf ns status rest. query_encode st params cl = (Ok buf, cl) \<and>
        concat mss = BindComplete # ns @ ReadyForQuery status # rest \<and> list_all reports ns \<and>
        n = foldl affected 0 ns \<and> cl' = after_send cl script buf"
    then obtain buf ns status rest where e: "query_encode st params cl = (Ok buf, cl)"
      "concat mss = BindComplete # ns @ ReadyForQuery status # rest" "list_all reports ns"
      "n = foldl affected 0 ns" "cl' = after_send cl script buf" by blast
    from start_answers(2) [OF assms e(2)] run e show "query_execute st params cl = (Ok n, cl')"
      unfolding q by fastforce
  qed
qed

theorem execute_outcome_witness:
  "fst (query_execute sample_st [dyn i32_to 7]
     (client_new [Some (map encode_all [[BindComplete], [CommandComplete (as_bytes ''UPDATE 3''), ReadyForQuery 73]])] 0 0)) = Ok 3"
proof -
  let ?mss = "[[BindComplete], [CommandComplete (as_bytes ''UPDATE 3''), ReadyForQuery 73]]"
  let ?cl = "client_new [Some (map encode_all ?mss)] 0 0"
  have a: "answers ?cl ?mss []"
    by (simp add: answers_def client_new_def message_wf_def)
  then obtain buf where enc: "query_encode sample_st [dyn i32_to 7] ?cl = (Ok buf, ?cl)"
    using sample_query [of ?cl] by (auto simp: answers_def)
  have "last_word (of_bytes (as_bytes ''UPDATE 3'')) = ''3''" by code_simp
  moreover have "parse_unsigned 18446744073709551615 ''3'' = Some 3"
  proof -
    have "show_nat 3 = ''3''" by (simp add: show_nat_digit) code_simp
    then show ?thesis using parse_show_nat [of 3 18446744073709551615] by simp
  qed
  ultimately have "tag_rows (as_bytes ''UPDATE 3'') = 3" by (simp add: tag_rows_def)
  moreover have "utf8_valid (as_bytes ''UPDATE 3'')" by code_simp
  ultimately have "\<exists>ns status rest. concat ?mss = BindComplete # ns @ ReadyForQuery status # rest \<and> list_all reports ns \<and>
      3 = foldl affected 0 ns"
    by (intro exI [of _ "[CommandComplete (as_bytes ''UPDATE 3'')]"] exI [of _ 73] exI [of _ "[]"])
      (simp add: reports_def affected_def)
  with enc have "query_execute sample_st [dyn i32_to 7] ?cl = (Ok 3, after_send ?cl [] buf)"
    using execute_outcome [OF a, of sample_st "[dyn i32_to 7]" 3 "after_send ?cl [] buf"] by blast
  then show ?thesis by simp
qed

section \<open>Draining a row stream\<close>

lemma stream_body_simps:
  "stream_body st aff m =
     (case m of
        DataRow body \<Rightarrow> Stop aff (map_ok Some (row_new st body))
      | CommandComplete body \<Rightarrow> go_affected body aff Some
      | EmptyQueryResponse \<Rightarrow> Go aff
      | PortalSuspended \<Rightarrow> Go aff
      | ReadyForQuery _ \<Rightarrow> Stop aff (Ok None)
      | _ \<Rightarrow> Stop aff (Err err_unexpected_message))"
  by (rule stream_body_def)

text \<open>The rows of a list of messages, and what the stream has counted when it stops.\<close>

fun stream_list :: "statement \<Rightarrow> u64 option \<Rightarrow> message list \<Rightarrow> (row list, error) rresult \<times> u64 option" where
  "stream_list st aff [] = (Err err_closed, aff)"
| "stream_list st aff (m # ms) =
     (case message_result m of
        Err e \<Rightarrow> (Err e, aff)
      | Panic \<Rightarrow> (Panic, aff)
      | Ok m \<Rightarrow>
          (case stream_body st aff m of
             Go aff \<Rightarrow> stream_list st aff ms
           | Stop aff (Ok None) \<Rightarrow> (Ok [], aff)
           | Stop aff (Ok (Some r)) \<Rightarrow> (map_ok (Cons r) (fst (stream_list st aff ms)), snd (stream_list st aff ms))
           | Stop aff (Err e) \<Rightarrow> (Err e, aff)
           | Stop aff Panic \<Rightarrow> (Panic, aff)))"

lemma row_stream_go:
  assumes "responses_next (rw_responses s) = (Ok m, r')" and "stream_body (rw_statement s) (rw_rows_affected s) m = Go aff"
  shows "stream_collect s = stream_collect (s\<lparr>rw_responses := r', rw_rows_affected := aff\<rparr>)"
proof -
  let ?s = "s\<lparr>rw_responses := r', rw_rows_affected := aff\<rparr>"
  have "row_stream_next s = row_stream_next ?s"
    unfolding row_stream_next_def by (subst message_loop.simps) (simp add: assms split: prod.splits)
  then show ?thesis
    by (subst stream_collect.simps, subst (2) stream_collect.simps) simp
qed

lemma row_stream_stop:
  assumes "responses_next (rw_responses s) = (Ok m, r')" and "stream_body (rw_statement s) (rw_rows_affected s) m = Stop aff x"
  shows "row_stream_next s = (x, s\<lparr>rw_responses := r', rw_rows_affected := aff\<rparr>)"
  unfolding row_stream_next_def by (subst message_loop.simps) (simp add: assms)

lemma row_stream_err:
  assumes "responses_next (rw_responses s) = (Err e, r')"
  shows "row_stream_next s = (Err e, s\<lparr>rw_responses := r'\<rparr>)"
  unfolding row_stream_next_def by (subst message_loop.simps) (simp add: assms)

lemma stream_collect_list:
  "delivers (rw_responses s) ms \<Longrightarrow>
     \<exists>s'. stream_collect s = (fst (stream_list (rw_statement s) (rw_rows_affected s) ms), s') \<and>
       rows_affected s' = snd (stream_list (rw_statement s) (rw_rows_affected s) ms)"
proof (induction ms arbitrary: s)
  case Nil
  from delivers_end [OF Nil] obtain r' where "responses_next (rw_responses s) = (Err err_closed, r')"
    by (cases "responses_next (rw_responses s)") auto
  from row_stream_err [OF this] show ?case
    by (subst stream_collect.simps) (simp add: rows_affected_def)
next
  case (Cons m ms)
  obtain r' where r': "responses_next (rw_responses s) = (message_result m, r')" "delivers r' ms"
    using delivers_next [OF Cons.prems] .
  show ?case
  proof (cases "message_result m")
    case (Err e)
    with r'(1) row_stream_err [of s e r'] show ?thesis
      by (subst stream_collect.simps) (simp add: rows_affected_def)
  next
    case Panic
    then show ?thesis by (simp add: message_result_def split: message.splits)
  next
    case (Ok m')
    note n = r'(1) [unfolded Ok]
    show ?thesis
    proof (cases "stream_body (rw_statement s) (rw_rows_affected s) m'")
      case (Go aff)
      let ?s = "s\<lparr>rw_responses := r', rw_rows_affected := aff\<rparr>"
      have "delivers (rw_responses ?s) ms" using r'(2) by simp
      from Cons.IH [OF this] show ?thesis unfolding row_stream_go [OF n Go] using Ok Go by simp
    next
      case (Stop aff x)
      let ?s = "s\<lparr>rw_responses := r', rw_rows_affected := aff\<rparr>"
      have d: "delivers (rw_responses ?s) ms" using r'(2) by simp
      note nx = row_stream_stop [OF n Stop]
      show ?thesis
      proof (cases "\<exists>row. x = Ok (Some row)")
        case True
        then obtain row where x: "x = Ok (Some row)" by blast
        from Cons.IH [OF d] show ?thesis
          by (subst stream_collect.simps) (auto simp: nx x Ok Stop)
      next
        case False
        then show ?thesis
          by (subst stream_collect.simps) (auto simp: nx Ok Stop rows_affected_def split: rresult.splits option.splits)
      qed
    qed
  qed
qed

definition streams :: "message \<Rightarrow> bool" where
  "streams m \<longleftrightarrow> (case m of DataRow _ \<Rightarrow> True | CommandComplete t \<Rightarrow> utf8_valid t | EmptyQueryResponse \<Rightarrow> True
     | PortalSuspended \<Rightarrow> True | _ \<Rightarrow> False)"

definition counts :: "u64 option \<Rightarrow> message \<Rightarrow> u64 option" where
  "counts aff m = (case m of CommandComplete t \<Rightarrow> Some (tag_rows t) | _ \<Rightarrow> aff)"

primrec data_rows :: "message list \<Rightarrow> data_row_body list" where
  "data_rows [] = []"
| "data_rows (m # ms) = (case m of DataRow b \<Rightarrow> [b] | _ \<Rightarrow> []) @ data_rows ms"

text \<open>The messages of a stream up to its \<open>ReadyForQuery\<close>.\<close>

definition stream_of :: "statement \<Rightarrow> u64 option \<Rightarrow> message list \<Rightarrow> row list \<Rightarrow> u64 option \<Rightarrow> bool" where
  "stream_of st aff ms rows aff' \<longleftrightarrow>
     (\<exists>ns status rest. ms = ns @ ReadyForQuery status # rest \<and> list_all streams ns \<and>
        list_all2 (\<lambda>b r. row_new st b = Ok r) (data_rows ns) rows \<and> aff' = foldl counts aff ns)"

lemma stream_ofI:
  "list_all streams ns \<Longrightarrow> list_all2 (\<lambda>b r. row_new st b = Ok r) (data_rows ns) rows \<Longrightarrow>
     stream_of st aff (ns @ ReadyForQuery status # rest) rows (foldl counts aff ns)"
  by (auto simp: stream_of_def)

lemma go_affected_invalid: "\<not> utf8_valid t \<Longrightarrow> \<exists>e. go_affected t s f = Stop s (Err e)"
  using extract_row_affected_iff [of t] extract_row_affected_not_Panic [of t]
  by (cases "extract_row_affected t") (auto simp: go_affected_def)

lemma stream_of_Nil [simp]: "\<not> stream_of st aff [] rows aff'"
  by (simp add: stream_of_def)

lemma stream_of_Cons:
  "stream_of st aff (m # ms) rows aff' \<longleftrightarrow>
     (\<exists>status. m = ReadyForQuery status) \<and> rows = [] \<and> aff' = aff \<or>
     streams m \<and> (case m of
        DataRow b \<Rightarrow> \<exists>r rs. row_new st b = Ok r \<and> rows = r # rs \<and> stream_of st aff ms rs aff'
      | _ \<Rightarrow> stream_of st (counts aff m) ms rows aff')" (is "?l \<longleftrightarrow> ?r")
proof
  assume ?l
  then obtain ns status rest where l: "m # ms = ns @ ReadyForQuery status # rest" "list_all streams ns"
    "list_all2 (\<lambda>b r. row_new st b = Ok r) (data_rows ns) rows" "aff' = foldl counts aff ns"
    unfolding stream_of_def by blast
  show ?r
  proof (cases ns)
    case Nil
    with l show ?thesis by simp
  next
    case (Cons n ns')
    with l have "m = n" and ms: "ms = ns' @ ReadyForQuery status # rest" and s: "streams n" "list_all streams ns'" by auto
    show ?thesis
      using l(3,4) s unfolding Cons ms \<open>m = n\<close>
      by (cases n) (auto simp: list_all2_Cons1 counts_def intro: stream_ofI)
  qed
next
  assume ?r
  then show ?l
  proof (elim disjE conjE exE)
    fix status assume "m = ReadyForQuery status" "rows = []" "aff' = aff"
    then show ?l using stream_ofI [of "[]" st "[]" aff status ms] by simp
  next
    assume m: "streams m" and c: "case m of
        DataRow b \<Rightarrow> \<exists>r rs. row_new st b = Ok r \<and> rows = r # rs \<and> stream_of st aff ms rs aff'
      | _ \<Rightarrow> stream_of st (counts aff m) ms rows aff'"
    have ex: "\<exists>rs xs. stream_of st (counts aff m) ms rs aff' \<and> rows = xs @ rs \<and>
        list_all2 (\<lambda>b r. row_new st b = Ok r) (data_rows [m]) xs"
    proof (cases "\<exists>b. m = DataRow b")
      case True
      with c obtain r rs b where "m = DataRow b" "row_new st b = Ok r" "rows = r # rs" "stream_of st aff ms rs aff'" by auto
      then show ?thesis by (intro exI [of _ rs] exI [of _ "[r]"]) (simp add: counts_def)
    next
      case False
      with c have "stream_of st (counts aff m) ms rows aff'" "data_rows [m] = []"
        by (cases m; simp)+
      then show ?thesis by (intro exI [of _ rows] exI [of _ "[]"]) simp
    qed
    then obtain rs xs ns status rest where e: "rows = xs @ rs" "list_all2 (\<lambda>b r. row_new st b = Ok r) (data_rows [m]) xs"
      "ms = ns @ ReadyForQuery status # rest" "list_all streams ns"
      "list_all2 (\<lambda>b r. row_new st b = Ok r) (data_rows ns) rs" "aff' = foldl counts (counts aff m) ns"
      unfolding stream_of_def by blast
    then show ?l unfolding stream_of_def
      using m list_all2_appendI [OF e(2,5)]
      by (intro exI [of _ "m # ns"] exI [of _ status] exI [of _ rest]) simp
  qed
qed

lemma stream_list_iff:
  "stream_list st aff ms = (Ok rows, aff') \<longleftrightarrow> stream_of st aff ms rows aff'"
proof (induction ms arbitrary: aff rows)
  case Nil
  then show ?case by simp
next
  case (Cons m ms)
  show ?case
  proof (cases m)
    case (CommandComplete t)
    show ?thesis
    proof (cases "utf8_valid t")
      case True
      then have "go_affected t aff Some = (Go (Some (tag_rows t)) :: (_, row option) loop_step)" by (simp add: go_affected_Go)
      then show ?thesis unfolding stream_of_Cons
        using CommandComplete True by (simp add: message_result_def stream_body_def streams_def counts_def Cons)
    next
      case False
      then obtain e where "go_affected t aff Some = (Stop aff (Err e) :: (_, row option) loop_step)"
        using go_affected_invalid [of t aff Some] by auto
      then show ?thesis unfolding stream_of_Cons
        using CommandComplete False by (simp add: message_result_def stream_body_def streams_def)
    qed
  next
    case (DataRow b)
    obtain y a where sl: "stream_list st aff ms = (y, a)" by fastforce
    have IH: "y = Ok rs \<and> a = aff' \<longleftrightarrow> stream_of st aff ms rs aff'" for rs
      using Cons [of aff rs] unfolding sl by simp
    show ?thesis unfolding stream_of_Cons
      using DataRow by (cases "row_new st b") (auto simp: message_result_def stream_body_def streams_def sl IH [symmetric])
  qed (auto simp: stream_of_Cons message_result_def stream_body_def streams_def counts_def Cons)
qed



end
