(* ===== verification/Prepare.thy ===== *)
theory Prepare
  imports QuerySpec
begin

text \<open>
  \<open>tokio-postgres/src/prepare.rs\<close>: preparing a statement and looking up the types of its
  parameters and columns, which itself prepares and runs the type information queries; and
  \<open>query_typed\<close> and \<open>execute_typed\<close> of \<open>query.rs\<close>, which look types up as well.

  \<open>prepare\<close> and \<open>get_type\<close> call each other. Each function below takes \<open>get_type\<close> as an argument
  \<open>gt\<close>, and \<open>get_type_fuel\<close> ties the knot on a depth. The recursion follows what the server says,
  so no depth is known beforehand; but every recursive call comes after a request that was sent,
  so a depth above the number of requests the channel still takes is enough
  (\<open>get_type_unfold\<close>, in \<open>PrepareSpec\<close>).
\<close>

section \<open>The queries\<close>

definition lines_of :: "string list \<Rightarrow> string" where
  "lines_of ls = concat (map (\<lambda>l. l @ [CHR 0x0A]) ls)"

definition TYPEINFO_QUERY :: str where
  "TYPEINFO_QUERY = lines_of
    [''SELECT t.typname, t.typtype, t.typelem, r.rngsubtype, t.typbasetype, n.nspname, t.typrelid'',
     ''FROM pg_catalog.pg_type t'',
     ''LEFT OUTER JOIN pg_catalog.pg_range r ON r.rngtypid = t.oid'',
     ''INNER JOIN pg_catalog.pg_namespace n ON t.typnamespace = n.oid'',
     ''WHERE t.oid = $1'']"

definition TYPEINFO_FALLBACK_QUERY :: str where
  "TYPEINFO_FALLBACK_QUERY = lines_of
    [''SELECT t.typname, t.typtype, t.typelem, NULL::OID, t.typbasetype, n.nspname, t.typrelid'',
     ''FROM pg_catalog.pg_type t'',
     ''INNER JOIN pg_catalog.pg_namespace n ON t.typnamespace = n.oid'',
     ''WHERE t.oid = $1'']"

definition TYPEINFO_ENUM_QUERY :: str where
  "TYPEINFO_ENUM_QUERY = lines_of
    [''SELECT enumlabel'', ''FROM pg_catalog.pg_enum'', ''WHERE enumtypid = $1'', ''ORDER BY enumsortorder'']"

definition TYPEINFO_ENUM_FALLBACK_QUERY :: str where
  "TYPEINFO_ENUM_FALLBACK_QUERY = lines_of
    [''SELECT enumlabel'', ''FROM pg_catalog.pg_enum'', ''WHERE enumtypid = $1'', ''ORDER BY oid'']"

definition TYPEINFO_COMPOSITE_QUERY :: str where
  "TYPEINFO_COMPOSITE_QUERY = lines_of
    [''SELECT attname, atttypid'', ''FROM pg_catalog.pg_attribute'', ''WHERE attrelid = $1'',
     ''AND NOT attisdropped'', ''AND attnum > 0'', ''ORDER BY attnum'']"

abbreviation UNDEFINED_TABLE :: str where "UNDEFINED_TABLE \<equiv> ''42P01''"
abbreviation UNDEFINED_COLUMN :: str where "UNDEFINED_COLUMN \<equiv> ''42703''"

section \<open>Preparing\<close>

type_synonym type_lookup = "u32 \<Rightarrow> pg_type client_op"

text \<open>\<open>while let Some(x) = it.next().map_err(Error::parse)? { ... f(x).await? ... }\<close>\<close>

fun iter_ops :: "nat \<Rightarrow> ('s, 'a, io_error) next_fn \<Rightarrow> ('a \<Rightarrow> 'b client_op) \<Rightarrow> 's \<Rightarrow> 'b list client_op" where
  "iter_ops 0 nxt f s = cres Panic"
| "iter_ops (Suc n) nxt f s =
     cbind (cres (map_err err_parse (nxt s))) (\<lambda>(x, s').
       case x of
         None \<Rightarrow> cret []
       | Some v \<Rightarrow> cbind (f v) (\<lambda>y. cbind (iter_ops n nxt f s') (\<lambda>ys. cret (y # ys))))"

definition prepare_encode :: "str \<Rightarrow> str \<Rightarrow> pg_type list \<Rightarrow> bytes client_op" where
  "prepare_encode nm q types =
     with_buf (wseq (map_werr err_encode (parse nm q (map type_oid types)))
              (wseq (map_werr err_encode (describe (of_char CHR ''S'') nm))
              (wseq sync split_buf)))"

definition next_statement_name :: "str client_op" where
  "next_statement_name cl =
     (Ok (''s'' @ show_nat (cl_next_statement cl)), cl\<lparr>cl_next_statement := (cl_next_statement cl + 1) mod 2 ^ 64\<rparr>)"

definition is_parse_complete :: "message \<Rightarrow> unit option" where
  "is_parse_complete m = (case m of ParseComplete \<Rightarrow> Some () | _ \<Rightarrow> None)"

definition is_parameter_description :: "message \<Rightarrow> counted_body option" where
  "is_parameter_description m = (case m of ParameterDescription body \<Rightarrow> Some body | _ \<Rightarrow> None)"

definition is_row_description :: "message \<Rightarrow> counted_body option option" where
  "is_row_description m = (case m of RowDescription body \<Rightarrow> Some (Some body) | NoData \<Rightarrow> Some None | _ \<Rightarrow> None)"

definition nonzero :: "'a::zero \<Rightarrow> 'a option" where
  "nonzero n = (if n = 0 then None else Some n)"

definition column_of :: "compatible_mode \<Rightarrow> field \<Rightarrow> pg_type \<Rightarrow> column" where
  "column_of mode f ty =
     \<lparr>col_name = f_name f, col_table_oid = nonzero (f_table_oid f), col_column_id = nonzero (f_column_id f),
      col_type_modifier = f_type_modifier f, col_type = ty, col_codec_type = read_codec_alias_for_mode mode ty\<rparr>"

definition lookup_parameter :: "type_lookup \<Rightarrow> u32 \<Rightarrow> (pg_type \<times> pg_type option) client_op" where
  "lookup_parameter gt oid =
     cbind (gt oid) (\<lambda>ty.
     cbind (cget cl_compatible_mode) (\<lambda>mode. cret (ty, param_codec_alias_for_mode mode ty)))"

definition lookup_column :: "type_lookup \<Rightarrow> field \<Rightarrow> column client_op" where
  "lookup_column gt f =
     cbind (gt (f_type_oid f)) (\<lambda>ty.
     cbind (cget cl_compatible_mode) (\<lambda>mode. cret (column_of mode f ty)))"

definition lookup_columns :: "type_lookup \<Rightarrow> counted_body \<Rightarrow> column list client_op" where
  "lookup_columns gt body =
     iter_ops (Suc (unat (cb_len body))) fields_next (lookup_column gt) (BackendIters.fields body)"

definition prepare_with :: "type_lookup \<Rightarrow> str \<Rightarrow> pg_type list \<Rightarrow> statement client_op" where
  "prepare_with gt q types =
     cbind next_statement_name (\<lambda>nm.
     cbind (prepare_encode nm q types) (\<lambda>buf.
     cbind (send_raw buf) (\<lambda>responses.
     cbind (expect is_parse_complete responses) (\<lambda>(_, responses).
     cbind (expect is_parameter_description responses) (\<lambda>(parameter_description, responses).
     cbind (expect is_row_description responses) (\<lambda>(row_description, responses).
     cbind (iter_ops (Suc (unat (cb_len parameter_description))) parameters_next (lookup_parameter gt)
              (parameters parameter_description)) (\<lambda>params.
     cbind (case row_description of None \<Rightarrow> cret [] | Some body \<Rightarrow> lookup_columns gt body) (\<lambda>columns.
       cres (statement_new nm (map fst params) (map snd params) columns)))))))))"

section \<open>The cached type information statements\<close>

text \<open>\<open>match r { Err(ref e) if e.code() == Some(state) => fallback, r => r }\<close>\<close>

definition or_on_code :: "str \<Rightarrow> 'a client_op \<Rightarrow> 'a client_op \<Rightarrow> 'a client_op" where
  "or_on_code code m fallback cl =
     (case m cl of
        (Err e, cl') \<Rightarrow> if error_code e = Some code then fallback cl' else (Err e, cl')
      | r \<Rightarrow> r)"

definition typeinfo_statement :: "type_lookup \<Rightarrow> statement client_op" where
  "typeinfo_statement gt =
     cbind (cget cl_typeinfo) (\<lambda>cached.
       case cached of
         Some stmt \<Rightarrow> cret stmt
       | None \<Rightarrow>
           cbind (or_on_code UNDEFINED_TABLE (prepare_with gt TYPEINFO_QUERY []) (prepare_with gt TYPEINFO_FALLBACK_QUERY []))
             (\<lambda>stmt. cbind (set_typeinfo stmt) (\<lambda>_. cret stmt)))"

definition typeinfo_enum_statement :: "type_lookup \<Rightarrow> statement client_op" where
  "typeinfo_enum_statement gt =
     cbind (cget cl_typeinfo_enum) (\<lambda>cached.
       case cached of
         Some stmt \<Rightarrow> cret stmt
       | None \<Rightarrow>
           cbind (or_on_code UNDEFINED_COLUMN (prepare_with gt TYPEINFO_ENUM_QUERY [])
                    (prepare_with gt TYPEINFO_ENUM_FALLBACK_QUERY []))
             (\<lambda>stmt. cbind (set_typeinfo_enum stmt) (\<lambda>_. cret stmt)))"

definition typeinfo_composite_statement :: "type_lookup \<Rightarrow> statement client_op" where
  "typeinfo_composite_statement gt =
     cbind (cget cl_typeinfo_composite) (\<lambda>cached.
       case cached of
         Some stmt \<Rightarrow> cret stmt
       | None \<Rightarrow>
           cbind (prepare_with gt TYPEINFO_COMPOSITE_QUERY [])
             (\<lambda>stmt. cbind (set_typeinfo_composite stmt) (\<lambda>_. cret stmt)))"

section \<open>Looking a type up\<close>

abbreviation STRING_T :: string where "STRING_T \<equiv> ''alloc::string::String''"

text \<open>\<open>rows.and_then(|row| f(row)).try_collect()\<close>: the first error of the stream or of \<open>f\<close>.\<close>

function stream_try_collect :: "(row \<Rightarrow> ('a, error) rresult) \<Rightarrow> row_stream \<Rightarrow> ('a list, error) rresult" where
  "stream_try_collect f s =
     (case row_stream_next s of
        (Ok None, s') \<Rightarrow> Ok []
      | (Ok (Some r), s') \<Rightarrow> rbind (f r) (\<lambda>x. map_ok (Cons x) (stream_try_collect f s'))
      | (Err e, s') \<Rightarrow> Err e
      | (Panic, s') \<Rightarrow> Panic)"
  by pat_completeness auto
termination
  by (relation "measure (\<lambda>(f, s). responses_size (rw_responses s))") (auto dest: sym [THEN row_stream_size])

declare stream_try_collect.simps [simp del]

definition get_enum_variants :: "type_lookup \<Rightarrow> u32 \<Rightarrow> str list client_op" where
  "get_enum_variants gt oid =
     cbind (typeinfo_enum_statement gt) (\<lambda>stmt.
     cbind (query_query stmt [dyn u32_to oid]) (\<lambda>rows.
       cres (stream_try_collect (\<lambda>row. row_try_get STRING_T str_from row (IdxUsize 0)) rows)))"

fun composite_fields :: "type_lookup \<Rightarrow> row list \<Rightarrow> (str \<times> pg_type) list client_op" where
  "composite_fields gt [] = cret []"
| "composite_fields gt (row # rows) =
     cbind (cres (row_try_get STRING_T str_from row (IdxUsize 0))) (\<lambda>nm.
     cbind (cres (row_try_get ''u32'' u32_from row (IdxUsize 1))) (\<lambda>oid.
     cbind (gt oid) (\<lambda>ty.
     cbind (composite_fields gt rows) (\<lambda>fs. cret ((nm, ty) # fs)))))"

definition get_composite_fields :: "type_lookup \<Rightarrow> u32 \<Rightarrow> (str \<times> pg_type) list client_op" where
  "get_composite_fields gt oid =
     cbind (typeinfo_composite_statement gt) (\<lambda>stmt.
     cbind (query_query stmt [dyn u32_to oid]) (\<lambda>rows.
     cbind (cres (fst (stream_collect rows))) (\<lambda>rows.
       composite_fields gt rows)))"

text \<open>The seven columns of a type information row.\<close>

record type_row =
  tr_name :: str
  tr_type :: i8
  tr_elem :: u32
  tr_rngsubtype :: "u32 option"
  tr_basetype :: u32
  tr_schema :: str
  tr_relid :: u32

definition read_type_row :: "row \<Rightarrow> (type_row, error) rresult" where
  "read_type_row row =
     rbind (row_try_get STRING_T str_from row (IdxUsize 0)) (\<lambda>nm.
     rbind (row_try_get ''i8'' i8_from row (IdxUsize 1)) (\<lambda>ty.
     rbind (row_try_get ''u32'' u32_from row (IdxUsize 2)) (\<lambda>elem.
     rbind (row_try_get ''core::option::Option<u32>'' (option_from u32_from) row (IdxUsize 3)) (\<lambda>rngsubtype.
     rbind (row_try_get ''u32'' u32_from row (IdxUsize 4)) (\<lambda>basetype.
     rbind (row_try_get STRING_T str_from row (IdxUsize 5)) (\<lambda>schema.
     rbind (row_try_get ''u32'' u32_from row (IdxUsize 6)) (\<lambda>relid.
       Ok \<lparr>tr_name = nm, tr_type = ty, tr_elem = elem, tr_rngsubtype = rngsubtype, tr_basetype = basetype,
           tr_schema = schema, tr_relid = relid\<rparr>)))))))"

definition get_kind :: "type_lookup \<Rightarrow> u32 \<Rightarrow> type_row \<Rightarrow> type_kind client_op" where
  "get_kind gt oid t =
     (if tr_type t = of_char CHR ''e'' then cbind (get_enum_variants gt oid) (\<lambda>variants. cret (TEnum variants))
      else if tr_type t = of_char CHR ''p'' then cret TPseudo
      else if tr_basetype t \<noteq> 0 then cbind (gt (tr_basetype t)) (\<lambda>ty. cret (TDomain ty))
      else if tr_elem t \<noteq> 0 then cbind (gt (tr_elem t)) (\<lambda>ty. cret (TArray ty))
      else if tr_relid t \<noteq> 0 then cbind (get_composite_fields gt (tr_relid t)) (\<lambda>fs. cret (TComposite fs))
      else case tr_rngsubtype t of
             Some sub \<Rightarrow> cbind (gt sub) (\<lambda>ty. cret (TRange ty))
           | None \<Rightarrow> cret TSimple)"

definition mapped_type :: "compatible_mode \<Rightarrow> u32 \<Rightarrow> type_row \<Rightarrow> type_kind \<Rightarrow> pg_type" where
  "mapped_type mode oid t k =
     (case (case mode of MysqlMode \<Rightarrow> map_mysql_type (tr_name t) oid k (tr_schema t) | _ \<Rightarrow> None) of
        Some ty \<Rightarrow> ty
      | None \<Rightarrow> type_new (tr_name t) oid k (tr_schema t))"

definition first_row :: "row_stream \<Rightarrow> row client_op" where
  "first_row rows =
     cbind (cres (fst (row_stream_next rows))) (\<lambda>row.
       case row of Some r \<Rightarrow> cret r | None \<Rightarrow> cres (Err err_unexpected_message))"

definition lookup_type :: "type_lookup \<Rightarrow> u32 \<Rightarrow> pg_type client_op" where
  "lookup_type gt oid =
     cbind (typeinfo_statement gt) (\<lambda>stmt.
     cbind (query_query stmt [dyn u32_to oid]) (\<lambda>rows.
     cbind (first_row rows) (\<lambda>row.
     cbind (cres (read_type_row row)) (\<lambda>t.
     cbind (get_kind gt oid t) (\<lambda>k.
     cbind (cget cl_compatible_mode) (\<lambda>mode.
     cbind (set_type oid (mapped_type mode oid t k)) (\<lambda>_.
       cret (mapped_type mode oid t k))))))))"

definition get_type_with :: "type_lookup \<Rightarrow> type_lookup" where
  "get_type_with gt oid =
     (case type_from_oid oid of
        Some ty \<Rightarrow> cret ty
      | None \<Rightarrow> cbind (client_type oid) (\<lambda>cached.
          case cached of Some ty \<Rightarrow> cret ty | None \<Rightarrow> lookup_type gt oid))"

primrec get_type_fuel :: "nat \<Rightarrow> type_lookup" where
  "get_type_fuel 0 = (\<lambda>oid. cres Panic)"
| "get_type_fuel (Suc n) = get_type_with (get_type_fuel n)"

definition get_type :: type_lookup where
  "get_type oid cl = get_type_fuel (Suc (length (cl_script cl))) oid cl"

definition prepare :: "str \<Rightarrow> pg_type list \<Rightarrow> statement client_op" where
  "prepare q types = prepare_with get_type q types"

section \<open>Typed queries\<close>

definition typed_encode :: "str \<Rightarrow> (dyn_to_sql \<times> pg_type) list \<Rightarrow> bytes client_op" where
  "typed_encode q params =
     cbind (cget cl_compatible_mode) (\<lambda>mode.
       with_buf (wseq (map_werr err_parse (parse [] q (map (type_oid \<circ> snd) params)))
                (wseq (encode_bind_raw [] (map (\<lambda>(p, ty). (p, ty, param_codec_alias_for_mode mode ty)) params) [])
                (wseq (map_werr err_encode (describe (of_char CHR ''S'') []))
                (wseq (map_werr err_encode (execute [] 0))
                (wseq sync split_buf))))))"

text \<open>The loop of \<open>query_typed\<close> up to the description of the rows.\<close>

definition described_body :: "unit \<Rightarrow> message \<Rightarrow> (unit, counted_body option) loop_step" where
  "described_body s m =
     (case m of
        ParseComplete \<Rightarrow> Go ()
      | BindComplete \<Rightarrow> Go ()
      | ParameterDescription _ \<Rightarrow> Go ()
      | NoData \<Rightarrow> Stop () (Ok None)
      | RowDescription body \<Rightarrow> Stop () (Ok (Some body))
      | _ \<Rightarrow> Stop () (Err err_unexpected_message))"

definition query_typed :: "str \<Rightarrow> (dyn_to_sql \<times> pg_type) list \<Rightarrow> row_stream client_op" where
  "query_typed q params =
     cbind (typed_encode q params) (\<lambda>buf.
     cbind (send_raw buf) (\<lambda>responses.
       (case message_loop described_body () responses of
          (Ok description, _, responses) \<Rightarrow>
            cbind (case description of None \<Rightarrow> cret [] | Some body \<Rightarrow> lookup_columns get_type body) (\<lambda>columns.
              cret \<lparr>rw_statement = statement_unnamed [] columns, rw_responses = responses, rw_rows_affected = None\<rparr>)
        | (Err e, _, _) \<Rightarrow> cres (Err e)
        | (Panic, _, _) \<Rightarrow> cres Panic)))"

definition typed_body :: "u64 \<Rightarrow> message \<Rightarrow> (u64, u64) loop_step" where
  "typed_body rows m =
     (case m of
        ParseComplete \<Rightarrow> Go rows
      | BindComplete \<Rightarrow> Go rows
      | ParameterDescription _ \<Rightarrow> Go rows
      | RowDescription _ \<Rightarrow> Go rows
      | NoData \<Rightarrow> Go 0
      | DataRow _ \<Rightarrow> Go rows
      | CommandComplete body \<Rightarrow> go_affected body rows id
      | EmptyQueryResponse \<Rightarrow> Go 0
      | ReadyForQuery _ \<Rightarrow> Stop rows (Ok rows)
      | _ \<Rightarrow> Stop rows (Err err_unexpected_message))"

definition execute_typed :: "str \<Rightarrow> (dyn_to_sql \<times> pg_type) list \<Rightarrow> u64 client_op" where
  "execute_typed q params =
     cbind (typed_encode q params) (\<lambda>buf.
     cbind (send_raw buf) (\<lambda>responses.
       cres (fst (message_loop typed_body 0 responses))))"

end
