(* ===== verification/ClientInv.thy ===== *)
theory ClientInv
  imports Prepare
begin

text \<open>
  The invariant every operation of the client keeps, whatever the server does: the shared buffer
  is empty between operations, so no bytes of one request leak into another; everything handed to
  the connection is a whole number of frames; the type cache answers with types of the OID asked
  for; and the cached statements are well formed. It is proved by a Hoare-style triple with one
  rule per combinator; the operations then follow by their structure.
\<close>

section \<open>The invariant\<close>

definition whole_frames :: "bytes \<Rightarrow> bool" where
  "whole_frames b \<longleftrightarrow>
     (\<exists>ps. list_all (\<lambda>(c, p). length p + 4 \<le> 2147483647) ps \<and> b = concat (map (\<lambda>(c, p). frame_bytes c p) ps))"

definition framed_message :: "frontend_message \<Rightarrow> bool" where
  "framed_message m \<longleftrightarrow>
     (case m of Raw b \<Rightarrow> whole_frames b | CopyDataMessage d \<Rightarrow> copy_data_new (cd_buf d) = Ok d)"

definition framed_request :: "request_messages \<Rightarrow> bool" where
  "framed_request r \<longleftrightarrow>
     (case r of
        Single m \<Rightarrow> framed_message m
      | CopyIn ps \<Rightarrow> list_all (\<lambda>p. case p of CopyMsg m \<Rightarrow> framed_message m | _ \<Rightarrow> True) ps)"

definition statement_ok :: "statement \<Rightarrow> bool" where
  "statement_ok s \<longleftrightarrow> length (st_params s) = length (st_param_codec_types s)"

definition pred_opt :: "('a \<Rightarrow> bool) \<Rightarrow> 'a option \<Rightarrow> bool" where
  "pred_opt P x \<longleftrightarrow> (case x of None \<Rightarrow> True | Some v \<Rightarrow> P v)"

definition client_ok :: "client \<Rightarrow> bool" where
  "client_ok cl \<longleftrightarrow>
     cl_buffer cl = [] \<and> list_all framed_request (cl_sent cl) \<and>
     (\<forall>oid ty. cl_types cl oid = Some ty \<longrightarrow> type_oid ty = oid) \<and>
     pred_opt statement_ok (cl_typeinfo cl) \<and> pred_opt statement_ok (cl_typeinfo_enum cl) \<and>
     pred_opt statement_ok (cl_typeinfo_composite cl)"

definition triple :: "('a \<Rightarrow> bool) \<Rightarrow> 'a client_op \<Rightarrow> bool" where
  "triple Q m \<longleftrightarrow>
     (\<forall>cl. client_ok cl \<longrightarrow>
        (case m cl of (Ok x, cl') \<Rightarrow> Q x \<and> client_ok cl' | (Err _, cl') \<Rightarrow> client_ok cl' | (Panic, _) \<Rightarrow> True))"

named_theorems triple_intros \<open>the operations keep the invariant\<close>

lemma tripleI:
  assumes "\<And>cl. client_ok cl \<Longrightarrow>
    (case m cl of (Ok x, cl') \<Rightarrow> Q x \<and> client_ok cl' | (Err _, cl') \<Rightarrow> client_ok cl' | (Panic, _) \<Rightarrow> True)"
  shows "triple Q m"
  using assms by (simp add: triple_def)

lemma triple_cbind:
  assumes "triple Q m" and "\<And>x. Q x \<Longrightarrow> triple R (f x)"
  shows "triple R (cbind m f)"
  unfolding triple_def
proof (intro allI impI)
  fix cl assume cl: "client_ok cl"
  obtain r cl1 where m: "m cl = (r, cl1)" by fastforce
  show "case cbind m f cl of (Ok x, cl') \<Rightarrow> R x \<and> client_ok cl' | (Err _, cl') \<Rightarrow> client_ok cl' | (Panic, _) \<Rightarrow> True"
    using assms cl m unfolding triple_def by (cases r) (force simp: cbind_def)+
qed

lemma triple_weaken: "triple Q m \<Longrightarrow> (\<And>x. Q x \<Longrightarrow> R x) \<Longrightarrow> triple R m"
  unfolding triple_def by (fastforce split: prod.splits rresult.splits)

lemma triple_cret: "Q x \<Longrightarrow> triple Q (cret x)"
  by (simp add: triple_def cret_def)

lemma triple_cres: "(\<And>x. r = Ok x \<Longrightarrow> Q x) \<Longrightarrow> triple Q (cres r)"
  by (cases r) (simp_all add: triple_def cres_def)

lemma triple_cget: "(\<And>cl. client_ok cl \<Longrightarrow> Q (f cl)) \<Longrightarrow> triple Q (cget f)"
  by (simp add: triple_def cget_def)

lemma triple_cmod: "(\<And>cl. client_ok cl \<Longrightarrow> client_ok (f cl)) \<Longrightarrow> triple (\<lambda>_. True) (cmod f)"
  by (simp add: triple_def cmod_def)

section \<open>Writers that emit whole frames\<close>

definition emits :: "(unit, 'e) writer \<Rightarrow> bool" where
  "emits w \<longleftrightarrow> (\<forall>buf out. w buf = (Ok (), out) \<longrightarrow> (\<exists>b. whole_frames b \<and> out = buf @ b))"

named_theorems emits_intros \<open>writers of whole frames\<close>

lemma whole_frames_append: "whole_frames a \<Longrightarrow> whole_frames b \<Longrightarrow> whole_frames (a @ b)"
  unfolding whole_frames_def
  by (elim exE conjE, rule exI [of _ "_ @ _"]) simp

lemma whole_frames_one: "length p + 4 \<le> 2147483647 \<Longrightarrow> whole_frames (frame_bytes c p)"
  unfolding whole_frames_def by (intro exI [of _ "[(c, p)]"]) simp

lemma whole_frames_Nil: "whole_frames []"
  unfolding whole_frames_def by (intro exI [of _ "[]"]) simp

lemma emits_wseq [emits_intros]: "emits m \<Longrightarrow> emits n \<Longrightarrow> emits (wseq m n)"
  unfolding emits_def wseq_Ok
  by (metis (full_types) append.assoc old.unit.exhaust whole_frames_append)

lemma emits_map_werr [emits_intros]: "emits w \<Longrightarrow> emits (map_werr g w)"
  unfolding emits_def map_werr_Ok .

lemma emits_frame:
  assumes "denotes w (frame c r)"
  shows "emits w"
  unfolding emits_def
proof (intro allI impI)
  fix buf out assume "w buf = (Ok (), out)"
  from denotes_Ok_out [OF assms this] obtain ext where "frame c r = Ok ext" "out = buf @ ext" by blast
  then show "\<exists>b. whole_frames b \<and> out = buf @ b" by (auto simp: frame_bytes_Ok intro: whole_frames_one)
qed

lemma emits_sync [emits_intros]: "emits sync"
  unfolding emits_def sync_run by (auto intro: whole_frames_one)

lemma emits_parse [emits_intros]: "emits (parse nm q ts)"
  by (rule emits_frame) (rule parse_denotes [unfolded parse_image_def])

lemma emits_query [emits_intros]: "emits (query q)"
  by (rule emits_frame) (rule query_denotes)

lemma emits_describe [emits_intros]: "emits (describe v nm)"
  by (rule emits_frame) (rule describe_denotes)

lemma emits_execute [emits_intros]: "emits (execute p n)"
  by (rule emits_frame) (rule execute_denotes)

lemma emits_close [emits_intros]: "emits (close v nm)"
  by (rule emits_frame) (rule close_denotes)

lemma emits_copy_fail [emits_intros]: "emits (copy_fail m)"
  by (rule emits_frame) (rule copy_fail_denotes)

lemma emits_wunwrap [emits_intros]: "emits w \<Longrightarrow> emits (wunwrap w)"
  by (auto simp: emits_def wunwrap_def unwrap_def prod_eq_iff split: rresult.splits)

lemma emits_bind_raw [emits_intros]: "emits (encode_bind_raw nm ps portal)"
  unfolding emits_def encode_bind_raw_iff
  by (auto intro!: whole_frames_one simp: bind_fits_def)

lemma emits_bind [emits_intros]: "emits (encode_bind st params portal)"
  unfolding emits_def encode_bind_iff
  by (auto intro!: whole_frames_one simp: bind_fits_def)

text \<open>A whole request is written and split off.\<close>

lemma triple_with_buf:
  assumes "\<And>buf b out. w buf = (Ok b, out) \<Longrightarrow> buf = [] \<Longrightarrow> whole_frames b"
  shows "triple whole_frames (with_buf w)"
proof (rule tripleI)
  fix cl assume cl: "client_ok cl"
  then have b: "cl_buffer cl = []" "client_ok (cl\<lparr>cl_buffer := []\<rparr>)" by (simp_all add: client_ok_def)
  obtain r out where w: "w [] = (r, out)" by fastforce
  with assms [of "[]"] b show "case with_buf w cl of (Ok x, cl') \<Rightarrow> whole_frames x \<and> client_ok cl'
      | (Err _, cl') \<Rightarrow> client_ok cl' | (Panic, _) \<Rightarrow> True"
    by (cases r) (simp_all add: with_buf_def)
qed

text \<open>\<open>request w\<close>: the writer chain ends in \<open>split_buf\<close> and everything before it emits frames.\<close>

definition request_writer :: "(bytes, 'e) writer \<Rightarrow> bool" where
  "request_writer w \<longleftrightarrow> (\<forall>buf b out. w buf = (Ok b, out) \<longrightarrow> whole_frames buf \<longrightarrow> whole_frames b)"

lemma request_split [emits_intros]: "request_writer split_buf"
  by (simp add: request_writer_def split_buf_Ok)

lemma request_wseq [emits_intros]: "emits m \<Longrightarrow> request_writer n \<Longrightarrow> request_writer (wseq m n)"
  unfolding request_writer_def emits_def wseq_Ok
  by (metis (full_types) old.unit.exhaust whole_frames_append)

lemma triple_request: "request_writer w \<Longrightarrow> triple whole_frames (with_buf w)"
  by (rule triple_with_buf) (metis request_writer_def whole_frames_Nil)

section \<open>The primitive operations\<close>

lemma client_ok_send: "client_ok cl \<Longrightarrow> framed_request r \<Longrightarrow> client_ok (snd (send r cl))"
  by (auto simp: send_def client_ok_def split: list.splits option.splits)

lemma triple_send: "framed_request r \<Longrightarrow> triple (\<lambda>_. True) (send r)"
  unfolding triple_def using client_ok_send [of _ r]
  by (fastforce simp: send_def split: list.splits option.splits)

lemma triple_send_raw: "whole_frames buf \<Longrightarrow> triple (\<lambda>_. True) (send_raw buf)"
  unfolding send_raw_def by (rule triple_send) (simp add: framed_request_def framed_message_def)

lemma triple_expect: "triple (\<lambda>_. True) (expect f r)"
  by (auto simp: triple_def expect_def split: prod.splits rresult.splits option.splits)

lemma triple_set_type: "type_oid ty = oid \<Longrightarrow> triple (\<lambda>_. True) (set_type oid ty)"
  unfolding set_type_def by (rule triple_cmod) (simp add: client_ok_def)

lemma triple_names: "triple (\<lambda>_. True) next_statement_name" "triple (\<lambda>_. True) next_portal_name"
  by (simp_all add: triple_def next_statement_name_def next_portal_name_def client_ok_def)

lemma triple_iter_ops:
  assumes "\<And>x. triple Q (f x)"
  shows "triple (list_all Q) (iter_ops n nxt f s)"
proof (induction n arbitrary: s)
  case 0
  show ?case unfolding iter_ops.simps by (rule triple_cres) simp
next
  case (Suc n)
  show ?case
    by (auto intro!: triple_cbind [OF triple_cres [where Q = "\<lambda>_. True"]] triple_cret triple_cbind [OF assms]
        triple_cbind [OF Suc.IH] split: option.splits)
qed

lemma triple_or_on_code: "triple Q m \<Longrightarrow> triple Q n \<Longrightarrow> triple Q (or_on_code code m n)"
proof (rule tripleI)
  fix cl assume m: "triple Q m" and n: "triple Q n" and cl: "client_ok cl"
  obtain r cl1 where r: "m cl = (r, cl1)" by fastforce
  show "case or_on_code code m n cl of (Ok x, cl') \<Rightarrow> Q x \<and> client_ok cl' | (Err _, cl') \<Rightarrow> client_ok cl' | (Panic, _) \<Rightarrow> True"
  proof (cases r)
    case (Err e)
    with m cl r have "client_ok cl1" by (force simp: triple_def)
    with n Err r show ?thesis by (simp add: or_on_code_def triple_def)
  qed (use m cl r in \<open>force simp: or_on_code_def triple_def\<close>)+
qed

section \<open>Preparing and looking types up\<close>

lemma triple_case_prod: "(\<And>a b. triple Q (f a b)) \<Longrightarrow> triple Q (case p of (a, b) \<Rightarrow> f a b)"
  by (simp split: prod.split)

lemma triple_case_option: "(\<And>x. p = Some x \<Longrightarrow> triple Q (g x)) \<Longrightarrow> (p = None \<Longrightarrow> triple Q f) \<Longrightarrow>
    triple Q (case p of None \<Rightarrow> f | Some x \<Rightarrow> g x)"
  by (simp split: option.split)

definition lookup_ok :: "type_lookup \<Rightarrow> bool" where
  "lookup_ok gt \<longleftrightarrow> (\<forall>oid. triple (\<lambda>ty. type_oid ty = oid) (gt oid))"

lemma lookup_okD: "lookup_ok gt \<Longrightarrow> triple (\<lambda>ty. type_oid ty = oid) (gt oid)"
  by (simp add: lookup_ok_def)

lemma triple_prepare_encode: "triple whole_frames (prepare_encode nm q types)"
  unfolding prepare_encode_def by (intro triple_request emits_intros)

lemma triple_lookup_columns:
  assumes "lookup_ok gt"
  shows "triple (\<lambda>_. True) (lookup_columns gt body)"
  unfolding lookup_columns_def
proof (rule triple_weaken [OF triple_iter_ops [where Q = "\<lambda>_. True"]])
  show "triple (\<lambda>_. True) (lookup_column gt f)" for f
    unfolding lookup_column_def
    by (intro triple_cbind [OF lookup_okD [OF assms]] triple_cbind [OF triple_cget [where Q = "\<lambda>_. True"]] triple_cret TrueI)
qed simp

lemma triple_prepare_with:
  assumes "lookup_ok gt"
  shows "triple statement_ok (prepare_with gt q types)"
proof -
  have params: "triple (\<lambda>_. True) (lookup_parameter gt oid)" for oid
    unfolding lookup_parameter_def
    by (intro triple_cbind [OF lookup_okD [OF assms]] triple_cbind [OF triple_cget [where Q = "\<lambda>_. True"]] triple_cret TrueI)
  have columns: "triple (\<lambda>_. True) (case d of None \<Rightarrow> cret [] | Some body \<Rightarrow> lookup_columns gt body)" for d
    by (rule triple_case_option) (rule triple_lookup_columns [OF assms], rule triple_cret, simp)
  have final: "triple statement_ok (cres (statement_new nm a b c))" for nm a b c
    by (rule triple_cres) (auto simp: statement_new_def statement_ok_def split: if_splits)
  show ?thesis
    unfolding prepare_with_def
    by (intro triple_cbind [OF triple_names(1)] triple_cbind [OF triple_prepare_encode]
        triple_cbind [OF triple_send_raw] triple_cbind [OF triple_expect] triple_case_prod
        triple_cbind [OF triple_iter_ops [OF params]] triple_cbind [OF columns] final)
qed

lemma triple_cached:
  assumes "\<And>cl. client_ok cl \<Longrightarrow> pred_opt statement_ok (get cl)"
    and "triple statement_ok m"
    and "\<And>s. statement_ok s \<Longrightarrow> triple (\<lambda>_. True) (set_it s)"
  shows "triple statement_ok (cbind (cget get) (\<lambda>cached. case cached of Some stmt \<Rightarrow> cret stmt
     | None \<Rightarrow> cbind m (\<lambda>stmt. cbind (set_it stmt) (\<lambda>_. cret stmt))))"
  by (rule triple_cbind [OF triple_cget [where Q = "pred_opt statement_ok", OF assms(1)]], assumption)
    (auto simp: pred_opt_def intro!: triple_cret triple_cbind [OF assms(2)] triple_cbind [OF assms(3)]
      split: option.splits)

lemma triple_typeinfo:
  assumes "lookup_ok gt"
  shows "triple statement_ok (typeinfo_statement gt)" "triple statement_ok (typeinfo_enum_statement gt)"
    "triple statement_ok (typeinfo_composite_statement gt)"
  unfolding typeinfo_statement_def typeinfo_enum_statement_def typeinfo_composite_statement_def
    set_typeinfo_def set_typeinfo_enum_def set_typeinfo_composite_def
  by (intro triple_cached triple_or_on_code triple_prepare_with assms triple_cmod;
      simp add: client_ok_def pred_opt_def)+

lemma triple_query_encode: "triple whole_frames (query_encode st params)"
  unfolding query_encode_def by (intro triple_request emits_intros)

lemma triple_start: "whole_frames buf \<Longrightarrow> triple (\<lambda>_. True) (start buf)"
  unfolding start_def
  by (intro triple_cbind [OF triple_send_raw] triple_cbind [OF triple_expect] triple_case_prod triple_cret TrueI)

lemma triple_query: "triple (\<lambda>_. True) (query_query st params)"
  unfolding query_query_def
  by (intro triple_cbind [OF triple_query_encode] triple_cbind [OF triple_start] triple_cret TrueI)

lemma triple_cres_any: "triple (\<lambda>_. True) (cres r)"
  by (rule triple_cres) (rule TrueI)

lemma triple_composite_fields:
  assumes "lookup_ok gt"
  shows "triple (\<lambda>_. True) (composite_fields gt rows)"
proof (induction rows)
  case Nil
  show ?case unfolding composite_fields.simps by (rule triple_cret) (rule TrueI)
next
  case (Cons row rows)
  note gt = lookup_okD [OF assms]
  show ?case unfolding composite_fields.simps
    by (intro triple_cbind [OF triple_cres_any] triple_cbind [OF gt] triple_cbind [OF Cons] triple_cret TrueI)
qed

lemma triple_get_kind:
  assumes "lookup_ok gt"
  shows "triple (\<lambda>_. True) (get_kind gt oid t)"
proof -
  note gt = lookup_okD [OF assms]
  have enum: "triple (\<lambda>_. True) (get_enum_variants gt oid)" for oid
    unfolding get_enum_variants_def
    by (intro triple_cbind [OF triple_typeinfo(2)] assms triple_cbind [OF triple_query] triple_cres_any)
  have comp: "triple (\<lambda>_. True) (get_composite_fields gt oid)" for oid
    unfolding get_composite_fields_def
    by (intro triple_cbind [OF triple_typeinfo(3)] assms triple_cbind [OF triple_query] triple_cbind [OF triple_cres_any]
        triple_composite_fields)
  show ?thesis
    unfolding get_kind_def
    by (auto intro!: triple_cbind [OF gt] triple_cbind [OF enum] triple_cbind [OF comp] triple_cret split: option.splits)
qed

lemma type_oid_mapped: "type_oid (mapped_type mode oid t k) = oid"
  by (auto simp: mapped_type_def map_mysql_type_def type_new_def split: compatible_mode.splits option.splits)

lemma type_oid_builtin: "type_from_oid oid = Some ty \<Longrightarrow> type_oid ty = oid"
  by (auto simp: type_from_oid_def split: if_splits)

lemma triple_first_row: "triple (\<lambda>_. True) (first_row rows)"
  unfolding first_row_def
  by (intro triple_cbind [OF triple_cres_any] triple_case_option triple_cret TrueI triple_cres_any)

lemma triple_lookup_type:
  assumes "lookup_ok gt"
  shows "triple (\<lambda>ty. type_oid ty = oid) (lookup_type gt oid)"
  unfolding lookup_type_def
  by (intro triple_cbind [OF triple_typeinfo(1)] assms triple_cbind [OF triple_query] triple_cbind [OF triple_first_row]
      triple_cbind [OF triple_cres_any] triple_cbind [OF triple_get_kind]
      triple_cbind [OF triple_cget [where Q = "\<lambda>_. True"]] TrueI triple_cbind [OF triple_set_type] triple_cret type_oid_mapped)

lemma lookup_ok_with: "lookup_ok gt \<Longrightarrow> lookup_ok (get_type_with gt)"
  unfolding lookup_ok_def [of "get_type_with gt"]
proof
  fix oid assume gt: "lookup_ok gt"
  have cached: "triple (\<lambda>x. \<forall>ty. x = Some ty \<longrightarrow> type_oid ty = oid) (client_type oid)"
    unfolding client_type_def by (rule triple_cget) (simp add: client_ok_def)
  show "triple (\<lambda>ty. type_oid ty = oid) (get_type_with gt oid)"
    unfolding get_type_with_def
  proof (rule triple_case_option)
    show "triple (\<lambda>ty. type_oid ty = oid) (cbind (client_type oid)
        (\<lambda>cached. case cached of None \<Rightarrow> lookup_type gt oid | Some ty \<Rightarrow> cret ty))"
      by (intro triple_cbind [OF cached] triple_case_option triple_lookup_type gt triple_cret) simp
  qed (intro triple_cret type_oid_builtin)
qed

lemma lookup_ok_fuel: "lookup_ok (get_type_fuel n)"
proof (induction n)
  case 0
  show ?case by (simp add: lookup_ok_def triple_def cres_def)
qed (simp add: lookup_ok_with)

lemma lookup_ok_get_type: "lookup_ok get_type"
  unfolding lookup_ok_def
proof (rule allI, rule tripleI)
  fix oid cl assume "client_ok cl"
  with lookup_okD [OF lookup_ok_fuel, of oid "Suc (length (cl_script cl))"]
  show "case get_type oid cl of (Ok x, cl') \<Rightarrow> type_oid x = oid \<and> client_ok cl' | (Err _, cl') \<Rightarrow> client_ok cl' | (Panic, _) \<Rightarrow> True"
    by (simp add: triple_def get_type_def del: get_type_fuel.simps)
qed

section \<open>The other operations\<close>

lemma triple_prepare: "triple statement_ok (prepare q types)"
  unfolding prepare_def by (rule triple_prepare_with) (rule lookup_ok_get_type)

lemma triple_execute: "triple (\<lambda>_. True) (query_execute st params)"
  unfolding query_execute_def
  by (intro triple_cbind [OF triple_query_encode] triple_cbind [OF triple_start] triple_cres_any)

lemma triple_typed_encode: "triple whole_frames (typed_encode q params)"
  unfolding typed_encode_def
  by (intro triple_cbind [OF triple_cget [where Q = "\<lambda>_. True"]] TrueI triple_request emits_intros)

lemma triple_query_typed: "triple (\<lambda>_. True) (query_typed q params)"
proof -
  have columns: "triple (\<lambda>_. True) (case d of None \<Rightarrow> cret [] | Some body \<Rightarrow> lookup_columns get_type body)" for d
    by (rule triple_case_option) (rule triple_lookup_columns [OF lookup_ok_get_type], rule triple_cret, simp)
  show ?thesis
    unfolding query_typed_def
    by (intro triple_cbind [OF triple_typed_encode] triple_cbind [OF triple_send_raw])
      (auto split: prod.split rresult.split intro!: triple_cbind [OF columns] triple_cret triple_cres_any)
qed

lemma triple_execute_typed: "triple (\<lambda>_. True) (execute_typed q params)"
  unfolding execute_typed_def
  by (intro triple_cbind [OF triple_typed_encode] triple_cbind [OF triple_send_raw] triple_cres_any)

lemma triple_query_portal: "triple (\<lambda>_. True) (query_portal p n)"
  unfolding query_portal_def
  by (intro triple_cbind [OF triple_request] triple_cbind [OF triple_send_raw] triple_cret emits_intros TrueI)

lemma triple_bind: "triple (\<lambda>_. True) (bind_bind st params)"
  unfolding bind_bind_def
  by (rule triple_cbind [OF triple_names(2)], rule triple_cbind [OF triple_request])
    (intro triple_cbind [OF triple_send_raw] triple_cbind [OF triple_expect] triple_cret emits_intros TrueI)+

lemma triple_sync: "triple (\<lambda>_. True) query_sync"
proof -
  have "[0x53, 0, 0, 0, 4] = frame_bytes CHR ''S'' []" by code_simp
  then have "whole_frames [0x53, 0, 0, 0, 4]" by (simp add: whole_frames_one)
  then show ?thesis unfolding query_sync_def
    by (intro triple_cbind [OF triple_send_raw] triple_cbind [OF triple_expect] triple_cret TrueI)
qed

lemma triple_send_ignored: "whole_frames buf \<Longrightarrow> triple (\<lambda>_. True) (send_ignored buf)"
  using client_ok_send [of _ "Single (Raw buf)"]
  by (simp add: triple_def send_ignored_def send_raw_def framed_request_def framed_message_def)

lemma triple_drop: "triple (\<lambda>_. True) (statement_drop st)" "triple (\<lambda>_. True) (portal_drop p)"
proof -
  have d: "triple (\<lambda>_. True) (drop_named c nm)" for c nm
    unfolding drop_named_def
    by (intro triple_cbind [OF triple_request] emits_intros triple_send_ignored)
  show "triple (\<lambda>_. True) (statement_drop st)" "triple (\<lambda>_. True) (portal_drop p)"
    unfolding statement_drop_def portal_drop_def using d by (auto intro: triple_cret)
qed

end
