(* ===== verification/PrepareSpec.thy ===== *)
theory PrepareSpec
  imports ClientInv
begin

text \<open>
  The depth of \<open>get_type\<close> does not matter once it exceeds the number of requests the channel still
  takes: the loop equations of \<open>get_type\<close> and \<open>prepare\<close> without fuel, and what a lookup returns and
  remembers.
\<close>

section \<open>Operations that agree on short scripts\<close>

definition left :: "client \<Rightarrow> nat" where
  "left cl = length (cl_script cl)"

text \<open>The operations agree where fewer than \<open>n\<close> requests are left, and never gain requests.\<close>

definition agree :: "nat \<Rightarrow> 'a client_op \<Rightarrow> 'a client_op \<Rightarrow> bool" where
  "agree n m m' \<longleftrightarrow> (\<forall>cl. left cl < n \<longrightarrow> m cl = m' cl \<and> left (snd (m cl)) \<le> left cl)"

definition consumes :: "'a client_op \<Rightarrow> bool" where
  "consumes m \<longleftrightarrow>
     (\<forall>cl. left (snd (m cl)) \<le> left cl \<and> (\<forall>x cl'. m cl = (Ok x, cl') \<longrightarrow> left cl' < left cl))"

definition keeps :: "'a client_op \<Rightarrow> bool" where
  "keeps m \<longleftrightarrow> (\<forall>cl. left (snd (m cl)) \<le> left cl)"

lemma agreeD: "agree n m m' \<Longrightarrow> left cl < n \<Longrightarrow> m cl = m' cl"
  unfolding agree_def by blast

lemma agree_left: "agree n m m' \<Longrightarrow> left cl < n \<Longrightarrow> left (snd (m' cl)) \<le> left cl"
  unfolding agree_def by metis

lemma consumes_left: "consumes m \<Longrightarrow> m cl = (r, cl1) \<Longrightarrow> left cl1 \<le> left cl"
  unfolding consumes_def by (metis snd_conv)

lemma consumes_Ok: "consumes m \<Longrightarrow> m cl = (Ok x, cl1) \<Longrightarrow> left cl1 < left cl"
  unfolding consumes_def by blast

lemma keeps_left: "keeps m \<Longrightarrow> m cl = (r, cl1) \<Longrightarrow> left cl1 \<le> left cl"
  unfolding keeps_def by (metis snd_conv)

lemma agree_keeps: "keeps m \<Longrightarrow> agree n m m"
  by (simp add: agree_def keeps_def)

lemma agree_cbind:
  assumes "agree n m m'" and "\<And>x. agree n (f x) (f' x)"
  shows "agree n (cbind m f) (cbind m' f')"
  unfolding agree_def
proof (intro allI impI)
  fix cl assume cl: "left cl < n"
  obtain r cl1 where m: "m cl = (r, cl1)" by fastforce
  then have m': "m' cl = (r, cl1)" using agreeD [OF assms(1) cl] by simp
  with agree_left [OF assms(1) cl] have l: "left cl1 \<le> left cl" by simp
  show "cbind m f cl = cbind m' f' cl \<and> left (snd (cbind m f cl)) \<le> left cl"
  proof (cases r)
    case (Ok x)
    have "left cl1 < n" using l cl by simp
    then have "f x cl1 = f' x cl1" "left (snd (f' x cl1)) \<le> left cl1"
      using agreeD [OF assms(2)] agree_left [OF assms(2)] by blast+
    with m m' l Ok show ?thesis by (simp add: cbind_def)
  qed (use m m' l in \<open>simp_all add: cbind_def\<close>)
qed

lemma agree_consumed:
  assumes "consumes m" and "\<And>x. agree n (f x) (f' x)"
  shows "agree (Suc n) (cbind m f) (cbind m f')"
  unfolding agree_def
proof (intro allI impI)
  fix cl assume cl: "left cl < Suc n"
  obtain r cl1 where m: "m cl = (r, cl1)" by fastforce
  with assms(1) have l: "left cl1 \<le> left cl" by (rule consumes_left)
  show "cbind m f cl = cbind m f' cl \<and> left (snd (cbind m f cl)) \<le> left cl"
  proof (cases r)
    case (Ok x)
    with m have "left cl1 < left cl" using consumes_Ok [OF assms(1)] by simp
    then have "left cl1 < n" using cl by simp
    then have "f x cl1 = f' x cl1" "left (snd (f' x cl1)) \<le> left cl1"
      using agreeD [OF assms(2)] agree_left [OF assms(2)] by blast+
    with m l Ok show ?thesis by (simp add: cbind_def)
  qed (use m l in \<open>simp_all add: cbind_def\<close>)
qed

lemma keeps_cbind: "keeps m \<Longrightarrow> (\<And>x. keeps (f x)) \<Longrightarrow> keeps (cbind m f)"
  using agree_cbind [OF agree_keeps agree_keeps, of m f] unfolding keeps_def agree_def by (metis lessI)

lemma agree_case_prod: "(\<And>a b. agree n (f a b) (f' a b)) \<Longrightarrow> agree n (case p of (a, b) \<Rightarrow> f a b) (case p of (a, b) \<Rightarrow> f' a b)"
  by (simp split: prod.split)

lemma agree_case_option:
  "agree n f f' \<Longrightarrow> (\<And>x. agree n (g x) (g' x)) \<Longrightarrow>
     agree n (case p of None \<Rightarrow> f | Some x \<Rightarrow> g x) (case p of None \<Rightarrow> f' | Some x \<Rightarrow> g' x)"
  by (simp split: option.split)

lemma agree_or_on_code:
  assumes "agree n m m'" and "agree n k k'"
  shows "agree n (or_on_code code m k) (or_on_code code m' k')"
  unfolding agree_def
proof (intro allI impI)
  fix cl assume cl: "left cl < n"
  obtain r cl1 where m: "m cl = (r, cl1)" by fastforce
  then have m': "m' cl = (r, cl1)" using agreeD [OF assms(1) cl] by simp
  with agree_left [OF assms(1) cl] have l: "left cl1 \<le> left cl" by simp
  have "left cl1 < n" using l cl by simp
  then have "k cl1 = k' cl1" "left (snd (k' cl1)) \<le> left cl1"
    using agreeD [OF assms(2)] agree_left [OF assms(2)] by blast+
  with m m' l show "or_on_code code m k cl = or_on_code code m' k' cl \<and> left (snd (or_on_code code m k cl)) \<le> left cl"
    by (auto simp: or_on_code_def split: rresult.splits)
qed

lemma keeps_prims:
  "keeps (cret x)" "keeps (cres r)" "keeps (cget f)" "keeps (with_buf w)" "keeps (expect h rs)"
  "keeps (set_type oid ty)" "keeps next_statement_name"
  "keeps (set_typeinfo s)" "keeps (set_typeinfo_enum s)" "keeps (set_typeinfo_composite s)"
  by (auto simp: keeps_def cdefs with_buf_def expect_def set_type_def next_statement_name_def left_def
      set_typeinfo_def set_typeinfo_enum_def set_typeinfo_composite_def split: prod.splits rresult.splits option.splits)

lemma consumes_send_raw: "consumes (send_raw buf)"
  by (auto simp: consumes_def send_raw_def send_def left_def split: list.splits option.splits)

lemma consumes_cbind_keeps:
  assumes "consumes m" and "\<And>x. keeps (f x)"
  shows "consumes (cbind m f)"
  unfolding consumes_def
proof (intro allI conjI impI)
  fix cl
  obtain r cl1 where m: "m cl = (r, cl1)" by fastforce
  have l: "left cl1 \<le> left cl" and s: "\<And>x. r = Ok x \<Longrightarrow> left cl1 < left cl"
    using consumes_left [OF assms(1) m] consumes_Ok [OF assms(1)] m by simp_all
  have k: "left (snd (f x cl1)) \<le> left cl1" for x using assms(2) [of x] by (simp add: keeps_def)
  show "left (snd (cbind m f cl)) \<le> left cl"
    using m l le_trans [OF k l] by (cases r) (simp_all add: cbind_def)
  fix y cl' assume "cbind m f cl = (Ok y, cl')"
  then obtain x where "r = Ok x" "f x cl1 = (Ok y, cl')" using m by (auto simp: cbind_Ok)
  with s [of x] k [of x] show "left cl' < left cl" by simp
qed

lemma consumes_keeps_cbind:
  assumes "keeps m" and "\<And>x. consumes (f x)"
  shows "consumes (cbind m f)"
  unfolding consumes_def
proof (intro allI conjI impI)
  fix cl
  obtain r cl1 where m: "m cl = (r, cl1)" by fastforce
  have l: "left cl1 \<le> left cl" using keeps_left [OF assms(1) m] .
  have k: "left (snd (f x cl1)) \<le> left cl1" for x using assms(2) [of x] by (simp add: consumes_def)
  show "left (snd (cbind m f cl)) \<le> left cl"
    using m l le_trans [OF k l] by (cases r) (simp_all add: cbind_def)
  fix y cl' assume "cbind m f cl = (Ok y, cl')"
  then obtain x where "f x cl1 = (Ok y, cl')" using m by (auto simp: cbind_Ok)
  with consumes_Ok [OF assms(2)] l show "left cl' < left cl" by fastforce
qed

lemma agree_keeps_then: "keeps m \<Longrightarrow> (\<And>x. agree n (f x) (f' x)) \<Longrightarrow> agree n (cbind m f) (cbind m f')"
  by (rule agree_cbind [OF agree_keeps])

section \<open>The lookups agree\<close>

lemma consumes_query: "consumes (query_query st params)"
  unfolding query_query_def start_def query_encode_def
  by (intro consumes_keeps_cbind [OF keeps_prims(4)] consumes_cbind_keeps [OF consumes_cbind_keeps [OF consumes_send_raw]]
      keeps_cbind keeps_prims) (auto split: prod.split intro: keeps_cbind keeps_prims)

lemma agree_iter_ops:
  assumes "\<And>x. agree n (f x) (f' x)"
  shows "agree n (iter_ops k nxt f s) (iter_ops k nxt f' s)"
proof (induction k arbitrary: s)
  case 0
  show ?case unfolding iter_ops.simps by (rule agree_keeps) (rule keeps_prims)
next
  case (Suc k)
  show ?case unfolding iter_ops.simps
    by (intro agree_keeps_then [OF keeps_prims(2)] agree_case_prod agree_case_option agree_keeps [OF keeps_prims(1)]
        agree_cbind [OF assms] agree_cbind [OF Suc])
qed

definition lookups_agree :: "nat \<Rightarrow> type_lookup \<Rightarrow> type_lookup \<Rightarrow> bool" where
  "lookups_agree n g h \<longleftrightarrow> (\<forall>oid. agree n (g oid) (h oid))"

lemma lookups_agreeD: "lookups_agree n g h \<Longrightarrow> agree n (g oid) (h oid)"
  by (simp add: lookups_agree_def)

lemma agree_lookup_columns: "lookups_agree n g h \<Longrightarrow> agree n (lookup_columns g body) (lookup_columns h body)"
  unfolding lookup_columns_def lookup_column_def
  by (intro agree_iter_ops agree_cbind [OF lookups_agreeD] agree_keeps_then [OF keeps_prims(3)] agree_keeps [OF keeps_prims(1)])

lemma agree_prepare_with:
  assumes "lookups_agree n g h"
  shows "agree (Suc n) (prepare_with g q types) (prepare_with h q types)"
proof -
  have p: "agree n (lookup_parameter g oid) (lookup_parameter h oid)" for oid
    unfolding lookup_parameter_def
    by (intro agree_cbind [OF lookups_agreeD [OF assms]] agree_keeps_then [OF keeps_prims(3)] agree_keeps [OF keeps_prims(1)])
  have c: "agree n (case d of None \<Rightarrow> cret [] | Some body \<Rightarrow> lookup_columns g body)
      (case d of None \<Rightarrow> cret [] | Some body \<Rightarrow> lookup_columns h body)" for d
    by (intro agree_case_option agree_keeps [OF keeps_prims(1)] agree_lookup_columns assms)
  show ?thesis
    unfolding prepare_with_def prepare_encode_def
    by (intro agree_keeps_then [OF keeps_prims(7)] agree_keeps_then [OF keeps_prims(4)]
        agree_consumed [OF consumes_send_raw] agree_keeps_then [OF keeps_prims(5)] agree_case_prod
        agree_cbind [OF agree_iter_ops [OF p]] agree_cbind [OF c] agree_keeps [OF keeps_prims(2)])
qed

lemma agree_mono: "agree (Suc n) m m' \<Longrightarrow> agree n m m'"
  unfolding agree_def by (metis less_SucI)

lemma lookups_agree_mono: "lookups_agree (Suc n) g h \<Longrightarrow> lookups_agree n g h"
  by (simp add: lookups_agree_def agree_mono)

lemma agree_typeinfo:
  assumes "lookups_agree n g h"
  shows "agree (Suc n) (typeinfo_statement g) (typeinfo_statement h)"
    and "agree (Suc n) (typeinfo_enum_statement g) (typeinfo_enum_statement h)"
    and "agree (Suc n) (typeinfo_composite_statement g) (typeinfo_composite_statement h)"
  unfolding typeinfo_statement_def typeinfo_enum_statement_def typeinfo_composite_statement_def
  by (intro agree_keeps_then [OF keeps_prims(3)] agree_case_option agree_keeps [OF keeps_prims(1)]
      agree_cbind [OF agree_or_on_code] agree_cbind [OF agree_prepare_with] agree_prepare_with assms
      agree_keeps keeps_cbind keeps_prims)+

lemma agree_composite_fields:
  assumes "lookups_agree n g h"
  shows "agree n (composite_fields g rows) (composite_fields h rows)"
proof (induction rows)
  case Nil
  show ?case unfolding composite_fields.simps by (rule agree_keeps) (rule keeps_prims)
next
  case (Cons row rows)
  show ?case unfolding composite_fields.simps
    by (intro agree_keeps_then [OF keeps_prims(2)] agree_cbind [OF lookups_agreeD [OF assms]] agree_cbind [OF Cons]
        agree_keeps [OF keeps_prims(1)])
qed

lemma consumes_keeps: "consumes m \<Longrightarrow> keeps m"
  by (simp add: consumes_def keeps_def)

lemma agree_get_kind:
  assumes "lookups_agree n g h"
  shows "agree n (get_kind g oid t) (get_kind h oid t)"
proof -
  note q = agree_keeps_then [OF consumes_keeps [OF consumes_query]]
  have enum: "agree n (get_enum_variants g oid) (get_enum_variants h oid)" for oid
    unfolding get_enum_variants_def
    by (intro agree_cbind [OF agree_mono [OF agree_typeinfo(2)]] assms q agree_keeps [OF keeps_prims(2)])
  have comp: "agree n (get_composite_fields g oid) (get_composite_fields h oid)" for oid
    unfolding get_composite_fields_def
    by (intro agree_cbind [OF agree_mono [OF agree_typeinfo(3)]] assms q agree_keeps_then [OF keeps_prims(2)]
        agree_composite_fields)
  show ?thesis
    unfolding get_kind_def
    by (auto intro!: agree_cbind [OF enum] agree_cbind [OF comp] agree_cbind [OF lookups_agreeD [OF assms]]
        agree_keeps [OF keeps_prims(1)] agree_case_option)
qed

lemma agree_lookup_type:
  assumes "lookups_agree n g h"
  shows "agree (Suc n) (lookup_type g oid) (lookup_type h oid)"
  unfolding lookup_type_def first_row_def
  by (intro agree_cbind [OF agree_typeinfo(1)] assms agree_consumed [OF consumes_query]
      agree_cbind [OF agree_get_kind] agree_keeps_then [OF keeps_cbind] agree_keeps_then keeps_prims
      agree_keeps [OF keeps_prims(1)])
    (auto split: option.split intro: keeps_prims)

lemma lookups_agree_with: "lookups_agree n g h \<Longrightarrow> lookups_agree (Suc n) (get_type_with g) (get_type_with h)"
  unfolding lookups_agree_def [of "Suc n"] get_type_with_def client_type_def
  by (intro allI agree_case_option agree_keeps_then [OF keeps_prims(3)] agree_lookup_type agree_keeps [OF keeps_prims(1)])

lemma fuel_agree: "lookups_agree n (get_type_fuel n) (get_type_fuel (n + k))"
proof (induction n)
  case 0
  show ?case by (simp add: lookups_agree_def agree_def)
next
  case (Suc n)
  then show ?case using lookups_agree_with by simp
qed

lemma get_type_fuel_enough: "left cl < n \<Longrightarrow> get_type_fuel n oid cl = get_type oid cl"
proof -
  assume n: "left cl < n"
  then obtain k where k: "n = Suc (left cl) + k" using less_imp_Suc_add by fastforce
  have "get_type_fuel (Suc (left cl)) oid cl = get_type_fuel n oid cl"
    unfolding k by (rule agreeD [OF lookups_agreeD [OF fuel_agree]]) simp
  then show ?thesis by (simp only: get_type_def left_def)
qed

lemma get_type_agrees: "lookups_agree n (get_type_fuel n) get_type"
  unfolding lookups_agree_def agree_def
proof (intro allI impI)
  fix oid cl assume l: "left cl < n"
  from agree_left [OF lookups_agreeD [OF fuel_agree [of n 0], of oid] l] get_type_fuel_enough [OF l]
  show "get_type_fuel n oid cl = get_type oid cl \<and> left (snd (get_type_fuel n oid cl)) \<le> left cl" by simp
qed

lemma get_type_unfold: "get_type oid cl = get_type_with get_type oid cl"
proof -
  have "get_type oid cl = get_type_fuel (Suc (Suc (left cl))) oid cl"
    by (rule get_type_fuel_enough [symmetric]) simp
  also have "\<dots> = get_type_with (get_type_fuel (Suc (left cl))) oid cl" by simp
  also have "\<dots> = get_type_with get_type oid cl"
    using agreeD [OF lookups_agreeD [OF lookups_agree_with [OF get_type_agrees [of "Suc (left cl)"]]]] by simp
  finally show ?thesis .
qed

section \<open>The properties\<close>


lemma get_type_cached: "cl_types cl oid = Some ty \<Longrightarrow> type_from_oid oid = None \<Longrightarrow> get_type oid cl = (Ok ty, cl)"
  by (simp add: get_type_unfold get_type_with_def client_type_def cbind_def cdefs)

lemma get_type_remembers:
  assumes "get_type oid cl = (Ok ty, cl')"
  shows "get_type oid cl' = (Ok ty, cl')"
proof (cases "type_from_oid oid")
  case (Some ty')
  with assms show ?thesis by (simp add: get_type_unfold get_type_with_def cret_def)
next
  case None
  have "cl_types cl' oid = Some ty"
  proof (cases "cl_types cl oid")
    case (Some ty')
    with assms None show ?thesis by (auto simp: get_type_cached)
  next
    case no: None
    have "lookup_type get_type oid cl = (Ok ty, cl')"
      using assms None no by (simp add: get_type_unfold [of oid cl] get_type_with_def client_type_def cbind_def cget_def)
    then show ?thesis
      by (auto simp: lookup_type_def cbind_Ok cdefs set_type_def)
  qed
  with None show ?thesis by (simp add: get_type_cached)
qed

lemma get_type_oid: "client_ok cl \<Longrightarrow> get_type oid cl = (Ok ty, cl') \<Longrightarrow> type_oid ty = oid \<and> client_ok cl'"
  using lookup_okD [OF lookup_ok_get_type, of oid] by (force simp: triple_def)

text \<open>
  C33. What a type lookup returns. Whatever the server answers, a type is returned only for the OID
  that was asked for, also from the cache; the client stays well formed; and asking again for the
  same OID returns the same type at once, without any request.
\<close>

theorem get_type_sound:
  assumes "client_ok cl" and "get_type oid cl = (Ok ty, cl')"
  shows "type_oid ty = oid \<and> client_ok cl' \<and> get_type oid cl' = (Ok ty, cl')"
  using get_type_oid [OF assms] get_type_remembers [OF assms(2)] by simp

theorem get_type_sound_witness:
  "type_oid (Builtin 23) = 23 \<and> get_type 23 (client_new [] 0 0) = (Ok (Builtin 23), client_new [] 0 0)"
proof -
  have ok: "client_ok (client_new [] 0 0)" by (simp add: client_ok_def client_new_def pred_opt_def)
  have "type_from_oid 23 = Some (Builtin 23)" by (simp add: type_from_oid_def builtin_oids_def)
  then have "get_type 23 (client_new [] 0 0) = (Ok (Builtin 23), client_new [] 0 0)"
    by (simp add: get_type_unfold get_type_with_def cret_def)
  from get_type_sound [OF ok this] this show ?thesis by simp
qed

section \<open>What the operations leave alone\<close>

text \<open>
  A relation between the states before and after that every primitive operation keeps is kept by
  \<open>prepare\<close> and \<open>get_type\<close>. It is instantiated with the compatibility mode, which only
  \<open>set_kingbase_server_settings\<close> changes, and with the requests sent, which only grow.
\<close>

definition keepsR :: "(client \<Rightarrow> client \<Rightarrow> bool) \<Rightarrow> 'a client_op \<Rightarrow> bool" where
  "keepsR R m \<longleftrightarrow> (\<forall>cl. R cl (snd (m cl)))"

locale client_rel =
  fixes R :: "client \<Rightarrow> client \<Rightarrow> bool"
  assumes refl: "R cl cl" and trans: "R a b \<Longrightarrow> R b c \<Longrightarrow> R a c"
    and buffer: "R cl (cl\<lparr>cl_buffer := buf\<rparr>)" and sends: "R cl (snd (send r cl))"
    and names: "R cl (cl\<lparr>cl_next_statement := k\<rparr>)"
    and types: "R cl (cl\<lparr>cl_types := ts\<rparr>)" and typeinfo: "R cl (cl\<lparr>cl_typeinfo := s\<rparr>)"
    and typeinfo_enum: "R cl (cl\<lparr>cl_typeinfo_enum := s\<rparr>)"
    and typeinfo_composite: "R cl (cl\<lparr>cl_typeinfo_composite := s\<rparr>)"
begin

lemma k_cbind: "keepsR R m \<Longrightarrow> (\<And>x. keepsR R (f x)) \<Longrightarrow> keepsR R (cbind m f)"
  unfolding keepsR_def
proof
  fix cl assume m: "\<forall>cl. R cl (snd (m cl))" and f: "\<And>x. \<forall>cl. R cl (snd (f x cl))"
  obtain r cl1 where r: "m cl = (r, cl1)" by fastforce
  with m have c: "R cl cl1" by (metis snd_conv)
  show "R cl (snd (cbind m f cl))"
    using r c trans [OF c] f by (cases r) (simp_all add: cbind_def)
qed

lemma k_prims:
  "keepsR R (cret x)" "keepsR R (cres res)" "keepsR R (cget f)" "keepsR R (with_buf w)" "keepsR R (expect h rs)"
  "keepsR R (send_raw buf)" "keepsR R (set_type oid ty)" "keepsR R next_statement_name" "keepsR R (client_type oid)"
  "keepsR R (set_typeinfo s)" "keepsR R (set_typeinfo_enum s)" "keepsR R (set_typeinfo_composite s)"
  by (auto simp: keepsR_def cdefs with_buf_def expect_def set_type_def next_statement_name_def send_raw_def client_type_def
      set_typeinfo_def set_typeinfo_enum_def set_typeinfo_composite_def
      intro: refl buffer sends names types typeinfo typeinfo_enum typeinfo_composite
      split: prod.splits rresult.splits option.splits)

lemma k_prod: "(\<And>a b. keepsR R (f a b)) \<Longrightarrow> keepsR R (case p of (a, b) \<Rightarrow> f a b)"
  by (simp split: prod.split)

lemma k_option: "keepsR R f \<Longrightarrow> (\<And>x. keepsR R (g x)) \<Longrightarrow> keepsR R (case p of None \<Rightarrow> f | Some x \<Rightarrow> g x)"
  by (simp split: option.split)

lemma k_or_on_code: "keepsR R m \<Longrightarrow> keepsR R k \<Longrightarrow> keepsR R (or_on_code code m k)"
  unfolding keepsR_def
proof
  fix cl assume m: "\<forall>cl. R cl (snd (m cl))" and k: "\<forall>cl. R cl (snd (k cl))"
  obtain r cl1 where r: "m cl = (r, cl1)" by fastforce
  with m have c: "R cl cl1" by (metis snd_conv)
  show "R cl (snd (or_on_code code m k cl))"
    using r c k trans [OF c] by (cases r) (simp_all add: or_on_code_def)
qed

lemma k_iter_ops: "(\<And>x. keepsR R (f x)) \<Longrightarrow> keepsR R (iter_ops n nxt f s)"
proof (induction n arbitrary: s)
  case 0
  show ?case unfolding iter_ops.simps by (rule k_prims)
next
  case (Suc n)
  show ?case unfolding iter_ops.simps by (intro k_cbind k_prod k_option k_prims Suc)
qed

lemma k_lookup_columns: "(\<And>oid. keepsR R (gt oid)) \<Longrightarrow> keepsR R (lookup_columns gt body)"
  unfolding lookup_columns_def lookup_column_def by (intro k_iter_ops k_cbind k_prims)

lemma k_prepare_with:
  assumes gt: "\<And>oid. keepsR R (gt oid)"
  shows "keepsR R (prepare_with gt q types)"
  unfolding prepare_with_def prepare_encode_def lookup_parameter_def
  by (intro k_cbind k_prod k_option k_iter_ops k_lookup_columns k_prims gt)

lemma k_query: "keepsR R (query_query st params)"
  unfolding query_query_def query_encode_def start_def by (intro k_cbind k_prod k_prims)

lemma k_typeinfo:
  assumes gt: "\<And>oid. keepsR R (gt oid)"
  shows "keepsR R (typeinfo_statement gt)" "keepsR R (typeinfo_enum_statement gt)" "keepsR R (typeinfo_composite_statement gt)"
  unfolding typeinfo_statement_def typeinfo_enum_statement_def typeinfo_composite_statement_def
  by (intro k_cbind k_option k_or_on_code k_prepare_with k_prims gt)+

lemma k_composite_fields: "(\<And>oid. keepsR R (gt oid)) \<Longrightarrow> keepsR R (composite_fields gt rows)"
proof (induction rows)
  case Nil
  show ?case unfolding composite_fields.simps by (rule k_prims)
next
  case (Cons row rows)
  show ?case unfolding composite_fields.simps by (intro k_cbind k_prims Cons)
qed

lemma k_get_type_with:
  assumes gt: "\<And>oid. keepsR R (gt oid)"
  shows "keepsR R (get_type_with gt oid)"
  unfolding get_type_with_def lookup_type_def first_row_def get_kind_def get_enum_variants_def get_composite_fields_def
  by (auto intro!: k_cbind k_option k_typeinfo k_query k_composite_fields k_prims gt split: option.splits)

lemma k_fuel: "keepsR R (get_type_fuel n oid)"
proof (induction n arbitrary: oid)
  case 0
  show ?case by (simp add: k_prims)
qed (simp add: k_get_type_with)

lemma k_get_type: "keepsR R (get_type oid)"
  using k_fuel [of _ oid] by (simp add: keepsR_def get_type_def del: get_type_fuel.simps)

lemma k_prepare: "keepsR R (prepare q types)"
  unfolding prepare_def by (rule k_prepare_with) (rule k_get_type)

end

interpretation same_mode: client_rel "\<lambda>a b. cl_compatible_mode b = cl_compatible_mode a"
  by unfold_locales (auto simp: send_def split: list.splits option.splits)

interpretation sent_grows: client_rel "\<lambda>a b. \<exists>rs. cl_sent b = cl_sent a @ rs"
  by unfold_locales (auto simp: send_def split: list.splits option.splits)

text \<open>What \<open>expect\<close> took off the messages.\<close>

lemma expect_Ok:
  assumes "delivers r ms" and "expect f r cl = (Ok (x, r'), cl')"
  shows "\<exists>m ms'. ms = m # ms' \<and> f m = Some x \<and> delivers r' ms' \<and> cl' = cl"
proof (cases ms)
  case Nil
  with expect_list [OF assms(1), of f cl] assms(2) show ?thesis by simp
next
  case (Cons m ms')
  with expect_list [OF assms(1), of f cl] assms(2) show ?thesis
    by (auto simp: message_result_def split: message.splits option.splits)
qed

text \<open>A loop over an iterator: its items, and what each was turned into.\<close>

lemma iter_ops_items:
  assumes "fallible_iter sz nxt"
    and "\<And>x cl y cl'. P cl \<Longrightarrow> f x cl = (Ok y, cl') \<Longrightarrow> P cl' \<and> Q x y"
  shows "P cl \<Longrightarrow> iter_ops n nxt f s cl = (Ok ys, cl') \<Longrightarrow> P cl' \<and> (\<exists>xs. collect sz nxt s = Ok xs \<and> list_all2 Q xs ys)"
proof (induction n arbitrary: s ys cl)
  case 0
  then show ?case by (simp add: cres_def)
next
  case (Suc n)
  from Suc.prems(2) obtain x s' where n: "nxt s = Ok (x, s')"
    and k: "(case x of None \<Rightarrow> cret [] | Some v \<Rightarrow> cbind (f v) (\<lambda>y. cbind (iter_ops n nxt f s') (\<lambda>ys. cret (y # ys)))) cl = (Ok ys, cl')"
    by (auto simp: cbind_Ok cres_def)
  show ?case
  proof (cases x)
    case None
    with k n Suc.prems(1) show ?thesis by (auto simp: cret_def fallible_iter.collect_end [OF assms(1)])
  next
    case (Some v)
    with k obtain y c zs where y: "f v cl = (Ok y, c)" "iter_ops n nxt f s' c = (Ok zs, cl')" "ys = y # zs"
      by (auto simp: cbind_Ok cret_def)
    from assms(2) [OF Suc.prems(1) y(1)] have c: "P c" "Q v y" by simp_all
    from Suc.IH [OF c(1) y(2)] obtain xs where "P cl'" "collect sz nxt s' = Ok xs" "list_all2 Q xs zs" by blast
    then show ?thesis
      using y(3) n Some c(2) by (auto simp: fallible_iter.collect_item [OF assms(1)])
  qed
qed

text \<open>A well-formed client in a given mode.\<close>

definition ok_in :: "compatible_mode \<Rightarrow> client \<Rightarrow> bool" where
  "ok_in mode cl \<longleftrightarrow> client_ok cl \<and> cl_compatible_mode cl = mode"

lemma get_type_ok_in:
  assumes "ok_in mode c" and "get_type oid c = (Ok ty, c')"
  shows "ok_in mode c' \<and> type_oid ty = oid"
proof -
  have "cl_compatible_mode (snd (get_type oid c)) = cl_compatible_mode c"
    using same_mode.k_get_type unfolding keepsR_def by blast
  with assms get_type_oid [of c oid] show ?thesis by (simp add: ok_in_def)
qed

definition parameter_for :: "compatible_mode \<Rightarrow> u32 \<Rightarrow> pg_type \<times> pg_type option \<Rightarrow> bool" where
  "parameter_for mode oid p \<longleftrightarrow> type_oid (fst p) = oid \<and> snd p = param_codec_alias_for_mode mode (fst p)"

definition column_for :: "compatible_mode \<Rightarrow> field \<Rightarrow> column \<Rightarrow> bool" where
  "column_for mode f c \<longleftrightarrow> (\<exists>ty. type_oid ty = f_type_oid f \<and> c = column_of mode f ty)"

lemma lookup_parameter_Ok:
  assumes "ok_in mode c" and "lookup_parameter get_type oid c = (Ok p, c')"
  shows "ok_in mode c' \<and> parameter_for mode oid p"
  using assms get_type_ok_in [OF assms(1)]
  by (auto simp: lookup_parameter_def cbind_Ok cdefs parameter_for_def ok_in_def)

lemma lookup_column_Ok:
  assumes "ok_in mode c" and "lookup_column get_type f c = (Ok col, c')"
  shows "ok_in mode c' \<and> column_for mode f col"
proof -
  from assms(2) obtain ty where "get_type (f_type_oid f) c = (Ok ty, c')" "col = column_of (cl_compatible_mode c') f ty"
    by (auto simp: lookup_column_def cbind_Ok cdefs)
  with get_type_ok_in [OF assms(1)] show ?thesis by (auto simp: column_for_def ok_in_def)
qed

lemma parameters_items:
  assumes "ok_in mode c" and "iter_ops n parameters_next (lookup_parameter get_type) s c = (Ok ps, c')"
  shows "ok_in mode c' \<and> (\<exists>oids. collect (\<lambda>s. unat (ci_remaining s)) parameters_next s = Ok oids \<and>
    list_all2 (parameter_for mode) oids ps)"
  by (rule iter_ops_items [where P = "ok_in mode", OF params_it.fallible_iter_axioms _ assms]) (rule lookup_parameter_Ok)

lemma columns_items:
  assumes "ok_in mode c" and "iter_ops n fields_next (lookup_column get_type) s c = (Ok cs, c')"
  shows "ok_in mode c' \<and> (\<exists>fs. collect (\<lambda>s. unat (ci_remaining s)) fields_next s = Ok fs \<and>
    list_all2 (column_for mode) fs cs)"
  by (rule iter_ops_items [where P = "ok_in mode", OF fields_it.fallible_iter_axioms _ assms]) (rule lookup_column_Ok)

text \<open>The fields a row description or \<open>NoData\<close> announces.\<close>

definition announces :: "message \<Rightarrow> field list \<Rightarrow> bool" where
  "announces m fs \<longleftrightarrow>
     m = NoData \<and> fs = [] \<or>
     (\<exists>body. m = RowDescription body \<and>
        collect (\<lambda>s. unat (ci_remaining s)) fields_next (BackendIters.fields body) = Ok fs)"


lemma parse_run:
  assumes "0 \<notin> set (as_bytes nm)" and "0 \<notin> set (as_bytes q)" and "length ts \<le> 65535"
    and "length (parse_payload nm q ts) + 4 \<le> 2147483647"
  shows "parse nm q ts buf = (Ok (), buf @ frame_bytes CHR ''P'' (parse_payload nm q ts))"
proof -
  have "parse_image nm q ts = Ok (frame_bytes CHR ''P'' (parse_payload nm q ts))"
    using assms by (simp add: parse_image_closed)
  with parse_denotes [of nm q ts] show ?thesis by (simp add: denotes_run)
qed

lemma describe_run:
  assumes "0 \<notin> set (as_bytes nm)" and "length nm + 6 \<le> 2147483647"
  shows "describe v nm buf = (Ok (), buf @ frame_bytes CHR ''D'' (v # as_bytes nm @ [0]))"
proof -
  have "frame CHR ''D'' (icat (Ok [v]) (cstr_image (as_bytes nm))) = Ok (frame_bytes CHR ''D'' (v # as_bytes nm @ [0]))"
    using assms by (simp add: frame_bytes_Ok cstr_image_def)
  with describe_denotes [of v nm] show ?thesis by (simp add: denotes_run)
qed

lemma prepare_encode_run:
  assumes "0 \<notin> set (as_bytes nm)" and "0 \<notin> set (as_bytes q)" and "length types \<le> 65535"
    and "length (parse_payload nm q (map type_oid types)) + 4 \<le> 2147483647" and "length nm + 6 \<le> 2147483647"
    and "cl_buffer cl = []"
  shows "\<exists>buf. prepare_encode nm q types cl = (Ok buf, cl)"
  using assms
  by (simp add: prepare_encode_def with_buf_def wseq_def wbind_def map_werr_def parse_run describe_run sync_run split_buf_def)

lemma expect_run:
  assumes "delivers r (m # ms)" and "f m = Some x" and "message_result m = Ok m"
  shows "\<exists>r'. expect f r cl = (Ok (x, r'), cl) \<and> delivers r' ms"
  using expect_list [OF assms(1), of f cl] assms(2,3) by auto

lemma iter_ops_one:
  assumes "nxt s = Ok (Some v, s')" and "nxt s' = Ok (None, s'')" and "f v c = (Ok y, c)"
  shows "iter_ops (Suc (Suc n)) nxt f s c = (Ok [y], c)"
  by (simp add: assms cbind_def cres_def cret_def)


end
