(* ===== verification/SimpleQuery.thy ===== *)
theory SimpleQuery
  imports PrepareSpec
begin

text \<open>
  \<open>tokio-postgres/src/simple_query.rs\<close>: the simple protocol; \<open>copy_out.rs\<close>; \<open>to_statement.rs\<close> and
  the query methods of \<open>client.rs\<close>, which prepare a statement on the way when they are given text
  and close it when its last reference goes.
\<close>

section \<open>Simple queries\<close>

definition simple_encode :: "str \<Rightarrow> bytes client_op" where
  "simple_encode q = with_buf (wseq (map_werr err_encode (query q)) split_buf)"

datatype simple_query_message =
    SimpleRow simple_query_row
  | SimpleCommandComplete u64
  | SimpleRowDescription "str list"

record simple_stream =
  ss_responses :: responses
  ss_columns :: "str list option"

definition simple_query :: "str \<Rightarrow> simple_stream client_op" where
  "simple_query q =
     cbind (simple_encode q) (\<lambda>buf.
     cbind (send_raw buf) (\<lambda>responses.
       cret \<lparr>ss_responses = responses, ss_columns = None\<rparr>))"

text \<open>One message: the item it gives, and the columns to remember.\<close>

definition simple_item ::
  "str list option \<Rightarrow> message \<Rightarrow> (simple_query_message option, error) rresult \<times> str list option" where
  "simple_item columns m =
     (case m of
        CommandComplete body \<Rightarrow>
          (map_ok (\<lambda>n. Some (SimpleCommandComplete n)) (extract_row_affected body), columns)
      | EmptyQueryResponse \<Rightarrow> (Ok (Some (SimpleCommandComplete 0)), columns)
      | RowDescription body \<Rightarrow>
          (case map_err err_parse (collect (\<lambda>s. unat (ci_remaining s)) fields_next (BackendIters.fields body)) of
             Ok fs \<Rightarrow> (Ok (Some (SimpleRowDescription (map f_name fs))), Some (map f_name fs))
           | Err e \<Rightarrow> (Err e, columns)
           | Panic \<Rightarrow> (Panic, columns))
      | DataRow body \<Rightarrow>
          (case columns of
             Some cs \<Rightarrow> (map_ok (\<lambda>r. Some (SimpleRow r)) (simple_row_new cs body), columns)
           | None \<Rightarrow> (Err err_unexpected_message, columns))
      | ReadyForQuery _ \<Rightarrow> (Ok None, columns)
      | _ \<Rightarrow> (Err err_unexpected_message, columns))"

definition simple_stream_next :: "simple_stream \<Rightarrow> (simple_query_message option, error) rresult \<times> simple_stream" where
  "simple_stream_next s =
     (case responses_next (ss_responses s) of
        (Ok m, r) \<Rightarrow> (fst (simple_item (ss_columns s) m), \<lparr>ss_responses = r, ss_columns = snd (simple_item (ss_columns s) m)\<rparr>)
      | (Err e, r) \<Rightarrow> (Err e, s\<lparr>ss_responses := r\<rparr>)
      | (Panic, r) \<Rightarrow> (Panic, s\<lparr>ss_responses := r\<rparr>))"

lemma simple_stream_size:
  "simple_stream_next s = (Ok x, s') \<Longrightarrow> responses_size (ss_responses s') < responses_size (ss_responses s)"
  by (auto simp: simple_stream_next_def dest: responses_next_size split: prod.splits rresult.splits)

function simple_collect :: "simple_stream \<Rightarrow> (simple_query_message list, error) rresult" where
  "simple_collect s =
     (case simple_stream_next s of
        (Ok None, s') \<Rightarrow> Ok []
      | (Ok (Some x), s') \<Rightarrow> map_ok (Cons x) (simple_collect s')
      | (Err e, s') \<Rightarrow> Err e
      | (Panic, s') \<Rightarrow> Panic)"
  by pat_completeness auto
termination
  by (relation "measure (\<lambda>s. responses_size (ss_responses s))") (auto dest: sym [THEN simple_stream_size])

declare simple_collect.simps [simp del]

definition batch_body :: "unit \<Rightarrow> message \<Rightarrow> (unit, unit) loop_step" where
  "batch_body s m =
     (case m of
        ReadyForQuery _ \<Rightarrow> Stop () (Ok ())
      | CommandComplete _ \<Rightarrow> Go ()
      | EmptyQueryResponse \<Rightarrow> Go ()
      | RowDescription _ \<Rightarrow> Go ()
      | DataRow _ \<Rightarrow> Go ()
      | _ \<Rightarrow> Stop () (Err err_unexpected_message))"

definition batch_execute :: "str \<Rightarrow> unit client_op" where
  "batch_execute q =
     cbind (simple_encode q) (\<lambda>buf.
     cbind (send_raw buf) (\<lambda>responses.
       cres (fst (message_loop batch_body () responses))))"

section \<open>Copying out\<close>

definition is_copy_out :: "message \<Rightarrow> unit option" where
  "is_copy_out m = (case m of CopyOutResponse _ \<Rightarrow> Some () | _ \<Rightarrow> None)"

definition copy_out :: "statement \<Rightarrow> responses client_op" where
  "copy_out st =
     cbind (query_encode st []) (\<lambda>buf.
     cbind (send_raw buf) (\<lambda>responses.
     cbind (expect is_bind_complete responses) (\<lambda>(_, responses).
     cbind (expect is_copy_out responses) (\<lambda>(_, responses).
       cret responses))))"

definition copy_out_next :: "responses \<Rightarrow> (bytes option, error) rresult \<times> responses" where
  "copy_out_next r =
     (case responses_next r of
        (Ok (CopyData body), r) \<Rightarrow> (Ok (Some body), r)
      | (Ok CopyDone, r) \<Rightarrow> (Ok None, r)
      | (Ok _, r) \<Rightarrow> (Err err_unexpected_message, r)
      | (Err e, r) \<Rightarrow> (Err e, r)
      | (Panic, r) \<Rightarrow> (Panic, r))"

section \<open>Statements and texts\<close>

datatype to_statement = ToStatement statement | ToQuery str

definition into_statement :: "to_statement \<Rightarrow> statement client_op" where
  "into_statement ts = (case ts of ToStatement s \<Rightarrow> cret s | ToQuery q \<Rightarrow> prepare q [])"

text \<open>
  A statement prepared on the way is closed when its last reference goes: at once, unless the
  result holds rows, which hold the statement.
\<close>

definition finishing :: "to_statement \<Rightarrow> ('a \<Rightarrow> bool) \<Rightarrow> (statement \<Rightarrow> 'a client_op) \<Rightarrow> 'a client_op" where
  "finishing ts held f =
     cbind (into_statement ts) (\<lambda>st cl.
       case (f st cl, ts) of
         ((Ok x, cl'), ToQuery _) \<Rightarrow> if held x then (Ok x, cl') else cbind (statement_drop st) (\<lambda>_. cret x) cl'
       | ((Err e, cl'), ToQuery _) \<Rightarrow> cbind (statement_drop st) (\<lambda>_. cres (Err e)) cl'
       | (r, _) \<Rightarrow> r)"

section \<open>The query methods\<close>

definition client_query :: "to_statement \<Rightarrow> dyn_to_sql list \<Rightarrow> row list client_op" where
  "client_query ts params =
     finishing ts (\<lambda>rows. rows \<noteq> []) (\<lambda>st.
       cbind (query_query st params) (\<lambda>s. cres (fst (stream_collect s))))"

text \<open>The statement lives as long as the stream.\<close>

definition client_query_raw :: "to_statement \<Rightarrow> dyn_to_sql list \<Rightarrow> row_stream client_op" where
  "client_query_raw ts params = finishing ts (\<lambda>_. True) (\<lambda>st. query_query st params)"

text \<open>The loop of \<open>query_opt\<close>: a second row is an error.\<close>

function stream_opt :: "row option \<Rightarrow> row_stream \<Rightarrow> (row option, error) rresult" where
  "stream_opt first s =
     (case row_stream_next s of
        (Ok None, s') \<Rightarrow> Ok first
      | (Ok (Some r), s') \<Rightarrow> if first \<noteq> None then Err err_row_count else stream_opt (Some r) s'
      | (Err e, s') \<Rightarrow> Err e
      | (Panic, s') \<Rightarrow> Panic)"
  by pat_completeness auto
termination
  by (relation "measure (\<lambda>(first, s). responses_size (rw_responses s))") (auto dest: sym [THEN row_stream_size])

declare stream_opt.simps [simp del]

definition client_query_opt :: "to_statement \<Rightarrow> dyn_to_sql list \<Rightarrow> row option client_op" where
  "client_query_opt ts params =
     finishing ts (\<lambda>row. row \<noteq> None) (\<lambda>st.
       cbind (query_query st params) (\<lambda>s. cres (stream_opt None s)))"

definition client_query_one :: "to_statement \<Rightarrow> dyn_to_sql list \<Rightarrow> row client_op" where
  "client_query_one ts params = cbind (client_query_opt ts params) (\<lambda>r. cres (ok_or r err_row_count))"

text \<open>The scalar methods look at the number of columns of the first row and take the first column.\<close>

definition scalar :: "string \<Rightarrow> 'a from_sql \<Rightarrow> row \<Rightarrow> ('a, error) rresult" where
  "scalar rust F r = (if row_len r \<noteq> 1 then Err err_column_count else row_try_get rust F r (IdxUsize 0))"

definition client_query_scalar :: "string \<Rightarrow> 'a from_sql \<Rightarrow> to_statement \<Rightarrow> dyn_to_sql list \<Rightarrow> 'a list client_op" where
  "client_query_scalar rust F ts params =
     finishing ts (\<lambda>_. False) (\<lambda>st.
       cbind (query_query st params) (\<lambda>s.
       cbind (cres (fst (stream_collect s))) (\<lambda>rows.
         if rows \<noteq> [] \<and> row_len (hd rows) \<noteq> 1 then cres (Err err_column_count)
         else cres (try_foldl (\<lambda>xs r. map_ok (\<lambda>x. xs @ [x]) (row_try_get rust F r (IdxUsize 0))) [] rows))))"

definition client_query_opt_scalar :: "string \<Rightarrow> 'a from_sql \<Rightarrow> to_statement \<Rightarrow> dyn_to_sql list \<Rightarrow> 'a option client_op" where
  "client_query_opt_scalar rust F ts params =
     finishing ts (\<lambda>_. False) (\<lambda>st.
       cbind (query_query st params) (\<lambda>s.
       cbind (cres (stream_opt None s)) (\<lambda>row.
         case row of None \<Rightarrow> cret None | Some r \<Rightarrow> cres (map_ok Some (scalar rust F r)))))"

definition client_query_one_scalar :: "string \<Rightarrow> 'a from_sql \<Rightarrow> to_statement \<Rightarrow> dyn_to_sql list \<Rightarrow> 'a client_op" where
  "client_query_one_scalar rust F ts params =
     finishing ts (\<lambda>_. False) (\<lambda>st.
       cbind (query_query st params) (\<lambda>s.
       cbind (cres (stream_opt None s)) (\<lambda>row.
       cbind (cres (ok_or row err_row_count)) (\<lambda>r.
         cres (scalar rust F r)))))"

definition client_execute :: "to_statement \<Rightarrow> dyn_to_sql list \<Rightarrow> u64 client_op" where
  "client_execute ts params = finishing ts (\<lambda>_. False) (\<lambda>st. query_execute st params)"

definition client_query_typed :: "str \<Rightarrow> (dyn_to_sql \<times> pg_type) list \<Rightarrow> row list client_op" where
  "client_query_typed q params = cbind (query_typed q params) (\<lambda>s. cres (fst (stream_collect s)))"

definition client_query_typed_opt :: "str \<Rightarrow> (dyn_to_sql \<times> pg_type) list \<Rightarrow> row option client_op" where
  "client_query_typed_opt q params = cbind (query_typed q params) (\<lambda>s. cres (stream_opt None s))"

definition client_query_typed_one :: "str \<Rightarrow> (dyn_to_sql \<times> pg_type) list \<Rightarrow> row client_op" where
  "client_query_typed_one q params = cbind (client_query_typed_opt q params) (\<lambda>r. cres (ok_or r err_row_count))"

definition client_simple_query :: "str \<Rightarrow> simple_query_message list client_op" where
  "client_simple_query q = cbind (simple_query q) (\<lambda>s. cres (simple_collect s))"

definition check_connection :: "unit client_op" where
  "check_connection = query_sync"

definition client_copy_out :: "to_statement \<Rightarrow> responses client_op" where
  "client_copy_out ts = finishing ts (\<lambda>_. False) copy_out"

text \<open>\<open>__private_api_rollback\<close>\<close>

definition private_rollback :: "str option \<Rightarrow> unit client_op" where
  "private_rollback nm =
     cbind (with_buf (wseq (wunwrap (query (case nm of Some n \<Rightarrow> ''ROLLBACK TO '' @ n | None \<Rightarrow> ''ROLLBACK''))) split_buf))
       send_ignored"

section \<open>They keep the invariant\<close>

lemma triple_simple_encode: "triple whole_frames (simple_encode q)"
  unfolding simple_encode_def by (intro triple_request emits_intros)

lemma triple_send_simple: "(\<And>r. triple (\<lambda>_. True) (f r)) \<Longrightarrow> triple (\<lambda>_. True) (cbind (simple_encode q) (\<lambda>b. cbind (send_raw b) f))"
  by (rule triple_cbind [OF triple_simple_encode], rule triple_cbind [OF triple_send_raw]) assumption+

lemma triple_simple_query: "triple (\<lambda>_. True) (simple_query q)"
  unfolding simple_query_def by (intro triple_send_simple triple_cret TrueI)

lemma triple_batch_execute: "triple (\<lambda>_. True) (batch_execute q)"
  unfolding batch_execute_def by (intro triple_send_simple triple_cres_any)

lemma triple_into: "(\<And>s. ts = ToStatement s \<Longrightarrow> statement_ok s) \<Longrightarrow> triple statement_ok (into_statement ts)"
  by (cases ts) (simp_all add: into_statement_def triple_cret triple_prepare)

lemma triple_into_any: "triple (\<lambda>_. True) (into_statement ts)"
  by (cases ts) (auto simp: into_statement_def intro: triple_cret triple_weaken [OF triple_prepare])

lemma triple_finishing:
  assumes "\<And>st. triple (\<lambda>_. True) (f st)"
  shows "triple (\<lambda>_. True) (finishing ts held f)"
  unfolding finishing_def
proof (rule triple_cbind [OF triple_into_any], rule tripleI)
  fix st cl assume cl: "client_ok cl"
  obtain r cl1 where r: "f st cl = (r, cl1)" by fastforce
  have ok: "r \<noteq> Panic \<Longrightarrow> client_ok cl1"
    using assms [of st] cl r by (cases r) (force simp: triple_def)+
  have d: "triple (\<lambda>_. True) (cbind (statement_drop st) (\<lambda>_. m))" if "triple (\<lambda>_. True) m" for m :: "'a client_op"
    by (intro triple_cbind [OF triple_drop(1)] that)
  have d1: "triple (\<lambda>_. True) (cbind (statement_drop st) (\<lambda>_. cret x))" for x :: 'a
    by (intro d triple_cret TrueI)
  have d2: "triple (\<lambda>_. True) (cbind (statement_drop st) (\<lambda>_. cres (Err e) :: 'a client_op))" for e
    by (intro d triple_cres_any)
  show "case (case (f st cl, ts) of
         ((Ok x, cl'), ToQuery _) \<Rightarrow> if held x then (Ok x, cl') else cbind (statement_drop st) (\<lambda>_. cret x) cl'
       | ((Err e, cl'), ToQuery _) \<Rightarrow> cbind (statement_drop st) (\<lambda>_. cres (Err e)) cl'
       | (r, _) \<Rightarrow> r) of (Ok x, cl') \<Rightarrow> True \<and> client_ok cl' | (Err _, cl') \<Rightarrow> client_ok cl' | (Panic, _) \<Rightarrow> True"
  proof (cases r)
    case (Ok x)
    with ok d1 [of x] r show ?thesis by (cases ts) (simp_all add: triple_def)
  next
    case (Err e)
    with ok d2 [of e] r show ?thesis by (cases ts) (simp_all add: triple_def)
  qed (use r in \<open>cases ts; simp\<close>)
qed

lemma triple_rollback: "triple (\<lambda>_. True) (private_rollback nm)"
  unfolding private_rollback_def by (intro triple_cbind [OF triple_request] emits_intros triple_send_ignored)

lemma triple_queries:
  "triple (\<lambda>_. True) (client_query ts params)" "triple (\<lambda>_. True) (client_query_opt ts params)"
  "triple (\<lambda>_. True) (client_execute ts params)" "triple (\<lambda>_. True) (client_copy_out ts)"
  unfolding client_query_def client_query_opt_def client_execute_def client_copy_out_def copy_out_def
  by (intro triple_finishing triple_cbind [OF triple_query] triple_execute triple_cres_any
      triple_cbind [OF triple_query_encode] triple_cbind [OF triple_send_raw] triple_cbind [OF triple_expect]
      triple_case_prod triple_cret TrueI)+

end
