(* ===== verification/Transactions.thy ===== *)
theory Transactions
  imports SimpleQuery
begin

text \<open>
  \<open>tokio-postgres/src/transaction.rs\<close> and \<open>transaction_builder.rs\<close>. A transaction borrows the
  client; it is ended by \<open>commit\<close> or \<open>rollback\<close>, or else by its \<open>Drop\<close>, which sends the rollback
  and does not wait. Nested transactions are savepoints, whose default names number the depth.
  The methods that only pass a query on to the client are the client's.
\<close>

section \<open>Transactions\<close>

record savepoint_data =
  sp_name :: str
  sp_depth :: u32

record transaction =
  tx_savepoint :: "savepoint_data option"
  tx_done :: bool

definition transaction_new :: transaction where
  "transaction_new = \<lparr>tx_savepoint = None, tx_done = False\<rparr>"

definition transaction_drop :: "transaction \<Rightarrow> unit client_op" where
  "transaction_drop t = (if tx_done t then cret () else private_rollback (map_option sp_name (tx_savepoint t)))"

text \<open>A value is dropped at the end of a function on every path, also when a \<open>?\<close> leaves it.\<close>

definition then_drop :: "'a client_op \<Rightarrow> unit client_op \<Rightarrow> 'a client_op" where
  "then_drop m d cl =
     (case m cl of (r, cl') \<Rightarrow>
        (case d cl' of
           (Panic, cl'') \<Rightarrow> (Panic, cl'')
         | (_, cl'') \<Rightarrow> (r, cl'')))"

definition commit_sql :: "transaction \<Rightarrow> str" where
  "commit_sql t = (case tx_savepoint t of Some sp \<Rightarrow> ''RELEASE '' @ sp_name sp | None \<Rightarrow> ''COMMIT'')"

definition rollback_sql :: "transaction \<Rightarrow> str" where
  "rollback_sql t = (case tx_savepoint t of Some sp \<Rightarrow> ''ROLLBACK TO '' @ sp_name sp | None \<Rightarrow> ''ROLLBACK'')"

definition commit :: "transaction \<Rightarrow> unit client_op" where
  "commit t = then_drop (batch_execute (commit_sql t)) (transaction_drop (t\<lparr>tx_done := True\<rparr>))"

definition rollback :: "transaction \<Rightarrow> unit client_op" where
  "rollback t = then_drop (batch_execute (rollback_sql t)) (transaction_drop (t\<lparr>tx_done := True\<rparr>))"

text \<open>\<open>depth + 1\<close> on a \<open>u32\<close> panics when it overflows.\<close>

definition next_depth :: "transaction \<Rightarrow> (u32, error) rresult" where
  "next_depth t =
     (let depth = (case tx_savepoint t of Some sp \<Rightarrow> sp_depth sp | None \<Rightarrow> 0)
      in if depth = 0xFFFFFFFF then Panic else Ok (depth + 1))"

definition savepoint :: "str option \<Rightarrow> transaction \<Rightarrow> transaction client_op" where
  "savepoint name_opt t =
     cbind (cres (next_depth t)) (\<lambda>depth.
       (let nm = (case name_opt of Some n \<Rightarrow> n | None \<Rightarrow> ''sp_'' @ show_nat (unat depth))
        in cbind (batch_execute (''SAVEPOINT '' @ nm)) (\<lambda>_.
             cret \<lparr>tx_savepoint = Some \<lparr>sp_name = nm, sp_depth = depth\<rparr>, tx_done = False\<rparr>)))"

section \<open>The builder\<close>

datatype level = ReadUncommitted | ReadCommitted | RepeatableRead | Serializable

record transaction_builder =
  tb_isolation_level :: "level option"
  tb_read_only :: "bool option"
  tb_deferrable :: "bool option"

definition builder_new :: transaction_builder where
  "builder_new = \<lparr>tb_isolation_level = None, tb_read_only = None, tb_deferrable = None\<rparr>"

definition isolation_level :: "level \<Rightarrow> transaction_builder \<Rightarrow> transaction_builder" where
  "isolation_level l b = b\<lparr>tb_isolation_level := Some l\<rparr>"

definition read_only :: "bool \<Rightarrow> transaction_builder \<Rightarrow> transaction_builder" where
  "read_only v b = b\<lparr>tb_read_only := Some v\<rparr>"

definition deferrable :: "bool \<Rightarrow> transaction_builder \<Rightarrow> transaction_builder" where
  "deferrable v b = b\<lparr>tb_deferrable := Some v\<rparr>"

definition level_sql :: "level \<Rightarrow> str" where
  "level_sql l =
     (case l of
        ReadUncommitted \<Rightarrow> ''READ UNCOMMITTED''
      | ReadCommitted \<Rightarrow> ''READ COMMITTED''
      | RepeatableRead \<Rightarrow> ''REPEATABLE READ''
      | Serializable \<Rightarrow> ''SERIALIZABLE'')"

definition start_sql :: "transaction_builder \<Rightarrow> str" where
  "start_sql b =
     (let q = ''START TRANSACTION''; first = True;
          (q, first) = (case tb_isolation_level b of
              Some l \<Rightarrow> (q @ '' ISOLATION LEVEL '' @ level_sql l, False)
            | None \<Rightarrow> (q, first));
          (q, first) = (case tb_read_only b of
              Some ro \<Rightarrow> (q @ (if first then [] else '','') @ (if ro then '' READ ONLY'' else '' READ WRITE''), False)
            | None \<Rightarrow> (q, first))
      in (case tb_deferrable b of
            Some d \<Rightarrow> q @ (if first then [] else '','') @ (if d then '' DEFERRABLE'' else '' NOT DEFERRABLE'')
          | None \<Rightarrow> q))"

text \<open>The guard \<open>RollbackIfNotDone\<close> is disarmed when the server has confirmed the start.\<close>

definition builder_start :: "transaction_builder \<Rightarrow> transaction client_op" where
  "builder_start b cl =
     (case batch_execute (start_sql b) cl of
        (Ok _, cl') \<Rightarrow> (Ok transaction_new, cl')
      | (r, cl') \<Rightarrow> then_drop (cres (map_ok (\<lambda>_. transaction_new) r)) (private_rollback None) cl')"

text \<open>The future of \<open>start\<close> dropped while it waits: the request is out, the guard rolls it back.\<close>

definition builder_start_cancelled :: "transaction_builder \<Rightarrow> unit client_op" where
  "builder_start_cancelled b =
     then_drop (cbind (simple_encode (start_sql b)) (\<lambda>buf. cbind (send_raw buf) (\<lambda>_. cret ()))) (private_rollback None)"

definition client_transaction :: "transaction client_op" where
  "client_transaction = builder_start builder_new"

text \<open>\<open>bind\<close> of a transaction, with the statement prepared on the way held by the portal.\<close>

definition transaction_bind :: "to_statement \<Rightarrow> dyn_to_sql list \<Rightarrow> portal client_op" where
  "transaction_bind ts params = finishing ts (\<lambda>_. True) (\<lambda>st. bind_bind st params)"

definition transaction_query_portal :: "portal \<Rightarrow> i32 \<Rightarrow> row list client_op" where
  "transaction_query_portal p max_rows =
     cbind (query_portal p max_rows) (\<lambda>s. cres (fst (stream_collect s)))"

section \<open>What the six options start with\<close>

text \<open>The modes of a \<open>START TRANSACTION\<close>, which the text lists separated by commas.\<close>

definition start_modes :: "transaction_builder \<Rightarrow> str list" where
  "start_modes b =
     (case tb_isolation_level b of Some l \<Rightarrow> [''ISOLATION LEVEL '' @ level_sql l] | None \<Rightarrow> []) @
     (case tb_read_only b of Some ro \<Rightarrow> [if ro then ''READ ONLY'' else ''READ WRITE''] | None \<Rightarrow> []) @
     (case tb_deferrable b of Some d \<Rightarrow> [if d then ''DEFERRABLE'' else ''NOT DEFERRABLE''] | None \<Rightarrow> [])"

fun comma_separated :: "str list \<Rightarrow> str" where
  "comma_separated [] = []"
| "comma_separated [m] = '' '' @ m"
| "comma_separated (m # ms) = '' '' @ m @ '','' @ comma_separated ms"

lemma start_sql_modes: "start_sql b = ''START TRANSACTION'' @ comma_separated (start_modes b)"
  by (auto simp: start_sql_def start_modes_def Let_def split: option.split)

section \<open>They keep the client's invariant\<close>

lemma triple_then_drop:
  assumes m: "triple Q m" and d: "triple (\<lambda>_. True) d"
  shows "triple Q (then_drop m d)"
proof (rule tripleI)
  fix cl assume cl: "client_ok cl"
  obtain r cl1 where r: "m cl = (r, cl1)" by fastforce
  obtain s cl2 where s: "d cl1 = (s, cl2)" by fastforce
  have m': "case m cl of (Ok x, cl') \<Rightarrow> Q x \<and> client_ok cl' | (Err _, cl') \<Rightarrow> client_ok cl' | (Panic, _) \<Rightarrow> True"
    using m cl by (simp add: triple_def)
  have d': "client_ok cl1 \<Longrightarrow> s \<noteq> Panic \<Longrightarrow> client_ok cl2"
    using d s by (cases s) (force simp: triple_def)+
  show "case then_drop m d cl of (Ok x, cl') \<Rightarrow> Q x \<and> client_ok cl' | (Err _, cl') \<Rightarrow> client_ok cl' | (Panic, _) \<Rightarrow> True"
    using m' d' r s by (cases r; cases s) (simp_all add: then_drop_def)
qed

lemma triple_transaction_drop: "triple (\<lambda>_. True) (transaction_drop t)"
  by (simp add: transaction_drop_def triple_cret triple_rollback)

lemma triple_transactions:
  "triple (\<lambda>_. True) (commit t)" "triple (\<lambda>_. True) (rollback t)" "triple (\<lambda>_. True) (savepoint nm t)"
  unfolding commit_def rollback_def savepoint_def Let_def
  by (intro triple_then_drop triple_batch_execute triple_transaction_drop)+
    (intro triple_cbind [OF triple_cres_any] triple_cbind [OF triple_batch_execute] triple_cret TrueI)

lemma triple_builder_start: "triple (\<lambda>_. True) (builder_start b)"
proof (rule tripleI)
  fix cl assume cl: "client_ok cl"
  obtain r cl1 where r: "batch_execute (start_sql b) cl = (r, cl1)" by fastforce
  have ok: "r \<noteq> Panic \<Longrightarrow> client_ok cl1"
    using triple_batch_execute [of "start_sql b"] cl r by (cases r) (force simp: triple_def)+
  have "triple (\<lambda>_. True) (then_drop (cres (Err e) :: transaction client_op) (private_rollback None))" for e
    by (intro triple_then_drop triple_cres_any triple_rollback)
  then show "case builder_start b cl of (Ok x, cl') \<Rightarrow> True \<and> client_ok cl' | (Err _, cl') \<Rightarrow> client_ok cl' | (Panic, _) \<Rightarrow> True"
    using r ok by (cases r) (auto simp: builder_start_def triple_def then_drop_def cres_def split: prod.split rresult.split)
qed

end
