(* ===== verification/TransactionSpec.thy ===== *)
theory TransactionSpec
  imports Transactions
begin

text \<open>
  Transactions against the documented behaviour of a session: which effects are durable after a
  program of nested transactions. The session is a stack of savepoints, each with the work done
  since; the client's texts are read by a reader \<open>rd\<close>, of which only the readings of the texts
  that are sent are assumed.
\<close>

section \<open>A session\<close>

datatype command =
    CBegin | CCommit | CRollback | CSavepoint str | CRelease str | CRollbackTo str | CWork str

text \<open>The frames of an open transaction, the innermost savepoint first; the last is the transaction's own.\<close>

type_synonym frame = "str option \<times> str list"

record session =
  se_durable :: "str list"
  se_open :: "frame list option"
  se_failed :: bool

definition frames_work :: "frame list \<Rightarrow> str list" where
  "frames_work fs = concat (rev (map snd fs))"

definition add_work :: "str list \<Rightarrow> frame list \<Rightarrow> frame list" where
  "add_work w fs = (case fs of [] \<Rightarrow> [] | (n, es) # fs \<Rightarrow> (n, es @ w) # fs)"

definition above :: "str \<Rightarrow> frame list \<Rightarrow> frame list" where
  "above n fs = takeWhile (\<lambda>f. fst f \<noteq> Some n) fs"

definition from_savepoint :: "str \<Rightarrow> frame list \<Rightarrow> frame list" where
  "from_savepoint n fs = dropWhile (\<lambda>f. fst f \<noteq> Some n) fs"

text \<open>
  How a session answers a command: the new session when the answer (\<open>True\<close> for success) is
  possible, \<open>None\<close> when it is not. A failed transaction answers errors until it is rolled back,
  and ends without effect when it is committed; the answer to that commit is a success.
\<close>

definition serve_idle :: "command \<Rightarrow> bool \<Rightarrow> session \<Rightarrow> session option" where
  "serve_idle c ok s =
     (case c of
        CBegin \<Rightarrow> Some (if ok then s\<lparr>se_open := Some [(None, [])], se_failed := False\<rparr> else s)
      | CCommit \<Rightarrow> if ok then Some s else None
      | CRollback \<Rightarrow> if ok then Some s else None
      | CWork e \<Rightarrow> Some (if ok then s\<lparr>se_durable := se_durable s @ [e]\<rparr> else s)
      | _ \<Rightarrow> if ok then None else Some s)"

definition serve_open :: "command \<Rightarrow> bool \<Rightarrow> frame list \<Rightarrow> session \<Rightarrow> session option" where
  "serve_open c ok fs s =
     (case c of
        CBegin \<Rightarrow> if ok \<and> \<not> se_failed s then Some s else None
      | CCommit \<Rightarrow>
          (if se_failed s then (if ok then Some (s\<lparr>se_open := None, se_failed := False\<rparr>) else None)
           else if ok then Some (s\<lparr>se_durable := se_durable s @ frames_work fs, se_open := None\<rparr>)
           else Some (s\<lparr>se_open := None\<rparr>))
      | CRollback \<Rightarrow> if ok then Some (s\<lparr>se_open := None, se_failed := False\<rparr>) else None
      | CWork e \<Rightarrow>
          (if ok then (if se_failed s then None else Some (s\<lparr>se_open := Some (add_work [e] fs)\<rparr>))
           else Some (s\<lparr>se_failed := True\<rparr>))
      | CSavepoint n \<Rightarrow>
          (if ok then (if se_failed s then None else Some (s\<lparr>se_open := Some ((Some n, []) # fs)\<rparr>))
           else if se_failed s then Some s else None)
      | CRelease n \<Rightarrow>
          (if se_failed s \<or> from_savepoint n fs = [] then (if ok then None else Some (s\<lparr>se_failed := True\<rparr>))
           else if ok then Some (s\<lparr>se_open := Some (add_work (frames_work (above n fs @ [hd (from_savepoint n fs)])) (tl (from_savepoint n fs)))\<rparr>)
           else None)
      | CRollbackTo n \<Rightarrow>
          (if from_savepoint n fs = [] then (if ok then None else Some (s\<lparr>se_failed := True\<rparr>))
           else if ok then Some (s\<lparr>se_open := Some ((Some n, []) # tl (from_savepoint n fs)), se_failed := False\<rparr>)
           else None))"

definition serve :: "command \<Rightarrow> bool \<Rightarrow> session \<Rightarrow> session option" where
  "serve c ok s = (case se_open s of None \<Rightarrow> serve_idle c ok s | Some fs \<Rightarrow> serve_open c ok fs s)"

fun replay :: "(str \<Rightarrow> command) \<Rightarrow> (str \<times> bool) list \<Rightarrow> session \<Rightarrow> session option" where
  "replay rd [] s = Some s"
| "replay rd ((q, ok) # es) s = (case serve (rd q) ok s of Some s' \<Rightarrow> replay rd es s' | None \<Rightarrow> None)"

lemma replay_append: "replay rd (xs @ ys) s = Option.bind (replay rd xs s) (replay rd ys)"
  by (induction rd xs s rule: replay.induct) (auto split: option.split)

section \<open>What a client has exchanged\<close>

definition sql_request :: "str \<Rightarrow> request_messages" where
  "sql_request q = Single (Raw (frame_bytes CHR ''Q'' (as_bytes q @ [0])))"

text \<open>Whether the answer in a channel is a success, as \<open>batch_execute\<close> reads it.\<close>

definition answer_ok :: "bytes list \<Rightarrow> bool" where
  "answer_ok runs = (fst (message_loop batch_body () \<lparr>rs_cur = [], rs_runs = runs\<rparr>) = Ok ())"

text \<open>The texts sent between two states of a client, each with its answer.\<close>

definition exchanged :: "client \<Rightarrow> (str \<times> bool) list \<Rightarrow> client \<Rightarrow> bool" where
  "exchanged cl es cl' \<longleftrightarrow>
     (\<exists>runs. map snd es = map answer_ok runs \<and> cl_script cl = map Some runs @ cl_script cl' \<and>
             cl_sent cl' = cl_sent cl @ map (sql_request \<circ> fst) es)"

lemma exchanged_Nil: "cl_script cl' = cl_script cl \<Longrightarrow> cl_sent cl' = cl_sent cl \<Longrightarrow> exchanged cl [] cl'"
  by (simp add: exchanged_def)

lemma exchanged_trans: "exchanged cl xs cl1 \<Longrightarrow> exchanged cl1 ys cl' \<Longrightarrow> exchanged cl (xs @ ys) cl'"
  unfolding exchanged_def
proof (elim exE conjE)
  fix rs ss
  assume "map snd xs = map answer_ok rs" "cl_script cl = map Some rs @ cl_script cl1"
    "cl_sent cl1 = cl_sent cl @ map (sql_request \<circ> fst) xs"
    "map snd ys = map answer_ok ss" "cl_script cl1 = map Some ss @ cl_script cl'"
    "cl_sent cl' = cl_sent cl1 @ map (sql_request \<circ> fst) ys"
  then show "\<exists>runs. map snd (xs @ ys) = map answer_ok runs \<and> cl_script cl = map Some runs @ cl_script cl' \<and>
      cl_sent cl' = cl_sent cl @ map (sql_request \<circ> fst) (xs @ ys)"
    by (intro exI [of _ "rs @ ss"]) simp
qed

text \<open>A text that can be sent, and a client whose channel takes \<open>n\<close> more requests.\<close>

definition text_ok :: "str \<Rightarrow> bool" where
  "text_ok q \<longleftrightarrow> 0 \<notin> set (as_bytes q) \<and> length q + 5 \<le> 2147483647"

definition ready :: "nat \<Rightarrow> client \<Rightarrow> bool" where
  "ready n cl \<longleftrightarrow> cl_buffer cl = [] \<and> None \<notin> set (cl_script cl) \<and> n \<le> length (cl_script cl)"

lemma ready_mono: "ready n cl \<Longrightarrow> m \<le> n \<Longrightarrow> ready m cl"
  by (simp add: ready_def)

lemma query_run: "text_ok q \<Longrightarrow> query q buf = (Ok (), buf @ frame_bytes CHR ''Q'' (as_bytes q @ [0]))"
proof -
  assume "text_ok q"
  then have "frame CHR ''Q'' (cstr_image (as_bytes q)) = Ok (frame_bytes CHR ''Q'' (as_bytes q @ [0]))"
    by (simp add: text_ok_def frame_bytes_Ok cstr_image_eq_Ok)
  with query_denotes [of q] show ?thesis by (simp add: denotes_run)
qed

lemma ready_Suc:
  assumes "ready (Suc n) cl"
  obtains runs sc where "cl_buffer cl = []" "cl_script cl = Some runs # sc" "None \<notin> set sc" "n \<le> length sc"
proof (cases "cl_script cl")
  case (Cons a sc)
  with assms show ?thesis by (cases a) (auto simp: ready_def intro: that)
qed (use assms in \<open>simp add: ready_def\<close>)

lemma responses_from_not_Panic: "fst (responses_from cur runs) \<noteq> Panic"
proof (induction cur runs rule: responses_from.induct)
  case (1 cur runs)
  have p: "message_parse cur \<noteq> (Panic, rest)" for rest by (metis fst_conv message_parse_not_Panic)
  show ?case
    using p "1.IH" by (subst responses_from.simps) (auto split: prod.splits rresult.splits option.splits list.splits message.splits)
qed

lemma batch_not_Panic: "fst (message_loop batch_body () r) \<noteq> Panic"
proof (induction "batch_body" "()" r rule: message_loop.induct)
  case (1 r)
  have n: "fst (responses_next r) \<noteq> Panic" by (simp add: responses_next_def responses_from_not_Panic)
  have b: "batch_body () m \<noteq> Stop s Panic" for m s
    by (auto simp: batch_body_def split: message.splits)
  show ?case
    using n b 1 by (subst message_loop.simps) (auto split: prod.splits rresult.splits loop_step.splits)
qed

definition answered :: "str \<Rightarrow> client \<Rightarrow> client" where
  "answered q cl = cl\<lparr>cl_script := tl (cl_script cl), cl_sent := cl_sent cl @ [sql_request q], cl_buffer := []\<rparr>"

lemma batch_run:
  assumes "text_ok q" and "ready (Suc n) cl"
  obtains r ok where "batch_execute q cl = (r, answered q cl)" "r \<noteq> Panic" "ok \<longleftrightarrow> r = Ok ()"
    "exchanged cl [(q, ok)] (answered q cl)" "ready n (answered q cl)"
proof -
  from assms(2) obtain runs sc where cl: "cl_buffer cl = []" "cl_script cl = Some runs # sc" "None \<notin> set sc" "n \<le> length sc"
    by (rule ready_Suc)
  let ?r = "fst (message_loop batch_body () \<lparr>rs_cur = [], rs_runs = runs\<rparr>)"
  have "batch_execute q cl = (?r, answered q cl)"
    by (simp add: batch_execute_def cbind_def simple_encode_def with_buf_def wseq_def wbind_def map_werr_def split_buf_def
        query_run assms(1) send_raw_def send_def cres_def cl answered_def sql_request_def)
  moreover have "exchanged cl [(q, answer_ok runs)] (answered q cl)"
    unfolding exchanged_def by (intro exI [of _ "[runs]"]) (simp add: cl answered_def)
  moreover have "ready n (answered q cl)" using cl by (simp add: ready_def answered_def)
  ultimately show ?thesis using batch_not_Panic by (intro that [of ?r "answer_ok runs"]) (auto simp: answer_ok_def)
qed

lemma private_rollback_run:
  assumes "text_ok (case nm of Some n \<Rightarrow> ''ROLLBACK TO '' @ n | None \<Rightarrow> ''ROLLBACK'')" (is "text_ok ?q") and "ready (Suc n) cl"
  obtains ok where "private_rollback nm cl = (Ok (), answered ?q cl)"
    "exchanged cl [(?q, ok)] (answered ?q cl)" "ready n (answered ?q cl)"
proof -
  from assms(2) obtain runs sc where cl: "cl_buffer cl = []" "cl_script cl = Some runs # sc" "None \<notin> set sc" "n \<le> length sc"
    by (rule ready_Suc)
  have "private_rollback nm cl = (Ok (), answered ?q cl)"
    by (simp add: private_rollback_def cbind_def with_buf_def wseq_def wbind_def wunwrap_def split_buf_def
        query_run assms(1) send_ignored_def send_raw_def send_def cl answered_def sql_request_def)
  moreover have "exchanged cl [(?q, answer_ok runs)] (answered ?q cl)"
    unfolding exchanged_def by (intro exI [of _ "[runs]"]) (simp add: cl answered_def)
  moreover have "ready n (answered ?q cl)" using cl by (simp add: ready_def answered_def)
  ultimately show ?thesis by (rule that)
qed

section \<open>Programs of nested transactions\<close>

text \<open>
  What a user does in a transaction: statements, and nested transactions, each ended in one of the
  three ways, with or without a name of its own, its errors passed on by \<open>?\<close> or caught. A
  transaction that is left by an error is dropped.
\<close>

datatype outcome = Commit | Rollback | Drop

datatype task = Work str | Nest bool "str option" "task list" outcome

definition finish :: "outcome \<Rightarrow> transaction \<Rightarrow> unit client_op" where
  "finish out t = (case out of Commit \<Rightarrow> commit t | Rollback \<Rightarrow> rollback t | Drop \<Rightarrow> transaction_drop t)"

definition scope :: "transaction \<Rightarrow> unit client_op \<Rightarrow> outcome \<Rightarrow> unit client_op" where
  "scope t m out cl =
     (case m cl of
        (Ok _, cl') \<Rightarrow> finish out t cl'
      | (r, cl') \<Rightarrow> then_drop (cres r) (transaction_drop t) cl')"

definition attempt :: "bool \<Rightarrow> unit client_op \<Rightarrow> unit client_op" where
  "attempt caught m cl =
     (case m cl of
        (Err e, cl') \<Rightarrow> (if caught then Ok () else Err e, cl')
      | r \<Rightarrow> r)"

fun run_tasks :: "transaction \<Rightarrow> task list \<Rightarrow> unit client_op" where
  "run_tasks t [] = cret ()"
| "run_tasks t (Work q # ts) = cbind (batch_execute q) (\<lambda>_. run_tasks t ts)"
| "run_tasks t (Nest caught nm body out # ts) =
     cbind (attempt caught (cbind (savepoint nm t) (\<lambda>t'. scope t' (run_tasks t' body) out))) (\<lambda>_. run_tasks t ts)"

definition run_transaction :: "transaction_builder \<Rightarrow> task list \<Rightarrow> outcome \<Rightarrow> unit client_op" where
  "run_transaction b ts out = cbind (builder_start b) (\<lambda>t. scope t (run_tasks t ts) out)"

text \<open>The work such a program keeps: of a nested transaction all, if it commits, or none.\<close>

fun kept :: "task list \<Rightarrow> str list list" where
  "kept [] = [[]]"
| "kept (Work q # ts) = map (Cons q) (kept ts)"
| "kept (Nest caught nm body out # ts) =
     concat (map (\<lambda>u. map (append u) (kept ts))
       ((if out = Commit then kept body else [[]]) @ (if caught then [[]] else [])))"

fun requests :: "task list \<Rightarrow> nat" where
  "requests [] = 0"
| "requests (Work q # ts) = Suc (requests ts)"
| "requests (Nest caught nm body out # ts) = Suc (Suc (requests body + requests ts))"

text \<open>The texts are read as what they are meant to be, and no name is that of an enclosing savepoint.\<close>

definition reads_name :: "(str \<Rightarrow> command) \<Rightarrow> (str \<Rightarrow> str) \<Rightarrow> str \<Rightarrow> bool" where
  "reads_name rd canon n \<longleftrightarrow>
     text_ok (''ROLLBACK TO '' @ n) \<and> rd (''SAVEPOINT '' @ n) = CSavepoint (canon n) \<and>
     rd (''RELEASE '' @ n) = CRelease (canon n) \<and> rd (''ROLLBACK TO '' @ n) = CRollbackTo (canon n)"

definition name_at :: "nat \<Rightarrow> str option \<Rightarrow> str" where
  "name_at d nm = (case nm of Some n \<Rightarrow> n | None \<Rightarrow> ''sp_'' @ show_nat d)"

fun tasks_ok :: "(str \<Rightarrow> command) \<Rightarrow> (str \<Rightarrow> str) \<Rightarrow> str list \<Rightarrow> nat \<Rightarrow> task list \<Rightarrow> bool" where
  "tasks_ok rd canon path d [] \<longleftrightarrow> True"
| "tasks_ok rd canon path d (Work q # ts) \<longleftrightarrow> text_ok q \<and> rd q = CWork q \<and> tasks_ok rd canon path d ts"
| "tasks_ok rd canon path d (Nest caught nm body out # ts) \<longleftrightarrow>
     reads_name rd canon (name_at (Suc d) nm) \<and> canon (name_at (Suc d) nm) \<notin> set path \<and>
     tasks_ok rd canon (canon (name_at (Suc d) nm) # path) (Suc d) body \<and> tasks_ok rd canon path d ts"

section \<open>One level of the stack\<close>

lemma frames_work_simps [simp]:
  "frames_work [] = []" "frames_work (f # fs) = frames_work fs @ snd f"
  by (simp_all add: frames_work_def)

lemma frames_work_append [simp]: "frames_work (fs @ gs) = frames_work gs @ frames_work fs"
  by (simp add: frames_work_def)

text \<open>
  The frames of one transaction: its own frame \<open>(nm, es)\<close>, and above it \<open>lo\<close>, what its rolled back
  children left on the server, whose names are not those of the transaction or of its ancestors.
\<close>

definition avoids :: "str list \<Rightarrow> frame list \<Rightarrow> bool" where
  "avoids path lo \<longleftrightarrow> (\<forall>f\<in>set lo. \<exists>n. fst f = Some n \<and> n \<notin> set path)"

lemma avoids_simps [simp]: "avoids path []" "avoids path (f # lo) \<longleftrightarrow> (\<exists>n. fst f = Some n \<and> n \<notin> set path) \<and> avoids path lo"
  by (simp_all add: avoids_def)

lemma avoids_found:
  assumes "avoids (c # path) lo"
  shows "from_savepoint c (lo @ (Some c, es) # rest) = (Some c, es) # rest" "above c (lo @ (Some c, es) # rest) = lo"
  using assms by (induction lo) (auto simp: from_savepoint_def above_def)

lemma avoids_weaken: "avoids (c # path) lo \<Longrightarrow> avoids path lo"
  by (auto simp: avoids_def)

definition extends :: "str list \<Rightarrow> (bool \<Rightarrow> str list \<Rightarrow> bool) \<Rightarrow> session \<Rightarrow> session \<Rightarrow> bool" where
  "extends path P s s' \<longleftrightarrow>
     (\<forall>lo nm es rest.
        se_open s = Some (lo @ (nm, es) # rest) \<longrightarrow> avoids path lo \<longrightarrow> \<not> se_failed s \<longrightarrow>
        se_durable s' = se_durable s \<and>
        (\<exists>lo' es' w. se_open s' = Some (lo' @ (nm, es') # rest) \<and> avoids path lo' \<and>
           es' @ frames_work lo' = es @ frames_work lo @ w \<and> P (se_failed s') w))"

lemma extends_step:
  assumes "\<And>lo nm es rest. se_open s = Some (lo @ (nm, es) # rest) \<Longrightarrow> avoids path lo \<Longrightarrow> \<not> se_failed s \<Longrightarrow>
    se_durable s' = se_durable s \<and> (\<exists>lo' es' w. se_open s' = Some (lo' @ (nm, es') # rest) \<and> avoids path lo' \<and>
       es' @ frames_work lo' = es @ frames_work lo @ w \<and> P (se_failed s') w)"
  shows "extends path P s s'"
  unfolding extends_def using assms by blast

lemma extends_mono: "extends path P s s' \<Longrightarrow> (\<And>f w. P f w \<Longrightarrow> Q f w) \<Longrightarrow> extends path Q s s'"
  unfolding extends_def by metis

lemma extends_refl: "P False [] \<Longrightarrow> extends path P s s"
  by (rule extends_step) auto

lemma extends_trans:
  assumes "extends path (\<lambda>f w. \<not> f \<and> P w) s s1" and "extends path Q s1 s'"
    and PQ: "\<And>f u v. P u \<Longrightarrow> Q f v \<Longrightarrow> R f (u @ v)"
  shows "extends path R s s'"
proof (rule extends_step)
  fix lo nm es rest
  assume "se_open s = Some (lo @ (nm, es) # rest)" "avoids path lo" "\<not> se_failed s"
  with assms(1) obtain lo1 es1 u where 1: "se_open s1 = Some (lo1 @ (nm, es1) # rest)" "avoids path lo1"
      "\<not> se_failed s1" "es1 @ frames_work lo1 = es @ frames_work lo @ u" "P u" "se_durable s1 = se_durable s"
    unfolding extends_def by blast
  with assms(2) obtain lo2 es2 v where 2: "se_open s' = Some (lo2 @ (nm, es2) # rest)" "avoids path lo2"
      "es2 @ frames_work lo2 = es1 @ frames_work lo1 @ v" "Q (se_failed s') v" "se_durable s' = se_durable s1"
    unfolding extends_def by blast
  have "es2 @ frames_work lo2 = es @ frames_work lo @ (u @ v)"
    using 2(3) by (simp only: append_assoc [symmetric] 1(4))
  with 1 2 PQ show "se_durable s' = se_durable s \<and> (\<exists>lo' es' w. se_open s' = Some (lo' @ (nm, es') # rest) \<and> avoids path lo' \<and>
       es' @ frames_work lo' = es @ frames_work lo @ w \<and> R (se_failed s') w)"
    by auto
qed

lemma add_work_level:
  "avoids path lo \<Longrightarrow> \<exists>lo' es'. add_work w (lo @ (nm, es) # rest) = lo' @ (nm, es') # rest \<and> avoids path lo' \<and>
     es' @ frames_work lo' = es @ frames_work lo @ w"
proof (cases lo)
  case Nil
  then show ?thesis by (intro exI [of _ "[]"] exI [of _ "es @ w"]) (simp add: add_work_def)
next
  case (Cons f lo1)
  assume "avoids path lo"
  with Cons show ?thesis
    by (intro exI [of _ "(fst f, snd f @ w) # lo1"] exI [of _ es]) (auto simp: add_work_def split: prod.split)
qed

lemma extends_work:
  assumes "serve (CWork q) ok s = Some s'"
  shows "extends path (\<lambda>f w. if ok then \<not> f \<and> w = [q] else f \<and> w = []) s s'"
proof (rule extends_step)
  fix lo nm es rest
  assume s: "se_open s = Some (lo @ (nm, es) # rest)" "avoids path lo" "\<not> se_failed s"
  from add_work_level [OF s(2), of "[q]" nm es rest] obtain lo' es' where
    w: "add_work [q] (lo @ (nm, es) # rest) = lo' @ (nm, es') # rest" "avoids path lo'"
      "es' @ frames_work lo' = es @ frames_work lo @ [q]" by blast
  show "se_durable s' = se_durable s \<and> (\<exists>lo' es' w. se_open s' = Some (lo' @ (nm, es') # rest) \<and> avoids path lo' \<and>
       es' @ frames_work lo' = es @ frames_work lo @ w \<and>
       (if ok then \<not> se_failed s' \<and> w = [q] else se_failed s' \<and> w = []))"
    using assms s w by (cases ok) (auto simp: serve_def serve_open_def)
qed

text \<open>A savepoint, a program above it, and its end.\<close>

lemma extends_nested:
  assumes sp: "serve (CSavepoint c) True s = Some s1"
    and body: "extends (c # path) P s1 s2"
    and fin: "serve (if rel then CRelease c else CRollbackTo c) ok s2 = Some s'"
    and c: "c \<notin> set path" and rel: "\<And>f w. rel \<Longrightarrow> P f w \<Longrightarrow> \<not> f \<and> Q w"
  shows "extends path (\<lambda>f w. ok \<and> \<not> f \<and> (if rel then Q w else w = [])) s s'"
proof (rule extends_step)
  fix lo nm es rest
  assume s: "se_open s = Some (lo @ (nm, es) # rest)" "avoids path lo" "\<not> se_failed s"
  from sp s have s1: "se_open s1 = Some ([] @ (Some c, []) # lo @ (nm, es) # rest)" "\<not> se_failed s1" "se_durable s1 = se_durable s"
    by (auto simp: serve_def serve_open_def)
  from body s1(1,2) obtain lo2 es2 w where 2: "se_open s2 = Some (lo2 @ (Some c, es2) # lo @ (nm, es) # rest)"
      "avoids (c # path) lo2" "es2 @ frames_work lo2 = w" "P (se_failed s2) w" "se_durable s2 = se_durable s1"
    unfolding extends_def by (metis append_Nil avoids_simps(1) frames_work_simps(1))
  note found = avoids_found [OF 2(2), of es2 "lo @ (nm, es) # rest"]
  show "se_durable s' = se_durable s \<and> (\<exists>lo' es' w. se_open s' = Some (lo' @ (nm, es') # rest) \<and> avoids path lo' \<and>
       es' @ frames_work lo' = es @ frames_work lo @ w \<and> ok \<and> \<not> se_failed s' \<and> (if rel then Q w else w = []))"
  proof (cases rel)
    case True
    with rel 2(4) have q: "\<not> se_failed s2" "Q w" by blast+
    from add_work_level [OF s(2), of w nm es rest] obtain lo' es' where
      "add_work w (lo @ (nm, es) # rest) = lo' @ (nm, es') # rest" "avoids path lo'"
        "es' @ frames_work lo' = es @ frames_work lo @ w" by blast
    with fin True q found 2 s1 show ?thesis
      by (auto simp: serve_def serve_open_def split: if_splits)
  next
    case False
    with fin found 2 s1 s c show ?thesis
      by (auto simp: serve_def serve_open_def split: if_splits intro!: exI [of _ "(Some c, []) # lo"])
  qed
qed

section \<open>The programs on a session\<close>

definition runs_to :: "(str \<Rightarrow> command) \<Rightarrow> client \<Rightarrow> client \<Rightarrow> (session \<Rightarrow> session \<Rightarrow> bool) \<Rightarrow> bool" where
  "runs_to rd cl cl' R \<longleftrightarrow> (\<exists>es. exchanged cl es cl' \<and> (\<forall>s s'. replay rd es s = Some s' \<longrightarrow> R s s'))"

lemma runs_to_refl: "(\<And>s. R s s) \<Longrightarrow> runs_to rd cl cl R"
  unfolding runs_to_def by (intro exI [of _ "[]"]) (simp add: exchanged_Nil)

lemma runs_to_trans:
  assumes "runs_to rd cl cl1 R" and "runs_to rd cl1 cl' S" and T: "\<And>s s1 s'. R s s1 \<Longrightarrow> S s1 s' \<Longrightarrow> T s s'"
  shows "runs_to rd cl cl' T"
proof -
  from assms(1) obtain xs where xs: "exchanged cl xs cl1" "\<And>s s'. replay rd xs s = Some s' \<Longrightarrow> R s s'"
    unfolding runs_to_def by blast
  from assms(2) obtain ys where ys: "exchanged cl1 ys cl'" "\<And>s s'. replay rd ys s = Some s' \<Longrightarrow> S s s'"
    unfolding runs_to_def by blast
  show ?thesis unfolding runs_to_def
    by (intro exI [of _ "xs @ ys"] conjI exchanged_trans [OF xs(1) ys(1)])
      (auto simp: replay_append bind_eq_Some_conv intro: T xs(2) ys(2))
qed

lemma runs_to_mono: "runs_to rd cl cl' R \<Longrightarrow> (\<And>s s'. R s s' \<Longrightarrow> T s s') \<Longrightarrow> runs_to rd cl cl' T"
  unfolding runs_to_def by blast

lemma runs_to_one: "exchanged cl [(q, ok)] cl' \<Longrightarrow> (\<And>s s'. serve (rd q) ok s = Some s' \<Longrightarrow> R s s') \<Longrightarrow> runs_to rd cl cl' R"
  unfolding runs_to_def by (intro exI [of _ "[(q, ok)]"]) (auto split: option.splits)

lemma batch_runs:
  assumes "text_ok q" and "ready (Suc n) cl"
  obtains r cl' where "batch_execute q cl = (r, cl')" "r \<noteq> Panic" "ready n cl'"
    "\<And>R. (\<And>s s'. serve (rd q) (r = Ok ()) s = Some s' \<Longrightarrow> R s s') \<Longrightarrow> runs_to rd cl cl' R"
proof (rule batch_run [OF assms])
  fix r ok
  assume r: "batch_execute q cl = (r, answered q cl)" "r \<noteq> Panic" "ok \<longleftrightarrow> r = Ok ()" "exchanged cl [(q, ok)] (answered q cl)"
    "ready n (answered q cl)"
  show thesis by (rule that [OF r(1,2,5)], rule runs_to_one [OF r(4)]) (simp add: r(3))
qed

lemma rollback_runs:
  assumes "text_ok (case nm of Some n \<Rightarrow> ''ROLLBACK TO '' @ n | None \<Rightarrow> ''ROLLBACK'')" (is "text_ok ?q") and "ready (Suc n) cl"
  obtains ok cl' where "private_rollback nm cl = (Ok (), cl')" "ready n cl'"
    "\<And>R. (\<And>s s'. serve (rd ?q) ok s = Some s' \<Longrightarrow> R s s') \<Longrightarrow> runs_to rd cl cl' R"
proof (rule private_rollback_run [OF assms])
  fix ok
  assume r: "private_rollback nm cl = (Ok (), answered ?q cl)" "exchanged cl [(?q, ok)] (answered ?q cl)" "ready n (answered ?q cl)"
  show thesis by (rule that [OF r(1,3)], rule runs_to_one [OF r(2)])
qed

text \<open>The end of a transaction is one command; its answer is the result, except of a drop.\<close>

definition end_sql :: "bool \<Rightarrow> transaction \<Rightarrow> str" where
  "end_sql committed t = (if committed then commit_sql t else rollback_sql t)"

lemma finish_runs:
  assumes "text_ok (end_sql (out = Commit) t)" and "ready (Suc n) cl" and "\<not> tx_done t"
  obtains r ok cl' where "finish out t cl = (r, cl')" "r \<noteq> Panic" "ready n cl'" "ok \<Longrightarrow> r = Ok ()" "out \<noteq> Drop \<Longrightarrow> r = Ok () \<Longrightarrow> ok"
    "\<And>R. (\<And>s s'. serve (rd (end_sql (out = Commit) t)) ok s = Some s' \<Longrightarrow> R s s') \<Longrightarrow> runs_to rd cl cl' R"
proof (cases "out = Drop")
  case True
  have e: "end_sql (out = Commit) t = (case map_option sp_name (tx_savepoint t) of Some n \<Rightarrow> ''ROLLBACK TO '' @ n | None \<Rightarrow> ''ROLLBACK'')"
    using True by (simp add: end_sql_def rollback_sql_def split: option.split)
  show ?thesis
  proof (rule rollback_runs [OF assms(1) [unfolded e] assms(2)])
    fix ok cl'
    assume "private_rollback (map_option sp_name (tx_savepoint t)) cl = (Ok (), cl')" "ready n cl'"
      "\<And>R. (\<And>s s'. serve (rd (case map_option sp_name (tx_savepoint t) of None \<Rightarrow> ''ROLLBACK'' | Some n \<Rightarrow> ''ROLLBACK TO '' @ n)) ok s =
        Some s' \<Longrightarrow> R s s') \<Longrightarrow> runs_to rd cl cl' R"
    then show thesis
      using True assms(3) by (intro that [of "Ok ()" cl' ok, unfolded e]) (simp_all add: finish_def transaction_drop_def)
  qed
next
  case False
  then have f: "finish out t cl = batch_execute (end_sql (out = Commit) t) cl" for cl
    by (cases out; cases "batch_execute (end_sql (out = Commit) t) cl")
      (auto simp: finish_def commit_def rollback_def then_drop_def transaction_drop_def cret_def end_sql_def)
  show ?thesis
    by (rule batch_runs [OF assms(1,2), of rd]) (rule that [OF f [THEN trans]], assumption+, simp_all add: False)
qed

text \<open>A scope: the body, and then one command that ends the transaction, a commit or a rollback.\<close>

lemma scope_runs:
  assumes m: "m cl = (r1, cl1)" "r1 \<noteq> Panic" and cl1: "ready (Suc n) cl1" and B: "runs_to rd cl cl1 B"
    and t: "\<not> tx_done t" "text_ok (commit_sql t)" "text_ok (rollback_sql t)"
  obtains r cl' c ok where "scope t m out cl = (r, cl')" "r \<noteq> Panic" "ready n cl'"
    "c \<longleftrightarrow> r1 = Ok () \<and> out = Commit" "c \<Longrightarrow> r = Ok () \<longleftrightarrow> ok" "r = Ok () \<Longrightarrow> r1 = Ok ()" "r1 = Ok () \<Longrightarrow> ok \<Longrightarrow> r = Ok ()"
    "\<And>R. (\<And>s s1 s'. B s s1 \<Longrightarrow> serve (rd (end_sql c t)) ok s1 = Some s' \<Longrightarrow> R s s') \<Longrightarrow> runs_to rd cl cl' R"
proof (cases "r1 = Ok ()")
  case True
  have "text_ok (end_sql (out = Commit) t)" using t by (simp add: end_sql_def)
  then show ?thesis
  proof (rule finish_runs [OF _ cl1 t(1), of out rd])
    fix r ok cl'
    assume f: "finish out t cl1 = (r, cl')" "r \<noteq> Panic" "ready n cl'" "ok \<Longrightarrow> r = Ok ()" "out \<noteq> Drop \<Longrightarrow> r = Ok () \<Longrightarrow> ok"
      "\<And>R. (\<And>s s'. serve (rd (end_sql (out = Commit) t)) ok s = Some s' \<Longrightarrow> R s s') \<Longrightarrow> runs_to rd cl1 cl' R"
    show thesis
    proof (rule that [of r cl' "out = Commit" ok])
      show "scope t m out cl = (r, cl')" using m f True by (simp add: scope_def)
      show "out = Commit \<Longrightarrow> r = Ok () \<longleftrightarrow> ok" using f(4,5) by auto
      show "runs_to rd cl cl' R"
        if "\<And>s s1 s'. B s s1 \<Longrightarrow> serve (rd (end_sql (out = Commit) t)) ok s1 = Some s' \<Longrightarrow> R s s'" for R
        by (rule runs_to_trans [OF B f(6) [of "\<lambda>s s'. serve (rd (end_sql (out = Commit) t)) ok s = Some s'"]]) (auto intro: that)
    qed (use f True in auto)
  qed
next
  case False
  with m(2) obtain e where e: "r1 = Err e" by (cases r1) auto
  have q: "rollback_sql t = (case map_option sp_name (tx_savepoint t) of Some n \<Rightarrow> ''ROLLBACK TO '' @ n | None \<Rightarrow> ''ROLLBACK'')"
    by (simp add: rollback_sql_def split: option.split)
  show ?thesis
  proof (rule rollback_runs [OF t(3) [unfolded q] cl1, of rd, folded q])
    fix ok cl'
    assume f: "private_rollback (map_option sp_name (tx_savepoint t)) cl1 = (Ok (), cl')" "ready n cl'"
      "\<And>R. (\<And>s s'. serve (rd (rollback_sql t)) ok s = Some s' \<Longrightarrow> R s s') \<Longrightarrow> runs_to rd cl1 cl' R"
    show thesis
    proof (rule that [of "Err e" cl' False ok])
      show "scope t m out cl = (Err e, cl')"
        using m f(1) t(1) e by (simp add: scope_def then_drop_def transaction_drop_def cres_def)
      show "runs_to rd cl cl' R" if "\<And>s s1 s'. B s s1 \<Longrightarrow> serve (rd (end_sql False t)) ok s1 = Some s' \<Longrightarrow> R s s'" for R
        by (rule runs_to_trans [OF B f(3) [of "\<lambda>s s'. serve (rd (rollback_sql t)) ok s = Some s'"]])
          (auto simp: end_sql_def intro: that)
    qed (use f e in auto)
  qed
qed

definition depth_of :: "transaction \<Rightarrow> nat" where
  "depth_of t = (case tx_savepoint t of Some sp \<Rightarrow> unat (sp_depth sp) | None \<Rightarrow> 0)"

definition savepoint_at :: "str \<Rightarrow> nat \<Rightarrow> transaction" where
  "savepoint_at n d = \<lparr>tx_savepoint = Some \<lparr>sp_name = n, sp_depth = of_nat d\<rparr>, tx_done = False\<rparr>"

lemma savepoint_eq:
  assumes "Suc (depth_of t) < 2 ^ 32"
  shows "savepoint nm t = (let n = name_at (Suc (depth_of t)) nm in
     cbind (batch_execute (''SAVEPOINT '' @ n)) (\<lambda>_. cret (savepoint_at n (Suc (depth_of t)))))"
proof -
  define w where "w = (case tx_savepoint t of Some sp \<Rightarrow> sp_depth sp | None \<Rightarrow> 0)"
  have d: "depth_of t = unat w" by (simp add: depth_of_def w_def split: option.split)
  have "w \<noteq> 0xFFFFFFFF" using assms d by auto
  then have n: "next_depth t = Ok (w + 1)" by (simp add: next_depth_def w_def [symmetric])
  have "unat (w + 1) = Suc (unat w)" using assms d by (simp add: unat_word_ariths)
  moreover have "w + 1 = of_nat (Suc (unat w))" by simp
  ultimately obtain v where v: "next_depth t = Ok v" "unat v = Suc (depth_of t)" "v = of_nat (Suc (depth_of t))"
    using n d by metis
  show ?thesis
    by (intro ext) (simp add: savepoint_def cbind_def cres_def name_at_def savepoint_at_def Let_def v(1,2) v(3) [symmetric]
        del: of_nat_Suc split: option.split prod.split rresult.split)
qed

lemma text_ok_shorter: "text_ok (''ROLLBACK TO '' @ n) \<Longrightarrow> text_ok (''SAVEPOINT '' @ n) \<and> text_ok (''RELEASE '' @ n)"
  by (simp add: text_ok_def)

text \<open>A nested transaction leaves its parent in order, with all of its work or with none.\<close>

lemma nest_runs:
  assumes n: "reads_name rd canon (name_at (Suc d) nm)" "canon (name_at (Suc d) nm) \<notin> set path"
    and d: "depth_of t = d" "Suc d < 2 ^ 32" and cl: "ready (Suc (Suc (m + k))) cl"
    and body: "\<And>cl. ready (m + Suc k) cl \<Longrightarrow> \<exists>r cl'. run_tasks (savepoint_at (name_at (Suc d) nm) (Suc d)) body cl = (r, cl') \<and>
      r \<noteq> Panic \<and> ready (Suc k) cl' \<and>
      runs_to rd cl cl' (extends (canon (name_at (Suc d) nm) # path) (\<lambda>f w. r = Ok () \<longrightarrow> \<not> f \<and> w \<in> set (kept body)))"
  obtains r cl' where "cbind (savepoint nm t) (\<lambda>t'. scope t' (run_tasks t' body) out) cl = (r, cl')" "r \<noteq> Panic" "ready k cl'"
    "runs_to rd cl cl' (extends path (\<lambda>f w. \<not> f \<and> (if r = Ok () \<and> out = Commit then w \<in> set (kept body) else w = [])))"
proof -
  define nam where "nam = name_at (Suc d) nm"
  define c where "c = canon nam"
  define t' where "t' = savepoint_at nam (Suc d)"
  have rd: "rd (''SAVEPOINT '' @ nam) = CSavepoint c" "rd (commit_sql t') = CRelease c" "rd (rollback_sql t') = CRollbackTo c"
    using n(1) by (simp_all add: reads_name_def nam_def c_def t'_def savepoint_at_def commit_sql_def rollback_sql_def)
  have snd: "text_ok (''SAVEPOINT '' @ nam)" "text_ok (commit_sql t')" "text_ok (rollback_sql t')" "\<not> tx_done t'"
    using n(1) text_ok_shorter [of nam] by (simp_all add: reads_name_def nam_def t'_def savepoint_at_def commit_sql_def rollback_sql_def)
  have e: "cbind (savepoint nm t) (\<lambda>t'. scope t' (run_tasks t' body) out) cl =
      cbind (batch_execute (''SAVEPOINT '' @ nam)) (\<lambda>_. scope t' (run_tasks t' body) out) cl"
    using savepoint_eq [of t nm] d
    by (simp add: Let_def nam_def [symmetric] t'_def [symmetric] cbind_def cret_def split: prod.split rresult.split)
  show ?thesis
  proof (rule batch_runs [OF snd(1) cl, of rd])
    fix r0 cl0
    assume b: "batch_execute (''SAVEPOINT '' @ nam) cl = (r0, cl0)" "r0 \<noteq> Panic" "ready (Suc (m + k)) cl0"
      "\<And>R. (\<And>s s'. serve (rd (''SAVEPOINT '' @ nam)) (r0 = Ok ()) s = Some s' \<Longrightarrow> R s s') \<Longrightarrow> runs_to rd cl cl0 R"
    show thesis
    proof (cases "r0 = Ok ()")
      case False
      then obtain x where x: "r0 = Err x" using b(2) by (cases r0) auto
      show thesis
      proof (rule that [of "Err x" cl0])
        show "cbind (savepoint nm t) (\<lambda>t'. scope t' (run_tasks t' body) out) cl = (Err x, cl0)" unfolding e by (rule cbind_Err) (simp only: b(1) x)
        show "ready k cl0" by (rule ready_mono [OF b(3)]) simp
        show "runs_to rd cl cl0 (extends path (\<lambda>f w. \<not> f \<and> (if Err x = Ok () \<and> out = Commit then w \<in> set (kept body) else w = [])))"
          by (rule b(4), rule extends_step) (use False rd in \<open>auto simp: serve_def serve_open_def\<close>)
      qed simp
    next
      case True
      have "ready (m + Suc k) cl0" using b(3) by simp
      from body [OF this, folded nam_def, folded c_def t'_def] obtain r1 cl1 where r1: "run_tasks t' body cl0 = (r1, cl1)" "r1 \<noteq> Panic"
        "ready (Suc k) cl1" "runs_to rd cl0 cl1 (extends (c # path) (\<lambda>f w. r1 = Ok () \<longrightarrow> \<not> f \<and> w \<in> set (kept body)))"
        (is "runs_to _ _ _ ?B") by blast
      show thesis
      proof (rule scope_runs [where m = "run_tasks t' body" and cl = cl0 and out = out, OF r1 snd(4,2,3)])
        fix r cl' co ok
        assume s: "scope t' (run_tasks t' body) out cl0 = (r, cl')" "r \<noteq> Panic" "ready k cl'" "co \<longleftrightarrow> r1 = Ok () \<and> out = Commit"
          "co \<Longrightarrow> r = Ok () \<longleftrightarrow> ok" "r = Ok () \<Longrightarrow> r1 = Ok ()" "r1 = Ok () \<Longrightarrow> ok \<Longrightarrow> r = Ok ()"
          "\<And>R. (\<And>s s1 s'. ?B s s1 \<Longrightarrow> serve (rd (end_sql co t')) ok s1 = Some s' \<Longrightarrow> R s s') \<Longrightarrow> runs_to rd cl0 cl' R"
        have rel: "rd (end_sql co t') = (if co then CRelease c else CRollbackTo c)" using rd by (simp add: end_sql_def)
        show thesis
        proof (rule that [of r cl'])
          show "cbind (savepoint nm t) (\<lambda>t'. scope t' (run_tasks t' body) out) cl = (r, cl')" unfolding e by (subst cbind_run [where x = "()" and ?cl1.0 = cl0]) (simp_all only: b(1) True s(1))
          show "runs_to rd cl cl' (extends path (\<lambda>f w. \<not> f \<and> (if r = Ok () \<and> out = Commit then w \<in> set (kept body) else w = [])))"
          proof (rule runs_to_trans)
            show "runs_to rd cl cl0 (\<lambda>s s1. serve (CSavepoint c) True s = Some s1)"
              by (rule b(4)) (simp only: rd True simp_thms)
            show "runs_to rd cl0 cl' (\<lambda>s1 s'. \<exists>s2. ?B s1 s2 \<and> serve (if co then CRelease c else CRollbackTo c) ok s2 = Some s')"
              by (rule s(8)) (simp only: rel, blast)
            fix s s1 s'
            assume sp: "serve (CSavepoint c) True s = Some s1"
              and "\<exists>s2. ?B s1 s2 \<and> serve (if co then CRelease c else CRollbackTo c) ok s2 = Some s'"
            then obtain s2 where s2: "?B s1 s2" "serve (if co then CRelease c else CRollbackTo c) ok s2 = Some s'" by blast
            have "extends path (\<lambda>f w. ok \<and> \<not> f \<and> (if co then w \<in> set (kept body) else w = [])) s s'"
            proof (rule extends_nested [OF sp s2])
              show "c \<notin> set path" using n(2) unfolding c_def nam_def .
              show "\<not> f \<and> w \<in> set (kept body)" if "co" "r1 = Ok () \<longrightarrow> \<not> f \<and> w \<in> set (kept body)" for f w
                using that s(4) by blast
            qed
            then show "extends path (\<lambda>f w. \<not> f \<and> (if r = Ok () \<and> out = Commit then w \<in> set (kept body) else w = [])) s s'"
            proof (rule extends_mono)
              fix f w assume "ok \<and> \<not> f \<and> (if co then w \<in> set (kept body) else w = [])"
              moreover have "co \<Longrightarrow> ok \<Longrightarrow> r = Ok () \<and> out = Commit" using s(4,5) by blast
              moreover have "\<not> co \<Longrightarrow> \<not> (r = Ok () \<and> out = Commit)" using s(4,6) by blast
              ultimately show "\<not> f \<and> (if r = Ok () \<and> out = Commit then w \<in> set (kept body) else w = [])"
                by (cases co) auto
            qed
          qed
        qed (rule s)+
      qed
    qed
  qed
qed

lemma tasks_run:
  assumes "tasks_ok rd canon path d ts" and "depth_of t = d" and "d + requests ts < 2 ^ 32" and "ready (requests ts + k) cl"
  shows "\<exists>r cl'. run_tasks t ts cl = (r, cl') \<and> r \<noteq> Panic \<and> ready k cl' \<and>
    runs_to rd cl cl' (extends path (\<lambda>f w. r = Ok () \<longrightarrow> \<not> f \<and> w \<in> set (kept ts)))"
  using assms
proof (induction ts arbitrary: t path d k cl rule: requests.induct)
  case 1
  then show ?case
    by (intro exI [of _ "Ok ()"] exI [of _ cl]) (auto simp: cret_def extends_refl intro: runs_to_refl)
next
  case (2 q ts)
  from "2.prems" have q: "text_ok q" "rd q = CWork q" "ready (Suc (requests ts + k)) cl" by simp_all
  show ?case
  proof (rule batch_runs [OF q(1,3), of rd])
    fix r0 cl0
    assume b: "batch_execute q cl = (r0, cl0)" "r0 \<noteq> Panic" "ready (requests ts + k) cl0"
      "\<And>R. (\<And>s s'. serve (rd q) (r0 = Ok ()) s = Some s' \<Longrightarrow> R s s') \<Longrightarrow> runs_to rd cl cl0 R"
    have w: "runs_to rd cl cl0 (extends path (\<lambda>f w. if r0 = Ok () then \<not> f \<and> w = [q] else f \<and> w = []))"
      by (rule b(4), rule extends_work) (simp only: q(2))
    show ?thesis
    proof (cases "r0 = Ok ()")
      case True
      from "2.IH" [of path d t k cl0] "2.prems" b(3) obtain r cl' where r: "run_tasks t ts cl0 = (r, cl')" "r \<noteq> Panic" "ready k cl'"
        "runs_to rd cl0 cl' (extends path (\<lambda>f w. r = Ok () \<longrightarrow> \<not> f \<and> w \<in> set (kept ts)))" by auto
      have "run_tasks t (Work q # ts) cl = (r, cl')" using b(1) True r(1) by (simp add: cbind_def)
      moreover have "runs_to rd cl cl' (extends path (\<lambda>f w. r = Ok () \<longrightarrow> \<not> f \<and> w \<in> set (kept (Work q # ts))))"
        by (rule runs_to_trans [OF w r(4)], rule extends_trans [where P = "\<lambda>u. u = [q]"]) (simp add: True, assumption, auto)
      ultimately show ?thesis using r(2,3) by blast
    next
      case False
      with b(2) obtain e where e: "r0 = Err e" by (cases r0) auto
      have "run_tasks t (Work q # ts) cl = (Err e, cl0)" using b(1) e by (simp add: cbind_def)
      moreover have "ready k cl0" by (rule ready_mono [OF b(3)]) simp
      moreover have "runs_to rd cl cl0 (extends path (\<lambda>f w. Err e = Ok () \<longrightarrow> \<not> f \<and> w \<in> set (kept (Work q # ts))))"
        by (rule runs_to_mono [OF w], erule extends_mono) simp
      ultimately show ?thesis by blast
    qed
  qed
next
  case (3 caught nm body out ts)
  let ?n = "name_at (Suc d) nm"
  let ?K = "\<lambda>r w. if r = Ok () \<and> out = Commit then w \<in> set (kept body) else w = []"
  from "3.prems" have n: "reads_name rd canon ?n" "canon ?n \<notin> set path" "tasks_ok rd canon (canon ?n # path) (Suc d) body"
    "tasks_ok rd canon path d ts" and d: "depth_of t = d" "Suc d < 2 ^ 32" "Suc d + requests body < 2 ^ 32" "d + requests ts < 2 ^ 32"
    and cl: "ready (Suc (Suc (requests body + (requests ts + k)))) cl" by (simp_all add: add.assoc)
  have dep: "depth_of (savepoint_at ?n (Suc d)) = Suc d"
    using d(2) by (simp add: depth_of_def savepoint_at_def unsigned_of_nat take_bit_nat_eq_self del: of_nat_Suc)
  show ?case
  proof (rule nest_runs [OF n(1,2) d(1,2) cl "3.IH"(1) [OF n(3) dep d(3)], of out], assumption)
    fix r0 cl0
    assume b: "cbind (savepoint nm t) (\<lambda>t'. scope t' (run_tasks t' body) out) cl = (r0, cl0)" "r0 \<noteq> Panic" "ready (requests ts + k) cl0"
      "runs_to rd cl cl0 (extends path (\<lambda>f w. \<not> f \<and> ?K r0 w))"
    from "3.IH"(2) [OF n(4) d(1,4) b(3)] obtain r cl' where r: "run_tasks t ts cl0 = (r, cl')" "r \<noteq> Panic" "ready k cl'"
      "runs_to rd cl0 cl' (extends path (\<lambda>f w. r = Ok () \<longrightarrow> \<not> f \<and> w \<in> set (kept ts)))" by blast
    show ?thesis
    proof (cases "r0 = Ok () \<or> caught")
      case True
      have "run_tasks t (Nest caught nm body out # ts) cl = (r, cl')"
        using b(1,2) r(1) True by (cases r0) (auto simp: cbind_def [of "attempt _ _"] attempt_def)
      moreover have "runs_to rd cl cl' (extends path (\<lambda>f w. r = Ok () \<longrightarrow> \<not> f \<and> w \<in> set (kept (Nest caught nm body out # ts))))"
        by (rule runs_to_trans [OF b(4) r(4)], rule extends_trans [where P = "?K r0"], assumption, assumption)
          (use True in \<open>auto split: if_splits\<close>)
      ultimately show ?thesis using r(2,3) by blast
    next
      case False
      with b(2) obtain e where e: "r0 = Err e" by (cases r0) auto
      have "run_tasks t (Nest caught nm body out # ts) cl = (Err e, cl0)"
        using b(1) e False by (simp add: cbind_def [of "attempt _ _"] attempt_def)
      moreover have "ready k cl0" by (rule ready_mono [OF b(3)]) simp
      moreover have "runs_to rd cl cl0 (extends path (\<lambda>f w. Err e = Ok () \<longrightarrow> \<not> f \<and> w \<in> set (kept (Nest caught nm body out # ts))))"
        by (rule runs_to_mono [OF b(4)], erule extends_mono) simp
      ultimately show ?thesis by blast
    qed
  qed
qed

section \<open>Whole transactions\<close>

definition plain :: "str \<Rightarrow> bool" where
  "plain q \<longleftrightarrow> 0 \<notin> set (as_bytes q) \<and> length q \<le> 40"

lemma plain_modes: "m \<in> set (start_modes b) \<Longrightarrow> plain m"
proof -
  have l: "plain (''ISOLATION LEVEL '' @ level_sql l)" for l
    by (cases l) (simp_all add: level_sql_def plain_def)
  have k: "plain ''READ ONLY''" "plain ''READ WRITE''" "plain ''DEFERRABLE''" "plain ''NOT DEFERRABLE''"
    by (simp_all add: plain_def)
  assume "m \<in> set (start_modes b)"
  with l k show ?thesis by (auto simp: start_modes_def split: option.splits if_splits simp del: append.simps)
qed

lemma comma_separated_ok:
  "\<forall>m\<in>set ms. plain m \<Longrightarrow> 0 \<notin> set (as_bytes (comma_separated ms)) \<and> length (comma_separated ms) \<le> 42 * length ms"
  by (induction ms rule: comma_separated.induct) (auto simp: plain_def)

lemma start_sql_ok: "text_ok (start_sql b)"
proof -
  have "length (start_modes b) \<le> 3" by (auto simp: start_modes_def split: option.split)
  moreover have "0 \<notin> set (as_bytes (comma_separated (start_modes b)))" "length (comma_separated (start_modes b)) \<le> 42 * length (start_modes b)"
    using comma_separated_ok [of "start_modes b"] plain_modes [of _ b] by blast+
  ultimately show ?thesis by (simp add: start_sql_modes text_ok_def)
qed

text \<open>What a whole transaction does to an idle session.\<close>

definition atomic :: "bool \<Rightarrow> str list list \<Rightarrow> session \<Rightarrow> session \<Rightarrow> bool" where
  "atomic committed ws s s' \<longleftrightarrow>
     (se_open s = None \<longrightarrow> se_open s' = None \<and>
        (\<exists>w. se_durable s' = se_durable s @ w \<and> (if committed then w \<in> set ws else w = [])))"

lemma transaction_runs:
  assumes rd: "rd ''COMMIT'' = CCommit" "rd ''ROLLBACK'' = CRollback" "rd (start_sql b) = CBegin"
    and ts: "tasks_ok rd canon [] 0 ts" "requests ts < 2 ^ 32" and cl: "ready (requests ts + 2) cl"
  shows "\<exists>r cl'. run_transaction b ts out cl = (r, cl') \<and> r \<noteq> Panic \<and>
    runs_to rd cl cl' (atomic (r = Ok () \<and> out = Commit) (kept ts))"
proof -
  have "ready (Suc (requests ts + 1)) cl" using cl by simp
  with start_sql_ok [of b] show ?thesis
  proof (rule batch_runs [where rd = rd])
    fix r0 cl0
    assume b: "batch_execute (start_sql b) cl = (r0, cl0)" "r0 \<noteq> Panic" "ready (requests ts + 1) cl0"
      "\<And>R. (\<And>s s'. serve (rd (start_sql b)) (r0 = Ok ()) s = Some s' \<Longrightarrow> R s s') \<Longrightarrow> runs_to rd cl cl0 R"
    have st: "runs_to rd cl cl0 (\<lambda>s s'. serve CBegin (r0 = Ok ()) s = Some s')" by (rule b(4)) (simp only: rd(3))
    show ?thesis
    proof (cases "r0 = Ok ()")
      case True
      from tasks_run [OF ts(1), of transaction_new 1 cl0] ts(2) b(3)
      obtain r1 cl1 where r1: "run_tasks transaction_new ts cl0 = (r1, cl1)" "r1 \<noteq> Panic" "ready (Suc 0) cl1"
        "runs_to rd cl0 cl1 (extends [] (\<lambda>f w. r1 = Ok () \<longrightarrow> \<not> f \<and> w \<in> set (kept ts)))" (is "runs_to _ _ _ ?B")
        by (auto simp: transaction_new_def depth_of_def)
      have t: "\<not> tx_done transaction_new" "text_ok (commit_sql transaction_new)" "text_ok (rollback_sql transaction_new)"
        "rd (end_sql c transaction_new) = (if c then CCommit else CRollback)" for c
        using rd by (simp_all add: transaction_new_def commit_sql_def rollback_sql_def end_sql_def text_ok_def)
      show ?thesis
      proof (rule scope_runs [where m = "run_tasks transaction_new ts" and cl = cl0 and out = out, OF r1 t(1-3)])
        fix r cl' co ok
        assume s: "scope transaction_new (run_tasks transaction_new ts) out cl0 = (r, cl')" "r \<noteq> Panic" "co \<longleftrightarrow> r1 = Ok () \<and> out = Commit"
          "co \<Longrightarrow> r = Ok () \<longleftrightarrow> ok" "r = Ok () \<Longrightarrow> r1 = Ok ()"
          "\<And>R. (\<And>s s1 s'. ?B s s1 \<Longrightarrow> serve (rd (end_sql co transaction_new)) ok s1 = Some s' \<Longrightarrow> R s s') \<Longrightarrow> runs_to rd cl0 cl' R"
        have committed: "r = Ok () \<and> out = Commit \<longleftrightarrow> co \<and> ok" using s(3-5) by blast
        have "runs_to rd cl cl' (atomic (r = Ok () \<and> out = Commit) (kept ts))"
        proof (rule runs_to_trans [OF st])
          show "runs_to rd cl0 cl' (\<lambda>s s'. \<exists>s1. ?B s s1 \<and> serve (if co then CCommit else CRollback) ok s1 = Some s')"
            by (rule s(6)) (simp only: t(4), blast)
          fix s s1 s'
          assume "serve CBegin (r0 = Ok ()) s = Some s1" and "\<exists>s2. ?B s1 s2 \<and> serve (if co then CCommit else CRollback) ok s2 = Some s'"
          then obtain s2 where s2: "serve CBegin True s = Some s1" "?B s1 s2" "serve (if co then CCommit else CRollback) ok s2 = Some s'"
            using True by auto
          show "atomic (r = Ok () \<and> out = Commit) (kept ts) s s'"
            unfolding atomic_def committed
          proof
            assume idle: "se_open s = None"
            with s2(1) have s1: "se_open s1 = Some ([] @ (None, []) # [])" "\<not> se_failed s1" "se_durable s1 = se_durable s"
              by (auto simp: serve_def serve_idle_def)
            with s2(2) obtain lo es w where 2: "se_open s2 = Some (lo @ [(None, es)])" "es @ frames_work lo = w"
                "r1 = Ok () \<longrightarrow> \<not> se_failed s2 \<and> w \<in> set (kept ts)" "se_durable s2 = se_durable s"
              unfolding extends_def by (metis append_Nil avoids_simps(1) frames_work_simps(1))
            from s2(3) s(3) 2 show "se_open s' = None \<and>
                (\<exists>w. se_durable s' = se_durable s @ w \<and> (if co \<and> ok then w \<in> set (kept ts) else w = []))"
              by (cases co; cases ok) (auto simp: serve_def serve_open_def)
          qed
        qed
        moreover have "run_transaction b ts out cl = (r, cl')"
          using b(1) True s(1) by (simp add: run_transaction_def cbind_def builder_start_def)
        ultimately show ?thesis using s(2) by blast
      qed
    next
      case False
      with b(2) obtain e where e: "r0 = Err e" by (cases r0) auto
      have "text_ok (case None of Some n \<Rightarrow> ''ROLLBACK TO '' @ n | None \<Rightarrow> ''ROLLBACK'')" by (simp add: text_ok_def)
      moreover have "ready (Suc 0) cl0" by (rule ready_mono [OF b(3)]) simp
      ultimately show ?thesis
      proof (rule rollback_runs [where rd = rd])
        fix ok cl'
        assume f: "private_rollback None cl0 = (Ok (), cl')" "\<And>R. (\<And>s s'. serve (rd (case None of Some n \<Rightarrow> ''ROLLBACK TO '' @ n | None \<Rightarrow> ''ROLLBACK'')) ok s =
          Some s' \<Longrightarrow> R s s') \<Longrightarrow> runs_to rd cl0 cl' R"
        have "runs_to rd cl0 cl' (\<lambda>s s'. serve CRollback ok s = Some s')" by (rule f(2)) (simp add: rd(2))
        then have "runs_to rd cl cl' (atomic False (kept ts))"
          by (rule runs_to_trans [OF st]) (use False in \<open>auto simp: atomic_def serve_def serve_idle_def split: if_splits\<close>)
        moreover have "run_transaction b ts out cl = (Err e, cl')"
          using b(1) e f(1) by (simp add: run_transaction_def cbind_def builder_start_def then_drop_def cres_def)
        ultimately show ?thesis by auto
      qed
    qed
  qed
qed

section \<open>A server that answers every text\<close>

text \<open>The texts a program sends when nothing fails.\<close>

fun texts :: "nat \<Rightarrow> task list \<Rightarrow> str list" where
  "texts d [] = []"
| "texts d (Work q # ts) = q # texts d ts"
| "texts d (Nest caught nm body out # ts) =
     [''SAVEPOINT '' @ name_at (Suc d) nm] @ texts (Suc d) body @
     [(if out = Commit then ''RELEASE '' else ''ROLLBACK TO '') @ name_at (Suc d) nm] @ texts d ts"

definition ok_answer :: "bytes list" where
  "ok_answer = [encode_all [CommandComplete [], ReadyForQuery 73]]"

definition answering :: "str list \<Rightarrow> client \<Rightarrow> bool" where
  "answering qs cl \<longleftrightarrow> cl_buffer cl = [] \<and> list_all text_ok qs \<and>
     (\<exists>sc. cl_script cl = replicate (length qs) (Some ok_answer) @ sc)"

definition answered_all :: "str list \<Rightarrow> client \<Rightarrow> client" where
  "answered_all qs cl = fold answered qs cl"

lemma answer_ok_ok: "answer_ok ok_answer"
proof -
  let ?ms = "[CommandComplete [], ReadyForQuery 73]"
  have "list_all message_wf ?ms" by (simp add: message_wf_def)
  then have "delivers \<lparr>rs_cur = [], rs_runs = ok_answer\<rparr> ?ms"
    using opened_delivers [of "[?ms]" ok_answer] by (simp add: ok_answer_def)
  from message_loop_list [OF this, of batch_body "()"] show ?thesis
    by (auto simp: answer_ok_def message_result_def batch_body_def)
qed

lemma answered_all_simps [simp]:
  "answered_all [] cl = cl" "answered_all (q # qs) cl = answered_all qs (answered q cl)"
  "answered_all (xs @ ys) cl = answered_all ys (answered_all xs cl)"
  by (simp_all add: answered_all_def)

lemma answering_Cons: "answering (q # qs) cl \<longleftrightarrow> text_ok q \<and> cl_buffer cl = [] \<and>
    (\<exists>sc. cl_script cl = Some ok_answer # sc) \<and> answering qs (answered q cl)"
  by (auto simp: answering_def answered_def)

lemma answering_append: "answering (xs @ ys) cl \<longleftrightarrow> answering xs cl \<and> answering ys (answered_all xs cl)"
proof (induction xs arbitrary: cl)
  case Nil
  then show ?case by (auto simp: answering_def)
next
  case (Cons q xs)
  then show ?case by (simp add: answering_Cons)
qed

lemma answered_exchanged: "answering qs cl \<Longrightarrow> exchanged cl (map (\<lambda>q. (q, True)) qs) (answered_all qs cl)"
proof (induction qs arbitrary: cl)
  case Nil
  then show ?case by (simp add: exchanged_Nil)
next
  case (Cons q qs)
  then have "exchanged cl [(q, True)] (answered q cl)"
    by (auto simp: answering_Cons exchanged_def answered_def answer_ok_ok intro!: exI [of _ "[ok_answer]"])
  from exchanged_trans [OF this Cons.IH] Cons.prems show ?case by (simp add: answering_Cons)
qed

lemma batch_ok: "answering [q] cl \<Longrightarrow> batch_execute q cl = (Ok (), answered q cl)"
  using answer_ok_ok
  by (auto simp: answering_Cons answer_ok_def batch_execute_def cbind_def simple_encode_def with_buf_def wseq_def wbind_def
      map_werr_def split_buf_def query_run send_raw_def send_def cres_def answered_def sql_request_def)

lemma rollback_ok:
  "answering [case nm of Some n \<Rightarrow> ''ROLLBACK TO '' @ n | None \<Rightarrow> ''ROLLBACK''] cl \<Longrightarrow>
    private_rollback nm cl = (Ok (), answered (case nm of Some n \<Rightarrow> ''ROLLBACK TO '' @ n | None \<Rightarrow> ''ROLLBACK'') cl)"
  by (auto simp: answering_Cons private_rollback_def cbind_def with_buf_def wseq_def wbind_def wunwrap_def split_buf_def
      query_run send_ignored_def send_raw_def send_def answered_def sql_request_def)

lemma finish_ok:
  assumes "answering [end_sql (out = Commit) t] cl" and "\<not> tx_done t"
  shows "finish out t cl = (Ok (), answered (end_sql (out = Commit) t) cl)"
proof (cases "out = Drop")
  case True
  have "rollback_sql t = (case map_option sp_name (tx_savepoint t) of Some n \<Rightarrow> ''ROLLBACK TO '' @ n | None \<Rightarrow> ''ROLLBACK'')"
    by (simp add: rollback_sql_def split: option.split)
  with True assms rollback_ok [of "map_option sp_name (tx_savepoint t)" cl] show ?thesis
    by (simp add: finish_def transaction_drop_def end_sql_def)
next
  case False
  then show ?thesis using batch_ok [OF assms(1)]
    by (cases out) (simp_all add: finish_def commit_def rollback_def then_drop_def transaction_drop_def cret_def end_sql_def)
qed

lemma run_tasks_ok:
  assumes "depth_of t = d" and "d + requests ts < 2 ^ 32" and "answering (texts d ts) cl"
  shows "run_tasks t ts cl = (Ok (), answered_all (texts d ts) cl)"
  using assms
proof (induction ts arbitrary: t d cl rule: requests.induct)
  case 1
  then show ?case by (simp add: cret_def)
next
  case (2 q ts)
  then have a: "answering ([q] @ texts d ts) cl" by simp
  then have "batch_execute q cl = (Ok (), answered q cl)" "answering (texts d ts) (answered q cl)"
    unfolding answering_append by (auto intro: batch_ok)
  with 2 show ?case by (simp add: cbind_def)
next
  case (3 caught nm body out ts)
  let ?n = "name_at (Suc d) nm"
  let ?t = "savepoint_at ?n (Suc d)"
  let ?last = "(if out = Commit then ''RELEASE '' else ''ROLLBACK TO '') @ ?n"
  define c1 where "c1 = answered (''SAVEPOINT '' @ ?n) cl"
  define c2 where "c2 = answered_all (texts (Suc d) body) c1"
  define c3 where "c3 = answered ?last c2"
  have a: "answering [''SAVEPOINT '' @ ?n] cl" "answering (texts (Suc d) body) c1" "answering [?last] c2" "answering (texts d ts) c3"
    using "3.prems"(3) unfolding texts.simps answering_append answered_all_simps c1_def c2_def c3_def by blast+
  have d: "Suc d < 2 ^ 32" "Suc d + requests body < 2 ^ 32" "d + requests ts < 2 ^ 32" using "3.prems"(2) by simp_all
  have dep: "depth_of ?t = Suc d"
    using d(1) by (simp add: depth_of_def savepoint_at_def unsigned_of_nat take_bit_nat_eq_self del: of_nat_Suc)
  have e: "end_sql (out = Commit) ?t = ?last" by (simp add: end_sql_def commit_sql_def rollback_sql_def savepoint_at_def)
  have sp: "savepoint nm t cl = (Ok ?t, c1)"
    using savepoint_eq [of t nm] "3.prems"(1) d(1) batch_ok [OF a(1)] by (simp add: Let_def cbind_def cret_def c1_def)
  have "run_tasks ?t body c1 = (Ok (), c2)" using "3.IH"(1) [OF dep d(2) a(2)] by (simp add: c2_def)
  moreover have "finish out ?t c2 = (Ok (), c3)"
    using finish_ok [of out ?t c2] a(3) e by (simp add: c3_def savepoint_at_def)
  ultimately have "run_tasks t (Nest caught nm body out # ts) cl = run_tasks t ts c3"
    using sp by (simp add: cbind_def attempt_def scope_def)
  with "3.IH"(2) [OF "3.prems"(1) d(3) a(4)] show ?case by (simp add: c1_def c2_def c3_def)
qed

lemma run_transaction_ok:
  assumes "requests ts < 2 ^ 32"
    and "answering (start_sql b # texts 0 ts @ [if out = Commit then ''COMMIT'' else ''ROLLBACK'']) cl" (is "answering ?qs cl")
  shows "run_transaction b ts out cl = (Ok (), answered_all ?qs cl)"
proof -
  define c1 where "c1 = answered (start_sql b) cl"
  define c2 where "c2 = answered_all (texts 0 ts) c1"
  have "answering ([start_sql b] @ texts 0 ts @ [if out = Commit then ''COMMIT'' else ''ROLLBACK'']) cl" using assms(2) by simp
  then have a: "answering [start_sql b] cl" "answering (texts 0 ts) c1" "answering [if out = Commit then ''COMMIT'' else ''ROLLBACK''] c2"
    unfolding answering_append answered_all_simps c1_def c2_def by blast+
  have t: "depth_of transaction_new = 0" "\<not> tx_done transaction_new"
    "end_sql (out = Commit) transaction_new = (if out = Commit then ''COMMIT'' else ''ROLLBACK'')"
    by (simp_all add: depth_of_def transaction_new_def end_sql_def commit_sql_def rollback_sql_def)
  have "run_tasks transaction_new ts c1 = (Ok (), c2)" using run_tasks_ok [OF t(1) _ a(2)] assms(1) by (simp add: c2_def)
  moreover have "finish out transaction_new c2 = (Ok (), answered (if out = Commit then ''COMMIT'' else ''ROLLBACK'') c2)"
    using finish_ok [of out transaction_new c2] a(3) t by simp
  ultimately show ?thesis
    using batch_ok [OF a(1)]
    by (simp add: run_transaction_def cbind_def builder_start_def scope_def c1_def c2_def)
qed

section \<open>The theorems\<close>

text \<open>
  C6. Transactions are atomic. Take any program of nested transactions that ends each of them in any
  of the three ways, whose texts the server reads as what they are and in which no savepoint has the
  name of an enclosing one; any answers of the server, errors included; and a session that is not in
  a transaction. Afterwards the session is again not in a transaction; if \<open>commit\<close> was called and
  everything returned \<open>Ok\<close>, the durable work has grown by exactly the work the program keeps, where
  a nested transaction counts with all of its work or none; in every other case nothing is durable.
  The program never panics.
\<close>

theorem transaction_atomic:
  assumes "rd ''COMMIT'' = CCommit" and "rd ''ROLLBACK'' = CRollback" and "rd (start_sql b) = CBegin"
    and "tasks_ok rd canon [] 0 ts" and "requests ts < 2 ^ 32" and "ready (requests ts + 2) cl"
  shows "\<exists>r cl' es. run_transaction b ts out cl = (r, cl') \<and> r \<noteq> Panic \<and> exchanged cl es cl' \<and>
    (\<forall>s s'. replay rd es s = Some s' \<and> se_open s = None \<longrightarrow>
       se_open s' = None \<and>
       (\<exists>w. se_durable s' = se_durable s @ w \<and> (if r = Ok () \<and> out = Commit then w \<in> set (kept ts) else w = [])))"
  using transaction_runs [OF assms, of out] unfolding runs_to_def atomic_def by blast

text \<open>A reader of the texts, and a client whose server answers success to everything.\<close>

definition read_sql :: "str \<Rightarrow> command" where
  "read_sql q =
     (if q = ''COMMIT'' then CCommit
      else if q = ''ROLLBACK'' then CRollback
      else if take 17 q = ''START TRANSACTION'' then CBegin
      else if take 10 q = ''SAVEPOINT '' then CSavepoint (drop 10 q)
      else if take 8 q = ''RELEASE '' then CRelease (drop 8 q)
      else if take 12 q = ''ROLLBACK TO '' then CRollbackTo (drop 12 q)
      else CWork q)"

definition idle :: session where
  "idle = \<lparr>se_durable = [], se_open = None, se_failed = False\<rparr>"

definition sample_tasks :: "task list" where
  "sample_tasks = [Work ''INSERT 1'', Nest True None [Work ''INSERT 2''] Rollback, Nest False None [Work ''INSERT 3''] Commit]"

definition willing :: "nat \<Rightarrow> client" where
  "willing n = client_new (replicate n (Some ok_answer)) 0 0"

lemma willing_answers: "list_all text_ok qs \<Longrightarrow> length qs = n \<Longrightarrow> answering qs (willing n)"
  by (auto simp: answering_def willing_def client_new_def)

lemma sp_1: "name_at (Suc 0) None = ''sp_1''"
  by (simp add: name_at_def show_nat_digit) code_simp

lemma sample_tasks_ok: "tasks_ok read_sql id [] 0 sample_tasks"
  by (simp add: sample_tasks_def reads_name_def sp_1 text_ok_def read_sql_def)

lemma sample_texts: "start_sql builder_new # texts 0 sample_tasks @ [''COMMIT''] =
  [''START TRANSACTION'', ''INSERT 1'', ''SAVEPOINT sp_1'', ''INSERT 2'', ''ROLLBACK TO sp_1'',
   ''SAVEPOINT sp_1'', ''INSERT 3'', ''RELEASE sp_1'', ''COMMIT'']"
  by (simp add: sample_tasks_def sp_1 start_sql_def builder_new_def)

theorem transaction_atomic_witness:
  "\<exists>cl' es. run_transaction builder_new sample_tasks Commit (willing 9) = (Ok (), cl') \<and> exchanged (willing 9) es cl' \<and>
     (\<forall>s s'. replay read_sql es s = Some s' \<and> se_open s = None \<longrightarrow>
        se_open s' = None \<and> se_durable s' = se_durable s @ [''INSERT 1'', ''INSERT 3''])"
proof -
  have rdy: "ready (requests sample_tasks + 2) (willing 9)"
    by (simp add: ready_def willing_def client_new_def sample_tasks_def)
  have rd: "read_sql ''COMMIT'' = CCommit" "read_sql ''ROLLBACK'' = CRollback" "read_sql (start_sql builder_new) = CBegin"
    "requests sample_tasks < 2 ^ 32"
    by (simp_all add: read_sql_def sample_tasks_def start_sql_def builder_new_def)
  from transaction_atomic [OF rd(1-3) sample_tasks_ok rd(4) rdy, of Commit]
  obtain r cl' es where r: "run_transaction builder_new sample_tasks Commit (willing 9) = (r, cl')" "exchanged (willing 9) es cl'"
    and d: "\<forall>s s'. replay read_sql es s = Some s' \<and> se_open s = None \<longrightarrow>
       se_open s' = None \<and>
       (\<exists>w. se_durable s' = se_durable s @ w \<and> (if r = Ok () \<and> Commit = Commit then w \<in> set (kept sample_tasks) else w = []))"
    by (elim exE conjE) (rule that)
  have "answering (start_sql builder_new # texts 0 sample_tasks @ [if Commit = Commit then ''COMMIT'' else ''ROLLBACK'']) (willing 9)"
    unfolding if_True simp_thms sample_texts by (rule willing_answers) (simp_all add: text_ok_def)
  from run_transaction_ok [OF _ this] r(1) have ok: "r = Ok ()" by (simp add: sample_tasks_def)
  have k: "w \<in> set (kept sample_tasks) \<Longrightarrow> w = [''INSERT 1'', ''INSERT 3'']" for w
    by (simp add: sample_tasks_def)
  have "se_open s' = None \<and> se_durable s' = se_durable s @ [''INSERT 1'', ''INSERT 3'']"
    if "replay read_sql es s = Some s' \<and> se_open s = None" for s s'
  proof -
    from d that obtain w where "se_open s' = None" "se_durable s' = se_durable s @ w"
      "if r = Ok () \<and> Commit = Commit then w \<in> set (kept sample_tasks) else w = []" by blast
    with ok k [of w] show ?thesis by simp
  qed
  with r ok show ?thesis by blast
qed

definition shadowing_tasks :: "task list" where
  "shadowing_tasks = [Nest False (Some ''a'') [Work ''INSERT 1'', Nest False (Some ''a'') [] Rollback] Rollback]"

text \<open>
  The names matter. When a nested transaction has the name of the one around it, the rollback of
  the outer one stops at the savepoint the inner one left on the server: everything returns \<open>Ok\<close>,
  the program keeps nothing, and the rolled back work is durable.
\<close>

theorem savepoint_name_shadowed:
  "\<exists>cl' es s'. run_transaction builder_new shadowing_tasks Commit (willing 7) = (Ok (), cl') \<and>
     exchanged (willing 7) es cl' \<and> replay read_sql es idle = Some s' \<and>
     se_durable s' = [''INSERT 1''] \<and> kept shadowing_tasks = [[]]"
proof -
  let ?qs = "[''START TRANSACTION'', ''SAVEPOINT a'', ''INSERT 1'', ''SAVEPOINT a'', ''ROLLBACK TO a'', ''ROLLBACK TO a'', ''COMMIT'']"
  have qs: "start_sql builder_new # texts 0 shadowing_tasks @ [if Commit = Commit then ''COMMIT'' else ''ROLLBACK''] = ?qs"
    by (simp add: shadowing_tasks_def name_at_def start_sql_def builder_new_def)
  have "list_all text_ok ?qs" by (simp add: text_ok_def)
  then have a: "answering ?qs (willing 7)" by (rule willing_answers) simp
  have "run_transaction builder_new shadowing_tasks Commit (willing 7) = (Ok (), answered_all ?qs (willing 7))"
    using run_transaction_ok [of shadowing_tasks builder_new Commit "willing 7", unfolded qs, OF _ a] by (simp add: shadowing_tasks_def)
  moreover have "\<exists>s'. replay read_sql (map (\<lambda>q. (q, True)) ?qs) idle = Some s' \<and> se_durable s' = [''INSERT 1'']"
    by (simp add: read_sql_def serve_def serve_idle_def serve_open_def idle_def from_savepoint_def add_work_def)
  moreover have "kept shadowing_tasks = [[]]" by (simp add: shadowing_tasks_def)
  ultimately show ?thesis using answered_exchanged [OF a] by blast
qed

definition failing_answer :: "bytes list" where
  "failing_answer = [encode_all [ErrorResponse [], ReadyForQuery 69]]"

definition careless :: "str \<Rightarrow> unit client_op" where
  "careless q = cbind (builder_start builder_new) (\<lambda>t cl. commit t (snd (batch_execute q cl)))"

lemma failing_batch:
  assumes "text_ok q" and "cl_buffer cl = []" and "cl_script cl = Some failing_answer # sc"
  shows "snd (batch_execute q cl) = answered q cl" "exchanged cl [(q, False)] (answered q cl)"
proof -
  let ?ms = "[ErrorResponse [], ReadyForQuery 69]"
  have "list_all message_wf ?ms" by (simp add: message_wf_def)
  then have "delivers \<lparr>rs_cur = [], rs_runs = failing_answer\<rparr> ?ms"
    using opened_delivers [of "[?ms]" failing_answer] by (simp add: failing_answer_def)
  from message_loop_list [OF this, of batch_body "()"] have "\<not> answer_ok failing_answer"
    by (auto simp: answer_ok_def message_result_def)
  with assms show "exchanged cl [(q, False)] (answered q cl)"
    unfolding exchanged_def by (intro exI [of _ "[failing_answer]"]) (simp add: answered_def)
  show "snd (batch_execute q cl) = answered q cl"
    using assms by (simp add: batch_execute_def cbind_def simple_encode_def with_buf_def wseq_def wbind_def map_werr_def split_buf_def
        query_run send_raw_def send_def cres_def answered_def sql_request_def)
qed

text \<open>
  A commit that the server turned into a rollback is not noticed. After a statement that failed and
  whose error was not passed on, the server ends the transaction without effect and says so only in
  the tag of its answer; \<open>commit\<close> ignores the tag and returns \<open>Ok\<close>.
\<close>

theorem failed_commit_unnoticed:
  "\<exists>cl' es s'. careless ''BROKEN'' (client_new [Some ok_answer, Some failing_answer, Some ok_answer] 0 0) = (Ok (), cl') \<and>
     exchanged (client_new [Some ok_answer, Some failing_answer, Some ok_answer] 0 0) es cl' \<and>
     replay read_sql es idle = Some s' \<and> se_open s' = None \<and> se_durable s' = []"
proof -
  let ?c = "client_new [Some ok_answer, Some failing_answer, Some ok_answer] 0 0"
  define c1 where "c1 = answered ''START TRANSACTION'' ?c"
  define c2 where "c2 = answered ''BROKEN'' c1"
  have a: "answering [''START TRANSACTION''] ?c" "answering [''COMMIT''] c2"
    by (simp_all add: answering_def c1_def c2_def answered_def client_new_def text_ok_def)
  have f: "snd (batch_execute ''BROKEN'' c1) = c2" "exchanged c1 [(''BROKEN'', False)] c2"
    unfolding c2_def by (rule failing_batch; simp add: c1_def answered_def client_new_def text_ok_def)+
  have "builder_start builder_new ?c = (Ok transaction_new, c1)"
    using batch_ok [OF a(1)] by (simp add: builder_start_def start_sql_def builder_new_def c1_def)
  moreover have "commit transaction_new c2 = (Ok (), answered ''COMMIT'' c2)"
    using batch_ok [OF a(2)] by (simp add: commit_def then_drop_def transaction_new_def commit_sql_def transaction_drop_def cret_def)
  ultimately have "careless ''BROKEN'' ?c = (Ok (), answered ''COMMIT'' c2)" using f(1) by (simp add: careless_def cbind_def)
  moreover have "exchanged ?c ([(''START TRANSACTION'', True)] @ [(''BROKEN'', False)] @ [(''COMMIT'', True)]) (answered ''COMMIT'' c2)"
    using answered_exchanged [OF a(1)] f(2) answered_exchanged [OF a(2)]
    by (intro exchanged_trans [of _ _ c1] exchanged_trans [of _ _ c2]) (simp_all add: c1_def)
  moreover have "\<exists>s'. replay read_sql ([(''START TRANSACTION'', True)] @ [(''BROKEN'', False)] @ [(''COMMIT'', True)]) idle = Some s' \<and>
      se_open s' = None \<and> se_durable s' = []"
    by (simp add: read_sql_def serve_def serve_idle_def serve_open_def idle_def)
  ultimately show ?thesis by blast
qed

end
