(* ===== verification/CopyIn.thy ===== *)
theory CopyIn
  imports SimpleQuery
begin

text \<open>
  \<open>tokio-postgres/src/copy_in.rs\<close>: the sink of \<open>COPY ... FROM STDIN\<close> and the receiver that the
  connection polls for its messages. Between them is a bounded channel; every external poll of the
  sink (room in the channel, its flush and close, the responses) is answered by a script that runs
  out into \<open>Pending\<close>, so the theorems hold for all schedules.
\<close>

section \<open>The receiver\<close>

datatype copy_in_message = CopyMessage frontend_message | CopyInDone

record copy_in_receiver =
  cr_queue :: "copy_in_message list"
  cr_closed :: bool
  cr_done :: bool

text \<open>\<open>cr_queue\<close> is what the channel holds, \<open>cr_closed\<close> that its sender is closed or dropped.\<close>

definition receiver_new :: "copy_in_message list \<Rightarrow> bool \<Rightarrow> copy_in_receiver" where
  "receiver_new queue closed = \<lparr>cr_queue = queue, cr_closed = closed, cr_done = False\<rparr>"

definition copy_done_bytes :: "(bytes, io_error) rresult" where
  "copy_done_bytes = fst (wseq copy_done (wseq sync split_buf) [])"

definition copy_fail_bytes :: "(bytes, io_error) rresult" where
  "copy_fail_bytes = fst (wseq (wunwrap (copy_fail [])) (wseq sync split_buf) [])"

definition receiver_poll :: "copy_in_receiver \<Rightarrow> frontend_message option poll \<times> copy_in_receiver" where
  "receiver_poll r =
     (if cr_done r then (Ready None, r)
      else case cr_queue r of
        CopyMessage m # q \<Rightarrow> (Ready (Some m), r\<lparr>cr_queue := q\<rparr>)
      | CopyInDone # q \<Rightarrow>
          (case copy_done_bytes of Ok b \<Rightarrow> Ready (Some (Raw b)) | _ \<Rightarrow> Pending, r\<lparr>cr_queue := q, cr_done := True\<rparr>)
      | [] \<Rightarrow>
          if cr_closed r
          then (case copy_fail_bytes of Ok b \<Rightarrow> Ready (Some (Raw b)) | _ \<Rightarrow> Pending, r\<lparr>cr_done := True\<rparr>)
          else (Pending, r))"

section \<open>The sink\<close>

datatype sink_state = SinkActive | SinkClosing | SinkReading

record copy_in_sink =
  si_buf :: bytes
  si_state :: sink_state
  si_responses :: responses
  si_sent :: "copy_in_message list"
  si_closed :: bool

text \<open>\<open>si_sent\<close> and \<open>si_closed\<close> are the channel as the sink has filled and closed it.\<close>

record copy_env =
  ce_ready :: "bool poll list"
  ce_send :: "bool list"
  ce_flush :: "bool poll list"
  ce_close :: "bool poll list"
  ce_responses :: "unit poll list"

definition sink_new :: "responses \<Rightarrow> copy_in_sink" where
  "sink_new r = \<lparr>si_buf = [], si_state = SinkActive, si_responses = r, si_sent = [], si_closed = False\<rparr>"

type_synonym 'a sink_op = "copy_in_sink \<Rightarrow> copy_env \<Rightarrow> ('a, error) rresult poll \<times> copy_in_sink \<times> copy_env"

definition closed_unless :: "bool poll \<Rightarrow> (unit, error) rresult poll" where
  "closed_unless p = (case p of Pending \<Rightarrow> Pending | Ready ok \<Rightarrow> Ready (if ok then Ok () else Err err_closed))"

text \<open>\<open>ready!(p)?\<close>\<close>

definition then_ready :: "'a sink_op \<Rightarrow> ('a \<Rightarrow> 'b sink_op) \<Rightarrow> 'b sink_op" where
  "then_ready m f s e =
     (case m s e of
        (Ready (Ok x), s', e') \<Rightarrow> f x s' e'
      | (Ready (Err x), s', e') \<Rightarrow> (Ready (Err x), s', e')
      | (Ready Panic, s', e') \<Rightarrow> (Ready Panic, s', e')
      | (Pending, s', e') \<Rightarrow> (Pending, s', e'))"

definition channel_ready :: "unit sink_op" where
  "channel_ready s e = (closed_unless (fst (next_poll (ce_ready e))), s, e\<lparr>ce_ready := snd (next_poll (ce_ready e))\<rparr>)"

definition channel_flush :: "unit sink_op" where
  "channel_flush s e = (closed_unless (fst (next_poll (ce_flush e))), s, e\<lparr>ce_flush := snd (next_poll (ce_flush e))\<rparr>)"

text \<open>\<open>Sender::poll_close\<close> closes the channel.\<close>

definition channel_close :: "unit sink_op" where
  "channel_close s e =
     (let (p, ps) = next_poll (ce_close e)
      in (closed_unless p, if p = Ready True then s\<lparr>si_closed := True\<rparr> else s, e\<lparr>ce_close := ps\<rparr>))"

definition channel_send :: "copy_in_message \<Rightarrow> unit sink_op" where
  "channel_send m s e =
     (case ce_send e of
        True # r \<Rightarrow> (Ready (Ok ()), s\<lparr>si_sent := si_sent s @ [m]\<rparr>, e\<lparr>ce_send := r\<rparr>)
      | False # r \<Rightarrow> (Ready (Err err_closed), s, e\<lparr>ce_send := r\<rparr>)
      | [] \<Rightarrow> (Ready (Err err_closed), s, e))"

definition sink_return :: "('a, error) rresult \<Rightarrow> 'a sink_op" where
  "sink_return r s e = (Ready r, s, e)"

definition send_data :: "bytes \<Rightarrow> unit sink_op" where
  "send_data data =
     then_ready (sink_return (map_err err_encode (copy_data_new data))) (\<lambda>d. channel_send (CopyMessage (CopyDataMessage d)))"

definition sink_poll_ready :: "unit sink_op" where
  "sink_poll_ready = channel_ready"

definition sink_start_send :: "bytes \<Rightarrow> unit sink_op" where
  "sink_start_send item s e =
     (if length item > 4096
      then send_data (si_buf s @ item) (s\<lparr>si_buf := []\<rparr>) e
      else let buf = si_buf s @ item
           in if length buf > 4096 then send_data buf (s\<lparr>si_buf := []\<rparr>) e
              else (Ready (Ok ()), s\<lparr>si_buf := buf\<rparr>, e))"

definition sink_poll_flush :: "unit sink_op" where
  "sink_poll_flush =
     then_ready (\<lambda>s. if si_buf s \<noteq> []
                     then then_ready channel_ready (\<lambda>_ s. send_data (si_buf s) (s\<lparr>si_buf := []\<rparr>)) s
                     else sink_return (Ok ()) s)
       (\<lambda>_. channel_flush)"

definition set_state :: "sink_state \<Rightarrow> unit sink_op" where
  "set_state st s e = (Ready (Ok ()), s\<lparr>si_state := st\<rparr>, e)"

definition finish_reading :: "u64 sink_op" where
  "finish_reading s e =
     (case next_poll (ce_responses e) of
        (Pending, ps) \<Rightarrow> (Pending, s, e\<lparr>ce_responses := ps\<rparr>)
      | (Ready _, ps) \<Rightarrow>
          (case responses_next (si_responses s) of
             (r, rs) \<Rightarrow>
               (Ready (rbind r (\<lambda>m. case m of
                    CommandComplete body \<Rightarrow> extract_row_affected body
                  | _ \<Rightarrow> Err err_unexpected_message)),
                s\<lparr>si_responses := rs\<rparr>, e\<lparr>ce_responses := ps\<rparr>)))"

definition finish_closing :: "u64 sink_op" where
  "finish_closing = then_ready channel_close (\<lambda>_. then_ready (set_state SinkReading) (\<lambda>_. finish_reading))"

definition finish_active :: "u64 sink_op" where
  "finish_active =
     then_ready sink_poll_flush (\<lambda>_.
     then_ready channel_ready (\<lambda>_.
     then_ready (channel_send CopyInDone) (\<lambda>_.
     then_ready (set_state SinkClosing) (\<lambda>_. finish_closing))))"

definition poll_finish :: "u64 sink_op" where
  "poll_finish s =
     (case si_state s of
        SinkActive \<Rightarrow> finish_active s
      | SinkClosing \<Rightarrow> finish_closing s
      | SinkReading \<Rightarrow> finish_reading s)"

definition sink_poll_close :: "unit sink_op" where
  "sink_poll_close = then_ready poll_finish (\<lambda>_. sink_return (Ok ()))"

section \<open>Starting a copy\<close>

definition is_copy_in :: "message \<Rightarrow> unit option" where
  "is_copy_in m = (case m of CopyInResponse _ \<Rightarrow> Some () | _ \<Rightarrow> None)"

text \<open>
  The request carries the receiver: its polls are the query, if the receiver lives to take it
  (\<open>taken\<close>), and then whatever the sink will send (\<open>polls\<close>).
\<close>

definition copy_in :: "bool \<Rightarrow> copy_poll list \<Rightarrow> statement \<Rightarrow> copy_in_sink client_op" where
  "copy_in taken polls st =
     cbind (query_encode st []) (\<lambda>buf.
     cbind (send (CopyIn (CopyMsg (Raw buf) # polls))) (\<lambda>responses.
     cbind (cres (if taken then Ok () else Err err_closed)) (\<lambda>_.
     cbind (expect is_bind_complete responses) (\<lambda>(_, responses).
     cbind (expect is_copy_in responses) (\<lambda>(_, responses).
       cret (sink_new responses))))))"

definition client_copy_in :: "bool \<Rightarrow> copy_poll list \<Rightarrow> to_statement \<Rightarrow> copy_in_sink client_op" where
  "client_copy_in taken polls ts = finishing ts (\<lambda>_. False) (copy_in taken polls)"

end
