(* ===== verification/CopyInSpec.thy ===== *)
theory CopyInSpec
  imports CopyIn ClientInv
begin

text \<open>
  The sink and the receiver together: for every schedule and every failure, what the server is sent
  is all of the data and \<open>CopyDone\<close>, or else ends in \<open>CopyFail\<close>.
\<close>

section \<open>Runs of a sink\<close>

datatype copy_op = OpSend bytes | OpFlush

fun items :: "copy_op list \<Rightarrow> bytes" where
  "items [] = []"
| "items (OpSend b # ops) = b @ items ops"
| "items (OpFlush # ops) = items ops"

text \<open>
  The user's side: items are sent and the sink is flushed, until something fails; then \<open>finish\<close> is
  polled, at most \<open>n\<close> times, while it is pending. The user may stop anywhere and drop the sink.
\<close>

fun run_sink :: "copy_op list \<Rightarrow> copy_in_sink \<Rightarrow> copy_env \<Rightarrow> bool \<times> copy_in_sink \<times> copy_env" where
  "run_sink [] s e = (True, s, e)"
| "run_sink (OpSend b # ops) s e =
     (case sink_start_send b s e of
        (Ready (Ok _), s', e') \<Rightarrow> run_sink ops s' e'
      | (_, s', e') \<Rightarrow> (False, s', e'))"
| "run_sink (OpFlush # ops) s e =
     (case sink_poll_flush s e of
        (Ready (Ok _), s', e') \<Rightarrow> run_sink ops s' e'
      | (Pending, s', e') \<Rightarrow> run_sink ops s' e'
      | (_, s', e') \<Rightarrow> (False, s', e'))"

fun run_finish :: "nat \<Rightarrow> copy_in_sink \<Rightarrow> copy_env \<Rightarrow> (u64, error) rresult poll \<times> copy_in_sink \<times> copy_env" where
  "run_finish 0 s e = (Pending, s, e)"
| "run_finish (Suc n) s e =
     (case poll_finish s e of
        (Pending, s', e') \<Rightarrow> run_finish n s' e'
      | r \<Rightarrow> r)"

definition copy_run :: "copy_op list \<Rightarrow> nat \<Rightarrow> responses \<Rightarrow> copy_env \<Rightarrow> (u64, error) rresult poll \<times> copy_in_sink" where
  "copy_run ops n r e =
     (case run_sink ops (sink_new r) e of
        (True, s, e') \<Rightarrow> (case run_finish n s e' of (p, s', _) \<Rightarrow> (p, s'))
      | (False, s, _) \<Rightarrow> (Pending, s))"

text \<open>What the connection gets out of a receiver by polling it until it ends or waits.\<close>

fun drain :: "nat \<Rightarrow> copy_in_receiver \<Rightarrow> frontend_message list" where
  "drain 0 r = []"
| "drain (Suc n) r =
     (case receiver_poll r of
        (Ready (Some m), r') \<Rightarrow> m # drain n r'
      | _ \<Rightarrow> [])"

section \<open>The state of the data\<close>

definition valid_chunks :: "copy_data list \<Rightarrow> bool" where
  "valid_chunks cs \<longleftrightarrow> list_all (\<lambda>c. copy_data_new (cd_buf c) = Ok c) cs"

definition payload :: "copy_data list \<Rightarrow> bytes" where
  "payload cs = concat (map cd_buf cs)"

definition chunk_messages :: "copy_data list \<Rightarrow> copy_in_message list" where
  "chunk_messages cs = map (\<lambda>c. CopyMessage (CopyDataMessage c)) cs"

text \<open>
  \<open>active d b\<close>: the data \<open>d\<close> is in the channel and \<open>b\<close> in the buffer; \<open>ended d\<close>: all of \<open>d\<close> and the
  end are in the channel; \<open>left d\<close>: either, or an end is missing.
\<close>

definition active :: "bytes \<Rightarrow> copy_in_sink \<Rightarrow> bool" where
  "active d s \<longleftrightarrow> si_state s = SinkActive \<and>
     (\<exists>cs. valid_chunks cs \<and> si_sent s = chunk_messages cs \<and> payload cs @ si_buf s = d)"

definition sent_all :: "bytes \<Rightarrow> copy_in_sink \<Rightarrow> bool" where
  "sent_all d s \<longleftrightarrow> (\<exists>cs. valid_chunks cs \<and> si_sent s = chunk_messages cs @ [CopyInDone] \<and> payload cs = d)"

definition going :: "bytes \<Rightarrow> copy_in_sink \<Rightarrow> bool" where
  "going d s \<longleftrightarrow> active d s \<or> si_state s \<noteq> SinkActive \<and> sent_all d s"

definition incomplete :: "copy_in_sink \<Rightarrow> bool" where
  "incomplete s \<longleftrightarrow> (\<exists>cs. valid_chunks cs \<and> si_sent s = chunk_messages cs)"

definition left :: "bytes \<Rightarrow> copy_in_sink \<Rightarrow> bool" where
  "left d s \<longleftrightarrow> sent_all d s \<or> incomplete s"

lemma going_left: "going d s \<Longrightarrow> left d s"
  by (auto simp: going_def left_def active_def incomplete_def)

section \<open>A logic for the polls\<close>

definition ends :: "('s \<Rightarrow> bool) \<Rightarrow> ('s \<Rightarrow> bool) \<Rightarrow> ('s \<Rightarrow> bool) \<Rightarrow> ('a, error) rresult poll \<Rightarrow> 's \<Rightarrow> bool" where
  "ends J W F p s \<longleftrightarrow> (case p of Pending \<Rightarrow> W s | Ready r \<Rightarrow> (case r of Ok _ \<Rightarrow> J s | Err _ \<Rightarrow> F s | Panic \<Rightarrow> F s))"

definition polls :: "(copy_in_sink \<Rightarrow> bool) \<Rightarrow> 'a sink_op \<Rightarrow> (copy_in_sink \<Rightarrow> bool) \<Rightarrow> (copy_in_sink \<Rightarrow> bool) \<Rightarrow> (copy_in_sink \<Rightarrow> bool) \<Rightarrow> bool" where
  "polls I m J W F \<longleftrightarrow> (\<forall>s e. I s \<longrightarrow> ends J W F (fst (m s e)) (fst (snd (m s e))))"

lemma ends_simps [simp]:
  "ends J W F Pending s = W s" "ends J W F (Ready (Ok x)) s = J s" "ends J W F (Ready (Err y)) s = F s" "ends J W F (Ready Panic) s = F s"
  by (simp_all add: ends_def)

lemma pollsD: "polls I m J W F \<Longrightarrow> I s \<Longrightarrow> m s e = (p, s', e') \<Longrightarrow> ends J W F p s'"
  unfolding polls_def by (metis fst_conv snd_conv)

lemma pollsI: "(\<And>s e p s' e'. I s \<Longrightarrow> m s e = (p, s', e') \<Longrightarrow> ends J W F p s') \<Longrightarrow> polls I m J W F"
  unfolding polls_def by (metis prod.collapse)

lemma poll_cases:
  fixes p :: "('a, 'e) rresult poll"
  obtains x where "p = Ready (Ok x)" | x where "p = Ready (Err x)" | "p = Ready Panic" | "p = Pending"
  by (cases p) (metis rresult.exhaust, blast)

lemma polls_then:
  assumes m: "polls I m J W F" and f: "\<And>x. polls J (f x) K W F"
  shows "polls I (then_ready m f) K W F"
proof (rule pollsI)
  fix s e p s' e' assume s: "I s" and r: "then_ready m f s e = (p, s', e')"
  obtain q s1 e1 where q: "m s e = (q, s1, e1)" by (cases "m s e") blast
  note m1 = pollsD [OF m s q]
  show "ends K W F p s'"
  proof (cases q rule: poll_cases)
    case (1 x)
    with r q have "f x s1 e1 = (p, s', e')" by (simp add: then_ready_def)
    with pollsD [OF f, of s1 x e1 p s' e'] m1 1 show ?thesis by simp
  qed (use r q m1 in \<open>auto simp: then_ready_def\<close>)
qed

lemma polls_weaken:
  assumes "polls I m J W F" and "\<And>s. W s \<Longrightarrow> W' s" and "\<And>s. F s \<Longrightarrow> F' s"
  shows "polls I m J W' F'"
proof (rule pollsI)
  fix s e p s' e' assume "I s" "m s e = (p, s', e')"
  from pollsD [OF assms(1) this] assms(2,3) show "ends J W' F' p s'" by (cases p rule: poll_cases) simp_all
qed

lemma polls_channel:
  assumes "\<And>s. I s \<Longrightarrow> W s" and "\<And>s. I s \<Longrightarrow> F s"
  shows "polls I channel_ready I W F" "polls I channel_flush I W F"
  using assms by (simp_all add: polls_def channel_ready_def channel_flush_def closed_unless_def split: poll.split)

lemma polls_close:
  assumes "\<And>s. I s \<Longrightarrow> W s" and "\<And>s. I s \<Longrightarrow> F s" and "\<And>s. I s \<Longrightarrow> J (s\<lparr>si_closed := True\<rparr>)"
  shows "polls I channel_close J W F"
  using assms by (simp add: polls_def channel_close_def closed_unless_def Let_def split: poll.split prod.split)

lemma polls_send_data:
  assumes "\<And>s. I s \<Longrightarrow> F s" and "\<And>s d. I s \<Longrightarrow> copy_data_new b = Ok d \<Longrightarrow> J (s\<lparr>si_sent := si_sent s @ [CopyMessage (CopyDataMessage d)]\<rparr>)"
  shows "polls I (send_data b) J W F"
  using assms
  by (cases "copy_data_new b")
    (auto simp: polls_def send_data_def then_ready_def sink_return_def channel_send_def split: list.split bool.split)

lemma polls_send_done:
  assumes "\<And>s. I s \<Longrightarrow> F s" and "\<And>s. I s \<Longrightarrow> J (s\<lparr>si_sent := si_sent s @ [CopyInDone]\<rparr>)"
  shows "polls I (channel_send CopyInDone) J W F"
  using assms by (auto simp: polls_def channel_send_def split: list.split bool.split)

section \<open>The operations\<close>

lemma chunk_messages_simps [simp]: "chunk_messages [] = []" "chunk_messages (cs @ [c]) = chunk_messages cs @ [CopyMessage (CopyDataMessage c)]"
  by (simp_all add: chunk_messages_def)

lemma payload_simps [simp]: "payload [] = []" "payload (cs @ [c]) = payload cs @ cd_buf c"
  by (simp_all add: payload_def)

lemma valid_chunks_simps [simp]: "valid_chunks []" "valid_chunks (cs @ [c]) \<longleftrightarrow> valid_chunks cs \<and> copy_data_new (cd_buf c) = Ok c"
  by (simp_all add: valid_chunks_def)

lemma copy_data_new_buf: "copy_data_new b = Ok c \<Longrightarrow> cd_buf c = b"
  by (auto simp: copy_data_new_def map_ok_eq_Ok)

text \<open>The channel holds \<open>d\<close>, the buffer is \<open>b\<close>, and a chunk of \<open>b'\<close> is sent.\<close>

definition chunked :: "bytes \<Rightarrow> copy_in_sink \<Rightarrow> bool" where
  "chunked d s \<longleftrightarrow> si_state s = SinkActive \<and> (\<exists>cs. valid_chunks cs \<and> si_sent s = chunk_messages cs \<and> payload cs = d)"

lemma active_chunked: "active d s \<longleftrightarrow> (\<exists>d'. chunked d' s \<and> d' @ si_buf s = d)"
  by (auto simp: active_def chunked_def)

lemma chunked_incomplete: "chunked d' s \<Longrightarrow> incomplete s"
  by (auto simp: chunked_def incomplete_def)

lemma active_incomplete: "active d s \<Longrightarrow> incomplete s"
  by (auto simp: active_def incomplete_def)

lemma chunked_send:
  assumes "chunked d' s" and "send_data b s e = (p, s', e')" and "si_buf s = []"
  shows "ends (\<lambda>s'. chunked (d' @ b) s' \<and> si_buf s' = []) W incomplete p s'"
proof (rule pollsD [OF polls_send_data [where I = "\<lambda>s. chunked d' s \<and> si_buf s = []" and b = b] _ assms(2)])
  fix s c assume s: "chunked d' s \<and> si_buf s = []" "copy_data_new b = Ok c"
  then obtain cs where "valid_chunks cs" "si_sent s = chunk_messages cs" "payload cs = d'" "si_state s = SinkActive"
    unfolding chunked_def by blast
  with s copy_data_new_buf [OF s(2)] show "chunked (d' @ b) (s\<lparr>si_sent := si_sent s @ [CopyMessage (CopyDataMessage c)]\<rparr>) \<and>
      si_buf (s\<lparr>si_sent := si_sent s @ [CopyMessage (CopyDataMessage c)]\<rparr>) = []"
    by (auto simp: chunked_def intro!: exI [of _ "cs @ [c]"])
qed (use assms in \<open>auto intro: chunked_incomplete\<close>)

lemma polls_send_buf:
  "polls (active d) (\<lambda>s. send_data (si_buf s) (s\<lparr>si_buf := []\<rparr>)) (\<lambda>s. active d s \<and> si_buf s = []) W incomplete"
proof (rule pollsI)
  fix s e p s' e'
  assume s: "active d s" and r: "send_data (si_buf s) (s\<lparr>si_buf := []\<rparr>) e = (p, s', e')"
  from s obtain d' where d': "chunked d' s" "d' @ si_buf s = d" by (auto simp: active_chunked)
  then have "chunked d' (s\<lparr>si_buf := []\<rparr>)" by (simp add: chunked_def)
  from chunked_send [OF this r, of W] d' show "ends (\<lambda>s. active d s \<and> si_buf s = []) W incomplete p s'"
    by (cases p rule: poll_cases) (auto simp: active_chunked)
qed

lemma polls_flush: "polls (active d) sink_poll_flush (\<lambda>s. active d s \<and> si_buf s = []) (active d) incomplete"
  unfolding sink_poll_flush_def
proof (rule polls_then)
  have f: "polls (active d) (then_ready channel_ready (\<lambda>_ s. send_data (si_buf s) (s\<lparr>si_buf := []\<rparr>)))
      (\<lambda>s. active d s \<and> si_buf s = []) (active d) incomplete"
    by (rule polls_then [OF polls_channel(1) polls_send_buf]) (auto intro: active_incomplete)
  show "polls (active d) (\<lambda>s. if si_buf s \<noteq> [] then then_ready channel_ready (\<lambda>_ s. send_data (si_buf s) (s\<lparr>si_buf := []\<rparr>)) s
      else sink_return (Ok ()) s) (\<lambda>s. active d s \<and> si_buf s = []) (active d) incomplete"
  proof (rule pollsI)
    fix s e p s' e'
    assume s: "active d s" and r: "(if si_buf s \<noteq> [] then then_ready channel_ready (\<lambda>_ s. send_data (si_buf s) (s\<lparr>si_buf := []\<rparr>)) s
      else sink_return (Ok ()) s) e = (p, s', e')"
    then show "ends (\<lambda>s. active d s \<and> si_buf s = []) (active d) incomplete p s'"
      using pollsD [OF f s] by (auto simp: sink_return_def split: if_splits)
  qed
  show "polls (\<lambda>s. active d s \<and> si_buf s = []) channel_flush (\<lambda>s. active d s \<and> si_buf s = []) (active d) incomplete"
    by (rule polls_channel) (auto intro: active_incomplete)
qed

lemma polls_start_send: "polls (active d) (sink_start_send b) (active (d @ b)) (active d') incomplete"
proof (rule pollsI)
  fix s e p s' e'
  assume s: "active d s" and r: "sink_start_send b s e = (p, s', e')"
  from s obtain d0 where d0: "chunked d0 s" "d0 @ si_buf s = d" by (auto simp: active_chunked)
  then have c: "chunked d0 (s\<lparr>si_buf := []\<rparr>)" "chunked d0 (s\<lparr>si_buf := si_buf s @ b\<rparr>)" by (simp_all add: chunked_def)
  show "ends (active (d @ b)) (active d') incomplete p s'"
  proof (cases "length b > 4096 \<or> length (si_buf s @ b) > 4096")
    case True
    then have "send_data (si_buf s @ b) (s\<lparr>si_buf := []\<rparr>) e = (p, s', e')"
      using r by (auto simp: sink_start_send_def Let_def split: if_splits)
    from chunked_send [OF c(1) this, of "active d'"] d0 show ?thesis
      by (cases p rule: poll_cases) (auto simp: active_chunked)
  next
    case False
    with r c(2) d0 show ?thesis by (auto simp: sink_start_send_def Let_def active_chunked split: if_splits)
  qed
qed

lemma polls_reading: "polls (\<lambda>s. si_state s \<noteq> SinkActive \<and> sent_all d s) finish_reading (sent_all d) (going d) (left d)"
proof (rule pollsI)
  fix s e p s' e'
  assume s: "si_state s \<noteq> SinkActive \<and> sent_all d s" and r: "finish_reading s e = (p, s', e')"
  have "si_state s' = si_state s \<and> si_sent s' = si_sent s"
    using r by (auto simp: finish_reading_def split: prod.splits poll.splits)
  with s show "ends (sent_all d) (going d) (left d) p s'"
    by (cases p rule: poll_cases) (auto simp: going_def left_def sent_all_def)
qed

lemma polls_set_state: "(\<And>s. I s \<Longrightarrow> J (s\<lparr>si_state := st\<rparr>)) \<Longrightarrow> polls I (set_state st) J W F"
  by (simp add: polls_def set_state_def)

lemma polls_closing: "polls (\<lambda>s. si_state s \<noteq> SinkActive \<and> sent_all d s) finish_closing (sent_all d) (going d) (left d)"
  unfolding finish_closing_def
proof (rule polls_then [where J = "\<lambda>s. si_state s \<noteq> SinkActive \<and> sent_all d s", OF polls_close])
  show "polls (\<lambda>s. si_state s \<noteq> SinkActive \<and> sent_all d s) (then_ready (set_state SinkReading) (\<lambda>_. finish_reading))
      (sent_all d) (going d) (left d)"
    by (rule polls_then [OF polls_set_state polls_reading]) (simp add: sent_all_def)
qed (simp_all add: going_def left_def sent_all_def)

lemma polls_active: "polls (active d) finish_active (sent_all d) (going d) (left d)"
  unfolding finish_active_def
proof (rule polls_then)
  show "polls (active d) sink_poll_flush (\<lambda>s. active d s \<and> si_buf s = []) (going d) (left d)"
    by (rule polls_weaken [OF polls_flush]) (simp_all add: going_def left_def)
  show "polls (\<lambda>s. active d s \<and> si_buf s = []) (then_ready channel_ready (\<lambda>_. then_ready (channel_send CopyInDone)
      (\<lambda>_. then_ready (set_state SinkClosing) (\<lambda>_. finish_closing)))) (sent_all d) (going d) (left d)"
  proof (rule polls_then)
    show "polls (\<lambda>s. active d s \<and> si_buf s = []) channel_ready (\<lambda>s. active d s \<and> si_buf s = []) (going d) (left d)"
      by (rule polls_channel) (auto simp: going_def left_def intro: active_incomplete)
    show "polls (\<lambda>s. active d s \<and> si_buf s = []) (then_ready (channel_send CopyInDone)
        (\<lambda>_. then_ready (set_state SinkClosing) (\<lambda>_. finish_closing))) (sent_all d) (going d) (left d)"
    proof (rule polls_then [where J = "sent_all d", OF polls_send_done])
      show "polls (sent_all d) (then_ready (set_state SinkClosing) (\<lambda>_. finish_closing)) (sent_all d) (going d) (left d)"
        by (rule polls_then [OF polls_set_state polls_closing]) (simp add: sent_all_def)
    qed (auto simp: active_def sent_all_def left_def incomplete_def)
  qed
qed

lemma polls_finish: "polls (going d) poll_finish (sent_all d) (going d) (left d)"
proof (rule pollsI)
  fix s e p s' e' assume s: "going d s" and r: "poll_finish s e = (p, s', e')"
  show "ends (sent_all d) (going d) (left d) p s'"
  proof (cases "si_state s")
    case SinkActive
    with s r show ?thesis by (intro pollsD [OF polls_active]) (auto simp: going_def poll_finish_def)
  next
    case SinkClosing
    with s r show ?thesis by (intro pollsD [OF polls_closing]) (auto simp: going_def active_def poll_finish_def)
  next
    case SinkReading
    with s r show ?thesis by (intro pollsD [OF polls_reading]) (auto simp: going_def active_def poll_finish_def)
  qed
qed

section \<open>Whole runs\<close>

lemma run_sink_data:
  "active d s \<Longrightarrow> run_sink ops s e = (ok, s', e') \<Longrightarrow> if ok then active (d @ items ops) s' else incomplete s'"
proof (induction ops s e arbitrary: d rule: run_sink.induct)
  case (1 s e)
  then show ?case by simp
next
  case (2 b ops s e)
  obtain p s1 e1 where r: "sink_start_send b s e = (p, s1, e1)" by (cases "sink_start_send b s e") blast
  from pollsD [OF polls_start_send [where d' = d] "2.prems"(1) r] have e: "ends (active (d @ b)) (active d) incomplete p s1" .
  show ?case
  proof (cases p rule: poll_cases)
    case (1 x)
    with "2.prems" r e have "active (d @ b) s1" "run_sink ops s1 e1 = (ok, s', e')" by simp_all
    from "2.IH" [OF r [symmetric] 1 refl refl this] show ?thesis by (cases ok) simp_all
  qed (use "2.prems" r e in \<open>auto dest: active_incomplete\<close>)
next
  case (3 ops s e)
  obtain p s1 e1 where r: "sink_poll_flush s e = (p, s1, e1)" by (cases "sink_poll_flush s e") blast
  from pollsD [OF polls_flush "3.prems"(1) r] have e: "ends (\<lambda>s. active d s \<and> si_buf s = []) (active d) incomplete p s1" .
  show ?case
  proof (cases p rule: poll_cases)
    case (1 x)
    with "3.prems" r e have "active d s1" "run_sink ops s1 e1 = (ok, s', e')" by simp_all
    from "3.IH"(1) [OF r [symmetric] 1 refl refl this] show ?thesis by (cases ok) simp_all
  next
    case 4
    with "3.prems" r e have "active d s1" "run_sink ops s1 e1 = (ok, s', e')" by simp_all
    from "3.IH"(2) [OF r [symmetric] 4 refl this] show ?thesis by (cases ok) simp_all
  qed (use "3.prems" r e in auto)
qed

lemma run_finish_data: "going d s \<Longrightarrow> run_finish n s e = (p, s', e') \<Longrightarrow> ends (sent_all d) (going d) (left d) p s'"
proof (induction n arbitrary: s e)
  case (Suc n)
  obtain q s1 e1 where r: "poll_finish s e = (q, s1, e1)" by (cases "poll_finish s e") blast
  note f = pollsD [OF polls_finish Suc.prems(1) r]
  show ?case
  proof (cases q)
    case Pending
    with f Suc r show ?thesis by simp
  qed (use Suc.prems r f in auto)
qed simp

lemma copy_run_data:
  assumes "copy_run ops n r e = (p, s)"
  shows "left (items ops) s" "p = Ready (Ok k) \<Longrightarrow> sent_all (items ops) s"
proof -
  obtain ok s1 e1 where 1: "run_sink ops (sink_new r) e = (ok, s1, e1)" by (cases "run_sink ops (sink_new r) e") blast
  have "active [] (sink_new r)" by (auto simp: active_def sink_new_def intro!: exI [of _ "[]"])
  from run_sink_data [OF this 1] have d: "if ok then active (items ops) s1 else incomplete s1" by (cases ok) simp_all
  obtain q s2 e2 where 2: "run_finish n s1 e1 = (q, s2, e2)" by (cases "run_finish n s1 e1") blast
  have f: "ok \<Longrightarrow> ends (sent_all (items ops)) (going (items ops)) (left (items ops)) q s2"
    using run_finish_data [OF _ 2] d by (simp add: going_def)
  have "left (items ops) s \<and> (p = Ready (Ok k) \<longrightarrow> sent_all (items ops) s)"
  proof (cases ok)
    case True
    with f 1 2 assms have "ends (sent_all (items ops)) (going (items ops)) (left (items ops)) p s" by (simp add: copy_run_def)
    then show ?thesis by (cases p rule: poll_cases) (auto simp: left_def going_def dest: active_incomplete)
  qed (use d 1 assms in \<open>auto simp: copy_run_def left_def\<close>)
  then show "left (items ops) s" "p = Ready (Ok k) \<Longrightarrow> sent_all (items ops) s" by simp_all
qed

section \<open>What the connection takes\<close>

definition done_frames :: bytes where
  "done_frames = frame_bytes CHR ''c'' [] @ frame_bytes CHR ''S'' []"

definition fail_frames :: bytes where
  "fail_frames = frame_bytes CHR ''f'' [0] @ frame_bytes CHR ''S'' []"

lemma copy_done_bytes_eq: "copy_done_bytes = Ok done_frames"
  by (simp add: copy_done_bytes_def done_frames_def wseq_def wbind_def denotes_run [OF copy_done_denotes] sync_run split_buf_def)

lemma copy_fail_bytes_eq: "copy_fail_bytes = Ok fail_frames"
proof -
  have "denotes (copy_fail []) (Ok (frame_bytes CHR ''f'' [0]))"
  proof -
    have "frame CHR ''f'' (cstr_image (as_bytes [])) = Ok (frame_bytes CHR ''f'' [0])"
      by (simp add: frame_bytes_Ok cstr_image_eq_Ok)
    with copy_fail_denotes [of "[]"] show ?thesis by simp
  qed
  then show ?thesis
    by (simp add: copy_fail_bytes_def fail_frames_def wseq_def wbind_def wunwrap_def denotes_run sync_run split_buf_def)
qed

lemma drain_chunks:
  "drain (length cs + n) (receiver_new (chunk_messages cs @ q) closed) = map CopyDataMessage cs @ drain n (receiver_new q closed)"
  by (induction cs) (simp_all add: chunk_messages_def receiver_poll_def receiver_new_def)

lemma drain_end:
  "drain (Suc (Suc n)) (receiver_new [CopyInDone] closed) = [Raw done_frames]"
  "drain (Suc (Suc n)) (receiver_new [] True) = [Raw fail_frames]"
  "drain (Suc (Suc n)) (receiver_new [] False) = []"
  by (simp_all add: receiver_poll_def receiver_new_def copy_done_bytes_eq copy_fail_bytes_eq)

text \<open>
  C9. A copy is all or nothing. Whatever items are sent, whenever the sink is flushed, however often
  \<open>finish\<close> is polled, whatever the channel answers, and wherever the user stops and drops the sink:
  the connection is given valid chunks of data and then exactly one last message. That message is
  \<open>CopyDone\<close> only if the chunks are all of the data; else it is \<open>CopyFail\<close>, and the server
  discards the copy. If \<open>finish\<close> has returned a count, it was \<open>CopyDone\<close>.
\<close>

theorem copy_in_all_or_nothing:
  "\<exists>p s cs final. copy_run ops n r e = (p, s) \<and>
     drain (length (si_sent s) + 2) (receiver_new (si_sent s) True) = map CopyDataMessage cs @ [Raw final] \<and> valid_chunks cs \<and>
     (if \<exists>k. p = Ready (Ok k) then final = done_frames \<and> payload cs = items ops
      else final = done_frames \<and> payload cs = items ops \<or> final = fail_frames)"
proof -
  obtain p s where r: "copy_run ops n r e = (p, s)" by fastforce
  have complete: ?thesis if "sent_all (items ops) s"
  proof -
    from that obtain cs where cs: "valid_chunks cs" "si_sent s = chunk_messages cs @ [CopyInDone]" "payload cs = items ops"
      unfolding sent_all_def by blast
    have "drain (length (si_sent s) + 2) (receiver_new (si_sent s) True) = map CopyDataMessage cs @ [Raw done_frames]"
      using drain_chunks [of cs 3 "[CopyInDone]" True] drain_end(1) [of 1 True]
      by (simp add: cs(2) chunk_messages_def numeral_eq_Suc)
    with r cs show ?thesis by (intro exI [of _ p] exI [of _ s] exI [of _ cs] exI [of _ done_frames]) simp
  qed
  show ?thesis
  proof (cases "sent_all (items ops) s")
    case False
    with copy_run_data [OF r] obtain cs where cs: "valid_chunks cs" "si_sent s = chunk_messages cs" and p: "\<not> (\<exists>k. p = Ready (Ok k))"
      unfolding left_def incomplete_def by blast
    have "drain (length (si_sent s) + 2) (receiver_new (si_sent s) True) = map CopyDataMessage cs @ [Raw fail_frames]"
      using drain_chunks [of cs 2 "[]" True] drain_end(2) [of 0] by (simp add: cs(2) chunk_messages_def numeral_eq_Suc)
    with r cs p show ?thesis by (intro exI [of _ p] exI [of _ s] exI [of _ cs] exI [of _ fail_frames]) simp
  qed (rule complete)
qed

section \<open>The request keeps the client's invariant\<close>

definition framed_poll :: "copy_poll \<Rightarrow> bool" where
  "framed_poll p \<longleftrightarrow> (case p of CopyMsg m \<Rightarrow> framed_message m | _ \<Rightarrow> True)"

lemma triple_copy_in:
  assumes "list_all framed_poll ps"
  shows "triple (\<lambda>_. True) (copy_in taken ps st)"
proof -
  have s: "triple (\<lambda>_. True) (send (CopyIn (CopyMsg (Raw buf) # ps)))" if "whole_frames buf" for buf
    using that assms by (intro triple_send) (simp add: framed_request_def framed_message_def framed_poll_def [abs_def])
  show ?thesis
    unfolding copy_in_def
    by (rule triple_cbind [OF triple_query_encode], rule triple_cbind [OF s], assumption)
      (intro triple_cbind [OF triple_cres_any] triple_cbind [OF triple_expect] triple_case_prod triple_cret TrueI)
qed

text \<open>What a receiver yields is framed.\<close>

lemma drained_framed:
  assumes "valid_chunks cs"
  shows "list_all framed_message (map CopyDataMessage cs @ [Raw done_frames])" "list_all framed_message (map CopyDataMessage cs @ [Raw fail_frames])"
  using assms
  by (auto simp: framed_message_def valid_chunks_def list_all_iff done_frames_def fail_frames_def
      intro!: whole_frames_append whole_frames_one)

end
