(* ===== verification/ClientCalls.thy ===== *)
theory ClientCalls
  imports TransactionSpec CopyInSpec
begin

text \<open>
  Everything a user can do with a client, as one step relation over its state, and the invariant of
  all reachable states; and what a panic in the middle of a request leaves behind.
\<close>

section \<open>The remaining operations keep the invariant\<close>

lemma triple_then: "triple (\<lambda>_. True) m \<Longrightarrow> (\<And>x. triple (\<lambda>_. True) (f x)) \<Longrightarrow> triple (\<lambda>_. True) (cbind m f)"
  by (rule triple_cbind)

lemma triple_if: "triple Q m \<Longrightarrow> triple Q n \<Longrightarrow> triple Q (if b then m else n)"
  by simp

lemma triple_option: "triple Q f \<Longrightarrow> (\<And>x. triple Q (g x)) \<Longrightarrow> triple Q (case p of None \<Rightarrow> f | Some x \<Rightarrow> g x)"
  by (simp split: option.split)

lemma triple_query_scalars:
  "triple (\<lambda>_. True) (client_query_scalar rust F ts params)" "triple (\<lambda>_. True) (client_query_opt_scalar rust F ts params)"
  "triple (\<lambda>_. True) (client_query_one_scalar rust F ts params)"
  unfolding client_query_scalar_def client_query_opt_scalar_def client_query_one_scalar_def
  by (intro triple_finishing triple_then [OF triple_query] triple_then [OF triple_cres_any] triple_if triple_option
      triple_cres_any triple_cret TrueI)+

lemma triple_client_typed:
  "triple (\<lambda>_. True) (client_query_typed q params)" "triple (\<lambda>_. True) (client_query_typed_opt q params)"
  unfolding client_query_typed_def client_query_typed_opt_def
  by (intro triple_then [OF triple_query_typed] triple_cres_any)+

lemma triple_client_one:
  "triple (\<lambda>_. True) (client_query_one ts params)" "triple (\<lambda>_. True) (client_query_typed_one q typed)"
  unfolding client_query_one_def client_query_typed_one_def
  by (intro triple_then triple_queries triple_client_typed triple_cres_any)+

lemma triple_client_simple: "triple (\<lambda>_. True) (client_simple_query q)"
  unfolding client_simple_query_def by (intro triple_then [OF triple_simple_query] triple_cres_any)

lemma triple_client_copy_in: "list_all framed_poll ps \<Longrightarrow> triple (\<lambda>_. True) (client_copy_in taken ps ts)"
  unfolding client_copy_in_def by (intro triple_finishing triple_copy_in)

lemma triple_client_query_raw: "triple (\<lambda>_. True) (client_query_raw ts params)"
  unfolding client_query_raw_def by (intro triple_finishing triple_query)

lemma triple_transaction_bind: "triple (\<lambda>_. True) (transaction_bind ts params)"
  unfolding transaction_bind_def by (intro triple_finishing triple_bind)

lemma triple_transaction_query_portal: "triple (\<lambda>_. True) (transaction_query_portal p n)"
  unfolding transaction_query_portal_def by (intro triple_then [OF triple_query_portal] triple_cres_any)

lemma triple_prepare_any: "triple (\<lambda>_. True) (prepare q types)"
  by (rule triple_weaken [OF triple_prepare]) simp

lemma triple_settings: "triple (\<lambda>_. True) clear_type_cache" "triple (\<lambda>_. True) (set_kingbase_server_settings settings)"
  unfolding clear_type_cache_def set_kingbase_server_settings_def by (intro triple_cmod; simp add: client_ok_def)+

section \<open>The reachable states\<close>

text \<open>An operation that came back, with a result or an error.\<close>

definition returns :: "'a client_op \<Rightarrow> client \<Rightarrow> client \<Rightarrow> bool" where
  "returns m cl cl' \<longleftrightarrow> fst (m cl) \<noteq> Panic \<and> cl' = snd (m cl)"

lemma triple_returns: "triple Q m \<Longrightarrow> client_ok cl \<Longrightarrow> returns m cl cl' \<Longrightarrow> client_ok cl'"
  unfolding triple_def returns_def by (cases "m cl"; cases "fst (m cl)") force+

inductive client_reaches :: "client \<Rightarrow> bool" where
  connected: "client_reaches (client_new script next_statement next_portal)"
| prepared: "client_reaches cl \<Longrightarrow> returns (prepare q types) cl cl' \<Longrightarrow> client_reaches cl'"
| queried: "client_reaches cl \<Longrightarrow> returns (client_query ts params) cl cl' \<Longrightarrow> client_reaches cl'"
| queried_opt: "client_reaches cl \<Longrightarrow> returns (client_query_opt ts params) cl cl' \<Longrightarrow> client_reaches cl'"
| queried_one: "client_reaches cl \<Longrightarrow> returns (client_query_one ts params) cl cl' \<Longrightarrow> client_reaches cl'"
| queried_typed: "client_reaches cl \<Longrightarrow> returns (client_query_typed q typed) cl cl' \<Longrightarrow> client_reaches cl'"
| queried_typed_opt: "client_reaches cl \<Longrightarrow> returns (client_query_typed_opt q typed) cl cl' \<Longrightarrow> client_reaches cl'"
| queried_typed_one: "client_reaches cl \<Longrightarrow> returns (client_query_typed_one q typed) cl cl' \<Longrightarrow> client_reaches cl'"
| queried_raw: "client_reaches cl \<Longrightarrow> returns (client_query_raw ts params) cl cl' \<Longrightarrow> client_reaches cl'"
| queried_typed_raw: "client_reaches cl \<Longrightarrow> returns (query_typed q typed) cl cl' \<Longrightarrow> client_reaches cl'"
| portal_queried_raw: "client_reaches cl \<Longrightarrow> returns (query_portal p n) cl cl' \<Longrightarrow> client_reaches cl'"
| executed: "client_reaches cl \<Longrightarrow> returns (client_execute ts params) cl cl' \<Longrightarrow> client_reaches cl'"
| executed_typed: "client_reaches cl \<Longrightarrow> returns (execute_typed q typed) cl cl' \<Longrightarrow> client_reaches cl'"
| simple_queried: "client_reaches cl \<Longrightarrow> returns (client_simple_query q) cl cl' \<Longrightarrow> client_reaches cl'"
| batch_executed: "client_reaches cl \<Longrightarrow> returns (batch_execute q) cl cl' \<Longrightarrow> client_reaches cl'"
| checked: "client_reaches cl \<Longrightarrow> returns check_connection cl cl' \<Longrightarrow> client_reaches cl'"
| copied_out: "client_reaches cl \<Longrightarrow> returns (client_copy_out ts) cl cl' \<Longrightarrow> client_reaches cl'"
| copied_in: "client_reaches cl \<Longrightarrow> list_all framed_poll ps \<Longrightarrow> returns (client_copy_in taken ps ts) cl cl' \<Longrightarrow> client_reaches cl'"
| bound: "client_reaches cl \<Longrightarrow> returns (transaction_bind ts params) cl cl' \<Longrightarrow> client_reaches cl'"
| portal_queried: "client_reaches cl \<Longrightarrow> returns (transaction_query_portal p n) cl cl' \<Longrightarrow> client_reaches cl'"
| statement_dropped: "client_reaches cl \<Longrightarrow> returns (statement_drop st) cl cl' \<Longrightarrow> client_reaches cl'"
| portal_dropped: "client_reaches cl \<Longrightarrow> returns (portal_drop p) cl cl' \<Longrightarrow> client_reaches cl'"
| transaction_started: "client_reaches cl \<Longrightarrow> returns (builder_start b) cl cl' \<Longrightarrow> client_reaches cl'"
| savepoint_set: "client_reaches cl \<Longrightarrow> returns (savepoint nm t) cl cl' \<Longrightarrow> client_reaches cl'"
| committed: "client_reaches cl \<Longrightarrow> returns (commit t) cl cl' \<Longrightarrow> client_reaches cl'"
| rolled_back: "client_reaches cl \<Longrightarrow> returns (rollback t) cl cl' \<Longrightarrow> client_reaches cl'"
| transaction_dropped: "client_reaches cl \<Longrightarrow> returns (transaction_drop t) cl cl' \<Longrightarrow> client_reaches cl'"
| cache_cleared: "client_reaches cl \<Longrightarrow> returns clear_type_cache cl cl' \<Longrightarrow> client_reaches cl'"
| closed: "client_reaches cl \<Longrightarrow> client_reaches (cl\<lparr>cl_script := []\<rparr>)"
| settings_set: "client_reaches cl \<Longrightarrow> returns (set_kingbase_server_settings settings) cl cl' \<Longrightarrow> client_reaches cl'"

lemma client_new_ok: "client_ok (client_new script m n)"
  by (simp add: client_ok_def client_new_def pred_opt_def)

lemma reaches_ok: "client_reaches cl \<Longrightarrow> client_ok cl"
proof (induction rule: client_reaches.induct)
  case (connected script m n)
  show ?case by (rule client_new_ok)
next
  case (closed cl)
  then show ?case by (simp add: client_ok_def)
qed (erule (1) triple_returns [rotated], (rule triple_prepare_any triple_queries triple_client_query_raw triple_query_typed triple_query_portal triple_client_typed triple_client_one triple_execute_typed
    triple_client_simple triple_batch_execute triple_sync [folded check_connection_def] triple_client_copy_in triple_transaction_bind
    triple_transaction_query_portal triple_drop triple_builder_start triple_transactions triple_transaction_drop triple_settings; assumption?))+



section \<open>A panic in the middle of a request\<close>

text \<open>A parameter whose conversion panics.\<close>

definition panicking :: dyn_to_sql where
  "panicking = \<lparr>dy_checked = (\<lambda>ty buf. (Panic, buf)), dy_format = (\<lambda>_. FormatBinary)\<rparr>"

text \<open>The server answers the stray \<open>Parse\<close> as well.\<close>

definition parse_answer :: "bytes list" where
  "parse_answer = [encode_all [ParseComplete, CommandComplete [], ReadyForQuery 73]]"

definition parsing :: "nat \<Rightarrow> client" where
  "parsing n = client_new (replicate n (Some parse_answer)) 0 0"

lemma parse_answer_loop: "fst (message_loop batch_body () \<lparr>rs_cur = [], rs_runs = parse_answer\<rparr>) = Err err_unexpected_message"
proof -
  let ?ms = "[ParseComplete, CommandComplete [], ReadyForQuery 73]"
  have "list_all message_wf ?ms" by (simp add: message_wf_def)
  then have "delivers \<lparr>rs_cur = [], rs_runs = parse_answer\<rparr> ?ms"
    using opened_delivers [of "[?ms]" parse_answer] by (simp add: parse_answer_def)
  from message_loop_list [OF this, of batch_body "()"] show ?thesis
    by (auto simp: message_result_def batch_body_def)
qed

text \<open>
  What a panic leaves behind. \<open>with_buf\<close> clears the shared buffer after the closure, but not
  when the closure panics, and the lock is not poisoned. When a parameter of a typed query panics
  while it is converted, the \<open>Parse\<close> message already written stays in the buffer, and the next
  request of the same client is sent with that message in front of it; the server answers it too,
  and the innocent request fails.
\<close>

theorem panic_contaminates:
  "\<exists>cl cl'. query_typed ''SELECT 7'' [(panicking, Builtin 23)] (parsing 1) = (Panic, cl) \<and>
     cl_sent cl = [] \<and> cl_buffer cl = frame_bytes CHR ''P'' (parse_payload [] ''SELECT 7'' [23]) \<and>
     batch_execute ''SELECT 1'' cl = (Err err_unexpected_message, cl') \<and>
     cl_sent cl' = [Single (Raw (frame_bytes CHR ''P'' (parse_payload [] ''SELECT 7'' [23]) @ frame_bytes CHR ''Q'' (as_bytes ''SELECT 1'' @ [0])))]"
proof -
  let ?p = "frame_bytes CHR ''P'' (parse_payload [] ''SELECT 7'' [23])"
  let ?cl = "(parsing 1)\<lparr>cl_buffer := ?p\<rparr>"
  have l: "length (parse_payload [] ''SELECT 7'' [23 :: u32]) + 4 \<le> 2147483647"
    by (simp add: parse_payload_def counted_bytes_def)
  have p: "parse [] ''SELECT 7'' [23] [] = (Ok (), ?p)"
    using parse_run [OF _ _ _ l, of "[]"] by simp
  have "query_typed ''SELECT 7'' [(panicking, Builtin 23)] (parsing 1) = (Panic, ?cl)"
    by (simp add: query_typed_def cbind_def typed_encode_def cget_def with_buf_def wseq_def wbind_def map_werr_def
        encode_bind_raw_def wres_def encode_param_with_alias_def encode_param_with_type_def panicking_def parsing_def client_new_def
        type_oid_def p)
  moreover have "batch_execute ''SELECT 1'' ?cl =
      (Err err_unexpected_message, ?cl\<lparr>cl_script := [], cl_sent := [Single (Raw (?p @ frame_bytes CHR ''Q'' (as_bytes ''SELECT 1'' @ [0])))], cl_buffer := []\<rparr>)"
    using parse_answer_loop
    by (simp add: batch_execute_def cbind_def simple_encode_def with_buf_def wseq_def wbind_def map_werr_def split_buf_def
        query_run text_ok_def send_raw_def send_def cres_def parsing_def client_new_def)
  ultimately show ?thesis by (intro exI conjI) (auto simp: parsing_def client_new_def)
qed

end
