(* ===== verification/BinaryCopy.thy ===== *)
theory BinaryCopy
  imports CopyIn
begin

text \<open>
  \<open>tokio-postgres/src/binary_copy.rs\<close>: rows written in the binary copy format through the sink of
  \<open>copy_in.rs\<close>, and rows read from a copy out stream whose every message holds one tuple.
\<close>

section \<open>Waiting for a poll\<close>

text \<open>
  \<open>.await\<close> polls until the poll is ready. A poll that is pending has taken an answer off a script or
  will be pending for ever, so as many polls as there are answers, and one, are enough.
\<close>

definition env_size :: "copy_env \<Rightarrow> nat" where
  "env_size e = length (ce_ready e) + length (ce_flush e) + length (ce_close e) + length (ce_responses e)"

fun await_fuel :: "nat \<Rightarrow> 'a sink_op \<Rightarrow> 'a sink_op" where
  "await_fuel 0 m s e = (Pending, s, e)"
| "await_fuel (Suc n) m s e =
     (case m s e of
        (Pending, s', e') \<Rightarrow> await_fuel n m s' e'
      | r \<Rightarrow> r)"

definition await :: "'a sink_op \<Rightarrow> 'a sink_op" where
  "await m s e = await_fuel (Suc (env_size e)) m s e"

text \<open>\<open>SinkExt::send\<close>: ready, start, flush.\<close>

definition sink_send :: "bytes \<Rightarrow> unit sink_op" where
  "sink_send b =
     then_ready (await sink_poll_ready) (\<lambda>_.
     then_ready (sink_start_send b) (\<lambda>_. await sink_poll_flush))"

definition sink_finish :: "u64 sink_op" where
  "sink_finish = await poll_finish"

section \<open>Writing\<close>

definition MAGIC :: bytes where
  "MAGIC = as_bytes ''PGCOPY'' @ [0x0A, 0xFF, 0x0D, 0x0A, 0]"

record binary_writer =
  bw_sink :: copy_in_sink
  bw_types :: "pg_type list"
  bw_buf :: bytes

definition writer_new :: "copy_in_sink \<Rightarrow> pg_type list \<Rightarrow> binary_writer" where
  "writer_new sink types = \<lparr>bw_sink = sink, bw_types = types, bw_buf = MAGIC @ put_i32 0 @ put_i32 0\<rparr>"

text \<open>One value: a hole for the length, the value, and the length patched in.\<close>

definition write_field :: "nat \<Rightarrow> dyn_to_sql \<Rightarrow> pg_type \<Rightarrow> (unit, error) writer" where
  "write_field i v ty buf =
     (let idx = length buf in
      case dy_checked v ty (buf @ put_i32 0) of
        (Err e, b) \<Rightarrow> (Err (err_to_sql (CauseSql e) i), b)
      | (Panic, b) \<Rightarrow> (Panic, b)
      | (Ok null, b) \<Rightarrow>
          (case (case null of
                   Yes \<Rightarrow> Ok (-1)
                 | No \<Rightarrow> if length b < idx + 4 then Panic
                         else ok_or (i32_try_from (length b - idx - 4))
                                (err_encode (IoError InvalidInput ''out of range integral type conversion attempted''))) of
             Ok len \<Rightarrow> (case write_at idx (put_i32 len) b of
                          Ok b' \<Rightarrow> (Ok (), b')
                        | Err e \<Rightarrow> (Err e, b)
                        | Panic \<Rightarrow> (Panic, b))
           | Err e \<Rightarrow> (Err e, b)
           | Panic \<Rightarrow> (Panic, b)))"

fun write_fields :: "nat \<Rightarrow> (dyn_to_sql \<times> pg_type) list \<Rightarrow> (unit, error) writer" where
  "write_fields i [] = wok ()"
| "write_fields i ((v, ty) # vs) = wseq (write_field i v ty) (write_fields (Suc i) vs)"

definition write_tuple :: "pg_type list \<Rightarrow> dyn_to_sql list \<Rightarrow> (unit, error) writer" where
  "write_tuple types values =
     wseq (put (put_i16 (of_nat (length types)))) (write_fields 0 (zip values types))"

type_synonym 'a writer_op = "binary_writer \<Rightarrow> copy_env \<Rightarrow> ('a, error) rresult poll \<times> binary_writer \<times> copy_env"

text \<open>A sink operation on the writer's sink, with the buffer split off.\<close>

definition on_sink :: "(bytes \<Rightarrow> 'a sink_op) \<Rightarrow> 'a writer_op" where
  "on_sink f w e =
     (case f (bw_buf w) (bw_sink w) e of (p, s, e') \<Rightarrow> (p, w\<lparr>bw_buf := [], bw_sink := s\<rparr>, e'))"

definition write_raw :: "dyn_to_sql list \<Rightarrow> unit writer_op" where
  "write_raw values w e =
     (if length values \<noteq> length (bw_types w) then (Ready Panic, w, e)
      else case write_tuple (bw_types w) values (bw_buf w) of
             (Ok _, b) \<Rightarrow>
               if length b > 4096 then on_sink sink_send (w\<lparr>bw_buf := b\<rparr>) e
               else (Ready (Ok ()), w\<lparr>bw_buf := b\<rparr>, e)
           | (Err x, b) \<Rightarrow> (Ready (Err x), w\<lparr>bw_buf := b\<rparr>, e)
           | (Panic, b) \<Rightarrow> (Ready Panic, w\<lparr>bw_buf := b\<rparr>, e))"

definition writer_finish :: "u64 writer_op" where
  "writer_finish w e =
     on_sink (\<lambda>b. then_ready (sink_send b) (\<lambda>_. sink_finish)) (w\<lparr>bw_buf := bw_buf w @ put_i16 (-1)\<rparr>) e"

section \<open>Reading\<close>

text \<open>The rest of a chunk stands for its cursor; the position is what has been read.\<close>

definition copy_eof :: error where
  "copy_eof = err_parse (IoError UnexpectedEof ''unexpected EOF'')"

definition check_remaining :: "bytes \<Rightarrow> nat \<Rightarrow> (unit, error) rresult" where
  "check_remaining b n = (if length b < n then Err copy_eof else Ok ())"

definition usize_of :: "'a::len word \<Rightarrow> nat" where
  "usize_of w = nat (sint w mod 2 ^ 64)"

definition read_copy_header :: "bytes \<Rightarrow> (bool \<times> bytes, error) rresult" where
  "read_copy_header b =
     rbind (check_remaining b (length MAGIC + 4 + 4)) (\<lambda>_.
     if take (length MAGIC) b \<noteq> MAGIC then Err (err_parse (IoError InvalidData ''invalid magic value''))
     else rbind (unwrap (read_i32 (drop (length MAGIC) b))) (\<lambda>(flags, b).
          rbind (unwrap (read_u32 b)) (\<lambda>(extension, b).
          rbind (check_remaining b (unat extension)) (\<lambda>_.
            Ok (bit flags 16, drop (unat extension) b)))))"

fun copy_ranges :: "nat \<Rightarrow> nat \<Rightarrow> bytes \<Rightarrow> ((nat \<times> nat) option list, error) rresult" where
  "copy_ranges size_of_chunk 0 b = Ok []"
| "copy_ranges size_of_chunk (Suc n) b =
     rbind (check_remaining b 4) (\<lambda>_.
     rbind (unwrap (read_i32 b)) (\<lambda>(len, b).
       if len = -1 then map_ok (Cons None) (copy_ranges size_of_chunk n b)
       else rbind (check_remaining b (usize_of len)) (\<lambda>_.
              map_ok (Cons (Some (size_of_chunk - length b, size_of_chunk - length b + usize_of len)))
                (copy_ranges size_of_chunk n (drop (usize_of len) b)))))"

record binary_row =
  br_buf :: bytes
  br_ranges :: "(nat \<times> nat) option list"
  br_types :: "pg_type list"

text \<open>The tuple of a chunk after its header; \<open>len += 1\<close> on an \<open>i16\<close> panics when it overflows.\<close>

definition copy_tuple :: "pg_type list \<Rightarrow> bytes \<Rightarrow> bool \<Rightarrow> bytes \<Rightarrow> (binary_row option, error) rresult" where
  "copy_tuple types chunk has_oids b =
     rbind (check_remaining b 2) (\<lambda>_.
     rbind (unwrap (read_i16 b)) (\<lambda>(len, b).
       if len = -1 then Ok None
       else if has_oids \<and> len = 0x7FFF then Panic
       else let len = (if has_oids then len + 1 else len) in
            if usize_of len \<noteq> length types
            then Err (err_parse (IoError InvalidInput (''expected '' @ show_nat (length types) @ '' values but got '' @ show_int (sint len))))
            else map_ok (\<lambda>ranges. Some \<lparr>br_buf = chunk, br_ranges = ranges, br_types = types\<rparr>)
                   (copy_ranges (length chunk) (usize_of len) b)))"

record binary_out =
  bo_responses :: responses
  bo_types :: "pg_type list"
  bo_header :: "bool option"

definition out_new :: "responses \<Rightarrow> pg_type list \<Rightarrow> binary_out" where
  "out_new r types = \<lparr>bo_responses = r, bo_types = types, bo_header = None\<rparr>"

definition out_chunk :: "bytes \<Rightarrow> binary_out \<Rightarrow> (binary_row option, error) rresult \<times> binary_out" where
  "out_chunk chunk o1 =
     (case bo_header o1 of
        Some has_oids \<Rightarrow> (copy_tuple (bo_types o1) chunk has_oids chunk, o1)
      | None \<Rightarrow>
          (case read_copy_header chunk of
             Ok (has_oids, b) \<Rightarrow> (copy_tuple (bo_types o1) chunk has_oids b, o1\<lparr>bo_header := Some has_oids\<rparr>)
           | Err e \<Rightarrow> (Err e, o1)
           | Panic \<Rightarrow> (Panic, o1)))"

definition out_next :: "binary_out \<Rightarrow> (binary_row option, error) rresult \<times> binary_out" where
  "out_next o1 =
     (case copy_out_next (bo_responses o1) of
        (Ok (Some chunk), r) \<Rightarrow> out_chunk chunk (o1\<lparr>bo_responses := r\<rparr>)
      | (Ok None, r) \<Rightarrow> (Err err_closed, o1\<lparr>bo_responses := r\<rparr>)
      | (Err e, r) \<Rightarrow> (Err e, o1\<lparr>bo_responses := r\<rparr>)
      | (Panic, r) \<Rightarrow> (Panic, o1\<lparr>bo_responses := r\<rparr>))"

definition binary_try_get :: "string \<Rightarrow> 'a from_sql \<Rightarrow> binary_row \<Rightarrow> nat \<Rightarrow> ('a, error) rresult" where
  "binary_try_get rust F r idx =
     (if idx \<ge> length (br_types r) then Err (err_column (show_nat idx))
      else let ty = br_types r ! idx in
           if \<not> fs_accepts F ty then Err (err_from_sql (CauseSql (wrong_type rust ty)) idx)
           else rbind (range_at (br_ranges r) idx) (\<lambda>range.
                rbind (slice_at (br_buf r) range) (\<lambda>raw.
                  map_err (\<lambda>e. err_from_sql (CauseSql e) idx) (from_sql_nullable F ty raw))))"

definition binary_get :: "string \<Rightarrow> 'a from_sql \<Rightarrow> binary_row \<Rightarrow> nat \<Rightarrow> ('a, 'e) rresult" where
  "binary_get rust F r idx = unwrap (binary_try_get rust F r idx)"

end
