(* ===== verification/BinaryCopySpec.thy ===== *)
theory BinaryCopySpec
  imports BinaryCopy CopyInSpec
begin

text \<open>
  The binary copy format: the writer produces exactly the file of its rows, and the reader gets
  exactly the values back from the messages a server sends such a file in.
\<close>

section \<open>The format\<close>

definition field_bytes :: "bytes option \<Rightarrow> bytes" where
  "field_bytes v = (case v of None \<Rightarrow> put_i32 (-1) | Some b \<Rightarrow> put_i32 (of_nat (length b)) @ b)"

definition tuple_bytes :: "bytes option list \<Rightarrow> bytes" where
  "tuple_bytes vs = put_i16 (of_nat (length vs)) @ concat (map field_bytes vs)"

definition file_header :: bytes where
  "file_header = MAGIC @ put_i32 0 @ put_i32 0"

definition file_trailer :: bytes where
  "file_trailer = put_i16 (-1)"

definition copy_file :: "bytes option list list \<Rightarrow> bytes" where
  "copy_file rows = file_header @ concat (map tuple_bytes rows) @ file_trailer"

definition field_fits :: "bytes option \<Rightarrow> bool" where
  "field_fits v \<longleftrightarrow> (case v of None \<Rightarrow> True | Some b \<Rightarrow> length b \<le> 2147483647)"

text \<open>A parameter that appends its value to the buffer, whatever is in it.\<close>

definition appending :: "dyn_to_sql \<Rightarrow> pg_type \<Rightarrow> bytes option \<Rightarrow> bool" where
  "appending d ty v \<longleftrightarrow>
     (\<forall>buf. dy_checked d ty buf = (case v of None \<Rightarrow> (Ok Yes, buf) | Some b \<Rightarrow> (Ok No, buf @ b)))"

section \<open>Writing\<close>

lemma write_field_run:
  assumes "appending d ty v"
  shows "write_field i d ty buf = (Ok (), out) \<longleftrightarrow> field_fits v \<and> out = buf @ field_bytes v"
proof (cases v)
  case None
  with assms show ?thesis
    by (auto simp: write_field_def appending_def field_fits_def field_bytes_def Let_def)
next
  case (Some b)
  with assms show ?thesis
    by (auto simp: write_field_def appending_def field_fits_def field_bytes_def Let_def i32_try_from_def)
qed

lemma write_fields_run:
  "list_all2 (\<lambda>dt v. appending (fst dt) (snd dt) v) dts vs \<Longrightarrow>
    write_fields i dts buf = (Ok (), out) \<longleftrightarrow> list_all field_fits vs \<and> out = buf @ concat (map field_bytes vs)"
proof (induction dts vs arbitrary: i buf rule: list_all2_induct)
  case Nil
  then show ?case by (auto simp: wok_def)
next
  case (Cons dt dts v vs)
  obtain d ty where dt: "dt = (d, ty)" by fastforce
  have "write_fields i (dt # dts) buf = (Ok (), out) \<longleftrightarrow>
      (\<exists>b. write_field i d ty buf = (Ok (), b) \<and> write_fields (Suc i) dts b = (Ok (), out))"
    by (auto simp: dt wseq_Ok)
  with Cons dt show ?case by (auto simp: write_field_run)
qed

definition row_appends :: "pg_type list \<Rightarrow> dyn_to_sql list \<Rightarrow> bytes option list \<Rightarrow> bool" where
  "row_appends types ds vs \<longleftrightarrow> length ds = length types \<and> list_all2 (\<lambda>dt v. appending (fst dt) (snd dt) v) (zip ds types) vs"

lemma write_tuple_run:
  assumes "row_appends types ds vs"
  shows "write_tuple types ds buf = (Ok (), out) \<longleftrightarrow> list_all field_fits vs \<and> out = buf @ tuple_bytes vs"
proof -
  from assms have l: "length types = length vs" by (auto simp: row_appends_def dest: list_all2_lengthD)
  have "write_tuple types ds buf = (Ok (), out) \<longleftrightarrow>
      write_fields 0 (zip ds types) (buf @ put_i16 (of_nat (length types))) = (Ok (), out)"
    by (simp add: write_tuple_def wseq_def wbind_def put_def)
  with assms l show ?thesis by (auto simp: row_appends_def write_fields_run tuple_bytes_def)
qed

section \<open>The sink below\<close>

lemma polls_await:
  assumes "polls I m J I F"
  shows "polls I (await m) J I F"
proof -
  have "ends J I F p s'" if "I s" "await_fuel n m s e = (p, s', e')" for n s e p s' e'
    using that
  proof (induction n arbitrary: s e)
    case (Suc n)
    obtain q s1 e1 where q: "m s e = (q, s1, e1)" by (cases "m s e") blast
    note k = pollsD [OF assms Suc.prems(1) q]
    show ?case
    proof (cases q)
      case Pending
      with k Suc q show ?thesis by simp
    qed (use Suc.prems k q in auto)
  qed simp
  then show ?thesis by (intro pollsI) (auto simp: await_def simp del: await_fuel.simps)
qed

lemma polls_any: "polls I m J W F \<Longrightarrow> polls I m J (\<lambda>_. True) (\<lambda>_. True)"
  by (erule polls_weaken) simp_all

lemma polls_sink_send: "polls (active d) (sink_send b) (active (d @ b)) (\<lambda>_. True) (\<lambda>_. True)"
  unfolding sink_send_def
proof (rule polls_then)
  show "polls (active d) (await sink_poll_ready) (active d) (\<lambda>_. True) (\<lambda>_. True)"
    unfolding sink_poll_ready_def
    by (rule polls_any, rule polls_await, rule polls_channel(1) [where F = "\<lambda>_. True"]) simp_all
  show "polls (active d) (then_ready (sink_start_send b) (\<lambda>_. await sink_poll_flush)) (active (d @ b)) (\<lambda>_. True) (\<lambda>_. True)"
  proof (rule polls_then [OF polls_any [OF polls_start_send]])
    have "polls (active (d @ b)) (await sink_poll_flush) (\<lambda>s. active (d @ b) s \<and> si_buf s = []) (\<lambda>_. True) (\<lambda>_. True)"
      by (rule polls_any, rule polls_await, rule polls_flush)
    then show "polls (active (d @ b)) (await sink_poll_flush) (active (d @ b)) (\<lambda>_. True) (\<lambda>_. True)"
      unfolding polls_def ends_def by (auto split: poll.splits rresult.splits)
  qed
qed

lemma polls_send_finish: "polls (active d) (then_ready (sink_send b) (\<lambda>_. sink_finish)) (sent_all (d @ b)) (\<lambda>_. True) (\<lambda>_. True)"
proof (rule polls_then [OF polls_sink_send])
  have "polls (going (d @ b)) sink_finish (sent_all (d @ b)) (\<lambda>_. True) (\<lambda>_. True)"
    unfolding sink_finish_def by (rule polls_any, rule polls_await, rule polls_finish)
  then show "polls (active (d @ b)) sink_finish (sent_all (d @ b)) (\<lambda>_. True) (\<lambda>_. True)"
    unfolding polls_def by (simp add: going_def)
qed

section \<open>The writer\<close>

fun write_rows :: "dyn_to_sql list list \<Rightarrow> unit writer_op" where
  "write_rows [] w e = (Ready (Ok ()), w, e)"
| "write_rows (r # rs) w e =
     (case write_raw r w e of
        (Ready (Ok _), w', e') \<Rightarrow> write_rows rs w' e'
      | x \<Rightarrow> x)"

definition binary_copy :: "dyn_to_sql list list \<Rightarrow> u64 writer_op" where
  "binary_copy rows w e =
     (case write_rows rows w e of
        (Ready (Ok _), w', e') \<Rightarrow> writer_finish w' e'
      | (Ready (Err x), w', e') \<Rightarrow> (Ready (Err x), w', e')
      | (Ready Panic, w', e') \<Rightarrow> (Ready Panic, w', e')
      | (Pending, w', e') \<Rightarrow> (Pending, w', e'))"

lemma binary_copy_Ok:
  assumes "binary_copy rows w e = (Ready (Ok k), w', e')"
  obtains w1 e1 where "write_rows rows w e = (Ready (Ok ()), w1, e1)" "writer_finish w1 e1 = (Ready (Ok k), w', e')"
proof -
  obtain p w1 e1 where 1: "write_rows rows w e = (p, w1, e1)" by (cases "write_rows rows w e") blast
  show thesis
  proof (cases p rule: poll_cases)
    case (1 x)
    with assms \<open>write_rows rows w e = (p, w1, e1)\<close> show ?thesis by (intro that [of w1 e1]) (simp_all add: binary_copy_def)
  qed (use assms 1 in \<open>simp_all add: binary_copy_def\<close>)
qed

text \<open>What has been written is in the sink or in the buffer.\<close>

definition written :: "pg_type list \<Rightarrow> bytes \<Rightarrow> binary_writer \<Rightarrow> bool" where
  "written types d w \<longleftrightarrow> bw_types w = types \<and> (\<exists>d1. active d1 (bw_sink w) \<and> d1 @ bw_buf w = d)"

lemma write_raw_written:
  assumes "written types d w" and "row_appends types ds vs" and "write_raw ds w e = (Ready (Ok x), w', e')"
  shows "written types (d @ tuple_bytes vs) w' \<and> list_all field_fits vs"
proof -
  obtain d1 where d1: "active d1 (bw_sink w)" "d1 @ bw_buf w = d" "bw_types w = types"
    using assms(1) unfolding written_def by blast
  have l: "length ds = length types" using assms(2) by (simp add: row_appends_def)
  obtain r b where r: "write_tuple types ds (bw_buf w) = (r, b)" by fastforce
  with assms(3) l d1(3) have "r = Ok ()" by (cases r) (auto simp: write_raw_def)
  with r write_tuple_run [OF assms(2)] have b: "list_all field_fits vs" "b = bw_buf w @ tuple_bytes vs" by auto
  show ?thesis
  proof (cases "length b > 4096")
    case True
    obtain p s1 e1 where s: "sink_send b (bw_sink w) e = (p, s1, e1)" by (cases "sink_send b (bw_sink w) e") blast
    with assms(3) l d1 r \<open>r = Ok ()\<close> True have "p = Ready (Ok x)" "w' = w\<lparr>bw_buf := [], bw_sink := s1\<rparr>"
      by (auto simp: write_raw_def on_sink_def)
    with pollsD [OF polls_sink_send d1(1) s] d1 b show ?thesis by (auto simp: written_def)
  next
    case False
    with assms(3) l d1 r \<open>r = Ok ()\<close> have "w' = w\<lparr>bw_buf := b\<rparr>" by (auto simp: write_raw_def)
    with d1 b show ?thesis by (auto simp: written_def)
  qed
qed

lemma write_rows_written:
  "list_all2 (row_appends types) rows vss \<Longrightarrow> written types d w \<Longrightarrow> write_rows rows w e = (Ready (Ok x), w', e') \<Longrightarrow>
    written types (d @ concat (map tuple_bytes vss)) w'"
proof (induction rows vss arbitrary: d w e rule: list_all2_induct)
  case Nil
  then show ?case by simp
next
  case (Cons r rows vs vss)
  obtain p w1 e1 where 1: "write_raw r w e = (p, w1, e1)" by (cases "write_raw r w e") blast
  with Cons.prems(2) obtain y where y: "p = Ready (Ok y)" "write_rows rows w1 e1 = (Ready (Ok x), w', e')"
    by (cases p rule: poll_cases) auto
  from write_raw_written [OF Cons.prems(1) Cons.hyps(1), of e y w1 e1] 1 y have "written types (d @ tuple_bytes vs) w1" by simp
  from Cons.IH [OF this y(2)] show ?case by simp
qed

text \<open>
  A binary copy is the file of its rows. When the rows are written and \<open>finish\<close> returns a count,
  what the sink has handed to the connection is, in valid chunks, exactly the file: the signature,
  the flags and the header extension, each row as the number of its fields and each field as its
  length and value or as -1, and the trailer; and then \<open>CopyDone\<close>.
\<close>

theorem binary_copy_in_exact:
  assumes "list_all2 (row_appends types) rows vss"
    and "binary_copy rows (writer_new (sink_new r) types) e = (Ready (Ok k), w, e')"
  shows "\<exists>cs. valid_chunks cs \<and> si_sent (bw_sink w) = chunk_messages cs @ [CopyInDone] \<and> payload cs = copy_file vss"
proof -
  have "active [] (sink_new r)" by (auto simp: active_def sink_new_def intro!: exI [of _ "[]"])
  then have w0: "written types file_header (writer_new (sink_new r) types)"
    by (auto simp: written_def writer_new_def file_header_def)
  from assms(2) obtain w1 e1 where 1: "write_rows rows (writer_new (sink_new r) types) e = (Ready (Ok ()), w1, e1)"
    and fin: "writer_finish w1 e1 = (Ready (Ok k), w, e')"
    by (rule binary_copy_Ok)
  from write_rows_written [OF assms(1) w0 1]
  have "written types (file_header @ concat (map tuple_bytes vss)) w1" .
  then obtain d1 where d1: "active d1 (bw_sink w1)" "d1 @ bw_buf w1 = file_header @ concat (map tuple_bytes vss)"
    unfolding written_def by (elim conjE exE) (rule that)
  let ?b = "bw_buf w1 @ put_i16 (-1)"
  obtain q s e2 where q: "then_ready (sink_send ?b) (\<lambda>_. sink_finish) (bw_sink w1) e1 = (q, s, e2)"
    by (rule prod_cases3)
  with fin have "q = Ready (Ok k)" "bw_sink w = s" by (auto simp: writer_finish_def on_sink_def)
  with pollsD [OF polls_send_finish d1(1) q] have "sent_all (d1 @ ?b) (bw_sink w)" by simp
  moreover have "d1 @ ?b = copy_file vss"
    unfolding append.assoc [symmetric] d1(2) by (simp add: copy_file_def file_trailer_def)
  ultimately show ?thesis unfolding sent_all_def by auto
qed

text \<open>A row of one field, with a connection that is always ready.\<close>

definition sample_dyn :: dyn_to_sql where
  "sample_dyn = dyn i32_to 7"

definition sample_env :: copy_env where
  "sample_env = \<lparr>ce_ready = [Ready True, Ready True, Ready True], ce_send = [True, True],
     ce_flush = [Ready True, Ready True], ce_close = [Ready True], ce_responses = [Ready ()]\<rparr>"

definition sample_answer :: responses where
  "sample_answer = \<lparr>rs_cur = encode_message (CommandComplete (as_bytes ''COPY 1'')), rs_runs = []\<rparr>"

lemma sample_row: "row_appends [INT4] [sample_dyn] [Some (put_i32 7)]"
proof -
  have "dy_checked sample_dyn INT4 buf = (Ok No, buf @ put_i32 7)" for buf
    by (simp add: sample_dyn_def dyn_def i32_to_def simple_to_def to_sql_checked_def int4_to_sql_def not_null_def wbind_def wseq_def wok_def put_def)
  then show ?thesis by (simp add: row_appends_def appending_def)
qed

lemma await_step:
  "await m s e = (case m s e of (Pending, s', e') \<Rightarrow> await_fuel (env_size e) m s' e' | r \<Rightarrow> r)"
  by (simp add: await_def)

lemma sample_data: "length b \<le> 4096 \<Longrightarrow> copy_data_new b = Ok \<lparr>cd_buf = b, cd_len = of_nat (length b + 4)\<rparr>"
  by (simp add: copy_data_new_def checked_add_usize_def i32_try_from_def)

lemma sample_send:
  "b \<noteq> [] \<Longrightarrow> length b \<le> 4096 \<Longrightarrow> sink_send b (sink_new r) sample_env =
    (Ready (Ok ()), sink_new r\<lparr>si_sent := [CopyMessage (CopyDataMessage \<lparr>cd_buf = b, cd_len = of_nat (length b + 4)\<rparr>)]\<rparr>,
     sample_env\<lparr>ce_ready := [Ready True], ce_send := [True], ce_flush := [Ready True]\<rparr>)"
  by (simp add: sink_send_def await_step then_ready_def sink_poll_ready_def channel_ready_def sink_start_send_def
      sink_poll_flush_def send_data_def channel_send_def channel_flush_def sink_return_def sample_env_def sink_new_def
      closed_unless_def sample_data next_poll_def)

lemma sample_tag: "extract_row_affected (as_bytes ''COPY 1'') = Ok 1"
proof -
  have "last_word (of_bytes (as_bytes ''COPY 1'')) = ''1''" by code_simp
  moreover have "parse_unsigned 18446744073709551615 ''1'' = Some 1"
  proof -
    have "show_nat 1 = ''1''" by (simp add: show_nat_digit) code_simp
    then show ?thesis using parse_show_nat [of 1 18446744073709551615] by simp
  qed
  ultimately have "tag_rows (as_bytes ''COPY 1'') = 1" by (simp add: tag_rows_def)
  moreover have "utf8_valid (as_bytes ''COPY 1'')" by code_simp
  ultimately show ?thesis by (simp only: extract_row_affected_iff)
qed

lemma sample_next: "\<exists>r. responses_next sample_answer = (Ok (CommandComplete (as_bytes ''COPY 1'')), r)"
proof -
  have "delivers sample_answer [CommandComplete (as_bytes ''COPY 1'')]"
    unfolding delivers_def
    by (intro exI [of _ "[[CommandComplete (as_bytes ''COPY 1'')]]"]) (simp add: sample_answer_def message_wf_def)
  from delivers_next [OF this] show ?thesis by (auto simp: message_result_def)
qed

lemma sample_finish:
  "\<exists>s e. sink_finish (sink_new sample_answer\<lparr>si_sent := ms\<rparr>)
     (sample_env\<lparr>ce_ready := [Ready True], ce_send := [True], ce_flush := [Ready True]\<rparr>) = (Ready (Ok 1), s, e)"
  using sample_next sample_tag
  by (auto simp: sink_finish_def await_step poll_finish_def finish_active_def finish_closing_def finish_reading_def
      then_ready_def sink_poll_flush_def channel_ready_def channel_flush_def channel_send_def channel_close_def set_state_def
      sink_return_def closed_unless_def sink_new_def sample_env_def next_poll_def)

lemma sample_copy: "\<exists>w e'. binary_copy [[sample_dyn]] (writer_new (sink_new sample_answer) [INT4]) sample_env = (Ready (Ok 1), w, e')"
proof -
  let ?b = "file_header @ tuple_bytes [Some (put_i32 7)]"
  let ?w = "writer_new (sink_new sample_answer) [INT4]"
  have t: "tuple_bytes [Some (put_i32 7)] = put_i16 1 @ put_i32 4 @ put_i32 7"
    by (simp add: tuple_bytes_def field_bytes_def)
  have l: "length ?b \<le> 4096" unfolding t by (simp add: file_header_def MAGIC_def)
  have "write_tuple [INT4] [sample_dyn] file_header = (Ok (), ?b)"
    by (simp only: write_tuple_run [OF sample_row]) (simp add: field_fits_def)
  then have "write_raw [sample_dyn] ?w sample_env = (Ready (Ok ()), ?w\<lparr>bw_buf := ?b\<rparr>, sample_env)"
    using l by (simp add: write_raw_def writer_new_def file_header_def)
  then have rows: "write_rows [[sample_dyn]] ?w sample_env = (Ready (Ok ()), ?w\<lparr>bw_buf := ?b\<rparr>, sample_env)" by simp
  have "\<exists>s e. then_ready (sink_send (?b @ put_i16 (-1))) (\<lambda>_. sink_finish) (sink_new sample_answer) sample_env = (Ready (Ok 1), s, e)"
    using sample_finish sample_send [of "?b @ put_i16 (-1)" sample_answer] l
    by (simp add: then_ready_def t file_header_def MAGIC_def)
  then obtain s e where "writer_finish (?w\<lparr>bw_buf := ?b\<rparr>) sample_env = (Ready (Ok 1), ?w\<lparr>bw_buf := [], bw_sink := s\<rparr>, e)"
    by (auto simp: writer_finish_def on_sink_def writer_new_def)
  with rows show ?thesis by (simp only: binary_copy_def) simp
qed

theorem binary_copy_in_exact_witness:
  "\<exists>w e'. binary_copy [[sample_dyn]] (writer_new (sink_new sample_answer) [INT4]) sample_env = (Ready (Ok 1), w, e') \<and>
     (\<exists>cs. valid_chunks cs \<and> si_sent (bw_sink w) = chunk_messages cs @ [CopyInDone] \<and> payload cs = copy_file [[Some (put_i32 7)]])"
proof -
  obtain w e' where w: "binary_copy [[sample_dyn]] (writer_new (sink_new sample_answer) [INT4]) sample_env = (Ready (Ok 1), w, e')"
    using sample_copy by blast
  moreover have "list_all2 (row_appends [INT4]) [[sample_dyn]] [[Some (put_i32 7)]]" by (simp add: sample_row)
  ultimately show ?thesis using binary_copy_in_exact by blast
qed

section \<open>Reading\<close>

lemma check_remaining_Ok [simp]: "n \<le> length b \<Longrightarrow> check_remaining b n = Ok ()"
  by (simp add: check_remaining_def)

definition field_cell :: "bytes option \<Rightarrow> cell" where
  "field_cell v = (case v of None \<Rightarrow> (-1, []) | Some b \<Rightarrow> (of_nat (length b), b))"

lemma usize_of_nat32: "n \<le> 2147483647 \<Longrightarrow> usize_of (of_nat n :: i32) = n"
  by (simp add: usize_of_def i32_len_signed)

lemma sint_neg1: "sint (-1 :: 'a::len word) = -1"
  by (simp add: signed_minus_1)

lemma field_cells:
  assumes "field_fits v"
  shows "cell_bytes (field_cell v) = field_bytes v" "cell_value (field_cell v) = v" "cell_ok (field_cell v)"
  using assms
  by (auto simp: field_cell_def cell_bytes_def field_bytes_def cell_value_def cell_ok_def field_fits_def sint_neg1
      i32_len_signed unsigned_of_nat take_bit_nat_eq_self split: option.split)

lemma of_nat_not_neg1: "n \<le> 2147483647 \<Longrightarrow> (of_nat n :: i32) \<noteq> -1"
  by (metis i32_len_signed sint_neg1 of_nat_0_le_iff not_one_le_zero neg_0_le_iff_le)

lemma unwrap_read_i32 [simp]: "unwrap (read_i32 (put_i32 w @ b)) = Ok (w, b)" "unwrap (read_i32 (put_i32 w)) = Ok (w, [])"
  using read_put_word [of 4 w b] read_put_word [of 4 w "[]"] by simp_all

lemma unwrap_read_i16 [simp]: "unwrap (read_i16 (put_i16 w @ b)) = Ok (w, b)" "unwrap (read_i16 (put_i16 w)) = Ok (w, [])"
  using read_put_word [of 2 w b] read_put_word [of 2 w "[]"] by simp_all

lemma copy_ranges_cells:
  "list_all field_fits vs \<Longrightarrow>
    copy_ranges (k + length (concat (map field_bytes vs))) (length vs) (concat (map field_bytes vs)) = Ok (cell_ranges k (map field_cell vs))"
proof (induction vs arbitrary: k)
  case (Cons v vs)
  let ?r = "concat (map field_bytes vs)"
  have fit: "field_fits v" "list_all field_fits vs" using Cons.prems by simp_all
  show ?case
  proof (cases v)
    case None
    with Cons.IH [OF fit(2), of "k + 4"] show ?thesis
      by (simp add: field_bytes_def field_cell_def sint_neg1 add.assoc)
  next
    case (Some b)
    then have b: "length b \<le> 2147483647" using fit(1) by (simp add: field_fits_def)
    from Cons.IH [OF fit(2), of "k + 4 + length b"] Some b show ?thesis
      by (simp add: field_bytes_def field_cell_def of_nat_not_neg1 usize_of_nat32 i32_len_signed add.assoc)
  qed
qed simp

text \<open>The raw value of a field.\<close>

definition binary_raw :: "binary_row \<Rightarrow> nat \<Rightarrow> (bytes option, error) rresult" where
  "binary_raw r i = rbind (range_at (br_ranges r) i) (slice_at (br_buf r))"

definition holds_values :: "pg_type list \<Rightarrow> bytes option list \<Rightarrow> binary_row \<Rightarrow> bool" where
  "holds_values types vs r \<longleftrightarrow> br_types r = types \<and> (\<forall>i<length vs. binary_raw r i = Ok (vs ! i))"

lemma sint_nat16: "n \<le> 32767 \<Longrightarrow> sint (of_nat n :: i16) = int n"
  by (simp add: signed_of_nat signed_take_bit_int_eq_self)

lemma usize_of_nat16: "n \<le> 32767 \<Longrightarrow> usize_of (of_nat n :: i16) = n"
  by (simp add: usize_of_def sint_nat16)

lemma of_nat16_not_neg1: "n \<le> 32767 \<Longrightarrow> (of_nat n :: i16) \<noteq> -1"
  by (metis sint_nat16 sint_neg1 of_nat_0_le_iff not_one_le_zero neg_0_le_iff_le)

lemma cells_of_fields:
  "list_all field_fits vs \<Longrightarrow>
    list_all cell_ok (map field_cell vs) \<and> concat (map cell_bytes (map field_cell vs)) = concat (map field_bytes vs) \<and>
    map cell_value (map field_cell vs) = vs"
  by (induction vs) (simp_all add: field_cells)

text \<open>A row of the table: its arity is the arity of the types, and its fields fit their length fields.\<close>

definition row_fits :: "pg_type list \<Rightarrow> bytes option list \<Rightarrow> bool" where
  "row_fits types vs \<longleftrightarrow> length vs = length types \<and> list_all field_fits vs"

lemma cell_ranges_length: "length (cell_ranges k cs) = length cs"
  by (induction cs arbitrary: k) simp_all

lemma copy_tuple_row:
  assumes "row_fits types vs" and "length types \<le> 32767"
  shows "\<exists>r. copy_tuple types (pre @ tuple_bytes vs) False (tuple_bytes vs) = Ok (Some r) \<and> holds_values types vs r"
proof -
  let ?cs = "map field_cell vs"
  let ?w = "of_nat (length vs) :: i16"
  let ?pre = "pre @ put_i16 ?w"
  let ?chunk = "pre @ tuple_bytes vs"
  from assms have l: "length vs = length types" "length vs \<le> 32767" and fit: "list_all field_fits vs"
    by (simp_all add: row_fits_def)
  have cells: "list_all cell_ok ?cs" "concat (map cell_bytes ?cs) = concat (map field_bytes vs)" "map cell_value ?cs = vs"
    using cells_of_fields [OF fit] by blast+
  have chunk: "?chunk = ?pre @ concat (map cell_bytes ?cs)"
    unfolding cells(2) by (simp add: tuple_bytes_def)
  have len: "length ?chunk = length ?pre + length (concat (map field_bytes vs))"
    by (simp add: tuple_bytes_def)
  define r where "r = \<lparr>br_buf = ?chunk, br_ranges = cell_ranges (length ?pre) ?cs, br_types = types\<rparr>"
  have "copy_ranges (length ?chunk) (length types) (concat (map field_bytes vs)) = Ok (cell_ranges (length ?pre) ?cs)"
    unfolding len l(1) [symmetric] by (rule copy_ranges_cells [OF fit])
  then have "copy_tuple types ?chunk False (tuple_bytes vs) = Ok (Some r)"
    using l by (simp add: copy_tuple_def tuple_bytes_def of_nat16_not_neg1 usize_of_nat16 r_def)
  moreover have "binary_raw r i = Ok (vs ! i)" if i: "i < length vs" for i
  proof -
    have n: "i < length (br_ranges r)" using i by (simp add: r_def cell_ranges_length)
    have "range_ok ?chunk (br_ranges r ! i)" and "slice_range ?chunk (br_ranges r ! i) = vs ! i"
      using ranges_within [OF cells(1), of ?pre] arg_cong [OF ranges_slice [OF cells(1), of ?pre], of "\<lambda>xs. xs ! i"] n i
      unfolding chunk [symmetric] cells(3) by (simp_all add: r_def list_all_length)
    with n show ?thesis by (simp add: binary_raw_def range_at_def range_ok_slice) (simp add: r_def range_ok_slice)
  qed
  ultimately show ?thesis by (auto simp: holds_values_def r_def)
qed

lemma read_header: "read_copy_header (file_header @ b) = Ok (False, b)"
  by (simp add: read_copy_header_def file_header_def MAGIC_def)

lemma copy_tuple_trailer: "copy_tuple types chunk h file_trailer = Ok None"
  by (simp add: copy_tuple_def file_trailer_def)

lemma binary_try_get_holds:
  assumes "holds_values types vs r" and "length vs = length types" and "i < length types" and "fs_accepts F (types ! i)"
  shows "binary_try_get rust F r i = map_err (\<lambda>e. err_from_sql (CauseSql e) i) (from_sql_nullable F (types ! i) (vs ! i))"
proof -
  have t: "br_types r = types" and "binary_raw r i = Ok (vs ! i)" using assms by (simp_all add: holds_values_def)
  then obtain range where "range_at (br_ranges r) i = (Ok range :: (_, error) rresult)" "slice_at (br_buf r) range = (Ok (vs ! i) :: (_, error) rresult)"
    by (auto simp: binary_raw_def)
  with t assms show ?thesis by (simp add: binary_try_get_def)
qed

text \<open>
  The messages a server answers \<open>COPY ... TO STDOUT (FORMAT binary)\<close> with: the header in front of
  the first message, one tuple in each, and the trailer in one of its own.
\<close>

definition server_chunks :: "bytes option list list \<Rightarrow> bytes list" where
  "server_chunks rows =
     (case map tuple_bytes rows @ [file_trailer] of
        [] \<Rightarrow> []
      | t # ts \<Rightarrow> (file_header @ t) # ts)"

lemma server_chunks_file: "concat (server_chunks rows) = copy_file rows"
  by (cases rows) (simp_all add: server_chunks_def copy_file_def)

text \<open>Polling the stream until it ends: at most so many rows.\<close>

fun out_rows :: "nat \<Rightarrow> binary_out \<Rightarrow> (binary_row list, error) rresult option" where
  "out_rows 0 o1 = None"
| "out_rows (Suc n) o1 =
     (case out_next o1 of
        (Ok None, o2) \<Rightarrow> Some (Ok [])
      | (Ok (Some r), o2) \<Rightarrow> map_option (map_ok (Cons r)) (out_rows n o2)
      | (Err e, o2) \<Rightarrow> Some (Err e)
      | (Panic, o2) \<Rightarrow> Some Panic)"

lemma out_next_chunk:
  assumes "delivers (bo_responses o1) (CopyData chunk # ms)"
  obtains r where "out_next o1 = out_chunk chunk (o1\<lparr>bo_responses := r\<rparr>)" "delivers r ms"
proof -
  obtain r where r: "responses_next (bo_responses o1) = (Ok (CopyData chunk), r)" "delivers r ms"
    using delivers_next [OF assms] by (auto simp: message_result_def)
  then show thesis by (intro that [of r]) (simp_all add: out_next_def copy_out_next_def)
qed

lemma out_rows_tuples:
  "list_all (row_fits types) vss \<Longrightarrow> length types \<le> 32767 \<Longrightarrow> bo_types o1 = types \<Longrightarrow> bo_header o1 = Some False \<Longrightarrow>
    delivers (bo_responses o1) (map CopyData (map tuple_bytes vss @ [file_trailer]) @ ms) \<Longrightarrow>
    \<exists>rows. out_rows (Suc (length vss)) o1 = Some (Ok rows) \<and> list_all2 (holds_values types) vss rows"
proof (induction vss arbitrary: o1)
  case Nil
  then have "delivers (bo_responses o1) (CopyData file_trailer # ms)" by simp
  then obtain r where "out_next o1 = out_chunk file_trailer (o1\<lparr>bo_responses := r\<rparr>)" by (rule out_next_chunk)
  with Nil show ?case by (simp add: out_chunk_def copy_tuple_trailer)
next
  case (Cons vs vss)
  let ?ms = "map CopyData (map tuple_bytes vss @ [file_trailer]) @ ms"
  have fit: "row_fits types vs" "list_all (row_fits types) vss" using Cons.prems(1) by simp_all
  from Cons.prems(5) have "delivers (bo_responses o1) (CopyData (tuple_bytes vs) # ?ms)" by simp
  then obtain r where r: "out_next o1 = out_chunk (tuple_bytes vs) (o1\<lparr>bo_responses := r\<rparr>)" "delivers r ?ms"
    by (rule out_next_chunk)
  let ?o = "o1\<lparr>bo_responses := r\<rparr>"
  obtain row where row: "copy_tuple types (tuple_bytes vs) False (tuple_bytes vs) = Ok (Some row)" "holds_values types vs row"
    using copy_tuple_row [OF fit(1) Cons.prems(2), of "[]"] unfolding append_Nil by (elim exE conjE) (rule that)
  have step: "out_next o1 = (Ok (Some row), ?o)"
    using row(1) Cons.prems(3,4) by (simp add: r(1) out_chunk_def)
  have "delivers (bo_responses ?o) ?ms" using r(2) by simp
  then obtain rows where "out_rows (Suc (length vss)) ?o = Some (Ok rows)" "list_all2 (holds_values types) vss rows"
    using Cons.IH [OF fit(2) Cons.prems(2), of ?o] Cons.prems(3,4) by auto
  with step row(2) show ?case by (intro exI [of _ "row # rows"]) (simp only: out_rows.simps list.size, simp)
qed

lemma out_rows_server:
  assumes "list_all (row_fits types) vss" and "length types \<le> 32767"
    and "delivers r (map CopyData (server_chunks vss) @ ms)"
  shows "\<exists>rows. out_rows (Suc (length vss)) (out_new r types) = Some (Ok rows) \<and> list_all2 (holds_values types) vss rows"
proof (cases vss)
  case Nil
  let ?c = "file_header @ file_trailer"
  from assms(3) Nil have "delivers (bo_responses (out_new r types)) (CopyData ?c # ms)"
    by (simp add: server_chunks_def out_new_def)
  then obtain r' where "out_next (out_new r types) = out_chunk ?c (out_new r types\<lparr>bo_responses := r'\<rparr>)" by (rule out_next_chunk)
  with Nil show ?thesis by (simp add: out_chunk_def out_new_def read_header copy_tuple_trailer)
next
  case (Cons vs vss')
  let ?c = "file_header @ tuple_bytes vs"
  let ?ms = "map CopyData (map tuple_bytes vss' @ [file_trailer]) @ ms"
  have fit: "row_fits types vs" "list_all (row_fits types) vss'" using assms(1) Cons by simp_all
  from assms(3) Cons have "delivers (bo_responses (out_new r types)) (CopyData ?c # ?ms)"
    by (simp add: server_chunks_def out_new_def)
  then obtain r' where r': "out_next (out_new r types) = out_chunk ?c (out_new r types\<lparr>bo_responses := r'\<rparr>)" "delivers r' ?ms"
    by (rule out_next_chunk)
  obtain row where row: "copy_tuple types ?c False (tuple_bytes vs) = Ok (Some row)" "holds_values types vs row"
    using copy_tuple_row [OF fit(1) assms(2), of file_header] by (elim exE conjE) (rule that)
  let ?o = "out_new r types\<lparr>bo_responses := r', bo_header := Some False\<rparr>"
  have step: "out_next (out_new r types) = (Ok (Some row), ?o)"
    unfolding r'(1) using row(1) by (simp add: out_chunk_def out_new_def read_header)
  have "delivers (bo_responses ?o) ?ms" using r'(2) by simp
  then obtain rows where "out_rows (Suc (length vss')) ?o = Some (Ok rows)" "list_all2 (holds_values types) vss' rows"
    using out_rows_tuples [OF fit(2) assms(2), of ?o] by (auto simp: out_new_def)
  with step row(2) Cons show ?thesis by (intro exI [of _ "row # rows"]) (simp only: out_rows.simps list.size, simp)
qed

text \<open>
  C26. Reading a binary copy gives the values back. The messages together are exactly the file the
  writer makes of the rows; and when the connection delivers them, in whatever pieces the codec cut
  them, polling the stream gives as many rows as were sent and then ends, and every getter decodes,
  with the type given for its column, exactly the value the row was written with, \<open>NULL\<close>s included.
\<close>

theorem binary_copy_roundtrip:
  assumes "list_all (row_fits types) vss" and "length types \<le> 32767"
    and "delivers r (map CopyData (server_chunks vss) @ ms)"
  shows "concat (server_chunks vss) = copy_file vss \<and>
    (\<exists>rows. out_rows (Suc (length vss)) (out_new r types) = Some (Ok rows) \<and> length rows = length vss \<and>
      (\<forall>k<length vss. \<forall>i<length types. fs_accepts F (types ! i) \<longrightarrow>
         binary_try_get rust F (rows ! k) i =
           map_err (\<lambda>e. err_from_sql (CauseSql e) i) (from_sql_nullable F (types ! i) (vss ! k ! i))))"
proof -
  obtain rows where rows: "out_rows (Suc (length vss)) (out_new r types) = Some (Ok rows)" "list_all2 (holds_values types) vss rows"
    using out_rows_server [OF assms] by blast
  have "length (vss ! k) = length types" if "k < length vss" for k
    using assms(1) that by (simp add: list_all_length row_fits_def)
  with rows(2) have "binary_try_get rust F (rows ! k) i =
      map_err (\<lambda>e. err_from_sql (CauseSql e) i) (from_sql_nullable F (types ! i) (vss ! k ! i))"
    if "k < length vss" "i < length types" "fs_accepts F (types ! i)" for k i
    using that binary_try_get_holds [of types "vss ! k" "rows ! k" i F rust] by (simp add: list_all2_conv_all_nth)
  with rows show ?thesis by (auto simp: server_chunks_file dest: list_all2_lengthD)
qed

theorem binary_copy_roundtrip_witness:
  "\<exists>rows. out_rows 2 (out_new \<lparr>rs_cur = encode_all (map CopyData (server_chunks [[Some (put_i32 7), None]])), rs_runs = []\<rparr> [INT4, TEXT]) =
       Some (Ok rows) \<and> length rows = 1 \<and> binary_try_get ''i32'' i32_from (rows ! 0) 0 = Ok 7"
proof -
  let ?vss = "[[Some (put_i32 7), None]] :: bytes option list list"
  let ?r = "\<lparr>rs_cur = encode_all (map CopyData (server_chunks ?vss)), rs_runs = []\<rparr>"
  have fits: "list_all (row_fits [INT4, TEXT]) ?vss" by (simp add: row_fits_def field_fits_def)
  have "delivers ?r (map CopyData (server_chunks ?vss) @ [])"
    unfolding delivers_def
    by (intro exI [of _ "[map CopyData (server_chunks ?vss)]"])
      (simp add: server_chunks_def message_wf_def tuple_bytes_def field_bytes_def file_header_def file_trailer_def MAGIC_def)
  from binary_copy_roundtrip [OF fits _ this, of i32_from "''i32''"]
  obtain rows where rows: "out_rows 2 (out_new ?r [INT4, TEXT]) = Some (Ok rows)" "length rows = 1"
    and get: "fs_accepts i32_from INT4 \<Longrightarrow>
      binary_try_get ''i32'' i32_from (rows ! 0) 0 = map_err (\<lambda>e. err_from_sql (CauseSql e) 0) (from_sql_nullable i32_from INT4 (Some (put_i32 7)))"
    by (auto simp: numeral_2_eq_2)
  have "fs_accepts i32_from INT4" and "from_sql_nullable i32_from INT4 (Some (put_i32 7)) = Ok 7"
    using read_put_word [of 4 "7 :: i32" "[]"]
    by (simp_all add: i32_from_def simple_from_def from_sql_nullable_def int4_from_sql_def whole_value_def)
  with rows get show ?thesis by auto
qed

end
