(* ===== verification/Config.thy ===== *)
theory Config
  imports ConnectTls Kingbase
begin

text \<open>
  \<open>tokio-postgres/src/config.rs\<close> and \<open>keepalive.rs\<close>: the configuration of a connection, its
  options, and the two formats of connection strings. The percent decoding of the
  \<open>percent_encoding\<close> crate is an argument of the URL parser; the standard library's parser of IP
  addresses is modelled first.
\<close>

section \<open>IP addresses as texts\<close>

text \<open>\<open>core::net::parser\<close>: a reader returns the value and the rest, or fails without moving.\<close>

type_synonym 'a ip_reader = "str \<Rightarrow> ('a \<times> str) option"

definition to_digit :: "nat \<Rightarrow> char \<Rightarrow> nat option" where
  "to_digit radix c =
     Option.bind (hex_value c) (\<lambda>v. if v < radix then Some v else None)"

definition read_number :: "nat \<Rightarrow> nat \<Rightarrow> bool \<Rightarrow> nat \<Rightarrow> nat ip_reader" where
  "read_number radix max_digits allow_zero_prefix mx s =
     (let is = (\<lambda>c. to_digit radix c \<noteq> None);
          ds = takeWhile is s;
          v = foldl (\<lambda>a c. radix * a + the (to_digit radix c)) 0 ds
      in if ds = [] \<or> length ds > max_digits \<or> v > mx then None
         else if \<not> allow_zero_prefix \<and> hd ds = CHR ''0'' \<and> length ds > 1 then None
         else Some (v, dropWhile is s))"

definition read_separator :: "char \<Rightarrow> nat \<Rightarrow> 'a ip_reader \<Rightarrow> 'a ip_reader" where
  "read_separator sep index inner s =
     (if index > 0 then (case s of c # r \<Rightarrow> if c = sep then inner r else None | [] \<Rightarrow> None) else inner s)"

fun read_octets :: "nat \<Rightarrow> nat \<Rightarrow> bytes ip_reader" where
  "read_octets 0 i s = Some ([], s)"
| "read_octets (Suc n) i s =
     (case read_separator CHR ''.'' i (read_number 10 3 False 255) s of
        None \<Rightarrow> None
      | Some (v, r) \<Rightarrow> map_option (\<lambda>(vs, r). (of_nat v # vs, r)) (read_octets n (Suc i) r))"

definition read_ipv4 :: "bytes ip_reader" where
  "read_ipv4 = read_octets 4 0"

text \<open>At most \<open>n\<close> more groups from the one with the index \<open>i\<close>, and whether an IPv4 address ended them.\<close>

fun read_groups :: "nat \<Rightarrow> nat \<Rightarrow> str \<Rightarrow> (bytes \<times> bool) \<times> str" where
  "read_groups 0 i s = (([], False), s)"
| "read_groups (Suc n) i s =
     (case (if n > 0 then read_separator CHR '':'' i read_ipv4 s else None) of
        Some (v4, r) \<Rightarrow> ((v4, True), r)
      | None \<Rightarrow>
          (case read_separator CHR '':'' i (read_number 16 4 True 65535) s of
             Some (g, r) \<Rightarrow>
               (case read_groups n (Suc i) r of ((gs, v4), r) \<Rightarrow> ((put_u16 (of_nat g) @ gs, v4), r))
           | None \<Rightarrow> (([], False), s)))"

definition read_ipv6 :: "bytes ip_reader" where
  "read_ipv6 s =
     (case read_groups 8 0 s of
        ((head, v4), r) \<Rightarrow>
          if length head = 16 then Some (head, r)
          else if v4 then None
          else if take 2 r \<noteq> ''::'' then None
          else (case read_groups (8 - (length head div 2 + 1)) 0 (drop 2 r) of
                  ((tail, _), r) \<Rightarrow> Some (head @ replicate (16 - length head - length tail) 0 @ tail, r)))"

definition ip_from_str :: "str \<Rightarrow> ip_addr option" where
  "ip_from_str s =
     (case read_ipv4 s of
        Some (b, r) \<Rightarrow> if r = [] then Some (V4 b) else None
      | None \<Rightarrow> (case read_ipv6 s of Some (b, r) \<Rightarrow> if r = [] then Some (V6 b) else None | None \<Rightarrow> None))"

section \<open>The configuration\<close>

datatype target_session_attrs = Any | ReadWrite | ReadOnly
datatype channel_binding_mode = CbDisable | CbPrefer | CbRequire
datatype load_balance_hosts = LbDisable | LbRandom
datatype host = Tcp str | Unix bytes

record keepalive_config =
  ka_idle :: nat
  ka_interval :: "nat option"
  ka_retries :: "u32 option"

text \<open>Durations are in whole seconds, as the options give them.\<close>

record config =
  cf_user :: "str option"
  cf_password :: "bytes option"
  cf_dbname :: "str option"
  cf_options :: "str option"
  cf_application_name :: "str option"
  cf_ssl_mode :: ssl_mode
  cf_ssl_negotiation :: ssl_negotiation
  cf_host :: "host list"
  cf_hostaddr :: "ip_addr list"
  cf_port :: "u16 list"
  cf_connect_timeout :: "nat option"
  cf_tcp_user_timeout :: "nat option"
  cf_keepalives :: bool
  cf_keepalive_config :: keepalive_config
  cf_target_session_attrs :: target_session_attrs
  cf_channel_binding :: channel_binding_mode
  cf_load_balance_hosts :: load_balance_hosts

definition config_new :: config where
  "config_new =
     \<lparr>cf_user = None, cf_password = None, cf_dbname = None, cf_options = None, cf_application_name = None,
      cf_ssl_mode = Prefer, cf_ssl_negotiation = Postgres, cf_host = [], cf_hostaddr = [], cf_port = [],
      cf_connect_timeout = None, cf_tcp_user_timeout = None, cf_keepalives = True,
      cf_keepalive_config = \<lparr>ka_idle = 2 * 60 * 60, ka_interval = None, ka_retries = None\<rparr>,
      cf_target_session_attrs = Any, cf_channel_binding = CbPrefer, cf_load_balance_hosts = LbDisable\<rparr>"

definition set_user :: "str \<Rightarrow> config \<Rightarrow> config" where "set_user v c = c\<lparr>cf_user := Some v\<rparr>"
definition set_password :: "bytes \<Rightarrow> config \<Rightarrow> config" where "set_password v c = c\<lparr>cf_password := Some v\<rparr>"
definition set_dbname :: "str \<Rightarrow> config \<Rightarrow> config" where "set_dbname v c = c\<lparr>cf_dbname := Some v\<rparr>"
definition set_options :: "str \<Rightarrow> config \<Rightarrow> config" where "set_options v c = c\<lparr>cf_options := Some v\<rparr>"

definition set_application_name :: "str \<Rightarrow> config \<Rightarrow> config" where
  "set_application_name v c = c\<lparr>cf_application_name := Some v\<rparr>"

definition host_path :: "bytes \<Rightarrow> config \<Rightarrow> config" where
  "host_path v c = c\<lparr>cf_host := cf_host c @ [Unix v]\<rparr>"

definition add_host :: "str \<Rightarrow> config \<Rightarrow> config" where
  "add_host h c =
     (if take 1 h = ''/'' then host_path (as_bytes h) c else c\<lparr>cf_host := cf_host c @ [Tcp h]\<rparr>)"

definition add_hostaddr :: "ip_addr \<Rightarrow> config \<Rightarrow> config" where
  "add_hostaddr v c = c\<lparr>cf_hostaddr := cf_hostaddr c @ [v]\<rparr>"

definition add_port :: "u16 \<Rightarrow> config \<Rightarrow> config" where "add_port v c = c\<lparr>cf_port := cf_port c @ [v]\<rparr>"

definition set_keepalive :: "(keepalive_config \<Rightarrow> keepalive_config) \<Rightarrow> config \<Rightarrow> config" where
  "set_keepalive f c = c\<lparr>cf_keepalive_config := f (cf_keepalive_config c)\<rparr>"

definition set_ssl_mode :: "ssl_mode \<Rightarrow> config \<Rightarrow> config" where "set_ssl_mode v c = c\<lparr>cf_ssl_mode := v\<rparr>"

definition set_ssl_negotiation :: "ssl_negotiation \<Rightarrow> config \<Rightarrow> config" where
  "set_ssl_negotiation v c = c\<lparr>cf_ssl_negotiation := v\<rparr>"

definition set_connect_timeout :: "nat \<Rightarrow> config \<Rightarrow> config" where
  "set_connect_timeout v c = c\<lparr>cf_connect_timeout := Some v\<rparr>"

definition set_tcp_user_timeout :: "nat \<Rightarrow> config \<Rightarrow> config" where
  "set_tcp_user_timeout v c = c\<lparr>cf_tcp_user_timeout := Some v\<rparr>"

definition set_keepalives :: "bool \<Rightarrow> config \<Rightarrow> config" where "set_keepalives v c = c\<lparr>cf_keepalives := v\<rparr>"

definition set_keepalives_idle :: "nat \<Rightarrow> config \<Rightarrow> config" where
  "set_keepalives_idle v = set_keepalive (\<lambda>k. k\<lparr>ka_idle := v\<rparr>)"

definition set_keepalives_interval :: "nat \<Rightarrow> config \<Rightarrow> config" where
  "set_keepalives_interval v = set_keepalive (\<lambda>k. k\<lparr>ka_interval := Some v\<rparr>)"

definition set_keepalives_retries :: "u32 \<Rightarrow> config \<Rightarrow> config" where
  "set_keepalives_retries v = set_keepalive (\<lambda>k. k\<lparr>ka_retries := Some v\<rparr>)"

definition set_target_session_attrs :: "target_session_attrs \<Rightarrow> config \<Rightarrow> config" where
  "set_target_session_attrs v c = c\<lparr>cf_target_session_attrs := v\<rparr>"

definition set_channel_binding :: "channel_binding_mode \<Rightarrow> config \<Rightarrow> config" where
  "set_channel_binding v c = c\<lparr>cf_channel_binding := v\<rparr>"

definition set_load_balance_hosts :: "load_balance_hosts \<Rightarrow> config \<Rightarrow> config" where
  "set_load_balance_hosts v c = c\<lparr>cf_load_balance_hosts := v\<rparr>"

section \<open>Options by name\<close>

definition invalid_value :: "str \<Rightarrow> error" where
  "invalid_value nm = err_config_parse (''invalid value for option `'' @ nm @ ''`'')"

definition unknown_option :: "str \<Rightarrow> error" where
  "unknown_option nm = err_config_parse (''unknown option `'' @ nm @ ''`'')"

text \<open>\<open>split(c)\<close>: at least one piece.\<close>

fun split_on :: "char \<Rightarrow> str \<Rightarrow> str list" where
  "split_on sep [] = [[]]"
| "split_on sep (c # s) =
     (if c = sep then [] # split_on sep s
      else (case split_on sep s of p # ps \<Rightarrow> (c # p) # ps | [] \<Rightarrow> [[c]]))"

definition parse_i64 :: "str \<Rightarrow> int option" where
  "parse_i64 = parse_signed (- (2 ^ 63)) (2 ^ 63 - 1)"

text \<open>A timeout: only a positive number of seconds is set.\<close>

definition timeout_param :: "str \<Rightarrow> str \<Rightarrow> (nat \<Rightarrow> config \<Rightarrow> config) \<Rightarrow> config \<Rightarrow> (config, error) rresult" where
  "timeout_param key value upd c =
     rbind (ok_or (parse_i64 value) (invalid_value key)) (\<lambda>n.
       Ok (if n > 0 then upd (nat n) c else c))"

definition choice_param :: "str \<Rightarrow> str \<Rightarrow> (str \<times> (config \<Rightarrow> config)) list \<Rightarrow> config \<Rightarrow> (config, error) rresult" where
  "choice_param key value choices c =
     (case map_of choices value of Some f \<Rightarrow> Ok (f c) | None \<Rightarrow> Err (invalid_value key))"

definition port_param :: "str \<Rightarrow> (u16, error) rresult" where
  "port_param p =
     (if p = [] then Ok 5432 else map_ok of_nat (ok_or (parse_unsigned 65535 p) (invalid_value ''port'')))"

fun fold_ok :: "('b \<Rightarrow> 'a \<Rightarrow> ('a, error) rresult) \<Rightarrow> 'b list \<Rightarrow> 'a \<Rightarrow> ('a, error) rresult" where
  "fold_ok f [] a = Ok a"
| "fold_ok f (x # xs) a = rbind (f x a) (fold_ok f xs)"

text \<open>The caller drops the configuration on an error, so an error carries none.\<close>

definition param :: "str \<Rightarrow> str \<Rightarrow> config \<Rightarrow> (config, error) rresult" where
  "param key value c =
     (if key = ''user'' then Ok (set_user value c)
      else if key = ''password'' then Ok (set_password (as_bytes value) c)
      else if key = ''dbname'' then Ok (set_dbname value c)
      else if key = ''options'' then Ok (set_options value c)
      else if key = ''application_name'' then Ok (set_application_name value c)
      else if key = ''sslmode'' then
        choice_param key value
          [(''disable'', \<lambda>c. c\<lparr>cf_ssl_mode := Disable\<rparr>), (''prefer'', \<lambda>c. c\<lparr>cf_ssl_mode := Prefer\<rparr>),
           (''require'', \<lambda>c. c\<lparr>cf_ssl_mode := Require\<rparr>)] c
      else if key = ''sslnegotiation'' then
        choice_param key value
          [(''postgres'', \<lambda>c. c\<lparr>cf_ssl_negotiation := Postgres\<rparr>), (''direct'', \<lambda>c. c\<lparr>cf_ssl_negotiation := Direct\<rparr>)] c
      else if key = ''host'' then Ok (fold add_host (split_on CHR '','' value) c)
      else if key = ''hostaddr'' then
        fold_ok (\<lambda>h c. rbind (ok_or (ip_from_str h) (invalid_value key)) (\<lambda>ip. Ok (add_hostaddr ip c)))
          (split_on CHR '','' value) c
      else if key = ''port'' then
        fold_ok (\<lambda>p c. rbind (port_param p) (\<lambda>n. Ok (add_port n c))) (split_on CHR '','' value) c
      else if key = ''connect_timeout'' then timeout_param key value (\<lambda>n c. c\<lparr>cf_connect_timeout := Some n\<rparr>) c
      else if key = ''tcp_user_timeout'' then timeout_param key value (\<lambda>n c. c\<lparr>cf_tcp_user_timeout := Some n\<rparr>) c
      else if key = ''keepalives'' then
        rbind (ok_or (parse_unsigned (2 ^ 64 - 1) value) (invalid_value key)) (\<lambda>n. Ok (c\<lparr>cf_keepalives := n \<noteq> 0\<rparr>))
      else if key = ''keepalives_idle'' then
        timeout_param key value (\<lambda>n. set_keepalive (\<lambda>k. k\<lparr>ka_idle := n\<rparr>)) c
      else if key = ''keepalives_interval'' then
        timeout_param key value (\<lambda>n. set_keepalive (\<lambda>k. k\<lparr>ka_interval := Some n\<rparr>)) c
      else if key = ''keepalives_retries'' then
        rbind (ok_or (parse_unsigned (2 ^ 32 - 1) value) (invalid_value key)) (\<lambda>n.
          Ok (set_keepalive (\<lambda>k. k\<lparr>ka_retries := Some (of_nat n)\<rparr>) c))
      else if key = ''target_session_attrs'' then
        choice_param key value
          [(''any'', \<lambda>c. c\<lparr>cf_target_session_attrs := Any\<rparr>), (''read-write'', \<lambda>c. c\<lparr>cf_target_session_attrs := ReadWrite\<rparr>),
           (''read-only'', \<lambda>c. c\<lparr>cf_target_session_attrs := ReadOnly\<rparr>)] c
      else if key = ''channel_binding'' then
        choice_param key value
          [(''disable'', \<lambda>c. c\<lparr>cf_channel_binding := CbDisable\<rparr>), (''prefer'', \<lambda>c. c\<lparr>cf_channel_binding := CbPrefer\<rparr>),
           (''require'', \<lambda>c. c\<lparr>cf_channel_binding := CbRequire\<rparr>)] c
      else if key = ''load_balance_hosts'' then
        choice_param key value
          [(''disable'', \<lambda>c. c\<lparr>cf_load_balance_hosts := LbDisable\<rparr>), (''random'', \<lambda>c. c\<lparr>cf_load_balance_hosts := LbRandom\<rparr>)] c
      else Err (unknown_option key))"

section \<open>Key-value strings\<close>

text \<open>
  The characters of a string, each with its UTF-8 bytes. The state of the parser is the position
  in bytes and the characters from there.
\<close>

definition char_length :: "str \<Rightarrow> nat" where
  "char_length s =
     (case s of [] \<Rightarrow> 0
      | c # r \<Rightarrow> (case follow_tests (of_char c) of Some ps \<Rightarrow> 1 + length ps | None \<Rightarrow> 1))"

lemma char_length_pos: "s \<noteq> [] \<Longrightarrow> char_length s > 0"
  by (cases s) (simp_all add: char_length_def split: option.split)

function chars :: "str \<Rightarrow> str list" where
  "chars s = (if s = [] then [] else take (char_length s) s # chars (drop (char_length s) s))"
  by pat_completeness auto
termination
  by (relation "measure length") (auto simp: char_length_pos)

declare chars.simps [simp del]

type_synonym cursor = "nat \<times> str list"

definition is_whitespace :: "str \<Rightarrow> bool" where
  "is_whitespace c = List.member white_space c"

definition config_take_while :: "(str \<Rightarrow> bool) \<Rightarrow> cursor \<Rightarrow> str \<times> cursor" where
  "config_take_while f st =
     (case st of (i, cs) \<Rightarrow>
        let taken = concat (takeWhile f cs) in (taken, (i + length taken, dropWhile f cs)))"

definition skip_ws :: "cursor \<Rightarrow> cursor" where
  "skip_ws st = snd (config_take_while is_whitespace st)"

definition config_eat :: "str \<Rightarrow> cursor \<Rightarrow> (cursor, error) rresult" where
  "config_eat target st =
     (case st of
        (i, []) \<Rightarrow> Err (err_config_parse ''unexpected EOF'')
      | (i, c # cs) \<Rightarrow>
          if c = target then Ok (i + length c, cs)
          else Err (err_config_parse
                 (''unexpected character at byte '' @ show_nat i @ '': expected `'' @ target @ ''` but got `'' @ c @ ''`'')))"

definition eat_if :: "str \<Rightarrow> cursor \<Rightarrow> bool \<times> cursor" where
  "eat_if target st =
     (case st of
        (i, c # cs) \<Rightarrow> if c = target then (True, (i + length c, cs)) else (False, st)
      | _ \<Rightarrow> (False, st))"

definition keyword :: "cursor \<Rightarrow> str option \<times> cursor" where
  "keyword st =
     (case config_take_while (\<lambda>c. \<not> is_whitespace c \<and> c \<noteq> ''='') st of
        (s, st) \<Rightarrow> (if s = [] then None else Some s, st))"

text \<open>A backslash stands for the character after it, and for nothing at the end.\<close>

abbreviation backslash :: str where "backslash \<equiv> [CHR 0x5C]"
abbreviation single_quote :: str where "single_quote \<equiv> [CHR 0x27]"

fun simple_loop :: "nat \<Rightarrow> str list \<Rightarrow> str \<times> cursor" where
  "simple_loop i [] = ([], (i, []))"
| "simple_loop i [c] =
     (if is_whitespace c then ([], (i, [c]))
      else if c = backslash then ([], (i + length c, []))
      else (c, (i + length c, [])))"
| "simple_loop i (c # d # cs) =
     (if is_whitespace c then ([], (i, c # d # cs))
      else if c = backslash then (case simple_loop (i + length c + length d) cs of (v, st) \<Rightarrow> (d @ v, st))
      else (case simple_loop (i + length c) (d # cs) of (v, st) \<Rightarrow> (c @ v, st)))"

definition simple_value :: "cursor \<Rightarrow> (str \<times> cursor, error) rresult" where
  "simple_value st =
     (case simple_loop (fst st) (snd st) of
        (v, st) \<Rightarrow> if v = [] then Err (err_config_parse ''unexpected EOF'') else Ok (v, st))"

fun quoted_loop :: "nat \<Rightarrow> str list \<Rightarrow> (str \<times> cursor) option" where
  "quoted_loop i [] = None"
| "quoted_loop i [c] = (if c = single_quote then Some ([], (i, [c])) else None)"
| "quoted_loop i (c # d # cs) =
     (if c = single_quote then Some ([], (i, c # d # cs))
      else if c = backslash then map_option (\<lambda>(v, st). (d @ v, st)) (quoted_loop (i + length c + length d) cs)
      else map_option (\<lambda>(v, st). (c @ v, st)) (quoted_loop (i + length c) (d # cs)))"

definition quoted_value :: "cursor \<Rightarrow> (str \<times> cursor, error) rresult" where
  "quoted_value st =
     ok_or (quoted_loop (fst st) (snd st)) (err_config_parse ''unterminated quoted connection parameter value'')"

definition config_value :: "cursor \<Rightarrow> (str \<times> cursor, error) rresult" where
  "config_value st =
     (case eat_if single_quote st of
        (True, st) \<Rightarrow> rbind (quoted_value st) (\<lambda>(v, st). rbind (config_eat single_quote st) (\<lambda>st. Ok (v, st)))
      | (False, st) \<Rightarrow> simple_value st)"

definition config_parameter :: "cursor \<Rightarrow> ((str \<times> str) option \<times> cursor, error) rresult" where
  "config_parameter st =
     (case keyword (skip_ws st) of
        (None, st) \<Rightarrow> Ok (None, st)
      | (Some kw, st) \<Rightarrow>
          rbind (config_eat ''='' (skip_ws st)) (\<lambda>st.
          rbind (config_value (skip_ws st)) (\<lambda>(v, st). Ok (Some (kw, v), st))))"

text \<open>Every parameter takes characters, so the loop ends.\<close>

lemma skip_ws_shorter: "length (snd (skip_ws st)) \<le> length (snd st)"
  by (cases st) (simp add: skip_ws_def config_take_while_def Let_def length_dropWhile_le)

lemma simple_loop_shorter: "length (snd (snd (simple_loop i cs))) \<le> length cs"
  by (induction i cs rule: simple_loop.induct) (auto split: prod.splits)

lemma quoted_loop_shorter: "quoted_loop i cs = Some (v, st) \<Longrightarrow> length (snd st) \<le> length cs"
  by (induction i cs arbitrary: v rule: quoted_loop.induct) (fastforce split: if_splits)+

lemma eat_shorter: "config_eat t st = Ok st' \<Longrightarrow> length (snd st') < length (snd st)"
  by (cases st; cases "snd st") (auto simp: config_eat_def split: if_splits)

lemma value_shorter: "config_value st = Ok (v, st') \<Longrightarrow> length (snd st') \<le> length (snd st)"
proof -
  assume v: "config_value st = Ok (v, st')"
  obtain b st1 where e: "eat_if single_quote st = (b, st1)" by (cases "eat_if single_quote st") blast
  then have l: "length (snd st1) \<le> length (snd st)"
    by (cases st; cases "snd st") (auto simp: eat_if_def split: if_splits)
  show ?thesis
  proof (cases b)
    case True
    with v e obtain st2 where "quoted_value st1 = Ok (v, st2)" "config_eat single_quote st2 = Ok st'"
      by (auto simp: config_value_def)
    with l show ?thesis
      using quoted_loop_shorter [of "fst st1" "snd st1" v st2] eat_shorter [of _ st2 st'] by (force simp: quoted_value_def)
  next
    case False
    with v e l show ?thesis
      using simple_loop_shorter [of "fst st1" "snd st1"]
      by (auto simp: config_value_def simple_value_def split: prod.splits if_splits)
  qed
qed

lemma parameter_shorter:
  assumes "config_parameter st = Ok (Some kv, st')"
  shows "length (snd st') < length (snd st)"
proof -
  obtain kw st1 where k: "keyword (skip_ws st) = (Some kw, st1)"
    using assms by (auto simp: config_parameter_def split: prod.splits option.splits)
  then have 1: "length (snd st1) \<le> length (snd (skip_ws st))"
    by (cases "skip_ws st") (auto simp: keyword_def config_take_while_def Let_def length_dropWhile_le split: if_splits)
  from assms k obtain st2 v where 2: "config_eat ''='' (skip_ws st1) = Ok st2" "config_value (skip_ws st2) = Ok (v, st')"
    by (auto simp: config_parameter_def)
  show ?thesis
    using 1 eat_shorter [OF 2(1)] value_shorter [OF 2(2)] skip_ws_shorter [of st] skip_ws_shorter [of st1] skip_ws_shorter [of st2]
    by linarith
qed

function parse_loop :: "cursor \<Rightarrow> config \<Rightarrow> (config, error) rresult" where
  "parse_loop st c =
     (case config_parameter st of
        Ok (Some (k, v), st') \<Rightarrow>
          (case param k v c of Ok c' \<Rightarrow> parse_loop st' c' | Err e \<Rightarrow> Err e | Panic \<Rightarrow> Panic)
      | Ok (None, _) \<Rightarrow> Ok c
      | Err e \<Rightarrow> Err e
      | Panic \<Rightarrow> Panic)"
  by pat_completeness auto
termination
  by (relation "measure (\<lambda>(st, c). length (snd st))") (auto dest: parameter_shorter)

declare parse_loop.simps [simp del]

definition parser_parse :: "str \<Rightarrow> (config, error) rresult" where
  "parser_parse s = parse_loop (0, chars s) config_new"

section \<open>URLs\<close>

text \<open>
  The state of the URL parser: the text still to be read and the configuration so far. \<open>pd\<close> is
  \<open>percent_decode\<close> on the bytes of a text.
\<close>

type_synonym url_state = "str \<times> config"
type_synonym percent = "bytes \<Rightarrow> bytes"

definition strip_prefix :: "str \<Rightarrow> str \<Rightarrow> str option" where
  "strip_prefix p s = (if take (length p) s = p then Some (drop (length p) s) else None)"

definition remove_url_prefix :: "str \<Rightarrow> str option" where
  "remove_url_prefix s =
     (case strip_prefix ''postgres://'' s of
        Some r \<Rightarrow> Some r
      | None \<Rightarrow> (case strip_prefix ''postgresql://'' s of
                   Some r \<Rightarrow> Some r
                 | None \<Rightarrow> strip_prefix ''kingbase://'' s))"

definition take_until :: "char list \<Rightarrow> str \<Rightarrow> (str \<times> str) option" where
  "take_until ends s =
     (if list_ex (List.member ends) s
      then Some (takeWhile (\<lambda>c. \<not> List.member ends c) s, dropWhile (\<lambda>c. \<not> List.member ends c) s) else None)"

text \<open>\<open>&self.s[1..]\<close> panics on the empty string and inside a character.\<close>

definition eat_byte :: "str \<Rightarrow> (str, error) rresult" where
  "eat_byte s = (if char_length s = 1 then Ok (tl s) else Panic)"

definition utf8_param :: "bytes \<Rightarrow> (str, error) rresult" where
  "utf8_param b = map_err (\<lambda>e. err_config_parse (utf8_error_text e)) (from_utf8 b)"

definition url_decode :: "percent \<Rightarrow> str \<Rightarrow> (str, error) rresult" where
  "url_decode pd s = utf8_param (pd (as_bytes s))"

text \<open>\<open>splitn(2, ':')\<close>: the piece before the first colon, and the rest after it if there is one.\<close>

definition splitn2 :: "char \<Rightarrow> str \<Rightarrow> str \<times> str option" where
  "splitn2 c s = (case split_once c s of Some (a, b) \<Rightarrow> (a, Some b) | None \<Rightarrow> (s, None))"

definition parse_credentials :: "percent \<Rightarrow> url_state \<Rightarrow> (url_state, error) rresult" where
  "parse_credentials pd st =
     (case st of (s, c) \<Rightarrow>
        (case take_until [CHR ''@''] s of
           None \<Rightarrow> Ok (s, c)
         | Some (creds, s) \<Rightarrow>
             rbind (eat_byte s) (\<lambda>s.
             case splitn2 CHR '':'' creds of (user, password) \<Rightarrow>
             rbind (url_decode pd user) (\<lambda>user.
               let c = set_user user c in
               Ok (s, case password of Some p \<Rightarrow> set_password (pd (as_bytes p)) c | None \<Rightarrow> c)))))"

definition host_param :: "percent \<Rightarrow> str \<Rightarrow> config \<Rightarrow> (config, error) rresult" where
  "host_param pd s c =
     (let decoded = pd (as_bytes s) in
      if take 1 decoded = as_bytes ''/'' then Ok (host_path decoded c)
      else rbind (utf8_param decoded) (\<lambda>h. Ok (add_host h c)))"

text \<open>The host and the port of one piece; an IPv6 address stands in brackets.\<close>

definition host_and_port :: "str \<Rightarrow> (str \<times> str option, error) rresult" where
  "host_and_port chunk =
     (if take 1 chunk = ''['' then
        (case split_once CHR '']'' chunk of
           None \<Rightarrow> Err (invalid_value ''host'')
         | Some (pre, remaining) \<Rightarrow>
             (case strip_prefix '':'' remaining of
                Some port \<Rightarrow> Ok (drop 1 pre, Some port)
              | None \<Rightarrow> if remaining = [] then Ok (drop 1 pre, None) else Err (invalid_value ''host'')))
      else Ok (splitn2 CHR '':'' chunk))"

definition add_chunk :: "percent \<Rightarrow> str \<Rightarrow> config \<Rightarrow> (config, error) rresult" where
  "add_chunk pd chunk c =
     rbind (host_and_port chunk) (\<lambda>(h, port).
     rbind (host_param pd h c) (\<lambda>c.
     rbind (url_decode pd (case port of Some p \<Rightarrow> p | None \<Rightarrow> ''5432'')) (\<lambda>port.
       param ''port'' port c)))"

definition parse_host :: "percent \<Rightarrow> url_state \<Rightarrow> (url_state, error) rresult" where
  "parse_host pd st =
     (case st of (s, c) \<Rightarrow>
        (case (case take_until ''/?'' s of Some (h, s) \<Rightarrow> (h, s) | None \<Rightarrow> (s, [])) of
           (h, s) \<Rightarrow>
             if h = [] then Ok (s, c)
             else map_ok (Pair s) (fold_ok (add_chunk pd) (split_on CHR '','' h) c)))"

definition parse_path :: "percent \<Rightarrow> url_state \<Rightarrow> (url_state, error) rresult" where
  "parse_path pd st =
     (case st of (s, c) \<Rightarrow>
        if take 1 s \<noteq> ''/'' then Ok (s, c)
        else rbind (eat_byte s) (\<lambda>s.
          case (case take_until ''?'' s of Some (d, s) \<Rightarrow> (d, s) | None \<Rightarrow> (s, [])) of
            (dbname, s) \<Rightarrow>
              if dbname = [] then Ok (s, c)
              else rbind (url_decode pd dbname) (\<lambda>d. Ok (s, set_dbname d c))))"

text \<open>The value of a parameter, up to the next \<open>&\<close>, and one round of the loop of \<open>parse_params\<close>.\<close>

definition url_value :: "str \<Rightarrow> (str \<times> str, error) rresult" where
  "url_value s =
     (case take_until ''&'' s of
        Some (value, s) \<Rightarrow> map_ok (Pair value) (eat_byte s)
      | None \<Rightarrow> Ok (s, []))"

definition url_parameter :: "percent \<Rightarrow> url_state \<Rightarrow> (url_state, error) rresult" where
  "url_parameter pd st =
     (case st of (s, c) \<Rightarrow>
        (case take_until ''='' s of
           None \<Rightarrow> Err (err_config_parse ''unterminated parameter'')
         | Some (key, s) \<Rightarrow>
             rbind (url_decode pd key) (\<lambda>key.
             rbind (eat_byte s) (\<lambda>s.
             rbind (url_value s) (\<lambda>(value, s).
               if key = ''host'' then map_ok (Pair s) (host_param pd value c)
               else rbind (url_decode pd value) (\<lambda>value. map_ok (Pair s) (param key value c)))))))"

lemma take_until_append:
  assumes "take_until ends s = Some (h, t)"
  shows "s = h @ t \<and> t \<noteq> [] \<and> List.member ends (hd t)"
proof -
  from assms have e: "list_ex (List.member ends) s" and h: "h = takeWhile (\<lambda>c. \<not> List.member ends c) s"
    and t: "t = dropWhile (\<lambda>c. \<not> List.member ends c) s"
    by (auto simp: take_until_def split: if_splits)
  from e have "t \<noteq> []" unfolding t by (auto simp: list_ex_iff dropWhile_eq_Nil_conv)
  moreover from this have "\<not> \<not> List.member ends (hd t)" unfolding t by (rule hd_dropWhile)
  ultimately show ?thesis by (simp add: h t)
qed

lemma eat_byte_Ok: "eat_byte s = Ok t \<Longrightarrow> length t < length s"
  by (cases s) (auto simp: eat_byte_def char_length_def split: if_splits)

lemma url_value_shorter: "url_value s = Ok (v, s') \<Longrightarrow> length s' \<le> length s"
  using take_until_append [of "''&''" s]
  by (auto simp: url_value_def split: option.splits dest!: eat_byte_Ok)

lemma url_parameter_shorter:
  assumes "url_parameter pd (s, c) = Ok (s', c')"
  shows "length s' < length s"
proof -
  from assms obtain key s1 s2 val where k: "take_until ''='' s = Some (key, s1)" "eat_byte s1 = Ok s2" "url_value s2 = Ok (val, s')"
    by (auto simp: url_parameter_def split: option.splits if_splits)
  with take_until_append [OF k(1)] eat_byte_Ok [OF k(2)] url_value_shorter [OF k(3)] show ?thesis by auto
qed

function url_params_loop :: "percent \<Rightarrow> str \<Rightarrow> config \<Rightarrow> (config, error) rresult" where
  "url_params_loop pd s c =
     (if s = [] then Ok c
      else case url_parameter pd (s, c) of
             Ok (s', c') \<Rightarrow> url_params_loop pd s' c'
           | Err e \<Rightarrow> Err e
           | Panic \<Rightarrow> Panic)"
  by pat_completeness auto
termination
  by (relation "measure (\<lambda>(pd, s, c). length s)") (auto dest: url_parameter_shorter)

declare url_params_loop.simps [simp del]

definition parse_params :: "percent \<Rightarrow> url_state \<Rightarrow> (config, error) rresult" where
  "parse_params pd st =
     (case st of (s, c) \<Rightarrow>
        if take 1 s \<noteq> ''?'' then Ok c else rbind (eat_byte s) (\<lambda>s. url_params_loop pd s c))"

definition url_parse :: "percent \<Rightarrow> str \<Rightarrow> (config option, error) rresult" where
  "url_parse pd s =
     (case remove_url_prefix s of
        None \<Rightarrow> Ok None
      | Some s \<Rightarrow>
          rbind (parse_credentials pd (s, config_new)) (\<lambda>st.
          rbind (parse_host pd st) (\<lambda>st.
          rbind (parse_path pd st) (\<lambda>st.
            map_ok Some (parse_params pd st)))))"

definition config_from_str :: "percent \<Rightarrow> str \<Rightarrow> (config, error) rresult" where
  "config_from_str pd s =
     rbind (url_parse pd s) (\<lambda>c. case c of Some c \<Rightarrow> Ok c | None \<Rightarrow> parser_parse s)"

end
