(* ===== verification/ConfigSpec.thy ===== *)
theory ConfigSpec
  imports Config
begin

text \<open>
  Connection strings: what is quoted is read back, what a stray sign does, what the parts of a URL
  become, and that no string makes the parsers panic.
\<close>

section \<open>Characters\<close>

lemma chars_Nil [simp]: "chars [] = []"
  by (simp add: chars.simps)

text \<open>One character: its length is read off its first byte, whatever follows.\<close>

definition single :: "str \<Rightarrow> bool" where
  "single c \<longleftrightarrow> c \<noteq> [] \<and> (\<forall>s. char_length (c @ s) = length c)"

lemma chars_single: "single c \<Longrightarrow> chars (c @ s) = c # chars s"
  by (subst chars.simps) (simp add: single_def)

lemma single_ascii: "(of_char c :: u8) < 0x80 \<Longrightarrow> single [c]"
  by (simp add: single_def char_length_def follow_tests_def)

lemma chars_ascii: "(of_char c :: u8) < 0x80 \<Longrightarrow> chars (c # s) = [c] # chars s"
  using chars_single [OF single_ascii, of c s] by simp

lemma char_length_append: "a \<noteq> [] \<Longrightarrow> char_length (a @ s) = char_length a"
  by (cases a) (simp_all add: char_length_def)

lemma valid_char:
  assumes "utf8_scan i (as_bytes (c # r)) = Ok ()"
  defines "n \<equiv> char_length (c # r)"
  shows "n \<le> length (c # r)" "utf8_scan (i + n) (as_bytes (drop n (c # r))) = Ok ()"
proof -
  from assms obtain ps m where f: "follow_tests (of_char c) = Some ps" "check_follow ps 1 (as_bytes r) = Ok m"
    "utf8_scan (i + m) (drop (m - 1) (as_bytes r)) = Ok ()"
    by (auto split: option.splits rresult.splits)
  with check_follow_append [OF f(2), of "[]"] have m: "m = 1 + length ps" "length ps \<le> length r" by auto
  have n: "n = m" using f m by (simp add: n_def char_length_def)
  show "n \<le> length (c # r)" using n m by simp
  show "utf8_scan (i + n) (as_bytes (drop n (c # r))) = Ok ()"
    using f n m by (simp add: drop_map)
qed

lemma chars_parts: "concat (chars s) = s"
  by (induction s rule: chars.induct) (subst chars.simps, simp)

lemma valid_chars: "utf8_scan i (as_bytes v) = Ok () \<Longrightarrow> list_all single (chars v)"
proof (induction v arbitrary: i rule: chars.induct)
  case (1 v)
  show ?case
  proof (cases v)
    case (Cons c r)
    let ?n = "char_length v"
    have n: "?n \<le> length v" "utf8_scan (i + ?n) (as_bytes (drop ?n v)) = Ok ()"
      using valid_char [of i c r] 1(2) Cons by simp_all
    have "list_all single (chars (drop ?n v))" using 1(1) [OF _ n(2)] Cons by simp
    moreover have "single (take ?n v)"
    proof -
      have ne: "take ?n v \<noteq> []" using Cons char_length_pos [of v] by simp
      have "char_length (take ?n v) = ?n"
        using char_length_append [OF ne, of "drop ?n v"] by simp
      with ne n(1) show ?thesis by (simp add: single_def char_length_append)
    qed
    ultimately show ?thesis using Cons by (subst chars.simps) simp
  qed simp
qed

lemma chars_concat: "list_all single cs \<Longrightarrow> chars (concat cs @ s) = cs @ chars s"
  by (induction cs) (simp_all add: chars_single)

text \<open>A string, as Rust has it.\<close>

definition is_str :: "str \<Rightarrow> bool" where
  "is_str s \<longleftrightarrow> utf8_valid (as_bytes s)"

lemma is_str_chars: "is_str v \<Longrightarrow> list_all single (chars v)"
  unfolding is_str_def utf8_valid_def by (rule valid_chars)

lemma chars_append: "is_str v \<Longrightarrow> chars (v @ s) = chars v @ chars s"
  using chars_concat [OF is_str_chars, of v s] by (simp add: chars_parts)

section \<open>Writing key-value strings\<close>

text \<open>As the documentation has it: values in quotes, quotes and backslashes after a backslash.\<close>

definition is_special :: "str \<Rightarrow> bool" where
  "is_special c \<longleftrightarrow> c = single_quote \<or> c = backslash"

definition quote_chars :: "str \<Rightarrow> str list" where
  "quote_chars c = (if is_special c then [backslash, c] else [c])"

definition quote_value :: "str \<Rightarrow> str" where
  "quote_value v = single_quote @ concat (map (\<lambda>c. concat (quote_chars c)) (chars v)) @ single_quote"

fun render :: "(str \<times> str) list \<Rightarrow> str" where
  "render [] = []"
| "render ((k, v) # kvs) = k @ ''='' @ quote_value v @ '' '' @ render kvs"

text \<open>A keyword; no URL prefix has its colon before an equals sign.\<close>

definition key_ok :: "str \<Rightarrow> bool" where
  "key_ok k \<longleftrightarrow> is_str k \<and> k \<noteq> [] \<and> CHR '':'' \<notin> set k \<and> list_all (\<lambda>c. \<not> is_whitespace c \<and> c \<noteq> ''='') (chars k)"

definition option_ok :: "str \<times> str \<Rightarrow> bool" where
  "option_ok kv \<longleftrightarrow> key_ok (fst kv) \<and> is_str (snd kv)"

lemma single_special [simp]: "single backslash" "single single_quote" "single ''=''" "single '' ''"
  by (simp_all add: single_ascii)

lemma single_quote_chars: "single c \<Longrightarrow> list_all single (quote_chars c)"
  by (simp add: quote_chars_def)

lemma chars_quote_value:
  assumes "is_str v"
  shows "chars (quote_value v @ s) = single_quote # concat (map quote_chars (chars v)) @ single_quote # chars s"
proof -
  have "list_all single (concat (map quote_chars (chars v)))"
    using is_str_chars [OF assms] single_quote_chars by (fastforce simp: list_all_iff)
  then have "chars (concat (concat (map quote_chars (chars v))) @ single_quote @ s) =
      concat (map quote_chars (chars v)) @ single_quote # chars s"
    by (simp only: chars_concat chars_single [OF single_special(2)])
  moreover have "concat (map (\<lambda>c. concat (quote_chars c)) cs) = concat (concat (map quote_chars cs))"
    for cs by (induction cs) simp_all
  ultimately show ?thesis
    by (simp only: quote_value_def append.assoc chars_single [OF single_special(2)])
qed

section \<open>Reading them back\<close>

lemma quoted_loop_quote [simp]: "quoted_loop i (single_quote # cs) = Some ([], (i, single_quote # cs))"
  by (cases cs) simp_all

lemma quoted_loop_plain:
  "c \<noteq> single_quote \<Longrightarrow> c \<noteq> backslash \<Longrightarrow> cs \<noteq> [] \<Longrightarrow>
    quoted_loop i (c # cs) = map_option (\<lambda>(v, st). (c @ v, st)) (quoted_loop (i + length c) cs)"
  by (cases cs) simp_all

lemma quoted_loop_value:
  "\<exists>j. quoted_loop i (concat (map quote_chars cs) @ single_quote # r) = Some (concat cs, (j, single_quote # r))"
proof (induction cs arbitrary: i)
  case (Cons c cs)
  show ?case
  proof (cases "is_special c")
    case True
    obtain j where "quoted_loop (i + 1 + length c) (concat (map quote_chars cs) @ single_quote # r) = Some (concat cs, (j, single_quote # r))"
      using Cons.IH by blast
    moreover have "quote_chars c = [backslash, c]" using True by (simp add: quote_chars_def)
    ultimately show ?thesis by simp
  next
    case False
    obtain j where "quoted_loop (i + length c) (concat (map quote_chars cs) @ single_quote # r) = Some (concat cs, (j, single_quote # r))"
      using Cons.IH by blast
    moreover have "quote_chars c = [c]" "c \<noteq> single_quote" "c \<noteq> backslash"
      using False by (simp_all add: quote_chars_def is_special_def)
    ultimately show ?thesis by (simp add: quoted_loop_plain)
  qed
qed simp

lemma char_of_eq: "c = char_of (n :: nat) \<longleftrightarrow> of_char c = n mod 256"
  by (metis of_char_of char_of_char)

lemma is_whitespace_simps [simp]: "is_whitespace '' ''" "\<not> is_whitespace ''=''" "\<not> is_whitespace single_quote"
  by (simp_all add: is_whitespace_def white_space_def upt_rec char_of_eq)

lemma skip_ws_stay: "cs = [] \<or> \<not> is_whitespace (hd cs) \<Longrightarrow> skip_ws (i, cs) = (i, cs)"
  by (cases cs) (auto simp: skip_ws_def config_take_while_def)

lemma skip_ws_space: "cs = [] \<or> \<not> is_whitespace (hd cs) \<Longrightarrow> skip_ws (i, '' '' # cs) = (i + 1, cs)"
  by (cases cs) (auto simp: skip_ws_def config_take_while_def)

lemma config_value_quoted:
  assumes "is_str v"
  shows "\<exists>j. config_value (i, chars (quote_value v @ s)) = Ok (v, (j, chars s))"
proof -
  obtain j where "quoted_loop (i + 1) (concat (map quote_chars (chars v)) @ single_quote # chars s) = Some (v, (j, single_quote # chars s))"
    using quoted_loop_value [of "i + 1" "chars v" "chars s"] by (auto simp: chars_parts)
  then show ?thesis
    unfolding chars_quote_value [OF assms]
    by (simp add: config_value_def eat_if_def quoted_value_def config_eat_def)
qed

lemma keyword_key:
  assumes "key_ok k"
  shows "keyword (i, chars k @ ''='' # cs) = (Some k, (i + length k, ''='' # cs))"
proof -
  have all: "\<forall>c \<in> set (chars k). \<not> is_whitespace c \<and> c \<noteq> ''=''"
    using assms by (simp add: key_ok_def list_all_iff)
  have "takeWhile (\<lambda>c. \<not> is_whitespace c \<and> c \<noteq> ''='') (chars k @ ''='' # cs) = chars k"
    "dropWhile (\<lambda>c. \<not> is_whitespace c \<and> c \<noteq> ''='') (chars k @ ''='' # cs) = ''='' # cs"
    using all by (simp_all add: takeWhile_append2 dropWhile_append2)
  then show ?thesis
    using assms by (simp add: keyword_def config_take_while_def chars_parts key_ok_def)
qed

lemma key_first: "key_ok k \<Longrightarrow> \<not> is_whitespace (hd (chars k @ cs))"
  using chars_parts [of k] by (cases "chars k") (auto simp: key_ok_def)

lemma parameter_rendered:
  assumes "option_ok (k, v)" and "skip_ws (i, cs) = (i', chars (k @ ''='' @ quote_value v @ s))"
  shows "\<exists>j. config_parameter (i, cs) = Ok (Some (k, v), (j, chars s))"
proof -
  have k: "key_ok k" and v: "is_str v" using assms(1) by (simp_all add: option_ok_def)
  have ks: "is_str k" using k by (simp add: key_ok_def)
  let ?j = "i' + length k + 1"
  have c: "chars (k @ ''='' @ quote_value v @ s) = chars k @ ''='' # chars (quote_value v @ s)"
    by (simp only: chars_append [OF ks] chars_single [OF single_special(3)])
  have q: "skip_ws (?j, chars (quote_value v @ s)) = (?j, chars (quote_value v @ s))"
    unfolding chars_quote_value [OF v] by (rule skip_ws_stay) simp
  obtain j where "config_value (?j, chars (quote_value v @ s)) = Ok (v, (j, chars s))"
    using config_value_quoted [OF v] by blast
  then show ?thesis
    using assms(2) q unfolding c
    by (simp add: config_parameter_def keyword_key [OF k] skip_ws_stay config_eat_def)
qed

text \<open>A tail at which the parser stops.\<close>

definition stops :: "str \<Rightarrow> bool" where
  "stops t \<longleftrightarrow> (\<forall>i. keyword (skip_ws (i, chars t)) = (None, skip_ws (i, chars t))) \<and> (chars t = [] \<or> \<not> is_whitespace (hd (chars t)))"

lemma render_first:
  "list_all option_ok kvs \<Longrightarrow> stops t \<Longrightarrow> chars (render kvs @ t) = [] \<or> \<not> is_whitespace (hd (chars (render kvs @ t)))"
proof (induction kvs rule: render.induct)
  case (2 k v kvs)
  have k: "key_ok k" "is_str k" using 2(2) by (simp_all add: option_ok_def key_ok_def)
  show ?case using key_first [OF k(1)] by (simp add: chars_append [OF k(2)])
qed (simp add: stops_def)

lemma parse_loop_rendered:
  "list_all option_ok kvs \<Longrightarrow> stops t \<Longrightarrow> skip_ws (i, cs) = (i', chars (render kvs @ t)) \<Longrightarrow>
    parse_loop (i, cs) c = fold_ok (\<lambda>(k, v). param k v) kvs c"
proof (induction kvs arbitrary: i i' cs c rule: render.induct)
  case 1
  then have "config_parameter (i, cs) = Ok (None, skip_ws (i', chars t))"
    by (auto simp: config_parameter_def stops_def skip_ws_stay)
  then show ?case by (subst parse_loop.simps) simp
next
  case (2 k v kvs)
  let ?r = "render kvs @ t"
  have ok: "option_ok (k, v)" "list_all option_ok kvs" using 2(2) by simp_all
  have "skip_ws (i, cs) = (i', chars (k @ ''='' @ quote_value v @ ('' '' @ ?r)))"
    using 2(4) by (simp only: render.simps append.assoc)
  from parameter_rendered [OF ok(1) this] obtain j where j: "config_parameter (i, cs) = Ok (Some (k, v), (j, chars ('' '' @ ?r)))"
    by blast
  have "skip_ws (j, chars ('' '' @ ?r)) = (j + 1, chars ?r)"
    using skip_ws_space [OF render_first [OF ok(2) 2(3)]] by (simp only: chars_single [OF single_special(4)])
  from 2(1) [OF ok(2) 2(3) this] j show ?case
    by (subst parse_loop.simps) (cases "param k v c"; simp)
qed

text \<open>A rendered string is no URL.\<close>

lemma prefix_colon:
  assumes "strip_prefix p (k @ ''='' @ s) \<noteq> None" and "CHR ''='' \<notin> set p"
  shows "set p \<subseteq> set k"
proof -
  have t: "take (length p) (k @ ''='' @ s) = p" using assms(1) by (auto simp: strip_prefix_def split: if_splits)
  have "length p \<le> length k"
  proof (rule ccontr)
    assume "\<not> length p \<le> length k"
    then have "CHR ''='' \<in> set (take (length p) (k @ ''='' @ s))" by (cases "length p - length k") auto
    with t assms(2) show False by simp
  qed
  with t have "p = take (length p) k" by simp
  then show ?thesis using set_take_subset [of "length p" k] by simp
qed

lemma rendered_no_url:
  assumes "list_all option_ok kvs" and "take 1 t = [] \<or> take 1 t = ''=''"
  shows "remove_url_prefix (render kvs @ t) = None"
proof (cases kvs)
  case Nil
  with assms(2) show ?thesis by (cases t) (auto simp: remove_url_prefix_def strip_prefix_def)
next
  case (Cons kv kvs')
  obtain k v where kv: "kv = (k, v)" by fastforce
  have "CHR '':'' \<notin> set k" using assms(1) Cons kv by (simp add: option_ok_def key_ok_def)
  then have "strip_prefix p (k @ ''='' @ s) = None" if "CHR '':'' \<in> set p" "CHR ''='' \<notin> set p" for p s
    using prefix_colon [of p k s] that by blast
  then show ?thesis by (simp add: remove_url_prefix_def Cons kv)
qed

lemma from_str_rendered:
  assumes "list_all option_ok kvs" and "stops t" and "take 1 t = [] \<or> take 1 t = ''=''"
  shows "config_from_str pd (render kvs @ t) = fold_ok (\<lambda>(k, v). param k v) kvs config_new"
proof -
  have "skip_ws (0, chars (render kvs @ t)) = (0, chars (render kvs @ t))"
    by (rule skip_ws_stay [OF render_first [OF assms(1,2)]])
  from parse_loop_rendered [OF assms(1,2) this]
  show ?thesis
    by (simp add: config_from_str_def url_parse_def rendered_no_url [OF assms(1,3)] parser_parse_def)
qed

lemma stops_Nil: "stops []"
  by (simp add: stops_def skip_ws_def config_take_while_def keyword_def)

lemma stops_equals: "stops (''='' @ s)"
  unfolding stops_def chars_single [OF single_special(3)]
  by (simp add: skip_ws_stay keyword_def config_take_while_def)

text \<open>
  C11. Connection strings are read back as they are written. For any list of options, written with
  each value in quotes and with a backslash before quotes and backslashes, parsing sets exactly
  these options in this order, or fails as the first option that is refused does. No value, whatever
  it holds, can end its quotes, set another option or turn the string into a URL.
\<close>

theorem connection_string_roundtrip:
  assumes "list_all option_ok kvs"
  shows "config_from_str pd (render kvs) = fold_ok (\<lambda>(k, v). param k v) kvs config_new"
  using from_str_rendered [OF assms stops_Nil, of pd] by simp

lemma is_str_ascii: "list_all (\<lambda>c. (of_char c :: u8) < 0x80) s \<Longrightarrow> is_str s"
  by (simp add: is_str_def list_all_iff)

lemma chars_all_ascii: "list_all (\<lambda>c. (of_char c :: u8) < 0x80) s \<Longrightarrow> chars s = map (\<lambda>c. [c]) s"
  by (induction s) (simp_all add: chars_ascii)

theorem connection_string_roundtrip_witness:
  "config_from_str (\<lambda>b. b) (render [(''password'', [CHR 0x27, CHR ''x'', CHR '' '', CHR 0x5C]), (''sslmode'', ''require'')]) =
     Ok (config_new\<lparr>cf_password := Some [39, 120, 32, 92], cf_ssl_mode := Require\<rparr>)"
proof -
  have a: "list_all (\<lambda>c. (of_char c :: u8) < 0x80) ''password''" "list_all (\<lambda>c. (of_char c :: u8) < 0x80) ''sslmode''"
    "list_all (\<lambda>c. (of_char c :: u8) < 0x80) [CHR 0x27, CHR ''x'', CHR '' '', CHR 0x5C]" "list_all (\<lambda>c. (of_char c :: u8) < 0x80) ''require''"
    by simp_all
  have "list_all option_ok [(''password'', [CHR 0x27, CHR ''x'', CHR '' '', CHR 0x5C]), (''sslmode'', ''require'')]"
    using a by (simp add: option_ok_def key_ok_def is_str_ascii chars_all_ascii is_whitespace_def white_space_def upt_rec char_of_eq)
  from connection_string_roundtrip [OF this, of "\<lambda>b. b"] show ?thesis
    by (simp add: param_def choice_param_def set_password_def)
qed

text \<open>
  What follows a stray equals sign is ignored. Where a keyword is expected, an equals sign makes
  the parser stop with what it has, and no error is reported: the rest of the string, whatever it
  demands, has no effect. \<open>libpq\<close> refuses such a string.
\<close>

theorem stray_equals_ignored:
  assumes "list_all option_ok kvs"
  shows "config_from_str pd (render kvs @ ''='' @ s) = config_from_str pd (render kvs)"
  using from_str_rendered [OF assms stops_equals [of s], of pd] from_str_rendered [OF assms stops_Nil, of pd] by simp

theorem stray_equals_ignored_witness:
  "config_from_str (\<lambda>b. b) (render [(''user'', ''bob'')] @ ''= sslmode=require'') = Ok (config_new\<lparr>cf_user := Some ''bob''\<rparr>)"
proof -
  have "list_all (\<lambda>c. (of_char c :: u8) < 0x80) ''user''" "list_all (\<lambda>c. (of_char c :: u8) < 0x80) ''bob''" by simp_all
  then have ok: "list_all option_ok [(''user'', ''bob'')]"
    by (simp add: option_ok_def key_ok_def is_str_ascii chars_all_ascii is_whitespace_def white_space_def upt_rec char_of_eq)
  have "config_from_str (\<lambda>b. b) (render [(''user'', ''bob'')] @ ''='' @ '' sslmode=require'') = Ok (config_new\<lparr>cf_user := Some ''bob''\<rparr>)"
    using stray_equals_ignored [OF ok, of "\<lambda>b. b" "'' sslmode=require''"] from_str_rendered [OF ok stops_Nil, of "\<lambda>b. b"]
    by (simp add: param_def set_user_def)
  then show ?thesis by simp
qed

section \<open>No panics\<close>

lemma fold_ok_not_Panic: "(\<And>x a. f x a \<noteq> Panic) \<Longrightarrow> fold_ok f xs a \<noteq> Panic"
  by (induction xs arbitrary: a) (auto simp: rbind_eq_Panic)

lemma param_not_Panic: "param k v c \<noteq> Panic"
proof -
  have c: "choice_param key value cs c \<noteq> Panic" for key "value" cs c
    by (simp add: choice_param_def split: option.split)
  have t: "timeout_param key value f c \<noteq> Panic" for key "value" f c
    by (simp add: timeout_param_def rbind_eq_Panic)
  have h: "fold_ok (\<lambda>h c. rbind (ok_or (ip_from_str h) (invalid_value key)) (\<lambda>ip. Ok (add_hostaddr ip c))) xs c \<noteq> Panic" for key xs c
    by (rule fold_ok_not_Panic) (simp add: rbind_eq_Panic)
  have p: "fold_ok (\<lambda>p c. rbind (port_param p) (\<lambda>n. Ok (add_port n c))) xs c \<noteq> Panic" for xs c
    by (rule fold_ok_not_Panic) (simp add: rbind_eq_Panic port_param_def)
  show ?thesis
    unfolding param_def by (simp add: c t h p rbind_eq_Panic)
qed

lemma config_value_not_Panic: "config_value st \<noteq> Panic"
  by (auto simp: config_value_def quoted_value_def simple_value_def config_eat_def rbind_eq_Panic split: prod.splits bool.splits list.splits)

lemma parameter_not_Panic: "config_parameter st \<noteq> Panic"
  by (auto simp: config_parameter_def rbind_eq_Panic config_value_not_Panic config_eat_def split: prod.splits option.splits list.splits)

lemma parse_loop_not_Panic: "parse_loop st c \<noteq> Panic"
proof (induction st c rule: parse_loop.induct)
  case (1 st c)
  show ?case
    by (subst parse_loop.simps)
      (auto simp: parameter_not_Panic param_not_Panic 1 split: rresult.split prod.split option.split)
qed

lemma eat_byte_ascii: "s \<noteq> [] \<Longrightarrow> (of_char (hd s) :: u8) < 0x80 \<Longrightarrow> eat_byte s = Ok (tl s)"
  by (cases s) (simp_all add: eat_byte_def char_length_def follow_tests_def)

lemma eat_byte_until:
  "take_until ends s = Some (h, t) \<Longrightarrow> list_all (\<lambda>c. (of_char c :: u8) < 0x80) ends \<Longrightarrow> eat_byte t = Ok (tl t)"
  using take_until_append [of ends s h t] by (auto simp: list_all_iff intro!: eat_byte_ascii)

lemma eat_byte_prefix: "take 1 s = [c] \<Longrightarrow> (of_char c :: u8) < 0x80 \<Longrightarrow> eat_byte s = Ok (tl s)"
  by (cases s) (simp_all add: eat_byte_ascii)

lemma url_decode_not_Panic [simp]: "url_decode pd s \<noteq> Panic" "utf8_param b \<noteq> Panic"
  by (simp_all add: url_decode_def utf8_param_def)

lemma host_param_not_Panic [simp]: "host_param pd h c \<noteq> Panic"
  by (simp add: host_param_def Let_def rbind_eq_Panic)

lemma host_and_port_not_Panic [simp]: "host_and_port s \<noteq> Panic"
  by (auto simp: host_and_port_def split: option.split)

lemma url_parameter_not_Panic: "url_parameter pd (s, c) \<noteq> Panic"
  using eat_byte_until [of "''=''" s] eat_byte_until [of "''&''"]
  by (auto simp: url_parameter_def url_value_def rbind_eq_Panic param_not_Panic split: option.splits)

lemma url_params_loop_not_Panic: "url_params_loop pd s c \<noteq> Panic"
proof (induction pd s c rule: url_params_loop.induct)
  case (1 pd s c)
  then show ?case
    by (subst url_params_loop.simps) (auto simp: url_parameter_not_Panic split: rresult.split)
qed

text \<open>
  C30. No connection string makes the parser panic: whatever the text, and whatever the percent
  decoder does, the slices of the URL parser are inside the text and at character boundaries, and
  the result is a configuration or an error.
\<close>

theorem config_from_str_never_panics: "config_from_str pd s \<noteq> Panic"
proof -
  have "parse_credentials pd st \<noteq> Panic" for st
    using eat_byte_until [of "''@''"]
    by (auto simp: parse_credentials_def rbind_eq_Panic Let_def split: prod.split option.split)
  moreover have "add_chunk pd h c \<noteq> Panic" for h c
    by (auto simp: add_chunk_def rbind_eq_Panic param_not_Panic)
  then have "parse_host pd st \<noteq> Panic" for st
    by (auto simp: parse_host_def fold_ok_not_Panic split: prod.split)
  moreover have "parse_path pd st \<noteq> Panic" for st
    using eat_byte_prefix [of _ "CHR ''/''"] by (auto simp: parse_path_def rbind_eq_Panic split: prod.split if_splits)
  moreover have "parse_params pd st \<noteq> Panic" for st
    using eat_byte_prefix [of _ "CHR ''?''"]
    by (auto simp: parse_params_def rbind_eq_Panic url_params_loop_not_Panic split: prod.split)
  ultimately have "url_parse pd s \<noteq> Panic"
    by (auto simp: url_parse_def rbind_eq_Panic split: option.split)
  then show ?thesis
    by (auto simp: config_from_str_def parser_parse_def rbind_eq_Panic parse_loop_not_Panic split: option.splits)
qed

section \<open>URLs\<close>

lemma take_until_at:
  "\<forall>x \<in> set h. x \<notin> set ends \<Longrightarrow> c \<in> set ends \<Longrightarrow> take_until ends (h @ c # t) = Some (h, c # t)"
  by (simp add: take_until_def takeWhile_append2 dropWhile_append2 list_ex_iff)

lemma take_until_none: "\<forall>x \<in> set h. x \<notin> set ends \<Longrightarrow> take_until ends h = None"
  by (auto simp: take_until_def list_ex_iff)

lemma splitn2_at:
  assumes "c \<notin> set a"
  shows "splitn2 c (a @ c # b) = (a, Some b)"
proof -
  have "dropWhile (\<lambda>x. x \<noteq> c) (a @ c # b) = c # b" "takeWhile (\<lambda>x. x \<noteq> c) (a @ c # b) = a"
    using assms by (induction a) auto
  then show ?thesis by (simp add: splitn2_def split_once_def)
qed

lemma splitn2_none: "c \<notin> set a \<Longrightarrow> splitn2 c a = (a, None)"
proof -
  assume "c \<notin> set a"
  then have "dropWhile (\<lambda>x. x \<noteq> c) a = []" by (auto simp: dropWhile_eq_Nil_conv)
  then show ?thesis unfolding splitn2_def split_once_def by (simp only: list.case option.case)
qed

lemma split_on_none: "c \<notin> set a \<Longrightarrow> split_on c a = [a]"
  by (induction a) auto

lemma url_decode_is: "pd (as_bytes s) = as_bytes t \<Longrightarrow> is_str t \<Longrightarrow> url_decode pd s = Ok t"
  by (simp add: url_decode_def utf8_param_def from_utf8_iff is_str_def)

lemma show_nat_set: "x \<in> set (show_nat n) \<Longrightarrow> is_digit x"
  using show_nat_digits [of n] by (simp add: list_all_iff)

lemma show_nat_free: "\<not> is_digit c \<Longrightarrow> c \<notin> set (show_nat n)"
  using show_nat_set by blast

lemma not_digit [simp]: "\<not> is_digit CHR '',''" "\<not> is_digit CHR ''/''" "\<not> is_digit CHR ''?''"
  by (simp_all add: is_digit_def)

text \<open>A host in a URL: nothing that ends it, and no bracket in front.\<close>

definition plain_host :: "str \<Rightarrow> bool" where
  "plain_host h \<longleftrightarrow> h \<noteq> [] \<and> set h \<inter> set ''/?,:'' = {} \<and> hd h \<noteq> CHR ''[''"

lemma add_chunk_plain:
  assumes "plain_host h" and "pd (as_bytes h) = as_bytes host" and "is_str host" and "take 1 host \<noteq> ''/''"
    and "pd (as_bytes (show_nat n)) = as_bytes (show_nat n)" and "n \<le> 65535"
  shows "add_chunk pd (h @ CHR '':'' # show_nat n) c = Ok (c\<lparr>cf_host := cf_host c @ [Tcp host], cf_port := cf_port c @ [of_nat n]\<rparr>)"
proof -
  have "is_str (show_nat n)"
    by (rule is_str_ascii) (use show_nat_digits [of n] in \<open>auto simp: list_all_iff is_digit_def of_char_word word_less_nat_alt unat_of_nat\<close>)
  then have port: "url_decode pd (show_nat n) = Ok (show_nat n)" by (rule url_decode_is [of pd, OF assms(5)])
  have "\<not> (take 1 (as_bytes host) = as_bytes ''/'')"
  proof
    assume "take 1 (as_bytes host) = as_bytes ''/''"
    then have "as_bytes (take 1 host) = as_bytes ''/''" by (simp add: take_map)
    then have "of_bytes (as_bytes (take 1 host)) = of_bytes (as_bytes ''/'')" by simp
    then show False using assms(4) by (simp only: of_bytes_as_bytes)
  qed
  with assms have h: "host_param pd h c = Ok (add_host host c)" for c
    by (simp add: host_param_def utf8_param_def from_utf8_iff is_str_def)
  have hp: "host_and_port (h @ CHR '':'' # show_nat n) = Ok (h, Some (show_nat n))"
    using assms(1) splitn2_at [of "CHR '':''" h "show_nat n"] by (cases "h = []") (auto simp: host_and_port_def plain_host_def neq_Nil_conv)
  have "param ''port'' (show_nat n) c = Ok (add_port (of_nat n) c)" for c
    using split_on_none [of "CHR '',''" "show_nat n"] show_nat_free [of "CHR '',''" n] parse_show_nat [OF assms(6)]
    by (simp add: param_def port_param_def show_nat_not_Nil)
  with assms(4) h hp port show ?thesis by (simp add: add_chunk_def add_host_def add_port_def)
qed

text \<open>
  C29. The parts of a URL become the options. When the parts between the separators are percent
  encoded - so that none holds a separator that would end it, and decoding gives the intended text -
  the configuration has the intended user, password, host, port and database, and nothing else.
\<close>

theorem url_exact:
  assumes "set u \<inter> set '':@'' = {}" and "CHR ''@'' \<notin> set p" and "plain_host h" and "d \<noteq> []" and "CHR ''?'' \<notin> set d" and "n \<le> 65535"
    and "pd (as_bytes u) = as_bytes user" and "pd (as_bytes p) = password" and "pd (as_bytes h) = as_bytes host"
    and "pd (as_bytes d) = as_bytes db" and "pd (as_bytes (show_nat n)) = as_bytes (show_nat n)"
    and "is_str user" and "is_str host" and "is_str db" and "take 1 host \<noteq> ''/''"
  shows "config_from_str pd (''postgres://'' @ u @ '':'' @ p @ ''@'' @ h @ '':'' @ show_nat n @ ''/'' @ d) =
    Ok (config_new\<lparr>cf_user := Some user, cf_password := Some password, cf_host := [Tcp host], cf_port := [of_nat n], cf_dbname := Some db\<rparr>)"
proof -
  let ?hp = "h @ CHR '':'' # show_nat n"
  let ?rest = "?hp @ CHR ''/'' # d"
  let ?c = "config_new\<lparr>cf_user := Some user, cf_password := Some password\<rparr>"
  have u: "CHR '':'' \<notin> set u" "CHR ''@'' \<notin> set u" using assms(1) by auto
  have "take_until ''@'' ((u @ CHR '':'' # p) @ CHR ''@'' # ?rest) = Some (u @ CHR '':'' # p, CHR ''@'' # ?rest)"
    by (rule take_until_at) (use u assms(2) in auto)
  then have cred: "parse_credentials pd (u @ CHR '':'' # p @ CHR ''@'' # ?rest, config_new) = Ok (?rest, ?c)"
    by (simp add: parse_credentials_def eat_byte_ascii splitn2_at [OF u(1)] url_decode_is [of pd u user, OF assms(7,12)] set_user_def set_password_def assms(8) Let_def)
  have hset: "set h \<inter> set ''/?,:'' = {}" "h \<noteq> []" using assms(3) by (simp_all add: plain_host_def)
  have free: "x \<notin> set ''/?''" if "x \<in> set ?hp" for x using that hset show_nat_free [of _ n] by auto
  have comma: "split_on CHR '','' ?hp = [?hp]" by (rule split_on_none) (use hset show_nat_free [of "CHR '',''" n] in auto)
  have "take_until ''/?'' ?rest = Some (?hp, CHR ''/'' # d)"
    by (rule take_until_at) (use free in auto)
  then have host: "parse_host pd (?rest, ?c) = Ok (CHR ''/'' # d, ?c\<lparr>cf_host := [Tcp host], cf_port := [of_nat n]\<rparr>)"
    using add_chunk_plain [of h pd host n ?c, OF assms(3,9,13,15,11,6)] comma
    by (simp add: parse_host_def config_new_def)
  have "take_until ''?'' d = None" by (rule take_until_none) (use assms(5) in auto)
  then have path: "parse_path pd (CHR ''/'' # d, c) = Ok ([], set_dbname db c)" for c
    using assms(4) by (simp add: parse_path_def eat_byte_ascii url_decode_is [of pd d db, OF assms(10,14)])
  have "remove_url_prefix (''postgres://'' @ u @ CHR '':'' # p @ CHR ''@'' # ?rest) = Some (u @ CHR '':'' # p @ CHR ''@'' # ?rest)"
    by (simp add: remove_url_prefix_def strip_prefix_def)
  with cred host path show ?thesis
    by (simp add: config_from_str_def url_parse_def parse_params_def set_dbname_def)
qed

theorem url_exact_witness:
  "config_from_str (\<lambda>b. b) (''postgres://'' @ ''bob'' @ '':'' @ ''a/b:c'' @ ''@'' @ ''db.example.com'' @ '':'' @ show_nat 5433 @ ''/'' @ ''app'') =
     Ok (config_new\<lparr>cf_user := Some ''bob'', cf_password := Some (as_bytes ''a/b:c''), cf_host := [Tcp ''db.example.com''],
       cf_port := [5433], cf_dbname := Some ''app''\<rparr>)"
proof -
  have s: "is_str ''bob''" "is_str ''db.example.com''" "is_str ''app''" by (simp_all add: is_str_ascii)
  have h: "plain_host ''db.example.com''" by (simp add: plain_host_def)
  show ?thesis
    using url_exact [of "''bob''" "''a/b:c''" "''db.example.com''" "''app''" 5433 "\<lambda>b. b" "''bob''" "as_bytes ''a/b:c''" "''db.example.com''" "''app''"] s h
    by simp
qed

text \<open>
  An at sign in a parameter redirects the connection. The user information is taken up to the
  first at sign anywhere in the URL, also behind the host; \<open>libpq\<close> looks for it in front of the
  first slash only. A URL with an at sign in a query parameter is parsed without an error into the
  name of another host, and its demand for TLS is lost.
\<close>

theorem url_at_sign_redirects:
  "config_from_str (\<lambda>b. b) ''postgres://db.example.com/app?sslmode=require&application_name=me@evil.org'' =
     Ok (config_new\<lparr>cf_user := Some ''db.example.com/app?sslmode=require&application_name=me'', cf_host := [Tcp ''evil.org''], cf_port := [5432]\<rparr>)"
proof -
  let ?u = "''db.example.com/app?sslmode=require&application_name=me''"
  have s: "is_str ?u" "is_str ''evil.org''" "is_str ''5432''" by (simp_all add: is_str_ascii)
  have d: "url_decode (\<lambda>b. b) x = Ok x" "utf8_param (as_bytes x) = Ok x" if "is_str x" for x
    using that by (simp_all add: url_decode_is utf8_param_def from_utf8_iff is_str_def)
  have "take 1 (as_bytes ''evil.org'') \<noteq> as_bytes ''/''" by simp
  with d(2) [OF s(2)] have hp: "host_param (\<lambda>b. b) ''evil.org'' c = Ok (add_host ''evil.org'' c)" for c
    unfolding host_param_def Let_def by (simp only: if_False rbind.simps)
  have "parse_unsigned 65535 ''5432'' = Some 5432"
    by (simp add: parse_unsigned_def strip_plus_def is_digit_def digits_value_def)
  then have "add_chunk (\<lambda>b. b) ''evil.org'' c = Ok (c\<lparr>cf_host := cf_host c @ [Tcp ''evil.org''], cf_port := cf_port c @ [5432]\<rparr>)" for c
    using hp d(1) [OF s(3)]
    by (simp add: add_chunk_def host_and_port_def splitn2_none add_host_def param_def port_param_def add_port_def)
  moreover have "take_until ''@'' (?u @ CHR ''@'' # ''evil.org'') = Some (?u, ''@evil.org'')"
    by (rule take_until_at) simp_all
  then have "parse_credentials (\<lambda>b. b) (?u @ ''@evil.org'', config_new) = Ok (''evil.org'', set_user ?u config_new)"
    using d(1) [OF s(1)] by (simp add: parse_credentials_def eat_byte_ascii splitn2_none)
  moreover have "parse_host (\<lambda>b. b) (''evil.org'', c) = map_ok (Pair []) (add_chunk (\<lambda>b. b) ''evil.org'' c)" for c
    by (simp add: parse_host_def take_until_none) (cases "add_chunk (\<lambda>b. b) ''evil.org'' c"; simp)
  moreover have "remove_url_prefix (''postgres://'' @ ?u @ ''@evil.org'') = Some (?u @ ''@evil.org'')"
    by (simp add: remove_url_prefix_def strip_prefix_def)
  ultimately have "config_from_str (\<lambda>b. b) (''postgres://'' @ ?u @ ''@evil.org'') =
      Ok (config_new\<lparr>cf_user := Some ?u, cf_host := [Tcp ''evil.org''], cf_port := [5432]\<rparr>)"
    unfolding config_from_str_def url_parse_def
    by (simp only: option.case rbind.simps) (simp add: parse_path_def parse_params_def set_user_def config_new_def)
  then show ?thesis by simp
qed

end
