(* ===== verification/Startup.thy ===== *)
theory Startup
  imports Config Connection Scram
begin

text \<open>
  \<open>tokio-postgres/src/connect_raw.rs\<close>: the start of a session on an open socket - TLS, the startup
  message, authentication, and what the server reports until it is ready. The stream is what the
  codec makes of the socket: a list of items, after which the socket is at its end, and the results
  of the successive sends.
\<close>

section \<open>The stream\<close>

record startup_stream =
  st_items :: "(backend_message, io_error) rresult list"
  st_buf :: bytes
  st_delayed :: "backend_message list"
  st_sink :: "nat \<Rightarrow> (unit, io_error) rresult"
  st_sent :: "frontend_message list"

type_synonym 'a startup_op = "startup_stream \<Rightarrow> ('a, error) rresult \<times> startup_stream"

definition sret :: "'a \<Rightarrow> 'a startup_op" where
  "sret x s = (Ok x, s)"

definition sres :: "('a, error) rresult \<Rightarrow> 'a startup_op" where
  "sres r s = (r, s)"

definition sbind :: "'a startup_op \<Rightarrow> ('a \<Rightarrow> 'b startup_op) \<Rightarrow> 'b startup_op" where
  "sbind m f s =
     (case m s of (Ok x, s) \<Rightarrow> f x s | (Err e, s) \<Rightarrow> (Err e, s) | (Panic, s) \<Rightarrow> (Panic, s))"

text \<open>\<open>poll_next\<close>: the messages of the run at hand, then the next item.\<close>

fun stream_poll ::
  "bytes \<Rightarrow> (backend_message, io_error) rresult list \<Rightarrow>
     (message option, io_error) rresult \<times> bytes \<times> (backend_message, io_error) rresult list" where
  "stream_poll buf items =
     (case backend_messages_next buf of
        Ok (Some m, rest) \<Rightarrow> (Ok (Some m), rest, items)
      | Err e \<Rightarrow> (Err e, buf, items)
      | Panic \<Rightarrow> (Panic, buf, items)
      | Ok (None, rest) \<Rightarrow>
          (case items of
             [] \<Rightarrow> (Ok None, rest, [])
           | Ok (Normal messages complete) # items \<Rightarrow> stream_poll messages items
           | Ok (Async m) # items \<Rightarrow> (Ok (Some m), rest, items)
           | Err e # items \<Rightarrow> (Err e, rest, items)
           | Panic # items \<Rightarrow> (Panic, rest, items)))"

declare stream_poll.simps [simp del]

definition try_next :: "message option startup_op" where
  "try_next s =
     (case stream_poll (st_buf s) (st_items s) of
        (r, buf, items) \<Rightarrow> (map_err err_io r, s\<lparr>st_buf := buf, st_items := items\<rparr>))"

text \<open>A message is built in a fresh buffer and sent; what was handed to the sink is recorded.\<close>

definition send_built :: "(unit, io_error) writer \<Rightarrow> unit startup_op" where
  "send_built w s =
     (case w [] of
        (Ok _, buf) \<Rightarrow> (map_err err_io (st_sink s (length (st_sent s))), s\<lparr>st_sent := st_sent s @ [Raw buf]\<rparr>)
      | (Err e, buf) \<Rightarrow> (Err (err_encode e), s)
      | (Panic, buf) \<Rightarrow> (Panic, s))"

section \<open>Startup\<close>

definition startup_parameters :: "config \<Rightarrow> str \<Rightarrow> (str \<times> str) list" where
  "startup_parameters cfg user =
     [(''client_encoding'', ''UTF8''), (''user'', user)] @
     (case cf_dbname cfg of Some d \<Rightarrow> [(''database'', d)] | None \<Rightarrow> []) @
     (case cf_options cfg of Some v \<Rightarrow> [(''options'', v)] | None \<Rightarrow> []) @
     (case cf_application_name cfg of Some v \<Rightarrow> [(''application_name'', v)] | None \<Rightarrow> [])"

definition startup :: "config \<Rightarrow> str \<Rightarrow> unit startup_op" where
  "startup cfg user = send_built (startup_message (startup_parameters cfg user))"

section \<open>Authentication\<close>

definition can_skip_channel_binding :: "config \<Rightarrow> (unit, error) rresult" where
  "can_skip_channel_binding cfg =
     (case cf_channel_binding cfg of
        CbRequire \<Rightarrow> Err (err_authentication (CauseText ''server did not use channel binding''))
      | _ \<Rightarrow> Ok ())"

definition password_of :: "config \<Rightarrow> (bytes, error) rresult" where
  "password_of cfg = ok_or (cf_password cfg) (err_config ''password missing'')"

definition authenticate_password :: "bytes \<Rightarrow> unit startup_op" where
  "authenticate_password pass = send_built (password_message pass)"

text \<open>What the tail of every \<open>match stream.try_next()\<close> does with the messages it does not want.\<close>

definition not_wanted :: "message option \<Rightarrow> ('a, error) rresult" where
  "not_wanted m =
     (case m of
        Some (ErrorResponse body) \<Rightarrow> Err (err_db body)
      | Some _ \<Rightarrow> Err err_unexpected_message
      | None \<Rightarrow> Err err_closed)"

text \<open>The body of the one message that is wanted.\<close>

definition wanted :: "(message \<Rightarrow> 'a option) \<Rightarrow> message option \<Rightarrow> ('a, error) rresult" where
  "wanted f m = (case Option.bind m f of Some x \<Rightarrow> Ok x | None \<Rightarrow> not_wanted m)"

definition is_sasl_continue :: "message \<Rightarrow> bytes option" where
  "is_sasl_continue m = (case m of AuthenticationSaslContinue body \<Rightarrow> Some body | _ \<Rightarrow> None)"

definition is_sasl_final :: "message \<Rightarrow> bytes option" where
  "is_sasl_final m = (case m of AuthenticationSaslFinal body \<Rightarrow> Some body | _ \<Rightarrow> None)"

definition is_auth_ok :: "message \<Rightarrow> unit option" where
  "is_auth_ok m = (case m of AuthenticationOk \<Rightarrow> Some () | _ \<Rightarrow> None)"

abbreviation SCRAM_SHA_256 :: str where "SCRAM_SHA_256 \<equiv> ''SCRAM-SHA-256''"
abbreviation SCRAM_SHA_256_PLUS :: str where "SCRAM_SHA_256_PLUS \<equiv> ''SCRAM-SHA-256-PLUS''"

text \<open>
  The channel binding and the mechanism, from the hash of the server's certificate if the stream
  has one (\<open>tls_server_end_point\<close>), and from the mechanisms the server offers.
\<close>

definition choose_mechanism :: "config \<Rightarrow> bytes option \<Rightarrow> str list \<Rightarrow> (channel_binding \<times> str, error) rresult" where
  "choose_mechanism cfg cert offered =
     (let binding = (if cf_channel_binding cfg \<noteq> CbDisable then map_option TlsServerEndPoint cert else None) in
      if List.member offered SCRAM_SHA_256_PLUS then
        (case binding of
           Some b \<Rightarrow> Ok (b, SCRAM_SHA_256_PLUS)
         | None \<Rightarrow> Ok (Unsupported, SCRAM_SHA_256))
      else if List.member offered SCRAM_SHA_256 then
        (case binding of
           Some _ \<Rightarrow> Ok (Unrequested, SCRAM_SHA_256)
         | None \<Rightarrow> Ok (Unsupported, SCRAM_SHA_256))
      else Err (err_authentication (CauseText ''unsupported SASL mechanism'')))"

definition sasl_io :: "(unit, io_error) rresult \<Rightarrow> (unit, error) rresult" where
  "sasl_io r = map_err (\<lambda>e. err_authentication (CauseIo e)) r"

text \<open>\<open>scram.message()\<close> panics in the last state, which no call here reaches.\<close>

definition send_scram :: "(bytes \<Rightarrow> (unit, io_error) writer) \<Rightarrow> scram \<Rightarrow> unit startup_op" where
  "send_scram w sc =
     (case scram_message sc of Ok data \<Rightarrow> send_built (w data) | _ \<Rightarrow> sres Panic)"

text \<open>The part from the server's first message on.\<close>

definition sasl_answer :: "crypto \<Rightarrow> scram \<Rightarrow> bytes \<Rightarrow> unit startup_op" where
  "sasl_answer c sc body =
     (case scram_update c body sc of (r, sc) \<Rightarrow>
     sbind (sres (sasl_io r)) (\<lambda>_.
     sbind (send_scram sasl_response sc) (\<lambda>_.
     sbind try_next (\<lambda>m.
     sbind (sres (wanted is_sasl_final m)) (\<lambda>body.
       sres (sasl_io (fst (scram_finish c body sc))))))))"

definition authenticate_sasl :: "crypto \<Rightarrow> nat list \<Rightarrow> bytes option \<Rightarrow> config \<Rightarrow> bytes \<Rightarrow> unit startup_op" where
  "authenticate_sasl c draws cert cfg body =
     sbind (sres (password_of cfg)) (\<lambda>pass.
     sbind (sres (map_err err_parse (collect length sasl_mechanisms_next (mechanisms body)))) (\<lambda>offered.
     sbind (sres (choose_mechanism cfg cert offered)) (\<lambda>(binding, mechanism).
     sbind (sres (if mechanism \<noteq> SCRAM_SHA_256_PLUS then can_skip_channel_binding cfg else Ok ())) (\<lambda>_.
       let sc = scram_new c pass binding draws in
     sbind (send_scram (sasl_initial_response mechanism) sc) (\<lambda>_.
     sbind try_next (\<lambda>m.
     sbind (sres (wanted is_sasl_continue m)) (sasl_answer c sc)))))))"

definition expect_ok :: "unit startup_op" where
  "expect_ok = sbind try_next (\<lambda>m. sres (wanted is_auth_ok m))"

definition unsupported_method :: "(unit, error) rresult" where
  "unsupported_method = Err (err_authentication (CauseText ''unsupported authentication method''))"

text \<open>What the first message asks for.\<close>

definition auth_method :: "crypto \<Rightarrow> nat list \<Rightarrow> bytes option \<Rightarrow> config \<Rightarrow> str \<Rightarrow> message option \<Rightarrow> unit startup_op" where
  "auth_method c draws cert cfg user m =
     (case m of
        None \<Rightarrow> sres (not_wanted m)
      | Some x \<Rightarrow>
          (case x of
             AuthenticationOk \<Rightarrow> sres (can_skip_channel_binding cfg)
           | AuthenticationCleartextPassword \<Rightarrow>
               sbind (sres (can_skip_channel_binding cfg)) (\<lambda>_.
               sbind (sres (password_of cfg)) (\<lambda>pass.
               sbind (authenticate_password pass) (\<lambda>_. expect_ok)))
           | AuthenticationMd5Password salt \<Rightarrow>
               sbind (sres (can_skip_channel_binding cfg)) (\<lambda>_.
               sbind (sres (password_of cfg)) (\<lambda>pass.
               sbind (authenticate_password (as_bytes (md5_hash c (as_bytes user) pass salt))) (\<lambda>_. expect_ok)))
           | AuthenticationSasl body \<Rightarrow>
               sbind (authenticate_sasl c draws cert cfg body) (\<lambda>_. expect_ok)
           | AuthenticationKerberosV5 \<Rightarrow> sres unsupported_method
           | AuthenticationScmCredential \<Rightarrow> sres unsupported_method
           | AuthenticationGss \<Rightarrow> sres unsupported_method
           | AuthenticationSspi \<Rightarrow> sres unsupported_method
           | _ \<Rightarrow> sres (not_wanted m)))"

definition authenticate :: "crypto \<Rightarrow> nat list \<Rightarrow> bytes option \<Rightarrow> config \<Rightarrow> str \<Rightarrow> unit startup_op" where
  "authenticate c draws cert cfg user = sbind try_next (auth_method c draws cert cfg user)"

section \<open>The session's parameters\<close>

record session_info =
  si_process_id :: i32
  si_secret_key :: i32
  si_parameters :: "str \<rightharpoonup> str"

definition info_new :: session_info where
  "info_new = \<lparr>si_process_id = 0, si_secret_key = 0, si_parameters = Map.empty\<rparr>"

text \<open>One message: the information goes on, or the loop ends.\<close>

datatype info_round = InfoMore session_info "backend_message list" | InfoDone "(session_info, error) rresult"

definition parameter_pair :: "parameter_status_body \<Rightarrow> (str \<times> str, error) rresult" where
  "parameter_pair body =
     rbind (map_err err_parse (parameter_name body)) (\<lambda>name.
       map_ok (Pair name) (map_err err_parse (parameter_value body)))"

definition info_step :: "session_info \<Rightarrow> message option \<Rightarrow> info_round" where
  "info_step i m =
     (case m of
        Some (BackendKeyData body) \<Rightarrow>
          InfoMore (i\<lparr>si_process_id := kd_process_id body, si_secret_key := kd_secret_key body\<rparr>) []
      | Some (ParameterStatus body) \<Rightarrow>
          (case parameter_pair body of
             Ok (name, v) \<Rightarrow> InfoMore (i\<lparr>si_parameters := (si_parameters i)(name \<mapsto> v)\<rparr>) []
           | Err e \<Rightarrow> InfoDone (Err e)
           | Panic \<Rightarrow> InfoDone Panic)
      | Some (NoticeResponse b) \<Rightarrow> InfoMore i [Async (NoticeResponse b)]
      | Some (ReadyForQuery b) \<Rightarrow> InfoDone (Ok i)
      | m \<Rightarrow> InfoDone (not_wanted m))"

text \<open>Fuel: every round takes a message off the stream, so its size is enough, as the theorems on \<open>read_info\<close> show.\<close>

fun read_info_fuel :: "nat \<Rightarrow> session_info \<Rightarrow> session_info startup_op" where
  "read_info_fuel 0 i s = (Panic, s)"
| "read_info_fuel (Suc n) i s =
     (case try_next s of
        (Ok m, s) \<Rightarrow>
          (case info_step i m of
             InfoMore i d \<Rightarrow> read_info_fuel n i (s\<lparr>st_delayed := st_delayed s @ d\<rparr>)
           | InfoDone r \<Rightarrow> (r, s))
      | (Err e, s) \<Rightarrow> (Err e, s)
      | (Panic, s) \<Rightarrow> (Panic, s))"

definition item_size :: "(backend_message, io_error) rresult \<Rightarrow> nat" where
  "item_size x = (case x of Ok (Normal b c) \<Rightarrow> Suc (length b) | _ \<Rightarrow> 1)"

definition stream_size :: "startup_stream \<Rightarrow> nat" where
  "stream_size s = length (st_buf s) + sum_list (map item_size (st_items s))"

definition read_info :: "session_info startup_op" where
  "read_info s = read_info_fuel (Suc (stream_size s)) info_new s"

section \<open>Connecting\<close>

text \<open>What is outside: the socket with its TLS, its items and its sink, the user's name, the hashes.\<close>

record raw_world =
  rw_tls :: tls_world
  rw_certificate :: "bytes option"
  rw_username :: "(str, io_error) rresult"
  rw_items :: "(backend_message, io_error) rresult list"
  rw_sink :: "nat \<Rightarrow> (unit, io_error) rresult"
  rw_crypto :: crypto
  rw_draws :: "nat list"

definition startup_stream_new :: "raw_world \<Rightarrow> startup_stream" where
  "startup_stream_new w = \<lparr>st_items = rw_items w, st_buf = [], st_delayed = [], st_sink = rw_sink w, st_sent = []\<rparr>"

text \<open>\<open>MaybeTlsStream::channel_binding\<close>\<close>

definition stream_certificate :: "raw_world \<Rightarrow> maybe_tls \<Rightarrow> bytes option" where
  "stream_certificate w kind = (case kind of RawStream \<Rightarrow> None | TlsStream \<Rightarrow> rw_certificate w)"

record connected =
  cd_ssl_mode :: ssl_mode
  cd_ssl_negotiation :: ssl_negotiation
  cd_process_id :: i32
  cd_secret_key :: i32
  cd_connection :: conn

definition config_user :: "raw_world \<Rightarrow> config \<Rightarrow> (str, error) rresult" where
  "config_user w cfg = (case cf_user cfg of Some u \<Rightarrow> Ok u | None \<Rightarrow> map_err err_io (rw_username w))"

definition raw_session :: "raw_world \<Rightarrow> maybe_tls \<Rightarrow> config \<Rightarrow> connected startup_op" where
  "raw_session w kind cfg =
     sbind (sres (config_user w cfg)) (\<lambda>user.
     sbind (startup cfg user) (\<lambda>_.
     sbind (authenticate (rw_crypto w) (rw_draws w) (stream_certificate w kind) cfg user) (\<lambda>_.
     sbind read_info (\<lambda>i s.
       (Ok \<lparr>cd_ssl_mode = cf_ssl_mode cfg, cd_ssl_negotiation = cf_ssl_negotiation cfg,
            cd_process_id = si_process_id i, cd_secret_key = si_secret_key i,
            cd_connection = connection_new (st_delayed s) (si_parameters i)\<rparr>, s)))))"

definition connect_raw :: "raw_world \<Rightarrow> bool \<Rightarrow> config \<Rightarrow> connected startup_op" where
  "connect_raw w has_hostname cfg =
     (case to_result (connect_tls (rw_tls w) (cf_ssl_mode cfg) (cf_ssl_negotiation cfg) has_hostname) of
        Ok kind \<Rightarrow> raw_session w kind cfg
      | Err e \<Rightarrow> sres (Err e)
      | Panic \<Rightarrow> sres Panic)"

definition config_connect_raw :: "raw_world \<Rightarrow> config \<Rightarrow> (connected, error) rresult \<times> startup_stream" where
  "config_connect_raw w cfg = connect_raw w True cfg (startup_stream_new w)"

end
