(* ===== verification/StartupSpec.thy ===== *)
theory StartupSpec
  imports Startup ScramSpec FrontendSpec
begin

text \<open>
  What a successful start of a session means: which transcripts authentication accepts, what
  \<open>channel_binding=require\<close> guarantees, and that an honest server and a client with the right
  password come to a session with the parameters the server reported.
\<close>

section \<open>Rules for the operations\<close>

lemma sbind_Ok: "sbind m f s = (Ok y, s') \<longleftrightarrow> (\<exists>x s1. m s = (Ok x, s1) \<and> f x s1 = (Ok y, s'))"
  by (auto simp: sbind_def split: prod.splits rresult.splits)

lemma sres_Ok: "sres r s = (Ok x, s') \<longleftrightarrow> r = Ok x \<and> s' = s"
  by (auto simp: sres_def)

lemma sbind_run: "m s = (Ok x, s1) \<Longrightarrow> sbind m f s = f x s1"
  by (simp add: sbind_def)

lemma not_wanted_Ok [simp]: "not_wanted m \<noteq> Ok x"
  by (simp add: not_wanted_def split: option.split message.split)

lemma send_built_Ok:
  "send_built w s = (Ok x, s') \<longleftrightarrow>
     (\<exists>buf. w [] = (Ok (), buf) \<and> st_sink s (length (st_sent s)) = Ok () \<and> s' = s\<lparr>st_sent := st_sent s @ [Raw buf]\<rparr>)"
  by (auto simp: send_built_def split: prod.splits rresult.splits)

section \<open>What is read\<close>

text \<open>The first messages of a stream, as far as there are any.\<close>

primrec reads_messages :: "nat \<Rightarrow> bytes \<Rightarrow> (backend_message, io_error) rresult list \<Rightarrow> message list" where
  "reads_messages 0 buf items = []"
| "reads_messages (Suc n) buf items =
     (case stream_poll buf items of
        (Ok (Some m), buf, items) \<Rightarrow> m # reads_messages n buf items
      | _ \<Rightarrow> [])"

definition received :: "nat \<Rightarrow> startup_stream \<Rightarrow> message list" where
  "received n s = reads_messages n (st_buf s) (st_items s)"

lemma received_0 [simp]: "received 0 s = []"
  by (simp add: received_def)

lemma received_Suc: "received (Suc n) s = (case try_next s of (Ok (Some m), s') \<Rightarrow> m # received n s' | _ \<Rightarrow> [])"
  by (simp add: received_def try_next_def split: prod.split rresult.split option.split)

lemma received_sent [simp]: "received n (s\<lparr>st_sent := x\<rparr>) = received n s"
  by (simp add: received_def)

lemma try_next_frame: "try_next s = (r, s') \<Longrightarrow> st_sent s' = st_sent s \<and> st_sink s' = st_sink s \<and> st_delayed s' = st_delayed s"
  by (auto simp: try_next_def split: prod.splits)

text \<open>One message read and wanted.\<close>

lemma wanted_iff: "wanted f m = Ok x \<longleftrightarrow> Option.bind m f = Some x"
  by (auto simp: wanted_def split: option.split)

lemma is_sasl_iff:
  "is_sasl_continue m = Some b \<longleftrightarrow> m = AuthenticationSaslContinue b"
  "is_sasl_final m = Some b \<longleftrightarrow> m = AuthenticationSaslFinal b"
  "is_auth_ok m = Some u \<longleftrightarrow> m = AuthenticationOk"
  by (cases m; simp add: is_sasl_continue_def is_sasl_final_def is_auth_ok_def)+

lemmas wanted_simps = wanted_iff bind_eq_Some_conv is_sasl_iff

lemma expect_ok_Ok: "expect_ok s = (Ok u, s') \<longleftrightarrow> try_next s = (Ok (Some AuthenticationOk), s')"
  by (auto simp: expect_ok_def sbind_Ok sres_Ok wanted_simps)

section \<open>Authentication\<close>

text \<open>
  A SCRAM exchange that ended well: the proof of the server covers the salted password, the client's
  nonce, the server's first message and the channel binding.
\<close>

definition scram_verified ::
  "crypto \<Rightarrow> bytes \<Rightarrow> channel_binding \<Rightarrow> str \<Rightarrow> bytes \<Rightarrow> bytes \<Rightarrow> bool" where
  "scram_verified c pass binding nonce first final \<longleftrightarrow>
     (\<exists>snonce salt n v.
        starts_with snonce nonce \<and> final = ascii ''v='' @ as_bytes v \<and>
        b64_decode c v = Ok (hmac c (hmac c (hi c (normalize c pass) salt n) (ascii ''Server Key''))
          (as_bytes (auth_message_of nonce (of_bytes first) (client_final_bare c binding snonce)))))"

lemma scram_update_Ok:
  assumes "scram_update c body (new_inner c pass b nonce) = (Ok x, sc)"
  shows "\<exists>(p :: server_first) salt. starts_with (sf_nonce p) nonce \<and>
    sc_state sc = Finish (hi c (normalize c pass) salt (sf_iteration_count p))
      (auth_message_of nonce (of_bytes body) (client_final_bare c b (sf_nonce p)))"
proof -
  from assms obtain t p salt where p: "utf8_text body = Ok t" "starts_with (sf_nonce p) nonce"
    "sc = snd (scram_update c body (new_inner c pass b nonce))" "run_parser server_first_message t = Ok p" "b64_decode c (sf_salt p) = Ok salt"
    by (auto simp: scram_update_def new_inner_def Let_def split: rresult.splits prod.splits if_splits)
  then have "sc_state sc = Finish (hi c (normalize c pass) salt (sf_iteration_count p)) (auth_message_of nonce t (client_final_bare c b (sf_nonce p)))"
    by (simp add: scram_update_def new_inner_def Let_def)
  moreover from p(1) have "t = of_bytes body" by (simp add: utf8_text_def from_utf8_iff)
  ultimately show ?thesis using p(2) by blast
qed

lemma scram_run_verified:
  assumes "scram_update c first (new_inner c pass b nonce) = (Ok x, sc)" and "fst (scram_finish c final sc) = Ok ()"
  shows "scram_verified c pass b nonce first final"
  using scram_update_Ok [OF assms(1)] assms(2)
  unfolding scram_finish_Ok scram_verified_def by fastforce

text \<open>The mechanism chosen, when it is chosen at all.\<close>

lemma choose_mechanism_plus:
  "choose_mechanism cfg cert offered = Ok (b, m) \<Longrightarrow> m = SCRAM_SHA_256_PLUS \<longleftrightarrow> (\<exists>h. b = TlsServerEndPoint h \<and> cert = Some h)"
  by (auto simp: choose_mechanism_def Let_def split: if_splits option.splits)

definition sasl_frames :: "crypto \<Rightarrow> bytes \<Rightarrow> channel_binding \<Rightarrow> str \<Rightarrow> str \<Rightarrow> bytes \<Rightarrow> frontend_message list" where
  "sasl_frames c pass binding mechanism nonce first =
     (let sc = new_inner c pass binding nonce in
      [Raw (snd (sasl_initial_response mechanism (as_bytes (sc_message sc)) [])),
       Raw (snd (sasl_response (as_bytes (sc_message (snd (scram_update c first sc)))) []))])"

lemma send_scram_Ok:
  "send_scram w sc s = (Ok x, s') \<longleftrightarrow>
     sc_state sc \<noteq> ScramDone \<and> (\<exists>buf. w (as_bytes (sc_message sc)) [] = (Ok (), buf) \<and> st_sink s (length (st_sent s)) = Ok () \<and>
       s' = s\<lparr>st_sent := st_sent s @ [Raw buf]\<rparr>)"
  by (auto simp: send_scram_def scram_message_def send_built_Ok sres_def)

lemma sasl_answer_Ok:
  "sasl_answer c sc body s = (Ok u, s') \<longleftrightarrow>
     (\<exists>x sc' sb final. scram_update c body sc = (Ok x, sc') \<and> send_scram sasl_response sc' s = (Ok (), sb) \<and>
        try_next sb = (Ok (Some (AuthenticationSaslFinal final)), s') \<and> fst (scram_finish c final sc') = Ok ())"
  by (cases "scram_update c body sc")
    (auto simp: sasl_answer_def sbind_Ok sres_Ok wanted_simps sasl_io_def)

lemma authenticate_sasl_Ok:
  assumes "authenticate_sasl c draws cert cfg body s = (Ok u, s')"
  obtains pass offered binding mechanism first final s1 where
    "cf_password cfg = Some pass" "collect length sasl_mechanisms_next body = Ok offered"
    "choose_mechanism cfg cert offered = Ok (binding, mechanism)"
    "mechanism = SCRAM_SHA_256_PLUS \<or> cf_channel_binding cfg \<noteq> CbRequire"
    "try_next (s\<lparr>st_sent := st_sent s @ [hd (sasl_frames c pass binding mechanism (map nonce_char draws) first)]\<rparr>) =
       (Ok (Some (AuthenticationSaslContinue first)), s1)"
    "try_next (s1\<lparr>st_sent := st_sent s @ sasl_frames c pass binding mechanism (map nonce_char draws) first\<rparr>) =
       (Ok (Some (AuthenticationSaslFinal final)), s')"
    "scram_verified c pass binding (map nonce_char draws) first final"
proof -
  from assms obtain pass offered bm where
    1: "cf_password cfg = Some pass" "collect length sasl_mechanisms_next body = Ok offered" "choose_mechanism cfg cert offered = Ok bm"
    by (auto simp: authenticate_sasl_def sbind_Ok sres_Ok password_of_def mechanisms_def)
  obtain binding mechanism where bm: "bm = (binding, mechanism)" by fastforce
  let ?sc = "new_inner c pass binding (map nonce_char draws)"
  from assms 1 bm obtain sa first s1 where
    2: "(if mechanism \<noteq> SCRAM_SHA_256_PLUS then can_skip_channel_binding cfg else Ok ()) = Ok ()"
      "send_scram (sasl_initial_response mechanism) ?sc s = (Ok (), sa)"
      "try_next sa = (Ok (Some (AuthenticationSaslContinue first)), s1)" "sasl_answer c ?sc first s1 = (Ok u, s')"
    by (auto simp: authenticate_sasl_def sbind_Ok sres_Ok wanted_simps password_of_def mechanisms_def scram_new_def Let_def)
  from 2(4) obtain x sc sb final where
    3: "scram_update c first ?sc = (Ok x, sc)" "send_scram sasl_response sc s1 = (Ok (), sb)"
      "try_next sb = (Ok (Some (AuthenticationSaslFinal final)), s')" "fst (scram_finish c final sc) = Ok ()"
    unfolding sasl_answer_Ok by blast
  have skip: "mechanism = SCRAM_SHA_256_PLUS \<or> cf_channel_binding cfg \<noteq> CbRequire"
    using 2(1) by (auto simp: can_skip_channel_binding_def split: if_splits channel_binding_mode.splits)
  have sa: "sa = s\<lparr>st_sent := st_sent s @ [hd (sasl_frames c pass binding mechanism (map nonce_char draws) first)]\<rparr>"
    using 2(2) by (auto simp: send_scram_Ok sasl_frames_def)
  have "st_sent s1 = st_sent sa" using try_next_frame [OF 2(3)] by simp
  then have sb: "sb = s1\<lparr>st_sent := st_sent s @ sasl_frames c pass binding mechanism (map nonce_char draws) first\<rparr>"
    using 3(1,2) sa by (auto simp: send_scram_Ok sasl_frames_def Let_def)
  from scram_run_verified [OF 3(1,4)] show ?thesis
    using that [of pass offered binding mechanism first s1 final] 1 bm skip 2(3) 3(3) sa sb by simp
qed

text \<open>The transcripts authentication can accept: what the server sent, and what was sent to it.\<close>

definition binding_not_required :: "config \<Rightarrow> bool" where
  "binding_not_required cfg \<longleftrightarrow> cf_channel_binding cfg \<noteq> CbRequire"

definition password_frame :: "bytes \<Rightarrow> frontend_message" where
  "password_frame pass = Raw (snd (password_message pass []))"

definition plain_transcript :: "crypto \<Rightarrow> config \<Rightarrow> str \<Rightarrow> message list \<Rightarrow> frontend_message list \<Rightarrow> bool" where
  "plain_transcript c cfg user ms out \<longleftrightarrow>
     binding_not_required cfg \<and>
     (ms = [AuthenticationOk] \<and> out = [] \<or>
      (\<exists>pass. cf_password cfg = Some pass \<and>
         (ms = [AuthenticationCleartextPassword, AuthenticationOk] \<and> out = [password_frame pass] \<or>
          (\<exists>salt. ms = [AuthenticationMd5Password salt, AuthenticationOk] \<and>
             out = [password_frame (as_bytes (md5_hash c (as_bytes user) pass salt))]))))"

definition sasl_transcript ::
  "crypto \<Rightarrow> str \<Rightarrow> bytes option \<Rightarrow> config \<Rightarrow> message list \<Rightarrow> frontend_message list \<Rightarrow> bool" where
  "sasl_transcript c nonce cert cfg ms out \<longleftrightarrow>
     (\<exists>pass body offered binding mechanism first final.
        cf_password cfg = Some pass \<and>
        ms = [AuthenticationSasl body, AuthenticationSaslContinue first, AuthenticationSaslFinal final, AuthenticationOk] \<and>
        collect length sasl_mechanisms_next body = Ok offered \<and>
        choose_mechanism cfg cert offered = Ok (binding, mechanism) \<and>
        (mechanism = SCRAM_SHA_256_PLUS \<or> binding_not_required cfg) \<and>
        out = sasl_frames c pass binding mechanism nonce first \<and>
        scram_verified c pass binding nonce first final)"

lemma can_skip_Ok: "can_skip_channel_binding cfg = Ok u \<longleftrightarrow> binding_not_required cfg"
  by (simp add: can_skip_channel_binding_def binding_not_required_def split: channel_binding_mode.split)

lemma send_password_Ok:
  "authenticate_password pass s = (Ok u, s') \<Longrightarrow> s' = s\<lparr>st_sent := st_sent s @ [password_frame pass]\<rparr>"
  by (auto simp: authenticate_password_def send_built_Ok password_frame_def)

lemma received_next: "try_next s = (Ok (Some m), s') \<Longrightarrow> received (Suc n) s = m # received n s'"
  by (simp add: received_Suc)

lemma received_next_sent: "try_next (s\<lparr>st_sent := x\<rparr>) = (Ok (Some m), s') \<Longrightarrow> received (Suc n) s = m # received n s'"
  using received_next [of "s\<lparr>st_sent := x\<rparr>" m s' n] by simp

lemma password_run:
  assumes "try_next s = (Ok (Some m), s1)"
    and "sbind (sres (can_skip_channel_binding cfg)) (\<lambda>_. sbind (sres (password_of cfg)) (\<lambda>pass.
           sbind (authenticate_password (f pass)) (\<lambda>_. expect_ok))) s1 = (Ok u, s')"
  shows "\<exists>pass. cf_password cfg = Some pass \<and> binding_not_required cfg \<and> received 2 s = [m, AuthenticationOk] \<and>
    st_sent s' = st_sent s @ [password_frame (f pass)]"
proof -
  from assms(2) obtain pass s2 where 1: "cf_password cfg = Some pass" "binding_not_required cfg"
    "authenticate_password (f pass) s1 = (Ok (), s2)" "try_next s2 = (Ok (Some AuthenticationOk), s')"
    by (auto simp: sbind_Ok sres_Ok can_skip_Ok password_of_def expect_ok_Ok)
  note s2 = send_password_Ok [OF 1(3)]
  have "received 2 s = [m, AuthenticationOk]"
    using received_next [OF assms(1), of 1] received_next_sent [where s = s1 and x = "st_sent s1 @ [password_frame (f pass)]" and m = AuthenticationOk and s' = s' and n = 0] 1(4) s2
    by (simp add: numeral_2_eq_2)
  with 1 s2 show ?thesis using try_next_frame [OF assms(1)] try_next_frame [OF 1(4)] by simp
qed

lemma sasl_run:
  assumes "try_next s = (Ok (Some (AuthenticationSasl body)), s1)"
    and "sbind (authenticate_sasl c draws cert cfg body) (\<lambda>_. expect_ok) s1 = (Ok u, s')"
  shows "\<exists>out. sasl_transcript c (map nonce_char draws) cert cfg (received 4 s) out \<and> st_sent s' = st_sent s @ out"
proof -
  from assms(2) obtain v s2 where 1: "authenticate_sasl c draws cert cfg body s1 = (Ok v, s2)" "try_next s2 = (Ok (Some AuthenticationOk), s')"
    by (auto simp: sbind_Ok expect_ok_Ok)
  obtain pass offered binding mechanism first final s3 where
    2: "cf_password cfg = Some pass" "collect length sasl_mechanisms_next body = Ok offered"
    "choose_mechanism cfg cert offered = Ok (binding, mechanism)"
    "mechanism = SCRAM_SHA_256_PLUS \<or> cf_channel_binding cfg \<noteq> CbRequire"
    "try_next (s1\<lparr>st_sent := st_sent s1 @ [hd (sasl_frames c pass binding mechanism (map nonce_char draws) first)]\<rparr>) =
       (Ok (Some (AuthenticationSaslContinue first)), s3)"
    "try_next (s3\<lparr>st_sent := st_sent s1 @ sasl_frames c pass binding mechanism (map nonce_char draws) first\<rparr>) =
       (Ok (Some (AuthenticationSaslFinal final)), s2)"
    "scram_verified c pass binding (map nonce_char draws) first final"
    by (rule authenticate_sasl_Ok [OF 1(1)])
  have "received 4 s = [AuthenticationSasl body, AuthenticationSaslContinue first, AuthenticationSaslFinal final, AuthenticationOk]"
    using received_next [OF assms(1), of 3] received_next_sent [OF 2(5), where n = 2] received_next_sent [OF 2(6), where n = 1] received_next [OF 1(2), of 0]
    by (simp add: eval_nat_numeral)
  moreover have "st_sent s' = st_sent s @ sasl_frames c pass binding mechanism (map nonce_char draws) first"
    using try_next_frame [OF assms(1)] try_next_frame [OF 1(2)] try_next_frame [OF 2(6)] by simp
  ultimately show ?thesis using 2 by (auto simp: sasl_transcript_def binding_not_required_def)
qed

lemma authenticate_Ok:
  assumes "authenticate c draws cert cfg user s = (Ok u, s')"
  shows "\<exists>n out. st_sent s' = st_sent s @ out \<and>
    (plain_transcript c cfg user (received n s) out \<or> sasl_transcript c (map nonce_char draws) cert cfg (received n s) out)"
proof -
  from assms obtain m s1 where m: "try_next s = (Ok m, s1)" and run: "auth_method c draws cert cfg user m s1 = (Ok u, s')"
    by (auto simp: authenticate_def sbind_Ok)
  from run obtain x where x: "m = Some x" by (cases m) (auto simp: auth_method_def sres_Ok)
  note m = m [unfolded x] and run = run [unfolded x auth_method_def option.case]
  show ?thesis
  proof (cases x)
    case AuthenticationOk
    with run have "binding_not_required cfg" "s' = s1" by (simp_all add: sres_Ok can_skip_Ok)
    with received_next [OF m, of 0] try_next_frame [OF m] AuthenticationOk show ?thesis
      by (intro exI [of _ 1] exI [of _ "[]"]) (simp add: plain_transcript_def)
  next
    case AuthenticationCleartextPassword
    with password_run [OF m, of cfg "\<lambda>p. p" u s'] run obtain pass where
      "cf_password cfg = Some pass" "binding_not_required cfg" "received 2 s = [x, AuthenticationOk]" "st_sent s' = st_sent s @ [password_frame pass]"
      by auto
    with AuthenticationCleartextPassword show ?thesis
      by (intro exI [of _ 2] exI [of _ "[password_frame pass]"]) (simp add: plain_transcript_def)
  next
    case (AuthenticationMd5Password salt)
    with password_run [OF m, of cfg "\<lambda>p. as_bytes (md5_hash c (as_bytes user) p salt)" u s'] run obtain pass where
      "cf_password cfg = Some pass" "binding_not_required cfg" "received 2 s = [x, AuthenticationOk]"
      "st_sent s' = st_sent s @ [password_frame (as_bytes (md5_hash c (as_bytes user) pass salt))]"
      by auto
    with AuthenticationMd5Password show ?thesis
      by (intro exI [of _ 2] exI [of _ "[password_frame (as_bytes (md5_hash c (as_bytes user) pass salt))]"]) (auto simp: plain_transcript_def)
  next
    case (AuthenticationSasl body)
    with run sasl_run [OF m [unfolded AuthenticationSasl], of c draws cert cfg u s'] show ?thesis by auto
  qed (use run in \<open>simp_all add: sres_Ok unsupported_method_def\<close>)
qed

text \<open>
  C20. The transcripts a successful authentication can have. Either channel binding is not required
  and the server asked for nothing, for the password or for its MD5 digest, in which case exactly
  that was sent; or the server offered SASL and the whole SCRAM exchange took place: the mechanism
  is the one the offer and the certificate call for, \<open>SCRAM-SHA-256-PLUS\<close> if channel binding is
  required, and the server has proved that it holds the keys of the password. The password itself
  leaves the client only when the server's first message asks for it.
\<close>

theorem authenticated_transcripts:
  assumes "authenticate c draws cert cfg user s = (Ok u, s')"
  shows "\<exists>n out. st_sent s' = st_sent s @ out \<and>
    (plain_transcript c cfg user (received n s) out \<or> sasl_transcript c (map nonce_char draws) cert cfg (received n s) out)"
  by (rule authenticate_Ok [OF assms])

definition sample_stream :: "(backend_message, io_error) rresult list \<Rightarrow> startup_stream" where
  "sample_stream items = \<lparr>st_items = items, st_buf = [], st_delayed = [], st_sink = \<lambda>_. Ok (), st_sent = []\<rparr>"

lemma next_nothing: "backend_messages_next [] = Ok (None, [])"
  by (simp add: backend_messages_next_def message_parse_def)

lemma next_encoded: "sendable m \<Longrightarrow> backend_messages_next (encode_message m @ b) = Ok (Some m, b)"
  by (simp add: backend_messages_next_def message_parse_encode sendable_wf)

lemma sample_next_message:
  "sendable m \<Longrightarrow> try_next (sample_stream (Ok (Normal (encode_all (m # ms)) c) # items)) =
     (Ok (Some m), sample_stream items\<lparr>st_buf := encode_all ms\<rparr>)"
  by (simp add: try_next_def sample_stream_def stream_poll.simps next_nothing next_encoded)

theorem authenticated_transcripts_witness:
  "authenticate unary_crypto [] None config_new ''bob'' (sample_stream [Ok (Normal (encode_all [AuthenticationOk]) False)]) =
     (Ok (), sample_stream []) \<and>
   (\<exists>n out. st_sent (sample_stream []) = st_sent (sample_stream [Ok (Normal (encode_all [AuthenticationOk]) False)]) @ out \<and>
      (plain_transcript unary_crypto config_new ''bob'' (received n (sample_stream [Ok (Normal (encode_all [AuthenticationOk]) False)])) out \<or>
       sasl_transcript unary_crypto [] None config_new (received n (sample_stream [Ok (Normal (encode_all [AuthenticationOk]) False)])) out))"
proof -
  let ?s = "sample_stream [Ok (Normal (encode_all [AuthenticationOk]) False)]"
  have "sendable AuthenticationOk" by (simp add: sendable_def fields_wf_def)
  from sample_next_message [OF this, of "[]" False "[]"]
  have "authenticate unary_crypto [] None config_new ''bob'' ?s = (Ok (), sample_stream [])"
    by (simp add: authenticate_def sbind_def auth_method_def sres_def can_skip_channel_binding_def config_new_def sample_stream_def)
  with authenticated_transcripts [OF this] show ?thesis by simp
qed

section \<open>Streams of whole messages\<close>

text \<open>What the codec makes of the messages \<open>ms\<close>, however they were cut: the items and the run at hand.\<close>

definition yields :: "bytes \<Rightarrow> (backend_message, io_error) rresult list \<Rightarrow> message list \<Rightarrow> bool" where
  "yields buf items ms \<longleftrightarrow>
     (\<exists>b gs xs. collect length backend_messages_next buf = Ok b \<and> items = map Ok xs \<and> list_all2 item_ok gs xs \<and> ms = b @ concat gs)"

lemma next_None: "backend_messages_next b = Ok (None, r) \<Longrightarrow> r = b"
  by (auto simp: backend_messages_next_def message_parse_def Let_def split: prod.splits rresult.splits option.splits if_splits)

lemma collect_cases:
  assumes "collect length backend_messages_next buf = Ok b"
  obtains (none) "b = []" "backend_messages_next buf = Ok (None, buf)"
  | (some) m r b' where "b = m # b'" "backend_messages_next buf = Ok (Some m, r)" "collect length backend_messages_next r = Ok b'"
proof (cases "backend_messages_next buf")
  case (Ok a)
  then obtain x r where "backend_messages_next buf = Ok (x, r)" by (cases a) simp
  with assms next_None [of buf r] none some show ?thesis
    unfolding run_it.collect_unfold [of buf] by (cases x) auto
qed (use assms run_it.collect_unfold [of buf] in simp_all)

lemma item_ok_Async: "item_ok g (Async m) \<Longrightarrow> g = [m]"
  by (simp add: item_ok_def item_messages_def)

lemma item_ok_Normal: "item_ok g (Normal b c) \<Longrightarrow> collect length backend_messages_next b = Ok g \<and> g \<noteq> []"
  by (simp add: item_ok_def item_messages_def)

lemma poll_yields:
  "yields buf items (m # ms) \<Longrightarrow> \<exists>buf' items'. stream_poll buf items = (Ok (Some m), buf', items') \<and> yields buf' items' ms"
proof (induction items arbitrary: buf)
  case Nil
  then have "collect length backend_messages_next buf = Ok (m # ms)" by (auto simp: yields_def)
  then show ?case
    by (cases rule: collect_cases) (auto simp: stream_poll.simps yields_def)
next
  case (Cons x items)
  from Cons.prems obtain b gs xs where y: "collect length backend_messages_next buf = Ok b" "x # items = map Ok xs"
    "list_all2 item_ok gs xs" "m # ms = b @ concat gs"
    unfolding yields_def by (elim exE conjE) (rule that)
  from y(1) show ?case
  proof (cases rule: collect_cases)
    case (some m' r b')
    with y have "yields r (x # items) ms" by (auto simp: yields_def)
    with some y(4) show ?thesis by (simp add: stream_poll.simps)
  next
    case none
    from y(2,3) obtain i xs' g gs' where x: "x = Ok i" "items = map Ok xs'" "gs = g # gs'" "item_ok g i" "list_all2 item_ok gs' xs'"
      by (auto simp: list_all2_Cons2)
    show ?thesis
    proof (cases i)
      case (Normal b0 c)
      with x y none have "yields b0 items (m # ms)" by (auto simp: yields_def dest: item_ok_Normal)
      from Cons.IH [OF this] none x(1) Normal show ?thesis by (subst stream_poll.simps) simp
    next
      case (Async m0)
      with x(4) have "g = [m0]" by (simp add: item_ok_Async)
      with y(4) x(3) none(1) have m: "m0 = m" "ms = concat gs'" by simp_all
      then have "yields buf items ms"
        unfolding yields_def using y(1) none(1) x(2,5) by (intro exI [of _ "[]"] exI [of _ gs'] exI [of _ xs']) simp
      note m(1) this
      with none(2) x(1) Async show ?thesis by (subst stream_poll.simps) simp
    qed
  qed
qed

lemma next_yields:
  assumes "yields (st_buf s) (st_items s) (m # ms)"
  obtains s' where "try_next s = (Ok (Some m), s')" "yields (st_buf s') (st_items s') ms"
    "st_sent s' = st_sent s" "st_sink s' = st_sink s" "st_delayed s' = st_delayed s"
proof -
  obtain buf' items' where "stream_poll (st_buf s) (st_items s) = (Ok (Some m), buf', items')" "yields buf' items' ms"
    using poll_yields [OF assms] by blast
  then show thesis by (intro that [of "s\<lparr>st_buf := buf', st_items := items'\<rparr>"]) (simp_all add: try_next_def)
qed

lemma yields_size: "yields buf items ms \<Longrightarrow> length ms \<le> length buf + sum_list (map item_size items)"
proof -
  have c: "collect length backend_messages_next b = Ok g \<Longrightarrow> length g \<le> length b" for b g
  proof (induction g arbitrary: b)
    case (Cons m g)
    from Cons.prems show ?case
    proof (cases rule: collect_cases)
      case (some m' r b')
      with Cons.IH [of r] run_it.next_decreases [of b m' r] show ?thesis by simp
    qed simp
  qed simp
  assume "yields buf items ms"
  then obtain b gs xs where y: "collect length backend_messages_next buf = Ok b" "items = map Ok xs" "list_all2 item_ok gs xs" "ms = b @ concat gs"
    unfolding yields_def by (elim exE conjE) (rule that)
  have "length (concat gs) \<le> sum_list (map item_size (map Ok xs))" using y(3)
  proof (induction gs xs rule: list_all2_induct)
    case (Cons g gs x xs)
    have "length g \<le> item_size (Ok x)"
      using Cons.hyps(1) c by (cases x) (fastforce simp: item_size_def dest: item_ok_Async item_ok_Normal)+
    with Cons.IH show ?case by simp
  qed simp
  with c [OF y(1)] y show ?thesis by simp
qed

section \<open>The session's parameters\<close>

text \<open>The messages that report something before the session is ready, and what they do.\<close>

definition reported :: "message \<Rightarrow> bool" where
  "reported m \<longleftrightarrow>
     (case m of
        BackendKeyData _ \<Rightarrow> True
      | NoticeResponse _ \<Rightarrow> True
      | ParameterStatus p \<Rightarrow> utf8_valid (ps_name p) \<and> utf8_valid (ps_value p)
      | _ \<Rightarrow> False)"

definition report :: "session_info \<Rightarrow> message \<Rightarrow> session_info" where
  "report i m =
     (case m of
        BackendKeyData k \<Rightarrow> i\<lparr>si_process_id := kd_process_id k, si_secret_key := kd_secret_key k\<rparr>
      | ParameterStatus p \<Rightarrow> i\<lparr>si_parameters := (si_parameters i)(of_bytes (ps_name p) \<mapsto> of_bytes (ps_value p))\<rparr>
      | _ \<Rightarrow> i)"

definition is_notice :: "message \<Rightarrow> bool" where
  "is_notice m \<longleftrightarrow> (case m of NoticeResponse _ \<Rightarrow> True | _ \<Rightarrow> False)"

lemma parameter_pair_Ok:
  "parameter_pair p = Ok nv \<longleftrightarrow> utf8_valid (ps_name p) \<and> utf8_valid (ps_value p) \<and> nv = (of_bytes (ps_name p), of_bytes (ps_value p))"
  by (auto simp: parameter_pair_def parameter_name_def parameter_value_def get_str_iff)

lemma info_step_reported: "reported m \<Longrightarrow> info_step i (Some m) = InfoMore (report i m) (map Async (filter is_notice [m]))"
proof (cases m)
  case (ParameterStatus p)
  assume "reported m"
  with ParameterStatus have "parameter_pair p = Ok (of_bytes (ps_name p), of_bytes (ps_value p))"
    by (simp add: reported_def parameter_pair_Ok)
  with ParameterStatus show ?thesis by (simp add: info_step_def report_def is_notice_def)
qed (simp_all add: info_step_def reported_def report_def is_notice_def)

lemma info_step_other:
  assumes "\<not> reported m"
  obtains r where "info_step i (Some m) = InfoDone r" "r = Ok j \<longleftrightarrow> (\<exists>b. m = ReadyForQuery b) \<and> j = i"
proof (cases m)
  case (ParameterStatus p)
  with assms have no: "\<And>nv. parameter_pair p = Ok nv \<Longrightarrow> False"
    unfolding parameter_pair_Ok by (auto simp: reported_def)
  with ParameterStatus that show ?thesis
    by (cases "parameter_pair p") (blast, simp_all add: info_step_def)
qed (use assms that in \<open>auto simp: info_step_def reported_def not_wanted_def\<close>)

lemma end_yields:
  assumes "yields (st_buf s) (st_items s) []"
  shows "fst (try_next s) = Ok None"
proof -
  from assms obtain gs xs where y: "collect length backend_messages_next (st_buf s) = Ok []" "st_items s = map Ok xs"
    "list_all2 item_ok gs xs" "concat gs = []"
    unfolding yields_def by auto
  have "xs = []"
  proof (rule ccontr)
    assume "xs \<noteq> []"
    with y(3,4) obtain x where "item_ok [] x" by (auto simp: neq_Nil_conv list_all2_Cons2)
    then show False by (cases x) (auto dest: item_ok_Async item_ok_Normal)
  qed
  with y(1,2) show ?thesis
    by (cases rule: collect_cases) (simp_all add: try_next_def stream_poll.simps)
qed

lemma read_info_run:
  "yields (st_buf s) (st_items s) (infos @ ReadyForQuery b # rest) \<Longrightarrow> list_all reported infos \<Longrightarrow> length infos < n \<Longrightarrow>
    \<exists>s'. read_info_fuel n i s = (Ok (foldl report i infos), s') \<and> st_delayed s' = st_delayed s @ map Async (filter is_notice infos) \<and>
      st_sent s' = st_sent s \<and> yields (st_buf s') (st_items s') rest"
proof (induction infos arbitrary: n i s)
  case Nil
  then have "yields (st_buf s) (st_items s) (ReadyForQuery b # rest)" by simp
  then obtain s' where "try_next s = (Ok (Some (ReadyForQuery b)), s')" "yields (st_buf s') (st_items s') rest"
    "st_sent s' = st_sent s" "st_sink s' = st_sink s" "st_delayed s' = st_delayed s"
    by (rule next_yields)
  with Nil show ?case by (cases n) (simp_all add: info_step_def)
next
  case (Cons m infos)
  then have "yields (st_buf s) (st_items s) (m # infos @ ReadyForQuery b # rest)" by simp
  then obtain s' where s': "try_next s = (Ok (Some m), s')" "yields (st_buf s') (st_items s') (infos @ ReadyForQuery b # rest)"
    "st_sent s' = st_sent s" "st_sink s' = st_sink s" "st_delayed s' = st_delayed s"
    by (rule next_yields)
  obtain k where k: "n = Suc k" "length infos < k" using Cons.prems(3) by (cases n) auto
  have m: "reported m" "list_all reported infos" using Cons.prems(2) by simp_all
  let ?s = "s'\<lparr>st_delayed := st_delayed s' @ map Async (filter is_notice [m])\<rparr>"
  have "yields (st_buf ?s) (st_items ?s) (infos @ ReadyForQuery b # rest)" using s'(2) by simp
  from Cons.IH [OF this m(2) k(2), of "report i m"] s' k(1) show ?case
    by (auto simp: info_step_reported [OF m(1)])
qed

lemma read_info_only:
  "yields (st_buf s) (st_items s) ms \<Longrightarrow> read_info_fuel n i s = (Ok j, s') \<Longrightarrow>
    \<exists>infos b rest. ms = infos @ ReadyForQuery b # rest \<and> list_all reported infos"
proof (induction n arbitrary: ms i s)
  case (Suc n)
  show ?case
  proof (cases ms)
    case Nil
    with Suc.prems(1) have e: "fst (try_next s) = Ok None" using end_yields by blast
    obtain s1 where "try_next s = (Ok None, s1)" using e by (cases "try_next s") simp
    with Suc.prems(2) show ?thesis by (simp add: info_step_def not_wanted_def)
  next
    case (Cons m ms')
    from Suc.prems(1) [unfolded Cons] obtain s1 where s1: "try_next s = (Ok (Some m), s1)" "yields (st_buf s1) (st_items s1) ms'"
      by (rule next_yields)
    show ?thesis
    proof (cases "reported m")
      case True
      let ?s = "s1\<lparr>st_delayed := st_delayed s1 @ map Async (filter is_notice [m])\<rparr>"
      have "yields (st_buf ?s) (st_items ?s) ms'" using s1(2) by simp
      moreover have "read_info_fuel n (report i m) ?s = (Ok j, s')"
        using Suc.prems(2) s1(1) by (simp add: info_step_reported [OF True])
      ultimately obtain infos b rest where "ms' = infos @ ReadyForQuery b # rest" "list_all reported infos"
        using Suc.IH by blast
      with True Cons show ?thesis by (intro exI [of _ "m # infos"]) auto
    next
      case False
      obtain r where "info_step i (Some m) = InfoDone r" "r = Ok j \<longleftrightarrow> (\<exists>b. m = ReadyForQuery b) \<and> j = i"
        by (rule info_step_other [OF False])
      with Suc.prems(2) s1(1) obtain b where "m = ReadyForQuery b" by auto
      with Cons show ?thesis by (intro exI [of _ "[]"]) auto
    qed
  qed
qed simp

lemma reported_split:
  assumes "infos @ ReadyForQuery b # rest = infos' @ ReadyForQuery b' # rest'" and "list_all reported infos" and "list_all reported infos'"
  shows "infos = infos'"
  using assms
proof (induction infos arbitrary: infos')
  case Nil
  then show ?case by (cases infos') (auto simp: reported_def)
next
  case (Cons m infos)
  then show ?case by (cases infos') (auto simp: reported_def)
qed

text \<open>
  C31. The parameters of a session. For every stream of messages the loop ends, and it gives a session
  exactly when the messages before the first \<open>ReadyForQuery\<close> are key data, notices and valid
  parameters: the last key data and the last value of each parameter count, the notices are kept in
  their order for the connection, and what comes after is left unread.
\<close>

theorem read_info_exact:
  assumes "yields (st_buf s) (st_items s) ms"
  shows "(\<exists>s'. read_info s = (Ok i, s') \<and> st_delayed s' = st_delayed s @ d) \<longleftrightarrow>
    (\<exists>infos b rest. ms = infos @ ReadyForQuery b # rest \<and> list_all reported infos \<and> i = foldl report info_new infos \<and>
       d = map Async (filter is_notice infos))"
proof
  assume "\<exists>s'. read_info s = (Ok i, s') \<and> st_delayed s' = st_delayed s @ d"
  then obtain s' where s': "read_info s = (Ok i, s')" "st_delayed s' = st_delayed s @ d" by blast
  then obtain infos b rest where ms: "ms = infos @ ReadyForQuery b # rest" "list_all reported infos"
    using read_info_only [OF assms s'(1) [unfolded read_info_def]] by blast
  have "length infos < Suc (stream_size s)" using yields_size [OF assms] ms(1) by (simp add: stream_size_def)
  from read_info_run [OF assms [unfolded ms(1)] ms(2) this, of info_new] s' ms
  show "\<exists>infos b rest. ms = infos @ ReadyForQuery b # rest \<and> list_all reported infos \<and> i = foldl report info_new infos \<and>
      d = map Async (filter is_notice infos)"
    by (auto simp: read_info_def simp del: read_info_fuel.simps)
next
  assume "\<exists>infos b rest. ms = infos @ ReadyForQuery b # rest \<and> list_all reported infos \<and> i = foldl report info_new infos \<and>
      d = map Async (filter is_notice infos)"
  then obtain infos b rest where ms: "ms = infos @ ReadyForQuery b # rest" "list_all reported infos"
    "i = foldl report info_new infos" "d = map Async (filter is_notice infos)" by blast
  have "length infos < Suc (stream_size s)" using yields_size [OF assms] ms(1) by (simp add: stream_size_def)
  from read_info_run [OF assms [unfolded ms(1)] ms(2) this, of info_new] ms(3,4)
  show "\<exists>s'. read_info s = (Ok i, s') \<and> st_delayed s' = st_delayed s @ d" by (auto simp: read_info_def simp del: read_info_fuel.simps)
qed

lemma report_text:
  "report i (ParameterStatus \<lparr>ps_name = as_bytes a, ps_value = as_bytes b\<rparr>) = i\<lparr>si_parameters := (si_parameters i)(a \<mapsto> b)\<rparr>"
  by (simp add: report_def)

theorem read_info_exact_witness:
  "\<exists>s'. read_info (sample_stream [Ok (Async (ParameterStatus \<lparr>ps_name = ascii ''a'', ps_value = ascii ''b''\<rparr>)),
         Ok (Normal (encode_all [BackendKeyData \<lparr>kd_process_id = 7, kd_secret_key = 9\<rparr>, ReadyForQuery 73]) True)]) =
       (Ok \<lparr>si_process_id = 7, si_secret_key = 9, si_parameters = [''a'' \<mapsto> ''b'']\<rparr>, s')"
proof -
  let ?p = "ParameterStatus \<lparr>ps_name = ascii ''a'', ps_value = ascii ''b''\<rparr>"
  let ?k = "BackendKeyData \<lparr>kd_process_id = 7, kd_secret_key = 9\<rparr>"
  let ?i = "\<lparr>si_process_id = 7, si_secret_key = 9, si_parameters = [''a'' \<mapsto> ''b'']\<rparr>"
  let ?items = "[Async ?p, Normal (encode_all [?k, ReadyForQuery 73]) True]"
  have send: "list_all sendable [?k, ReadyForQuery 73]" by (simp add: sendable_def fields_wf_def)
  have "list_all2 item_ok [[?p], [?k, ReadyForQuery 73]] ?items"
    using run_parses [OF send]
    by (simp add: item_ok_def item_messages_def is_async_def is_ready_def is_async_tag_def)
  then have "yields [] (map Ok ?items) ([?p, ?k, ReadyForQuery 73])"
    unfolding yields_def
    by (intro exI [of _ "[]"] exI [of _ "[[?p], [?k, ReadyForQuery 73]]"] exI [of _ ?items]) (simp add: run_it.collect_end next_nothing)
  then have y: "yields (st_buf (sample_stream (map Ok ?items))) (st_items (sample_stream (map Ok ?items))) [?p, ?k, ReadyForQuery 73]"
    by (simp add: sample_stream_def)
  have i: "?i = foldl report info_new [?p, ?k]"
    by (simp only: foldl.simps report_text) (simp add: report_def info_new_def)
  have "list_all reported [?p, ?k]" "[] = map Async (filter is_notice [?p, ?k])"
    by (simp_all add: reported_def is_notice_def)
  with i have "\<exists>infos b rest. [?p, ?k, ReadyForQuery 73] = infos @ ReadyForQuery b # rest \<and> list_all reported infos \<and>
      ?i = foldl report info_new infos \<and> [] = map Async (filter is_notice infos)"
    by (intro exI [of _ "[?p, ?k]"] exI [of _ 73] exI [of _ "[]"]) (simp only: append.simps simp_thms)
  with read_info_exact [OF y, of ?i "[]"] show ?thesis by (simp only: list.map) blast
qed

section \<open>Connecting\<close>

lemma read_info_sent: "read_info_fuel n i s = (r, s') \<Longrightarrow> st_sent s' = st_sent s"
proof (induction n arbitrary: i s)
  case (Suc n)
  obtain q s1 where q: "try_next s = (q, s1)" by fastforce
  with Suc show ?case
    using try_next_frame [OF q] by (cases q) (auto split: info_round.splits)
qed simp

definition startup_frame :: "config \<Rightarrow> str \<Rightarrow> frontend_message" where
  "startup_frame cfg user = Raw (snd (startup_message (startup_parameters cfg user) []))"

lemma raw_session_Ok:
  assumes "raw_session w kind cfg s = (Ok r, s')"
  obtains user s1 where "config_user w cfg = Ok user"
    "authenticate (rw_crypto w) (rw_draws w) (stream_certificate w kind) cfg user (s\<lparr>st_sent := st_sent s @ [startup_frame cfg user]\<rparr>) = (Ok (), s1)"
    "st_sent s' = st_sent s1"
proof -
  from assms obtain user s0 u s1 i s2 where 1: "config_user w cfg = Ok user" "startup cfg user s = (Ok (), s0)"
    "authenticate (rw_crypto w) (rw_draws w) (stream_certificate w kind) cfg user s0 = (Ok (), s1)" "read_info s1 = (Ok i, s')"
    by (auto simp: raw_session_def sbind_Ok sres_Ok)
  have "s0 = s\<lparr>st_sent := st_sent s @ [startup_frame cfg user]\<rparr>"
    using 1(2) by (auto simp: startup_def send_built_Ok startup_frame_def)
  moreover have "st_sent s' = st_sent s1"
    by (rule read_info_sent [OF 1(4) [unfolded read_info_def]])
  ultimately show ?thesis using that 1 by simp
qed


section \<open>An honest server\<close>

text \<open>The two messages of a server that holds the verifier of the same password.\<close>

definition server_first_of :: "crypto \<Rightarrow> str \<Rightarrow> str \<Rightarrow> bytes \<Rightarrow> nat \<Rightarrow> str" where
  "server_first_of c cnonce snonce salt n =
     ''r='' @ cnonce @ snonce @ '',s='' @ b64_encode c salt @ '',i='' @ show_nat n"

definition server_final_of :: "crypto \<Rightarrow> bytes \<Rightarrow> channel_binding \<Rightarrow> str \<Rightarrow> str \<Rightarrow> bytes \<Rightarrow> nat \<Rightarrow> str" where
  "server_final_of c pass b cnonce snonce salt n =
     ''v='' @ b64_encode c (hmac c (hmac c (hi c (normalize c pass) salt n) (ascii ''Server Key''))
       (as_bytes (auth_message_of cnonce (server_first_of c cnonce snonce salt n) (client_final_bare c b (cnonce @ snonce)))))"

definition encodes :: "(unit, io_error) writer \<Rightarrow> bool" where
  "encodes w \<longleftrightarrow> fst (w []) = Ok ()"

text \<open>The three messages of the client can be encoded: no embedded NUL, no length over 31 bits.\<close>

definition messages_fit :: "raw_world \<Rightarrow> config \<Rightarrow> str \<Rightarrow> bytes \<Rightarrow> channel_binding \<Rightarrow> str \<Rightarrow> str \<Rightarrow> bool" where
  "messages_fit w cfg user pass b mechanism first \<longleftrightarrow>
     (let sc = new_inner (rw_crypto w) pass b (map nonce_char (rw_draws w)) in
      encodes (startup_message (startup_parameters cfg user)) \<and>
      encodes (sasl_initial_response mechanism (as_bytes (sc_message sc))) \<and>
      encodes (sasl_response (as_bytes (sc_message (snd (scram_update (rw_crypto w) (as_bytes first) sc))))))"

lemma send_built_run:
  "encodes w \<Longrightarrow> \<forall>k. st_sink s k = Ok () \<Longrightarrow> \<exists>x. send_built w s = (Ok (), s\<lparr>st_sent := x\<rparr>)"
  by (cases "w []") (auto simp: encodes_def send_built_def)

definition exchange_messages :: "crypto \<Rightarrow> bytes \<Rightarrow> channel_binding \<Rightarrow> str \<Rightarrow> str \<Rightarrow> bytes \<Rightarrow> nat \<Rightarrow> bytes \<Rightarrow> message list" where
  "exchange_messages c pass b cnonce snonce salt n body =
     [AuthenticationSasl body, AuthenticationSaslContinue (as_bytes (server_first_of c cnonce snonce salt n)),
      AuthenticationSaslFinal (as_bytes (server_final_of c pass b cnonce snonce salt n)), AuthenticationOk]"

text \<open>A stream whose sends succeed and which yields the messages \<open>ms\<close>.\<close>

definition offers :: "startup_stream \<Rightarrow> message list \<Rightarrow> bool" where
  "offers s ms \<longleftrightarrow> yields (st_buf s) (st_items s) ms \<and> (\<forall>k. st_sink s k = Ok ())"

lemma offers_next:
  assumes "offers s (m # ms)"
  obtains s' where "try_next s = (Ok (Some m), s')" "offers s' ms" "st_delayed s' = st_delayed s"
proof -
  from assms have y: "yields (st_buf s) (st_items s) (m # ms)" and k: "\<forall>k. st_sink s k = Ok ()" by (simp_all add: offers_def)
  obtain s' where "try_next s = (Ok (Some m), s')" "yields (st_buf s') (st_items s') ms"
    "st_sent s' = st_sent s" "st_sink s' = st_sink s" "st_delayed s' = st_delayed s"
    by (rule next_yields [OF y])
  with k show thesis by (intro that [of s']) (simp_all add: offers_def)
qed

lemma offers_send:
  assumes "offers s ms" and "encodes w"
  obtains s' where "send_built w s = (Ok (), s')" "offers s' ms" "st_delayed s' = st_delayed s"
proof -
  from assms obtain x where "send_built w s = (Ok (), s\<lparr>st_sent := x\<rparr>)"
    using send_built_run [of w s] by (auto simp: offers_def)
  with assms(1) show thesis by (intro that [of "s\<lparr>st_sent := x\<rparr>"]) (simp_all add: offers_def)
qed

lemma authenticate_honest:
  fixes w :: raw_world and b :: channel_binding
  defines "c \<equiv> rw_crypto w" and "nonce \<equiv> map nonce_char (rw_draws w)"
  assumes "crypto_ok c" and "cf_password cfg = Some pass"
    and "collect length sasl_mechanisms_next body = Ok offered"
    and "choose_mechanism cfg cert offered = Ok (b, mechanism)" and "mechanism = SCRAM_SHA_256_PLUS \<or> binding_not_required cfg"
    and "list_all is_printable (nonce @ snonce)" and "n \<le> 4294967295"
    and "messages_fit w cfg user pass b mechanism (server_first_of c nonce snonce salt n)"
    and "offers s (exchange_messages c pass b nonce snonce salt n body @ ms)"
  shows "\<exists>s'. authenticate c (rw_draws w) cert cfg user s = (Ok (), s') \<and> offers s' ms \<and> st_delayed s' = st_delayed s"
proof -
  let ?sc = "new_inner c pass b nonce"
  let ?first = "as_bytes (server_first_of c nonce snonce salt n)" and ?final = "as_bytes (server_final_of c pass b nonce snonce salt n)"
  obtain sc where sc: "scram_update c ?first ?sc = (Ok (), sc)" "fst (scram_finish c ?final sc) = Ok ()"
    using honest_steps [where c = c and cnonce = nonce and snonce = snonce and n = n and pw = pass and salt = salt and b = b, OF assms(3,8,9)]
    unfolding server_first_of_def server_final_of_def by blast
  have live: "sc_state ?sc \<noteq> ScramDone" "sc_state sc \<noteq> ScramDone"
    using scram_update_Ok [OF sc(1)] by (auto simp: new_inner_def)
  from assms(11) obtain s1 where s1: "try_next s = (Ok (Some (AuthenticationSasl body)), s1)"
    "offers s1 (AuthenticationSaslContinue ?first # AuthenticationSaslFinal ?final # AuthenticationOk # ms)" "st_delayed s1 = st_delayed s"
    unfolding exchange_messages_def append.simps by (rule offers_next)
  have enc: "encodes (sasl_initial_response mechanism (as_bytes (sc_message ?sc)))" "encodes (sasl_response (as_bytes (sc_message sc)))"
    using assms(10) sc(1) by (simp_all add: messages_fit_def Let_def c_def nonce_def)
  obtain s2 where s2: "send_built (sasl_initial_response mechanism (as_bytes (sc_message ?sc))) s1 = (Ok (), s2)"
    "offers s2 (AuthenticationSaslContinue ?first # AuthenticationSaslFinal ?final # AuthenticationOk # ms)" "st_delayed s2 = st_delayed s1"
    by (rule offers_send [OF s1(2) enc(1)])
  obtain s3 where s3: "try_next s2 = (Ok (Some (AuthenticationSaslContinue ?first)), s3)"
    "offers s3 (AuthenticationSaslFinal ?final # AuthenticationOk # ms)" "st_delayed s3 = st_delayed s2"
    by (rule offers_next [OF s2(2)])
  obtain s4 where s4: "send_built (sasl_response (as_bytes (sc_message sc))) s3 = (Ok (), s4)"
    "offers s4 (AuthenticationSaslFinal ?final # AuthenticationOk # ms)" "st_delayed s4 = st_delayed s3"
    by (rule offers_send [OF s3(2) enc(2)])
  obtain s5 where s5: "try_next s4 = (Ok (Some (AuthenticationSaslFinal ?final)), s5)" "offers s5 (AuthenticationOk # ms)" "st_delayed s5 = st_delayed s4"
    by (rule offers_next [OF s4(2)])
  obtain s6 where s6: "try_next s5 = (Ok (Some AuthenticationOk), s6)" "offers s6 ms" "st_delayed s6 = st_delayed s5"
    by (rule offers_next [OF s5(2)])
  have "send_scram sasl_response sc s3 = (Ok (), s4)"
    using live(2) s4(1) by (simp add: send_scram_def scram_message_def)
  then have "sasl_answer c ?sc ?first s3 = (Ok (), s5)"
    unfolding sasl_answer_Ok using sc s5(1) by blast
  moreover have "send_scram (sasl_initial_response mechanism) ?sc s1 = (Ok (), s2)"
    using live(1) s2(1) by (simp add: send_scram_def scram_message_def)
  moreover have "(if mechanism \<noteq> SCRAM_SHA_256_PLUS then can_skip_channel_binding cfg else Ok ()) = Ok ()"
    using assms(7) can_skip_Ok by auto
  ultimately have "authenticate_sasl c (rw_draws w) cert cfg body s1 = (Ok (), s5)"
    using assms(4-6) s3(1)
    by (simp add: authenticate_sasl_def sbind_def sres_def password_of_def mechanisms_def scram_new_def Let_def wanted_def is_sasl_continue_def nonce_def)
  moreover have "expect_ok s5 = (Ok (), s6)" using s6(1) by (simp add: expect_ok_Ok)
  ultimately have "authenticate c (rw_draws w) cert cfg user s = (Ok (), s6)"
    using s1(1) by (simp add: authenticate_def sbind_def auth_method_def)
  with s6(2) s1(3) s2(3) s3(3) s4(3) s5(3) s6(3) show ?thesis by auto
qed

text \<open>What the two sides agree on: the password, the mechanism and the numbers of the exchange.\<close>

definition agreed ::
  "raw_world \<Rightarrow> config \<Rightarrow> str \<Rightarrow> maybe_tls \<Rightarrow> bytes \<Rightarrow> channel_binding \<Rightarrow> bytes \<Rightarrow> str \<Rightarrow> bytes \<Rightarrow> nat \<Rightarrow> bool" where
  "agreed w cfg user kind pass b body snonce salt n \<longleftrightarrow>
     crypto_ok (rw_crypto w) \<and> config_user w cfg = Ok user \<and> cf_password cfg = Some pass \<and>
     to_result (connect_tls (rw_tls w) (cf_ssl_mode cfg) (cf_ssl_negotiation cfg) True) = Ok kind \<and>
     list_all is_printable (map nonce_char (rw_draws w) @ snonce) \<and> n \<le> 4294967295 \<and>
     (\<exists>offered mechanism. collect length sasl_mechanisms_next body = Ok offered \<and>
        choose_mechanism cfg (stream_certificate w kind) offered = Ok (b, mechanism) \<and>
        (mechanism = SCRAM_SHA_256_PLUS \<or> binding_not_required cfg) \<and>
        messages_fit w cfg user pass b mechanism (server_first_of (rw_crypto w) (map nonce_char (rw_draws w)) snonce salt n))"

lemma connect_honest:
  assumes "agreed w cfg user kind pass b body snonce salt n" and "list_all reported infos"
    and "offers (startup_stream_new w)
      (exchange_messages (rw_crypto w) pass b (map nonce_char (rw_draws w)) snonce salt n body @ infos @ ReadyForQuery st # rest)"
  shows "fst (config_connect_raw w cfg) =
    Ok \<lparr>cd_ssl_mode = cf_ssl_mode cfg, cd_ssl_negotiation = cf_ssl_negotiation cfg,
        cd_process_id = si_process_id (foldl report info_new infos), cd_secret_key = si_secret_key (foldl report info_new infos),
        cd_connection = connection_new (map Async (filter is_notice infos)) (si_parameters (foldl report info_new infos))\<rparr>"
proof -
  let ?s = "startup_stream_new w"
  from assms(1) obtain offered mechanism where
    a: "crypto_ok (rw_crypto w)" "config_user w cfg = Ok user" "cf_password cfg = Some pass"
      "to_result (connect_tls (rw_tls w) (cf_ssl_mode cfg) (cf_ssl_negotiation cfg) True) = Ok kind"
      "list_all is_printable (map nonce_char (rw_draws w) @ snonce)" "n \<le> 4294967295"
      "collect length sasl_mechanisms_next body = Ok offered" "choose_mechanism cfg (stream_certificate w kind) offered = Ok (b, mechanism)"
      "mechanism = SCRAM_SHA_256_PLUS \<or> binding_not_required cfg"
      "messages_fit w cfg user pass b mechanism (server_first_of (rw_crypto w) (map nonce_char (rw_draws w)) snonce salt n)"
    unfolding agreed_def by (elim exE conjE) (rule that)
  have "encodes (startup_message (startup_parameters cfg user))" using a(10) by (simp add: messages_fit_def Let_def)
  then obtain s1 where s1: "startup cfg user ?s = (Ok (), s1)" "st_delayed s1 = st_delayed ?s"
    "offers s1 (exchange_messages (rw_crypto w) pass b (map nonce_char (rw_draws w)) snonce salt n body @ infos @ ReadyForQuery st # rest)"
    using offers_send [OF assms(3)] unfolding startup_def by blast
  obtain s2 where s2: "authenticate (rw_crypto w) (rw_draws w) (stream_certificate w kind) cfg user s1 = (Ok (), s2)"
    "offers s2 (infos @ ReadyForQuery st # rest)" "st_delayed s2 = st_delayed s1"
    using authenticate_honest [OF a(1,3,7,8,9,5,6,10) s1(3)] by blast
  have y: "yields (st_buf s2) (st_items s2) (infos @ ReadyForQuery st # rest)" using s2(2) by (simp add: offers_def)
  then have "length infos < Suc (stream_size s2)" using yields_size [OF y] by (simp add: stream_size_def)
  from read_info_run [OF y assms(2) this, of info_new] obtain s3 where
    "read_info s2 = (Ok (foldl report info_new infos), s3)" "st_delayed s3 = map Async (filter is_notice infos)"
    using s1(2) s2(3) by (auto simp: read_info_def startup_stream_new_def simp del: read_info_fuel.simps)
  then show ?thesis
    using a(2,4) s1(1) s2(1) by (simp add: config_connect_raw_def connect_raw_def raw_session_def sbind_def sres_def)
qed

text \<open>
  C7. A session with an honest server. When the server holds the verifier of the client's password,
  offers a mechanism the configuration accepts, and answers as the protocol says, and the messages
  arrive in whatever pieces, the connection is made: both proofs are accepted, and the session has
  the process, the key and the parameters the server reported last, with its notices waiting, in
  their order, in the new connection.
\<close>

theorem connect_honest_server:
  assumes "agreed w cfg user kind pass b body snonce salt n" and "list_all reported infos"
    and "offers (startup_stream_new w)
      (exchange_messages (rw_crypto w) pass b (map nonce_char (rw_draws w)) snonce salt n body @ infos @ ReadyForQuery st # rest)"
  shows "fst (config_connect_raw w cfg) =
    Ok \<lparr>cd_ssl_mode = cf_ssl_mode cfg, cd_ssl_negotiation = cf_ssl_negotiation cfg,
        cd_process_id = si_process_id (foldl report info_new infos), cd_secret_key = si_secret_key (foldl report info_new infos),
        cd_connection = connection_new (map Async (filter is_notice infos)) (si_parameters (foldl report info_new infos))\<rparr>"
  by (rule connect_honest [OF assms])

text \<open>A TLS stream with a certificate, and a configuration that demands channel binding.\<close>

definition sample_cfg :: config where
  "sample_cfg = config_new\<lparr>cf_user := Some ''bob'', cf_password := Some [7], cf_ssl_mode := Require, cf_channel_binding := CbRequire\<rparr>"

definition sample_exchange :: "message list" where
  "sample_exchange = exchange_messages unary_crypto [7] (TlsServerEndPoint [5]) ''ab'' ''cd'' [1, 2] 2
     (as_bytes ''SCRAM-SHA-256-PLUS'' @ [0, 0]) @ [ReadyForQuery 73]"

definition sample_world :: raw_world where
  "sample_world =
     \<lparr>rw_tls = \<lparr>tw_can_connect = True, tw_write = Ok (), tw_reply = Ok 0x53, tw_handshake = Ok ()\<rparr>,
      rw_certificate = Some [5], rw_username = Ok [], rw_items = [Ok (Normal (encode_all sample_exchange) True)],
      rw_sink = \<lambda>_. Ok (), rw_crypto = unary_crypto, rw_draws = [97, 98]\<rparr>"

lemma encodes_iff: "denotes w r \<Longrightarrow> encodes w \<longleftrightarrow> (\<exists>x. r = Ok x)"
  by (simp add: encodes_def denotes_fst)

lemma encodes_response: "length data + 4 \<le> 2147483647 \<Longrightarrow> encodes (sasl_response data)"
proof -
  assume l: "length data + 4 \<le> 2147483647"
  have "denotes (sasl_response data) (icat (Ok (tag CHR ''p'')) (body_image id (Ok data)))"
    unfolding sasl_response_def by (intro denotes_wseq denotes_put denotes_write_body)
  with l show ?thesis by (simp only: encodes_iff tagged_body_Ok) simp
qed

lemma encodes_initial:
  assumes "0 \<notin> set (as_bytes mech)" and "length mech + length data + 9 \<le> 2147483647"
  shows "encodes (sasl_initial_response mech data)"
proof -
  obtain n where n: "i32_from_usize (length data) = Ok n" using assms(2) by (simp add: i32_from_usize_def)
  have "wbind (wres (i32_from_usize (length data))) (\<lambda>len. wseq (put (put_i32 len)) (put data)) = wseq (put (put_i32 n)) (put data)"
    unfolding n by (rule ext) (simp add: wbind_def wres_def)
  then have "denotes (sasl_initial_response mech data)
      (icat (Ok (tag CHR ''p'')) (body_image id (icat (cstr_image (as_bytes mech)) (icat (Ok (put_i32 n)) (Ok data)))))"
    unfolding sasl_initial_response_def
    by (simp only:) (intro denotes_wseq denotes_put denotes_write_body denotes_write_cstr)
  with assms show ?thesis by (simp only: encodes_iff tagged_body_Ok) (simp add: cstr_image_def)
qed

lemma unary_length: "length (unary_encode b) \<le> 256 * length b"
proof (induction b)
  case (Cons w b)
  have "unat w < 256" using unsigned_less [of w] by simp
  with Cons show ?case by (simp add: unary_encode_def)
qed (simp add: unary_encode_def)

lemma sample_printable: "list_all is_printable (''ab'' @ ''cd'')"
  by (simp add: is_printable_def char_in_def)

lemma sample_nonce: "map nonce_char [97, 98] = ''ab''"
  by code_simp

lemma sample_response: "encodes (sasl_response (as_bytes (sc_message (snd (scram_update unary_crypto
    (as_bytes (server_first_of unary_crypto ''ab'' ''cd'' [1, 2] 2)) (new_inner unary_crypto [7] (TlsServerEndPoint [5]) ''ab''))))))"
proof -
  obtain s' proof' where u: "scram_update unary_crypto (as_bytes (server_first_of unary_crypto ''ab'' ''cd'' [1, 2] 2))
        (new_inner unary_crypto [7] (TlsServerEndPoint [5]) ''ab'') = (Ok (), s')"
      "sc_message s' = client_final_bare unary_crypto (TlsServerEndPoint [5]) (''ab'' @ ''cd'') @ '',p='' @ b64_encode unary_crypto proof'"
    and p: "length proof' = 32"
    using honest_steps [where c = unary_crypto and cnonce = "''ab''" and snonce = "''cd''" and n = 2 and pw = "[7]" and salt = "[1, 2]"
        and b = "TlsServerEndPoint [5]", OF unary_crypto_ok sample_printable]
    unfolding server_first_of_def by (auto simp: xor_bytes_def unary_crypto_def)
  have "length (b64_encode unary_crypto proof') \<le> 256 * 32" using unary_length [of proof'] p by (simp add: unary_crypto_def)
  moreover have "length (client_final_bare unary_crypto (TlsServerEndPoint [5]) (''ab'' @ ''cd'')) \<le> 256 * 50"
    using unary_length [of "as_bytes (gs2_header (TlsServerEndPoint [5])) @ cbind_data (TlsServerEndPoint [5])"]
    by (simp add: client_final_bare_def gs2_header_def cbind_data_def unary_crypto_def)
  ultimately have "length (sc_message s') + 4 \<le> 2147483647" unfolding u(2) by simp
  then show ?thesis unfolding u(1) by (intro encodes_response) simp
qed

lemma sample_mechanisms: "collect length sasl_mechanisms_next (as_bytes ''SCRAM-SHA-256-PLUS'' @ [0, 0]) = Ok [SCRAM_SHA_256_PLUS]"
  unfolding sasl_list by (simp add: mechanism_ok_def)

lemma sample_agreed:
  "agreed sample_world sample_cfg ''bob'' TlsStream [7] (TlsServerEndPoint [5]) (as_bytes ''SCRAM-SHA-256-PLUS'' @ [0, 0]) ''cd'' [1, 2] 2"
proof -
  have "choose_mechanism sample_cfg (stream_certificate sample_world TlsStream) [SCRAM_SHA_256_PLUS] = Ok (TlsServerEndPoint [5], SCRAM_SHA_256_PLUS)"
    by (simp add: choose_mechanism_def sample_cfg_def stream_certificate_def sample_world_def)
  moreover have "to_result (connect_tls (rw_tls sample_world) (cf_ssl_mode sample_cfg) (cf_ssl_negotiation sample_cfg) True) = Ok TlsStream"
    by (simp add: connect_tls_def tls_handshake_def tls_return_def sample_world_def sample_cfg_def config_new_def Let_def)
  moreover have "encodes (startup_message (startup_parameters sample_cfg ''bob''))"
    unfolding encodes_iff [OF startup_denotes] startup_image_closed
    by (simp add: startup_parameters_def sample_cfg_def config_new_def startup_params_def)
  moreover have "encodes (sasl_initial_response SCRAM_SHA_256_PLUS (as_bytes (sc_message (new_inner unary_crypto [7] (TlsServerEndPoint [5]) ''ab''))))"
    by (rule encodes_initial) (simp_all add: new_inner_def gs2_header_def)
  ultimately show ?thesis
    unfolding agreed_def messages_fit_def Let_def
    using unary_crypto_ok sample_printable sample_nonce sample_response sample_mechanisms
    by (simp add: sample_world_def config_user_def) (simp add: sample_cfg_def)
qed

lemma sample_exchange_sendable:
  "list_all sendable (exchange_messages unary_crypto [7] (TlsServerEndPoint [5]) ''ab'' ''cd'' [1, 2] 2
     (as_bytes ''SCRAM-SHA-256-PLUS'' @ [0, 0]) @ [ReadyForQuery 73])"
proof -
  have "length (show_nat 2) = 1" by code_simp
  then have "length (server_first_of unary_crypto ''ab'' ''cd'' [1, 2] 2) \<le> 10000"
    by (simp add: server_first_of_def unary_crypto_def unary_encode_def)
  moreover have "length (b64_encode unary_crypto (hmac unary_crypto k m)) \<le> 256 * 32" for k m
    using unary_length [of "hmac unary_crypto k m"] by (simp add: unary_crypto_def)
  then have "length (server_final_of unary_crypto [7] (TlsServerEndPoint [5]) ''ab'' ''cd'' [1, 2] 2) \<le> 256 * 32 + 2"
    by (simp add: server_final_of_def)
  ultimately show ?thesis
    by (simp add: exchange_messages_def sendable_def fields_wf_def)
qed

lemma sample_offers:
  "offers (startup_stream_new sample_world)
     (exchange_messages (rw_crypto sample_world) [7] (TlsServerEndPoint [5]) (map nonce_char (rw_draws sample_world)) ''cd'' [1, 2] 2
        (as_bytes ''SCRAM-SHA-256-PLUS'' @ [0, 0]) @ [] @ ReadyForQuery 73 # [])"
proof -
  have "item_ok sample_exchange (Normal (encode_all sample_exchange) True)"
    using run_parses [OF sample_exchange_sendable]
    by (simp add: sample_exchange_def item_ok_def item_messages_def is_async_def is_ready_def is_async_tag_def exchange_messages_def del: encode_all_simps)
  then have "yields [] [Ok (Normal (encode_all sample_exchange) True)] sample_exchange"
    unfolding yields_def
    by (intro exI [of _ "[]"] exI [of _ "[sample_exchange]"] exI [of _ "[Normal (encode_all sample_exchange) True]"])
      (simp add: run_it.collect_end next_nothing del: encode_all_simps)
  then have "offers (startup_stream_new sample_world) sample_exchange"
    by (simp add: offers_def startup_stream_new_def sample_world_def)
  then show ?thesis using sample_nonce by (simp add: sample_exchange_def sample_world_def del: encode_all_simps)
qed

lemma sample_connects: "\<exists>r. fst (config_connect_raw sample_world sample_cfg) = Ok r"
  using connect_honest [OF sample_agreed _ sample_offers] by simp


theorem connect_honest_server_witness:
  "fst (config_connect_raw sample_world sample_cfg) =
    Ok \<lparr>cd_ssl_mode = Require, cd_ssl_negotiation = Postgres, cd_process_id = 0, cd_secret_key = 0,
        cd_connection = connection_new [] Map.empty\<rparr>"
  using connect_honest_server [OF sample_agreed _ sample_offers] by (simp add: sample_cfg_def config_new_def info_new_def)

end
