(* ===== verification/Connect.thy ===== *)
theory Connect
  imports CopyInSpec Startup
begin

text \<open>
  \<open>tokio-postgres/src/connect.rs\<close>, \<open>connect_socket.rs\<close>, \<open>keepalive.rs\<close> and the cancellation of
  \<open>cancel_query.rs\<close>, \<open>cancel_query_raw.rs\<close> and \<open>cancel_token.rs\<close>: which hosts are tried in which
  order, what a new connection is asked before it is handed out (the compatibility mode of
  KingbaseES and whether it can be written to), and how a running query is cancelled. The operating
  system, the resolver, the random numbers and the TLS connector are arguments.
\<close>

section \<open>Sockets\<close>

datatype addr = AddrTcp ip_addr | AddrUnix bytes
datatype peer = PeerTcp ip_addr u16 | PeerUnix bytes

record tcp_keepalive =
  tk_time :: nat
  tk_interval :: "nat option"
  tk_retries :: "u32 option"

text \<open>\<open>TcpKeepalive::from\<close>, where the platform has all three settings.\<close>

definition tcp_keepalive_from :: "keepalive_config \<Rightarrow> tcp_keepalive" where
  "tcp_keepalive_from k =
     (let t = \<lparr>tk_time = ka_idle k, tk_interval = None, tk_retries = None\<rparr>;
          t = (case ka_interval k of Some i \<Rightarrow> t\<lparr>tk_interval := Some i\<rparr> | None \<Rightarrow> t)
      in (case ka_retries k of Some n \<Rightarrow> t\<lparr>tk_retries := Some n\<rparr> | None \<Rightarrow> t))"

record socket =
  sk_peer :: peer
  sk_nodelay :: bool
  sk_user_timeout :: "nat option"
  sk_keepalive :: "tcp_keepalive option"

text \<open>The system: how connecting ends, whether a timer fires before it does, and the options.\<close>

record socket_world =
  ow_connect :: "peer \<Rightarrow> (unit, io_error) rresult"
  ow_expires :: "nat \<Rightarrow> bool"
  ow_nodelay :: "(unit, io_error) rresult"
  ow_user_timeout :: "nat \<Rightarrow> (unit, io_error) rresult"
  ow_keepalive :: "tcp_keepalive \<Rightarrow> (unit, io_error) rresult"

definition connect_with_timeout :: "socket_world \<Rightarrow> peer \<Rightarrow> nat option \<Rightarrow> (unit, error) rresult" where
  "connect_with_timeout w p timeout =
     (case timeout of
        Some t \<Rightarrow>
          if ow_expires w t then Err (err_connect (IoError TimedOut ''connection timed out''))
          else map_err err_connect (ow_connect w p)
      | None \<Rightarrow> map_err err_connect (ow_connect w p))"

text \<open>\<open>Path::join\<close> with a relative name\<close>

definition path_join :: "bytes \<Rightarrow> bytes \<Rightarrow> bytes" where
  "path_join dir name =
     (if dir = [] \<or> last dir = of_char CHR ''/'' then dir @ name else dir @ of_char CHR ''/'' # name)"

definition peer_of :: "addr \<Rightarrow> u16 \<Rightarrow> peer" where
  "peer_of addr port =
     (case addr of
        AddrTcp ip \<Rightarrow> PeerTcp ip port
      | AddrUnix dir \<Rightarrow> PeerUnix (path_join dir (as_bytes (''.s.PGSQL.'' @ show_nat (unat port)))))"

text \<open>An option that is set, when it is asked for.\<close>

definition set_option :: "('a \<Rightarrow> (unit, io_error) rresult) \<Rightarrow> 'a option \<Rightarrow> (unit, error) rresult" where
  "set_option f v = (case v of Some x \<Rightarrow> map_err err_connect (f x) | None \<Rightarrow> Ok ())"

definition connect_socket ::
  "socket_world \<Rightarrow> addr \<Rightarrow> u16 \<Rightarrow> nat option \<Rightarrow> nat option \<Rightarrow> keepalive_config option \<Rightarrow> (socket, error) rresult" where
  "connect_socket w addr port timeout user_timeout keepalive =
     (let peer = peer_of addr port in
      case addr of
        AddrTcp ip \<Rightarrow>
          rbind (connect_with_timeout w peer timeout) (\<lambda>_.
          rbind (map_err err_connect (ow_nodelay w)) (\<lambda>_.
          rbind (set_option (ow_user_timeout w) user_timeout) (\<lambda>_.
          rbind (set_option (ow_keepalive w) (map_option tcp_keepalive_from keepalive)) (\<lambda>_.
            Ok \<lparr>sk_peer = peer, sk_nodelay = True, sk_user_timeout = user_timeout,
                sk_keepalive = map_option tcp_keepalive_from keepalive\<rparr>))))
      | AddrUnix dir \<Rightarrow>
          map_ok (\<lambda>_. \<lparr>sk_peer = peer, sk_nodelay = False, sk_user_timeout = None, sk_keepalive = None\<rparr>)
            (connect_with_timeout w peer timeout))"

section \<open>Driving a connection that is not handed out yet\<close>

text \<open>
  While the client waits for an answer, the code polls the connection itself. One wait is told by
  the last result of these polls: the connection still runs (\<open>Ok False\<close>), has ended (\<open>Ok True\<close>), or
  has failed.
\<close>

type_synonym drive = "nat \<Rightarrow> (bool, error) rresult"

definition driven :: "(bool, error) rresult \<Rightarrow> (unit, error) rresult" where
  "driven p = rbind p (\<lambda>ended. if ended then Err err_closed else Ok ())"

definition driven_query :: "(bool, error) rresult \<Rightarrow> str \<Rightarrow> simple_stream client_op" where
  "driven_query p q = cbind (cres (driven p)) (\<lambda>_. simple_query q)"

definition driven_next ::
  "(bool, error) rresult \<Rightarrow> simple_stream \<Rightarrow> (simple_query_message option, error) rresult \<times> simple_stream" where
  "driven_next p s =
     (case driven p of Ok _ \<Rightarrow> simple_stream_next s | Err e \<Rightarrow> (Err e, s) | Panic \<Rightarrow> (Panic, s))"

lemma driven_next_size:
  "driven_next p s = (Ok x, s') \<Longrightarrow> responses_size (ss_responses s') < responses_size (ss_responses s)"
  by (auto simp: driven_next_def dest: simple_stream_size split: rresult.splits)

section \<open>The compatibility mode of the server\<close>

abbreviation INSUFFICIENT_PRIVILEGE :: str where "INSUFFICIENT_PRIVILEGE \<equiv> ''42501''"
abbreviation FEATURE_NOT_SUPPORTED :: str where "FEATURE_NOT_SUPPORTED \<equiv> ''0A000''"

definition should_ignore_kingbase_probe_error :: "error \<Rightarrow> bool" where
  "should_ignore_kingbase_probe_error e =
     (case error_code e of
        Some code \<Rightarrow> code = UNDEFINED_TABLE \<or> code = UNDEFINED_COLUMN \<or> code = INSUFFICIENT_PRIVILEGE \<or> code = FEATURE_NOT_SUPPORTED
      | None \<Rightarrow> False)"

definition quoted :: "str \<Rightarrow> str" where
  "quoted s = CHR 0x27 # s @ [CHR 0x27]"

definition KINGBASE_COMPATIBILITY_QUERY :: str where
  "KINGBASE_COMPATIBILITY_QUERY =
     lines_of
       [''SELECT name, setting'',
        ''FROM pg_settings'',
        ''WHERE name = '' @ quoted ''database_mode'',
        ''   OR name = '' @ quoted ''ora_input_emptystr_isnull'',
        ''   OR name = '' @ quoted ''enable_unpaired_comment'',
        ''   OR name = '' @ quoted ''sql_mode''] @
     ''   OR name = '' @ quoted ''kdb_flashback.db_recyclebin''"

type_synonym settings = "str \<rightharpoonup> str"

text \<open>One row: the setting it names, unless one of the two is \<open>NULL\<close>.\<close>

definition setting_row :: "simple_query_row \<Rightarrow> settings \<Rightarrow> (settings, error) rresult" where
  "setting_row r settings =
     rbind (simple_row_try_get r (IdxUsize 0)) (\<lambda>name.
     rbind (simple_row_try_get r (IdxUsize 1)) (\<lambda>setting.
       Ok (case (name, setting) of (Some n, Some v) \<Rightarrow> settings(n \<mapsto> v) | _ \<Rightarrow> settings)))"

text \<open>All settings, or nothing when the query fails with an error that is ignored.\<close>

function probe_loop :: "drive \<Rightarrow> nat \<Rightarrow> simple_stream \<Rightarrow> settings \<Rightarrow> (settings option, error) rresult" where
  "probe_loop drive k s settings =
     (case driven_next (drive k) s of
        (Ok (Some (SimpleRow r)), s') \<Rightarrow>
          (case setting_row r settings of
             Ok settings' \<Rightarrow> probe_loop drive (Suc k) s' settings'
           | Err e \<Rightarrow> Err e
           | Panic \<Rightarrow> Panic)
      | (Ok (Some (SimpleCommandComplete n)), s') \<Rightarrow> probe_loop drive (Suc k) s' settings
      | (Ok (Some (SimpleRowDescription cs)), s') \<Rightarrow> probe_loop drive (Suc k) s' settings
      | (Ok None, s') \<Rightarrow> Ok (Some settings)
      | (Err e, s') \<Rightarrow> if should_ignore_kingbase_probe_error e then Ok None else Err e
      | (Panic, s') \<Rightarrow> Panic)"
  by pat_completeness auto
termination
  by (relation "measure (\<lambda>(drive, k, s, settings). responses_size (ss_responses s))") (auto dest: sym [THEN driven_next_size])

declare probe_loop.simps [simp del]

definition probe_kingbase_compatibility :: "drive \<Rightarrow> unit client_op" where
  "probe_kingbase_compatibility drive cl =
     (case driven_query (drive 0) KINGBASE_COMPATIBILITY_QUERY cl of
        (Ok s, cl) \<Rightarrow>
          (case probe_loop drive 1 s Map.empty of
             Ok (Some settings) \<Rightarrow> set_kingbase_server_settings settings cl
           | Ok None \<Rightarrow> (Ok (), cl)
           | Err e \<Rightarrow> (Err e, cl)
           | Panic \<Rightarrow> (Panic, cl))
      | (Err e, cl) \<Rightarrow> if should_ignore_kingbase_probe_error e then (Ok (), cl) else (Err e, cl)
      | (Panic, cl) \<Rightarrow> (Panic, cl))"

section \<open>The properties required of a session\<close>

definition check_read_only :: "target_session_attrs \<Rightarrow> str option \<Rightarrow> (unit, error) rresult" where
  "check_read_only attrs read_only_result =
     (if read_only_result = Some ''on'' \<and> attrs = ReadWrite then
        Err (err_connect (IoError PermissionDenied ''database does not allow writes''))
      else if read_only_result = Some ''off'' \<and> attrs = ReadOnly then
        Err (err_connect (IoError PermissionDenied ''database is not read only''))
      else Ok ())"

function read_only_loop :: "target_session_attrs \<Rightarrow> drive \<Rightarrow> nat \<Rightarrow> simple_stream \<Rightarrow> (unit, error) rresult" where
  "read_only_loop attrs drive k s =
     (case driven_next (drive k) s of
        (Ok (Some (SimpleRow r)), s') \<Rightarrow> rbind (simple_row_try_get r (IdxUsize 0)) (check_read_only attrs)
      | (Ok (Some (SimpleCommandComplete n)), s') \<Rightarrow> read_only_loop attrs drive (Suc k) s'
      | (Ok (Some (SimpleRowDescription cs)), s') \<Rightarrow> read_only_loop attrs drive (Suc k) s'
      | (Ok None, s') \<Rightarrow> Err err_unexpected_message
      | (Err e, s') \<Rightarrow> Err e
      | (Panic, s') \<Rightarrow> Panic)"
  by pat_completeness auto
termination
  by (relation "measure (\<lambda>(attrs, drive, k, s). responses_size (ss_responses s))") (auto dest: sym [THEN driven_next_size])

declare read_only_loop.simps [simp del]

definition check_session_attrs :: "target_session_attrs \<Rightarrow> drive \<Rightarrow> unit client_op" where
  "check_session_attrs attrs drive =
     (if attrs \<noteq> Any then
        cbind (driven_query (drive 0) ''SHOW transaction_read_only'') (\<lambda>s. cres (read_only_loop attrs drive 1 s))
      else cret ())"

section \<open>One attempt\<close>

record socket_config =
  so_addr :: addr
  so_hostname :: "str option"
  so_port :: u16
  so_connect_timeout :: "nat option"
  so_tcp_user_timeout :: "nat option"
  so_keepalive :: "keepalive_config option"

text \<open>A \<open>Client\<close> around its inner client, with the connection it came with.\<close>

record client_handle =
  ch_inner :: client
  ch_socket_config :: "socket_config option"
  ch_ssl_mode :: ssl_mode
  ch_ssl_negotiation :: ssl_negotiation
  ch_process_id :: i32
  ch_secret_key :: i32

type_synonym new_session = "client_handle \<times> conn"

text \<open>
  What one attempt meets: the socket, the TLS connector for a host name, the raw session, the
  requests the connection will serve, the process-wide counters, and the two times it is driven.
\<close>

record attempt =
  aw_socket :: socket_world
  aw_make_tls :: "str \<Rightarrow> (unit, string) rresult"
  aw_raw :: raw_world
  aw_script :: "bytes list option list"
  aw_next_statement :: nat
  aw_next_portal :: nat
  aw_probe :: drive
  aw_show :: drive

definition handle_new :: "attempt \<Rightarrow> connected \<Rightarrow> client_handle" where
  "handle_new w c =
     \<lparr>ch_inner = client_new (aw_script w) (aw_next_statement w) (aw_next_portal w), ch_socket_config = None,
      ch_ssl_mode = cd_ssl_mode c, ch_ssl_negotiation = cd_ssl_negotiation c,
      ch_process_id = cd_process_id c, ch_secret_key = cd_secret_key c\<rparr>"

definition keepalive_of :: "config \<Rightarrow> keepalive_config option" where
  "keepalive_of cfg = (if cf_keepalives cfg then Some (cf_keepalive_config cfg) else None)"

definition make_tls :: "(str \<Rightarrow> (unit, string) rresult) \<Rightarrow> str option \<Rightarrow> (unit, error) rresult" where
  "make_tls f hostname = map_err tls_text (f (case hostname of Some h \<Rightarrow> h | None \<Rightarrow> []))"

definition connect_once :: "attempt \<Rightarrow> addr \<Rightarrow> str option \<Rightarrow> u16 \<Rightarrow> config \<Rightarrow> (new_session, error) rresult" where
  "connect_once w addr hostname port cfg =
     rbind (connect_socket (aw_socket w) addr port (cf_connect_timeout cfg) (cf_tcp_user_timeout cfg) (keepalive_of cfg)) (\<lambda>socket.
     rbind (make_tls (aw_make_tls w) hostname) (\<lambda>_.
     rbind (fst (connect_raw (aw_raw w) (hostname \<noteq> None) cfg (startup_stream_new (aw_raw w)))) (\<lambda>c.
       let h = handle_new w c in
       case cbind (probe_kingbase_compatibility (aw_probe w)) (\<lambda>_. check_session_attrs (cf_target_session_attrs cfg) (aw_show w)) (ch_inner h) of
         (Ok _, inner) \<Rightarrow>
           Ok (h\<lparr>ch_inner := inner, ch_socket_config := Some
                 \<lparr>so_addr = addr, so_hostname = hostname, so_port = port, so_connect_timeout = cf_connect_timeout cfg,
                  so_tcp_user_timeout = cf_tcp_user_timeout cfg, so_keepalive = keepalive_of cfg\<rparr>\<rparr>, cd_connection c)
       | (Err e, inner) \<Rightarrow> Err e
       | (Panic, inner) \<Rightarrow> Panic)))"

section \<open>IP addresses as texts\<close>

text \<open>The standard library's printers: the longest run of two zero groups or more is left out.\<close>

definition lower_digit :: "nat \<Rightarrow> char" where
  "lower_digit d = (if d < 10 then char_of (48 + d) else char_of (87 + d))"

fun lower_hex_nat :: "nat \<Rightarrow> str" where
  "lower_hex_nat n = (if n < 16 then [lower_digit n] else lower_hex_nat (n div 16) @ [lower_digit (n mod 16)])"

declare lower_hex_nat.simps [simp del]

fun separated :: "str \<Rightarrow> str list \<Rightarrow> str" where
  "separated sep [] = []"
| "separated sep [x] = x"
| "separated sep (x # y # xs) = x @ sep @ separated sep (y # xs)"

definition ipv4_display :: "bytes \<Rightarrow> str" where
  "ipv4_display b = separated ''.'' (map (\<lambda>x. show_nat (unat x)) b)"

fun segments :: "bytes \<Rightarrow> nat list" where
  "segments (a # b # r) = (256 * unat a + unat b) # segments r"
| "segments _ = []"

text \<open>The longest run of zero groups so far and the current one, each its start and its length.\<close>

fun zero_span :: "nat \<Rightarrow> nat \<times> nat \<Rightarrow> nat \<times> nat \<Rightarrow> nat list \<Rightarrow> nat \<times> nat" where
  "zero_span i longest current [] = longest"
| "zero_span i longest current (g # gs) =
     (if g = 0 then
        let current = (if snd current = 0 then (i, 1) else (fst current, snd current + 1)) in
        zero_span (Suc i) (if snd current > snd longest then current else longest) current gs
      else zero_span (Suc i) longest (0, 0) gs)"

definition ipv6_display :: "bytes \<Rightarrow> str" where
  "ipv6_display b =
     (if take 12 b = replicate 10 0 @ [0xFF, 0xFF] then ''::ffff:'' @ ipv4_display (drop 12 b)
      else
        let gs = segments b; sub = (\<lambda>gs. separated '':'' (map lower_hex_nat gs)) in
        case zero_span 0 (0, 0) (0, 0) gs of
          (s, n) \<Rightarrow> if n > 1 then sub (take s gs) @ ''::'' @ sub (drop (s + n) gs) else sub gs)"

definition ip_display :: "ip_addr \<Rightarrow> str" where
  "ip_display ip = (case ip of V4 b \<Rightarrow> ipv4_display b | V6 b \<Rightarrow> ipv6_display b)"

section \<open>The hosts of a configuration\<close>

text \<open>
  The resolver, the random order of the \<open>k\<close>-th list of \<open>n\<close> things to be shuffled, and what the
  \<open>k\<close>-th attempt meets. The attempts are logged.
\<close>

type_synonym trial = "addr \<times> str option \<times> u16"

record net_world =
  nw_lookup :: "str \<Rightarrow> u16 \<Rightarrow> (ip_addr list, io_error) rresult"
  nw_shuffle :: "nat \<Rightarrow> nat \<Rightarrow> nat list"
  nw_attempt :: "nat \<Rightarrow> attempt"

definition balanced :: "net_world \<Rightarrow> config \<Rightarrow> nat \<Rightarrow> 'a list \<Rightarrow> 'a list" where
  "balanced w cfg k xs =
     (if cf_load_balance_hosts cfg = LbRandom then map (\<lambda>i. xs ! i) (nw_shuffle w k (length xs)) else xs)"

definition try_once :: "net_world \<Rightarrow> config \<Rightarrow> trial \<Rightarrow> trial list \<Rightarrow> (new_session, error) rresult \<times> trial list" where
  "try_once w cfg t tried =
     (case t of (addr, hostname, port) \<Rightarrow>
        (connect_once (nw_attempt w (length tried)) addr hostname port cfg, tried @ [t]))"

fun try_addrs ::
  "net_world \<Rightarrow> config \<Rightarrow> str option \<Rightarrow> u16 \<Rightarrow> error option \<Rightarrow> ip_addr list \<Rightarrow> trial list \<Rightarrow>
     (new_session, error) rresult \<times> trial list" where
  "try_addrs w cfg hostname port last_err [] tried =
     (Err (case last_err of Some e \<Rightarrow> e | None \<Rightarrow> err_connect (IoError InvalidInput ''could not resolve any addresses'')), tried)"
| "try_addrs w cfg hostname port last_err (ip # ips) tried =
     (case try_once w cfg (AddrTcp ip, hostname, port) tried of
        (Err e, tried) \<Rightarrow> try_addrs w cfg hostname port (Some e) ips tried
      | r \<Rightarrow> r)"

definition connect_host ::
  "net_world \<Rightarrow> config \<Rightarrow> host \<Rightarrow> str option \<Rightarrow> u16 \<Rightarrow> trial list \<Rightarrow> (new_session, error) rresult \<times> trial list" where
  "connect_host w cfg h hostname port tried =
     (case h of
        Tcp name \<Rightarrow>
          (case map_err err_connect (nw_lookup w name port) of
             Ok ips \<Rightarrow> try_addrs w cfg hostname port None (balanced w cfg (Suc (length tried)) ips) tried
           | Err e \<Rightarrow> (Err e, tried)
           | Panic \<Rightarrow> (Panic, tried))
      | Unix path \<Rightarrow> try_once w cfg (AddrUnix path, hostname, port) tried)"

definition nth_opt :: "'a list \<Rightarrow> nat \<Rightarrow> 'a option" where
  "nth_opt xs i = (if i < length xs then Some (xs ! i) else None)"

definition host_port :: "config \<Rightarrow> nat \<Rightarrow> u16" where
  "host_port cfg i =
     (case nth_opt (cf_port cfg) i of
        Some p \<Rightarrow> p
      | None \<Rightarrow> (case nth_opt (cf_port cfg) 0 of Some p \<Rightarrow> p | None \<Rightarrow> 5432))"

definition host_name :: "config \<Rightarrow> nat \<Rightarrow> str option" where
  "host_name cfg i = (case nth_opt (cf_host cfg) i of Some (Tcp h) \<Rightarrow> Some h | _ \<Rightarrow> None)"

definition host_address :: "config \<Rightarrow> nat \<Rightarrow> (host, error) rresult" where
  "host_address cfg i =
     (case nth_opt (cf_hostaddr cfg) i of
        Some ip \<Rightarrow> Ok (Tcp (ip_display ip))
      | None \<Rightarrow> (case nth_opt (cf_host cfg) i of Some h \<Rightarrow> Ok h | None \<Rightarrow> Panic))"

fun connect_indices ::
  "net_world \<Rightarrow> config \<Rightarrow> error option \<Rightarrow> nat list \<Rightarrow> trial list \<Rightarrow> (new_session, error) rresult \<times> trial list" where
  "connect_indices w cfg error [] tried = ((case error of Some e \<Rightarrow> Err e | None \<Rightarrow> Panic), tried)"
| "connect_indices w cfg error (i # is) tried =
     (case host_address cfg i of
        Ok h \<Rightarrow>
          (case connect_host w cfg h (host_name cfg i) (host_port cfg i) tried of
             (Err e, tried) \<Rightarrow> connect_indices w cfg (Some e) is tried
           | r \<Rightarrow> r)
      | Err e \<Rightarrow> (Err e, tried)
      | Panic \<Rightarrow> (Panic, tried))"

definition connect :: "net_world \<Rightarrow> config \<Rightarrow> (new_session, error) rresult \<times> trial list" where
  "connect w cfg =
     (let hosts = length (cf_host cfg); hostaddrs = length (cf_hostaddr cfg); num_hosts = max hosts hostaddrs in
      if hosts = 0 \<and> hostaddrs = 0 then (Err (err_config ''both host and hostaddr are missing''), [])
      else if hosts \<noteq> 0 \<and> hostaddrs \<noteq> 0 \<and> hosts \<noteq> hostaddrs then
        (Err (err_config (''number of hosts ('' @ show_nat hosts @ '') is different from number of hostaddrs ('' @ show_nat hostaddrs @ '')'')), [])
      else if length (cf_port cfg) > 1 \<and> length (cf_port cfg) \<noteq> num_hosts then (Err (err_config ''invalid number of ports''), [])
      else connect_indices w cfg None (balanced w cfg 0 [0..<num_hosts]) [])"

section \<open>Cancelling\<close>

text \<open>A stream that is written to, and what was handed to it.\<close>

record stream_world =
  sw_write :: "(unit, io_error) rresult"
  sw_flush :: "(unit, io_error) rresult"
  sw_shutdown :: "(unit, io_error) rresult"

definition cancel_query_raw ::
  "tls_world \<Rightarrow> stream_world \<Rightarrow> ssl_mode \<Rightarrow> ssl_negotiation \<Rightarrow> bool \<Rightarrow> i32 \<Rightarrow> i32 \<Rightarrow>
     (unit, error) rresult \<times> (maybe_tls \<times> bytes) option" where
  "cancel_query_raw tls sw mode negotiation has_hostname process_id secret_key =
     (case to_result (connect_tls tls mode negotiation has_hostname) of
        Ok kind \<Rightarrow>
          (rbind (map_err err_io (sw_write sw)) (\<lambda>_.
           rbind (map_err err_io (sw_flush sw)) (\<lambda>_.
             map_err err_io (sw_shutdown sw))),
           Some (kind, snd (cancel_request process_id secret_key [])))
      | Err e \<Rightarrow> (Err e, None)
      | Panic \<Rightarrow> (Panic, None))"

record cancel_world =
  xw_socket :: socket_world
  xw_make_tls :: "str \<Rightarrow> (unit, string) rresult"
  xw_tls :: tls_world
  xw_stream :: stream_world

record cancel_outcome =
  co_result :: "(unit, error) rresult"
  co_socket :: "socket option"
  co_written :: "(maybe_tls \<times> bytes) option"

definition not_cancelled :: "(unit, error) rresult \<Rightarrow> cancel_outcome" where
  "not_cancelled r = \<lparr>co_result = r, co_socket = None, co_written = None\<rparr>"

definition cancel_query ::
  "cancel_world \<Rightarrow> socket_config option \<Rightarrow> ssl_mode \<Rightarrow> ssl_negotiation \<Rightarrow> i32 \<Rightarrow> i32 \<Rightarrow> cancel_outcome" where
  "cancel_query w sc mode negotiation process_id secret_key =
     (case sc of
        None \<Rightarrow> not_cancelled (Err (err_connect (IoError InvalidInput ''unknown host'')))
      | Some c \<Rightarrow>
          (case make_tls (xw_make_tls w) (so_hostname c) of
             Ok _ \<Rightarrow>
               (case connect_socket (xw_socket w) (so_addr c) (so_port c) (so_connect_timeout c) (so_tcp_user_timeout c) (so_keepalive c) of
                  Ok socket \<Rightarrow>
                    (case cancel_query_raw (xw_tls w) (xw_stream w) mode negotiation (so_hostname c \<noteq> None) process_id secret_key of
                       (r, written) \<Rightarrow> \<lparr>co_result = r, co_socket = Some socket, co_written = written\<rparr>)
                | Err e \<Rightarrow> not_cancelled (Err e)
                | Panic \<Rightarrow> not_cancelled Panic)
           | Err e \<Rightarrow> not_cancelled (Err e)
           | Panic \<Rightarrow> not_cancelled Panic))"

record cancel_token =
  ct_socket_config :: "socket_config option"
  ct_ssl_mode :: ssl_mode
  ct_ssl_negotiation :: ssl_negotiation
  ct_process_id :: i32
  ct_secret_key :: i32

definition cancel_token_of :: "client_handle \<Rightarrow> cancel_token" where
  "cancel_token_of h =
     \<lparr>ct_socket_config = ch_socket_config h, ct_ssl_mode = ch_ssl_mode h, ct_ssl_negotiation = ch_ssl_negotiation h,
      ct_process_id = ch_process_id h, ct_secret_key = ch_secret_key h\<rparr>"

definition token_cancel_query :: "cancel_world \<Rightarrow> cancel_token \<Rightarrow> cancel_outcome" where
  "token_cancel_query w t =
     cancel_query w (ct_socket_config t) (ct_ssl_mode t) (ct_ssl_negotiation t) (ct_process_id t) (ct_secret_key t)"

definition token_cancel_query_raw ::
  "tls_world \<Rightarrow> stream_world \<Rightarrow> cancel_token \<Rightarrow> (unit, error) rresult \<times> (maybe_tls \<times> bytes) option" where
  "token_cancel_query_raw tls sw t =
     cancel_query_raw tls sw (ct_ssl_mode t) (ct_ssl_negotiation t) True (ct_process_id t) (ct_secret_key t)"

end
