(* ===== verification/SessionChecksSpec.thy ===== *)
theory SessionChecksSpec
  imports Connect TransactionSpec StartupSpec
begin

text \<open>
  What a server's answers to the two questions after the startup make of the new client of
  \<open>Connect\<close>, and which request a cancellation sends to whom.
\<close>

section \<open>What one message of a simple query becomes\<close>

lemma simple_stream_message:
  assumes "delivers (ss_responses s) (m # ms)"
  obtains s' where "simple_stream_next s =
      (rbind (message_result m) (\<lambda>m. fst (simple_item (ss_columns s) m)), s')"
    "delivers (ss_responses s') ms"
    "ss_columns s' = (case message_result m of Ok m \<Rightarrow> snd (simple_item (ss_columns s) m) | _ \<Rightarrow> ss_columns s)"
proof -
  obtain r where r: "responses_next (ss_responses s) = (message_result m, r)" "delivers r ms"
    using delivers_next [OF assms] .
  show thesis
  proof (cases "message_result m")
    case (Ok m')
    with r show thesis by (intro that [of "\<lparr>ss_responses = r, ss_columns = snd (simple_item (ss_columns s) m')\<rparr>"]) (simp_all add: simple_stream_next_def)
  next
    case (Err e)
    with r show thesis by (intro that [of "s\<lparr>ss_responses := r\<rparr>"]) (simp_all add: simple_stream_next_def)
  next
    case Panic
    with r show thesis by (intro that [of "s\<lparr>ss_responses := r\<rparr>"]) (simp_all add: simple_stream_next_def)
  qed
qed

text \<open>A text value of a row, and the row of such values.\<close>

definition text_cell :: "str option \<Rightarrow> cell" where
  "text_cell v = (case v of Some s \<Rightarrow> (of_nat (length s), as_bytes s) | None \<Rightarrow> (-1, []))"

definition text_ok_value :: "str option \<Rightarrow> bool" where
  "text_ok_value v \<longleftrightarrow> (case v of Some s \<Rightarrow> utf8_valid (as_bytes s) \<and> length s < 2 ^ 31 | None \<Rightarrow> True)"

definition text_row :: "str option list \<Rightarrow> message" where
  "text_row vs = DataRow \<lparr>dr_storage = concat (map (cell_bytes \<circ> text_cell) vs), dr_len = of_nat (length vs)\<rparr>"

definition describes :: "counted_body \<Rightarrow> str list \<Rightarrow> bool" where
  "describes c names \<longleftrightarrow>
     (\<exists>fs. length fs = unat (cb_len c) \<and> list_all field_ok fs \<and> cb_storage c = concat (map BackendIters.field_bytes fs) \<and>
        map f_name fs = names)"

lemma text_cell_ok: "text_ok_value v \<Longrightarrow> cell_ok (text_cell v) \<and> cell_value (text_cell v) = map_option as_bytes v"
proof (cases v)
  case (Some s)
  assume "text_ok_value v"
  with Some have l: "length s < 2 ^ 31" by (simp add: text_ok_value_def)
  then have "sint (of_nat (length s) :: i32) = int (length s)" "unat (of_nat (length s) :: i32) = length s"
    using i32_len_signed [of "length s"] by simp_all
  with Some show ?thesis by (simp add: text_cell_def cell_ok_def cell_value_def)
qed (simp add: text_cell_def cell_ok_def cell_value_def)

lemma text_cells: "list_all text_ok_value vs \<Longrightarrow> list_all cell_ok (map text_cell vs) \<and> map cell_value (map text_cell vs) = map (map_option as_bytes) vs"
  by (induction vs) (simp_all add: text_cell_ok)

lemma item_description: "describes c names \<Longrightarrow> simple_item cols (RowDescription c) = (Ok (Some (SimpleRowDescription names)), Some names)"
proof -
  assume "describes c names"
  then obtain fs where "collect (\<lambda>s. unat (ci_remaining s)) fields_next (BackendIters.fields c) = Ok fs" "map f_name fs = names"
    unfolding describes_def fields_counted BackendIters.fields_def field_rd.counted_list by blast
  then show ?thesis by (simp add: simple_item_def)
qed

definition text_simple_row :: "str list \<Rightarrow> str option list \<Rightarrow> simple_query_row" where
  "text_simple_row names vs =
     \<lparr>sr_columns = names,
      sr_body = \<lparr>dr_storage = concat (map (cell_bytes \<circ> text_cell) vs), dr_len = of_nat (length vs)\<rparr>,
      sr_ranges = cell_ranges 0 (map text_cell vs)\<rparr>"

lemma item_row:
  assumes "list_all text_ok_value vs" and "length vs < 65536"
  shows "simple_item (Some names) (text_row vs) = (Ok (Some (SimpleRow (text_simple_row names vs))), Some names)"
proof -
  let ?body = "\<lparr>dr_storage = concat (map (cell_bytes \<circ> text_cell) vs), dr_len = of_nat (length vs)\<rparr>"
  have "row_new sample_statement ?body = Ok \<lparr>row_statement = sample_statement, row_body = ?body, row_ranges = cell_ranges 0 (map text_cell vs)\<rparr>"
    using row_of_cells [of "map text_cell vs" sample_statement] assms text_cells [of vs] by simp
  then have "collect (\<lambda>s. unat (ri_remaining s)) data_row_ranges_next (ranges ?body) = Ok (cell_ranges 0 (map text_cell vs))"
    by (auto simp: row_new_def)
  then show ?thesis by (simp add: simple_item_def text_row_def simple_row_new_def text_simple_row_def)
qed

lemma text_type_name: "map_of builtin_names 25 = Some ''text''"
  unfolding builtin_names_def by simp

lemma read_text_cell: "text_ok_value v \<Longrightarrow> from_sql_nullable (option_from str_from) TEXT (map_option as_bytes v) = Ok v"
  by (cases v) (simp_all add: from_sql_nullable_def option_from_def str_from_def str_from_sql_def text_type_name text_ok_value_def text_from_as_bytes)

lemma text_row_get:
  assumes "list_all text_ok_value vs" and "i < length vs" and "i < length names"
  shows "simple_row_try_get (text_simple_row names vs) (IdxUsize i) = Ok (vs ! i)"
proof -
  let ?r = "text_simple_row names vs"
  let ?row = "\<lparr>row_statement = sample_statement, row_body = sr_body ?r, row_ranges = sr_ranges ?r\<rparr>"
  have "col_buffer ?row i = Ok (cell_value (map text_cell vs ! i))"
    using assms text_cells [of vs] by (intro col_buffer_cell) (simp_all add: text_simple_row_def)
  also have "cell_value (map text_cell vs ! i) = map_option as_bytes (vs ! i)"
    using assms text_cell_ok [of "vs ! i"] by (simp add: list_all_length)
  finally have b: "rbind (range_at (sr_ranges ?r) i) (slice_at (dr_storage (sr_body ?r))) = Ok (map_option as_bytes (vs ! i))"
    unfolding col_buffer_def by (simp only: row.simps)
  have "row_idx (IdxUsize i) (sr_columns ?r) = Some i" using assms(3) by (simp add: text_simple_row_def)
  moreover have "text_ok_value (vs ! i)" using assms by (simp add: list_all_length)
  ultimately show ?thesis
    using read_text_cell [of "vs ! i"] by (simp only: simple_row_try_get_def option.case b rbind.simps map_err.simps)
qed

text \<open>A request of the simple protocol on a channel that is open.\<close>

lemma simple_query_run:
  assumes "text_ok q" and "cl_buffer cl = []" and "cl_script cl = Some runs # script"
  shows "simple_query q cl =
    (Ok \<lparr>ss_responses = \<lparr>rs_cur = [], rs_runs = runs\<rparr>, ss_columns = None\<rparr>, answered q cl)"
  using assms
  by (simp add: answered_def sql_request_def simple_query_def cbind_def simple_encode_def with_buf_def wseq_def wbind_def map_werr_def split_buf_def
      query_run send_raw_def send_def cret_def)

section \<open>The compatibility mode\<close>

abbreviation still_running :: drive where "still_running \<equiv> \<lambda>k. Ok False"

lemma running_next: "driven_next (Ok False) s = simple_stream_next s"
  by (simp add: driven_next_def driven_def)

lemma running_query: "driven_query (Ok False) q = simple_query q"
  by (rule ext) (simp add: driven_query_def driven_def cbind_def cres_def)

definition setting_values :: "str option \<times> str option \<Rightarrow> str option list" where
  "setting_values p = [fst p, snd p]"

definition add_setting :: "settings \<Rightarrow> str option \<times> str option \<Rightarrow> settings" where
  "add_setting st p = (case p of (Some n, Some v) \<Rightarrow> st(n \<mapsto> v) | _ \<Rightarrow> st)"

definition settings_of :: "(str option \<times> str option) list \<Rightarrow> settings" where
  "settings_of rows = foldl add_setting Map.empty rows"

definition setting_ok :: "str option \<times> str option \<Rightarrow> bool" where
  "setting_ok p \<longleftrightarrow> text_ok_value (fst p) \<and> text_ok_value (snd p)"

lemma setting_row_text:
  "setting_ok p \<Longrightarrow> setting_row (text_simple_row [a, b] (setting_values p)) st = Ok (add_setting st p)"
  using text_row_get [of "setting_values p" 0 "[a, b]"] text_row_get [of "setting_values p" 1 "[a, b]"]
  by (cases p) (simp add: setting_row_def setting_ok_def setting_values_def add_setting_def)

lemma probe_rows:
  assumes "delivers (ss_responses s) (map (text_row \<circ> setting_values) rows @ rest)"
    and "ss_columns s = Some [a, b]" and "list_all setting_ok rows"
  shows "\<exists>s'. probe_loop still_running k s st = probe_loop still_running (k + length rows) s' (foldl add_setting st rows) \<and>
    delivers (ss_responses s') rest \<and> ss_columns s' = Some [a, b]"
  using assms
proof (induction rows arbitrary: s k st)
  case (Cons p rows)
  have "simple_item (Some [a, b]) (text_row (setting_values p)) = (Ok (Some (SimpleRow (text_simple_row [a, b] (setting_values p)))), Some [a, b])"
    using Cons.prems(3) by (intro item_row) (simp_all add: setting_ok_def setting_values_def)
  moreover have d: "delivers (ss_responses s) (text_row (setting_values p) # map (text_row \<circ> setting_values) rows @ rest)"
    using Cons.prems(1) unfolding list.map comp_apply append_Cons .
  moreover obtain s1 where s1: "simple_stream_next s =
        (rbind (message_result (text_row (setting_values p))) (\<lambda>m. fst (simple_item (ss_columns s) m)), s1)"
      "delivers (ss_responses s1) (map (text_row \<circ> setting_values) rows @ rest)"
      "ss_columns s1 = (case message_result (text_row (setting_values p)) of Ok m \<Rightarrow> snd (simple_item (ss_columns s) m) | _ \<Rightarrow> ss_columns s)"
    by (rule simple_stream_message [OF d])
  moreover have "message_result (text_row (setting_values p)) = Ok (text_row (setting_values p))"
    by (simp add: message_result_def text_row_def)
  ultimately have n: "simple_stream_next s = (Ok (Some (SimpleRow (text_simple_row [a, b] (setting_values p)))), s1)"
    and c: "ss_columns s1 = Some [a, b]"
    using Cons.prems(2) by simp_all
  have "probe_loop still_running k s st = probe_loop still_running (Suc k) s1 (add_setting st p)"
    using setting_row_text [of p a b st] Cons.prems(3) by (subst probe_loop.simps) (simp add: running_next n)
  with Cons.IH [OF s1(2) c, of "Suc k" "add_setting st p"] Cons.prems(3) show ?case by simp
qed auto

lemma probe_described:
  assumes "delivers (ss_responses s) (RowDescription c # map (text_row \<circ> setting_values) rows @ rest)"
    and "describes c [a, b]" and "list_all setting_ok rows"
  shows "\<exists>k' s'. probe_loop still_running k s Map.empty = probe_loop still_running k' s' (settings_of rows) \<and>
    delivers (ss_responses s') rest"
proof -
  obtain s1 where s1: "simple_stream_next s =
        (rbind (message_result (RowDescription c)) (\<lambda>m. fst (simple_item (ss_columns s) m)), s1)"
      "delivers (ss_responses s1) (map (text_row \<circ> setting_values) rows @ rest)"
      "ss_columns s1 = (case message_result (RowDescription c) of Ok m \<Rightarrow> snd (simple_item (ss_columns s) m) | _ \<Rightarrow> ss_columns s)"
    by (rule simple_stream_message [OF assms(1)])
  have n: "simple_stream_next s = (Ok (Some (SimpleRowDescription [a, b])), s1)" and c: "ss_columns s1 = Some [a, b]"
    using s1(1,3) by (simp_all add: message_result_def item_description [OF assms(2)])
  have "probe_loop still_running k s Map.empty = probe_loop still_running (Suc k) s1 Map.empty"
    by (subst probe_loop.simps) (simp add: running_next n)
  with probe_rows [OF s1(2) c assms(3), of "Suc k" Map.empty] show ?thesis
    unfolding settings_of_def by metis
qed

lemma probe_complete:
  assumes "delivers (ss_responses s) (CommandComplete t # ReadyForQuery z # rest)" and "utf8_valid t"
  shows "probe_loop still_running k s st = Ok (Some st)"
proof -
  obtain s1 where s1: "simple_stream_next s =
        (rbind (message_result (CommandComplete t)) (\<lambda>m. fst (simple_item (ss_columns s) m)), s1)"
      "delivers (ss_responses s1) (ReadyForQuery z # rest)"
      "ss_columns s1 = (case message_result (CommandComplete t) of Ok m \<Rightarrow> snd (simple_item (ss_columns s) m) | _ \<Rightarrow> ss_columns s)"
    by (rule simple_stream_message [OF assms(1)])
  obtain s2 where s2: "simple_stream_next s1 =
        (rbind (message_result (ReadyForQuery z)) (\<lambda>m. fst (simple_item (ss_columns s1) m)), s2)"
      "delivers (ss_responses s2) rest"
    by (rule simple_stream_message [OF s1(2)])
  have "extract_row_affected t = Ok (tag_rows t)" using assms(2) by (simp add: extract_row_affected_iff)
  then have n: "simple_stream_next s = (Ok (Some (SimpleCommandComplete (tag_rows t))), s1)"
    using s1(1) by (simp add: message_result_def simple_item_def)
  have "simple_stream_next s1 = (Ok None, s2)" using s2(1) by (simp add: message_result_def simple_item_def)
  then show ?thesis by (subst probe_loop.simps, subst probe_loop.simps) (simp add: running_next n)
qed

lemma probe_failed:
  assumes "delivers (ss_responses s) (ErrorResponse e # rest)"
  shows "probe_loop still_running k s st = (if should_ignore_kingbase_probe_error (err_db e) then Ok None else Err (err_db e))"
proof -
  obtain s1 where "simple_stream_next s =
        (rbind (message_result (ErrorResponse e)) (\<lambda>m. fst (simple_item (ss_columns s) m)), s1)"
    by (rule simple_stream_message [OF assms])
  then have "simple_stream_next s = (Err (err_db e), s1)" by (simp add: message_result_def)
  then show ?thesis by (subst probe_loop.simps) (simp add: running_next)
qed

lemma kingbase_query_ok: "text_ok KINGBASE_COMPATIBILITY_QUERY"
  by (simp add: text_ok_def KINGBASE_COMPATIBILITY_QUERY_def lines_of_def quoted_def)

text \<open>
  An answer to the question for the settings: the description of two columns and the rows, or
  nothing yet, and then either the end of the command or an error.
\<close>

definition settings_answer :: "bytes list \<Rightarrow> (str option \<times> str option) list \<Rightarrow> message list \<Rightarrow> bool" where
  "settings_answer runs rows tail \<longleftrightarrow>
     (\<exists>mss c a b. map encode_all mss = runs \<and> list_all message_wf (concat mss) \<and> describes c [a, b] \<and> list_all setting_ok rows \<and>
        concat mss = RowDescription c # map (text_row \<circ> setting_values) rows @ tail)"

definition refused_answer :: "bytes list \<Rightarrow> bytes \<Rightarrow> bool" where
  "refused_answer runs e \<longleftrightarrow>
     (\<exists>mss rest. map encode_all mss = runs \<and> list_all message_wf (concat mss) \<and> concat mss = ErrorResponse e # rest)"

lemma probe_run:
  assumes "cl_buffer cl = []" and "cl_script cl = Some runs # script"
  shows "probe_kingbase_compatibility still_running cl =
    (case probe_loop still_running 1 \<lparr>ss_responses = \<lparr>rs_cur = [], rs_runs = runs\<rparr>, ss_columns = None\<rparr> Map.empty of
       Ok (Some settings) \<Rightarrow> set_kingbase_server_settings settings (answered KINGBASE_COMPATIBILITY_QUERY cl)
     | Ok None \<Rightarrow> (Ok (), answered KINGBASE_COMPATIBILITY_QUERY cl)
     | Err e \<Rightarrow> (Err e, answered KINGBASE_COMPATIBILITY_QUERY cl)
     | Panic \<Rightarrow> (Panic, answered KINGBASE_COMPATIBILITY_QUERY cl))"
  using simple_query_run [OF kingbase_query_ok assms] by (simp add: probe_kingbase_compatibility_def running_query)

lemma probe_outcomes:
  assumes "cl_buffer cl = []" and "cl_script cl = Some runs # script"
  defines "cl' \<equiv> answered KINGBASE_COMPATIBILITY_QUERY cl"
  shows "settings_answer runs rows (CommandComplete t # ReadyForQuery z # rest) \<Longrightarrow> utf8_valid t \<Longrightarrow>
      probe_kingbase_compatibility still_running cl =
        (Ok (), cl'\<lparr>cl_compatible_mode := from_database_mode (settings_of rows ''database_mode''), cl_settings := settings_of rows\<rparr>)"
    and "settings_answer runs rows (ErrorResponse e # rest) \<or> refused_answer runs e \<Longrightarrow>
      probe_kingbase_compatibility still_running cl =
        (if should_ignore_kingbase_probe_error (err_db e) then Ok () else Err (err_db e), cl')"
proof -
  let ?s = "\<lparr>ss_responses = \<lparr>rs_cur = [], rs_runs = runs\<rparr>, ss_columns = None\<rparr>"
  have answer: "\<exists>k' s'. probe_loop still_running 1 ?s Map.empty = probe_loop still_running k' s' (settings_of rows) \<and> delivers (ss_responses s') tail"
    if a: "settings_answer runs rows tail" for tail
  proof -
    obtain mss c x y where m: "map encode_all mss = runs" "list_all message_wf (concat mss)" "describes c [x, y]"
        "list_all setting_ok rows" "concat mss = RowDescription c # map (text_row \<circ> setting_values) rows @ tail"
      using a unfolding settings_answer_def by (elim exE conjE) (rule that)
    have d: "delivers (ss_responses ?s) (RowDescription c # map (text_row \<circ> setting_values) rows @ tail)"
      using opened_delivers [OF m(1,2)] unfolding m(5) by simp
    show ?thesis by (rule probe_described [OF d m(3,4)])
  qed
  {
    assume "settings_answer runs rows (CommandComplete t # ReadyForQuery z # rest)" and "utf8_valid t"
    then have "probe_loop still_running 1 ?s Map.empty = Ok (Some (settings_of rows))"
      using answer probe_complete by metis
    then show "probe_kingbase_compatibility still_running cl =
        (Ok (), cl'\<lparr>cl_compatible_mode := from_database_mode (settings_of rows ''database_mode''), cl_settings := settings_of rows\<rparr>)"
      unfolding cl'_def probe_run [OF assms(1,2)] by (simp add: set_kingbase_server_settings_def cmod_def)
  next
    assume "settings_answer runs rows (ErrorResponse e # rest) \<or> refused_answer runs e"
    then have "probe_loop still_running 1 ?s Map.empty = (if should_ignore_kingbase_probe_error (err_db e) then Ok None else Err (err_db e))"
    proof
      assume "settings_answer runs rows (ErrorResponse e # rest)"
      then show ?thesis using answer probe_failed by metis
    next
      assume "refused_answer runs e"
      then obtain mss r where m: "map encode_all mss = runs" "list_all message_wf (concat mss)" "concat mss = ErrorResponse e # r"
        unfolding refused_answer_def by (elim exE conjE) (rule that)
      have "delivers (ss_responses ?s) (ErrorResponse e # r)"
        using opened_delivers [OF m(1,2)] unfolding m(3) by simp
      then show ?thesis by (rule probe_failed)
    qed
    then show "probe_kingbase_compatibility still_running cl =
        (if should_ignore_kingbase_probe_error (err_db e) then Ok () else Err (err_db e), cl')"
      unfolding cl'_def probe_run [OF assms(1,2)] by simp
  }
qed


section \<open>A new session\<close>

definition show_answer :: "bytes list \<Rightarrow> str option \<Rightarrow> bool" where
  "show_answer runs v \<longleftrightarrow>
     (\<exists>mss c a rest. map encode_all mss = runs \<and> list_all message_wf (concat mss) \<and> describes c [a] \<and> text_ok_value v \<and>
        concat mss = RowDescription c # text_row [v] # rest)"

lemma read_only_answer:
  assumes "show_answer runs v"
  shows "read_only_loop attrs still_running 1 \<lparr>ss_responses = \<lparr>rs_cur = [], rs_runs = runs\<rparr>, ss_columns = None\<rparr> = check_read_only attrs v"
proof -
  let ?s = "\<lparr>ss_responses = \<lparr>rs_cur = [], rs_runs = runs\<rparr>, ss_columns = None\<rparr>"
  obtain mss c a rest where m: "map encode_all mss = runs" "list_all message_wf (concat mss)" "describes c [a]"
      "text_ok_value v" "concat mss = RowDescription c # text_row [v] # rest"
    using assms unfolding show_answer_def by (elim exE conjE) (rule that)
  have d: "delivers (ss_responses ?s) (RowDescription c # text_row [v] # rest)"
    using opened_delivers [OF m(1,2)] unfolding m(5) by simp
  obtain s1 where s1: "simple_stream_next ?s =
        (rbind (message_result (RowDescription c)) (\<lambda>m. fst (simple_item (ss_columns ?s) m)), s1)"
      "delivers (ss_responses s1) (text_row [v] # rest)"
      "ss_columns s1 = (case message_result (RowDescription c) of Ok m \<Rightarrow> snd (simple_item (ss_columns ?s) m) | _ \<Rightarrow> ss_columns ?s)"
    by (rule simple_stream_message [OF d])
  have n1: "simple_stream_next ?s = (Ok (Some (SimpleRowDescription [a])), s1)" and c: "ss_columns s1 = Some [a]"
    using s1(1,3) by (simp_all add: message_result_def item_description [OF m(3)])
  obtain s2 where s2: "simple_stream_next s1 =
        (rbind (message_result (text_row [v])) (\<lambda>m. fst (simple_item (ss_columns s1) m)), s2)"
    by (rule simple_stream_message [OF s1(2)])
  have "message_result (text_row [v]) = Ok (text_row [v])" by (simp add: message_result_def text_row_def)
  moreover have "simple_item (Some [a]) (text_row [v]) = (Ok (Some (SimpleRow (text_simple_row [a] [v]))), Some [a])"
    using m(4) by (intro item_row) simp_all
  ultimately have n2: "simple_stream_next s1 = (Ok (Some (SimpleRow (text_simple_row [a] [v]))), s2)"
    using s2 c by simp
  have "simple_row_try_get (text_simple_row [a] [v]) (IdxUsize 0) = Ok v"
    using text_row_get [of "[v]" 0 "[a]"] m(4) by simp
  then show ?thesis
    by (subst read_only_loop.simps, subst read_only_loop.simps) (simp add: running_next n1 n2)
qed

abbreviation SHOW_READ_ONLY :: str where "SHOW_READ_ONLY \<equiv> ''SHOW transaction_read_only''"

text \<open>The server's state is the one the configuration does not want.\<close>

definition unwanted :: "target_session_attrs \<Rightarrow> str option \<Rightarrow> bool" where
  "unwanted attrs v \<longleftrightarrow> attrs = ReadWrite \<and> v = Some ''on'' \<or> attrs = ReadOnly \<and> v = Some ''off''"

lemma check_read_only_Ok: "check_read_only attrs v = Ok () \<longleftrightarrow> \<not> unwanted attrs v"
  by (auto simp: check_read_only_def unwanted_def)

lemma check_session_attrs_run:
  assumes "cl_buffer cl = []" and "cl_script cl = Some runs # script" and "show_answer runs v"
  shows "check_session_attrs attrs still_running cl =
    (if attrs = Any then (Ok (), cl) else (check_read_only attrs v, answered SHOW_READ_ONLY cl))"
proof -
  have "text_ok SHOW_READ_ONLY" by (simp add: text_ok_def)
  from simple_query_run [OF this assms(1,2)] read_only_answer [OF assms(3)] show ?thesis
    by (simp add: check_session_attrs_def running_query cbind_def cres_def cret_def)
qed

definition socket_config_of :: "addr \<Rightarrow> str option \<Rightarrow> u16 \<Rightarrow> config \<Rightarrow> socket_config" where
  "socket_config_of addr hostname port cfg =
     \<lparr>so_addr = addr, so_hostname = hostname, so_port = port, so_connect_timeout = cf_connect_timeout cfg,
      so_tcp_user_timeout = cf_tcp_user_timeout cfg, so_keepalive = keepalive_of cfg\<rparr>"

text \<open>What an attempt needs to get as far as the two questions, and the answers to these.\<close>

definition reaches :: "attempt \<Rightarrow> addr \<Rightarrow> str option \<Rightarrow> u16 \<Rightarrow> config \<Rightarrow> connected \<Rightarrow> bool" where
  "reaches w addr hostname port cfg c \<longleftrightarrow>
     (\<exists>socket. connect_socket (aw_socket w) addr port (cf_connect_timeout cfg) (cf_tcp_user_timeout cfg) (keepalive_of cfg) = Ok socket) \<and>
     make_tls (aw_make_tls w) hostname = Ok () \<and>
     fst (connect_raw (aw_raw w) (hostname \<noteq> None) cfg (startup_stream_new (aw_raw w))) = Ok c"

definition answers :: "attempt \<Rightarrow> (str option \<times> str option) list \<Rightarrow> str option \<Rightarrow> bool" where
  "answers w rows v \<longleftrightarrow>
     aw_probe w = still_running \<and> aw_show w = still_running \<and>
     (\<exists>runs runs' script t z rest. aw_script w = Some runs # Some runs' # script \<and> utf8_valid t \<and>
        settings_answer runs rows (CommandComplete t # ReadyForQuery z # rest) \<and> show_answer runs' v)"

lemma session_checked:
  assumes "reaches w addr hostname port cfg c" and "answers w rows v"
  shows "if unwanted (cf_target_session_attrs cfg) v
    then \<exists>msg. connect_once w addr hostname port cfg = Err (err_connect (IoError PermissionDenied msg))
    else \<exists>h. connect_once w addr hostname port cfg = Ok (h, cd_connection c) \<and>
      cl_compatible_mode (ch_inner h) = from_database_mode (settings_of rows ''database_mode'') \<and>
      cl_settings (ch_inner h) = settings_of rows \<and>
      cl_sent (ch_inner h) = sql_request KINGBASE_COMPATIBILITY_QUERY #
        (if cf_target_session_attrs cfg = Any then [] else [sql_request SHOW_READ_ONLY]) \<and>
      ch_process_id h = cd_process_id c \<and> ch_secret_key h = cd_secret_key c \<and>
      ch_socket_config h = Some (socket_config_of addr hostname port cfg)"
proof -
  obtain runs runs' script t z rest where s: "aw_script w = Some runs # Some runs' # script" "utf8_valid t"
      "settings_answer runs rows (CommandComplete t # ReadyForQuery z # rest)" "show_answer runs' v"
      and run: "aw_probe w = still_running" "aw_show w = still_running"
    using assms(2) unfolding answers_def by (elim exE conjE) (rule that)
  let ?cl = "ch_inner (handle_new w c)"
  let ?cl1 = "(answered KINGBASE_COMPATIBILITY_QUERY ?cl)
    \<lparr>cl_compatible_mode := from_database_mode (settings_of rows ''database_mode''), cl_settings := settings_of rows\<rparr>"
  have cl: "cl_buffer ?cl = []" "cl_script ?cl = Some runs # Some runs' # script" "cl_sent ?cl = []"
    by (simp_all add: handle_new_def client_new_def s(1))
  have p: "probe_kingbase_compatibility still_running ?cl = (Ok (), ?cl1)" by (rule probe_outcomes(1) [OF cl(1,2) s(3,2)])
  have cl1: "cl_buffer ?cl1 = []" "cl_script ?cl1 = Some runs' # script" "cl_sent ?cl1 = [sql_request KINGBASE_COMPATIBILITY_QUERY]"
    using cl by (simp_all add: answered_def)
  have q: "check_session_attrs (cf_target_session_attrs cfg) still_running ?cl1 =
      (if cf_target_session_attrs cfg = Any then (Ok (), ?cl1)
       else (check_read_only (cf_target_session_attrs cfg) v, answered SHOW_READ_ONLY ?cl1))"
    by (rule check_session_attrs_run [OF cl1(1,2) s(4)])
  obtain socket where r: "connect_socket (aw_socket w) addr port (cf_connect_timeout cfg) (cf_tcp_user_timeout cfg) (keepalive_of cfg) = Ok socket"
      "make_tls (aw_make_tls w) hostname = Ok ()"
      "fst (connect_raw (aw_raw w) (hostname \<noteq> None) cfg (startup_stream_new (aw_raw w))) = Ok c"
    using assms(1) unfolding reaches_def by (elim exE conjE) (rule that)
  show ?thesis
  proof (cases "unwanted (cf_target_session_attrs cfg) v")
    case True
    then obtain msg where "check_read_only (cf_target_session_attrs cfg) v = Err (err_connect (IoError PermissionDenied msg))"
      by (auto simp: unwanted_def check_read_only_def)
    moreover have "cf_target_session_attrs cfg \<noteq> Any" using True by (auto simp: unwanted_def)
    ultimately show ?thesis using True r by (simp add: connect_once_def Let_def cbind_def run p q) blast
  next
    case False
    then have "check_read_only (cf_target_session_attrs cfg) v = Ok ()" by (simp add: check_read_only_Ok)
    with False r cl1(3) show ?thesis
      by (simp add: connect_once_def Let_def cbind_def run p q socket_config_of_def) (simp add: handle_new_def answered_def)
  qed
qed


section \<open>Cancelling\<close>

lemma raw_session_mode: "raw_session w kind cfg s = (Ok c, s') \<Longrightarrow> cd_ssl_mode c = cf_ssl_mode cfg \<and> cd_ssl_negotiation c = cf_ssl_negotiation cfg"
  by (auto simp: raw_session_def sbind_Ok sres_Ok)

lemma connect_raw_mode:
  "fst (connect_raw w hh cfg s) = Ok c \<Longrightarrow> cd_ssl_mode c = cf_ssl_mode cfg \<and> cd_ssl_negotiation c = cf_ssl_negotiation cfg"
  by (cases "connect_raw w hh cfg s") (auto simp: connect_raw_def sres_def split: rresult.splits dest: raw_session_mode)

lemma connect_once_Ok:
  assumes "connect_once w addr hostname port cfg = Ok (h, conn)"
  obtains socket c where
    "connect_socket (aw_socket w) addr port (cf_connect_timeout cfg) (cf_tcp_user_timeout cfg) (keepalive_of cfg) = Ok socket"
    "make_tls (aw_make_tls w) hostname = Ok ()"
    "fst (connect_raw (aw_raw w) (hostname \<noteq> None) cfg (startup_stream_new (aw_raw w))) = Ok c"
    "cancel_token_of h = \<lparr>ct_socket_config = Some (socket_config_of addr hostname port cfg), ct_ssl_mode = cd_ssl_mode c,
       ct_ssl_negotiation = cd_ssl_negotiation c, ct_process_id = cd_process_id c, ct_secret_key = cd_secret_key c\<rparr>"
proof -
  let ?f = "cbind (probe_kingbase_compatibility (aw_probe w)) (\<lambda>_. check_session_attrs (cf_target_session_attrs cfg) (aw_show w))"
  obtain socket c where r: "connect_socket (aw_socket w) addr port (cf_connect_timeout cfg) (cf_tcp_user_timeout cfg) (keepalive_of cfg) = Ok socket"
      "make_tls (aw_make_tls w) hostname = Ok ()"
      "fst (connect_raw (aw_raw w) (hostname \<noteq> None) cfg (startup_stream_new (aw_raw w))) = Ok c"
    using assms by (auto simp: connect_once_def rbind_eq_Ok)
  obtain res inner where i: "?f (ch_inner (handle_new w c)) = (res, inner)" by fastforce
  have "h = (handle_new w c)\<lparr>ch_inner := inner, ch_socket_config := Some (socket_config_of addr hostname port cfg)\<rparr>"
    using assms r i by (cases res) (simp_all add: connect_once_def Let_def socket_config_of_def)
  then show thesis
    by (intro that [OF r]) (simp add: cancel_token_of_def handle_new_def)
qed

lemma connect_socket_same:
  "connect_socket w addr port t u k = Ok s \<Longrightarrow> connect_socket w' addr port t u k = Ok s' \<Longrightarrow> s = s'"
  by (cases addr) (auto simp: connect_socket_def Let_def rbind_eq_Ok map_ok_eq_Ok)

lemma connect_socket_peer: "connect_socket w addr port t u k = Ok s \<Longrightarrow> sk_peer s = peer_of addr port"
  by (cases addr) (auto simp: connect_socket_def Let_def rbind_eq_Ok map_ok_eq_Ok)

lemma require_is_tls: "to_result (connect_tls w Require neg hh) = Ok kind \<Longrightarrow> kind = TlsStream"
  by (cases neg) (auto simp: connect_tls_def tls_handshake_def tls_return_def Let_def map_ok_eq_Ok split: if_splits rresult.splits)

lemma cancel_request_run: "snd (cancel_request pid key []) = put_i32 16 @ put_i32 80877102 @ put_i32 pid @ put_i32 key"
  using denotes_run [OF cancel_request_denotes [of pid key], of "[]"] by simp

lemma cancel_query_Ok:
  assumes "co_result (cancel_query x (Some sc) mode neg pid key) = Ok ()"
  obtains socket kind where "connect_socket (xw_socket x) (so_addr sc) (so_port sc) (so_connect_timeout sc) (so_tcp_user_timeout sc) (so_keepalive sc) = Ok socket"
    "to_result (connect_tls (xw_tls x) mode neg (so_hostname sc \<noteq> None)) = Ok kind"
    "co_socket (cancel_query x (Some sc) mode neg pid key) = Some socket"
    "co_written (cancel_query x (Some sc) mode neg pid key) = Some (kind, snd (cancel_request pid key []))"
  using assms that
  by (fastforce simp: cancel_query_def cancel_query_raw_def not_cancelled_def split: prod.splits rresult.splits)

text \<open>
  C19. A cancellation reaches the session it is meant for. When a client was connected to a server
  and a cancellation through its token succeeds, then it went over a new socket to the same
  address and port, with the same settings of the socket, and all that was written to it is the
  cancel request with the process and the key that this server had reported; if the session had to
  be encrypted, so was the request.
\<close>

theorem cancel_reaches_session:
  assumes "connect_once w addr hostname port cfg = Ok (h, conn)"
    and "co_result (token_cancel_query x (cancel_token_of h)) = Ok ()"
  shows "\<exists>socket c kind.
      connect_socket (aw_socket w) addr port (cf_connect_timeout cfg) (cf_tcp_user_timeout cfg) (keepalive_of cfg) = Ok socket \<and>
      fst (connect_raw (aw_raw w) (hostname \<noteq> None) cfg (startup_stream_new (aw_raw w))) = Ok c \<and>
      sk_peer socket = peer_of addr port \<and> co_socket (token_cancel_query x (cancel_token_of h)) = Some socket \<and>
      co_written (token_cancel_query x (cancel_token_of h)) =
        Some (kind, put_i32 16 @ put_i32 80877102 @ put_i32 (cd_process_id c) @ put_i32 (cd_secret_key c)) \<and>
      (cf_ssl_mode cfg = Require \<longrightarrow> kind = TlsStream)"
proof -
  obtain socket c where c: "connect_socket (aw_socket w) addr port (cf_connect_timeout cfg) (cf_tcp_user_timeout cfg) (keepalive_of cfg) = Ok socket"
      "fst (connect_raw (aw_raw w) (hostname \<noteq> None) cfg (startup_stream_new (aw_raw w))) = Ok c"
      "cancel_token_of h = \<lparr>ct_socket_config = Some (socket_config_of addr hostname port cfg), ct_ssl_mode = cd_ssl_mode c,
         ct_ssl_negotiation = cd_ssl_negotiation c, ct_process_id = cd_process_id c, ct_secret_key = cd_secret_key c\<rparr>"
    by (rule connect_once_Ok [OF assms(1)])
  let ?q = "cancel_query x (Some (socket_config_of addr hostname port cfg)) (cd_ssl_mode c) (cd_ssl_negotiation c) (cd_process_id c) (cd_secret_key c)"
  have t: "token_cancel_query x (cancel_token_of h) = ?q" by (simp add: token_cancel_query_def c(3))
  obtain socket' kind where q: "connect_socket (xw_socket x) addr port (cf_connect_timeout cfg) (cf_tcp_user_timeout cfg) (keepalive_of cfg) = Ok socket'"
      "to_result (connect_tls (xw_tls x) (cd_ssl_mode c) (cd_ssl_negotiation c) (hostname \<noteq> None)) = Ok kind"
      "co_socket ?q = Some socket'" "co_written ?q = Some (kind, snd (cancel_request (cd_process_id c) (cd_secret_key c) []))"
    using cancel_query_Ok [OF assms(2) [unfolded t]] by (auto simp: socket_config_of_def)
  have "socket' = socket" by (rule connect_socket_same [OF q(1) c(1)])
  moreover have "cf_ssl_mode cfg = Require \<longrightarrow> kind = TlsStream"
    using q(2) connect_raw_mode [OF c(2)] by (auto dest: require_is_tls)
  ultimately show ?thesis
    using c(1,2) q(3,4) connect_socket_peer [OF c(1)] unfolding t cancel_request_run by auto
qed

section \<open>Samples\<close>

text \<open>A server that trusts everybody, over an unencrypted stream, and two one-column answers.\<close>

definition plain_world :: raw_world where
  "plain_world =
     \<lparr>rw_tls = sample_tls_world, rw_certificate = None, rw_username = Ok [],
      rw_items = [Ok (Normal (encode_all [AuthenticationOk, BackendKeyData \<lparr>kd_process_id = 7, kd_secret_key = 9\<rparr>, ReadyForQuery 73]) True)],
      rw_sink = \<lambda>_. Ok (), rw_crypto = unary_crypto, rw_draws = []\<rparr>"

definition plain_cfg :: config where
  "plain_cfg = config_new\<lparr>cf_user := Some ''bob'', cf_ssl_mode := Disable, cf_host := [Tcp ''h''], cf_target_session_attrs := ReadWrite\<rparr>"

definition plain_session :: connected where
  "plain_session = \<lparr>cd_ssl_mode = Disable, cd_ssl_negotiation = Postgres, cd_process_id = 7, cd_secret_key = 9,
     cd_connection = connection_new [] Map.empty\<rparr>"

lemma plain_offers:
  "offers (startup_stream_new plain_world) [AuthenticationOk, BackendKeyData \<lparr>kd_process_id = 7, kd_secret_key = 9\<rparr>, ReadyForQuery 73]"
proof -
  let ?ms = "[AuthenticationOk, BackendKeyData \<lparr>kd_process_id = 7, kd_secret_key = 9\<rparr>, ReadyForQuery 73]"
  have "list_all sendable ?ms" by (simp add: sendable_def fields_wf_def)
  from run_parses [OF this] have "item_ok ?ms (Normal (encode_all ?ms) True)"
    by (simp add: item_ok_def item_messages_def is_async_def is_ready_def is_async_tag_def del: encode_all_simps)
  then have "yields [] [Ok (Normal (encode_all ?ms) True)] ?ms"
    unfolding yields_def
    by (intro exI [of _ "[]"] exI [of _ "[?ms]"] exI [of _ "[Normal (encode_all ?ms) True]"])
      (simp add: run_it.collect_end next_nothing del: encode_all_simps)
  then show ?thesis by (simp add: offers_def startup_stream_new_def plain_world_def del: encode_all_simps)
qed

lemma plain_connects: "fst (connect_raw plain_world hh plain_cfg (startup_stream_new plain_world)) = Ok plain_session"
proof -
  let ?k = "BackendKeyData \<lparr>kd_process_id = 7, kd_secret_key = 9\<rparr>"
  have "encodes (startup_message (startup_parameters plain_cfg ''bob''))"
    unfolding encodes_iff [OF startup_denotes] startup_image_closed
    by (simp add: startup_parameters_def plain_cfg_def config_new_def startup_params_def)
  then obtain s1 where s1: "startup plain_cfg ''bob'' (startup_stream_new plain_world) = (Ok (), s1)"
      "st_delayed s1 = st_delayed (startup_stream_new plain_world)" "offers s1 [AuthenticationOk, ?k, ReadyForQuery 73]"
    using offers_send [OF plain_offers] unfolding startup_def by blast
  obtain s2 where s2: "try_next s1 = (Ok (Some AuthenticationOk), s2)" "offers s2 [?k, ReadyForQuery 73]" "st_delayed s2 = st_delayed s1"
    by (rule offers_next [OF s1(3)])
  obtain s3 where s3: "try_next s2 = (Ok (Some ?k), s3)" "offers s3 [ReadyForQuery 73]" "st_delayed s3 = st_delayed s2"
    by (rule offers_next [OF s2(2)])
  have y: "yields (st_buf s2) (st_items s2) ([?k] @ ReadyForQuery 73 # [])" using s2(2) by (simp add: offers_def)
  have r: "list_all reported [?k]" by (simp add: reported_def)
  have "length [?k] < Suc (stream_size s2)"
    using yields_size [OF y] unfolding stream_size_def length_append list.size by arith
  from read_info_run [OF y r this, of info_new] obtain s4 where
    "read_info s2 = (Ok (foldl report info_new [?k]), s4)" "st_delayed s4 = st_delayed s2 @ map Async (filter is_notice [?k])"
    by (auto simp: read_info_def simp del: read_info_fuel.simps)
  moreover have "authenticate unary_crypto [] cert plain_cfg ''bob'' s1 = (Ok (), s2)" for cert
    using s2(1) by (simp add: authenticate_def sbind_def auth_method_def sres_def can_skip_channel_binding_def plain_cfg_def config_new_def)
  moreover have "config_user plain_world plain_cfg = Ok ''bob''" by (simp add: config_user_def plain_cfg_def)
  moreover have "to_result (connect_tls (rw_tls plain_world) Disable Postgres hh) = Ok RawStream"
    by (simp add: connect_tls_downgrade)
  moreover have "cf_ssl_mode plain_cfg = Disable" "cf_ssl_negotiation plain_cfg = Postgres" by (simp_all add: plain_cfg_def config_new_def)
  moreover have "rw_crypto plain_world = unary_crypto" "rw_draws plain_world = []" by (simp_all add: plain_world_def)
  moreover have "st_delayed (startup_stream_new plain_world) = []" by (simp add: startup_stream_new_def)
  ultimately show ?thesis
    using s1(1,2) s2(3)
    by (simp add: connect_raw_def raw_session_def sbind_def sres_def plain_session_def report_def info_new_def is_notice_def)
qed

definition sample_field :: "str \<Rightarrow> field" where
  "sample_field nm = \<lparr>f_name = nm, f_table_oid = 0, f_column_id = 0, f_type_oid = 25, f_type_size = 0, f_type_modifier = 0, f_format = 0\<rparr>"

definition sample_description :: "str list \<Rightarrow> counted_body" where
  "sample_description nms =
     \<lparr>cb_storage = concat (map (BackendIters.field_bytes \<circ> sample_field) nms), cb_len = of_nat (length nms)\<rparr>"

definition settings_run :: bytes where
  "settings_run = encode_all
     ([RowDescription (sample_description [''name'', ''setting'']), text_row [Some ''database_mode'', Some ''oracle'']] @
      [CommandComplete (as_bytes ''SELECT 1''), ReadyForQuery 73])"

definition show_run :: "str \<Rightarrow> bytes" where
  "show_run v = encode_all
     ([RowDescription (sample_description [''read_only'']), text_row [Some v]] @ [CommandComplete (as_bytes ''SHOW''), ReadyForQuery 73])"

definition plain_attempt :: "str \<Rightarrow> attempt" where
  "plain_attempt v =
     \<lparr>aw_socket = \<lparr>ow_connect = \<lambda>p. Ok (), ow_expires = \<lambda>t. False, ow_nodelay = Ok (), ow_user_timeout = \<lambda>t. Ok (), ow_keepalive = \<lambda>k. Ok ()\<rparr>,
      aw_make_tls = \<lambda>h. Ok (), aw_raw = plain_world, aw_script = [Some [settings_run], Some [show_run v]],
      aw_next_statement = 0, aw_next_portal = 0, aw_probe = still_running, aw_show = still_running\<rparr>"

lemma sample_describes:
  "list_all (field_ok \<circ> sample_field) nms \<Longrightarrow> length nms < 65536 \<Longrightarrow> describes (sample_description nms) nms"
  unfolding describes_def
  by (intro exI [of _ "map sample_field nms"])
    (simp add: sample_description_def list.pred_map unat_of_nat take_bit_nat_eq_self comp_def, simp add: sample_field_def)

lemma settings_run_answers:
  "settings_answer [settings_run] [(Some ''database_mode'', Some ''oracle'')] [CommandComplete (as_bytes ''SELECT 1''), ReadyForQuery 73]"
proof -
  let ?ms = "[RowDescription (sample_description [''name'', ''setting'']), text_row [Some ''database_mode'', Some ''oracle'']] @
      [CommandComplete (as_bytes ''SELECT 1''), ReadyForQuery 73]"
  have "list_all message_wf ?ms"
    by (simp add: message_wf_def text_row_def text_cell_def cell_bytes_def sample_description_def sample_field_def BackendIters.field_bytes_def counted_body_bytes_def)
  moreover have "describes (sample_description [''name'', ''setting'']) [''name'', ''setting'']"
    by (rule sample_describes) (simp_all add: field_ok_def sample_field_def)
  moreover have "list_all setting_ok [(Some ''database_mode'', Some ''oracle'')]"
    by (simp add: setting_ok_def text_ok_value_def)
  ultimately show ?thesis
    unfolding settings_answer_def settings_run_def
    by (intro exI [of _ "[?ms]"] exI [of _ "sample_description [''name'', ''setting'']"] exI [of _ "''name''"] exI [of _ "''setting''"])
      (simp add: setting_values_def)
qed

lemma show_run_answers:
  assumes "list_all (\<lambda>b. b < 0x80) (as_bytes v)" and "length v < 1000"
  shows "show_answer [show_run v] (Some v)"
proof -
  let ?ms = "[RowDescription (sample_description [''read_only'']), text_row [Some v]] @ [CommandComplete (as_bytes ''SHOW''), ReadyForQuery 73]"
  have "list_all message_wf ?ms"
    using assms(2)
    by (simp add: message_wf_def text_row_def text_cell_def cell_bytes_def sample_description_def sample_field_def BackendIters.field_bytes_def counted_body_bytes_def)
  moreover have "describes (sample_description [''read_only'']) [''read_only'']"
    by (rule sample_describes) (simp_all add: field_ok_def sample_field_def)
  moreover have "text_ok_value (Some v)" using assms by (simp add: text_ok_value_def)
  ultimately show ?thesis
    unfolding show_answer_def show_run_def
    by (intro exI [of _ "[?ms]"] exI [of _ "sample_description [''read_only'']"] exI [of _ "''read_only''"]
        exI [of _ "[CommandComplete (as_bytes ''SHOW''), ReadyForQuery 73]"]) simp
qed

lemma plain_attempt_reaches: "reaches (plain_attempt v) (AddrTcp (V4 [127, 0, 0, 1])) (Some ''h'') 5432 plain_cfg plain_session"
  using plain_connects [of True]
  by (simp add: reaches_def plain_attempt_def connect_socket_def connect_with_timeout_def make_tls_def set_option_def
      plain_cfg_def config_new_def keepalive_of_def)

lemma plain_attempt_answers:
  "list_all (\<lambda>b. b < 0x80) (as_bytes v) \<Longrightarrow> length v < 1000 \<Longrightarrow>
     answers (plain_attempt v) [(Some ''database_mode'', Some ''oracle'')] (Some v)"
  unfolding answers_def
  by (intro conjI exI [of _ "[settings_run]"] exI [of _ "[show_run v]"] exI [of _ "[]"] exI [of _ "as_bytes ''SELECT 1''"]
      exI [of _ 73] settings_run_answers show_run_answers) (simp_all add: plain_attempt_def)



definition plain_cancel :: cancel_world where
  "plain_cancel =
     \<lparr>xw_socket = \<lparr>ow_connect = \<lambda>p. Ok (), ow_expires = \<lambda>t. False, ow_nodelay = Ok (), ow_user_timeout = \<lambda>t. Ok (), ow_keepalive = \<lambda>k. Ok ()\<rparr>,
      xw_make_tls = \<lambda>h. Ok (), xw_tls = sample_tls_world, xw_stream = \<lparr>sw_write = Ok (), sw_flush = Ok (), sw_shutdown = Ok ()\<rparr>\<rparr>"

lemma plain_attempt_connects:
  "\<exists>h. connect_once (plain_attempt ''off'') (AddrTcp (V4 [127, 0, 0, 1])) (Some ''h'') 5432 plain_cfg = Ok (h, connection_new [] Map.empty)"
proof -
  have "answers (plain_attempt ''off'') [(Some ''database_mode'', Some ''oracle'')] (Some ''off'')"
    by (rule plain_attempt_answers) simp_all
  from session_checked [OF plain_attempt_reaches this] show ?thesis
    by (auto simp: plain_cfg_def unwanted_def plain_session_def)
qed

theorem cancel_reaches_session_witness:
  "\<exists>h socket. connect_once (plain_attempt ''off'') (AddrTcp (V4 [127, 0, 0, 1])) (Some ''h'') 5432 plain_cfg = Ok (h, connection_new [] Map.empty) \<and>
     co_result (token_cancel_query plain_cancel (cancel_token_of h)) = Ok () \<and>
     sk_peer socket = PeerTcp (V4 [127, 0, 0, 1]) 5432 \<and>
     co_socket (token_cancel_query plain_cancel (cancel_token_of h)) = Some socket"
proof -
  obtain h where h: "connect_once (plain_attempt ''off'') (AddrTcp (V4 [127, 0, 0, 1])) (Some ''h'') 5432 plain_cfg = Ok (h, connection_new [] Map.empty)"
    using plain_attempt_connects by blast
  obtain socket c where c: "fst (connect_raw (aw_raw (plain_attempt ''off'')) (Some ''h'' \<noteq> None) plain_cfg (startup_stream_new (aw_raw (plain_attempt ''off'')))) = Ok c"
    "cancel_token_of h = \<lparr>ct_socket_config = Some (socket_config_of (AddrTcp (V4 [127, 0, 0, 1])) (Some ''h'') 5432 plain_cfg), ct_ssl_mode = cd_ssl_mode c,
       ct_ssl_negotiation = cd_ssl_negotiation c, ct_process_id = cd_process_id c, ct_secret_key = cd_secret_key c\<rparr>"
    by (rule connect_once_Ok [OF h])
  have "cd_ssl_mode c = Disable" "cd_ssl_negotiation c = Postgres"
    using connect_raw_mode [OF c(1)] by (simp_all add: plain_cfg_def config_new_def)
  then have "co_result (token_cancel_query plain_cancel (cancel_token_of h)) = Ok ()"
    by (simp add: c(2) token_cancel_query_def cancel_query_def cancel_query_raw_def plain_cancel_def make_tls_def socket_config_of_def
        connect_socket_def connect_with_timeout_def set_option_def plain_cfg_def config_new_def keepalive_of_def connect_tls_def tls_return_def)
  with cancel_reaches_session [OF h this] h show ?thesis by (auto simp: peer_of_def)
qed

end
