(* ===== verification/ConnectHostsSpec.thy ===== *)
theory ConnectHostsSpec
  imports SessionChecksSpec
begin

text \<open>
  The order in which \<open>connect\<close> tries the hosts of a configuration: the nested loops over hosts and
  addresses are one walk along a list of targets, which ends at the first attempt that does not fail.
\<close>

section \<open>The order of the attempts\<close>

text \<open>
  Everything a configuration leads to, in one list: an attempt at an address, or a failure before
  any attempt - a name that cannot be resolved or has no address. The number \<open>n\<close> of the attempts
  before picks the random order.
\<close>

datatype target = Failed error | Trial trial

primrec trials :: "target list \<Rightarrow> trial list" where
  "trials [] = []"
| "trials (x # xs) = (case x of Failed e \<Rightarrow> [] | Trial t \<Rightarrow> [t]) @ trials xs"

definition unresolved :: error where
  "unresolved = err_connect (IoError InvalidInput ''could not resolve any addresses'')"

definition address_targets :: "net_world \<Rightarrow> config \<Rightarrow> str option \<Rightarrow> u16 \<Rightarrow> ip_addr list \<Rightarrow> target list" where
  "address_targets w cfg hostname port ips =
     (if ips = [] then [Failed unresolved] else map (\<lambda>ip. Trial (AddrTcp ip, hostname, port)) ips)"

definition host_targets :: "net_world \<Rightarrow> config \<Rightarrow> nat \<Rightarrow> nat \<Rightarrow> target list" where
  "host_targets w cfg n i =
     (case host_address cfg i of
        Ok (Tcp name) \<Rightarrow>
          (case nw_lookup w name (host_port cfg i) of
             Ok ips \<Rightarrow> address_targets w cfg (host_name cfg i) (host_port cfg i) (balanced w cfg (Suc n) ips)
           | Err e \<Rightarrow> [Failed (err_connect e)]
           | Panic \<Rightarrow> [])
      | Ok (Unix path) \<Rightarrow> [Trial (AddrUnix path, host_name cfg i, host_port cfg i)]
      | _ \<Rightarrow> [])"

primrec targets :: "net_world \<Rightarrow> config \<Rightarrow> nat \<Rightarrow> nat list \<Rightarrow> target list" where
  "targets w cfg n [] = []"
| "targets w cfg n (i # is) =
     host_targets w cfg n i @ targets w cfg (n + length (trials (host_targets w cfg n i))) is"

definition attempt_result :: "net_world \<Rightarrow> config \<Rightarrow> nat \<Rightarrow> trial \<Rightarrow> (new_session, error) rresult" where
  "attempt_result w cfg k t = (case t of (addr, hostname, port) \<Rightarrow> connect_once (nw_attempt w k) addr hostname port cfg)"

primrec all_failed :: "net_world \<Rightarrow> config \<Rightarrow> nat \<Rightarrow> target list \<Rightarrow> bool" where
  "all_failed w cfg k [] = True"
| "all_failed w cfg k (x # xs) =
     (case x of
        Failed e \<Rightarrow> all_failed w cfg k xs
      | Trial t \<Rightarrow> (\<exists>e. attempt_result w cfg k t = Err e) \<and> all_failed w cfg (Suc k) xs)"

primrec last_failure :: "net_world \<Rightarrow> config \<Rightarrow> nat \<Rightarrow> error option \<Rightarrow> target list \<Rightarrow> error option" where
  "last_failure w cfg k err [] = err"
| "last_failure w cfg k err (x # xs) =
     (case x of
        Failed e \<Rightarrow> last_failure w cfg k (Some e) xs
      | Trial t \<Rightarrow> last_failure w cfg (Suc k) (case attempt_result w cfg k t of Err e \<Rightarrow> Some e | _ \<Rightarrow> err) xs)"

text \<open>The loop over such a list.\<close>

primrec run_targets ::
  "net_world \<Rightarrow> config \<Rightarrow> error option \<Rightarrow> target list \<Rightarrow> trial list \<Rightarrow> (new_session, error) rresult \<times> trial list" where
  "run_targets w cfg err [] tried = ((case err of Some e \<Rightarrow> Err e | None \<Rightarrow> Panic), tried)"
| "run_targets w cfg err (x # xs) tried =
     (case x of
        Failed e \<Rightarrow> run_targets w cfg (Some e) xs tried
      | Trial t \<Rightarrow>
          (case attempt_result w cfg (length tried) t of
             Err e \<Rightarrow> run_targets w cfg (Some e) xs (tried @ [t])
           | r \<Rightarrow> (r, tried @ [t])))"

lemma try_once_result: "try_once w cfg t tried = (attempt_result w cfg (length tried) t, tried @ [t])"
  by (simp add: try_once_def attempt_result_def split: prod.splits)

lemma trials_append: "trials (xs @ ys) = trials xs @ trials ys"
  by (induction xs) (simp_all split: target.splits)

lemma run_addrs:
  assumes "ips \<noteq> []"
  shows "run_targets w cfg last_err (map (\<lambda>ip. Trial (AddrTcp ip, hostname, port)) ips @ rest) tried =
    (case try_addrs w cfg hostname port last_err ips tried of
       (Err e, tried') \<Rightarrow> run_targets w cfg (Some e) rest tried'
     | r \<Rightarrow> r)"
  using assms
proof (induction ips arbitrary: last_err tried)
  case (Cons ip ips)
  show ?case
  proof (cases "attempt_result w cfg (length tried) (AddrTcp ip, hostname, port)")
    case (Err e)
    then show ?thesis by (cases "ips = []") (simp_all add: try_once_result Cons.IH)
  qed (simp_all add: try_once_result)
qed simp

lemma try_addrs_tried:
  "try_addrs w cfg hostname port last_err ips tried = (Err e, tried') \<Longrightarrow>
     tried' = tried @ map (\<lambda>ip. (AddrTcp ip, hostname, port)) ips"
proof (induction ips arbitrary: last_err tried)
  case (Cons ip ips)
  let ?t = "(AddrTcp ip, hostname, port)"
  show ?case
  proof (cases "attempt_result w cfg (length tried) ?t")
    case (Err x)
    with Cons.prems Cons.IH [of "Some x" "tried @ [?t]"] show ?thesis by (simp add: try_once_result)
  qed (use Cons.prems in \<open>simp_all add: try_once_result\<close>)
qed simp

lemma trials_map: "trials (map (\<lambda>ip. Trial (f ip)) ips) = map f ips"
  by (induction ips) simp_all

lemma connect_host_tried:
  assumes "host_address cfg i = Ok h" and "connect_host w cfg h (host_name cfg i) (host_port cfg i) tried = (Err e, tried')"
  shows "tried' = tried @ trials (host_targets w cfg (length tried) i)"
proof (cases h)
  case (Tcp name)
  with assms show ?thesis
    by (cases "nw_lookup w name (host_port cfg i)")
      (auto simp: host_targets_def connect_host_def address_targets_def trials_map dest: try_addrs_tried)
qed (use assms in \<open>auto simp: host_targets_def connect_host_def try_once_result\<close>)

lemma run_host:
  assumes "host_address cfg i = Ok h" and "\<forall>name p. nw_lookup w name p \<noteq> Panic"
  shows "run_targets w cfg err (host_targets w cfg (length tried) i @ rest) tried =
    (case connect_host w cfg h (host_name cfg i) (host_port cfg i) tried of
       (Err e, tried') \<Rightarrow> run_targets w cfg (Some e) rest tried'
     | r \<Rightarrow> r)"
proof (cases h)
  case (Tcp name)
  show ?thesis
  proof (cases "nw_lookup w name (host_port cfg i)")
    case (Ok ips)
    let ?ips = "balanced w cfg (Suc (length tried)) ips"
    have try_addrs_rest: "try_addrs w cfg hn p None ?ips tried = try_addrs w cfg hn p err ?ips tried" if "?ips \<noteq> []" for hn p
      using that by (cases ?ips) simp_all
    show ?thesis
    proof (cases "?ips = []")
      case False
      with assms(1) Tcp Ok show ?thesis
        by (simp add: host_targets_def connect_host_def address_targets_def run_addrs try_addrs_rest)
    qed (use assms(1) Tcp Ok in \<open>simp add: host_targets_def connect_host_def address_targets_def unresolved_def\<close>)
  qed (use assms Tcp in \<open>simp_all add: host_targets_def connect_host_def\<close>)
next
  case (Unix path)
  with assms(1) show ?thesis
    by (cases "attempt_result w cfg (length tried) (AddrUnix path, host_name cfg i, host_port cfg i)")
      (simp_all add: host_targets_def connect_host_def try_once_result)
qed

lemma connect_indices_run:
  assumes "\<forall>name p. nw_lookup w name p \<noteq> Panic" and "\<forall>i \<in> set is. \<exists>h. host_address cfg i = Ok h"
  shows "connect_indices w cfg err is tried = run_targets w cfg err (targets w cfg (length tried) is) tried"
  using assms(2)
proof (induction "is" arbitrary: err tried)
  case (Cons i "is")
  from Cons.prems obtain h where h: "host_address cfg i = Ok h" by auto
  obtain r tried' where c: "connect_host w cfg h (host_name cfg i) (host_port cfg i) tried = (r, tried')" by fastforce
  show ?case
  proof (cases r)
    case (Err e)
    with c have "length tried' = length tried + length (trials (host_targets w cfg (length tried) i))"
      using connect_host_tried [OF h] by fastforce
    with Err c show ?thesis using Cons by (simp add: h run_host [OF h assms(1)])
  qed (use c in \<open>simp_all add: h run_host [OF h assms(1)]\<close>)
qed simp

text \<open>How such a loop ends.\<close>

lemma run_targets_end:
  "(\<exists>pre t post. ts = pre @ Trial t # post \<and> all_failed w cfg (length tried) pre \<and>
      (\<forall>e. attempt_result w cfg (length (tried @ trials pre)) t \<noteq> Err e) \<and>
      run_targets w cfg err ts tried = (attempt_result w cfg (length (tried @ trials pre)) t, tried @ trials pre @ [t])) \<or>
   all_failed w cfg (length tried) ts \<and>
      run_targets w cfg err ts tried =
        ((case last_failure w cfg (length tried) err ts of Some e \<Rightarrow> Err e | None \<Rightarrow> Panic), tried @ trials ts)"
  (is "?ended ts tried err \<or> ?failed ts tried err")
proof (induction ts arbitrary: tried err)
  case (Cons x ts)
  show ?case
  proof (cases x)
    case (Failed e)
    from Cons.IH [of tried "Some e"] show ?thesis
    proof
      assume "?ended ts tried (Some e)"
      then obtain pre t post where "ts = pre @ Trial t # post" "all_failed w cfg (length tried) pre"
        "\<forall>e. attempt_result w cfg (length (tried @ trials pre)) t \<noteq> Err e"
        "run_targets w cfg (Some e) ts tried = (attempt_result w cfg (length (tried @ trials pre)) t, tried @ trials pre @ [t])"
        by (elim exE conjE) (rule that)
      then have "?ended (x # ts) tried err"
        using Failed by (intro exI [of _ "x # pre"] exI [of _ t] exI [of _ post]) simp
      then show ?thesis ..
    qed (use Failed in simp)
  next
    case (Trial t)
    show ?thesis
    proof (cases "attempt_result w cfg (length tried) t")
      case (Err e)
      from Cons.IH [of "tried @ [t]" "Some e"] show ?thesis
      proof
        assume "?ended ts (tried @ [t]) (Some e)"
        then obtain pre t' post where "ts = pre @ Trial t' # post" "all_failed w cfg (length (tried @ [t])) pre"
          "\<forall>e. attempt_result w cfg (length ((tried @ [t]) @ trials pre)) t' \<noteq> Err e"
          "run_targets w cfg (Some e) ts (tried @ [t]) =
            (attempt_result w cfg (length ((tried @ [t]) @ trials pre)) t', (tried @ [t]) @ trials pre @ [t'])"
          by (elim exE conjE) (rule that)
        then have "?ended (x # ts) tried err"
          using Trial Err by (intro exI [of _ "x # pre"] exI [of _ t'] exI [of _ post]) simp
        then show ?thesis ..
      qed (use Trial Err in simp)
    next
      case (Ok s)
      then have "?ended (x # ts) tried err"
        using Trial by (intro exI [of _ "[]"] exI [of _ t] exI [of _ ts]) simp
      then show ?thesis ..
    next
      case Panic
      then have "?ended (x # ts) tried err"
        using Trial by (intro exI [of _ "[]"] exI [of _ t] exI [of _ ts]) simp
      then show ?thesis ..
    qed
  qed
qed simp

text \<open>The configurations whose hosts are tried at all, and the resolver and the random numbers as documented.\<close>

definition num_hosts :: "config \<Rightarrow> nat" where
  "num_hosts cfg = max (length (cf_host cfg)) (length (cf_hostaddr cfg))"

definition hosts_ok :: "config \<Rightarrow> bool" where
  "hosts_ok cfg \<longleftrightarrow>
     num_hosts cfg > 0 \<and> (cf_host cfg = [] \<or> cf_hostaddr cfg = [] \<or> length (cf_host cfg) = length (cf_hostaddr cfg)) \<and>
     (length (cf_port cfg) \<le> 1 \<or> length (cf_port cfg) = num_hosts cfg)"

definition net_ok :: "net_world \<Rightarrow> bool" where
  "net_ok w \<longleftrightarrow> (\<forall>name p. nw_lookup w name p \<noteq> Panic) \<and> (\<forall>k n. distinct (nw_shuffle w k n) \<and> set (nw_shuffle w k n) = {..<n})"

lemma host_address_Ok: "hosts_ok cfg \<Longrightarrow> i < num_hosts cfg \<Longrightarrow> \<exists>h. host_address cfg i = Ok h"
  by (auto simp: hosts_ok_def num_hosts_def host_address_def nth_opt_def)

lemma balanced_order:
  assumes "net_ok w"
  shows "distinct (balanced w cfg k [0..<n]) \<and> set (balanced w cfg k [0..<n]) = {..<n}"
proof -
  have s: "distinct (nw_shuffle w k n)" "set (nw_shuffle w k n) = {..<n}" using assms by (simp_all add: net_ok_def)
  then have "map (\<lambda>i. [0..<n] ! i) (nw_shuffle w k n) = nw_shuffle w k n" by (intro map_idI) simp
  with s show ?thesis unfolding balanced_def by (cases "cf_load_balance_hosts cfg") (simp_all add: atLeast0LessThan)
qed

lemma last_failure_some: "ts \<noteq> [] \<Longrightarrow> all_failed w cfg k ts \<Longrightarrow> \<exists>e. last_failure w cfg k err ts = Some e"
proof (induction ts arbitrary: k err)
  case (Cons x ts)
  then show ?case by (cases "ts = []") (auto split: target.splits)
qed simp

lemma host_targets_some:
  "hosts_ok cfg \<Longrightarrow> i < num_hosts cfg \<Longrightarrow> net_ok w \<Longrightarrow> host_targets w cfg n i \<noteq> []"
  using host_address_Ok [of cfg i]
  by (auto simp: host_targets_def address_targets_def net_ok_def split: host.splits rresult.splits)

text \<open>
  C17. Which hosts are tried. For a configuration with matching numbers of hosts, addresses and
  ports, the connection is looked for along one list: the hosts in the order given, or in a random
  order of all of them when the load is to be balanced, each host with all the addresses it
  resolves to. The first attempt that does not fail decides, and nothing after it is tried; if all
  fail, every address was tried and the last failure is reported. Any other configuration is
  refused before any attempt.
\<close>

theorem connect_tries_hosts:
  assumes "net_ok w"
  shows "if hosts_ok cfg then
    \<exists>is. distinct is \<and> set is = {..<num_hosts cfg} \<and> (cf_load_balance_hosts cfg = LbDisable \<longrightarrow> is = [0..<num_hosts cfg]) \<and>
      ((\<exists>pre t post. targets w cfg 0 is = pre @ Trial t # post \<and> all_failed w cfg 0 pre \<and>
          (\<forall>e. attempt_result w cfg (length (trials pre)) t \<noteq> Err e) \<and>
          connect w cfg = (attempt_result w cfg (length (trials pre)) t, trials pre @ [t])) \<or>
       (\<exists>e. all_failed w cfg 0 (targets w cfg 0 is) \<and> last_failure w cfg 0 None (targets w cfg 0 is) = Some e \<and>
          connect w cfg = (Err e, trials (targets w cfg 0 is))))
    else \<exists>why. connect w cfg = (Err (err_config why), [])"
proof (cases "hosts_ok cfg")
  case True
  let ?is = "balanced w cfg 0 [0..<num_hosts cfg]"
  let ?ts = "targets w cfg 0 ?is"
  have m: "distinct ?is" "set ?is = {..<num_hosts cfg}" using balanced_order [OF assms] by blast+
  have "num_hosts cfg > 0" using True by (simp add: hosts_ok_def)
  then have some: "?is \<noteq> []" using m(2) by (metis empty_set lessThan_empty_iff less_numeral_extra(3))
  then have first: "hd ?is < num_hosts cfg" using hd_in_set [of ?is] m(2) by blast
  have i: "\<forall>i \<in> set ?is. \<exists>h. host_address cfg i = Ok h" using host_address_Ok [OF True] unfolding m(2) by blast
  have "connect w cfg = connect_indices w cfg None ?is []"
    using True by (auto simp: connect_def hosts_ok_def num_hosts_def Let_def)
  also have "\<dots> = run_targets w cfg None ?ts []"
    using connect_indices_run [of w ?is cfg None "[]"] assms i by (simp add: net_ok_def)
  finally have run: "connect w cfg = run_targets w cfg None ?ts []" .
  have ne: "?ts \<noteq> []" using host_targets_some [OF True first assms] some by (cases ?is) auto
  have order: "cf_load_balance_hosts cfg = LbDisable \<longrightarrow> ?is = [0..<num_hosts cfg]" by (simp add: balanced_def)
  have last: "all_failed w cfg 0 ?ts \<Longrightarrow> \<exists>e. last_failure w cfg 0 None ?ts = Some e"
    by (rule last_failure_some [OF ne])
  have failed: "\<exists>e. all_failed w cfg 0 ?ts \<and> last_failure w cfg 0 None ?ts = Some e \<and> connect w cfg = (Err e, trials ?ts)"
    if "all_failed w cfg 0 ?ts \<and> connect w cfg =
      ((case last_failure w cfg 0 None ?ts of Some e \<Rightarrow> Err e | None \<Rightarrow> Panic), trials ?ts)"
    using that last by auto
  have res: "(\<exists>pre t post. ?ts = pre @ Trial t # post \<and> all_failed w cfg 0 pre \<and>
          (\<forall>e. attempt_result w cfg (length (trials pre)) t \<noteq> Err e) \<and>
          connect w cfg = (attempt_result w cfg (length (trials pre)) t, trials pre @ [t])) \<or>
       (\<exists>e. all_failed w cfg 0 ?ts \<and> last_failure w cfg 0 None ?ts = Some e \<and> connect w cfg = (Err e, trials ?ts))"
    using run_targets_end [of ?ts w cfg "[]" None, folded run, unfolded append_Nil list.size(3)]
    by (rule disj_forward) (assumption, rule failed)
  show ?thesis unfolding if_P [OF True] by (rule exI [of _ ?is]) (intro conjI m order res)
next
  case False
  then show ?thesis by (auto simp: connect_def hosts_ok_def num_hosts_def Let_def)
qed

definition lost_net :: net_world where
  "lost_net = \<lparr>nw_lookup = \<lambda>name p. Err (IoError OtherKind ''no such host''), nw_shuffle = \<lambda>k n. [0..<n], nw_attempt = \<lambda>k. plain_attempt ''off''\<rparr>"

theorem connect_tries_hosts_witness:
  "connect lost_net plain_cfg = (Err (err_connect (IoError OtherKind ''no such host'')), [])"
proof -
  have ok: "net_ok lost_net" by (auto simp: net_ok_def lost_net_def)
  have cfg: "hosts_ok plain_cfg" "num_hosts plain_cfg = 1" "cf_load_balance_hosts plain_cfg = LbDisable" "cf_host plain_cfg = [Tcp ''h'']"
      "cf_hostaddr plain_cfg = []"
    by (simp_all add: hosts_ok_def num_hosts_def plain_cfg_def config_new_def)
  have "targets lost_net plain_cfg 0 [0..<1] = [Failed (err_connect (IoError OtherKind ''no such host''))]"
    by (simp add: host_targets_def host_address_def nth_opt_def cfg lost_net_def)
  with connect_tries_hosts [OF ok, of plain_cfg] show ?thesis
    unfolding if_P [OF cfg(1)] cfg(2,3) by (auto simp: Cons_eq_append_conv)
qed

end
