(* ===== verification/Sync.thy ===== *)
theory Sync
  imports ClientCalls
begin

text \<open>
  The synchronous client, \<open>postgres/src\<close>: \<open>connection.rs\<close>, \<open>notifications.rs\<close>, \<open>client.rs\<close>,
  \<open>row_iter.rs\<close>, \<open>transaction.rs\<close> and \<open>transaction_builder.rs\<close>. Every call drives the connection and
  a future of the asynchronous client on the calling thread until the future is ready.
\<close>

section \<open>The connection and the futures\<close>

text \<open>What one poll of the stream of messages of the connection gives.\<close>

datatype conn_event = EvMessage async_message | EvError error | EvPanic | EvDone | EvPending

definition connection_stream_poll :: "conn \<Rightarrow> env \<Rightarrow> conn_event \<times> conn \<times> env" where
  "connection_stream_poll c e =
     (case poll_message c e of
        (Ready (Some (Ok m)), c, e) \<Rightarrow> (EvMessage m, c, e)
      | (Ready (Some (Err x)), c, e) \<Rightarrow> (EvError x, c, e)
      | (Ready (Some Panic), c, e) \<Rightarrow> (EvPanic, c, e)
      | (Ready None, c, e) \<Rightarrow> (EvDone, c, e)
      | (Pending, c, e) \<Rightarrow> (EvPending, c, e))"

fun connection_events :: "nat \<Rightarrow> conn \<Rightarrow> env \<Rightarrow> conn_event list" where
  "connection_events 0 c e = []"
| "connection_events (Suc n) c e =
     (case connection_stream_poll c e of (ev, c, e) \<Rightarrow> ev # connection_events n c e)"

text \<open>
  The script \<open>sc_events\<close> is what the coming polls give; when it has run out the thread is not woken
  again. \<open>sc_waits\<close> says how often the coming futures of the client are pending. The notice callback
  is the list of the notices it was called with.
\<close>

type_synonym notification = "i32 \<times> str \<times> str"

record sync_conn =
  sc_events :: "conn_event list"
  sc_waits :: "nat list"
  sc_notifications :: "notification list"
  sc_noticed :: "db_error list"

definition sync_connection_new :: "conn_event list \<Rightarrow> nat list \<Rightarrow> sync_conn" where
  "sync_connection_new events waits = \<lparr>sc_events = events, sc_waits = waits, sc_notifications = [], sc_noticed = []\<rparr>"

text \<open>The inner loop of a poll: whether the connection is done, or its error.\<close>

fun conn_drain :: "conn_event list \<Rightarrow> notification list \<Rightarrow> db_error list \<Rightarrow>
    (bool, error) rresult \<times> conn_event list \<times> notification list \<times> db_error list" where
  "conn_drain [] q ns = (Ok False, [], q, ns)"
| "conn_drain (EvMessage (AsyncNotification pid channel text1) # es) q ns = conn_drain es (q @ [(pid, channel, text1)]) ns"
| "conn_drain (EvMessage (AsyncNotice n) # es) q ns = conn_drain es q (ns @ [n])"
| "conn_drain (EvError x # es) q ns = (Err x, es, q, ns)"
| "conn_drain (EvPanic # es) q ns = (Panic, es, q, ns)"
| "conn_drain (EvDone # es) q ns = (Ok True, es, q, ns)"
| "conn_drain (EvPending # es) q ns = (Ok False, es, q, ns)"

definition drained :: "sync_conn \<Rightarrow> (bool, error) rresult \<times> sync_conn" where
  "drained c =
     (case conn_drain (sc_events c) (sc_notifications c) (sc_noticed c) of
        (r, es, q, ns) \<Rightarrow> (r, c\<lparr>sc_events := es, sc_notifications := q, sc_noticed := ns\<rparr>))"

lemma conn_drain_shorter: "conn_drain es q ns = (r, es', q', ns') \<Longrightarrow> es \<noteq> [] \<Longrightarrow> length es' < length es"
  by (induction es q ns rule: conn_drain.induct) (fastforce intro: ccontr less_Suc_eq [THEN iffD2])+

lemma drained_shorter: "drained c = (r, c') \<Longrightarrow> sc_events c \<noteq> [] \<Longrightarrow> length (sc_events c') < length (sc_events c)"
  by (auto simp: drained_def dest: conn_drain_shorter split: prod.splits)

type_synonym ('a, 's) future = "'s \<Rightarrow> ('a, error) rresult poll \<times> 's"

text \<open>
  \<open>poll_block_on\<close>: a round polls the connection until it has nothing more, then the closure; the
  thread parks between the rounds, for ever if nothing wakes it, which is \<open>Pending\<close>.
\<close>

function poll_block_on :: "('s \<Rightarrow> notification list \<Rightarrow> bool \<Rightarrow> ('a, error) rresult poll \<times> 's \<times> notification list) \<Rightarrow>
    's \<Rightarrow> sync_conn \<Rightarrow> ('a, error) rresult poll \<times> 's \<times> sync_conn" where
  "poll_block_on f s c =
     (case drained c of
        (Err x, c') \<Rightarrow> (Ready (Err x), s, c')
      | (Panic, c') \<Rightarrow> (Ready Panic, s, c')
      | (Ok done, c') \<Rightarrow>
          (case f s (sc_notifications c') done of
             (Ready r, s', q) \<Rightarrow> (Ready r, s', c'\<lparr>sc_notifications := q\<rparr>)
           | (Pending, s', q) \<Rightarrow>
               if sc_events c = [] then (Pending, s', c'\<lparr>sc_notifications := q\<rparr>)
               else poll_block_on f s' (c'\<lparr>sc_notifications := q\<rparr>)))"
  by pat_completeness auto
termination
  by (relation "measure (\<lambda>(f, s, c). length (sc_events c))") (auto dest: sym [THEN drained_shorter])

declare poll_block_on.simps [simp del]

definition block_on :: "('a, 's) future \<Rightarrow> 's \<Rightarrow> sync_conn \<Rightarrow> ('a, error) rresult poll \<times> 's \<times> sync_conn" where
  "block_on m = poll_block_on (\<lambda>s q _. case m s of (p, s') \<Rightarrow> (p, s', q))"

text \<open>
  The future of an operation of the client does its work when it is polled first and then waits for
  the answers. Dropped before it was ready, it has sent its requests.
\<close>

type_synonym ('a, 's) op_state = "nat \<times> 's \<times> ('a, error) rresult option"

definition op_future :: "('s \<Rightarrow> ('a, error) rresult \<times> 's) \<Rightarrow> ('a, ('a, 's) op_state) future" where
  "op_future m =
     (\<lambda>(n, s, r).
        (case (case r of None \<Rightarrow> m s | Some x \<Rightarrow> (x, s)) of
           (Panic, s') \<Rightarrow> (Ready Panic, n, s', Some Panic)
         | (x, s') \<Rightarrow> (case n of 0 \<Rightarrow> (Ready x, 0, s', Some x) | Suc k \<Rightarrow> (Pending, k, s', Some x))))"

definition next_wait :: "sync_conn \<Rightarrow> nat \<times> sync_conn" where
  "next_wait c = (case sc_waits c of [] \<Rightarrow> (0, c) | n # ns \<Rightarrow> (n, c\<lparr>sc_waits := ns\<rparr>))"

text \<open>
  What the future owns is dropped with it; \<open>d\<close> is the effect of that when the connection failed
  before the future was polled at all.
\<close>

definition block_on_or :: "('s \<Rightarrow> ('a, error) rresult \<times> 's) \<Rightarrow> ('s \<Rightarrow> (unit, error) rresult \<times> 's) \<Rightarrow> 's \<Rightarrow> sync_conn \<Rightarrow>
    ('a, error) rresult poll \<times> 's \<times> sync_conn" where
  "block_on_or m d s c =
     (case next_wait c of (n, c) \<Rightarrow>
        (case block_on (op_future m) (n, s, None) c of
           (p, (_, s', None), c') \<Rightarrow> (case d s' of (Panic, s') \<Rightarrow> (Ready Panic, s', c') | (_, s') \<Rightarrow> (p, s', c'))
         | (p, (_, s', Some _), c') \<Rightarrow> (p, s', c')))"

definition block_on_op :: "('s \<Rightarrow> ('a, error) rresult \<times> 's) \<Rightarrow> 's \<Rightarrow> sync_conn \<Rightarrow>
    ('a, error) rresult poll \<times> 's \<times> sync_conn" where
  "block_on_op m = block_on_or m (\<lambda>s. (Ok (), s))"

section \<open>Rules for the calls\<close>

text \<open>
  \<open>I\<close> holds while the closure is pending and \<open>J\<close> of its result; the connection may end the call
  instead.
\<close>

definition called :: "('s \<Rightarrow> bool) \<Rightarrow> (('a, error) rresult \<Rightarrow> 's \<Rightarrow> bool) \<Rightarrow> ('a, error) rresult poll \<Rightarrow> 's \<Rightarrow> bool" where
  "called I J p s \<longleftrightarrow> I s \<and> (p = Pending \<or> p = Ready Panic \<or> (\<exists>x. p = Ready (Err x))) \<or> (\<exists>r. p = Ready r \<and> J r s)"

lemma poll_block_on_called:
  assumes pending: "\<And>s q done s' q'. I s \<Longrightarrow> f s q done = (Pending, s', q') \<Longrightarrow> I s'"
    and ready: "\<And>s q done r s' q'. I s \<Longrightarrow> f s q done = (Ready r, s', q') \<Longrightarrow> J r s'"
    and "I s" "poll_block_on f s c = (p, s', c')"
  shows "called I J p s'"
  using assms
proof (induction f s c rule: poll_block_on.induct)
  case (1 f s c)
  obtain r c1 where d: "drained c = (r, c1)" by fastforce
  show ?case
  proof (cases r)
    case (Ok d0)
    obtain x s1 q where x: "f s (sc_notifications c1) d0 = (x, s1, q)" by (rule prod_cases3)
    show ?thesis
    proof (cases x)
      case (Ready r)
      with "1.prems"(4) d Ok x have "p = Ready r" "s' = s1" by (subst (asm) poll_block_on.simps, simp)+
      with "1.prems"(2) [OF "1.prems"(3)] x Ready show ?thesis by (simp add: called_def)
    next
      case Pending
      with "1.prems"(1) [OF "1.prems"(3)] x have s1: "I s1" by simp
      show ?thesis
      proof (cases "sc_events c = []")
        case True
        with "1.prems"(4) d Ok x Pending have "p = Pending" "s' = s1" by (subst (asm) poll_block_on.simps, simp)+
        with s1 show ?thesis by (simp add: called_def)
      next
        case False
        with "1.prems"(4) d Ok x Pending have "poll_block_on f s1 (c1\<lparr>sc_notifications := q\<rparr>) = (p, s', c')"
          by (subst (asm) poll_block_on.simps) simp
        from "1.IH" [OF d [symmetric] Ok x [symmetric] Pending refl False "1.prems"(1,2) s1 this] show ?thesis .
      qed
    qed
  next
    case (Err y)
    with "1.prems"(4) d have "p = Ready (Err y)" "s' = s" by (subst (asm) poll_block_on.simps, simp)+
    with "1.prems"(3) show ?thesis by (simp add: called_def)
  next
    case Panic
    with "1.prems"(4) d have "p = Ready Panic" "s' = s" by (subst (asm) poll_block_on.simps, simp)+
    with "1.prems"(3) show ?thesis by (simp add: called_def)
  qed
qed

lemma block_on_called:
  assumes "\<And>s s'. I s \<Longrightarrow> m s = (Pending, s') \<Longrightarrow> I s'" and "\<And>s r s'. I s \<Longrightarrow> m s = (Ready r, s') \<Longrightarrow> J r s'"
    and "I s" "block_on m s c = (p, s', c')"
  shows "called I J p s'"
proof (rule poll_block_on_called [where s = s and c = c and c' = c' and f = "\<lambda>s q _. case m s of (p, s') \<Rightarrow> (p, s', q)"])
  show "poll_block_on (\<lambda>s q _. case m s of (p, s') \<Rightarrow> (p, s', q)) s c = (p, s', c')"
    using assms(4) by (simp add: block_on_def)
qed (use assms(1-3) in \<open>auto split: prod.splits\<close>)

text \<open>The future of an operation has run it once it was polled.\<close>

definition op_started :: "('s \<Rightarrow> ('a, error) rresult \<times> 's) \<Rightarrow> 's \<Rightarrow> ('a, 's) op_state \<Rightarrow> bool" where
  "op_started m s0 = (\<lambda>(_, s, x). case x of None \<Rightarrow> s = s0 | Some r \<Rightarrow> m s0 = (r, s) \<and> r \<noteq> Panic)"

definition op_ended :: "('s \<Rightarrow> ('a, error) rresult \<times> 's) \<Rightarrow> 's \<Rightarrow> ('a, error) rresult \<Rightarrow> ('a, 's) op_state \<Rightarrow> bool" where
  "op_ended m s0 r = (\<lambda>(_, s, x). x = Some r \<and> m s0 = (r, s))"

lemma op_future_called:
  assumes "block_on (op_future m) (n, s0, None) c = (p, st, c')"
  shows "called (op_started m s0) (op_ended m s0) p st"
  by (rule block_on_called [OF _ _ _ assms])
    (auto simp: op_future_def op_started_def op_ended_def split: option.splits prod.splits rresult.splits nat.splits)

text \<open>
  A call has run its operation and returns what it returned; or something panicked; or the connection
  failed or the thread is not woken again, and the operation has run or its future has been dropped.
\<close>

definition op_outcome :: "('s \<Rightarrow> ('a, error) rresult \<times> 's) \<Rightarrow> ('s \<Rightarrow> (unit, error) rresult \<times> 's) \<Rightarrow> 's \<Rightarrow> ('a, error) rresult poll \<Rightarrow> 's \<Rightarrow> bool" where
  "op_outcome m d s p s' \<longleftrightarrow>
     (\<exists>r. p = Ready r \<and> m s = (r, s')) \<or> p = Ready Panic \<or>
     (p = Pending \<or> (\<exists>x. p = Ready (Err x))) \<and> ((\<exists>r. r \<noteq> Panic \<and> m s = (r, s')) \<or> (\<exists>r. r \<noteq> Panic \<and> d s = (r, s')))"

lemma block_on_or_outcome:
  assumes "block_on_or m d s c = (p, s', c')"
  shows "op_outcome m d s p s'"
proof -
  obtain n c1 where w: "next_wait c = (n, c1)" by fastforce
  obtain q n1 s1 x c2 where b: "block_on (op_future m) (n, s, None) c1 = (q, (n1, s1, x), c2)"
    by (cases "block_on (op_future m) (n, s, None) c1") auto
  from op_future_called [OF b] assms w b show ?thesis
    by (cases x; cases "d s"; cases "fst (d s)") (auto simp: called_def op_started_def op_ended_def op_outcome_def block_on_or_def split: rresult.splits)
qed

lemma block_on_op_Ok: "block_on_op m s c = (Ready (Ok x), s', c') \<Longrightarrow> m s = (Ok x, s')"
  unfolding block_on_op_def by (drule block_on_or_outcome) (auto simp: op_outcome_def)

section \<open>Notifications\<close>

definition pop_front :: "'a list \<Rightarrow> 'a option \<times> 'a list" where
  "pop_front q = (case q of [] \<Rightarrow> (None, []) | n # q \<Rightarrow> (Some n, q))"

type_synonym notified = "(notification option, error) rresult poll \<times> sync_conn"

text \<open>A buffered notification comes first in all three iterators.\<close>

definition iter_next :: "sync_conn \<Rightarrow> notified" where
  "iter_next c =
     (case pop_front (sc_notifications c) of
        (Some n, q) \<Rightarrow> (Ready (Ok (Some n)), c\<lparr>sc_notifications := q\<rparr>)
      | (None, _) \<Rightarrow>
          (case poll_block_on (\<lambda>s q _. case pop_front q of (n, q) \<Rightarrow> (Ready (Ok n), s, q)) () c of (p, _, c) \<Rightarrow> (p, c)))"

definition blocking_poll :: "unit \<Rightarrow> notification list \<Rightarrow> bool \<Rightarrow> (notification option, error) rresult poll \<times> unit \<times> notification list" where
  "blocking_poll s q done =
     (case pop_front q of
        (Some n, q) \<Rightarrow> (Ready (Ok (Some n)), s, q)
      | (None, q) \<Rightarrow> (if done then Ready (Ok None) else Pending, s, q))"

definition blocking_next :: "sync_conn \<Rightarrow> notified" where
  "blocking_next c =
     (case pop_front (sc_notifications c) of
        (Some n, q) \<Rightarrow> (Ready (Ok (Some n)), c\<lparr>sc_notifications := q\<rparr>)
      | (None, _) \<Rightarrow> (case poll_block_on blocking_poll () c of (p, _, c) \<Rightarrow> (p, c)))"

text \<open>
  \<open>TimeoutIter\<close> has a \<open>Sleep\<close>, which is ready when the clock has reached its deadline. \<open>ti_clock\<close> is
  what the coming readings of the clock give, the last of them for ever.
\<close>

record timeout_iter =
  ti_timeout :: nat
  ti_deadline :: nat
  ti_clock :: "nat list"

definition clock_now :: "timeout_iter \<Rightarrow> nat \<times> timeout_iter" where
  "clock_now t = (case ti_clock t of [] \<Rightarrow> (0, t) | [n] \<Rightarrow> (n, t) | n # ns \<Rightarrow> (n, t\<lparr>ti_clock := ns\<rparr>))"

definition timeout_reset :: "timeout_iter \<Rightarrow> timeout_iter" where
  "timeout_reset t = (case clock_now t of (now, t) \<Rightarrow> t\<lparr>ti_deadline := now + ti_timeout t\<rparr>)"

definition timeout_iter_new :: "nat \<Rightarrow> nat list \<Rightarrow> timeout_iter" where
  "timeout_iter_new timeout clock = timeout_reset \<lparr>ti_timeout = timeout, ti_deadline = 0, ti_clock = clock\<rparr>"

definition timeout_poll :: "timeout_iter \<Rightarrow> notification list \<Rightarrow> bool \<Rightarrow>
    (notification option, error) rresult poll \<times> timeout_iter \<times> notification list" where
  "timeout_poll t q done =
     (case pop_front q of
        (Some n, q) \<Rightarrow> (Ready (Ok (Some n)), timeout_reset t, q)
      | (None, q) \<Rightarrow>
          if done then (Ready (Ok None), t, q)
          else (case clock_now t of (now, t) \<Rightarrow> (if ti_deadline t \<le> now then Ready (Ok None) else Pending, t, q)))"

definition timeout_next :: "timeout_iter \<Rightarrow> sync_conn \<Rightarrow> (notification option, error) rresult poll \<times> timeout_iter \<times> sync_conn" where
  "timeout_next t c =
     (case pop_front (sc_notifications c) of
        (Some n, q) \<Rightarrow> (Ready (Ok (Some n)), timeout_reset t, c\<lparr>sc_notifications := q\<rparr>)
      | (None, _) \<Rightarrow> poll_block_on timeout_poll t c)"

definition notifications_len :: "sync_conn \<Rightarrow> nat" where
  "notifications_len c = length (sc_notifications c)"

definition notifications_is_empty :: "sync_conn \<Rightarrow> bool" where
  "notifications_is_empty c \<longleftrightarrow> sc_notifications c = []"

end
