(* ===== verification/SyncClient.thy ===== *)
theory SyncClient
  imports Sync
begin

text \<open>
  \<open>postgres/src/client.rs\<close>, \<open>row_iter.rs\<close>, \<open>transaction.rs\<close> and \<open>transaction_builder.rs\<close>: the
  synchronous client owns the connection and the asynchronous client and blocks on its operations.
\<close>

section \<open>The client\<close>

record sync_client =
  sy_connection :: sync_conn
  sy_client :: client

definition sync_client_new :: "sync_conn \<Rightarrow> client \<Rightarrow> sync_client" where
  "sync_client_new connection cl = \<lparr>sy_connection = connection, sy_client = cl\<rparr>"

type_synonym 'a sync_op = "sync_client \<Rightarrow> ('a, error) rresult poll \<times> sync_client"

definition blocking_or :: "'a client_op \<Rightarrow> unit client_op \<Rightarrow> 'a sync_op" where
  "blocking_or m d sy =
     (case block_on_or m d (sy_client sy) (sy_connection sy) of (p, cl, c) \<Rightarrow> (p, \<lparr>sy_connection = c, sy_client = cl\<rparr>))"

definition blocking :: "'a client_op \<Rightarrow> 'a sync_op" where
  "blocking m = blocking_or m (cret ())"

definition sync_execute :: "to_statement \<Rightarrow> dyn_to_sql list \<Rightarrow> u64 sync_op" where
  "sync_execute ts params = blocking (client_execute ts params)"

definition sync_execute_typed :: "str \<Rightarrow> (dyn_to_sql \<times> pg_type) list \<Rightarrow> u64 sync_op" where
  "sync_execute_typed q params = blocking (execute_typed q params)"

definition sync_query :: "to_statement \<Rightarrow> dyn_to_sql list \<Rightarrow> row list sync_op" where
  "sync_query ts params = blocking (client_query ts params)"

definition sync_query_one :: "to_statement \<Rightarrow> dyn_to_sql list \<Rightarrow> row sync_op" where
  "sync_query_one ts params = blocking (client_query_one ts params)"

definition sync_query_opt :: "to_statement \<Rightarrow> dyn_to_sql list \<Rightarrow> row option sync_op" where
  "sync_query_opt ts params = blocking (client_query_opt ts params)"

definition sync_query_typed :: "str \<Rightarrow> (dyn_to_sql \<times> pg_type) list \<Rightarrow> row list sync_op" where
  "sync_query_typed q params = blocking (client_query_typed q params)"

definition sync_query_typed_one :: "str \<Rightarrow> (dyn_to_sql \<times> pg_type) list \<Rightarrow> row sync_op" where
  "sync_query_typed_one q params = blocking (client_query_typed_one q params)"

definition sync_query_typed_opt :: "str \<Rightarrow> (dyn_to_sql \<times> pg_type) list \<Rightarrow> row option sync_op" where
  "sync_query_typed_opt q params = blocking (client_query_typed_opt q params)"

definition sync_prepare :: "str \<Rightarrow> statement sync_op" where
  "sync_prepare q = blocking (prepare q [])"

definition sync_prepare_typed :: "str \<Rightarrow> pg_type list \<Rightarrow> statement sync_op" where
  "sync_prepare_typed q types = blocking (prepare q types)"

definition sync_simple_query :: "str \<Rightarrow> simple_query_message list sync_op" where
  "sync_simple_query q = blocking (client_simple_query q)"

definition sync_batch_execute :: "str \<Rightarrow> unit sync_op" where
  "sync_batch_execute q = blocking (batch_execute q)"

definition sync_check_connection :: "unit sync_op" where
  "sync_check_connection = blocking check_connection"

definition sync_clear_type_cache :: "sync_client \<Rightarrow> sync_client" where
  "sync_clear_type_cache sy = sy\<lparr>sy_client := snd (clear_type_cache (sy_client sy))\<rparr>"

text \<open>\<open>is_valid\<close>: an empty query under a timeout; the future is polled before the clock is read.\<close>

definition valid_poll :: "nat \<Rightarrow> nat list \<Rightarrow>
    (unit, (simple_query_message list, client) op_state \<times> timeout_iter option) future" where
  "valid_poll timeout clock =
     (\<lambda>(st, t0).
        let t = (case t0 of None \<Rightarrow> timeout_iter_new timeout clock | Some t \<Rightarrow> t) in
        (case op_future (client_simple_query []) st of
           (Ready x, st) \<Rightarrow> (Ready (map_ok (\<lambda>_. ()) x), st, Some t)
         | (Pending, st) \<Rightarrow>
             (case clock_now t of (now, t) \<Rightarrow>
                (if ti_deadline t \<le> now then Ready (Err err_timeout) else Pending, st, Some t))))"

definition sync_is_valid :: "nat \<Rightarrow> nat list \<Rightarrow> unit sync_op" where
  "sync_is_valid timeout clock sy =
     (case next_wait (sy_connection sy) of (n, c) \<Rightarrow>
        (case block_on (valid_poll timeout clock) ((n, sy_client sy, None), None) c of
           (p, ((_, cl, _), _), c) \<Rightarrow> (p, \<lparr>sy_connection = c, sy_client = cl\<rparr>)))"

text \<open>
  Closing: the channel of the requests is closed, so that every later request fails, and the
  connection is driven to its end. \<open>Drop\<close> does the same and drops the result.
\<close>

definition close_inner :: "unit sync_op" where
  "close_inner sy =
     (case poll_block_on (\<lambda>s q done. (if done then Ready (Ok ()) else Pending, s, q)) () (sy_connection sy) of
        (p, _, c) \<Rightarrow> (p, \<lparr>sy_connection = c, sy_client = (sy_client sy)\<lparr>cl_script := []\<rparr>\<rparr>))"

definition sync_close :: "unit sync_op" where
  "sync_close = close_inner"

section \<open>Rows\<close>

text \<open>The rows of a raw query; the statement lives as long as the iterator.\<close>

definition sync_query_raw :: "to_statement \<Rightarrow> dyn_to_sql list \<Rightarrow> row_stream sync_op" where
  "sync_query_raw ts params = blocking (client_query_raw ts params)"

definition sync_query_typed_raw :: "str \<Rightarrow> (dyn_to_sql \<times> pg_type) list \<Rightarrow> row_stream sync_op" where
  "sync_query_typed_raw q params = blocking (query_typed q params)"

definition row_iter_next :: "row_stream \<Rightarrow> sync_conn \<Rightarrow> (row option, error) rresult poll \<times> row_stream \<times> sync_conn" where
  "row_iter_next it c = block_on_op row_stream_next it c"

definition row_iter_rows_affected :: "row_stream \<Rightarrow> u64 option" where
  "row_iter_rows_affected it = rows_affected it"

section \<open>Transactions\<close>

text \<open>The asynchronous transaction is taken out by \<open>commit\<close>, \<open>rollback\<close> or \<open>Drop\<close>.\<close>

record sync_tx =
  st_transaction :: "transaction option"

definition sync_tx_new :: "transaction \<Rightarrow> sync_tx" where
  "sync_tx_new t = \<lparr>st_transaction = Some t\<rparr>"

definition in_transaction :: "sync_tx \<Rightarrow> (transaction \<Rightarrow> 'a client_op) \<Rightarrow> 'a sync_op" where
  "in_transaction st m sy =
     (case st_transaction st of None \<Rightarrow> (Ready Panic, sy) | Some t \<Rightarrow> blocking (m t) sy)"

text \<open>
  The futures of \<open>commit\<close> and \<open>rollback\<close> own the transaction: one that was never polled rolls it
  back when it is dropped.
\<close>

definition ending :: "(transaction \<Rightarrow> unit client_op) \<Rightarrow> transaction \<Rightarrow> unit sync_op" where
  "ending m t = blocking_or (m t) (transaction_drop t)"

definition sync_tx_commit :: "sync_tx \<Rightarrow> unit sync_op" where
  "sync_tx_commit st sy = (case st_transaction st of None \<Rightarrow> (Ready Panic, sy) | Some t \<Rightarrow> ending commit t sy)"

definition sync_tx_rollback :: "sync_tx \<Rightarrow> unit sync_op" where
  "sync_tx_rollback st sy = (case st_transaction st of None \<Rightarrow> (Ready Panic, sy) | Some t \<Rightarrow> ending rollback t sy)"

definition sync_tx_drop :: "sync_tx \<Rightarrow> unit sync_op" where
  "sync_tx_drop st sy =
     (case st_transaction st of
        None \<Rightarrow> (Ready (Ok ()), sy)
      | Some t \<Rightarrow>
          (case ending rollback t sy of
             (Pending, sy) \<Rightarrow> (Pending, sy)
           | (Ready Panic, sy) \<Rightarrow> (Ready Panic, sy)
           | (Ready _, sy) \<Rightarrow> (Ready (Ok ()), sy)))"

definition then_tx :: "transaction sync_op \<Rightarrow> sync_tx sync_op" where
  "then_tx m sy = (case m sy of (Ready r, sy) \<Rightarrow> (Ready (map_ok sync_tx_new r), sy) | (Pending, sy) \<Rightarrow> (Pending, sy))"

definition sync_transaction :: "sync_tx sync_op" where
  "sync_transaction = then_tx (blocking client_transaction)"

definition sync_builder_start :: "transaction_builder \<Rightarrow> sync_tx sync_op" where
  "sync_builder_start b = then_tx (blocking (builder_start b))"

definition sync_tx_transaction :: "sync_tx \<Rightarrow> sync_tx sync_op" where
  "sync_tx_transaction st = then_tx (in_transaction st (savepoint None))"

definition sync_tx_savepoint :: "str \<Rightarrow> sync_tx \<Rightarrow> sync_tx sync_op" where
  "sync_tx_savepoint nm st = then_tx (in_transaction st (savepoint (Some nm)))"

definition sync_tx_prepare :: "str \<Rightarrow> sync_tx \<Rightarrow> statement sync_op" where
  "sync_tx_prepare q st = in_transaction st (\<lambda>_. prepare q [])"

definition sync_tx_prepare_typed :: "str \<Rightarrow> pg_type list \<Rightarrow> sync_tx \<Rightarrow> statement sync_op" where
  "sync_tx_prepare_typed q types st = in_transaction st (\<lambda>_. prepare q types)"

definition sync_tx_execute :: "to_statement \<Rightarrow> dyn_to_sql list \<Rightarrow> sync_tx \<Rightarrow> u64 sync_op" where
  "sync_tx_execute ts params st = in_transaction st (\<lambda>_. client_execute ts params)"

definition sync_tx_execute_typed :: "str \<Rightarrow> (dyn_to_sql \<times> pg_type) list \<Rightarrow> sync_tx \<Rightarrow> u64 sync_op" where
  "sync_tx_execute_typed q params st = in_transaction st (\<lambda>_. execute_typed q params)"

definition sync_tx_query :: "to_statement \<Rightarrow> dyn_to_sql list \<Rightarrow> sync_tx \<Rightarrow> row list sync_op" where
  "sync_tx_query ts params st = in_transaction st (\<lambda>_. client_query ts params)"

definition sync_tx_query_one :: "to_statement \<Rightarrow> dyn_to_sql list \<Rightarrow> sync_tx \<Rightarrow> row sync_op" where
  "sync_tx_query_one ts params st = in_transaction st (\<lambda>_. client_query_one ts params)"

definition sync_tx_query_opt :: "to_statement \<Rightarrow> dyn_to_sql list \<Rightarrow> sync_tx \<Rightarrow> row option sync_op" where
  "sync_tx_query_opt ts params st = in_transaction st (\<lambda>_. client_query_opt ts params)"

definition sync_tx_query_raw :: "to_statement \<Rightarrow> dyn_to_sql list \<Rightarrow> sync_tx \<Rightarrow> row_stream sync_op" where
  "sync_tx_query_raw ts params st = in_transaction st (\<lambda>_. client_query_raw ts params)"

definition sync_tx_query_typed :: "str \<Rightarrow> (dyn_to_sql \<times> pg_type) list \<Rightarrow> sync_tx \<Rightarrow> row list sync_op" where
  "sync_tx_query_typed q params st = in_transaction st (\<lambda>_. client_query_typed q params)"

definition sync_tx_query_typed_one :: "str \<Rightarrow> (dyn_to_sql \<times> pg_type) list \<Rightarrow> sync_tx \<Rightarrow> row sync_op" where
  "sync_tx_query_typed_one q params st = in_transaction st (\<lambda>_. client_query_typed_one q params)"

definition sync_tx_query_typed_opt :: "str \<Rightarrow> (dyn_to_sql \<times> pg_type) list \<Rightarrow> sync_tx \<Rightarrow> row option sync_op" where
  "sync_tx_query_typed_opt q params st = in_transaction st (\<lambda>_. client_query_typed_opt q params)"

definition sync_tx_query_typed_raw :: "str \<Rightarrow> (dyn_to_sql \<times> pg_type) list \<Rightarrow> sync_tx \<Rightarrow> row_stream sync_op" where
  "sync_tx_query_typed_raw q params st = in_transaction st (\<lambda>_. query_typed q params)"

definition sync_tx_bind :: "to_statement \<Rightarrow> dyn_to_sql list \<Rightarrow> sync_tx \<Rightarrow> portal sync_op" where
  "sync_tx_bind ts params st = in_transaction st (\<lambda>_. transaction_bind ts params)"

definition sync_tx_query_portal :: "portal \<Rightarrow> i32 \<Rightarrow> sync_tx \<Rightarrow> row list sync_op" where
  "sync_tx_query_portal p max_rows st = in_transaction st (\<lambda>_. transaction_query_portal p max_rows)"

definition sync_tx_query_portal_raw :: "portal \<Rightarrow> i32 \<Rightarrow> sync_tx \<Rightarrow> row_stream sync_op" where
  "sync_tx_query_portal_raw p max_rows st = in_transaction st (\<lambda>_. query_portal p max_rows)"

definition sync_tx_simple_query :: "str \<Rightarrow> sync_tx \<Rightarrow> simple_query_message list sync_op" where
  "sync_tx_simple_query q st = in_transaction st (\<lambda>_. client_simple_query q)"

definition sync_tx_batch_execute :: "str \<Rightarrow> sync_tx \<Rightarrow> unit sync_op" where
  "sync_tx_batch_execute q st = in_transaction st (\<lambda>_. batch_execute q)"

end
