(* ===== verification/SyncCopy.thy ===== *)
theory SyncCopy
  imports SyncClient BinaryCopySpec
begin

text \<open>
  Copying with the synchronous client: \<open>postgres/src/copy_in_writer.rs\<close>, \<open>copy_out_reader.rs\<close>,
  \<open>lazy_pin.rs\<close> and \<open>binary_copy.rs\<close>.
\<close>

section \<open>A value that is pinned when it is used first\<close>

record 'a lazy_pin =
  lp_value :: 'a
  lp_pinned :: bool

definition lazy_pin_new :: "'a \<Rightarrow> 'a lazy_pin" where
  "lazy_pin_new v = \<lparr>lp_value = v, lp_pinned = False\<rparr>"

definition into_unpinned :: "'a lazy_pin \<Rightarrow> 'a option" where
  "into_unpinned l = (if lp_pinned l then None else Some (lp_value l))"

section \<open>Copying in\<close>

text \<open>
  The futures of the sink are its polls. \<open>SinkExt::send\<close> waits until the sink is ready, starts the
  item, and flushes.
\<close>

fun send_poll :: "(unit, bytes option \<times> copy_in_sink \<times> copy_env) future" where
  "send_poll (Some b, s, e) =
     (case sink_poll_ready s e of
        (Ready (Ok _), s, e) \<Rightarrow>
          (case sink_start_send b s e of
             (Ready (Ok _), s, e) \<Rightarrow> (case sink_poll_flush s e of (p, s, e) \<Rightarrow> (p, None, s, e))
           | (p, s, e) \<Rightarrow> (p, None, s, e))
      | (p, s, e) \<Rightarrow> (p, Some b, s, e))"
| "send_poll (None, s, e) = (case sink_poll_flush s e of (p, s, e) \<Rightarrow> (p, None, s, e))"

definition finish_poll :: "(u64, copy_in_sink \<times> copy_env) future" where
  "finish_poll = (\<lambda>(s, e). poll_finish s e)"

text \<open>The writer borrows the connection; the script of its channel comes with it.\<close>

record copy_in_writer =
  wr_connection :: sync_conn
  wr_sink :: "copy_in_sink lazy_pin"
  wr_buf :: bytes
  wr_env :: copy_env

definition copy_in_writer_new :: "sync_conn \<Rightarrow> copy_env \<Rightarrow> copy_in_sink \<Rightarrow> copy_in_writer" where
  "copy_in_writer_new c e s = \<lparr>wr_connection = c, wr_sink = lazy_pin_new s, wr_buf = [], wr_env = e\<rparr>"

type_synonym 'a cw_op = "copy_in_writer \<Rightarrow> ('a, error) rresult poll \<times> copy_in_writer"

definition flush_inner :: "unit cw_op" where
  "flush_inner w =
     (if wr_buf w = [] then (Ready (Ok ()), w)
      else case block_on send_poll (Some (wr_buf w), lp_value (wr_sink w), wr_env w) (wr_connection w) of
             (p, (_, s, e), c) \<Rightarrow>
               (p, \<lparr>wr_connection = c, wr_sink = \<lparr>lp_value = s, lp_pinned = True\<rparr>, wr_buf = [], wr_env = e\<rparr>))"

text \<open>\<open>Write::flush\<close>; the I/O error that wraps the error stands for it.\<close>

definition cw_flush :: "unit cw_op" where
  "cw_flush = flush_inner"

definition cw_write :: "bytes \<Rightarrow> nat cw_op" where
  "cw_write b w =
     (case (if length (wr_buf w) > 4096 then cw_flush w else (Ready (Ok ()), w)) of
        (Ready (Ok _), w) \<Rightarrow> (Ready (Ok (length b)), w\<lparr>wr_buf := wr_buf w @ b\<rparr>)
      | (Ready (Err x), w) \<Rightarrow> (Ready (Err x), w)
      | (Ready Panic, w) \<Rightarrow> (Ready Panic, w)
      | (Pending, w) \<Rightarrow> (Pending, w))"

definition cw_finish :: "u64 cw_op" where
  "cw_finish w =
     (case flush_inner w of
        (Ready (Ok _), w) \<Rightarrow>
          (case block_on finish_poll (lp_value (wr_sink w), wr_env w) (wr_connection w) of
             (p, (s, e), c) \<Rightarrow>
               (p, w\<lparr>wr_connection := c, wr_sink := \<lparr>lp_value = s, lp_pinned = True\<rparr>, wr_env := e\<rparr>))
      | (Ready (Err x), w) \<Rightarrow> (Ready (Err x), w)
      | (Ready Panic, w) \<Rightarrow> (Ready Panic, w)
      | (Pending, w) \<Rightarrow> (Pending, w))"

definition sync_copy_in :: "bool \<Rightarrow> copy_poll list \<Rightarrow> to_statement \<Rightarrow> copy_env \<Rightarrow> copy_in_writer sync_op" where
  "sync_copy_in taken ps ts e sy =
     (case blocking (client_copy_in taken ps ts) sy of
        (Ready r, sy) \<Rightarrow> (Ready (map_ok (copy_in_writer_new (sy_connection sy) e) r), sy)
      | (Pending, sy) \<Rightarrow> (Pending, sy))"

section \<open>Copying out\<close>

record copy_out_reader =
  rd_connection :: sync_conn
  rd_stream :: "responses lazy_pin"
  rd_cur :: bytes

definition copy_out_reader_new :: "sync_conn \<Rightarrow> responses \<Rightarrow> copy_out_reader" where
  "copy_out_reader_new c r = \<lparr>rd_connection = c, rd_stream = lazy_pin_new r, rd_cur = []\<rparr>"

type_synonym 'a rd_op = "copy_out_reader \<Rightarrow> ('a, error) rresult poll \<times> copy_out_reader"

text \<open>One round of the loop of \<open>fill_buf\<close>: the next chunk of the stream.\<close>

definition next_chunk :: "bytes option rd_op" where
  "next_chunk rd =
     (case block_on_op copy_out_next (lp_value (rd_stream rd)) (rd_connection rd) of
        (p, r, c) \<Rightarrow> (p, rd\<lparr>rd_connection := c, rd_stream := \<lparr>lp_value = r, lp_pinned = True\<rparr>\<rparr>))"

lemma next_chunk_shorter:
  "next_chunk rd = (Ready (Ok (Some b)), rd') \<Longrightarrow>
    responses_size (lp_value (rd_stream rd')) < responses_size (lp_value (rd_stream rd))"
  by (auto simp: next_chunk_def copy_out_next_def dest!: block_on_op_Ok dest: responses_next_size
      split: prod.splits rresult.splits message.splits)

text \<open>\<open>fill_buf\<close> skips empty chunks; \<open>cur\<close> stays empty at the end of the stream.\<close>

function fill_buf :: "bytes rd_op" where
  "fill_buf rd =
     (if rd_cur rd \<noteq> [] then (Ready (Ok (rd_cur rd)), rd)
      else case next_chunk rd of
             (Ready (Ok (Some b)), rd) \<Rightarrow> fill_buf (rd\<lparr>rd_cur := b\<rparr>)
           | (Ready (Ok None), rd) \<Rightarrow> (Ready (Ok []), rd)
           | (Ready (Err x), rd) \<Rightarrow> (Ready (Err x), rd)
           | (Ready Panic, rd) \<Rightarrow> (Ready Panic, rd)
           | (Pending, rd) \<Rightarrow> (Pending, rd))"
  by pat_completeness auto
termination
  by (relation "measure (\<lambda>rd. responses_size (lp_value (rd_stream rd)))") (auto dest: sym [THEN next_chunk_shorter])

declare fill_buf.simps [simp del]

text \<open>\<open>consume\<close> panics past the end; \<open>read\<close> copies what fits.\<close>

definition consume :: "nat \<Rightarrow> unit rd_op" where
  "consume amt rd =
     (if length (rd_cur rd) < amt then (Ready Panic, rd) else (Ready (Ok ()), rd\<lparr>rd_cur := drop amt (rd_cur rd)\<rparr>))"

definition cr_read :: "nat \<Rightarrow> bytes rd_op" where
  "cr_read size_of_buf rd =
     (case fill_buf rd of
        (Ready (Ok b), rd) \<Rightarrow>
          (let len = min size_of_buf (length b) in
           case consume len rd of
             (Ready (Ok _), rd) \<Rightarrow> (Ready (Ok (take len b)), rd)
           | (Ready (Err x), rd) \<Rightarrow> (Ready (Err x), rd)
           | (Ready Panic, rd) \<Rightarrow> (Ready Panic, rd)
           | (Pending, rd) \<Rightarrow> (Pending, rd))
      | r \<Rightarrow> r)"

definition sync_copy_out :: "to_statement \<Rightarrow> copy_out_reader sync_op" where
  "sync_copy_out ts sy =
     (case blocking (client_copy_out ts) sy of
        (Ready r, sy) \<Rightarrow> (Ready (map_ok (copy_out_reader_new (sy_connection sy)) r), sy)
      | (Pending, sy) \<Rightarrow> (Pending, sy))"

section \<open>The binary format\<close>

text \<open>\<open>new\<close> takes the sink out of the writer and drops the rest of the writer; a used one panics.\<close>

record sync_binary_writer =
  sb_connection :: sync_conn
  sb_writer :: binary_writer
  sb_env :: copy_env

definition sync_writer_new :: "copy_in_writer \<Rightarrow> pg_type list \<Rightarrow> (sync_binary_writer, error) rresult" where
  "sync_writer_new w types =
     (case into_unpinned (wr_sink w) of
        None \<Rightarrow> Panic
      | Some s \<Rightarrow> Ok \<lparr>sb_connection = wr_connection w, sb_writer = writer_new s types, sb_env = wr_env w\<rparr>)"

text \<open>
  The future of a method of the asynchronous writer does its work when it is polled first, waiting
  for the answers of the channel; when these have run out it is pending for ever.
\<close>

type_synonym 'a sb_op = "sync_binary_writer \<Rightarrow> ('a, error) rresult poll \<times> sync_binary_writer"

definition on_writer :: "'a writer_op \<Rightarrow> 'a sb_op" where
  "on_writer m w =
     (case block_on_op (\<lambda>(b, e). case m b e of (p, b, e) \<Rightarrow> (Ok p, b, e)) (sb_writer w, sb_env w) (sb_connection w) of
        (q, (b, e), c) \<Rightarrow>
          ((case q of Pending \<Rightarrow> Pending
            | Ready (Ok p) \<Rightarrow> p
            | Ready (Err x) \<Rightarrow> Ready (Err x)
            | Ready Panic \<Rightarrow> Ready Panic), \<lparr>sb_connection = c, sb_writer = b, sb_env = e\<rparr>))"

definition sb_write_raw :: "dyn_to_sql list \<Rightarrow> unit sb_op" where
  "sb_write_raw values = on_writer (write_raw values)"

definition sb_finish :: "u64 sb_op" where
  "sb_finish = on_writer writer_finish"

record sync_binary_out =
  so_connection :: sync_conn
  so_stream :: binary_out

definition sync_out_new :: "copy_out_reader \<Rightarrow> pg_type list \<Rightarrow> (sync_binary_out, error) rresult" where
  "sync_out_new rd types =
     (case into_unpinned (rd_stream rd) of
        None \<Rightarrow> Panic
      | Some r \<Rightarrow> Ok \<lparr>so_connection = rd_connection rd, so_stream = out_new r types\<rparr>)"

definition so_next :: "sync_binary_out \<Rightarrow> (binary_row option, error) rresult poll \<times> sync_binary_out" where
  "so_next it =
     (case block_on_op out_next (so_stream it) (so_connection it) of
        (p, s, c) \<Rightarrow> (p, \<lparr>so_connection = c, so_stream = s\<rparr>))"

end
