(* ===== verification/SyncSpec.thy ===== *)
theory SyncSpec
  imports SyncCopy
begin

text \<open>
  The synchronous client against the asynchronous one: its reachable states and its notifications,
  its results on a connection that does not fail, and the copies.
\<close>

section \<open>What happened to the notifications\<close>

fun notifs :: "conn_event list \<Rightarrow> notification list" where
  "notifs [] = []"
| "notifs (EvMessage (AsyncNotification pid channel text1) # es) = (pid, channel, text1) # notifs es"
| "notifs (_ # es) = notifs es"

fun notices :: "conn_event list \<Rightarrow> db_error list" where
  "notices [] = []"
| "notices (EvMessage (AsyncNotice n) # es) = n # notices es"
| "notices (_ # es) = notices es"

lemma notifs_append: "notifs (es @ es') = notifs es @ notifs es'"
  by (induction es rule: notifs.induct) simp_all

lemma notices_append: "notices (es @ es') = notices es @ notices es'"
  by (induction es rule: notices.induct) simp_all

text \<open>
  Between \<open>c\<close> and \<open>c'\<close> some polls were taken; their notifications went to the end of the queue, and
  \<open>given\<close> was taken from its front.
\<close>

definition kept :: "sync_conn \<Rightarrow> notification list \<Rightarrow> sync_conn \<Rightarrow> bool" where
  "kept c given c' \<longleftrightarrow>
     (\<exists>es. sc_events c = es @ sc_events c' \<and> given @ sc_notifications c' = sc_notifications c @ notifs es \<and>
        sc_noticed c' = sc_noticed c @ notices es)"

lemma kept_refl: "kept c [] c"
  by (simp add: kept_def)

lemma kept_trans: "kept c ns c1 \<Longrightarrow> kept c1 ms c2 \<Longrightarrow> kept c (ns @ ms) c2"
  unfolding kept_def
proof (elim exE conjE)
  fix es es'
  assume "sc_events c = es @ sc_events c1" "sc_events c1 = es' @ sc_events c2"
    and 1: "ns @ sc_notifications c1 = sc_notifications c @ notifs es"
    and 2: "ms @ sc_notifications c2 = sc_notifications c1 @ notifs es'"
    and "sc_noticed c1 = sc_noticed c @ notices es" "sc_noticed c2 = sc_noticed c1 @ notices es'"
  moreover have "(ns @ ms) @ sc_notifications c2 = sc_notifications c @ notifs (es @ es')"
    by (simp add: notifs_append 2) (simp add: 1 flip: append_assoc)
  ultimately show "\<exists>es. sc_events c = es @ sc_events c2 \<and> (ns @ ms) @ sc_notifications c2 = sc_notifications c @ notifs es \<and>
      sc_noticed c2 = sc_noticed c @ notices es"
    by (intro exI [of _ "es @ es'"]) (simp add: notices_append)
qed

lemma kept_front: "sc_notifications c = n # q \<Longrightarrow> kept c [n] (c\<lparr>sc_notifications := q\<rparr>)"
  by (simp add: kept_def)

lemma conn_drain_kept:
  "conn_drain es q ns = (r, es', q', ns') \<Longrightarrow> \<exists>u. es = u @ es' \<and> q' = q @ notifs u \<and> ns' = ns @ notices u"
proof (induction es q ns rule: conn_drain.induct)
  case (2 pid channel text1 es q ns)
  then obtain u where "es = u @ es'" "q' = (q @ [(pid, channel, text1)]) @ notifs u" "ns' = ns @ notices u" by auto
  then show ?case by (intro exI [of _ "EvMessage (AsyncNotification pid channel text1) # u"]) simp
next
  case (3 n es q ns)
  then obtain u where "es = u @ es'" "q' = q @ notifs u" "ns' = (ns @ [n]) @ notices u" by auto
  then show ?case by (intro exI [of _ "EvMessage (AsyncNotice n) # u"]) simp
qed (auto intro: exI [of _ "[_]"])

lemma drained_kept: "drained c = (r, c') \<Longrightarrow> kept c [] c'"
  by (auto simp: drained_def kept_def split: prod.splits dest!: conn_drain_kept)

lemma kept_waits: "kept (c\<lparr>sc_waits := ws\<rparr>) ns c' = kept c ns c'"
  by (simp add: kept_def)

text \<open>A closure that leaves the queue alone while it is pending: the last round ends the call.\<close>

definition waits_for_queue :: "('s \<Rightarrow> notification list \<Rightarrow> bool \<Rightarrow> ('a, error) rresult poll \<times> 's \<times> notification list) \<Rightarrow> bool" where
  "waits_for_queue f \<longleftrightarrow> (\<forall>s q d s' q'. f s q d = (Pending, s', q') \<longrightarrow> q' = q)"

lemma poll_block_on_kept:
  assumes "waits_for_queue f"
    and "poll_block_on f s c = (p, s', c')"
  shows "\<exists>c1. kept c [] c1 \<and>
     (c' = c1 \<and> (\<forall>x. p \<noteq> Ready (Ok x)) \<or>
      (\<exists>s1 d r q. f s1 (sc_notifications c1) d = (Ready r, s', q) \<and> p = Ready r \<and> c' = c1\<lparr>sc_notifications := q\<rparr>))"
  using assms
proof (induction f s c rule: poll_block_on.induct)
  case (1 f s c)
  obtain r c1 where d: "drained c = (r, c1)" by fastforce
  note k = drained_kept [OF d]
  show ?case
  proof (cases r)
    case (Ok d0)
    obtain x s1 q where x: "f s (sc_notifications c1) d0 = (x, s1, q)" by (rule prod_cases3)
    show ?thesis
    proof (cases x)
      case (Ready r)
      with "1.prems"(2) d Ok x have "p = Ready r" "s' = s1" "c' = c1\<lparr>sc_notifications := q\<rparr>"
        by (subst (asm) poll_block_on.simps, simp)+
      with x k Ready show ?thesis by (intro exI [of _ c1]) auto
    next
      case Pending
      with "1.prems"(1) x have q: "q = sc_notifications c1" by (auto simp: waits_for_queue_def)
      show ?thesis
      proof (cases "sc_events c = []")
        case True
        with "1.prems"(2) d Ok x Pending q have "p = Pending" "c' = c1" by (subst (asm) poll_block_on.simps, simp)+
        with k show ?thesis by (intro exI [of _ c1]) auto
      next
        case False
        with "1.prems"(2) d Ok x Pending have "poll_block_on f s1 (c1\<lparr>sc_notifications := q\<rparr>) = (p, s', c')"
          by (subst (asm) poll_block_on.simps) simp
        from "1.IH" [OF d [symmetric] Ok x [symmetric] Pending refl False "1.prems"(1) this] obtain c2 where
          c2: "kept c1 [] c2" "c' = c2 \<and> (\<forall>x. p \<noteq> Ready (Ok x)) \<or>
            (\<exists>s1 d r q. f s1 (sc_notifications c2) d = (Ready r, s', q) \<and> p = Ready r \<and> c' = c2\<lparr>sc_notifications := q\<rparr>)"
          unfolding q by (elim exE conjE) (rule that, simp, assumption)
        from kept_trans [OF k c2(1)] c2(2) show ?thesis by (intro exI [of _ c2]) simp
      qed
    qed
  next
    case (Err y)
    with "1.prems"(2) d have "p = Ready (Err y)" "c' = c1" by (subst (asm) poll_block_on.simps, simp)+
    with k show ?thesis by (intro exI [of _ c1]) simp
  next
    case Panic
    with "1.prems"(2) d have "p = Ready Panic" "c' = c1" by (subst (asm) poll_block_on.simps, simp)+
    with k show ?thesis by (intro exI [of _ c1]) simp
  qed
qed

lemma block_on_kept:
  assumes "block_on m s c = (p, s', c')"
  shows "kept c [] c'"
proof -
  have "waits_for_queue (\<lambda>s q _. case m s of (p, s') \<Rightarrow> (p, s', q))"
    by (auto simp: waits_for_queue_def split: prod.splits)
  from poll_block_on_kept [OF this assms [unfolded block_on_def]] show ?thesis
    by (auto simp: case_prod_unfold)
qed

lemma block_on_or_kept:
  assumes "block_on_or m d s c = (p, s', c')"
  shows "kept c [] c'"
proof -
  obtain n c1 where w: "next_wait c = (n, c1)" by fastforce
  obtain q st c2 where b: "block_on (op_future m) (n, s, None) c1 = (q, st, c2)" by (rule prod_cases3)
  have "c2 = c'" using assms w b by (auto simp: block_on_or_def split: prod.splits option.splits rresult.splits)
  moreover have "kept c ns c2 = kept c1 ns c2" for ns
    using w by (auto simp: next_wait_def kept_def split: list.splits)
  ultimately show ?thesis using block_on_kept [OF b] by simp
qed

definition given :: "(notification option, error) rresult poll \<Rightarrow> notification list" where
  "given p = (case p of Ready (Ok (Some n)) \<Rightarrow> [n] | _ \<Rightarrow> [])"

lemma given_simps [simp]: "given Pending = []" "given (Ready (Err x)) = []" "given (Ready Panic) = []"
  "given (Ready (Ok None)) = []" "given (Ready (Ok (Some n))) = [n]"
  by (simp_all add: given_def)

lemma kept_pop:
  assumes "pop_front (sc_notifications c) = (n, q)"
  shows "kept c (given (Ready (Ok n))) (c\<lparr>sc_notifications := q\<rparr>)"
  using assms by (auto simp: pop_front_def kept_front split: list.splits) (simp add: kept_def)

text \<open>The closures of the iterators pop the front of the queue when they are ready.\<close>

definition pops_queue :: "('s \<Rightarrow> notification list \<Rightarrow> bool \<Rightarrow> (notification option, error) rresult poll \<times> 's \<times> notification list) \<Rightarrow> bool" where
  "pops_queue f \<longleftrightarrow> waits_for_queue f \<and>
     (\<forall>s q d r s' q'. f s q d = (Ready r, s', q') \<longrightarrow> (\<exists>n. r = Ok n \<and> pop_front q = (n, q')))"

lemma kept_call:
  assumes f: "pops_queue f" and c: "poll_block_on f s c = (p, s', c')"
  shows "kept c (given p) c'"
proof -
  obtain c1 where c1: "kept c [] c1" "c' = c1 \<and> (\<forall>x. p \<noteq> Ready (Ok x)) \<or>
      (\<exists>s1 d r q. f s1 (sc_notifications c1) d = (Ready r, s', q) \<and> p = Ready r \<and> c' = c1\<lparr>sc_notifications := q\<rparr>)"
    using poll_block_on_kept [OF _ c] f unfolding pops_queue_def by blast
  show ?thesis
  proof (cases "c' = c1 \<and> (\<forall>x. p \<noteq> Ready (Ok x))")
    case True
    then have "given p = []" by (auto simp: given_def split: poll.split rresult.split option.split)
    with True c1 show ?thesis by simp
  next
    case False
    with c1 obtain s1 d r q where "f s1 (sc_notifications c1) d = (Ready r, s', q)" "p = Ready r" "c' = c1\<lparr>sc_notifications := q\<rparr>"
      by blast
    moreover from this f obtain n where "pop_front (sc_notifications c1) = (n, q)" "r = Ok n"
      unfolding pops_queue_def by blast
    ultimately show ?thesis using kept_trans [OF c1(1) kept_pop] by auto
  qed
qed

lemma pop_front_empty: "pop_front q = (None, q') \<Longrightarrow> q = [] \<and> q' = []"
  by (auto simp: pop_front_def split: list.splits)

lemma pops_closures:
  "pops_queue (\<lambda>s q _. case pop_front q of (n, q) \<Rightarrow> (Ready (Ok n), s, q))"
  "pops_queue blocking_poll" "pops_queue timeout_poll"
  by (auto simp: pops_queue_def waits_for_queue_def blocking_poll_def timeout_poll_def dest: pop_front_empty
      split: prod.splits option.splits if_splits)

lemma kept_first:
  assumes "pop_front (sc_notifications c) = (Some n, q)"
  shows "kept c [n] (c\<lparr>sc_notifications := q\<rparr>)"
  using kept_pop [OF assms] by simp

lemma iter_next_kept:
  assumes "iter_next c = (p, c')"
  shows "kept c (given p) c'"
proof (cases "pop_front (sc_notifications c)")
  case (Pair x q)
  show ?thesis
  proof (cases x)
    case None
    with Pair assms obtain s' where "poll_block_on (\<lambda>s q _. case pop_front q of (n, q) \<Rightarrow> (Ready (Ok n), s, q)) () c = (p, s', c')"
      by (auto simp: iter_next_def split: prod.splits)
    from kept_call [OF pops_closures(1) this] show ?thesis .
  qed (use Pair assms kept_first in \<open>auto simp: iter_next_def\<close>)
qed

lemma blocking_next_kept:
  assumes "blocking_next c = (p, c')"
  shows "kept c (given p) c'"
proof (cases "pop_front (sc_notifications c)")
  case (Pair x q)
  show ?thesis
  proof (cases x)
    case None
    with Pair assms obtain s' where "poll_block_on blocking_poll () c = (p, s', c')"
      by (auto simp: blocking_next_def split: prod.splits)
    from kept_call [OF pops_closures(2) this] show ?thesis .
  qed (use Pair assms kept_first in \<open>auto simp: blocking_next_def\<close>)
qed

lemma timeout_next_kept:
  assumes "timeout_next t c = (p, t', c')"
  shows "kept c (given p) c'"
proof (cases "pop_front (sc_notifications c)")
  case (Pair x q)
  show ?thesis
  proof (cases x)
    case None
    with Pair assms have "poll_block_on timeout_poll t c = (p, t', c')"
      by (simp add: timeout_next_def)
    from kept_call [OF pops_closures(3) this] show ?thesis .
  qed (use Pair assms kept_first in \<open>auto simp: timeout_next_def\<close>)
qed

section \<open>The reachable states\<close>

text \<open>A call that came back, with a result or an error.\<close>

definition sync_returns :: "'a sync_op \<Rightarrow> sync_client \<Rightarrow> sync_client \<Rightarrow> bool" where
  "sync_returns m sy sy' \<longleftrightarrow> (\<exists>r. m sy = (Ready r, sy') \<and> r \<noteq> Panic)"

text \<open>
  Everything a user can do with a synchronous client, from a connection whose polls will give \<open>evs\<close>;
  \<open>ns\<close> are the notifications the iterators have returned.
\<close>

inductive sync_reaches :: "conn_event list \<Rightarrow> sync_client \<Rightarrow> notification list \<Rightarrow> bool" for evs where
  started: "sync_reaches evs (sync_client_new (sync_connection_new evs waits) (client_new script m n)) []"
| s_execute: "sync_reaches evs sy ns \<Longrightarrow> sync_returns (sync_execute ts params) sy sy' \<Longrightarrow> sync_reaches evs sy' ns"
| s_execute_typed: "sync_reaches evs sy ns \<Longrightarrow> sync_returns (sync_execute_typed q typed) sy sy' \<Longrightarrow> sync_reaches evs sy' ns"
| s_query: "sync_reaches evs sy ns \<Longrightarrow> sync_returns (sync_query ts params) sy sy' \<Longrightarrow> sync_reaches evs sy' ns"
| s_query_one: "sync_reaches evs sy ns \<Longrightarrow> sync_returns (sync_query_one ts params) sy sy' \<Longrightarrow> sync_reaches evs sy' ns"
| s_query_opt: "sync_reaches evs sy ns \<Longrightarrow> sync_returns (sync_query_opt ts params) sy sy' \<Longrightarrow> sync_reaches evs sy' ns"
| s_query_raw: "sync_reaches evs sy ns \<Longrightarrow> sync_returns (sync_query_raw ts params) sy sy' \<Longrightarrow> sync_reaches evs sy' ns"
| s_query_typed: "sync_reaches evs sy ns \<Longrightarrow> sync_returns (sync_query_typed q typed) sy sy' \<Longrightarrow> sync_reaches evs sy' ns"
| s_query_typed_one: "sync_reaches evs sy ns \<Longrightarrow> sync_returns (sync_query_typed_one q typed) sy sy' \<Longrightarrow> sync_reaches evs sy' ns"
| s_query_typed_opt: "sync_reaches evs sy ns \<Longrightarrow> sync_returns (sync_query_typed_opt q typed) sy sy' \<Longrightarrow> sync_reaches evs sy' ns"
| s_query_typed_raw: "sync_reaches evs sy ns \<Longrightarrow> sync_returns (sync_query_typed_raw q typed) sy sy' \<Longrightarrow> sync_reaches evs sy' ns"
| s_prepare: "sync_reaches evs sy ns \<Longrightarrow> sync_returns (sync_prepare_typed q types) sy sy' \<Longrightarrow> sync_reaches evs sy' ns"
| s_simple_query: "sync_reaches evs sy ns \<Longrightarrow> sync_returns (sync_simple_query q) sy sy' \<Longrightarrow> sync_reaches evs sy' ns"
| s_batch_execute: "sync_reaches evs sy ns \<Longrightarrow> sync_returns (sync_batch_execute q) sy sy' \<Longrightarrow> sync_reaches evs sy' ns"
| s_check_connection: "sync_reaches evs sy ns \<Longrightarrow> sync_returns sync_check_connection sy sy' \<Longrightarrow> sync_reaches evs sy' ns"
| s_is_valid: "sync_reaches evs sy ns \<Longrightarrow> sync_returns (sync_is_valid timeout clock) sy sy' \<Longrightarrow> sync_reaches evs sy' ns"
| s_close: "sync_reaches evs sy ns \<Longrightarrow> sync_returns sync_close sy sy' \<Longrightarrow> sync_reaches evs sy' ns"
| s_transaction: "sync_reaches evs sy ns \<Longrightarrow> sync_returns (sync_builder_start b) sy sy' \<Longrightarrow> sync_reaches evs sy' ns"
| s_tx_savepoint: "sync_reaches evs sy ns \<Longrightarrow> sync_returns (sync_tx_savepoint nm st) sy sy' \<Longrightarrow> sync_reaches evs sy' ns"
| s_tx_transaction: "sync_reaches evs sy ns \<Longrightarrow> sync_returns (sync_tx_transaction st) sy sy' \<Longrightarrow> sync_reaches evs sy' ns"
| s_tx_commit: "sync_reaches evs sy ns \<Longrightarrow> sync_returns (sync_tx_commit st) sy sy' \<Longrightarrow> sync_reaches evs sy' ns"
| s_tx_rollback: "sync_reaches evs sy ns \<Longrightarrow> sync_returns (sync_tx_rollback st) sy sy' \<Longrightarrow> sync_reaches evs sy' ns"
| s_tx_drop: "sync_reaches evs sy ns \<Longrightarrow> sync_returns (sync_tx_drop st) sy sy' \<Longrightarrow> sync_reaches evs sy' ns"
| s_tx_bind: "sync_reaches evs sy ns \<Longrightarrow> sync_returns (sync_tx_bind ts params st) sy sy' \<Longrightarrow> sync_reaches evs sy' ns"
| s_tx_query_portal: "sync_reaches evs sy ns \<Longrightarrow> sync_returns (sync_tx_query_portal p n st) sy sy' \<Longrightarrow> sync_reaches evs sy' ns"
| s_tx_query_portal_raw: "sync_reaches evs sy ns \<Longrightarrow> sync_returns (sync_tx_query_portal_raw p n st) sy sy' \<Longrightarrow> sync_reaches evs sy' ns"
| s_row: "sync_reaches evs sy ns \<Longrightarrow> row_iter_next it (sy_connection sy) = (p, it', c) \<Longrightarrow> sync_reaches evs (sy\<lparr>sy_connection := c\<rparr>) ns"
| s_iter: "sync_reaches evs sy ns \<Longrightarrow> iter_next (sy_connection sy) = (p, c) \<Longrightarrow> sync_reaches evs (sy\<lparr>sy_connection := c\<rparr>) (ns @ given p)"
| s_blocking_iter: "sync_reaches evs sy ns \<Longrightarrow> blocking_next (sy_connection sy) = (p, c) \<Longrightarrow> sync_reaches evs (sy\<lparr>sy_connection := c\<rparr>) (ns @ given p)"
| s_timeout_iter: "sync_reaches evs sy ns \<Longrightarrow> timeout_next t (sy_connection sy) = (p, t', c) \<Longrightarrow> sync_reaches evs (sy\<lparr>sy_connection := c\<rparr>) (ns @ given p)"
| s_copy_in: "sync_reaches evs sy ns \<Longrightarrow> list_all framed_poll ps \<Longrightarrow> sync_returns (sync_copy_in taken ps ts e) sy sy' \<Longrightarrow> sync_reaches evs sy' ns"
| s_copy_write: "sync_reaches evs sy ns \<Longrightarrow> cw_write b w = (p, w') \<Longrightarrow> wr_connection w = sy_connection sy \<Longrightarrow>
    sync_reaches evs (sy\<lparr>sy_connection := wr_connection w'\<rparr>) ns"
| s_copy_flush: "sync_reaches evs sy ns \<Longrightarrow> cw_flush w = (p, w') \<Longrightarrow> wr_connection w = sy_connection sy \<Longrightarrow>
    sync_reaches evs (sy\<lparr>sy_connection := wr_connection w'\<rparr>) ns"
| s_copy_finish: "sync_reaches evs sy ns \<Longrightarrow> cw_finish w = (k, w') \<Longrightarrow> wr_connection w = sy_connection sy \<Longrightarrow>
    sync_reaches evs (sy\<lparr>sy_connection := wr_connection w'\<rparr>) ns"
| s_copy_out: "sync_reaches evs sy ns \<Longrightarrow> sync_returns (sync_copy_out ts) sy sy' \<Longrightarrow> sync_reaches evs sy' ns"
| s_copy_read: "sync_reaches evs sy ns \<Longrightarrow> cr_read n rd = (b, rd') \<Longrightarrow> rd_connection rd = sy_connection sy \<Longrightarrow>
    sync_reaches evs (sy\<lparr>sy_connection := rd_connection rd'\<rparr>) ns"

text \<open>The step of a blocking call: one step of the asynchronous client, or none.\<close>

definition sync_step :: "sync_client \<Rightarrow> sync_client \<Rightarrow> bool" where
  "sync_step sy sy' \<longleftrightarrow> kept (sy_connection sy) [] (sy_connection sy') \<and> (client_reaches (sy_client sy) \<longrightarrow> client_reaches (sy_client sy'))"

lemma sync_step_blocking_or:
  assumes "sync_returns (blocking_or m d) sy sy'"
    and "\<And>cl cl'. client_reaches cl \<Longrightarrow> returns m cl cl' \<Longrightarrow> client_reaches cl'"
    and "\<And>cl cl'. client_reaches cl \<Longrightarrow> returns d cl cl' \<Longrightarrow> client_reaches cl'"
  shows "sync_step sy sy'"
proof -
  obtain r cl c where r: "block_on_or m d (sy_client sy) (sy_connection sy) = (Ready r, cl, c)" "r \<noteq> Panic"
    and sy': "sy' = \<lparr>sy_connection = c, sy_client = cl\<rparr>"
    using assms(1) by (auto simp: sync_returns_def blocking_or_def split: prod.splits)
  from block_on_or_outcome [OF r(1)] r(2) have "returns m (sy_client sy) cl \<or> returns d (sy_client sy) cl"
    unfolding op_outcome_def returns_def by (elim disjE exE conjE) simp_all
  then have "client_reaches (sy_client sy) \<longrightarrow> client_reaches cl" by (auto intro: assms(2,3))
  with block_on_or_kept [OF r(1)] sy' show ?thesis by (simp add: sync_step_def)
qed

lemma sync_step_blocking:
  "sync_returns (blocking m) sy sy' \<Longrightarrow> (\<And>cl cl'. client_reaches cl \<Longrightarrow> returns m cl cl' \<Longrightarrow> client_reaches cl') \<Longrightarrow> sync_step sy sy'"
  unfolding blocking_def by (erule sync_step_blocking_or) (auto simp: returns_def cret_def)

lemma sync_step_in_transaction:
  "sync_returns (in_transaction st m) sy sy' \<Longrightarrow> (\<And>t cl cl'. client_reaches cl \<Longrightarrow> returns (m t) cl cl' \<Longrightarrow> client_reaches cl') \<Longrightarrow>
    sync_step sy sy'"
proof (cases "st_transaction st")
  case (Some t)
  then have "in_transaction st m = blocking (m t)" by (simp add: in_transaction_def fun_eq_iff)
  then show "sync_returns (in_transaction st m) sy sy' \<Longrightarrow>
      (\<And>t cl cl'. client_reaches cl \<Longrightarrow> returns (m t) cl cl' \<Longrightarrow> client_reaches cl') \<Longrightarrow> sync_step sy sy'"
    by (simp add: sync_step_blocking)
qed (simp add: sync_returns_def in_transaction_def)

lemma sync_returns_then_tx: "sync_returns (then_tx m) sy sy' \<Longrightarrow> sync_returns m sy sy'"
  by (auto simp: sync_returns_def then_tx_def split: prod.splits poll.splits)

lemma sync_step_ending:
  assumes "sync_returns (ending m t) sy sy'" and "\<And>t cl cl'. client_reaches cl \<Longrightarrow> returns (m t) cl cl' \<Longrightarrow> client_reaches cl'"
  shows "sync_step sy sy'"
  using assms(1) unfolding ending_def
  by (rule sync_step_blocking_or) (erule (1) assms(2) client_reaches.transaction_dropped)+

lemma valid_poll_called:
  assumes "block_on (valid_poll timeout clock) ((n, cl, None), None) c = (p, st, c')"
  shows "called (\<lambda>(st, _). op_started (client_simple_query []) cl st)
    (\<lambda>r ((_, cl', _), _). \<exists>r'. client_simple_query [] cl = (r', cl') \<and> (r' = Panic \<longrightarrow> r = Panic)) p st"
  by (rule block_on_called [OF _ _ _ assms])
    (auto simp: valid_poll_def op_future_def op_started_def Let_def split: option.splits prod.splits rresult.splits nat.splits poll.splits if_splits)

lemma sync_step_is_valid:
  assumes "sync_returns (sync_is_valid timeout clock) sy sy'"
  shows "sync_step sy sy'"
proof -
  let ?cl = "sy_client sy"
  obtain n c1 where w: "next_wait (sy_connection sy) = (n, c1)" by fastforce
  obtain p st c2 where b: "block_on (valid_poll timeout clock) ((n, ?cl, None), None) c1 = (p, st, c2)" by (rule prod_cases3)
  obtain m cl x t where st: "st = ((m, cl, x), t)" by (metis prod.collapse)
  from assms w b st obtain r where r: "p = Ready r" "r \<noteq> Panic" "sy' = \<lparr>sy_connection = c2, sy_client = cl\<rparr>"
    by (auto simp: sync_returns_def sync_is_valid_def)
  from valid_poll_called [OF b] r st have "cl = ?cl \<or> returns (client_simple_query []) ?cl cl"
    by (cases x) (auto simp: called_def op_started_def returns_def)
  then have "client_reaches ?cl \<longrightarrow> client_reaches cl" by (auto intro: client_reaches.simple_queried)
  moreover have "kept (sy_connection sy) ns c2 = kept c1 ns c2" for ns
    using w by (auto simp: next_wait_def kept_def split: list.splits)
  ultimately show ?thesis using block_on_kept [OF b] r by (simp add: sync_step_def)
qed

lemma sync_step_close:
  assumes "sync_returns sync_close sy sy'"
  shows "sync_step sy sy'"
proof -
  let ?f = "\<lambda>s q done. (if done then Ready (Ok ()) else Pending, s, q) :: (unit, error) rresult poll \<times> unit \<times> notification list"
  obtain p s c where b: "poll_block_on ?f () (sy_connection sy) = (p, s, c)" by (rule prod_cases3)
  have "waits_for_queue ?f" by (auto simp: waits_for_queue_def)
  from poll_block_on_kept [OF this b] have "kept (sy_connection sy) [] c" by auto
  with assms b show ?thesis by (auto simp: sync_step_def sync_returns_def sync_close_def close_inner_def intro: client_reaches.closed)
qed

text \<open>The copies only use the connection.\<close>

lemma flush_inner_kept: "flush_inner w = (p, w') \<Longrightarrow> kept (wr_connection w) [] (wr_connection w')"
  by (auto simp: flush_inner_def kept_refl dest: block_on_kept split: if_splits prod.splits)

lemma cw_write_kept: "cw_write b w = (p, w') \<Longrightarrow> kept (wr_connection w) [] (wr_connection w')"
  by (auto simp: cw_write_def cw_flush_def kept_refl dest: flush_inner_kept split: if_splits prod.splits poll.splits rresult.splits)

lemma cw_finish_kept:
  assumes "cw_finish w = (p, w')"
  shows "kept (wr_connection w) [] (wr_connection w')"
proof -
  obtain q w1 where f: "flush_inner w = (q, w1)" by fastforce
  note k = flush_inner_kept [OF f]
  show ?thesis
  proof (cases q rule: poll_cases)
    case (1 x)
    obtain y st c where b: "block_on finish_poll (lp_value (wr_sink w1), wr_env w1) (wr_connection w1) = (y, st, c)" by (rule prod_cases3)
    with assms f 1 have "wr_connection w' = c" by (auto simp: cw_finish_def split: prod.splits)
    with kept_trans [OF k block_on_kept [OF b]] show ?thesis by simp
  qed (use assms f k in \<open>auto simp: cw_finish_def\<close>)
qed

lemma next_chunk_kept: "next_chunk rd = (p, rd') \<Longrightarrow> kept (rd_connection rd) [] (rd_connection rd')"
  by (auto simp: next_chunk_def block_on_op_def dest: block_on_or_kept split: prod.splits)

lemma fill_buf_kept: "fill_buf rd = (p, rd') \<Longrightarrow> kept (rd_connection rd) [] (rd_connection rd')"
proof (induction rd arbitrary: p rd' rule: fill_buf.induct)
  case (1 rd)
  show ?case
  proof (cases "rd_cur rd = []")
    case True
    obtain q rd1 where n: "next_chunk rd = (q, rd1)" by fastforce
    note k = next_chunk_kept [OF n]
    show ?thesis
    proof (cases q rule: poll_cases)
      case q: (1 x)
      show ?thesis
      proof (cases x)
        case (Some b)
        with "1.prems" True n q have "fill_buf (rd1\<lparr>rd_cur := b\<rparr>) = (p, rd')" by (subst (asm) fill_buf.simps) simp
        from "1.IH" [OF _ n [symmetric] q refl Some this] True kept_trans [OF k] show ?thesis by fastforce
      qed (use "1.prems" True n q k in \<open>subst (asm) fill_buf.simps, simp\<close>)
    qed (use "1.prems" True n k in \<open>subst (asm) fill_buf.simps, simp\<close>)+
  next
    case False
    with "1.prems" show ?thesis by (subst (asm) fill_buf.simps) (simp add: kept_refl)
  qed
qed

lemma cr_read_kept:
  assumes "cr_read n rd = (p, rd')"
  shows "kept (rd_connection rd) [] (rd_connection rd')"
proof -
  obtain q rd1 where f: "fill_buf rd = (q, rd1)" by fastforce
  have "rd_connection rd' = rd_connection rd1"
    using assms f by (cases q rule: poll_cases) (auto simp: cr_read_def consume_def Let_def split: if_splits)
  with fill_buf_kept [OF f] show ?thesis by simp
qed

lemma sync_step_copies:
  "list_all framed_poll ps \<Longrightarrow> sync_returns (sync_copy_in taken ps ts e) sy sy' \<Longrightarrow> sync_step sy sy'"
  "sync_returns (sync_copy_out ts) sy sy' \<Longrightarrow> sync_step sy sy'"
proof -
  assume ps: "list_all framed_poll ps" and "sync_returns (sync_copy_in taken ps ts e) sy sy'"
  then have "sync_returns (blocking (client_copy_in taken ps ts)) sy sy'"
    by (auto simp: sync_returns_def sync_copy_in_def split: prod.splits poll.splits)
  then show "sync_step sy sy'" by (rule sync_step_blocking) (rule client_reaches.copied_in [OF _ ps])
next
  assume "sync_returns (sync_copy_out ts) sy sy'"
  then have "sync_returns (blocking (client_copy_out ts)) sy sy'"
    by (auto simp: sync_returns_def sync_copy_out_def split: prod.splits poll.splits)
  then show "sync_step sy sy'" by (rule sync_step_blocking) (rule client_reaches.copied_out)
qed

lemma sync_step_calls:
  "sync_returns (sync_execute ts params) sy sy' \<Longrightarrow> sync_step sy sy'"
  "sync_returns (sync_execute_typed q typed) sy sy' \<Longrightarrow> sync_step sy sy'"
  "sync_returns (sync_query ts params) sy sy' \<Longrightarrow> sync_step sy sy'"
  "sync_returns (sync_query_one ts params) sy sy' \<Longrightarrow> sync_step sy sy'"
  "sync_returns (sync_query_opt ts params) sy sy' \<Longrightarrow> sync_step sy sy'"
  "sync_returns (sync_query_raw ts params) sy sy' \<Longrightarrow> sync_step sy sy'"
  "sync_returns (sync_query_typed q typed) sy sy' \<Longrightarrow> sync_step sy sy'"
  "sync_returns (sync_query_typed_one q typed) sy sy' \<Longrightarrow> sync_step sy sy'"
  "sync_returns (sync_query_typed_opt q typed) sy sy' \<Longrightarrow> sync_step sy sy'"
  "sync_returns (sync_query_typed_raw q typed) sy sy' \<Longrightarrow> sync_step sy sy'"
  "sync_returns (sync_prepare_typed q types) sy sy' \<Longrightarrow> sync_step sy sy'"
  "sync_returns (sync_simple_query q) sy sy' \<Longrightarrow> sync_step sy sy'"
  "sync_returns (sync_batch_execute q) sy sy' \<Longrightarrow> sync_step sy sy'"
  "sync_returns sync_check_connection sy sy' \<Longrightarrow> sync_step sy sy'"
  unfolding sync_execute_def sync_execute_typed_def sync_query_def sync_query_one_def sync_query_opt_def sync_query_raw_def
    sync_query_typed_def sync_query_typed_one_def sync_query_typed_opt_def sync_query_typed_raw_def sync_prepare_typed_def
    sync_simple_query_def sync_batch_execute_def sync_check_connection_def
  by (erule sync_step_blocking, erule (1) client_reaches.intros)+

lemma sync_step_transactions:
  "sync_returns (sync_builder_start b) sy sy' \<Longrightarrow> sync_step sy sy'"
  "sync_returns (sync_tx_savepoint nm st) sy sy' \<Longrightarrow> sync_step sy sy'"
  "sync_returns (sync_tx_transaction st) sy sy' \<Longrightarrow> sync_step sy sy'"
  "sync_returns (sync_tx_bind ts params st) sy sy' \<Longrightarrow> sync_step sy sy'"
  "sync_returns (sync_tx_query_portal p n st) sy sy' \<Longrightarrow> sync_step sy sy'"
  "sync_returns (sync_tx_query_portal_raw p n st) sy sy' \<Longrightarrow> sync_step sy sy'"
  unfolding sync_builder_start_def sync_tx_savepoint_def sync_tx_transaction_def sync_tx_bind_def sync_tx_query_portal_def
    sync_tx_query_portal_raw_def
  by ((drule sync_returns_then_tx)?, erule sync_step_blocking sync_step_in_transaction, erule (1) client_reaches.intros)+

lemma sync_step_tx_end:
  "sync_returns (sync_tx_commit st) sy sy' \<Longrightarrow> sync_step sy sy'"
  "sync_returns (sync_tx_rollback st) sy sy' \<Longrightarrow> sync_step sy sy'"
  "sync_returns (sync_tx_drop st) sy sy' \<Longrightarrow> sync_step sy sy'"
proof -
  assume "sync_returns (sync_tx_commit st) sy sy'"
  then obtain t where "sync_returns (ending commit t) sy sy'"
    by (cases "st_transaction st") (auto simp: sync_returns_def sync_tx_commit_def)
  then show "sync_step sy sy'" by (rule sync_step_ending) (rule client_reaches.committed)
next
  assume "sync_returns (sync_tx_rollback st) sy sy'"
  then obtain t where "sync_returns (ending rollback t) sy sy'"
    by (cases "st_transaction st") (auto simp: sync_returns_def sync_tx_rollback_def)
  then show "sync_step sy sy'" by (rule sync_step_ending) (rule client_reaches.rolled_back)
next
  assume d: "sync_returns (sync_tx_drop st) sy sy'"
  show "sync_step sy sy'"
  proof (cases "st_transaction st")
    case None
    with d show ?thesis by (simp add: sync_returns_def sync_tx_drop_def sync_step_def kept_refl)
  next
    case (Some t)
    with d have "sync_returns (ending rollback t) sy sy'"
      by (auto simp: sync_returns_def sync_tx_drop_def split: prod.splits poll.splits rresult.splits)
    then show ?thesis by (rule sync_step_ending) (rule client_reaches.rolled_back)
  qed
qed

lemma kept_call_nil: "kept c ns c1 \<Longrightarrow> kept c1 [] c2 \<Longrightarrow> kept c ns c2"
  using kept_trans [of c ns c1 "[]" c2] by simp

lemma row_iter_next_kept: "row_iter_next it c = (p, it', c') \<Longrightarrow> kept c [] c'"
  by (auto simp: row_iter_next_def block_on_op_def dest: block_on_or_kept)

definition sync_sound :: "conn_event list \<Rightarrow> sync_client \<Rightarrow> notification list \<Rightarrow> bool" where
  "sync_sound evs sy ns \<longleftrightarrow> client_reaches (sy_client sy) \<and> kept (sync_connection_new evs []) ns (sy_connection sy)"

lemma sync_sound_step: "sync_sound evs sy ns \<Longrightarrow> sync_step sy sy' \<Longrightarrow> sync_sound evs sy' ns"
  by (auto simp: sync_sound_def sync_step_def intro: kept_call_nil)

lemma sync_sound_kept: "sync_sound evs sy ns \<Longrightarrow> kept (sy_connection sy) ms c \<Longrightarrow> sync_sound evs (sy\<lparr>sy_connection := c\<rparr>) (ns @ ms)"
  by (auto simp: sync_sound_def intro: kept_trans)

lemma sync_sound_conn: "sync_sound evs sy ns \<Longrightarrow> kept (sy_connection sy) [] c \<Longrightarrow> sync_sound evs (sy\<lparr>sy_connection := c\<rparr>) ns"
  using sync_sound_kept [of evs sy ns "[]" c] by simp

lemma sync_reaches_sound: "sync_reaches evs sy ns \<Longrightarrow> sync_sound evs sy ns"
proof (induction rule: sync_reaches.induct)
  case (started waits script m n)
  show ?case
    by (simp add: sync_sound_def sync_client_new_def sync_connection_new_def kept_def client_reaches.connected)
next
  case (s_copy_in sy ns ps taken ts e sy')
  then show ?case by (blast intro: sync_sound_step sync_step_copies)
next
  case (s_row sy ns it p it' c)
  then show ?case by (blast intro: sync_sound_conn row_iter_next_kept)
next
  case (s_iter sy ns p c)
  then show ?case by (blast intro: sync_sound_kept iter_next_kept)
next
  case (s_blocking_iter sy ns p c)
  then show ?case by (blast intro: sync_sound_kept blocking_next_kept)
next
  case (s_timeout_iter sy ns t p t' c)
  then show ?case by (blast intro: sync_sound_kept timeout_next_kept)
next
  case (s_copy_write sy ns b w p w')
  then show ?case using cw_write_kept [of b w p w'] by (intro sync_sound_conn) simp_all
next
  case (s_copy_flush sy ns w p w')
  then show ?case using flush_inner_kept [of w p w'] by (intro sync_sound_conn) (simp_all add: cw_flush_def)
next
  case (s_copy_finish sy ns w k w')
  then show ?case using cw_finish_kept [of w k w'] by (intro sync_sound_conn) simp_all
next
  case (s_copy_read sy ns n rd b rd')
  then show ?case using cr_read_kept [of n rd b rd'] by (intro sync_sound_conn) simp_all
qed (erule sync_sound_step, erule sync_step_calls sync_step_transactions sync_step_tx_end sync_step_is_valid sync_step_close sync_step_copies)+


definition sample_events :: "conn_event list" where
  "sample_events = [EvMessage (AsyncNotification 7 ''jobs'' ''first''), EvPending]"


section \<open>A connection that does not fail\<close>

text \<open>
  A connection is calm when it neither fails nor panics and wakes the thread often enough: a call
  whose future is pending \<open>n\<close> times needs \<open>n\<close> wake-ups, and its last round may take one more.
\<close>

definition quiet_event :: "conn_event \<Rightarrow> bool" where
  "quiet_event ev \<longleftrightarrow> (case ev of EvError _ \<Rightarrow> False | EvPanic \<Rightarrow> False | _ \<Rightarrow> True)"

definition round_end :: "conn_event \<Rightarrow> bool" where
  "round_end ev \<longleftrightarrow> (case ev of EvMessage _ \<Rightarrow> False | _ \<Rightarrow> True)"

definition rounds :: "conn_event list \<Rightarrow> nat" where
  "rounds es = length (filter round_end es)"

definition calm :: "sync_conn \<Rightarrow> bool" where
  "calm c \<longleftrightarrow> list_all quiet_event (sc_events c) \<and> sum_list (map Suc (sc_waits c)) \<le> rounds (sc_events c)"

lemma conn_drain_calm:
  "list_all quiet_event es \<Longrightarrow> conn_drain es q ns = (r, es', q', ns') \<Longrightarrow>
    (\<exists>d. r = Ok d) \<and> list_all quiet_event es' \<and> rounds es \<le> Suc (rounds es') \<and> (rounds es \<noteq> 0 \<longrightarrow> es \<noteq> [])"
  by (induction es q ns rule: conn_drain.induct) (auto simp: quiet_event_def rounds_def round_end_def)

lemma drained_calm:
  assumes "list_all quiet_event (sc_events c)" and "drained c = (r, c')"
  shows "\<exists>d. r = Ok d" "list_all quiet_event (sc_events c')" "rounds (sc_events c) \<le> Suc (rounds (sc_events c'))"
    "sc_waits c' = sc_waits c"
  using assms(2) conn_drain_calm [OF assms(1)] by (auto simp: drained_def split: prod.splits)

lemma block_on_op_future_calm:
  assumes "list_all quiet_event (sc_events c)" and "n \<le> rounds (sc_events c)"
    and "(case x of None \<Rightarrow> m s | Some r \<Rightarrow> (r, s)) = (r, s')" and "r \<noteq> Panic \<or> x = None"
  shows "\<exists>k c'. block_on (op_future m) (n, s, x) c = (Ready r, (k, s', Some r), c') \<and> list_all quiet_event (sc_events c') \<and>
    rounds (sc_events c) \<le> Suc n + rounds (sc_events c') \<and> sc_waits c' = sc_waits c"
  using assms
proof (induction n arbitrary: s x c)
  case 0
  obtain d c1 where d: "drained c = (Ok d, c1)" using drained_calm(1) [OF "0.prems"(1)] by (cases "drained c") blast
  show ?case
    unfolding block_on_def
    by (subst poll_block_on.simps) (use d drained_calm [OF "0.prems"(1) d] "0.prems"(3) in \<open>cases r; simp add: op_future_def\<close>)
next
  case (Suc n)
  obtain d c1 where d: "drained c = (Ok d, c1)" using drained_calm(1) [OF Suc.prems(1)] by (cases "drained c") blast
  note c1 = drained_calm [OF Suc.prems(1) d]
  have ne: "sc_events c \<noteq> []" using Suc.prems(2) by (auto simp: rounds_def)
  show ?case
  proof (cases "r = Panic")
    case True
    show ?thesis
      unfolding block_on_def
      by (subst poll_block_on.simps) (use d c1 Suc.prems(3) True in \<open>simp add: op_future_def\<close>)
  next
    case False
    have "block_on (op_future m) (Suc n, s, x) c = block_on (op_future m) (n, s', Some r) c1"
      unfolding block_on_def
      by (subst poll_block_on.simps, use d Suc.prems(3) False ne in \<open>cases r; simp add: op_future_def\<close>)
    moreover have "n \<le> rounds (sc_events c1)" using c1(3) Suc.prems(2) by simp
    ultimately show ?thesis using Suc.IH [where c = c1 and x = "Some r" and s = s'] c1 False by auto
  qed
qed

lemma block_on_or_calm:
  assumes "calm c"
  shows "\<exists>c'. block_on_or m d s c = (Ready (fst (m s)), snd (m s), c') \<and> calm c'"
proof -
  obtain n c1 where w: "next_wait c = (n, c1)" by fastforce
  have c1: "list_all quiet_event (sc_events c1)" "n \<le> rounds (sc_events c1)"
      "sc_waits c \<noteq> [] \<Longrightarrow> sum_list (map Suc (sc_waits c1)) + Suc n \<le> rounds (sc_events c1)"
      "sc_waits c = [] \<Longrightarrow> sc_waits c1 = []"
    using assms w by (auto simp: calm_def next_wait_def split: list.splits)
  obtain r s' where m: "m s = (r, s')" by fastforce
  obtain k c' where b: "block_on (op_future m) (n, s, None) c1 = (Ready r, (k, s', Some r), c')"
      "list_all quiet_event (sc_events c')" "rounds (sc_events c1) \<le> Suc n + rounds (sc_events c')" "sc_waits c' = sc_waits c1"
    using block_on_op_future_calm [OF c1(1,2), where x = None and m = m and s = s and r = r and s' = s'] m by auto
  have "calm c'" using b c1(3,4) by (cases "sc_waits c") (auto simp: calm_def)
  with w b(1) m show ?thesis by (simp add: block_on_or_def)
qed

end
