(* ===== verification/SyncCopySpec.thy ===== *)
theory SyncCopySpec
  imports SyncSpec
begin

text \<open>
  The calls of the synchronous client on a connection that does not fail, the copies of
  \<open>SyncCopy\<close>, and two places where the synchronous client is not what its documentation says.
\<close>

section \<open>The calls\<close>

text \<open>The call returns what the asynchronous operation returns and leaves the client as that does.\<close>

definition like_async :: "'a sync_op \<Rightarrow> 'a client_op \<Rightarrow> sync_client \<Rightarrow> bool" where
  "like_async S m sy \<longleftrightarrow>
     (\<exists>c. calm c \<and> S sy = (Ready (fst (m (sy_client sy))), \<lparr>sy_connection = c, sy_client = snd (m (sy_client sy))\<rparr>))"

lemma like_async_blocking_or: "calm (sy_connection sy) \<Longrightarrow> like_async (blocking_or m d) m sy"
  using block_on_or_calm [of "sy_connection sy" m d "sy_client sy"] by (auto simp: like_async_def blocking_or_def)

lemma like_async_blocking: "calm (sy_connection sy) \<Longrightarrow> like_async (blocking m) m sy"
  by (simp add: blocking_def like_async_blocking_or)

text \<open>
  C16. On a connection that does not fail every call of the synchronous client returns, with the
  result of the asynchronous operation and the state it leaves, however long the futures wait and
  whatever messages arrive in between; and the connection is fit for the next call.
\<close>

theorem sync_like_async:
  assumes "calm (sy_connection sy)"
  shows "like_async (sync_execute ts params) (client_execute ts params) sy \<and>
    like_async (sync_execute_typed q typed) (execute_typed q typed) sy \<and>
    like_async (sync_query ts params) (client_query ts params) sy \<and>
    like_async (sync_query_one ts params) (client_query_one ts params) sy \<and>
    like_async (sync_query_opt ts params) (client_query_opt ts params) sy \<and>
    like_async (sync_query_raw ts params) (client_query_raw ts params) sy \<and>
    like_async (sync_query_typed q typed) (client_query_typed q typed) sy \<and>
    like_async (sync_prepare_typed q types) (prepare q types) sy \<and>
    like_async (sync_simple_query q) (client_simple_query q) sy \<and>
    like_async (sync_batch_execute q) (batch_execute q) sy \<and>
    like_async sync_check_connection check_connection sy \<and>
    like_async (sync_tx_commit \<lparr>st_transaction = Some t\<rparr>) (commit t) sy \<and>
    like_async (sync_tx_rollback \<lparr>st_transaction = Some t\<rparr>) (rollback t) sy"
proof -
  have "sync_tx_commit \<lparr>st_transaction = Some t\<rparr> = blocking_or (commit t) (transaction_drop t)"
    "sync_tx_rollback \<lparr>st_transaction = Some t\<rparr> = blocking_or (rollback t) (transaction_drop t)"
    by (simp_all add: sync_tx_commit_def sync_tx_rollback_def ending_def fun_eq_iff)
  note tx = this
  show ?thesis
    unfolding tx sync_execute_def sync_execute_typed_def sync_query_def sync_query_one_def sync_query_opt_def sync_query_raw_def
      sync_query_typed_def sync_prepare_typed_def sync_simple_query_def sync_batch_execute_def sync_check_connection_def
    by (intro conjI like_async_blocking like_async_blocking_or assms)
qed

theorem sync_like_async_witness:
  "\<exists>c. calm c \<and> sync_batch_execute ''SELECT 1'' \<lparr>sy_connection = sync_connection_new [EvPending, EvPending, EvDone] [2], sy_client = willing 1\<rparr> =
     (Ready (Ok ()), \<lparr>sy_connection = c, sy_client = answered ''SELECT 1'' (willing 1)\<rparr>)"
proof -
  let ?sy = "\<lparr>sy_connection = sync_connection_new [EvPending, EvPending, EvDone] [2], sy_client = willing 1\<rparr>"
  have "answering [''SELECT 1''] (willing 1)" by (rule willing_answers) (simp_all add: text_ok_def)
  then have b: "batch_execute ''SELECT 1'' (willing 1) = (Ok (), answered ''SELECT 1'' (willing 1))" by (rule batch_ok)
  have "calm (sy_connection ?sy)"
    by (simp add: calm_def sync_connection_new_def quiet_event_def rounds_def round_end_def)
  then have "like_async (sync_batch_execute ''SELECT 1'') (batch_execute ''SELECT 1'') ?sy"
    using sync_like_async [of ?sy, where q = "''SELECT 1''"] by blast
  with b show ?thesis by (simp add: like_async_def)
qed

section \<open>Copying in\<close>

text \<open>What has been written is in the sink or in the buffer of the writer.\<close>

definition wrote :: "bytes \<Rightarrow> copy_in_writer \<Rightarrow> bool" where
  "wrote d w \<longleftrightarrow> (\<exists>d1. active d1 (lp_value (wr_sink w)) \<and> d1 @ wr_buf w = d)"

lemma send_poll_called:
  assumes "active d s" and "block_on send_poll (Some b, s, e) c = (p, (x, s', e'), c')"
  shows "p = Ready (Ok ()) \<longrightarrow> active (d @ b) s'"
proof -
  let ?I = "\<lambda>(x, s, e). case x of None \<Rightarrow> active (d @ b) s | Some y \<Rightarrow> y = b \<and> active d s"
  let ?J = "\<lambda>r (x, s, e). r = Ok () \<longrightarrow> active (d @ b) s"
  have fl: "ends (\<lambda>s. active (d @ b) s \<and> si_buf s = []) (active (d @ b)) incomplete q t" if "active (d @ b) s1" "sink_poll_flush s1 e1 = (q, t, e2)" for s1 e1 q t e2
    by (rule pollsD [OF polls_flush that])
  have pr: "polls (active d) sink_poll_ready (active d) (active d) (\<lambda>_. True)"
    unfolding sink_poll_ready_def by (rule polls_channel) simp_all
  have step: "(case q of Pending \<Rightarrow> ?I st' | Ready r \<Rightarrow> ?J r st')" if i: "?I st" and m: "send_poll st = (q, st')" for st q st'
  proof -
    obtain x1 s1 e1 where st: "st = (x1, s1, e1)" by (cases st) blast
    show ?thesis
    proof (cases x1)
      case None
      obtain q2 s2 e2 where f: "sink_poll_flush s1 e1 = (q2, s2, e2)" by (rule prod_cases3)
      from i st None fl [OF _ f] have "ends (\<lambda>s. active (d @ b) s \<and> si_buf s = []) (active (d @ b)) incomplete q2 s2" by simp
      with m st None f show ?thesis by (cases q2 rule: poll_cases) auto
    next
      case (Some y)
      with i st have y: "y = b" "active d s1" by auto
      obtain q2 s2 e2 where r: "sink_poll_ready s1 e1 = (q2, s2, e2)" by (rule prod_cases3)
      have ready: "ends (active d) (active d) (\<lambda>_. True) q2 s2"
        by (rule pollsD [OF pr y(2) r])
      show ?thesis
      proof (cases q2 rule: poll_cases)
        case (1 u)
        obtain q3 s3 e3 where ss: "sink_start_send b s2 e2 = (q3, s3, e3)" by (rule prod_cases3)
        have start: "ends (active (d @ b)) (active (d @ b)) incomplete q3 s3"
          by (rule pollsD [OF polls_start_send _ ss]) (use ready 1 in simp)
        show ?thesis
        proof (cases q3 rule: poll_cases)
          case q3: (1 v)
          obtain q4 s4 e4 where f: "sink_poll_flush s3 e3 = (q4, s4, e4)" by (rule prod_cases3)
          from fl [OF _ f] start q3 have "ends (\<lambda>s. active (d @ b) s \<and> si_buf s = []) (active (d @ b)) incomplete q4 s4" by simp
          with m st Some y r 1 ss q3 f show ?thesis by (cases q4 rule: poll_cases) auto
        qed (use m st Some y r 1 ss start in auto)
      qed (use m st Some y r ready in auto)
    qed
  qed
  have "called ?I ?J p (x, s', e')"
    by (rule block_on_called [OF _ _ _ assms(2)]) (use step assms(1) in \<open>fastforce+\<close>)
  then show ?thesis by (auto simp: called_def)
qed

lemma finish_poll_called:
  assumes "going d s" and "block_on finish_poll (s, e) c = (Ready (Ok k), (s', e'), c')"
  shows "sent_all d s'"
proof -
  have step: "ends (sent_all d) (going d) (left d) q s2" if "going d s1" "finish_poll (s1, e1) = (q, s2, e2)" for s1 e1 q s2 e2
    by (rule pollsD [OF polls_finish that(1)]) (use that(2) in \<open>simp add: finish_poll_def\<close>)
  have "called (\<lambda>(s, e). going d s) (\<lambda>r (s, e). (\<exists>k. r = Ok k) \<longrightarrow> sent_all d s) (Ready (Ok k)) (s', e')"
    by (rule block_on_called [OF _ _ _ assms(2)]) (use step assms(1) in \<open>fastforce+\<close>)
  then show ?thesis by (simp add: called_def)
qed

lemma flush_inner_wrote:
  assumes "wrote d w" and "flush_inner w = (Ready (Ok u), w')"
  shows "wrote d w' \<and> wr_buf w' = []"
proof (cases "wr_buf w = []")
  case True
  with assms show ?thesis by (simp add: flush_inner_def)
next
  case False
  obtain d1 where d1: "active d1 (lp_value (wr_sink w))" "d1 @ wr_buf w = d" using assms(1) unfolding wrote_def by blast
  obtain p x s e c where b: "block_on send_poll (Some (wr_buf w), lp_value (wr_sink w), wr_env w) (wr_connection w) = (p, (x, s, e), c)"
    by (metis prod.collapse)
  from send_poll_called [OF d1(1) b] b False assms(2) d1(2) show ?thesis by (auto simp: flush_inner_def wrote_def)
qed

datatype cw_call = CwWrite bytes | CwFlush

fun cw_data :: "cw_call list \<Rightarrow> bytes" where
  "cw_data [] = []"
| "cw_data (CwWrite b # cs) = b @ cw_data cs"
| "cw_data (CwFlush # cs) = cw_data cs"

text \<open>A run of the writer: it stops at the first call that is not \<open>Ok\<close>.\<close>

definition cw_call_run :: "cw_call \<Rightarrow> unit cw_op" where
  "cw_call_run call w =
     (case call of
        CwWrite b \<Rightarrow> (case cw_write b w of (Ready r, w) \<Rightarrow> (Ready (map_ok (\<lambda>_. ()) r), w) | (Pending, w) \<Rightarrow> (Pending, w))
      | CwFlush \<Rightarrow> cw_flush w)"

fun run_writer :: "cw_call list \<Rightarrow> unit cw_op" where
  "run_writer [] w = (Ready (Ok ()), w)"
| "run_writer (call # cs) w =
     (case cw_call_run call w of
        (Ready (Ok _), w) \<Rightarrow> run_writer cs w
      | r \<Rightarrow> r)"

lemma cw_write_wrote:
  assumes "wrote d w" and "cw_write b w = (Ready (Ok n), w')"
  shows "wrote (d @ b) w' \<and> n = length b"
proof (cases "length (wr_buf w) > 4096")
  case True
  obtain q w1 where f: "flush_inner w = (q, w1)" by fastforce
  with assms True obtain u where q: "q = Ready (Ok u)" by (cases q rule: poll_cases) (simp_all add: cw_write_def cw_flush_def)
  from flush_inner_wrote [OF assms(1) f [unfolded q]] assms(2) f q True show ?thesis
    by (auto simp: cw_write_def cw_flush_def wrote_def)
next
  case False
  with assms show ?thesis by (auto simp: cw_write_def wrote_def)
qed

lemma run_writer_wrote:
  "wrote d w \<Longrightarrow> run_writer calls w = (Ready (Ok u), w') \<Longrightarrow> wrote (d @ cw_data calls) w'"
proof (induction calls arbitrary: d w)
  case (Cons call calls)
  obtain q w1 where r: "cw_call_run call w = (q, w1)" by fastforce
  with Cons.prems(2) obtain v where q: "q = Ready (Ok v)" and run: "run_writer calls w1 = (Ready (Ok u), w')"
    by (cases q rule: poll_cases) auto
  show ?case
  proof (cases call)
    case (CwWrite b)
    with r q obtain n where "cw_write b w = (Ready (Ok n), w1)"
      by (auto simp: cw_call_run_def split: prod.splits poll.splits)
    from cw_write_wrote [OF Cons.prems(1) this] Cons.IH [OF _ run] CwWrite show ?thesis by fastforce
  next
    case CwFlush
    with r q have "flush_inner w = (Ready (Ok v), w1)" by (simp add: cw_call_run_def cw_flush_def)
    from flush_inner_wrote [OF Cons.prems(1) this] Cons.IH [OF _ run] CwFlush show ?thesis by simp
  qed
qed simp

text \<open>
  C27. A synchronous copy sends what was written. If all writes and flushes of a writer and its
  \<open>finish\<close> return \<open>Ok\<close>, whatever the sizes and whatever the connection and the channel did in
  between, the server has been sent in valid chunks exactly the bytes written, in order, and then
  \<open>CopyDone\<close>.
\<close>

theorem sync_copy_in_exact:
  assumes "run_writer calls (copy_in_writer_new c e (sink_new r)) = (Ready (Ok ()), w)" and "cw_finish w = (Ready (Ok k), w')"
  shows "\<exists>cs. valid_chunks cs \<and> si_sent (lp_value (wr_sink w')) = chunk_messages cs @ [CopyInDone] \<and> payload cs = cw_data calls"
proof -
  have "wrote [] (copy_in_writer_new c e (sink_new r))"
    by (auto simp: wrote_def copy_in_writer_new_def lazy_pin_new_def active_def sink_new_def intro!: exI [of _ "[]"])
  from run_writer_wrote [OF this assms(1)] have w: "wrote (cw_data calls) w" by simp
  obtain q w1 where f: "flush_inner w = (q, w1)" by fastforce
  with assms(2) obtain u where q: "q = Ready (Ok u)" by (cases q rule: poll_cases) (simp_all add: cw_finish_def)
  from flush_inner_wrote [OF w f [unfolded q]] have "going (cw_data calls) (lp_value (wr_sink w1))"
    by (auto simp: wrote_def going_def)
  moreover obtain p s e1 c1 where b: "block_on finish_poll (lp_value (wr_sink w1), wr_env w1) (wr_connection w1) = (p, (s, e1), c1)"
    by (metis prod.collapse)
  moreover from this assms(2) f q have "p = Ready (Ok k)" "lp_value (wr_sink w') = s" by (auto simp: cw_finish_def)
  ultimately have "sent_all (cw_data calls) (lp_value (wr_sink w'))" using finish_poll_called by blast
  then show ?thesis by (simp add: sent_all_def)
qed

lemma block_on_ready:
  assumes "sc_events c = []" and "m s = (Ready r, s')"
  shows "block_on m s c = (Ready r, s', c)"
  unfolding block_on_def by (subst poll_block_on.simps) (simp add: assms drained_def)

lemma sample_send_poll:
  "b \<noteq> [] \<Longrightarrow> length b \<le> 4096 \<Longrightarrow> send_poll (Some b, sink_new r, sample_env) =
    (Ready (Ok ()), None, sink_new r\<lparr>si_sent := [CopyMessage (CopyDataMessage \<lparr>cd_buf = b, cd_len = of_nat (length b + 4)\<rparr>)]\<rparr>,
     sample_env\<lparr>ce_ready := [Ready True], ce_send := [True], ce_flush := [Ready True]\<rparr>)"
  by (simp add: then_ready_def sink_poll_ready_def channel_ready_def sink_start_send_def
      sink_poll_flush_def send_data_def channel_send_def channel_flush_def sink_return_def sample_env_def sink_new_def
      closed_unless_def sample_data next_poll_def)

lemma sample_finish_poll:
  "\<exists>s e. finish_poll (sink_new sample_answer\<lparr>si_sent := ms\<rparr>,
     sample_env\<lparr>ce_ready := [Ready True], ce_send := [True], ce_flush := [Ready True]\<rparr>) = (Ready (Ok 1), s, e)"
  using sample_next sample_tag
  by (auto simp: finish_poll_def poll_finish_def finish_active_def finish_closing_def finish_reading_def
      then_ready_def sink_poll_flush_def channel_ready_def channel_flush_def channel_send_def channel_close_def set_state_def
      sink_return_def closed_unless_def sink_new_def sample_env_def next_poll_def)

theorem sync_copy_in_exact_witness:
  "\<exists>w w'. run_writer [CwWrite [104], CwWrite [105, 106]] (copy_in_writer_new (sync_connection_new [] []) sample_env (sink_new sample_answer)) = (Ready (Ok ()), w) \<and>
     cw_finish w = (Ready (Ok 1), w') \<and>
     (\<exists>cs. valid_chunks cs \<and> si_sent (lp_value (wr_sink w')) = chunk_messages cs @ [CopyInDone] \<and> payload cs = [104, 105, 106])"
proof -
  let ?b = "[104, 105, 106] :: bytes"
  let ?fresh = "copy_in_writer_new (sync_connection_new [] []) sample_env (sink_new sample_answer)"
  let ?w = "?fresh\<lparr>wr_buf := ?b\<rparr>"
  have 1: "run_writer [CwWrite [104], CwWrite [105, 106]] ?fresh = (Ready (Ok ()), ?w)"
    by (simp add: cw_call_run_def cw_write_def copy_in_writer_new_def)
  let ?c = "sync_connection_new [] []"
  let ?s = "sink_new sample_answer\<lparr>si_sent := [CopyMessage (CopyDataMessage \<lparr>cd_buf = ?b, cd_len = of_nat (length ?b + 4)\<rparr>)]\<rparr>"
  let ?e = "sample_env\<lparr>ce_ready := [Ready True], ce_send := [True], ce_flush := [Ready True]\<rparr>"
  have c: "sc_events ?c = []" by (simp add: sync_connection_new_def)
  have "block_on send_poll (Some ?b, sink_new sample_answer, sample_env) ?c = (Ready (Ok ()), (None, ?s, ?e), ?c)"
    by (rule block_on_ready [where m = send_poll, OF c], rule sample_send_poll) simp_all
  then have f: "flush_inner ?w = (Ready (Ok ()), ?w\<lparr>wr_sink := \<lparr>lp_value = ?s, lp_pinned = True\<rparr>, wr_buf := [], wr_env := ?e\<rparr>)"
    by (simp add: flush_inner_def copy_in_writer_new_def lazy_pin_new_def)
  obtain s e where "finish_poll (?s, ?e) = (Ready (Ok 1), s, e)" using sample_finish_poll by blast
  from block_on_ready [where m = finish_poll, OF c this] f have "\<exists>w'. cw_finish ?w = (Ready (Ok 1), w')"
    by (simp add: cw_finish_def copy_in_writer_new_def)
  then obtain w' where 2: "cw_finish ?w = (Ready (Ok 1), w')" by blast
  from 1 2 sync_copy_in_exact [OF 1 2] show ?thesis by (intro exI [of _ ?w] exI [of _ w'] conjI) simp_all
qed

text \<open>
  \<open>BinaryCopyInWriter::new\<close> refuses a writer that has been written to, as its message says, but it
  only sees whether something was sent. What a first \<open>write\<close> has put into the writer's buffer, whatever its
  size, is dropped without an error: the binary writer is the one of a fresh copy.
\<close>

theorem unflushed_write_lost:
  "\<exists>w bw. cw_write b (copy_in_writer_new c e s) = (Ready (Ok (length b)), w) \<and> wr_buf w = b \<and>
     sync_writer_new w types = Ok bw \<and> sync_writer_new (copy_in_writer_new c e s) types = Ok bw"
  by (simp add: cw_write_def copy_in_writer_new_def sync_writer_new_def into_unpinned_def lazy_pin_new_def)

section \<open>Copying out\<close>

text \<open>A reader with \<open>d\<close> to come, and the messages \<open>ms\<close> after the end of the data.\<close>

definition still_reads :: "bytes \<Rightarrow> message list \<Rightarrow> copy_out_reader \<Rightarrow> bool" where
  "still_reads d ms rd \<longleftrightarrow> calm (rd_connection rd) \<and>
     (\<exists>bs. delivers (lp_value (rd_stream rd)) (map CopyData bs @ CopyDone # ms) \<and> rd_cur rd @ concat bs = d)"

definition at_end :: "message list \<Rightarrow> copy_out_reader \<Rightarrow> bool" where
  "at_end ms rd \<longleftrightarrow> calm (rd_connection rd) \<and> rd_cur rd = [] \<and> delivers (lp_value (rd_stream rd)) ms"

lemma next_chunk_calm:
  assumes "calm (rd_connection rd)" and "copy_out_next (lp_value (rd_stream rd)) = (x, r)"
  shows "\<exists>c. calm c \<and> next_chunk rd = (Ready x, rd\<lparr>rd_connection := c, rd_stream := \<lparr>lp_value = r, lp_pinned = True\<rparr>\<rparr>)"
  using block_on_or_calm [OF assms(1), of copy_out_next "\<lambda>s. (Ok (), s)" "lp_value (rd_stream rd)"] assms(2)
  by (auto simp: next_chunk_def block_on_op_def)

lemma copy_out_next_delivers:
  assumes "delivers r (m # ms)"
  obtains r' where "delivers r' ms" "copy_out_next r = (rbind (message_result m)
      (\<lambda>m. case m of CopyData b \<Rightarrow> Ok (Some b) | CopyDone \<Rightarrow> Ok None | _ \<Rightarrow> Err err_unexpected_message), r')"
proof -
  obtain r' where "responses_next r = (message_result m, r')" "delivers r' ms" by (rule delivers_next [OF assms])
  then show ?thesis by (intro that [of r']) (auto simp: copy_out_next_def split: rresult.split message.split)
qed

lemma fill_buf_reads:
  "still_reads d ms rd \<Longrightarrow> \<exists>b rd'. fill_buf rd = (Ready (Ok b), rd') \<and>
     (if d = [] then b = [] \<and> at_end ms rd' else b \<noteq> [] \<and> rd_cur rd' = b \<and> still_reads d ms rd')"
proof (induction rd rule: fill_buf.induct)
  case (1 rd)
  show ?case
  proof (cases "rd_cur rd = []")
    case False
    with "1.prems" show ?thesis by (subst fill_buf.simps) (auto simp: still_reads_def)
  next
    case True
    from "1.prems" True obtain bs where bs: "calm (rd_connection rd)"
        "delivers (lp_value (rd_stream rd)) (map CopyData bs @ CopyDone # ms)" "concat bs = d"
      by (auto simp: still_reads_def)
    show ?thesis
    proof (cases bs)
      case Nil
      with bs obtain r' where r': "delivers r' ms" "copy_out_next (lp_value (rd_stream rd)) = (Ok None, r')"
        using copy_out_next_delivers [of "lp_value (rd_stream rd)" CopyDone ms] by (auto simp: message_result_def)
      from next_chunk_calm [OF bs(1) r'(2)] True Nil bs r' show ?thesis by (subst fill_buf.simps) (auto simp: at_end_def)
    next
      case (Cons b bs')
      with bs obtain r' where r': "delivers r' (map CopyData bs' @ CopyDone # ms)"
          "copy_out_next (lp_value (rd_stream rd)) = (Ok (Some b), r')"
        using copy_out_next_delivers [of "lp_value (rd_stream rd)" "CopyData b" "map CopyData bs' @ CopyDone # ms"]
        by (auto simp: message_result_def)
      from next_chunk_calm [OF bs(1) r'(2)] obtain c where
        c: "calm c" "next_chunk rd = (Ready (Ok (Some b)), rd\<lparr>rd_connection := c, rd_stream := \<lparr>lp_value = r', lp_pinned = True\<rparr>\<rparr>)"
        by blast
      let ?rd = "rd\<lparr>rd_connection := c, rd_stream := \<lparr>lp_value = r', lp_pinned = True\<rparr>\<rparr>"
      have "still_reads d ms (?rd\<lparr>rd_cur := b\<rparr>)" using c(1) r'(1) bs(3) Cons by (auto simp: still_reads_def)
      from "1.IH" [OF _ c(2) [symmetric] refl refl refl this] True c(2) show ?thesis
        by (subst fill_buf.simps) simp
    qed
  qed
qed

text \<open>Reading with buffers of the given sizes until a read returns nothing.\<close>

fun read_to_end :: "nat list \<Rightarrow> bytes rd_op" where
  "read_to_end [] rd = (Pending, rd)"
| "read_to_end (n # ns) rd =
     (case cr_read n rd of
        (Ready (Ok b), rd) \<Rightarrow>
          if b = [] then (Ready (Ok []), rd)
          else (case read_to_end ns rd of
                  (Ready r, rd) \<Rightarrow> (Ready (map_ok (append b) r), rd)
                | (Pending, rd) \<Rightarrow> (Pending, rd))
      | r \<Rightarrow> r)"

lemma cr_read_reads:
  assumes "still_reads d ms rd" and "0 < n"
  shows "\<exists>b rd'. cr_read n rd = (Ready (Ok b), rd') \<and>
     (if d = [] then b = [] \<and> at_end ms rd' else b \<noteq> [] \<and> (\<exists>d'. d = b @ d' \<and> still_reads d' ms rd'))"
proof -
  obtain b rd' where f: "fill_buf rd = (Ready (Ok b), rd')"
    and k: "if d = [] then b = [] \<and> at_end ms rd' else b \<noteq> [] \<and> rd_cur rd' = b \<and> still_reads d ms rd'"
    using fill_buf_reads [OF assms(1)] by blast
  show ?thesis
  proof (cases "d = []")
    case True
    with f k have "cr_read n rd = (Ready (Ok []), rd'\<lparr>rd_cur := drop 0 (rd_cur rd')\<rparr>)" by (simp add: cr_read_def consume_def)
    with True k show ?thesis by (auto simp: at_end_def)
  next
    case False
    let ?l = "min n (length b)"
    from False k obtain bs where b: "b \<noteq> []" "rd_cur rd' = b" "calm (rd_connection rd')"
        "delivers (lp_value (rd_stream rd')) (map CopyData bs @ CopyDone # ms)" "b @ concat bs = d"
      by (auto simp: still_reads_def)
    have "cr_read n rd = (Ready (Ok (take ?l b)), rd'\<lparr>rd_cur := drop ?l b\<rparr>)"
      using f b(2) by (simp add: cr_read_def consume_def Let_def)
    moreover have "take ?l b \<noteq> []" using b(1) assms(2) by simp
    moreover have "d = take ?l b @ drop ?l b @ concat bs" using b(5) by (metis append.assoc append_take_drop_id)
    moreover have "still_reads (drop ?l b @ concat bs) ms (rd'\<lparr>rd_cur := drop ?l b\<rparr>)"
      using b(3,4) by (auto simp: still_reads_def)
    ultimately show ?thesis using False by auto
  qed
qed

lemma read_to_end_reads:
  "still_reads d ms rd \<Longrightarrow> list_all (\<lambda>n. 0 < n) ns \<Longrightarrow> length d < length ns \<Longrightarrow>
     \<exists>rd'. read_to_end ns rd = (Ready (Ok d), rd') \<and> at_end ms rd'"
proof (induction ns arbitrary: d rd)
  case (Cons n ns)
  obtain b rd1 where r: "cr_read n rd = (Ready (Ok b), rd1)"
    and k: "if d = [] then b = [] \<and> at_end ms rd1 else b \<noteq> [] \<and> (\<exists>d'. d = b @ d' \<and> still_reads d' ms rd1)"
    using cr_read_reads [OF Cons.prems(1), of n] Cons.prems(2) by auto
  show ?case
  proof (cases "d = []")
    case False
    with k have "b \<noteq> [] \<and> (\<exists>d'. d = b @ d' \<and> still_reads d' ms rd1)" by simp
    then obtain d' where d': "b \<noteq> []" "d = b @ d'" "still_reads d' ms rd1" by blast
    have "length d' < length ns" using d'(1,2) Cons.prems(3) by (cases b) simp_all
    moreover have "list_all (\<lambda>n. 0 < n) ns" using Cons.prems(2) by simp
    ultimately obtain rd' where "read_to_end ns rd1 = (Ready (Ok d'), rd')" "at_end ms rd'" using Cons.IH [OF d'(3)] by blast
    with r d'(1,2) show ?thesis by simp
  qed (use k r in simp)
qed simp

lemma read_past_end:
  assumes "at_end (CommandComplete body # ms) rd"
  shows "fst (cr_read n rd) = Ready (Err err_unexpected_message)"
proof -
  from assms obtain r' where "copy_out_next (lp_value (rd_stream rd)) = (Err err_unexpected_message, r')"
    using copy_out_next_delivers [of "lp_value (rd_stream rd)" "CommandComplete body" ms] by (auto simp: at_end_def message_result_def)
  from next_chunk_calm [OF _ this] assms obtain rd' where "next_chunk rd = (Ready (Err err_unexpected_message), rd')"
    by (auto simp: at_end_def)
  with assms have "fill_buf rd = (Ready (Err err_unexpected_message), rd')" by (subst fill_buf.simps) (simp add: at_end_def)
  then show ?thesis by (simp add: cr_read_def)
qed

text \<open>
  C28. A synchronous reader gives exactly the data. On a connection that does not fail, reading with
  buffers of any sizes but 0 until a read returns nothing gives the concatenation of the chunks the
  server sent, empty chunks among them or not. But nothing remembers the end: one more read polls
  the stream again, meets \<open>CommandComplete\<close>, and is an error.
\<close>

theorem sync_copy_out_exact:
  assumes "calm c" and "delivers r (map CopyData bs @ CopyDone # CommandComplete body # ms)"
    and "list_all (\<lambda>n. 0 < n) ns" and "length (concat bs) < length ns"
  shows "\<exists>rd. read_to_end ns (copy_out_reader_new c r) = (Ready (Ok (concat bs)), rd) \<and>
    (\<forall>n. fst (cr_read n rd) = Ready (Err err_unexpected_message))"
proof -
  have "still_reads (concat bs) (CommandComplete body # ms) (copy_out_reader_new c r)"
    using assms(1,2) by (auto simp: still_reads_def copy_out_reader_new_def lazy_pin_new_def)
  from read_to_end_reads [OF this assms(3,4)] show ?thesis using read_past_end by blast
qed

theorem sync_copy_out_exact_witness:
  "\<exists>rd. read_to_end [2, 7, 1, 1] (copy_out_reader_new (sync_connection_new [EvPending] [])
      \<lparr>rs_cur = [], rs_runs = [encode_all [CopyData [104], CopyData []], encode_all [CopyData [105, 106], CopyDone, CommandComplete [], ReadyForQuery 73]]\<rparr>) =
     (Ready (Ok [104, 105, 106]), rd) \<and> fst (cr_read 1 rd) = Ready (Err err_unexpected_message)"
proof -
  let ?mss = "[[CopyData [104], CopyData []], [CopyData [105, 106], CopyDone, CommandComplete [], ReadyForQuery 73]]"
  let ?r = "\<lparr>rs_cur = [], rs_runs = map encode_all ?mss\<rparr>"
  have "delivers ?r (concat ?mss)" by (rule opened_delivers) (simp_all add: message_wf_def)
  then have d: "delivers ?r (map CopyData [[104], [], [105, 106]] @ CopyDone # CommandComplete [] # [ReadyForQuery 73])" by simp
  have "calm (sync_connection_new [EvPending] [])"
    by (simp add: calm_def sync_connection_new_def quiet_event_def)
  from sync_copy_out_exact [OF this d, of "[2, 7, 1, 1]"] obtain rd where
    "read_to_end [2, 7, 1, 1] (copy_out_reader_new (sync_connection_new [EvPending] []) ?r) = (Ready (Ok (concat [[104], [], [105, 106]])), rd)"
    "\<forall>n. fst (cr_read n rd) = Ready (Err err_unexpected_message)"
    by auto
  then show ?thesis by (intro exI [of _ rd] conjI) (simp_all only: list.map concat.simps append.simps)
qed

section \<open>The iterator with a timeout\<close>

text \<open>
  An iterator with a timeout waits only once. After its deadline has passed and it has returned
  nothing, the deadline stays where it was: with nothing queued, and although the server is connected,
  every later \<open>next\<close> polls the connection once and returns at once, instead of waiting for the
  timeout again; only a notification sets the deadline anew.
\<close>

theorem timeout_iter_stale:
  assumes "ti_deadline t \<le> now" and "ti_clock t = [now]" and "sc_notifications c = []" and "sc_events c = EvPending # es"
  shows "timeout_next t c = (Ready (Ok None), t, c\<lparr>sc_events := es\<rparr>)"
proof -
  have "drained c = (Ok False, c\<lparr>sc_events := es\<rparr>)" by (simp add: drained_def assms)
  then show ?thesis
    using assms by (simp add: timeout_next_def pop_front_def timeout_poll_def clock_now_def poll_block_on.simps [of timeout_poll])
qed

end
