(* ===== verification/SyncConfig.thy ===== *)
theory SyncConfig
  imports SyncClient Connect
begin

text \<open>
  \<open>postgres/src/config.rs\<close> and the constructors of \<open>postgres/src/client.rs\<close>: the configuration of
  the synchronous client is the asynchronous one and a notice callback, and connecting drives the
  asynchronous \<open>connect\<close> on a runtime of its own. The getters are the fields of \<open>config\<close>. The
  callback is opaque; what it is called with is \<open>sc_noticed\<close> of the connection.
\<close>

section \<open>The configuration\<close>

record 'cb sync_config =
  sf_config :: config
  sf_notice_callback :: 'cb

text \<open>\<open>From<tokio_postgres::Config>\<close> has a callback that logs the notice.\<close>

definition sync_config_from :: "'cb \<Rightarrow> config \<Rightarrow> 'cb sync_config" where
  "sync_config_from logging c = \<lparr>sf_config = c, sf_notice_callback = logging\<rparr>"

definition sync_config_new :: "'cb \<Rightarrow> 'cb sync_config" where
  "sync_config_new logging = sync_config_from logging config_new"

definition sync_config_from_str :: "'cb \<Rightarrow> percent \<Rightarrow> str \<Rightarrow> ('cb sync_config, error) rresult" where
  "sync_config_from_str logging pd s = map_ok (sync_config_from logging) (config_from_str pd s)"

definition on_config :: "(config \<Rightarrow> config) \<Rightarrow> 'cb sync_config \<Rightarrow> 'cb sync_config" where
  "on_config f c = c\<lparr>sf_config := f (sf_config c)\<rparr>"

definition sync_set_user :: "str \<Rightarrow> 'cb sync_config \<Rightarrow> 'cb sync_config" where
  "sync_set_user v = on_config (set_user v)"

definition sync_set_password :: "bytes \<Rightarrow> 'cb sync_config \<Rightarrow> 'cb sync_config" where
  "sync_set_password v = on_config (set_password v)"

definition sync_set_dbname :: "str \<Rightarrow> 'cb sync_config \<Rightarrow> 'cb sync_config" where
  "sync_set_dbname v = on_config (set_dbname v)"

definition sync_set_options :: "str \<Rightarrow> 'cb sync_config \<Rightarrow> 'cb sync_config" where
  "sync_set_options v = on_config (set_options v)"

definition sync_set_application_name :: "str \<Rightarrow> 'cb sync_config \<Rightarrow> 'cb sync_config" where
  "sync_set_application_name v = on_config (set_application_name v)"

definition sync_set_ssl_mode :: "ssl_mode \<Rightarrow> 'cb sync_config \<Rightarrow> 'cb sync_config" where
  "sync_set_ssl_mode v = on_config (set_ssl_mode v)"

definition sync_set_ssl_negotiation :: "ssl_negotiation \<Rightarrow> 'cb sync_config \<Rightarrow> 'cb sync_config" where
  "sync_set_ssl_negotiation v = on_config (set_ssl_negotiation v)"

definition sync_set_host :: "str \<Rightarrow> 'cb sync_config \<Rightarrow> 'cb sync_config" where
  "sync_set_host v = on_config (add_host v)"

definition sync_set_host_path :: "bytes \<Rightarrow> 'cb sync_config \<Rightarrow> 'cb sync_config" where
  "sync_set_host_path v = on_config (host_path v)"

definition sync_set_hostaddr :: "ip_addr \<Rightarrow> 'cb sync_config \<Rightarrow> 'cb sync_config" where
  "sync_set_hostaddr v = on_config (add_hostaddr v)"

definition sync_set_port :: "u16 \<Rightarrow> 'cb sync_config \<Rightarrow> 'cb sync_config" where
  "sync_set_port v = on_config (add_port v)"

definition sync_set_connect_timeout :: "nat \<Rightarrow> 'cb sync_config \<Rightarrow> 'cb sync_config" where
  "sync_set_connect_timeout v = on_config (set_connect_timeout v)"

definition sync_set_tcp_user_timeout :: "nat \<Rightarrow> 'cb sync_config \<Rightarrow> 'cb sync_config" where
  "sync_set_tcp_user_timeout v = on_config (set_tcp_user_timeout v)"

definition sync_set_keepalives :: "bool \<Rightarrow> 'cb sync_config \<Rightarrow> 'cb sync_config" where
  "sync_set_keepalives v = on_config (set_keepalives v)"

definition sync_set_keepalives_idle :: "nat \<Rightarrow> 'cb sync_config \<Rightarrow> 'cb sync_config" where
  "sync_set_keepalives_idle v = on_config (set_keepalives_idle v)"

definition sync_set_keepalives_interval :: "nat \<Rightarrow> 'cb sync_config \<Rightarrow> 'cb sync_config" where
  "sync_set_keepalives_interval v = on_config (set_keepalives_interval v)"

definition sync_set_keepalives_retries :: "u32 \<Rightarrow> 'cb sync_config \<Rightarrow> 'cb sync_config" where
  "sync_set_keepalives_retries v = on_config (set_keepalives_retries v)"

definition sync_set_target_session_attrs :: "target_session_attrs \<Rightarrow> 'cb sync_config \<Rightarrow> 'cb sync_config" where
  "sync_set_target_session_attrs v = on_config (set_target_session_attrs v)"

definition sync_set_channel_binding :: "channel_binding_mode \<Rightarrow> 'cb sync_config \<Rightarrow> 'cb sync_config" where
  "sync_set_channel_binding v = on_config (set_channel_binding v)"

definition sync_set_load_balance_hosts :: "load_balance_hosts \<Rightarrow> 'cb sync_config \<Rightarrow> 'cb sync_config" where
  "sync_set_load_balance_hosts v = on_config (set_load_balance_hosts v)"

definition sync_set_notice_callback :: "'cb \<Rightarrow> 'cb sync_config \<Rightarrow> 'cb sync_config" where
  "sync_set_notice_callback f c = c\<lparr>sf_notice_callback := f\<rparr>"

section \<open>Connecting\<close>

text \<open>
  The connection is polled \<open>polls\<close> times in all, in the environment \<open>e\<close>; its messages go to the
  notifications and to the callback.
\<close>

record sync_world =
  yw_net :: net_world
  yw_env :: env
  yw_polls :: nat
  yw_waits :: "nat list"

definition sync_connect :: "sync_world \<Rightarrow> 'cb sync_config \<Rightarrow> (sync_client, error) rresult" where
  "sync_connect w c =
     map_ok (\<lambda>(h, connection).
         sync_client_new (sync_connection_new (connection_events (yw_polls w) connection (yw_env w)) (yw_waits w)) (ch_inner h))
       (fst (connect (yw_net w) (sf_config c)))"

definition sync_client_connect :: "sync_world \<Rightarrow> 'cb \<Rightarrow> percent \<Rightarrow> str \<Rightarrow> (sync_client, error) rresult" where
  "sync_client_connect w logging pd params = rbind (sync_config_from_str logging pd params) (sync_connect w)"

text \<open>A token drives the cancellation on a runtime of its own, apart from the connection.\<close>

definition sync_cancel_token :: "client_handle \<Rightarrow> cancel_token" where
  "sync_cancel_token h = cancel_token_of h"

definition sync_cancel_query :: "cancel_world \<Rightarrow> cancel_token \<Rightarrow> cancel_outcome" where
  "sync_cancel_query w t = token_cancel_query w t"

end
