(* ===== verification/FixedArrays.thy ===== *)
theory FixedArrays
  imports PgTypesSpec
begin

text \<open>
  \<open>postgres-types/src/lib.rs\<close>, the instances for arrays \<open>[T; N]\<close> of a fixed length. The function
  \<open>try_array_init\<close> of the \<open>array-init\<close> crate calls its closure for the indices in order and stops at
  the first error.
\<close>

text \<open>The closure for the indices from \<open>i\<close> on, \<open>k\<close> of them.\<close>

fun fixed_loop :: "nat \<Rightarrow> (bytes option \<Rightarrow> ('a, sql_error) rresult) \<Rightarrow> nat \<Rightarrow> nat \<Rightarrow> array_values \<Rightarrow>
    ('a list \<times> array_values, sql_error) rresult" where
  "fixed_loop n f i 0 s = Ok ([], s)"
| "fixed_loop n f i (Suc k) s =
     rbind (array_values_next s) (\<lambda>(v, s).
     rbind (ok_or v (Msg (''too few elements in array (expected '' @ show_nat n @ '', got '' @ show_nat i @ '')''))) (\<lambda>v.
     rbind (f v) (\<lambda>x.
       map_ok (\<lambda>(xs, s). (x # xs, s)) (fixed_loop n f (Suc i) k s))))"

definition fixed_from_sql :: "nat \<Rightarrow> 'a from_sql \<Rightarrow> pg_type \<Rightarrow> bytes \<Rightarrow> ('a list, sql_error) rresult" where
  "fixed_from_sql n F ty raw =
     rbind (member_type ty) (\<lambda>member.
     rbind (array_from_sql raw) (\<lambda>array.
     rbind (array_dimensions array) (\<lambda>dims.
     rbind (collect length array_dimensions_next dims) (\<lambda>ds.
       if length ds > 1 then Err (Msg ''array contains too many dimensions'')
       else
         rbind (array_values_of array) (\<lambda>values.
         rbind (fixed_loop n (from_sql_nullable F member) 0 n values) (\<lambda>(xs, values).
         rbind (array_values_next values) (\<lambda>(v, values).
           if v \<noteq> None then Err (Msg (''excess elements in array (expected '' @ show_nat n @ '', got more than that)''))
           else Ok xs)))))))"

definition fixed_from :: "nat \<Rightarrow> 'a from_sql \<Rightarrow> 'a list from_sql" where
  "fixed_from n F = \<lparr>fs_from = fixed_from_sql n F, fs_null = was_null, fs_accepts = array_accepts (fs_accepts F)\<rparr>"

text \<open>A value of \<open>[T; N]\<close> is a list of length \<open>N\<close>; it is written as the slice.\<close>

definition fixed_to :: "nat \<Rightarrow> 'a to_sql \<Rightarrow> 'a list to_sql" where
  "fixed_to n T =
     \<lparr>ts_to = ts_to (slice_to T), ts_accepts = ts_accepts (slice_to T), ts_format = binary_format,
      ts_rust = ''['' @ ts_rust T @ ''; '' @ show_nat n @ '']''\<rparr>"

section \<open>Fixed arrays and vectors\<close>

abbreviation collect_with :: "(bytes option \<Rightarrow> ('a, sql_error) rresult) \<Rightarrow> array_values \<Rightarrow> ('a list, sql_error) rresult" where
  "collect_with f s \<equiv> collect (\<lambda>s. length (av_buf s)) (map_iter f array_values_next) s"

lemma collect_with_unfold:
  "collect_with f s =
     rbind (array_values_next s) (\<lambda>(v, s'). case v of None \<Rightarrow> Ok [] | Some v \<Rightarrow> rbind (f v) (\<lambda>x. map_ok (Cons x) (collect_with f s')))"
proof (cases "array_values_next s")
  case (Ok p)
  then show ?thesis
    by (subst fallible_iter.collect_unfold [OF array_values_it.mapped], cases p; cases "fst p"; cases "f (the (fst p))")
      (simp_all add: map_iter_def)
qed (subst fallible_iter.collect_unfold [OF array_values_it.mapped], simp add: map_iter_def)+

lemma fixed_loop_iff:
  "(\<exists>s' t. fixed_loop n f i k s = Ok (xs, s') \<and> array_values_next s' = Ok (None, t)) \<longleftrightarrow> collect_with f s = Ok xs \<and> length xs = k"
proof (induction k arbitrary: i s xs)
  case 0
  show ?case by (subst collect_with_unfold) (auto split: option.splits)
next
  case (Suc k)
  show ?case
  proof (cases "array_values_next s")
    case (Ok p)
    obtain v s1 where p: "p = (v, s1)" by fastforce
    show ?thesis
    proof (cases v)
      case None
      with Ok p show ?thesis by (subst collect_with_unfold) auto
    next
      case (Some v')
      show ?thesis
      proof (cases "f v'")
        case f: (Ok x)
        have "(\<exists>s' t. fixed_loop n f i (Suc k) s = Ok (xs, s') \<and> array_values_next s' = Ok (None, t)) \<longleftrightarrow>
            (\<exists>ys. xs = x # ys \<and> (\<exists>s' t. fixed_loop n f (Suc i) k s1 = Ok (ys, s') \<and> array_values_next s' = Ok (None, t)))"
          using Ok p Some f by auto
        also have "\<dots> \<longleftrightarrow> (\<exists>ys. xs = x # ys \<and> collect_with f s1 = Ok ys \<and> length ys = k)"
          using Suc.IH by simp
        also have "\<dots> \<longleftrightarrow> collect_with f s = Ok xs \<and> length xs = Suc k"
          using Ok p Some f by (subst (2) collect_with_unfold) auto
        finally show ?thesis .
      qed (use Ok p Some in \<open>subst collect_with_unfold, simp\<close>)+
    qed
  qed (subst collect_with_unfold, simp)+
qed

text \<open>
  An array of a fixed length decodes exactly what the vector decodes with that length: the same
  elements when the value holds exactly \<open>N\<close>, and never any when it holds fewer or more.
\<close>

theorem fixed_array_is_vec:
  "fs_from (fixed_from n F) ty raw = Ok xs \<longleftrightarrow> fs_from (vec_from F) ty raw = Ok xs \<and> length xs = n"
proof -
  have "rbind (fixed_loop n f 0 n vs) (\<lambda>(xs, vs). rbind (array_values_next vs) (\<lambda>(v, vs).
      if v \<noteq> None then Err e else Ok xs)) = Ok xs \<longleftrightarrow> collect_with f vs = Ok xs \<and> length xs = n" for f :: "bytes option \<Rightarrow> ('a, sql_error) rresult" and e vs
    using fixed_loop_iff [of n f 0 n vs xs] by (auto split: if_splits)
  then show ?thesis
    unfolding fixed_from_def vec_from_def fixed_from_sql_def vec_from_sql_def
    by (cases "member_type ty"; cases "array_from_sql raw") auto
qed

end
