(* ===== verification/Delegates.thy ===== *)
theory Delegates
  imports FixedArrays
begin

text \<open>
  \<open>postgres-types/src/lib.rs\<close>, the implementations that pass on to those of a borrowed type: for
  boxes, owned strings and bytes, \<open>Cow\<close>s and references. A box, a \<open>Cow\<close> and an owned value are the
  value. Each passes on \<open>accepts\<close> and the conversion; all of them but the reference keep the default
  \<open>from_sql_null\<close> and \<open>encode_format\<close> of the traits.
\<close>

section \<open>Reading\<close>

definition box_from :: "'a from_sql \<Rightarrow> 'a from_sql" where
  "box_from F = \<lparr>fs_from = fs_from F, fs_null = was_null, fs_accepts = fs_accepts F\<rparr>"

definition box_slice_from :: "'a from_sql \<Rightarrow> 'a list from_sql" where
  "box_slice_from F = \<lparr>fs_from = fs_from (vec_from F), fs_null = was_null, fs_accepts = fs_accepts (vec_from F)\<rparr>"

definition vec_u8_from :: "bytes from_sql" where
  "vec_u8_from = \<lparr>fs_from = \<lambda>ty raw. Ok (bytea_from_sql raw), fs_null = was_null, fs_accepts = \<lambda>ty. ty = BYTEA\<rparr>"

definition string_from :: "str from_sql" where
  "string_from = \<lparr>fs_from = fs_from str_from, fs_null = was_null, fs_accepts = fs_accepts str_from\<rparr>"

definition box_str_from :: "str from_sql" where
  "box_str_from = \<lparr>fs_from = fs_from str_from, fs_null = was_null, fs_accepts = fs_accepts str_from\<rparr>"

definition cow_str_from :: "str from_sql" where
  "cow_str_from = \<lparr>fs_from = fs_from str_from, fs_null = was_null, fs_accepts = fs_accepts str_from\<rparr>"

section \<open>Writing\<close>

definition ref_to :: "'a to_sql \<Rightarrow> 'a to_sql" where
  "ref_to T = \<lparr>ts_to = ts_to T, ts_accepts = ts_accepts T, ts_format = ts_format T, ts_rust = ''&'' @ ts_rust T\<rparr>"

text \<open>The implementations without an \<open>encode_format\<close> of their own, named by their Rust type.\<close>

definition passed_on :: "string \<Rightarrow> 'a to_sql \<Rightarrow> 'a to_sql" where
  "passed_on rust T = \<lparr>ts_to = ts_to T, ts_accepts = ts_accepts T, ts_format = binary_format, ts_rust = rust\<rparr>"

definition u8_array_to :: "nat \<Rightarrow> bytes to_sql" where
  "u8_array_to n =
     \<lparr>ts_to = \<lambda>v ty. not_null (bytea_to_sql v), ts_accepts = \<lambda>ty. ty = BYTEA, ts_format = binary_format,
      ts_rust = ''[u8; '' @ show_nat n @ '']''\<rparr>"

definition box_to :: "'a to_sql \<Rightarrow> 'a to_sql" where
  "box_to T = passed_on (''alloc::boxed::Box<'' @ ts_rust T @ ''>'') (ref_to T)"

definition box_slice_to :: "'a to_sql \<Rightarrow> 'a list to_sql" where
  "box_slice_to T = passed_on (''alloc::boxed::Box<['' @ ts_rust T @ '']>'') (slice_to T)"

definition cow_bytes_to :: "bytes to_sql" where
  "cow_bytes_to = passed_on ''alloc::borrow::Cow<[u8]>'' bytea_to"

definition vec_u8_to :: "bytes to_sql" where
  "vec_u8_to = passed_on ''alloc::vec::Vec<u8>'' bytea_to"

definition cow_str_to :: "str to_sql" where
  "cow_str_to = passed_on ''alloc::borrow::Cow<str>'' str_to"

definition string_to :: "str to_sql" where
  "string_to = passed_on ''alloc::string::String'' str_to"

definition box_str_to :: "str to_sql" where
  "box_str_to = passed_on ''alloc::boxed::Box<str>'' str_to"

section \<open>They keep the contract of a codec\<close>

lemmas passed_on_defs = box_from_def box_slice_from_def vec_u8_from_def string_from_def box_str_from_def cow_str_from_def
  ref_to_def passed_on_def u8_array_to_def box_to_def box_slice_to_def cow_bytes_to_def vec_u8_to_def cow_str_to_def
  string_to_def box_str_to_def

context sql_codec
begin

lemma ref_codec: "sql_codec (ref_to T) F ok"
  by unfold_locales (simp_all add: ref_to_def accepts_same writes)

text \<open>A box reads what it wrote as long as no value of the content is a NULL.\<close>

lemma box_codec:
  assumes "\<And>ty x. ok x \<Longrightarrow> fs_null F ty \<noteq> Ok x"
  shows "sql_codec (box_to T) (box_from F) ok"
proof
  show "ts_accepts (box_to T) ty \<longleftrightarrow> fs_accepts (box_from F) ty" for ty
    by (simp add: passed_on_defs accepts_same)
next
  fix ty :: pg_type and x :: 'a
  assume "fs_accepts (box_from F) ty" and ok: "ok x"
  then have a: "appends (ts_to T x ty) (\<lambda>v. from_sql_nullable F ty v = Ok x)" using writes by (simp add: box_from_def)
  have "from_sql_nullable F ty None \<noteq> Ok x" using assms [OF ok] by (simp add: from_sql_nullable_def)
  with a show "appends (ts_to (box_to T) x ty) (\<lambda>v. from_sql_nullable (box_from F) ty v = Ok x)"
    unfolding appends_def by (fastforce simp: passed_on_defs from_sql_nullable_def split: is_null.splits)
qed

end

interpretation string_c: sql_codec string_to string_from "\<lambda>s. utf8_valid (as_bytes s)"
  using str_c.sql_codec_axioms by (simp add: sql_codec_def passed_on_defs str_from_def)

interpretation vec_u8_c: sql_codec vec_u8_to vec_u8_from "\<lambda>_. True"
  using bytea_c.sql_codec_axioms by (simp add: sql_codec_def passed_on_defs bytea_from_def)

interpretation box_i32_c: sql_codec "box_to i32_to" "box_from i32_from" "\<lambda>_. True"
  by (rule i32_c.box_codec) (simp add: i32_from_def simple_from_def was_null_def)

interpretation ref_i32_c: sql_codec "ref_to i32_to" i32_from "\<lambda>_. True"
  by (rule i32_c.ref_codec)

text \<open>
  What a box loses. A boxed \<open>None\<close> is written as the NULL that an \<open>Option\<close> is written as, but a
  NULL is not read back into a box of an \<open>Option\<close>, which keeps the default \<open>from_sql_null\<close>; and a
  parameter whose type asks for the text format is announced as binary once it is boxed.
\<close>

theorem boxed_null_lost:
  "ts_to (box_to (option_to T)) None ty buf = (Ok Yes, buf) \<and>
   from_sql_nullable (option_from F) ty None = Ok None \<and>
   from_sql_nullable (box_from (option_from F)) ty None = Err WasNull \<and>
   ts_format (ref_to T) v ty = ts_format T v ty \<and> ts_format (box_to T) v ty = FormatBinary"
  by (simp add: passed_on_defs option_to_def option_from_def from_sql_nullable_def was_null_def wok_def binary_format_def)

end
