(* ===== verification/Derive.thy ===== *)
theory Derive
  imports PgTypesSpec Rows
begin

text \<open>
  \<open>postgres-derive/src\<close>: the code that \<open>#[derive(ToSql)]\<close> and \<open>#[derive(FromSql)]\<close> generate
  (\<open>tosql.rs\<close>, \<open>fromsql.rs\<close>, \<open>accepts.rs\<close>, with the names of \<open>enums.rs\<close>, \<open>composites.rs\<close> and
  \<open>case.rs\<close>). The description of the user's type is an argument: its name, its fields or variants.
  The fields of a struct have types of their own; they are embedded in one type of values.
\<close>

section \<open>Names\<close>

datatype rename_rule = LowerCase | UpperCase | PascalCase | CamelCase | SnakeCase | ScreamingSnakeCase
  | KebabCase | ScreamingKebabCase | TrainCase

definition rename_rule_from_str :: "str \<Rightarrow> rename_rule option" where
  "rename_rule_from_str rule =
     map_of [(''lowercase'', LowerCase), (''UPPERCASE'', UpperCase), (''PascalCase'', PascalCase), (''camelCase'', CamelCase),
             (''snake_case'', SnakeCase), (''SCREAMING_SNAKE_CASE'', ScreamingSnakeCase), (''kebab-case'', KebabCase),
             (''SCREAMING-KEBAB-CASE'', ScreamingKebabCase), (''Train-Case'', TrainCase)] rule"

text \<open>
  Applying a rule is the work of the \<open>heck\<close> crate, an argument; the name of an attribute comes first,
  and a raw identifier of a field loses its \<open>r#\<close>.
\<close>

definition variant_name :: "(rename_rule \<Rightarrow> str \<Rightarrow> str) \<Rightarrow> rename_rule option \<Rightarrow> str option \<Rightarrow> str \<Rightarrow> str" where
  "variant_name heck rename_all name_override ident =
     (case name_override of Some n \<Rightarrow> n | None \<Rightarrow> (case rename_all of Some rule \<Rightarrow> heck rule ident | None \<Rightarrow> ident))"

definition strip_raw :: "str \<Rightarrow> str" where
  "strip_raw ident = (if take 2 ident = ''r#'' then drop 2 ident else ident)"

definition field_name :: "(rename_rule \<Rightarrow> str \<Rightarrow> str) \<Rightarrow> rename_rule option \<Rightarrow> str option \<Rightarrow> str \<Rightarrow> str" where
  "field_name heck rename_all name_override ident =
     (case name_override of
        Some n \<Rightarrow> n
      | None \<Rightarrow> (case rename_all of Some rule \<Rightarrow> heck rule (strip_raw ident) | None \<Rightarrow> strip_raw ident))"

section \<open>Enums\<close>

text \<open>A variant is its number; \<open>names\<close> are the names of the variants in the order of the enum.\<close>

definition enum_accepts :: "str \<Rightarrow> str list \<Rightarrow> bool \<Rightarrow> pg_type \<Rightarrow> bool" where
  "enum_accepts nm names allow_mismatch ty \<longleftrightarrow>
     (if allow_mismatch then name_of ty = nm
      else name_of ty = nm \<and>
           (case kind_of ty of
              TEnum variants \<Rightarrow> length variants = length names \<and> list_all (\<lambda>v. v \<in> set names) variants
            | _ \<Rightarrow> False))"

definition enum_to :: "string \<Rightarrow> str \<Rightarrow> str list \<Rightarrow> bool \<Rightarrow> nat to_sql" where
  "enum_to rust nm names allow_mismatch =
     \<lparr>ts_to = \<lambda>i ty. not_null (put (as_bytes (names ! i))), ts_accepts = enum_accepts nm names allow_mismatch,
      ts_format = binary_format, ts_rust = rust\<rparr>"

definition enum_from_sql :: "str list \<Rightarrow> bytes \<Rightarrow> (nat, sql_error) rresult" where
  "enum_from_sql names buf =
     rbind (text_from_sql buf) (\<lambda>s.
       case position (\<lambda>n. n = s) names of
         Some i \<Rightarrow> Ok i
       | None \<Rightarrow> Err (Msg (''invalid variant `'' @ s @ ''`'')))"

definition enum_from :: "str \<Rightarrow> str list \<Rightarrow> bool \<Rightarrow> nat from_sql" where
  "enum_from nm names allow_mismatch =
     \<lparr>fs_from = \<lambda>ty. enum_from_sql names, fs_null = was_null, fs_accepts = enum_accepts nm names allow_mismatch\<rparr>"

section \<open>Domains and transparent wrappers\<close>

text \<open>
  The test of the base type is \<open>ToSql::accepts\<close> in both derives; \<open>T\<close> is the \<open>ToSql\<close> of the field.
\<close>

definition domain_accepts :: "str \<Rightarrow> (pg_type \<Rightarrow> bool) \<Rightarrow> pg_type \<Rightarrow> bool" where
  "domain_accepts nm accepts ty \<longleftrightarrow> name_of ty = nm \<and> (case kind_of ty of TDomain base \<Rightarrow> accepts base | _ \<Rightarrow> False)"

definition domain_to :: "string \<Rightarrow> str \<Rightarrow> 'a to_sql \<Rightarrow> 'a to_sql" where
  "domain_to rust nm T =
     \<lparr>ts_to = \<lambda>v ty. (case kind_of ty of TDomain base \<Rightarrow> ts_to T v base | _ \<Rightarrow> wres Panic),
      ts_accepts = domain_accepts nm (ts_accepts T), ts_format = binary_format, ts_rust = rust\<rparr>"

definition domain_from :: "str \<Rightarrow> 'a to_sql \<Rightarrow> 'a from_sql \<Rightarrow> 'a from_sql" where
  "domain_from nm T F =
     \<lparr>fs_from = \<lambda>ty. fs_from F (case kind_of ty of TDomain base \<Rightarrow> base | _ \<Rightarrow> ty), fs_null = was_null,
      fs_accepts = \<lambda>ty. fs_accepts F ty \<or> domain_accepts nm (ts_accepts T) ty\<rparr>"

definition transparent_to :: "string \<Rightarrow> 'a to_sql \<Rightarrow> 'a to_sql" where
  "transparent_to rust T = \<lparr>ts_to = ts_to T, ts_accepts = ts_accepts T, ts_format = binary_format, ts_rust = rust\<rparr>"

definition transparent_from :: "'a to_sql \<Rightarrow> 'a from_sql \<Rightarrow> 'a from_sql" where
  "transparent_from T F = \<lparr>fs_from = fs_from F, fs_null = was_null, fs_accepts = ts_accepts T\<rparr>"

section \<open>Composites\<close>

record 'v derive_field =
  df_name :: str
  df_to :: "'v to_sql"
  df_from :: "'v from_sql"

text \<open>The arms of a \<open>match\<close> on the name of a field: the first one that fits.\<close>

definition field_arm :: "'v derive_field list \<Rightarrow> str \<Rightarrow> nat option" where
  "field_arm fs nm = position (\<lambda>f. df_name f = nm) fs"

definition composite_accepts :: "str \<Rightarrow> ('v derive_field \<Rightarrow> pg_type \<Rightarrow> bool) \<Rightarrow> 'v derive_field list \<Rightarrow> pg_type \<Rightarrow> bool" where
  "composite_accepts nm accepts fs ty \<longleftrightarrow>
     name_of ty = nm \<and>
     (case kind_of ty of
        TComposite cs \<Rightarrow>
          length cs = length fs \<and>
          list_all (\<lambda>(n, t). case field_arm fs n of Some i \<Rightarrow> accepts (fs ! i) t | None \<Rightarrow> False) cs
      | _ \<Rightarrow> False)"

text \<open>A field of a value: its OID, a hole for the length, the value, and the length patched in.\<close>

definition composite_field_to :: "'v derive_field list \<Rightarrow> 'v list \<Rightarrow> str \<times> pg_type \<Rightarrow> (unit, sql_error) writer" where
  "composite_field_to fs vs = (\<lambda>(n, t).
     wseq (put (put_u32 (type_oid t)))
       (write_nullable (\<lambda>_. Msg ''value too large to transmit'')
          (case field_arm fs n of Some i \<Rightarrow> ts_to (df_to (fs ! i)) (vs ! i) t | None \<Rightarrow> wres Panic)))"

definition composite_to_sql :: "'v derive_field list \<Rightarrow> 'v list \<Rightarrow> pg_type \<Rightarrow> (is_null, sql_error) writer" where
  "composite_to_sql fs vs ty =
     (case kind_of ty of
        TComposite cs \<Rightarrow> wseq (put (put_i32 (of_nat (length cs)))) (not_null (write_all (composite_field_to fs vs) cs))
      | _ \<Rightarrow> wres Panic)"

definition composite_to :: "string \<Rightarrow> str \<Rightarrow> 'v derive_field list \<Rightarrow> 'v list to_sql" where
  "composite_to rust nm fs =
     \<lparr>ts_to = composite_to_sql fs, ts_accepts = composite_accepts nm (ts_accepts \<circ> df_to) fs,
      ts_format = binary_format, ts_rust = rust\<rparr>"

text \<open>The loop over the fields of the type, with one variable for each field of the struct.\<close>

fun composite_loop :: "'v derive_field list \<Rightarrow> (str \<times> pg_type) list \<Rightarrow> 'v option list \<Rightarrow> bytes \<Rightarrow> ('v option list, sql_error) rresult" where
  "composite_loop fs [] temps buf = Ok temps"
| "composite_loop fs ((n, t) # cs) temps buf =
     rbind (private_read_be_i32 buf) (\<lambda>(oid, buf).
       if ucast oid \<noteq> type_oid t then Err (Msg ''unexpected OID'')
       else case field_arm fs n of
              None \<Rightarrow> Panic
            | Some i \<Rightarrow>
                rbind (private_read_value (df_from (fs ! i)) t buf) (\<lambda>(v, buf).
                  composite_loop fs cs (temps[i := Some v]) buf))"

fun unwrap_all :: "'v option list \<Rightarrow> ('v list, 'e) rresult" where
  "unwrap_all [] = Ok []"
| "unwrap_all (t # ts) = (case t of Some v \<Rightarrow> map_ok (Cons v) (unwrap_all ts) | None \<Rightarrow> Panic)"

text \<open>\<open>num_fields as usize\<close> extends the sign.\<close>

definition composite_from_sql :: "'v derive_field list \<Rightarrow> pg_type \<Rightarrow> bytes \<Rightarrow> ('v list, sql_error) rresult" where
  "composite_from_sql fs ty buf =
     (case kind_of ty of
        TComposite cs \<Rightarrow>
          rbind (private_read_be_i32 buf) (\<lambda>(num_fields, buf).
            if sint num_fields mod 2 ^ 64 \<noteq> int (length cs)
            then Err (Msg (''invalid field count: '' @ show_int (sint num_fields) @ '' vs '' @ show_nat (length cs)))
            else rbind (composite_loop fs cs (replicate (length fs) None) buf) unwrap_all)
      | _ \<Rightarrow> Panic)"

definition composite_from :: "str \<Rightarrow> 'v derive_field list \<Rightarrow> 'v list from_sql" where
  "composite_from nm fs =
     \<lparr>fs_from = composite_from_sql fs, fs_null = was_null, fs_accepts = composite_accepts nm (fs_accepts \<circ> df_from) fs\<rparr>"

end
