(* ===== verification/DeriveSpec.thy ===== *)
theory DeriveSpec
  imports Derive
begin

text \<open>
  What the derived implementations promise, from the codec contract of their fields: enums, domains
  and composites that are written are read back.
\<close>

section \<open>Enums\<close>

lemma enum_from_iff:
  assumes "distinct names" and "\<forall>s\<in>set names. utf8_valid (as_bytes s)"
  shows "enum_from_sql names b = Ok i \<longleftrightarrow> i < length names \<and> b = as_bytes (names ! i)"
proof -
  have p: "position (\<lambda>n. n = s) names = Some i \<longleftrightarrow> i < length names \<and> names ! i = s" for s
    using assms(1) by (auto simp: position_Some_iff distinct_conv_nth)
  have "enum_from_sql names b = Ok i \<longleftrightarrow> (\<exists>s. utf8_valid b \<and> s = of_bytes b \<and> position (\<lambda>n. n = s) names = Some i)"
    by (auto simp: enum_from_sql_def text_from_sql_def map_err_eq_Ok from_utf8_iff split: option.splits)
  also have "\<dots> \<longleftrightarrow> i < length names \<and> b = as_bytes (names ! i)"
    using assms(2) by (auto simp: p)
  finally show ?thesis .
qed

section \<open>Composites\<close>

lemma private_read_put: "private_read_be_i32 (put_word 4 (w :: 32 word) @ r) = Ok (w, r)"
proof -
  have "unat w < 256 ^ 4" using unsigned_less [of w] by simp
  then show ?thesis by (simp add: private_read_be_i32_def put_word_def be_val_be_bytes)
qed

lemma private_read_value_bytes:
  "value_fits v \<Longrightarrow> private_read_value F t (value_bytes v @ r) = map_ok (\<lambda>x. (x, r)) (from_sql_nullable F t v)"
  by (cases v) (simp_all add: private_read_value_def value_bytes_def value_fits_def private_read_put split_at_checked_def i32_len_signed)

text \<open>What a field of the type is written as, and read from.\<close>

definition field_image :: "str \<times> pg_type \<Rightarrow> bytes option \<Rightarrow> bytes" where
  "field_image c v = put_u32 (type_oid (snd c)) @ value_bytes v"

definition field_holds :: "'v derive_field list \<Rightarrow> 'v list \<Rightarrow> str \<times> pg_type \<Rightarrow> bytes option \<Rightarrow> bool" where
  "field_holds fs vs c v \<longleftrightarrow> value_fits v \<and>
     (\<exists>i. field_arm fs (fst c) = Some i \<and> from_sql_nullable (df_from (fs ! i)) (snd c) v = Ok (vs ! i))"

definition field_writes :: "'v derive_field list \<Rightarrow> 'v list \<Rightarrow> str \<times> pg_type \<Rightarrow> bool" where
  "field_writes fs vs c \<longleftrightarrow>
     (\<exists>i. field_arm fs (fst c) = Some i \<and>
        appends (ts_to (df_to (fs ! i)) (vs ! i) (snd c)) (\<lambda>r. from_sql_nullable (df_from (fs ! i)) (snd c) r = Ok (vs ! i)))"

lemma composite_field_written:
  assumes "field_writes fs vs c" and "composite_field_to fs vs c buf = (Ok u, out)"
  shows "\<exists>v. field_holds fs vs c v \<and> out = buf @ field_image c v"
proof -
  obtain n t where c: "c = (n, t)" by fastforce
  from assms(1) c obtain i where i: "field_arm fs n = Some i"
    "appends (ts_to (df_to (fs ! i)) (vs ! i) t) (\<lambda>r. from_sql_nullable (df_from (fs ! i)) t r = Ok (vs ! i))"
    by (auto simp: field_writes_def)
  from assms(2) c i(1) have
    "write_nullable (\<lambda>_. Msg ''value too large to transmit'') (ts_to (df_to (fs ! i)) (vs ! i) t) (buf @ put_u32 (type_oid t)) = (Ok u, out)"
    by (simp add: composite_field_to_def wseq_def wbind_def put_def)
  from write_nullable_Ok [OF i(2) this] obtain v where "from_sql_nullable (df_from (fs ! i)) t v = Ok (vs ! i)" "value_fits v"
    "out = (buf @ put_u32 (type_oid t)) @ value_bytes v" by blast
  with c i(1) show ?thesis by (intro exI [of _ v]) (simp add: field_holds_def field_image_def)
qed

lemma composite_fields_written:
  "list_all (field_writes fs vs) cs \<Longrightarrow> write_all (composite_field_to fs vs) cs buf = (Ok u, out) \<Longrightarrow>
    \<exists>rs. list_all2 (field_holds fs vs) cs rs \<and> out = buf @ concat (map2 field_image cs rs)"
proof (induction cs arbitrary: buf)
  case (Cons c cs)
  from Cons.prems(2) obtain b where b: "composite_field_to fs vs c buf = (Ok (), b)" "write_all (composite_field_to fs vs) cs b = (Ok u, out)"
    by (auto simp: wseq_def wbind_def split: prod.splits rresult.splits)
  obtain v where v: "field_holds fs vs c v" "b = buf @ field_image c v"
    using composite_field_written [OF _ b(1)] Cons.prems(1) by auto
  obtain rs where "list_all2 (field_holds fs vs) cs rs" "out = b @ concat (map2 field_image cs rs)"
    using Cons.IH [OF _ b(2)] Cons.prems(1) by auto
  with v show ?case by (intro exI [of _ "v # rs"]) simp
qed (simp add: wok_def)

text \<open>The loop of the reader sets the variables of the fields it meets.\<close>

definition arms :: "'v derive_field list \<Rightarrow> (str \<times> pg_type) list \<Rightarrow> nat set" where
  "arms fs cs = {i. \<exists>c\<in>set cs. field_arm fs (fst c) = Some i}"

lemma composite_loop_reads:
  "list_all2 (field_holds fs vs) cs rs \<Longrightarrow>
    \<exists>temps'. composite_loop fs cs temps (concat (map2 field_image cs rs) @ junk) = Ok temps' \<and> length temps' = length temps \<and>
      (\<forall>i < length temps. temps' ! i = (if i \<in> arms fs cs then Some (vs ! i) else temps ! i))"
proof (induction cs rs arbitrary: temps rule: list_all2_induct)
  case Nil
  show ?case by (simp add: arms_def)
next
  case (Cons c cs v rs)
  obtain n t where c: "c = (n, t)" by fastforce
  from Cons.hyps(1) c obtain i where i: "field_arm fs n = Some i" "from_sql_nullable (df_from (fs ! i)) t v = Ok (vs ! i)" "value_fits v"
    by (auto simp: field_holds_def)
  obtain temps' where t': "composite_loop fs cs (temps[i := Some (vs ! i)]) (concat (map2 field_image cs rs) @ junk) = Ok temps'"
      "length temps' = length temps"
      "\<forall>j < length temps. temps' ! j = (if j \<in> arms fs cs then Some (vs ! j) else temps[i := Some (vs ! i)] ! j)"
    using Cons.IH [of "temps[i := Some (vs ! i)]"] by auto
  have "arms fs (c # cs) = insert i (arms fs cs)" using i(1) c by (auto simp: arms_def)
  with t' i c show ?case
    by (simp add: field_image_def private_read_put private_read_value_bytes nth_list_update)
qed

lemma unwrap_all_map: "unwrap_all (map Some vs) = Ok vs"
  by (induction vs) simp_all

text \<open>Different names have different arms, so a type with as many fields as the struct fills them all.\<close>

lemma arms_all:
  assumes "distinct (map fst cs)" and "length cs = length fs" and "list_all (\<lambda>c. field_arm fs (fst c) \<noteq> None) cs"
  shows "arms fs cs = {..<length fs}"
proof (rule card_subset_eq)
  show "arms fs cs \<subseteq> {..<length fs}" by (auto simp: arms_def field_arm_def position_Some_iff)
  let ?a = "\<lambda>n. the (field_arm fs n)"
  have "inj_on ?a (set (map fst cs))"
  proof (rule inj_onI)
    fix m n assume "m \<in> set (map fst cs)" "n \<in> set (map fst cs)" "?a m = ?a n"
    with assms(3) obtain i where "field_arm fs m = Some i" "field_arm fs n = Some i" by (fastforce simp: list_all_iff)
    then show "m = n" by (simp add: field_arm_def position_Some_iff)
  qed
  then have "card (?a ` set (map fst cs)) = length fs"
    using assms(1,2) by (metis card_image distinct_card length_map)
  moreover have "arms fs cs = ?a ` set (map fst cs)"
    using assms(3) by (auto simp: arms_def list_all_iff image_iff) force+
  ultimately show "card (arms fs cs) = card {..<length fs}" by simp
qed simp

lemma composite_from_reads:
  assumes k: "kind_of ty = TComposite cs" "distinct (map fst cs)" "length cs = length fs"
    and vs: "length vs = length fs" "length fs \<le> 2147483647"
    and r: "list_all2 (field_holds fs vs) cs rs"
  shows "composite_from_sql fs ty (put_i32 (of_nat (length cs)) @ concat (map2 field_image cs rs) @ junk) = Ok vs"
proof -
  have "list_all (\<lambda>c. field_arm fs (fst c) \<noteq> None) cs"
    using r by (auto simp: list_all_length list_all2_conv_all_nth field_holds_def)
  note a = arms_all [OF k(2,3) this]
  obtain temps where t: "composite_loop fs cs (replicate (length fs) None) (concat (map2 field_image cs rs) @ junk) = Ok temps"
      "length temps = length fs" "\<forall>i < length fs. temps ! i = Some (vs ! i)"
    using composite_loop_reads [OF r, of "replicate (length fs) None" junk] a by auto
  have "temps = map Some vs" using t(2,3) vs(1) by (simp add: list_eq_iff_nth_eq)
  moreover have "sint (of_nat (length cs) :: i32) mod 2 ^ 64 = int (length cs)"
    using i32_len_signed(1) [of "length cs"] k(3) vs(2) by simp
  ultimately show ?thesis
    using t(1) k(1) by (simp add: composite_from_sql_def private_read_put unwrap_all_map)
qed

lemma composite_accepted:
  assumes c: "\<forall>f\<in>set fs. sql_codec (df_to f) (df_from f) (okf f)" and vs: "list_all2 okf fs vs"
    and k: "kind_of ty = TComposite cs" and acc: "composite_accepts nm (ts_accepts \<circ> df_to) fs ty"
  shows "composite_accepts nm (fs_accepts \<circ> df_from) fs ty" "list_all (field_writes fs vs) cs" "length cs = length fs"
proof -
  have arm: "i < length fs" if "field_arm fs n = Some i" for n i
    using that by (simp add: field_arm_def position_Some_iff)
  have same: "ts_accepts (df_to (fs ! i)) t = fs_accepts (df_from (fs ! i)) t" if "i < length fs" for i t
    using sql_codec.accepts_same [of "df_to (fs ! i)" "df_from (fs ! i)" "okf (fs ! i)"] c that by simp
  have all: "list_all (\<lambda>(n, t). case field_arm fs n of Some i \<Rightarrow> ts_accepts (df_to (fs ! i)) t | None \<Rightarrow> False) cs"
    and len: "length cs = length fs" and nm: "name_of ty = nm"
    using acc k by (simp_all add: composite_accepts_def comp_def)
  show "length cs = length fs" by (rule len)
  show "composite_accepts nm (fs_accepts \<circ> df_from) fs ty"
    using all len nm k by (auto simp: composite_accepts_def comp_def list_all_iff same arm split: option.splits)
  show "list_all (field_writes fs vs) cs"
    unfolding list_all_iff
  proof
    fix x assume x: "x \<in> set cs"
    obtain n t where nt: "x = (n, t)" by fastforce
    with all x obtain i where i: "field_arm fs n = Some i" "ts_accepts (df_to (fs ! i)) t"
      by (auto simp: list_all_iff split: option.splits)
    note l = arm [OF i(1)]
    have "sql_codec (df_to (fs ! i)) (df_from (fs ! i)) (okf (fs ! i))" using c l by simp
    from sql_codec.writes [OF this, of t "vs ! i"] same [OF l] i(2) vs l
    have "appends (ts_to (df_to (fs ! i)) (vs ! i) t) (\<lambda>v. from_sql_nullable (df_from (fs ! i)) t v = Ok (vs ! i))"
      by (simp add: list_all2_conv_all_nth)
    with i(1) nt show "field_writes fs vs x" by (auto simp: field_writes_def)
  qed
qed

text \<open>
  A derived composite survives the wire. For a struct whose fields satisfy the contract of a value
  codec, and a composite type of the server with different field names, in whatever order: whenever
  the checked \<open>to_sql\<close> accepts the type and succeeds, it has appended one value, the derived
  \<open>FromSql\<close> accepts the type too, and it gives the struct back, each value in its own field. Bytes
  after the last field are not noticed.
\<close>

theorem derive_composite_roundtrip:
  assumes "\<forall>f\<in>set fs. sql_codec (df_to f) (df_from f) (okf f)" and "list_all2 okf fs vs" and "length fs \<le> 2147483647"
    and "kind_of ty = TComposite cs" and "distinct (map fst cs)"
    and "to_sql_checked (composite_to rust nm fs) vs ty buf = (Ok n, out)"
  shows "n = No \<and> fs_accepts (composite_from nm fs) ty \<and>
    (\<exists>b. out = buf @ b \<and> (\<forall>junk. fs_from (composite_from nm fs) ty (b @ junk) = Ok vs))"
proof -
  have acc: "composite_accepts nm (ts_accepts \<circ> df_to) fs ty" and w: "composite_to_sql fs vs ty buf = (Ok n, out)"
    using assms(6) by (auto simp: to_sql_checked_def composite_to_def wres_def split: if_splits)
  note a = composite_accepted [OF assms(1,2,4) acc]
  from w assms(4) have n: "n = No" and f: "write_all (composite_field_to fs vs) cs (buf @ put_i32 (of_nat (length cs))) = (Ok (), out)"
    by (auto simp: composite_to_sql_def not_null_def wseq_def wbind_def put_def wok_def split: prod.splits rresult.splits)
  obtain rs where rs: "list_all2 (field_holds fs vs) cs rs"
      "out = (buf @ put_i32 (of_nat (length cs))) @ concat (map2 field_image cs rs)"
    using composite_fields_written [OF a(2) f] by blast
  let ?b = "put_i32 (of_nat (length cs)) @ concat (map2 field_image cs rs)"
  have "fs_from (composite_from nm fs) ty (?b @ junk) = Ok vs" for junk
    using composite_from_reads [OF assms(4,5) a(3) _ assms(3) rs(1), of junk] list_all2_lengthD [OF assms(2)]
    by (simp add: composite_from_def)
  with n a(1) rs(2) show ?thesis by (auto simp: composite_from_def intro!: exI [of _ ?b])
qed

text \<open>A struct of two integers, and a type whose fields are the other way round.\<close>

definition sample_fields :: "i32 derive_field list" where
  "sample_fields = [\<lparr>df_name = ''x'', df_to = i32_to, df_from = i32_from\<rparr>, \<lparr>df_name = ''y'', df_to = i32_to, df_from = i32_from\<rparr>]"

definition sample_point :: pg_type where
  "sample_point = OtherType ''point2'' 70000 (TComposite [(''y'', INT4), (''x'', INT4)]) ''public''"

theorem derive_composite_roundtrip_witness:
  "\<exists>b. to_sql_checked (composite_to ''Point'' ''point2'' sample_fields) [1, 2] sample_point [] = (Ok No, b) \<and>
     b = put_i32 2 @ put_u32 23 @ put_i32 4 @ put_i32 2 @ put_u32 23 @ put_i32 4 @ put_i32 1 \<and>
     fs_from (composite_from ''point2'' sample_fields) sample_point (b @ [7]) = Ok [1, 2]"
proof -
  let ?b = "put_i32 2 @ put_u32 23 @ put_i32 4 @ put_i32 2 @ put_u32 23 @ put_i32 4 @ put_i32 1"
  have w: "to_sql_checked (composite_to ''Point'' ''point2'' sample_fields) [1, 2] sample_point [] = (Ok No, ?b)"
  proof -
    have hole: "write_nullable e (ts_to i32_to v INT4) buf = (Ok (), buf @ put_i32 4 @ put_i32 v)" for e v buf
      using overwrite_hole [of "put_i32 4" "put_i32 0" buf "put_i32 v"]
      by (simp add: write_nullable_def i32_to_def simple_to_def not_null_def int4_to_sql_def wseq_def wbind_def put_def wok_def
          with_len_def usize_sub_def i32_from_usize_def)
    have acc: "composite_accepts ''point2'' (ts_accepts \<circ> df_to) sample_fields sample_point"
      by (simp add: composite_accepts_def sample_fields_def sample_point_def field_arm_def i32_to_def simple_to_def)
    show ?thesis
      using acc
      by (simp add: to_sql_checked_def composite_to_def composite_to_sql_def sample_point_def composite_field_to_def not_null_def
          wseq_def wbind_def put_def wok_def field_arm_def sample_fields_def hole)
  qed
  have c: "\<forall>f\<in>set sample_fields. sql_codec (df_to f) (df_from f) (\<lambda>_. True)"
    by (simp add: sample_fields_def i32_c.sql_codec_axioms)
  have "kind_of sample_point = TComposite [(''y'', INT4), (''x'', INT4)]" by (simp add: sample_point_def)
  from derive_composite_roundtrip [OF c _ _ this _ w] have
    "\<exists>b. ?b = [] @ b \<and> (\<forall>junk. fs_from (composite_from ''point2'' sample_fields) sample_point (b @ junk) = Ok [1, 2])"
    by (simp add: sample_fields_def)
  with w show ?thesis by auto
qed

section \<open>Enums and domains on the wire\<close>

text \<open>
  A derived enum survives the wire. With different names, a variant that the checked \<open>to_sql\<close> writes
  is its name, the derived \<open>FromSql\<close> accepts the same types, and it reads a variant from exactly its
  name and from nothing else.
\<close>

theorem derive_enum_exact:
  assumes "distinct names" and "\<forall>s\<in>set names. utf8_valid (as_bytes s)"
  shows "fs_accepts (enum_from nm names m) ty = ts_accepts (enum_to rust nm names m) ty \<and>
    (ts_accepts (enum_to rust nm names m) ty \<longrightarrow>
       to_sql_checked (enum_to rust nm names m) i ty buf = (Ok No, buf @ as_bytes (names ! i))) \<and>
    (fs_from (enum_from nm names m) ty b = Ok j \<longleftrightarrow> j < length names \<and> b = as_bytes (names ! j))"
  using enum_from_iff [OF assms]
  by (simp add: enum_to_def enum_from_def to_sql_checked_def not_null_def wseq_def wbind_def put_def wok_def)

theorem derive_enum_exact_witness:
  "fs_from (enum_from ''mood'' [''sad'', ''ok''] False) (OtherType ''mood'' 70001 (TEnum [''ok'', ''sad'']) ''public'') (as_bytes ''ok'') = Ok 1"
proof -
  have "utf8_valid (as_bytes ''sad'')" "utf8_valid (as_bytes ''ok'')" by code_simp+
  then show ?thesis
    using derive_enum_exact [of "[''sad'', ''ok'']" "''mood''" False "OtherType ''mood'' 70001 (TEnum [''ok'', ''sad'']) ''public''" "[]" 0 "[]" "as_bytes ''ok''" 1]
    by simp
qed

text \<open>
  A derived domain survives the wire, whether the server names the domain or its base type: what
  is written for a domain is read back under the domain's type and under the base type.
\<close>

theorem derive_domain_roundtrip:
  assumes "sql_codec T F ok" and "ok x" and "kind_of ty = TDomain base"
    and "to_sql_checked (domain_to rust nm T) x ty buf = (Ok No, out)"
  shows "fs_accepts (domain_from nm T F) ty \<and> fs_accepts (domain_from nm T F) base \<and>
    (\<exists>b. out = buf @ b \<and> fs_from (domain_from nm T F) ty b = Ok x \<and>
       ((\<forall>t. kind_of base \<noteq> TDomain t) \<longrightarrow> fs_from (domain_from nm T F) base b = Ok x))"
proof -
  from assms(3,4) have acc: "domain_accepts nm (ts_accepts T) ty" and w: "ts_to T x base buf = (Ok No, out)"
    by (auto simp: to_sql_checked_def domain_to_def wres_def split: if_splits)
  with assms(3) have t: "ts_accepts T base" by (simp add: domain_accepts_def)
  then have f: "fs_accepts F base" using sql_codec.accepts_same [OF assms(1)] by simp
  from appends_No [OF sql_codec.writes [OF assms(1) f assms(2)] w] obtain b where b: "out = buf @ b" "fs_from F base b = Ok x"
    by (auto simp: from_sql_nullable_def)
  have "fs_from (domain_from nm T F) base b = Ok x" if "\<forall>t. kind_of base \<noteq> TDomain t"
    using that b(2) by (cases "kind_of base") (simp_all add: domain_from_def)
  with acc f b assms(3) show ?thesis by (auto simp: domain_from_def)
qed

end
