(* ===== verification/DeriveExpand.thy ===== *)
theory DeriveExpand
  imports Derive
begin

text \<open>
  \<open>postgres-derive/src\<close>: how the macros read the item they are put on (\<open>overrides.rs\<close>,
  \<open>Variant::parse\<close>, \<open>Field::parse\<close>) and which implementation they generate
  (\<open>expand_derive_tosql\<close>, \<open>expand_derive_fromsql\<close>). The item is what \<open>syn\<close> makes of the source: a path
  is its text, an expression is a string literal or something else. An error is its message; the
  place it points at is left out.
\<close>

section \<open>Attributes\<close>

datatype meta_expr = LitStr str | OtherExpr
datatype meta = MetaNameValue str meta_expr | MetaPath str | MetaList str

text \<open>The inside of \<open>#[postgres(...)]\<close> has been parsed by \<open>syn\<close>, which may fail.\<close>

datatype attr_meta = AttrList "(meta list, string) rresult" | AttrOther

record attribute =
  at_path :: str
  at_meta :: attr_meta

record overrides =
  ov_name :: "str option"
  ov_rename_all :: "rename_rule option"
  ov_transparent :: bool
  ov_allow_mismatch :: bool

definition rename_rules :: "str list" where
  "rename_rules = [''lowercase'', ''UPPERCASE'', ''PascalCase'', ''camelCase'', ''snake_case'', ''SCREAMING_SNAKE_CASE'',
     ''kebab-case'', ''SCREAMING-KEBAB-CASE'', ''Train-Case'']"

fun comma_join :: "str list \<Rightarrow> str" where
  "comma_join [] = []"
| "comma_join [s] = s"
| "comma_join (s # t # ss) = s @ '', '' @ comma_join (t # ss)"

definition quoted :: "str \<Rightarrow> str" where
  "quoted s = [CHR 0x22] @ s @ [CHR 0x22]"

definition override_value :: "bool \<Rightarrow> str \<Rightarrow> meta_expr \<Rightarrow> overrides \<Rightarrow> (overrides, string) rresult" where
  "override_value container_attr path v ov =
     (let name_override = path = ''name''; rename_all_override = path = ''rename_all'' in
      if \<not> container_attr \<and> rename_all_override then Err ''rename_all is a container attribute''
      else if \<not> name_override \<and> \<not> rename_all_override then Err ''unknown override''
      else case v of
             OtherExpr \<Rightarrow> Err ''expected a string literal''
           | LitStr s \<Rightarrow>
               if name_override then Ok (ov\<lparr>ov_name := Some s\<rparr>)
               else map_ok (\<lambda>rule. ov\<lparr>ov_rename_all := Some rule\<rparr>)
                      (ok_or (rename_rule_from_str s)
                        (''invalid rename_all rule, expected one of: '' @ comma_join (map quoted rename_rules))))"

definition override_flag :: "str \<Rightarrow> overrides \<Rightarrow> (overrides, string) rresult" where
  "override_flag path ov =
     (if path = ''transparent'' then
        if ov_allow_mismatch ov then Err ''#[postgres(allow_mismatch)] is not allowed with #[postgres(transparent)]''
        else Ok (ov\<lparr>ov_transparent := True\<rparr>)
      else if path = ''allow_mismatch'' then
        if ov_transparent ov then Err ''#[postgres(transparent)] is not allowed with #[postgres(allow_mismatch)]''
        else Ok (ov\<lparr>ov_allow_mismatch := True\<rparr>)
      else Err ''unknown override'')"

fun override_item :: "bool \<Rightarrow> overrides \<Rightarrow> meta \<Rightarrow> (overrides, string) rresult" where
  "override_item container_attr ov (MetaNameValue path v) = override_value container_attr path v ov"
| "override_item container_attr ov (MetaPath path) = override_flag path ov"
| "override_item container_attr ov (MetaList path) = Err ''unknown attribute''"

definition override_attr :: "bool \<Rightarrow> overrides \<Rightarrow> attribute \<Rightarrow> (overrides, string) rresult" where
  "override_attr container_attr ov a =
     (if at_path a \<noteq> ''postgres'' then Ok ov
      else case at_meta a of
             AttrOther \<Rightarrow> Err ''expected a #[postgres(...)]''
           | AttrList nested \<Rightarrow> rbind nested (try_foldl (override_item container_attr) ov))"

definition no_overrides :: overrides where
  "no_overrides = \<lparr>ov_name = None, ov_rename_all = None, ov_transparent = False, ov_allow_mismatch = False\<rparr>"

definition overrides_extract :: "attribute list \<Rightarrow> bool \<Rightarrow> (overrides, string) rresult" where
  "overrides_extract attrs container_attr = try_foldl (override_attr container_attr) no_overrides attrs"

section \<open>The item\<close>

record raw_variant =
  rv_ident :: str
  rv_attrs :: "attribute list"
  rv_unit :: bool

text \<open>A field has an identifier unless it is a field of a tuple; its Rust type comes with its two implementations.\<close>

record 'v raw_field =
  rf_ident :: "str option"
  rf_attrs :: "attribute list"
  rf_to :: "'v to_sql"
  rf_from :: "'v from_sql"

datatype 'v data_fields = FieldsNamed "'v raw_field list" | FieldsUnnamed "'v raw_field list" | FieldsUnit
datatype 'v derive_data = DataStruct "'v data_fields" | DataEnum "raw_variant list" | DataUnion

record 'v derive_input =
  di_ident :: str
  di_attrs :: "attribute list"
  di_data :: "'v derive_data"

record variant =
  vr_ident :: str
  vr_name :: str

definition variant_parse :: "(rename_rule \<Rightarrow> str \<Rightarrow> str) \<Rightarrow> rename_rule option \<Rightarrow> raw_variant \<Rightarrow> (variant, string) rresult" where
  "variant_parse heck rename_all raw =
     (if \<not> rv_unit raw then Err ''non-C-like enums are not supported''
      else rbind (overrides_extract (rv_attrs raw) False) (\<lambda>ov.
        Ok \<lparr>vr_ident = rv_ident raw, vr_name = variant_name heck rename_all (ov_name ov) (rv_ident raw)\<rparr>))"

definition field_parse :: "(rename_rule \<Rightarrow> str \<Rightarrow> str) \<Rightarrow> rename_rule option \<Rightarrow> 'v raw_field \<Rightarrow> ('v derive_field, string) rresult" where
  "field_parse heck rename_all raw =
     rbind (overrides_extract (rf_attrs raw) False) (\<lambda>ov.
       case rf_ident raw of
         None \<Rightarrow> Panic
       | Some ident \<Rightarrow>
           Ok \<lparr>df_name = field_name heck rename_all (ov_name ov) ident, df_to = rf_to raw, df_from = rf_from raw\<rparr>)"

fun try_map :: "('a \<Rightarrow> ('b, 'e) rresult) \<Rightarrow> 'a list \<Rightarrow> ('b list, 'e) rresult" where
  "try_map f [] = Ok []"
| "try_map f (x # xs) = rbind (f x) (\<lambda>y. map_ok (Cons y) (try_map f xs))"

section \<open>The expansions\<close>

text \<open>What is generated: the two bodies, with what they were built from.\<close>

datatype 'v derived_impl = TransparentImpl "'v raw_field" | EnumImpl str "variant list" bool
  | DomainImpl str "'v raw_field" | CompositeImpl str "'v derive_field list"

definition expand_enum :: "(rename_rule \<Rightarrow> str \<Rightarrow> str) \<Rightarrow> str \<Rightarrow> overrides \<Rightarrow> raw_variant list \<Rightarrow> ('v derived_impl, string) rresult" where
  "expand_enum heck nm ov vs =
     map_ok (\<lambda>variants. EnumImpl nm variants (ov_allow_mismatch ov)) (try_map (variant_parse heck (ov_rename_all ov)) vs)"

definition expand_derive_tosql :: "(rename_rule \<Rightarrow> str \<Rightarrow> str) \<Rightarrow> 'v derive_input \<Rightarrow> ('v derived_impl, string) rresult" where
  "expand_derive_tosql heck input =
     rbind (overrides_extract (di_attrs input) True) (\<lambda>ov.
       if (ov_name ov \<noteq> None \<or> ov_rename_all ov \<noteq> None) \<and> ov_transparent ov
       then Err (''#[postgres(transparent)] is not allowed with #[postgres(name = '' @ quoted ''...'' @
                 '')] or #[postgres(rename_all = '' @ quoted ''...'' @ '')]'')
       else
         (let nm = (case ov_name ov of Some n \<Rightarrow> n | None \<Rightarrow> di_ident input) in
          if ov_transparent ov then
            case di_data input of
              DataStruct (FieldsUnnamed [f]) \<Rightarrow> Ok (TransparentImpl f)
            | _ \<Rightarrow> Err ''#[postgres(transparent)] may only be applied to single field tuple structs''
          else if ov_allow_mismatch ov then
            case di_data input of
              DataEnum vs \<Rightarrow> expand_enum heck nm ov vs
            | _ \<Rightarrow> Err ''#[postgres(allow_mismatch)] may only be applied to enums''
          else
            case di_data input of
              DataEnum vs \<Rightarrow> expand_enum heck nm ov vs
            | DataStruct (FieldsUnnamed [f]) \<Rightarrow> Ok (DomainImpl nm f)
            | DataStruct (FieldsNamed fs) \<Rightarrow> map_ok (CompositeImpl nm) (try_map (field_parse heck (ov_rename_all ov)) fs)
            | _ \<Rightarrow> Err ''#[derive(ToSql)] may only be applied to structs, single field tuple structs, and enums''))"

definition expand_derive_fromsql :: "(rename_rule \<Rightarrow> str \<Rightarrow> str) \<Rightarrow> 'v derive_input \<Rightarrow> ('v derived_impl, string) rresult" where
  "expand_derive_fromsql heck input =
     rbind (overrides_extract (di_attrs input) True) (\<lambda>ov.
       if (ov_name ov \<noteq> None \<or> ov_rename_all ov \<noteq> None) \<and> ov_transparent ov
       then Err (''#[postgres(transparent)] is not allowed with #[postgres(name = '' @ quoted ''...'' @
                 '')] or #[postgres(rename_all = '' @ quoted ''...'' @ '')]'')
       else
         (let nm = (case ov_name ov of Some n \<Rightarrow> n | None \<Rightarrow> di_ident input) in
          if ov_transparent ov then
            case di_data input of
              DataStruct (FieldsUnnamed [f]) \<Rightarrow> Ok (TransparentImpl f)
            | _ \<Rightarrow> Err ''#[postgres(transparent)] may only be applied to single field tuple structs''
          else if ov_allow_mismatch ov then
            case di_data input of
              DataEnum vs \<Rightarrow> expand_enum heck nm ov vs
            | _ \<Rightarrow> Err ''#[postgres(allow_mismatch)] may only be applied to enums''
          else
            case di_data input of
              DataEnum vs \<Rightarrow> expand_enum heck nm ov vs
            | DataStruct (FieldsUnnamed [f]) \<Rightarrow> Ok (DomainImpl nm f)
            | DataStruct (FieldsNamed fs) \<Rightarrow> map_ok (CompositeImpl nm) (try_map (field_parse heck (ov_rename_all ov)) fs)
            | _ \<Rightarrow> Err ''#[derive(FromSql)] may only be applied to structs, single field tuple structs, and enums''))"

section \<open>The generated implementations\<close>

text \<open>A value of the item: the number of a variant, the field of a tuple struct, or the fields of a struct.\<close>

datatype 'v derived = DVariant (variant_of: nat) | DWrapped (wrapped_of: 'v) | DStruct (fields_of: "'v list")

definition to_sql_via :: "('b \<Rightarrow> 'a) \<Rightarrow> 'a to_sql \<Rightarrow> 'b to_sql" where
  "to_sql_via f T = \<lparr>ts_to = \<lambda>v. ts_to T (f v), ts_accepts = ts_accepts T, ts_format = \<lambda>v. ts_format T (f v), ts_rust = ts_rust T\<rparr>"

definition from_sql_via :: "('a \<Rightarrow> 'b) \<Rightarrow> 'a from_sql \<Rightarrow> 'b from_sql" where
  "from_sql_via f F =
     \<lparr>fs_from = \<lambda>ty b. map_ok f (fs_from F ty b), fs_null = \<lambda>ty. map_ok f (fs_null F ty), fs_accepts = fs_accepts F\<rparr>"

fun impl_tosql :: "str \<Rightarrow> 'v derived_impl \<Rightarrow> 'v derived to_sql" where
  "impl_tosql rust (TransparentImpl f) = to_sql_via wrapped_of (transparent_to rust (rf_to f))"
| "impl_tosql rust (EnumImpl nm vs m) = to_sql_via variant_of (enum_to rust nm (map vr_name vs) m)"
| "impl_tosql rust (DomainImpl nm f) = to_sql_via wrapped_of (domain_to rust nm (rf_to f))"
| "impl_tosql rust (CompositeImpl nm fs) = to_sql_via fields_of (composite_to rust nm fs)"

fun impl_fromsql :: "'v derived_impl \<Rightarrow> 'v derived from_sql" where
  "impl_fromsql (TransparentImpl f) = from_sql_via DWrapped (transparent_from (rf_to f) (rf_from f))"
| "impl_fromsql (EnumImpl nm vs m) = from_sql_via DVariant (enum_from nm (map vr_name vs) m)"
| "impl_fromsql (DomainImpl nm f) = from_sql_via DWrapped (domain_from nm (rf_to f) (rf_from f))"
| "impl_fromsql (CompositeImpl nm fs) = from_sql_via DStruct (composite_from nm fs)"

end
