(* ===== verification/DeriveExpandSpec.thy ===== *)
theory DeriveExpandSpec
  imports DeriveSpec DeriveExpand
begin

text \<open>
  The two macros together: an item that derives \<open>ToSql\<close> derives \<open>FromSql\<close> with the same names, and the
  generated pair satisfies what \<open>DeriveSpec\<close> shows of each kind of body.
\<close>

section \<open>Reading the attributes\<close>

lemma try_foldl_invariant:
  assumes "\<And>a x a'. P a \<Longrightarrow> f a x = Ok a' \<Longrightarrow> P a'"
  shows "P a \<Longrightarrow> try_foldl f a xs = Ok a' \<Longrightarrow> P a'"
  by (induction xs arbitrary: a) (auto intro: assms)

definition exclusive :: "overrides \<Rightarrow> bool" where
  "exclusive ov \<longleftrightarrow> \<not> (ov_transparent ov \<and> ov_allow_mismatch ov)"

lemma override_item_exclusive: "exclusive ov \<Longrightarrow> override_item c ov m = Ok ov' \<Longrightarrow> exclusive ov'"
  by (cases m) (auto simp: exclusive_def override_value_def override_flag_def Let_def split: if_splits meta_expr.splits)

lemma override_attr_exclusive: "exclusive ov \<Longrightarrow> override_attr c ov a = Ok ov' \<Longrightarrow> exclusive ov'"
  unfolding override_attr_def
  by (auto split: if_splits attr_meta.splits elim: try_foldl_invariant [of exclusive, rotated 2] intro: override_item_exclusive)

text \<open>The two flags never stand together, wherever they were written.\<close>

lemma overrides_exclusive:
  assumes "overrides_extract attrs c = Ok ov"
  shows "\<not> (ov_transparent ov \<and> ov_allow_mismatch ov)"
proof -
  have "exclusive no_overrides" by (simp add: exclusive_def no_overrides_def)
  from try_foldl_invariant [of exclusive, OF override_attr_exclusive this assms [unfolded overrides_extract_def]]
  show ?thesis by (simp add: exclusive_def)
qed

lemma try_map_Ok: "try_map f xs = Ok ys \<longleftrightarrow> list_all2 (\<lambda>x y. f x = Ok y) xs ys"
  by (induction xs arbitrary: ys) (auto simp: list_all2_Cons1)

lemma field_parse_Ok: "field_parse h r raw = Ok f \<Longrightarrow> df_to f = rf_to raw \<and> df_from f = rf_from raw"
  by (auto simp: field_parse_def split: option.splits)

section \<open>What was expanded\<close>

text \<open>The fields of an item, and what they need for their values to survive.\<close>

fun input_fields :: "'v derive_data \<Rightarrow> 'v raw_field set" where
  "input_fields (DataStruct (FieldsNamed fs)) = set fs"
| "input_fields (DataStruct (FieldsUnnamed fs)) = set fs"
| "input_fields d = {}"

fun impl_codecs :: "('v to_sql \<Rightarrow> 'v \<Rightarrow> bool) \<Rightarrow> 'v derived_impl \<Rightarrow> bool" where
  "impl_codecs ok (TransparentImpl f) \<longleftrightarrow> sql_codec (rf_to f) (rf_from f) (ok (rf_to f))"
| "impl_codecs ok (DomainImpl nm f) \<longleftrightarrow> sql_codec (rf_to f) (rf_from f) (ok (rf_to f))"
| "impl_codecs ok (CompositeImpl nm fs) \<longleftrightarrow> (\<forall>f\<in>set fs. sql_codec (df_to f) (df_from f) (ok (df_to f)))"
| "impl_codecs ok (EnumImpl nm vs m) \<longleftrightarrow> True"

text \<open>A value of the item, and names that can be told apart.\<close>

fun impl_value :: "('v to_sql \<Rightarrow> 'v \<Rightarrow> bool) \<Rightarrow> 'v derived_impl \<Rightarrow> 'v derived \<Rightarrow> bool" where
  "impl_value ok (TransparentImpl f) (DWrapped x) \<longleftrightarrow> ok (rf_to f) x"
| "impl_value ok (DomainImpl nm f) (DWrapped x) \<longleftrightarrow> ok (rf_to f) x"
| "impl_value ok (EnumImpl nm vs m) (DVariant i) \<longleftrightarrow>
     i < length vs \<and> distinct (map vr_name vs) \<and> (\<forall>v\<in>set vs. utf8_valid (as_bytes (vr_name v)))"
| "impl_value ok (CompositeImpl nm fs) (DStruct xs) \<longleftrightarrow> list_all2 (\<lambda>f. ok (df_to f)) fs xs \<and> length fs \<le> 2147483647"
| "impl_value ok _ _ \<longleftrightarrow> False"

lemma expanded_cases:
  assumes "expand_derive_tosql heck inp = Ok impl"
  obtains f where "di_data inp = DataStruct (FieldsUnnamed [f])" "impl = TransparentImpl f"
  | nm f where "di_data inp = DataStruct (FieldsUnnamed [f])" "impl = DomainImpl nm f"
  | nm vs m where "impl = EnumImpl nm vs m"
  | nm r fs ys where "di_data inp = DataStruct (FieldsNamed fs)" "impl = CompositeImpl nm ys"
      "list_all2 (\<lambda>x y. field_parse heck r x = Ok y) fs ys"
proof -
  obtain ov where ov: "overrides_extract (di_attrs inp) True = Ok ov"
    using assms by (auto simp: expand_derive_tosql_def)
  note e = assms [unfolded expand_derive_tosql_def ov rbind.simps Let_def]
  show ?thesis
  proof (cases "di_data inp")
    case (DataStruct d)
    with e that show ?thesis
      by (cases d) (auto simp: try_map_Ok split: if_splits list.splits)
  next
    case (DataEnum vs)
    with e that(3) show ?thesis by (auto simp: expand_enum_def split: if_splits)
  qed (use e in \<open>simp split: if_splits\<close>)
qed

lemma expanded_codecs:
  assumes "expand_derive_tosql heck inp = Ok impl"
    and c: "\<forall>f\<in>input_fields (di_data inp). sql_codec (rf_to f) (rf_from f) (ok (rf_to f))"
  shows "impl_codecs ok impl"
proof (cases rule: expanded_cases [OF assms(1)])
  case (4 nm r fs ys)
  from 4(1) c have "\<forall>f\<in>set fs. sql_codec (rf_to f) (rf_from f) (ok (rf_to f))" by simp
  with 4(3) have "\<forall>f\<in>set ys. sql_codec (df_to f) (df_from f) (ok (df_to f))"
    by (induction rule: list_all2_induct) (auto dest!: field_parse_Ok)
  with 4(2) show ?thesis by simp
qed (use c in simp_all)

lemma expanded_from:
  assumes "expand_derive_tosql heck inp = Ok impl"
  shows "expand_derive_fromsql heck inp = Ok impl"
proof -
  obtain ov where ov: "overrides_extract (di_attrs inp) True = Ok ov"
    using assms by (auto simp: expand_derive_tosql_def)
  note e = assms [unfolded expand_derive_tosql_def ov rbind.simps Let_def]
  have same: "expand_derive_fromsql heck inp = Ok impl" if "di_data inp = DataStruct (FieldsUnnamed fs)" for fs
    using e that unfolding expand_derive_fromsql_def ov rbind.simps Let_def
    by (cases fs; cases "tl fs"; cases "ov_name ov"; cases "ov_rename_all ov") (simp_all split: if_split_asm)
  show ?thesis
  proof (cases "di_data inp")
    case (DataStruct d)
    with e same show ?thesis unfolding expand_derive_fromsql_def ov rbind.simps Let_def
      by (cases d; cases "ov_name ov"; cases "ov_rename_all ov") (simp_all split: if_split_asm)
  next
    case (DataEnum vs)
    with e show ?thesis unfolding expand_derive_fromsql_def ov rbind.simps Let_def
      by (cases "ov_name ov"; cases "ov_rename_all ov") (simp_all split: if_split_asm)
  next
    case DataUnion
    with e show ?thesis by (simp split: if_split_asm)
  qed
qed

section \<open>The generated pairs\<close>

lemma to_sql_checked_via: "to_sql_checked (to_sql_via f T) x ty = to_sql_checked T (f x) ty"
  by (simp add: to_sql_checked_def to_sql_via_def)

definition pair_reads :: "'v derived_impl \<Rightarrow> 'v derived \<Rightarrow> pg_type \<Rightarrow> bytes \<Rightarrow> bytes \<Rightarrow> bool" where
  "pair_reads impl v ty buf out \<longleftrightarrow>
     fs_accepts (impl_fromsql impl) ty \<and> (\<exists>b. out = buf @ b \<and> fs_from (impl_fromsql impl) ty b = Ok v)"

lemma transparent_reads:
  assumes c: "sql_codec (rf_to f) (rf_from f) ok" and "ok x"
    and w: "to_sql_checked (transparent_to rust (rf_to f)) x ty buf = (Ok No, out)"
  shows "pair_reads (TransparentImpl f) (DWrapped x) ty buf out"
proof -
  from w have "to_sql_checked (rf_to f) x ty buf = (Ok No, out)"
    by (auto simp: to_sql_checked_def transparent_to_def wres_def split: if_splits)
  from sql_codec.checked_roundtrip [OF c assms(2) this] sql_codec.accepts_same [OF c, of ty] show ?thesis
    by (auto simp: pair_reads_def from_sql_via_def transparent_from_def)
qed

lemma domain_reads:
  assumes c: "sql_codec (rf_to f) (rf_from f) ok" and "ok x"
    and w: "to_sql_checked (domain_to rust nm (rf_to f)) x ty buf = (Ok No, out)"
  shows "pair_reads (DomainImpl nm f) (DWrapped x) ty buf out"
proof -
  from w have "domain_accepts nm (ts_accepts (rf_to f)) ty"
    by (auto simp: to_sql_checked_def domain_to_def wres_def split: if_splits)
  then obtain base where "kind_of ty = TDomain base" by (auto simp: domain_accepts_def split: type_kind.splits)
  from derive_domain_roundtrip [OF c assms(2) this w] show ?thesis
    by (auto simp: pair_reads_def from_sql_via_def)
qed

lemma enum_reads:
  assumes "i < length vs" and d: "distinct (map vr_name vs)" "\<forall>v\<in>set vs. utf8_valid (as_bytes (vr_name v))"
    and w: "to_sql_checked (enum_to rust nm (map vr_name vs) m) i ty buf = (Ok No, out)"
  shows "pair_reads (EnumImpl nm vs m) (DVariant i) ty buf out"
proof -
  let ?names = "map vr_name vs"
  have u: "\<forall>s\<in>set ?names. utf8_valid (as_bytes s)" using d(2) by simp
  from w have acc: "ts_accepts (enum_to rust nm ?names m) ty" by (auto simp: to_sql_checked_def wres_def split: if_splits)
  note e = derive_enum_exact [OF d(1) u, of nm m ty rust i buf "as_bytes (?names ! i)" i]
  from e acc w have "out = buf @ as_bytes (?names ! i)" by simp
  with e acc assms(1) show ?thesis by (auto simp: pair_reads_def from_sql_via_def)
qed

lemma composite_reads:
  assumes "\<forall>f\<in>set fs. sql_codec (df_to f) (df_from f) (okf f)" and "list_all2 okf fs xs" and "length fs \<le> 2147483647"
    and "\<And>cs. kind_of ty = TComposite cs \<Longrightarrow> distinct (map fst cs)"
    and w: "to_sql_checked (composite_to rust nm fs) xs ty buf = (Ok No, out)"
  shows "pair_reads (CompositeImpl nm fs) (DStruct xs) ty buf out"
proof -
  from w have "composite_accepts nm (ts_accepts \<circ> df_to) fs ty"
    by (auto simp: to_sql_checked_def composite_to_def wres_def split: if_splits)
  then obtain cs where k: "kind_of ty = TComposite cs" by (auto simp: composite_accepts_def split: type_kind.splits)
  from derive_composite_roundtrip [OF assms(1-3) k assms(4) [OF k] w]
  obtain b where b: "fs_accepts (composite_from nm fs) ty" "out = buf @ b" "\<And>junk. fs_from (composite_from nm fs) ty (b @ junk) = Ok xs"
    by blast
  from b(1,2) b(3) [of "[]"] show ?thesis by (auto simp: pair_reads_def from_sql_via_def)
qed

lemma impl_reads:
  assumes "impl_codecs ok impl" and "impl_value ok impl v" and "\<And>cs. kind_of ty = TComposite cs \<Longrightarrow> distinct (map fst cs)"
    and "to_sql_checked (impl_tosql rust impl) v ty buf = (Ok No, out)"
  shows "pair_reads impl v ty buf out"
proof (cases impl)
  case (CompositeImpl nm fs)
  with assms(2) obtain xs where "v = DStruct xs" by (cases v) simp_all
  with CompositeImpl assms show ?thesis
    by (auto simp: to_sql_checked_via intro!: composite_reads [where okf = "\<lambda>f. ok (df_to f)"])
qed (use assms(1,2,4) in \<open>cases v; auto simp: to_sql_checked_via intro!: transparent_reads domain_reads enum_reads\<close>)+

text \<open>
  A tuple struct around an \<open>Option\<close> loses its \<open>None\<close>: it is written as NULL, and NULL is not read back,
  since the derived implementation keeps the default \<open>from_sql_null\<close>.
\<close>

lemma wrapped_null_lost:
  assumes "rf_to f = option_to T" and "impl = TransparentImpl f \<or> impl = DomainImpl nm f" and "kind_of ty = TDomain base"
  shows "ts_to (impl_tosql rust impl) (DWrapped None) ty buf = (Ok Yes, buf) \<and>
    from_sql_nullable (impl_fromsql impl) ty None = Err WasNull"
  using assms
  by (auto simp: to_sql_via_def from_sql_via_def transparent_to_def transparent_from_def domain_to_def domain_from_def
      from_sql_nullable_def was_null_def option_to_def wok_def)

text \<open>
  C25. Deriving both traits is a round trip. An item on which \<open>#[derive(ToSql)]\<close> expands is one on which
  \<open>#[derive(FromSql)]\<close> expands, with the same names and the same kind of body; and for any value of it,
  with fields that satisfy the contract of a codec and names that differ, whatever the generated
  \<open>to_sql_checked\<close> writes without a NULL for a type of the server the generated \<open>FromSql\<close> accepts for
  that type and reads back.
\<close>

theorem derive_roundtrip:
  assumes "expand_derive_tosql heck inp = Ok impl"
    and "\<forall>f\<in>input_fields (di_data inp). sql_codec (rf_to f) (rf_from f) (ok (rf_to f))"
    and "impl_value ok impl v" and "\<And>cs. kind_of ty = TComposite cs \<Longrightarrow> distinct (map fst cs)"
    and "to_sql_checked (impl_tosql rust impl) v ty buf = (Ok No, out)"
  shows "expand_derive_fromsql heck inp = Ok impl \<and> fs_accepts (impl_fromsql impl) ty \<and>
    (\<exists>b. out = buf @ b \<and> fs_from (impl_fromsql impl) ty b = Ok v)"
  using expanded_from [OF assms(1)] impl_reads [OF expanded_codecs [OF assms(1,2)] assms(3-5)] by (simp add: pair_reads_def)

text \<open>\<open>struct Point { x: i32, #[postgres(name = "y")] r#type: i32 }\<close>, renamed as a whole.\<close>

definition sample_item :: "i32 derive_input" where
  "sample_item =
     \<lparr>di_ident = ''Point2'',
      di_attrs = [\<lparr>at_path = ''doc'', at_meta = AttrOther\<rparr>,
                  \<lparr>at_path = ''postgres'', at_meta = AttrList (Ok [MetaNameValue ''name'' (LitStr ''point2'')])\<rparr>],
      di_data = DataStruct (FieldsNamed
        [\<lparr>rf_ident = Some ''r#x'', rf_attrs = [], rf_to = i32_to, rf_from = i32_from\<rparr>,
         \<lparr>rf_ident = Some ''type'', rf_attrs = [\<lparr>at_path = ''postgres'', at_meta = AttrList (Ok [MetaNameValue ''name'' (LitStr ''y'')])\<rparr>],
          rf_to = i32_to, rf_from = i32_from\<rparr>])\<rparr>"

theorem derive_roundtrip_witness:
  "\<exists>b. fs_from (impl_fromsql (CompositeImpl ''point2'' sample_fields)) sample_point b = Ok (DStruct [1, 2])"
proof -
  let ?impl = "CompositeImpl ''point2'' sample_fields" and ?v = "DStruct [1 :: i32, 2]"
  have e: "expand_derive_tosql (\<lambda>r s. s) sample_item = Ok ?impl"
    by (simp add: expand_derive_tosql_def sample_item_def overrides_extract_def override_attr_def override_value_def no_overrides_def
        Let_def field_parse_def field_name_def strip_raw_def sample_fields_def)
  have c: "\<forall>f\<in>input_fields (di_data sample_item). sql_codec (rf_to f) (rf_from f) ((\<lambda>_ _. True) (rf_to f))"
    by (simp add: sample_item_def i32_c.sql_codec_axioms)
  have v: "impl_value (\<lambda>_ _. True) ?impl ?v" by (simp add: sample_fields_def)
  have k: "kind_of sample_point = TComposite cs \<Longrightarrow> distinct (map fst cs)" for cs
    by (auto simp: sample_point_def)
  obtain out where w: "to_sql_checked (impl_tosql ''Point'' ?impl) ?v sample_point [] = (Ok No, out)"
    using derive_composite_roundtrip_witness by (auto simp: to_sql_checked_via)
  show ?thesis using derive_roundtrip [OF e c v k w] by blast
qed

end
