(* ===== verification/SqlStates.thy ===== *)
theory SqlStates
  imports Prelude
begin

text \<open>
  \<open>tokio-postgres/src/error/sqlstate.rs\<close>: the generated enum of the SQLSTATE codes. A variant of \<open>Inner\<close>
  other than \<open>Other\<close> is named by its identifier. The tables are those of the file, in its order: the
  variants, the arms of \<open>code\<close>, the constants of \<open>SqlState\<close> and the entries of the perfect hash map,
  each a code and the constant it maps to. Finding an entry is the work of the \<open>phf\<close> crate, an argument.
\<close>

section \<open>The variants and their codes\<close>

definition inner_variants_1 :: "str list" where
  "inner_variants_1 = [
    ''E00000'', ''E01000'', ''E0100C'', ''E01008'', ''E01003'', ''E01007'', ''E01006'', ''E01004'', ''E01P01'',
    ''E02000'', ''E02001'', ''E03000'', ''E08000'', ''E08003'', ''E08006'', ''E08001'', ''E08004'', ''E08007'',
    ''E08P01'', ''E09000'', ''E0A000'', ''E0B000'', ''E0F000'', ''E0F001'', ''E0L000'', ''E0LP01'', ''E0P000'',
    ''E0Z000'', ''E0Z002'', ''E20000'', ''E21000'', ''E22000'', ''E2202E'', ''E22021'', ''E22008'', ''E22012'',
    ''E22005'', ''E2200B'', ''E22022'', ''E22015'', ''E2201E'', ''E22014'', ''E22016'', ''E2201F'', ''E2201G'',
    ''E22018'', ''E22007'', ''E22019'', ''E2200D'', ''E22025'', ''E22P06'', ''E22010'', ''E22023'', ''E22013'',
    ''E2201B'', ''E2201W'', ''E2201X'', ''E2202H'', ''E2202G'', ''E22009'', ''E2200C'', ''E2200G'', ''E22004'',
    ''E22002'', ''E22003'', ''E2200H'', ''E22026'', ''E22001'', ''E22011'', ''E22027'', ''E22024'', ''E2200F'',
    ''E22P01'', ''E22P02'', ''E22P03'', ''E22P04'', ''E22P05'', ''E2200L'', ''E2200M'', ''E2200N'', ''E2200S'',
    ''E2200T'', ''E22030'', ''E22031'', ''E22032'', ''E22033'', ''E22034'', ''E22035'', ''E22036'', ''E22037'',
    ''E22038'', ''E22039'', ''E2203A'', ''E2203B'', ''E2203C'', ''E2203D'', ''E2203E'', ''E2203F'', ''E2203G'',
    ''E23000'', ''E23001'', ''E23502'', ''E23503'', ''E23505'', ''E23514'', ''E23P01'', ''E24000'', ''E25000'',
    ''E25001'', ''E25002'', ''E25008'', ''E25003'', ''E25004'', ''E25005'', ''E25006'', ''E25007'', ''E25P01'',
    ''E25P02'', ''E25P03'', ''E26000'', ''E27000'', ''E28000'', ''E28P01'', ''E2B000'', ''E2BP01'', ''E2D000'',
    ''E2F000'', ''E2F005'', ''E2F002'', ''E2F003'', ''E2F004'', ''E34000'', ''E38000'', ''E38001'', ''E38002'',
    ''E38003'', ''E38004'', ''E39000'', ''E39001'', ''E39004'', ''E39P01'', ''E39P02'', ''E39P03'', ''E3B000'',
    ''E3B001'', ''E3D000'', ''E3F000'', ''E40000'']"

definition inner_variants_2 :: "str list" where
  "inner_variants_2 = [
    ''E40002'', ''E40001'', ''E40003'', ''E40P01'', ''E42000'', ''E42601'', ''E42501'', ''E42846'', ''E42803'',
    ''E42P20'', ''E42P19'', ''E42830'', ''E42602'', ''E42622'', ''E42939'', ''E42804'', ''E42P18'', ''E42P21'',
    ''E42P22'', ''E42809'', ''E428C9'', ''E42703'', ''E42883'', ''E42P01'', ''E42P02'', ''E42704'', ''E42701'',
    ''E42P03'', ''E42P04'', ''E42723'', ''E42P05'', ''E42P06'', ''E42P07'', ''E42712'', ''E42710'', ''E42702'',
    ''E42725'', ''E42P08'', ''E42P09'', ''E42P10'', ''E42611'', ''E42P11'', ''E42P12'', ''E42P13'', ''E42P14'',
    ''E42P15'', ''E42P16'', ''E42P17'', ''E44000'', ''E53000'', ''E53100'', ''E53200'', ''E53300'', ''E53400'',
    ''E54000'', ''E54001'', ''E54011'', ''E54023'', ''E55000'', ''E55006'', ''E55P02'', ''E55P03'', ''E55P04'',
    ''E57000'', ''E57014'', ''E57P01'', ''E57P02'', ''E57P03'', ''E57P04'', ''E57P05'', ''E58000'', ''E58030'',
    ''E58P01'', ''E58P02'', ''E72000'', ''EF0000'', ''EF0001'', ''EHV000'', ''EHV005'', ''EHV002'', ''EHV010'',
    ''EHV021'', ''EHV024'', ''EHV007'', ''EHV008'', ''EHV004'', ''EHV006'', ''EHV091'', ''EHV00B'', ''EHV00C'',
    ''EHV00D'', ''EHV090'', ''EHV00A'', ''EHV009'', ''EHV014'', ''EHV001'', ''EHV00P'', ''EHV00J'', ''EHV00K'',
    ''EHV00Q'', ''EHV00R'', ''EHV00L'', ''EHV00M'', ''EHV00N'', ''EP0000'', ''EP0001'', ''EP0002'', ''EP0003'',
    ''EP0004'', ''EXX000'', ''EXX001'', ''EXX002'']"

definition inner_variants :: "str list" where
  "inner_variants = inner_variants_1 @ inner_variants_2"

definition code_arms_1 :: "(str \<times> str) list" where
  "code_arms_1 = [
    (''E00000'', ''00000''), (''E01000'', ''01000''), (''E0100C'', ''0100C''), (''E01008'', ''01008''),
    (''E01003'', ''01003''), (''E01007'', ''01007''), (''E01006'', ''01006''), (''E01004'', ''01004''),
    (''E01P01'', ''01P01''), (''E02000'', ''02000''), (''E02001'', ''02001''), (''E03000'', ''03000''),
    (''E08000'', ''08000''), (''E08003'', ''08003''), (''E08006'', ''08006''), (''E08001'', ''08001''),
    (''E08004'', ''08004''), (''E08007'', ''08007''), (''E08P01'', ''08P01''), (''E09000'', ''09000''),
    (''E0A000'', ''0A000''), (''E0B000'', ''0B000''), (''E0F000'', ''0F000''), (''E0F001'', ''0F001''),
    (''E0L000'', ''0L000''), (''E0LP01'', ''0LP01''), (''E0P000'', ''0P000''), (''E0Z000'', ''0Z000''),
    (''E0Z002'', ''0Z002''), (''E20000'', ''20000''), (''E21000'', ''21000''), (''E22000'', ''22000''),
    (''E2202E'', ''2202E''), (''E22021'', ''22021''), (''E22008'', ''22008''), (''E22012'', ''22012''),
    (''E22005'', ''22005''), (''E2200B'', ''2200B''), (''E22022'', ''22022''), (''E22015'', ''22015''),
    (''E2201E'', ''2201E''), (''E22014'', ''22014''), (''E22016'', ''22016''), (''E2201F'', ''2201F''),
    (''E2201G'', ''2201G''), (''E22018'', ''22018''), (''E22007'', ''22007''), (''E22019'', ''22019''),
    (''E2200D'', ''2200D''), (''E22025'', ''22025''), (''E22P06'', ''22P06''), (''E22010'', ''22010''),
    (''E22023'', ''22023''), (''E22013'', ''22013''), (''E2201B'', ''2201B''), (''E2201W'', ''2201W''),
    (''E2201X'', ''2201X''), (''E2202H'', ''2202H''), (''E2202G'', ''2202G''), (''E22009'', ''22009''),
    (''E2200C'', ''2200C''), (''E2200G'', ''2200G''), (''E22004'', ''22004''), (''E22002'', ''22002''),
    (''E22003'', ''22003''), (''E2200H'', ''2200H''), (''E22026'', ''22026''), (''E22001'', ''22001''),
    (''E22011'', ''22011''), (''E22027'', ''22027''), (''E22024'', ''22024''), (''E2200F'', ''2200F''),
    (''E22P01'', ''22P01''), (''E22P02'', ''22P02''), (''E22P03'', ''22P03''), (''E22P04'', ''22P04''),
    (''E22P05'', ''22P05''), (''E2200L'', ''2200L''), (''E2200M'', ''2200M''), (''E2200N'', ''2200N''),
    (''E2200S'', ''2200S''), (''E2200T'', ''2200T''), (''E22030'', ''22030''), (''E22031'', ''22031''),
    (''E22032'', ''22032''), (''E22033'', ''22033''), (''E22034'', ''22034''), (''E22035'', ''22035''),
    (''E22036'', ''22036''), (''E22037'', ''22037''), (''E22038'', ''22038''), (''E22039'', ''22039''),
    (''E2203A'', ''2203A''), (''E2203B'', ''2203B''), (''E2203C'', ''2203C''), (''E2203D'', ''2203D''),
    (''E2203E'', ''2203E''), (''E2203F'', ''2203F''), (''E2203G'', ''2203G''), (''E23000'', ''23000''),
    (''E23001'', ''23001''), (''E23502'', ''23502''), (''E23503'', ''23503''), (''E23505'', ''23505''),
    (''E23514'', ''23514''), (''E23P01'', ''23P01''), (''E24000'', ''24000''), (''E25000'', ''25000''),
    (''E25001'', ''25001''), (''E25002'', ''25002''), (''E25008'', ''25008''), (''E25003'', ''25003''),
    (''E25004'', ''25004''), (''E25005'', ''25005''), (''E25006'', ''25006''), (''E25007'', ''25007''),
    (''E25P01'', ''25P01''), (''E25P02'', ''25P02''), (''E25P03'', ''25P03''), (''E26000'', ''26000''),
    (''E27000'', ''27000''), (''E28000'', ''28000''), (''E28P01'', ''28P01''), (''E2B000'', ''2B000''),
    (''E2BP01'', ''2BP01''), (''E2D000'', ''2D000''), (''E2F000'', ''2F000''), (''E2F005'', ''2F005''),
    (''E2F002'', ''2F002''), (''E2F003'', ''2F003''), (''E2F004'', ''2F004''), (''E34000'', ''34000''),
    (''E38000'', ''38000''), (''E38001'', ''38001''), (''E38002'', ''38002''), (''E38003'', ''38003''),
    (''E38004'', ''38004''), (''E39000'', ''39000''), (''E39001'', ''39001''), (''E39004'', ''39004''),
    (''E39P01'', ''39P01''), (''E39P02'', ''39P02''), (''E39P03'', ''39P03''), (''E3B000'', ''3B000''),
    (''E3B001'', ''3B001''), (''E3D000'', ''3D000''), (''E3F000'', ''3F000''), (''E40000'', ''40000'')]"

definition code_arms_2 :: "(str \<times> str) list" where
  "code_arms_2 = [
    (''E40002'', ''40002''), (''E40001'', ''40001''), (''E40003'', ''40003''), (''E40P01'', ''40P01''),
    (''E42000'', ''42000''), (''E42601'', ''42601''), (''E42501'', ''42501''), (''E42846'', ''42846''),
    (''E42803'', ''42803''), (''E42P20'', ''42P20''), (''E42P19'', ''42P19''), (''E42830'', ''42830''),
    (''E42602'', ''42602''), (''E42622'', ''42622''), (''E42939'', ''42939''), (''E42804'', ''42804''),
    (''E42P18'', ''42P18''), (''E42P21'', ''42P21''), (''E42P22'', ''42P22''), (''E42809'', ''42809''),
    (''E428C9'', ''428C9''), (''E42703'', ''42703''), (''E42883'', ''42883''), (''E42P01'', ''42P01''),
    (''E42P02'', ''42P02''), (''E42704'', ''42704''), (''E42701'', ''42701''), (''E42P03'', ''42P03''),
    (''E42P04'', ''42P04''), (''E42723'', ''42723''), (''E42P05'', ''42P05''), (''E42P06'', ''42P06''),
    (''E42P07'', ''42P07''), (''E42712'', ''42712''), (''E42710'', ''42710''), (''E42702'', ''42702''),
    (''E42725'', ''42725''), (''E42P08'', ''42P08''), (''E42P09'', ''42P09''), (''E42P10'', ''42P10''),
    (''E42611'', ''42611''), (''E42P11'', ''42P11''), (''E42P12'', ''42P12''), (''E42P13'', ''42P13''),
    (''E42P14'', ''42P14''), (''E42P15'', ''42P15''), (''E42P16'', ''42P16''), (''E42P17'', ''42P17''),
    (''E44000'', ''44000''), (''E53000'', ''53000''), (''E53100'', ''53100''), (''E53200'', ''53200''),
    (''E53300'', ''53300''), (''E53400'', ''53400''), (''E54000'', ''54000''), (''E54001'', ''54001''),
    (''E54011'', ''54011''), (''E54023'', ''54023''), (''E55000'', ''55000''), (''E55006'', ''55006''),
    (''E55P02'', ''55P02''), (''E55P03'', ''55P03''), (''E55P04'', ''55P04''), (''E57000'', ''57000''),
    (''E57014'', ''57014''), (''E57P01'', ''57P01''), (''E57P02'', ''57P02''), (''E57P03'', ''57P03''),
    (''E57P04'', ''57P04''), (''E57P05'', ''57P05''), (''E58000'', ''58000''), (''E58030'', ''58030''),
    (''E58P01'', ''58P01''), (''E58P02'', ''58P02''), (''E72000'', ''72000''), (''EF0000'', ''F0000''),
    (''EF0001'', ''F0001''), (''EHV000'', ''HV000''), (''EHV005'', ''HV005''), (''EHV002'', ''HV002''),
    (''EHV010'', ''HV010''), (''EHV021'', ''HV021''), (''EHV024'', ''HV024''), (''EHV007'', ''HV007''),
    (''EHV008'', ''HV008''), (''EHV004'', ''HV004''), (''EHV006'', ''HV006''), (''EHV091'', ''HV091''),
    (''EHV00B'', ''HV00B''), (''EHV00C'', ''HV00C''), (''EHV00D'', ''HV00D''), (''EHV090'', ''HV090''),
    (''EHV00A'', ''HV00A''), (''EHV009'', ''HV009''), (''EHV014'', ''HV014''), (''EHV001'', ''HV001''),
    (''EHV00P'', ''HV00P''), (''EHV00J'', ''HV00J''), (''EHV00K'', ''HV00K''), (''EHV00Q'', ''HV00Q''),
    (''EHV00R'', ''HV00R''), (''EHV00L'', ''HV00L''), (''EHV00M'', ''HV00M''), (''EHV00N'', ''HV00N''),
    (''EP0000'', ''P0000''), (''EP0001'', ''P0001''), (''EP0002'', ''P0002''), (''EP0003'', ''P0003''),
    (''EP0004'', ''P0004''), (''EXX000'', ''XX000''), (''EXX001'', ''XX001''), (''EXX002'', ''XX002'')]"

definition code_arms :: "(str \<times> str) list" where
  "code_arms = code_arms_1 @ code_arms_2"

section \<open>The constants\<close>

datatype sql_state = Known str | OtherCode str

definition SUCCESSFUL_COMPLETION :: sql_state where "SUCCESSFUL_COMPLETION = Known ''E00000''"
definition WARNING :: sql_state where "WARNING = Known ''E01000''"
definition WARNING_DYNAMIC_RESULT_SETS_RETURNED :: sql_state where "WARNING_DYNAMIC_RESULT_SETS_RETURNED = Known ''E0100C''"
definition WARNING_IMPLICIT_ZERO_BIT_PADDING :: sql_state where "WARNING_IMPLICIT_ZERO_BIT_PADDING = Known ''E01008''"
definition WARNING_NULL_VALUE_ELIMINATED_IN_SET_FUNCTION :: sql_state where "WARNING_NULL_VALUE_ELIMINATED_IN_SET_FUNCTION = Known ''E01003''"
definition WARNING_PRIVILEGE_NOT_GRANTED :: sql_state where "WARNING_PRIVILEGE_NOT_GRANTED = Known ''E01007''"
definition WARNING_PRIVILEGE_NOT_REVOKED :: sql_state where "WARNING_PRIVILEGE_NOT_REVOKED = Known ''E01006''"
definition WARNING_STRING_DATA_RIGHT_TRUNCATION :: sql_state where "WARNING_STRING_DATA_RIGHT_TRUNCATION = Known ''E01004''"
definition WARNING_DEPRECATED_FEATURE :: sql_state where "WARNING_DEPRECATED_FEATURE = Known ''E01P01''"
definition NO_DATA :: sql_state where "NO_DATA = Known ''E02000''"
definition NO_ADDITIONAL_DYNAMIC_RESULT_SETS_RETURNED :: sql_state where "NO_ADDITIONAL_DYNAMIC_RESULT_SETS_RETURNED = Known ''E02001''"
definition SQL_STATEMENT_NOT_YET_COMPLETE :: sql_state where "SQL_STATEMENT_NOT_YET_COMPLETE = Known ''E03000''"
definition CONNECTION_EXCEPTION :: sql_state where "CONNECTION_EXCEPTION = Known ''E08000''"
definition CONNECTION_DOES_NOT_EXIST :: sql_state where "CONNECTION_DOES_NOT_EXIST = Known ''E08003''"
definition CONNECTION_FAILURE :: sql_state where "CONNECTION_FAILURE = Known ''E08006''"
definition SQLCLIENT_UNABLE_TO_ESTABLISH_SQLCONNECTION :: sql_state where "SQLCLIENT_UNABLE_TO_ESTABLISH_SQLCONNECTION = Known ''E08001''"
definition SQLSERVER_REJECTED_ESTABLISHMENT_OF_SQLCONNECTION :: sql_state where "SQLSERVER_REJECTED_ESTABLISHMENT_OF_SQLCONNECTION = Known ''E08004''"
definition TRANSACTION_RESOLUTION_UNKNOWN :: sql_state where "TRANSACTION_RESOLUTION_UNKNOWN = Known ''E08007''"
definition PROTOCOL_VIOLATION :: sql_state where "PROTOCOL_VIOLATION = Known ''E08P01''"
definition TRIGGERED_ACTION_EXCEPTION :: sql_state where "TRIGGERED_ACTION_EXCEPTION = Known ''E09000''"
definition FEATURE_NOT_SUPPORTED :: sql_state where "FEATURE_NOT_SUPPORTED = Known ''E0A000''"
definition INVALID_TRANSACTION_INITIATION :: sql_state where "INVALID_TRANSACTION_INITIATION = Known ''E0B000''"
definition LOCATOR_EXCEPTION :: sql_state where "LOCATOR_EXCEPTION = Known ''E0F000''"
definition L_E_INVALID_SPECIFICATION :: sql_state where "L_E_INVALID_SPECIFICATION = Known ''E0F001''"
definition INVALID_GRANTOR :: sql_state where "INVALID_GRANTOR = Known ''E0L000''"
definition INVALID_GRANT_OPERATION :: sql_state where "INVALID_GRANT_OPERATION = Known ''E0LP01''"
definition INVALID_ROLE_SPECIFICATION :: sql_state where "INVALID_ROLE_SPECIFICATION = Known ''E0P000''"
definition DIAGNOSTICS_EXCEPTION :: sql_state where "DIAGNOSTICS_EXCEPTION = Known ''E0Z000''"
definition STACKED_DIAGNOSTICS_ACCESSED_WITHOUT_ACTIVE_HANDLER :: sql_state where "STACKED_DIAGNOSTICS_ACCESSED_WITHOUT_ACTIVE_HANDLER = Known ''E0Z002''"
definition CASE_NOT_FOUND :: sql_state where "CASE_NOT_FOUND = Known ''E20000''"
definition CARDINALITY_VIOLATION :: sql_state where "CARDINALITY_VIOLATION = Known ''E21000''"
definition DATA_EXCEPTION :: sql_state where "DATA_EXCEPTION = Known ''E22000''"
definition ARRAY_ELEMENT_ERROR :: sql_state where "ARRAY_ELEMENT_ERROR = Known ''E2202E''"
definition ARRAY_SUBSCRIPT_ERROR :: sql_state where "ARRAY_SUBSCRIPT_ERROR = Known ''E2202E''"
definition CHARACTER_NOT_IN_REPERTOIRE :: sql_state where "CHARACTER_NOT_IN_REPERTOIRE = Known ''E22021''"
definition DATETIME_FIELD_OVERFLOW :: sql_state where "DATETIME_FIELD_OVERFLOW = Known ''E22008''"
definition DATETIME_VALUE_OUT_OF_RANGE :: sql_state where "DATETIME_VALUE_OUT_OF_RANGE = Known ''E22008''"
definition DIVISION_BY_ZERO :: sql_state where "DIVISION_BY_ZERO = Known ''E22012''"
definition ERROR_IN_ASSIGNMENT :: sql_state where "ERROR_IN_ASSIGNMENT = Known ''E22005''"
definition ESCAPE_CHARACTER_CONFLICT :: sql_state where "ESCAPE_CHARACTER_CONFLICT = Known ''E2200B''"
definition INDICATOR_OVERFLOW :: sql_state where "INDICATOR_OVERFLOW = Known ''E22022''"
definition INTERVAL_FIELD_OVERFLOW :: sql_state where "INTERVAL_FIELD_OVERFLOW = Known ''E22015''"
definition INVALID_ARGUMENT_FOR_LOG :: sql_state where "INVALID_ARGUMENT_FOR_LOG = Known ''E2201E''"
definition INVALID_ARGUMENT_FOR_NTILE :: sql_state where "INVALID_ARGUMENT_FOR_NTILE = Known ''E22014''"
definition INVALID_ARGUMENT_FOR_NTH_VALUE :: sql_state where "INVALID_ARGUMENT_FOR_NTH_VALUE = Known ''E22016''"
definition INVALID_ARGUMENT_FOR_POWER_FUNCTION :: sql_state where "INVALID_ARGUMENT_FOR_POWER_FUNCTION = Known ''E2201F''"
definition INVALID_ARGUMENT_FOR_WIDTH_BUCKET_FUNCTION :: sql_state where "INVALID_ARGUMENT_FOR_WIDTH_BUCKET_FUNCTION = Known ''E2201G''"
definition INVALID_CHARACTER_VALUE_FOR_CAST :: sql_state where "INVALID_CHARACTER_VALUE_FOR_CAST = Known ''E22018''"
definition INVALID_DATETIME_FORMAT :: sql_state where "INVALID_DATETIME_FORMAT = Known ''E22007''"
definition INVALID_ESCAPE_CHARACTER :: sql_state where "INVALID_ESCAPE_CHARACTER = Known ''E22019''"
definition INVALID_ESCAPE_OCTET :: sql_state where "INVALID_ESCAPE_OCTET = Known ''E2200D''"
definition INVALID_ESCAPE_SEQUENCE :: sql_state where "INVALID_ESCAPE_SEQUENCE = Known ''E22025''"
definition NONSTANDARD_USE_OF_ESCAPE_CHARACTER :: sql_state where "NONSTANDARD_USE_OF_ESCAPE_CHARACTER = Known ''E22P06''"
definition INVALID_INDICATOR_PARAMETER_VALUE :: sql_state where "INVALID_INDICATOR_PARAMETER_VALUE = Known ''E22010''"
definition INVALID_PARAMETER_VALUE :: sql_state where "INVALID_PARAMETER_VALUE = Known ''E22023''"
definition INVALID_PRECEDING_OR_FOLLOWING_SIZE :: sql_state where "INVALID_PRECEDING_OR_FOLLOWING_SIZE = Known ''E22013''"
definition INVALID_REGULAR_EXPRESSION :: sql_state where "INVALID_REGULAR_EXPRESSION = Known ''E2201B''"
definition INVALID_ROW_COUNT_IN_LIMIT_CLAUSE :: sql_state where "INVALID_ROW_COUNT_IN_LIMIT_CLAUSE = Known ''E2201W''"
definition INVALID_ROW_COUNT_IN_RESULT_OFFSET_CLAUSE :: sql_state where "INVALID_ROW_COUNT_IN_RESULT_OFFSET_CLAUSE = Known ''E2201X''"
definition INVALID_TABLESAMPLE_ARGUMENT :: sql_state where "INVALID_TABLESAMPLE_ARGUMENT = Known ''E2202H''"
definition INVALID_TABLESAMPLE_REPEAT :: sql_state where "INVALID_TABLESAMPLE_REPEAT = Known ''E2202G''"
definition INVALID_TIME_ZONE_DISPLACEMENT_VALUE :: sql_state where "INVALID_TIME_ZONE_DISPLACEMENT_VALUE = Known ''E22009''"
definition INVALID_USE_OF_ESCAPE_CHARACTER :: sql_state where "INVALID_USE_OF_ESCAPE_CHARACTER = Known ''E2200C''"
definition MOST_SPECIFIC_TYPE_MISMATCH :: sql_state where "MOST_SPECIFIC_TYPE_MISMATCH = Known ''E2200G''"
definition NULL_VALUE_NOT_ALLOWED :: sql_state where "NULL_VALUE_NOT_ALLOWED = Known ''E22004''"
definition NULL_VALUE_NO_INDICATOR_PARAMETER :: sql_state where "NULL_VALUE_NO_INDICATOR_PARAMETER = Known ''E22002''"
definition NUMERIC_VALUE_OUT_OF_RANGE :: sql_state where "NUMERIC_VALUE_OUT_OF_RANGE = Known ''E22003''"
definition SEQUENCE_GENERATOR_LIMIT_EXCEEDED :: sql_state where "SEQUENCE_GENERATOR_LIMIT_EXCEEDED = Known ''E2200H''"
definition STRING_DATA_LENGTH_MISMATCH :: sql_state where "STRING_DATA_LENGTH_MISMATCH = Known ''E22026''"
definition STRING_DATA_RIGHT_TRUNCATION :: sql_state where "STRING_DATA_RIGHT_TRUNCATION = Known ''E22001''"
definition SUBSTRING_ERROR :: sql_state where "SUBSTRING_ERROR = Known ''E22011''"
definition TRIM_ERROR :: sql_state where "TRIM_ERROR = Known ''E22027''"
definition UNTERMINATED_C_STRING :: sql_state where "UNTERMINATED_C_STRING = Known ''E22024''"
definition ZERO_LENGTH_CHARACTER_STRING :: sql_state where "ZERO_LENGTH_CHARACTER_STRING = Known ''E2200F''"
definition FLOATING_POINT_EXCEPTION :: sql_state where "FLOATING_POINT_EXCEPTION = Known ''E22P01''"
definition INVALID_TEXT_REPRESENTATION :: sql_state where "INVALID_TEXT_REPRESENTATION = Known ''E22P02''"
definition INVALID_BINARY_REPRESENTATION :: sql_state where "INVALID_BINARY_REPRESENTATION = Known ''E22P03''"
definition BAD_COPY_FILE_FORMAT :: sql_state where "BAD_COPY_FILE_FORMAT = Known ''E22P04''"
definition UNTRANSLATABLE_CHARACTER :: sql_state where "UNTRANSLATABLE_CHARACTER = Known ''E22P05''"
definition NOT_AN_XML_DOCUMENT :: sql_state where "NOT_AN_XML_DOCUMENT = Known ''E2200L''"
definition INVALID_XML_DOCUMENT :: sql_state where "INVALID_XML_DOCUMENT = Known ''E2200M''"
definition INVALID_XML_CONTENT :: sql_state where "INVALID_XML_CONTENT = Known ''E2200N''"
definition INVALID_XML_COMMENT :: sql_state where "INVALID_XML_COMMENT = Known ''E2200S''"
definition INVALID_XML_PROCESSING_INSTRUCTION :: sql_state where "INVALID_XML_PROCESSING_INSTRUCTION = Known ''E2200T''"
definition DUPLICATE_JSON_OBJECT_KEY_VALUE :: sql_state where "DUPLICATE_JSON_OBJECT_KEY_VALUE = Known ''E22030''"
definition INVALID_ARGUMENT_FOR_SQL_JSON_DATETIME_FUNCTION :: sql_state where "INVALID_ARGUMENT_FOR_SQL_JSON_DATETIME_FUNCTION = Known ''E22031''"
definition INVALID_JSON_TEXT :: sql_state where "INVALID_JSON_TEXT = Known ''E22032''"
definition INVALID_SQL_JSON_SUBSCRIPT :: sql_state where "INVALID_SQL_JSON_SUBSCRIPT = Known ''E22033''"
definition MORE_THAN_ONE_SQL_JSON_ITEM :: sql_state where "MORE_THAN_ONE_SQL_JSON_ITEM = Known ''E22034''"
definition NO_SQL_JSON_ITEM :: sql_state where "NO_SQL_JSON_ITEM = Known ''E22035''"
definition NON_NUMERIC_SQL_JSON_ITEM :: sql_state where "NON_NUMERIC_SQL_JSON_ITEM = Known ''E22036''"
definition NON_UNIQUE_KEYS_IN_A_JSON_OBJECT :: sql_state where "NON_UNIQUE_KEYS_IN_A_JSON_OBJECT = Known ''E22037''"
definition SINGLETON_SQL_JSON_ITEM_REQUIRED :: sql_state where "SINGLETON_SQL_JSON_ITEM_REQUIRED = Known ''E22038''"
definition SQL_JSON_ARRAY_NOT_FOUND :: sql_state where "SQL_JSON_ARRAY_NOT_FOUND = Known ''E22039''"
definition SQL_JSON_MEMBER_NOT_FOUND :: sql_state where "SQL_JSON_MEMBER_NOT_FOUND = Known ''E2203A''"
definition SQL_JSON_NUMBER_NOT_FOUND :: sql_state where "SQL_JSON_NUMBER_NOT_FOUND = Known ''E2203B''"
definition SQL_JSON_OBJECT_NOT_FOUND :: sql_state where "SQL_JSON_OBJECT_NOT_FOUND = Known ''E2203C''"
definition TOO_MANY_JSON_ARRAY_ELEMENTS :: sql_state where "TOO_MANY_JSON_ARRAY_ELEMENTS = Known ''E2203D''"
definition TOO_MANY_JSON_OBJECT_MEMBERS :: sql_state where "TOO_MANY_JSON_OBJECT_MEMBERS = Known ''E2203E''"
definition SQL_JSON_SCALAR_REQUIRED :: sql_state where "SQL_JSON_SCALAR_REQUIRED = Known ''E2203F''"
definition SQL_JSON_ITEM_CANNOT_BE_CAST_TO_TARGET_TYPE :: sql_state where "SQL_JSON_ITEM_CANNOT_BE_CAST_TO_TARGET_TYPE = Known ''E2203G''"
definition INTEGRITY_CONSTRAINT_VIOLATION :: sql_state where "INTEGRITY_CONSTRAINT_VIOLATION = Known ''E23000''"
definition RESTRICT_VIOLATION :: sql_state where "RESTRICT_VIOLATION = Known ''E23001''"
definition NOT_NULL_VIOLATION :: sql_state where "NOT_NULL_VIOLATION = Known ''E23502''"
definition FOREIGN_KEY_VIOLATION :: sql_state where "FOREIGN_KEY_VIOLATION = Known ''E23503''"
definition UNIQUE_VIOLATION :: sql_state where "UNIQUE_VIOLATION = Known ''E23505''"
definition CHECK_VIOLATION :: sql_state where "CHECK_VIOLATION = Known ''E23514''"
definition EXCLUSION_VIOLATION :: sql_state where "EXCLUSION_VIOLATION = Known ''E23P01''"
definition INVALID_CURSOR_STATE :: sql_state where "INVALID_CURSOR_STATE = Known ''E24000''"
definition INVALID_TRANSACTION_STATE :: sql_state where "INVALID_TRANSACTION_STATE = Known ''E25000''"
definition ACTIVE_SQL_TRANSACTION :: sql_state where "ACTIVE_SQL_TRANSACTION = Known ''E25001''"
definition BRANCH_TRANSACTION_ALREADY_ACTIVE :: sql_state where "BRANCH_TRANSACTION_ALREADY_ACTIVE = Known ''E25002''"
definition HELD_CURSOR_REQUIRES_SAME_ISOLATION_LEVEL :: sql_state where "HELD_CURSOR_REQUIRES_SAME_ISOLATION_LEVEL = Known ''E25008''"
definition INAPPROPRIATE_ACCESS_MODE_FOR_BRANCH_TRANSACTION :: sql_state where "INAPPROPRIATE_ACCESS_MODE_FOR_BRANCH_TRANSACTION = Known ''E25003''"
definition INAPPROPRIATE_ISOLATION_LEVEL_FOR_BRANCH_TRANSACTION :: sql_state where "INAPPROPRIATE_ISOLATION_LEVEL_FOR_BRANCH_TRANSACTION = Known ''E25004''"
definition NO_ACTIVE_SQL_TRANSACTION_FOR_BRANCH_TRANSACTION :: sql_state where "NO_ACTIVE_SQL_TRANSACTION_FOR_BRANCH_TRANSACTION = Known ''E25005''"
definition READ_ONLY_SQL_TRANSACTION :: sql_state where "READ_ONLY_SQL_TRANSACTION = Known ''E25006''"
definition SCHEMA_AND_DATA_STATEMENT_MIXING_NOT_SUPPORTED :: sql_state where "SCHEMA_AND_DATA_STATEMENT_MIXING_NOT_SUPPORTED = Known ''E25007''"
definition NO_ACTIVE_SQL_TRANSACTION :: sql_state where "NO_ACTIVE_SQL_TRANSACTION = Known ''E25P01''"
definition IN_FAILED_SQL_TRANSACTION :: sql_state where "IN_FAILED_SQL_TRANSACTION = Known ''E25P02''"
definition IDLE_IN_TRANSACTION_SESSION_TIMEOUT :: sql_state where "IDLE_IN_TRANSACTION_SESSION_TIMEOUT = Known ''E25P03''"
definition INVALID_SQL_STATEMENT_NAME :: sql_state where "INVALID_SQL_STATEMENT_NAME = Known ''E26000''"
definition UNDEFINED_PSTATEMENT :: sql_state where "UNDEFINED_PSTATEMENT = Known ''E26000''"
definition TRIGGERED_DATA_CHANGE_VIOLATION :: sql_state where "TRIGGERED_DATA_CHANGE_VIOLATION = Known ''E27000''"
definition INVALID_AUTHORIZATION_SPECIFICATION :: sql_state where "INVALID_AUTHORIZATION_SPECIFICATION = Known ''E28000''"
definition INVALID_PASSWORD :: sql_state where "INVALID_PASSWORD = Known ''E28P01''"
definition DEPENDENT_PRIVILEGE_DESCRIPTORS_STILL_EXIST :: sql_state where "DEPENDENT_PRIVILEGE_DESCRIPTORS_STILL_EXIST = Known ''E2B000''"
definition DEPENDENT_OBJECTS_STILL_EXIST :: sql_state where "DEPENDENT_OBJECTS_STILL_EXIST = Known ''E2BP01''"
definition INVALID_TRANSACTION_TERMINATION :: sql_state where "INVALID_TRANSACTION_TERMINATION = Known ''E2D000''"
definition SQL_ROUTINE_EXCEPTION :: sql_state where "SQL_ROUTINE_EXCEPTION = Known ''E2F000''"
definition S_R_E_FUNCTION_EXECUTED_NO_RETURN_STATEMENT :: sql_state where "S_R_E_FUNCTION_EXECUTED_NO_RETURN_STATEMENT = Known ''E2F005''"
definition S_R_E_MODIFYING_SQL_DATA_NOT_PERMITTED :: sql_state where "S_R_E_MODIFYING_SQL_DATA_NOT_PERMITTED = Known ''E2F002''"
definition S_R_E_PROHIBITED_SQL_STATEMENT_ATTEMPTED :: sql_state where "S_R_E_PROHIBITED_SQL_STATEMENT_ATTEMPTED = Known ''E2F003''"
definition S_R_E_READING_SQL_DATA_NOT_PERMITTED :: sql_state where "S_R_E_READING_SQL_DATA_NOT_PERMITTED = Known ''E2F004''"
definition INVALID_CURSOR_NAME :: sql_state where "INVALID_CURSOR_NAME = Known ''E34000''"
definition UNDEFINED_CURSOR :: sql_state where "UNDEFINED_CURSOR = Known ''E34000''"
definition EXTERNAL_ROUTINE_EXCEPTION :: sql_state where "EXTERNAL_ROUTINE_EXCEPTION = Known ''E38000''"
definition E_R_E_CONTAINING_SQL_NOT_PERMITTED :: sql_state where "E_R_E_CONTAINING_SQL_NOT_PERMITTED = Known ''E38001''"
definition E_R_E_MODIFYING_SQL_DATA_NOT_PERMITTED :: sql_state where "E_R_E_MODIFYING_SQL_DATA_NOT_PERMITTED = Known ''E38002''"
definition E_R_E_PROHIBITED_SQL_STATEMENT_ATTEMPTED :: sql_state where "E_R_E_PROHIBITED_SQL_STATEMENT_ATTEMPTED = Known ''E38003''"
definition E_R_E_READING_SQL_DATA_NOT_PERMITTED :: sql_state where "E_R_E_READING_SQL_DATA_NOT_PERMITTED = Known ''E38004''"
definition EXTERNAL_ROUTINE_INVOCATION_EXCEPTION :: sql_state where "EXTERNAL_ROUTINE_INVOCATION_EXCEPTION = Known ''E39000''"
definition E_R_I_E_INVALID_SQLSTATE_RETURNED :: sql_state where "E_R_I_E_INVALID_SQLSTATE_RETURNED = Known ''E39001''"
definition E_R_I_E_NULL_VALUE_NOT_ALLOWED :: sql_state where "E_R_I_E_NULL_VALUE_NOT_ALLOWED = Known ''E39004''"
definition E_R_I_E_TRIGGER_PROTOCOL_VIOLATED :: sql_state where "E_R_I_E_TRIGGER_PROTOCOL_VIOLATED = Known ''E39P01''"
definition E_R_I_E_SRF_PROTOCOL_VIOLATED :: sql_state where "E_R_I_E_SRF_PROTOCOL_VIOLATED = Known ''E39P02''"
definition E_R_I_E_EVENT_TRIGGER_PROTOCOL_VIOLATED :: sql_state where "E_R_I_E_EVENT_TRIGGER_PROTOCOL_VIOLATED = Known ''E39P03''"
definition SAVEPOINT_EXCEPTION :: sql_state where "SAVEPOINT_EXCEPTION = Known ''E3B000''"
definition S_E_INVALID_SPECIFICATION :: sql_state where "S_E_INVALID_SPECIFICATION = Known ''E3B001''"
definition INVALID_CATALOG_NAME :: sql_state where "INVALID_CATALOG_NAME = Known ''E3D000''"
definition UNDEFINED_DATABASE :: sql_state where "UNDEFINED_DATABASE = Known ''E3D000''"
definition INVALID_SCHEMA_NAME :: sql_state where "INVALID_SCHEMA_NAME = Known ''E3F000''"
definition UNDEFINED_SCHEMA :: sql_state where "UNDEFINED_SCHEMA = Known ''E3F000''"
definition TRANSACTION_ROLLBACK :: sql_state where "TRANSACTION_ROLLBACK = Known ''E40000''"
definition T_R_INTEGRITY_CONSTRAINT_VIOLATION :: sql_state where "T_R_INTEGRITY_CONSTRAINT_VIOLATION = Known ''E40002''"
definition T_R_SERIALIZATION_FAILURE :: sql_state where "T_R_SERIALIZATION_FAILURE = Known ''E40001''"
definition T_R_STATEMENT_COMPLETION_UNKNOWN :: sql_state where "T_R_STATEMENT_COMPLETION_UNKNOWN = Known ''E40003''"
definition T_R_DEADLOCK_DETECTED :: sql_state where "T_R_DEADLOCK_DETECTED = Known ''E40P01''"
definition SYNTAX_ERROR_OR_ACCESS_RULE_VIOLATION :: sql_state where "SYNTAX_ERROR_OR_ACCESS_RULE_VIOLATION = Known ''E42000''"
definition SYNTAX_ERROR :: sql_state where "SYNTAX_ERROR = Known ''E42601''"
definition INSUFFICIENT_PRIVILEGE :: sql_state where "INSUFFICIENT_PRIVILEGE = Known ''E42501''"
definition CANNOT_COERCE :: sql_state where "CANNOT_COERCE = Known ''E42846''"
definition GROUPING_ERROR :: sql_state where "GROUPING_ERROR = Known ''E42803''"
definition WINDOWING_ERROR :: sql_state where "WINDOWING_ERROR = Known ''E42P20''"
definition INVALID_RECURSION :: sql_state where "INVALID_RECURSION = Known ''E42P19''"
definition INVALID_FOREIGN_KEY :: sql_state where "INVALID_FOREIGN_KEY = Known ''E42830''"
definition INVALID_NAME :: sql_state where "INVALID_NAME = Known ''E42602''"
definition NAME_TOO_LONG :: sql_state where "NAME_TOO_LONG = Known ''E42622''"
definition RESERVED_NAME :: sql_state where "RESERVED_NAME = Known ''E42939''"
definition DATATYPE_MISMATCH :: sql_state where "DATATYPE_MISMATCH = Known ''E42804''"
definition INDETERMINATE_DATATYPE :: sql_state where "INDETERMINATE_DATATYPE = Known ''E42P18''"
definition COLLATION_MISMATCH :: sql_state where "COLLATION_MISMATCH = Known ''E42P21''"
definition INDETERMINATE_COLLATION :: sql_state where "INDETERMINATE_COLLATION = Known ''E42P22''"
definition WRONG_OBJECT_TYPE :: sql_state where "WRONG_OBJECT_TYPE = Known ''E42809''"
definition GENERATED_ALWAYS :: sql_state where "GENERATED_ALWAYS = Known ''E428C9''"
definition UNDEFINED_COLUMN :: sql_state where "UNDEFINED_COLUMN = Known ''E42703''"
definition UNDEFINED_FUNCTION :: sql_state where "UNDEFINED_FUNCTION = Known ''E42883''"
definition UNDEFINED_TABLE :: sql_state where "UNDEFINED_TABLE = Known ''E42P01''"
definition UNDEFINED_PARAMETER :: sql_state where "UNDEFINED_PARAMETER = Known ''E42P02''"
definition UNDEFINED_OBJECT :: sql_state where "UNDEFINED_OBJECT = Known ''E42704''"
definition DUPLICATE_COLUMN :: sql_state where "DUPLICATE_COLUMN = Known ''E42701''"
definition DUPLICATE_CURSOR :: sql_state where "DUPLICATE_CURSOR = Known ''E42P03''"
definition DUPLICATE_DATABASE :: sql_state where "DUPLICATE_DATABASE = Known ''E42P04''"
definition DUPLICATE_FUNCTION :: sql_state where "DUPLICATE_FUNCTION = Known ''E42723''"
definition DUPLICATE_PSTATEMENT :: sql_state where "DUPLICATE_PSTATEMENT = Known ''E42P05''"
definition DUPLICATE_SCHEMA :: sql_state where "DUPLICATE_SCHEMA = Known ''E42P06''"
definition DUPLICATE_TABLE :: sql_state where "DUPLICATE_TABLE = Known ''E42P07''"
definition DUPLICATE_ALIAS :: sql_state where "DUPLICATE_ALIAS = Known ''E42712''"
definition DUPLICATE_OBJECT :: sql_state where "DUPLICATE_OBJECT = Known ''E42710''"
definition AMBIGUOUS_COLUMN :: sql_state where "AMBIGUOUS_COLUMN = Known ''E42702''"
definition AMBIGUOUS_FUNCTION :: sql_state where "AMBIGUOUS_FUNCTION = Known ''E42725''"
definition AMBIGUOUS_PARAMETER :: sql_state where "AMBIGUOUS_PARAMETER = Known ''E42P08''"
definition AMBIGUOUS_ALIAS :: sql_state where "AMBIGUOUS_ALIAS = Known ''E42P09''"
definition INVALID_COLUMN_REFERENCE :: sql_state where "INVALID_COLUMN_REFERENCE = Known ''E42P10''"
definition INVALID_COLUMN_DEFINITION :: sql_state where "INVALID_COLUMN_DEFINITION = Known ''E42611''"
definition INVALID_CURSOR_DEFINITION :: sql_state where "INVALID_CURSOR_DEFINITION = Known ''E42P11''"
definition INVALID_DATABASE_DEFINITION :: sql_state where "INVALID_DATABASE_DEFINITION = Known ''E42P12''"
definition INVALID_FUNCTION_DEFINITION :: sql_state where "INVALID_FUNCTION_DEFINITION = Known ''E42P13''"
definition INVALID_PSTATEMENT_DEFINITION :: sql_state where "INVALID_PSTATEMENT_DEFINITION = Known ''E42P14''"
definition INVALID_SCHEMA_DEFINITION :: sql_state where "INVALID_SCHEMA_DEFINITION = Known ''E42P15''"
definition INVALID_TABLE_DEFINITION :: sql_state where "INVALID_TABLE_DEFINITION = Known ''E42P16''"
definition INVALID_OBJECT_DEFINITION :: sql_state where "INVALID_OBJECT_DEFINITION = Known ''E42P17''"
definition WITH_CHECK_OPTION_VIOLATION :: sql_state where "WITH_CHECK_OPTION_VIOLATION = Known ''E44000''"
definition INSUFFICIENT_RESOURCES :: sql_state where "INSUFFICIENT_RESOURCES = Known ''E53000''"
definition DISK_FULL :: sql_state where "DISK_FULL = Known ''E53100''"
definition OUT_OF_MEMORY :: sql_state where "OUT_OF_MEMORY = Known ''E53200''"
definition TOO_MANY_CONNECTIONS :: sql_state where "TOO_MANY_CONNECTIONS = Known ''E53300''"
definition CONFIGURATION_LIMIT_EXCEEDED :: sql_state where "CONFIGURATION_LIMIT_EXCEEDED = Known ''E53400''"
definition PROGRAM_LIMIT_EXCEEDED :: sql_state where "PROGRAM_LIMIT_EXCEEDED = Known ''E54000''"
definition STATEMENT_TOO_COMPLEX :: sql_state where "STATEMENT_TOO_COMPLEX = Known ''E54001''"
definition TOO_MANY_COLUMNS :: sql_state where "TOO_MANY_COLUMNS = Known ''E54011''"
definition TOO_MANY_ARGUMENTS :: sql_state where "TOO_MANY_ARGUMENTS = Known ''E54023''"
definition OBJECT_NOT_IN_PREREQUISITE_STATE :: sql_state where "OBJECT_NOT_IN_PREREQUISITE_STATE = Known ''E55000''"
definition OBJECT_IN_USE :: sql_state where "OBJECT_IN_USE = Known ''E55006''"
definition CANT_CHANGE_RUNTIME_PARAM :: sql_state where "CANT_CHANGE_RUNTIME_PARAM = Known ''E55P02''"
definition LOCK_NOT_AVAILABLE :: sql_state where "LOCK_NOT_AVAILABLE = Known ''E55P03''"
definition UNSAFE_NEW_ENUM_VALUE_USAGE :: sql_state where "UNSAFE_NEW_ENUM_VALUE_USAGE = Known ''E55P04''"
definition OPERATOR_INTERVENTION :: sql_state where "OPERATOR_INTERVENTION = Known ''E57000''"
definition QUERY_CANCELED :: sql_state where "QUERY_CANCELED = Known ''E57014''"
definition ADMIN_SHUTDOWN :: sql_state where "ADMIN_SHUTDOWN = Known ''E57P01''"
definition CRASH_SHUTDOWN :: sql_state where "CRASH_SHUTDOWN = Known ''E57P02''"
definition CANNOT_CONNECT_NOW :: sql_state where "CANNOT_CONNECT_NOW = Known ''E57P03''"
definition DATABASE_DROPPED :: sql_state where "DATABASE_DROPPED = Known ''E57P04''"
definition IDLE_SESSION_TIMEOUT :: sql_state where "IDLE_SESSION_TIMEOUT = Known ''E57P05''"
definition SYSTEM_ERROR :: sql_state where "SYSTEM_ERROR = Known ''E58000''"
definition IO_ERROR :: sql_state where "IO_ERROR = Known ''E58030''"
definition UNDEFINED_FILE :: sql_state where "UNDEFINED_FILE = Known ''E58P01''"
definition DUPLICATE_FILE :: sql_state where "DUPLICATE_FILE = Known ''E58P02''"
definition SNAPSHOT_TOO_OLD :: sql_state where "SNAPSHOT_TOO_OLD = Known ''E72000''"
definition CONFIG_FILE_ERROR :: sql_state where "CONFIG_FILE_ERROR = Known ''EF0000''"
definition LOCK_FILE_EXISTS :: sql_state where "LOCK_FILE_EXISTS = Known ''EF0001''"
definition FDW_ERROR :: sql_state where "FDW_ERROR = Known ''EHV000''"
definition FDW_COLUMN_NAME_NOT_FOUND :: sql_state where "FDW_COLUMN_NAME_NOT_FOUND = Known ''EHV005''"
definition FDW_DYNAMIC_PARAMETER_VALUE_NEEDED :: sql_state where "FDW_DYNAMIC_PARAMETER_VALUE_NEEDED = Known ''EHV002''"
definition FDW_FUNCTION_SEQUENCE_ERROR :: sql_state where "FDW_FUNCTION_SEQUENCE_ERROR = Known ''EHV010''"
definition FDW_INCONSISTENT_DESCRIPTOR_INFORMATION :: sql_state where "FDW_INCONSISTENT_DESCRIPTOR_INFORMATION = Known ''EHV021''"
definition FDW_INVALID_ATTRIBUTE_VALUE :: sql_state where "FDW_INVALID_ATTRIBUTE_VALUE = Known ''EHV024''"
definition FDW_INVALID_COLUMN_NAME :: sql_state where "FDW_INVALID_COLUMN_NAME = Known ''EHV007''"
definition FDW_INVALID_COLUMN_NUMBER :: sql_state where "FDW_INVALID_COLUMN_NUMBER = Known ''EHV008''"
definition FDW_INVALID_DATA_TYPE :: sql_state where "FDW_INVALID_DATA_TYPE = Known ''EHV004''"
definition FDW_INVALID_DATA_TYPE_DESCRIPTORS :: sql_state where "FDW_INVALID_DATA_TYPE_DESCRIPTORS = Known ''EHV006''"
definition FDW_INVALID_DESCRIPTOR_FIELD_IDENTIFIER :: sql_state where "FDW_INVALID_DESCRIPTOR_FIELD_IDENTIFIER = Known ''EHV091''"
definition FDW_INVALID_HANDLE :: sql_state where "FDW_INVALID_HANDLE = Known ''EHV00B''"
definition FDW_INVALID_OPTION_INDEX :: sql_state where "FDW_INVALID_OPTION_INDEX = Known ''EHV00C''"
definition FDW_INVALID_OPTION_NAME :: sql_state where "FDW_INVALID_OPTION_NAME = Known ''EHV00D''"
definition FDW_INVALID_STRING_LENGTH_OR_BUFFER_LENGTH :: sql_state where "FDW_INVALID_STRING_LENGTH_OR_BUFFER_LENGTH = Known ''EHV090''"
definition FDW_INVALID_STRING_FORMAT :: sql_state where "FDW_INVALID_STRING_FORMAT = Known ''EHV00A''"
definition FDW_INVALID_USE_OF_NULL_POINTER :: sql_state where "FDW_INVALID_USE_OF_NULL_POINTER = Known ''EHV009''"
definition FDW_TOO_MANY_HANDLES :: sql_state where "FDW_TOO_MANY_HANDLES = Known ''EHV014''"
definition FDW_OUT_OF_MEMORY :: sql_state where "FDW_OUT_OF_MEMORY = Known ''EHV001''"
definition FDW_NO_SCHEMAS :: sql_state where "FDW_NO_SCHEMAS = Known ''EHV00P''"
definition FDW_OPTION_NAME_NOT_FOUND :: sql_state where "FDW_OPTION_NAME_NOT_FOUND = Known ''EHV00J''"
definition FDW_REPLY_HANDLE :: sql_state where "FDW_REPLY_HANDLE = Known ''EHV00K''"
definition FDW_SCHEMA_NOT_FOUND :: sql_state where "FDW_SCHEMA_NOT_FOUND = Known ''EHV00Q''"
definition FDW_TABLE_NOT_FOUND :: sql_state where "FDW_TABLE_NOT_FOUND = Known ''EHV00R''"
definition FDW_UNABLE_TO_CREATE_EXECUTION :: sql_state where "FDW_UNABLE_TO_CREATE_EXECUTION = Known ''EHV00L''"
definition FDW_UNABLE_TO_CREATE_REPLY :: sql_state where "FDW_UNABLE_TO_CREATE_REPLY = Known ''EHV00M''"
definition FDW_UNABLE_TO_ESTABLISH_CONNECTION :: sql_state where "FDW_UNABLE_TO_ESTABLISH_CONNECTION = Known ''EHV00N''"
definition PLPGSQL_ERROR :: sql_state where "PLPGSQL_ERROR = Known ''EP0000''"
definition RAISE_EXCEPTION :: sql_state where "RAISE_EXCEPTION = Known ''EP0001''"
definition NO_DATA_FOUND :: sql_state where "NO_DATA_FOUND = Known ''EP0002''"
definition TOO_MANY_ROWS :: sql_state where "TOO_MANY_ROWS = Known ''EP0003''"
definition ASSERT_FAILURE :: sql_state where "ASSERT_FAILURE = Known ''EP0004''"
definition INTERNAL_ERROR :: sql_state where "INTERNAL_ERROR = Known ''EXX000''"
definition DATA_CORRUPTED :: sql_state where "DATA_CORRUPTED = Known ''EXX001''"
definition INDEX_CORRUPTED :: sql_state where "INDEX_CORRUPTED = Known ''EXX002''"

text \<open>Several constants may share a variant. All of them:\<close>

lemmas state_constants =
  SUCCESSFUL_COMPLETION_def WARNING_def WARNING_DYNAMIC_RESULT_SETS_RETURNED_def
  WARNING_IMPLICIT_ZERO_BIT_PADDING_def WARNING_NULL_VALUE_ELIMINATED_IN_SET_FUNCTION_def
  WARNING_PRIVILEGE_NOT_GRANTED_def WARNING_PRIVILEGE_NOT_REVOKED_def
  WARNING_STRING_DATA_RIGHT_TRUNCATION_def WARNING_DEPRECATED_FEATURE_def NO_DATA_def
  NO_ADDITIONAL_DYNAMIC_RESULT_SETS_RETURNED_def SQL_STATEMENT_NOT_YET_COMPLETE_def CONNECTION_EXCEPTION_def
  CONNECTION_DOES_NOT_EXIST_def CONNECTION_FAILURE_def SQLCLIENT_UNABLE_TO_ESTABLISH_SQLCONNECTION_def
  SQLSERVER_REJECTED_ESTABLISHMENT_OF_SQLCONNECTION_def TRANSACTION_RESOLUTION_UNKNOWN_def
  PROTOCOL_VIOLATION_def TRIGGERED_ACTION_EXCEPTION_def FEATURE_NOT_SUPPORTED_def
  INVALID_TRANSACTION_INITIATION_def LOCATOR_EXCEPTION_def L_E_INVALID_SPECIFICATION_def
  INVALID_GRANTOR_def INVALID_GRANT_OPERATION_def INVALID_ROLE_SPECIFICATION_def DIAGNOSTICS_EXCEPTION_def
  STACKED_DIAGNOSTICS_ACCESSED_WITHOUT_ACTIVE_HANDLER_def CASE_NOT_FOUND_def CARDINALITY_VIOLATION_def
  DATA_EXCEPTION_def ARRAY_ELEMENT_ERROR_def ARRAY_SUBSCRIPT_ERROR_def CHARACTER_NOT_IN_REPERTOIRE_def
  DATETIME_FIELD_OVERFLOW_def DATETIME_VALUE_OUT_OF_RANGE_def DIVISION_BY_ZERO_def ERROR_IN_ASSIGNMENT_def
  ESCAPE_CHARACTER_CONFLICT_def INDICATOR_OVERFLOW_def INTERVAL_FIELD_OVERFLOW_def
  INVALID_ARGUMENT_FOR_LOG_def INVALID_ARGUMENT_FOR_NTILE_def INVALID_ARGUMENT_FOR_NTH_VALUE_def
  INVALID_ARGUMENT_FOR_POWER_FUNCTION_def INVALID_ARGUMENT_FOR_WIDTH_BUCKET_FUNCTION_def
  INVALID_CHARACTER_VALUE_FOR_CAST_def INVALID_DATETIME_FORMAT_def INVALID_ESCAPE_CHARACTER_def
  INVALID_ESCAPE_OCTET_def INVALID_ESCAPE_SEQUENCE_def NONSTANDARD_USE_OF_ESCAPE_CHARACTER_def
  INVALID_INDICATOR_PARAMETER_VALUE_def INVALID_PARAMETER_VALUE_def INVALID_PRECEDING_OR_FOLLOWING_SIZE_def
  INVALID_REGULAR_EXPRESSION_def INVALID_ROW_COUNT_IN_LIMIT_CLAUSE_def
  INVALID_ROW_COUNT_IN_RESULT_OFFSET_CLAUSE_def INVALID_TABLESAMPLE_ARGUMENT_def
  INVALID_TABLESAMPLE_REPEAT_def INVALID_TIME_ZONE_DISPLACEMENT_VALUE_def
  INVALID_USE_OF_ESCAPE_CHARACTER_def MOST_SPECIFIC_TYPE_MISMATCH_def NULL_VALUE_NOT_ALLOWED_def
  NULL_VALUE_NO_INDICATOR_PARAMETER_def NUMERIC_VALUE_OUT_OF_RANGE_def SEQUENCE_GENERATOR_LIMIT_EXCEEDED_def
  STRING_DATA_LENGTH_MISMATCH_def STRING_DATA_RIGHT_TRUNCATION_def SUBSTRING_ERROR_def TRIM_ERROR_def
  UNTERMINATED_C_STRING_def ZERO_LENGTH_CHARACTER_STRING_def FLOATING_POINT_EXCEPTION_def
  INVALID_TEXT_REPRESENTATION_def INVALID_BINARY_REPRESENTATION_def BAD_COPY_FILE_FORMAT_def
  UNTRANSLATABLE_CHARACTER_def NOT_AN_XML_DOCUMENT_def INVALID_XML_DOCUMENT_def INVALID_XML_CONTENT_def
  INVALID_XML_COMMENT_def INVALID_XML_PROCESSING_INSTRUCTION_def DUPLICATE_JSON_OBJECT_KEY_VALUE_def
  INVALID_ARGUMENT_FOR_SQL_JSON_DATETIME_FUNCTION_def INVALID_JSON_TEXT_def INVALID_SQL_JSON_SUBSCRIPT_def
  MORE_THAN_ONE_SQL_JSON_ITEM_def NO_SQL_JSON_ITEM_def NON_NUMERIC_SQL_JSON_ITEM_def
  NON_UNIQUE_KEYS_IN_A_JSON_OBJECT_def SINGLETON_SQL_JSON_ITEM_REQUIRED_def SQL_JSON_ARRAY_NOT_FOUND_def
  SQL_JSON_MEMBER_NOT_FOUND_def SQL_JSON_NUMBER_NOT_FOUND_def SQL_JSON_OBJECT_NOT_FOUND_def
  TOO_MANY_JSON_ARRAY_ELEMENTS_def TOO_MANY_JSON_OBJECT_MEMBERS_def SQL_JSON_SCALAR_REQUIRED_def
  SQL_JSON_ITEM_CANNOT_BE_CAST_TO_TARGET_TYPE_def INTEGRITY_CONSTRAINT_VIOLATION_def RESTRICT_VIOLATION_def
  NOT_NULL_VIOLATION_def FOREIGN_KEY_VIOLATION_def UNIQUE_VIOLATION_def CHECK_VIOLATION_def
  EXCLUSION_VIOLATION_def INVALID_CURSOR_STATE_def INVALID_TRANSACTION_STATE_def ACTIVE_SQL_TRANSACTION_def
  BRANCH_TRANSACTION_ALREADY_ACTIVE_def HELD_CURSOR_REQUIRES_SAME_ISOLATION_LEVEL_def
  INAPPROPRIATE_ACCESS_MODE_FOR_BRANCH_TRANSACTION_def
  INAPPROPRIATE_ISOLATION_LEVEL_FOR_BRANCH_TRANSACTION_def
  NO_ACTIVE_SQL_TRANSACTION_FOR_BRANCH_TRANSACTION_def READ_ONLY_SQL_TRANSACTION_def
  SCHEMA_AND_DATA_STATEMENT_MIXING_NOT_SUPPORTED_def NO_ACTIVE_SQL_TRANSACTION_def
  IN_FAILED_SQL_TRANSACTION_def IDLE_IN_TRANSACTION_SESSION_TIMEOUT_def INVALID_SQL_STATEMENT_NAME_def
  UNDEFINED_PSTATEMENT_def TRIGGERED_DATA_CHANGE_VIOLATION_def INVALID_AUTHORIZATION_SPECIFICATION_def
  INVALID_PASSWORD_def DEPENDENT_PRIVILEGE_DESCRIPTORS_STILL_EXIST_def DEPENDENT_OBJECTS_STILL_EXIST_def
  INVALID_TRANSACTION_TERMINATION_def SQL_ROUTINE_EXCEPTION_def
  S_R_E_FUNCTION_EXECUTED_NO_RETURN_STATEMENT_def S_R_E_MODIFYING_SQL_DATA_NOT_PERMITTED_def
  S_R_E_PROHIBITED_SQL_STATEMENT_ATTEMPTED_def S_R_E_READING_SQL_DATA_NOT_PERMITTED_def
  INVALID_CURSOR_NAME_def UNDEFINED_CURSOR_def EXTERNAL_ROUTINE_EXCEPTION_def
  E_R_E_CONTAINING_SQL_NOT_PERMITTED_def E_R_E_MODIFYING_SQL_DATA_NOT_PERMITTED_def
  E_R_E_PROHIBITED_SQL_STATEMENT_ATTEMPTED_def E_R_E_READING_SQL_DATA_NOT_PERMITTED_def
  EXTERNAL_ROUTINE_INVOCATION_EXCEPTION_def E_R_I_E_INVALID_SQLSTATE_RETURNED_def
  E_R_I_E_NULL_VALUE_NOT_ALLOWED_def E_R_I_E_TRIGGER_PROTOCOL_VIOLATED_def E_R_I_E_SRF_PROTOCOL_VIOLATED_def
  E_R_I_E_EVENT_TRIGGER_PROTOCOL_VIOLATED_def SAVEPOINT_EXCEPTION_def S_E_INVALID_SPECIFICATION_def
  INVALID_CATALOG_NAME_def UNDEFINED_DATABASE_def INVALID_SCHEMA_NAME_def UNDEFINED_SCHEMA_def
  TRANSACTION_ROLLBACK_def T_R_INTEGRITY_CONSTRAINT_VIOLATION_def T_R_SERIALIZATION_FAILURE_def
  T_R_STATEMENT_COMPLETION_UNKNOWN_def T_R_DEADLOCK_DETECTED_def SYNTAX_ERROR_OR_ACCESS_RULE_VIOLATION_def
  SYNTAX_ERROR_def INSUFFICIENT_PRIVILEGE_def CANNOT_COERCE_def GROUPING_ERROR_def WINDOWING_ERROR_def
  INVALID_RECURSION_def INVALID_FOREIGN_KEY_def INVALID_NAME_def NAME_TOO_LONG_def RESERVED_NAME_def
  DATATYPE_MISMATCH_def INDETERMINATE_DATATYPE_def COLLATION_MISMATCH_def INDETERMINATE_COLLATION_def
  WRONG_OBJECT_TYPE_def GENERATED_ALWAYS_def UNDEFINED_COLUMN_def UNDEFINED_FUNCTION_def
  UNDEFINED_TABLE_def UNDEFINED_PARAMETER_def UNDEFINED_OBJECT_def DUPLICATE_COLUMN_def
  DUPLICATE_CURSOR_def DUPLICATE_DATABASE_def DUPLICATE_FUNCTION_def DUPLICATE_PSTATEMENT_def
  DUPLICATE_SCHEMA_def DUPLICATE_TABLE_def DUPLICATE_ALIAS_def DUPLICATE_OBJECT_def AMBIGUOUS_COLUMN_def
  AMBIGUOUS_FUNCTION_def AMBIGUOUS_PARAMETER_def AMBIGUOUS_ALIAS_def INVALID_COLUMN_REFERENCE_def
  INVALID_COLUMN_DEFINITION_def INVALID_CURSOR_DEFINITION_def INVALID_DATABASE_DEFINITION_def
  INVALID_FUNCTION_DEFINITION_def INVALID_PSTATEMENT_DEFINITION_def INVALID_SCHEMA_DEFINITION_def
  INVALID_TABLE_DEFINITION_def INVALID_OBJECT_DEFINITION_def WITH_CHECK_OPTION_VIOLATION_def
  INSUFFICIENT_RESOURCES_def DISK_FULL_def OUT_OF_MEMORY_def TOO_MANY_CONNECTIONS_def
  CONFIGURATION_LIMIT_EXCEEDED_def PROGRAM_LIMIT_EXCEEDED_def STATEMENT_TOO_COMPLEX_def
  TOO_MANY_COLUMNS_def TOO_MANY_ARGUMENTS_def OBJECT_NOT_IN_PREREQUISITE_STATE_def OBJECT_IN_USE_def
  CANT_CHANGE_RUNTIME_PARAM_def LOCK_NOT_AVAILABLE_def UNSAFE_NEW_ENUM_VALUE_USAGE_def
  OPERATOR_INTERVENTION_def QUERY_CANCELED_def ADMIN_SHUTDOWN_def CRASH_SHUTDOWN_def
  CANNOT_CONNECT_NOW_def DATABASE_DROPPED_def IDLE_SESSION_TIMEOUT_def SYSTEM_ERROR_def IO_ERROR_def
  UNDEFINED_FILE_def DUPLICATE_FILE_def SNAPSHOT_TOO_OLD_def CONFIG_FILE_ERROR_def LOCK_FILE_EXISTS_def
  FDW_ERROR_def FDW_COLUMN_NAME_NOT_FOUND_def FDW_DYNAMIC_PARAMETER_VALUE_NEEDED_def
  FDW_FUNCTION_SEQUENCE_ERROR_def FDW_INCONSISTENT_DESCRIPTOR_INFORMATION_def
  FDW_INVALID_ATTRIBUTE_VALUE_def FDW_INVALID_COLUMN_NAME_def FDW_INVALID_COLUMN_NUMBER_def
  FDW_INVALID_DATA_TYPE_def FDW_INVALID_DATA_TYPE_DESCRIPTORS_def
  FDW_INVALID_DESCRIPTOR_FIELD_IDENTIFIER_def FDW_INVALID_HANDLE_def FDW_INVALID_OPTION_INDEX_def
  FDW_INVALID_OPTION_NAME_def FDW_INVALID_STRING_LENGTH_OR_BUFFER_LENGTH_def FDW_INVALID_STRING_FORMAT_def
  FDW_INVALID_USE_OF_NULL_POINTER_def FDW_TOO_MANY_HANDLES_def FDW_OUT_OF_MEMORY_def FDW_NO_SCHEMAS_def
  FDW_OPTION_NAME_NOT_FOUND_def FDW_REPLY_HANDLE_def FDW_SCHEMA_NOT_FOUND_def FDW_TABLE_NOT_FOUND_def
  FDW_UNABLE_TO_CREATE_EXECUTION_def FDW_UNABLE_TO_CREATE_REPLY_def FDW_UNABLE_TO_ESTABLISH_CONNECTION_def
  PLPGSQL_ERROR_def RAISE_EXCEPTION_def NO_DATA_FOUND_def TOO_MANY_ROWS_def ASSERT_FAILURE_def
  INTERNAL_ERROR_def DATA_CORRUPTED_def INDEX_CORRUPTED_def

section \<open>The map\<close>

definition map_entries_1 :: "(str \<times> sql_state) list" where
  "map_entries_1 = [
    (''HV010'', FDW_FUNCTION_SEQUENCE_ERROR), (''03000'', SQL_STATEMENT_NOT_YET_COMPLETE),
    (''22004'', NULL_VALUE_NOT_ALLOWED), (''55P04'', UNSAFE_NEW_ENUM_VALUE_USAGE),
    (''2203C'', SQL_JSON_OBJECT_NOT_FOUND), (''22033'', INVALID_SQL_JSON_SUBSCRIPT),
    (''44000'', WITH_CHECK_OPTION_VIOLATION), (''22035'', NO_SQL_JSON_ITEM),
    (''42P18'', INDETERMINATE_DATATYPE), (''HV005'', FDW_COLUMN_NAME_NOT_FOUND),
    (''HV009'', FDW_INVALID_USE_OF_NULL_POINTER), (''HV00Q'', FDW_SCHEMA_NOT_FOUND),
    (''2200H'', SEQUENCE_GENERATOR_LIMIT_EXCEEDED), (''42P06'', DUPLICATE_SCHEMA),
    (''2D000'', INVALID_TRANSACTION_TERMINATION), (''57P01'', ADMIN_SHUTDOWN),
    (''27000'', TRIGGERED_DATA_CHANGE_VIOLATION), (''38003'', E_R_E_PROHIBITED_SQL_STATEMENT_ATTEMPTED),
    (''01003'', WARNING_NULL_VALUE_ELIMINATED_IN_SET_FUNCTION), (''42P19'', INVALID_RECURSION),
    (''57P02'', CRASH_SHUTDOWN), (''22012'', DIVISION_BY_ZERO), (''01008'', WARNING_IMPLICIT_ZERO_BIT_PADDING),
    (''22032'', INVALID_JSON_TEXT), (''42723'', DUPLICATE_FUNCTION), (''22P01'', FLOATING_POINT_EXCEPTION),
    (''0100C'', WARNING_DYNAMIC_RESULT_SETS_RETURNED), (''42P02'', UNDEFINED_PARAMETER),
    (''42804'', DATATYPE_MISMATCH), (''42P09'', AMBIGUOUS_ALIAS), (''23505'', UNIQUE_VIOLATION),
    (''23P01'', EXCLUSION_VIOLATION), (''2200M'', INVALID_XML_DOCUMENT), (''23514'', CHECK_VIOLATION),
    (''2200S'', INVALID_XML_COMMENT), (''HV00K'', FDW_REPLY_HANDLE), (''38000'', EXTERNAL_ROUTINE_EXCEPTION),
    (''42P08'', AMBIGUOUS_PARAMETER), (''2F005'', S_R_E_FUNCTION_EXECUTED_NO_RETURN_STATEMENT),
    (''22000'', DATA_EXCEPTION), (''2201G'', INVALID_ARGUMENT_FOR_WIDTH_BUCKET_FUNCTION),
    (''42704'', UNDEFINED_OBJECT), (''08006'', CONNECTION_FAILURE),
    (''0B000'', INVALID_TRANSACTION_INITIATION), (''22021'', CHARACTER_NOT_IN_REPERTOIRE),
    (''22013'', INVALID_PRECEDING_OR_FOLLOWING_SIZE), (''22P02'', INVALID_TEXT_REPRESENTATION),
    (''40001'', T_R_SERIALIZATION_FAILURE), (''42P11'', INVALID_CURSOR_DEFINITION),
    (''2203D'', TOO_MANY_JSON_ARRAY_ELEMENTS), (''2201E'', INVALID_ARGUMENT_FOR_LOG),
    (''40000'', TRANSACTION_ROLLBACK), (''42P15'', INVALID_SCHEMA_DEFINITION), (''42701'', DUPLICATE_COLUMN),
    (''22001'', STRING_DATA_RIGHT_TRUNCATION), (''P0002'', NO_DATA_FOUND),
    (''HV00D'', FDW_INVALID_OPTION_NAME), (''25002'', BRANCH_TRANSACTION_ALREADY_ACTIVE),
    (''HV021'', FDW_INCONSISTENT_DESCRIPTOR_INFORMATION), (''0F000'', LOCATOR_EXCEPTION),
    (''22036'', NON_NUMERIC_SQL_JSON_ITEM), (''HV091'', FDW_INVALID_DESCRIPTOR_FIELD_IDENTIFIER),
    (''22P03'', INVALID_BINARY_REPRESENTATION), (''HV007'', FDW_INVALID_COLUMN_NAME),
    (''01P01'', WARNING_DEPRECATED_FEATURE), (''42939'', RESERVED_NAME), (''42P16'', INVALID_TABLE_DEFINITION),
    (''0Z000'', DIAGNOSTICS_EXCEPTION), (''HV00C'', FDW_INVALID_OPTION_INDEX),
    (''2200G'', MOST_SPECIFIC_TYPE_MISMATCH), (''42000'', SYNTAX_ERROR_OR_ACCESS_RULE_VIOLATION),
    (''22039'', SQL_JSON_ARRAY_NOT_FOUND), (''72000'', SNAPSHOT_TOO_OLD), (''42703'', UNDEFINED_COLUMN),
    (''P0004'', ASSERT_FAILURE), (''0L000'', INVALID_GRANTOR), (''25P02'', IN_FAILED_SQL_TRANSACTION),
    (''42P14'', INVALID_PSTATEMENT_DEFINITION), (''22007'', INVALID_DATETIME_FORMAT),
    (''54001'', STATEMENT_TOO_COMPLEX), (''25001'', ACTIVE_SQL_TRANSACTION),
    (''42P22'', INDETERMINATE_COLLATION), (''0F001'', L_E_INVALID_SPECIFICATION),
    (''39004'', E_R_I_E_NULL_VALUE_NOT_ALLOWED), (''23502'', NOT_NULL_VIOLATION),
    (''38002'', E_R_E_MODIFYING_SQL_DATA_NOT_PERMITTED), (''HV00N'', FDW_UNABLE_TO_ESTABLISH_CONNECTION),
    (''42P21'', COLLATION_MISMATCH), (''42P12'', INVALID_DATABASE_DEFINITION),
    (''25004'', INAPPROPRIATE_ISOLATION_LEVEL_FOR_BRANCH_TRANSACTION), (''HV00P'', FDW_NO_SCHEMAS),
    (''2201F'', INVALID_ARGUMENT_FOR_POWER_FUNCTION), (''42P07'', DUPLICATE_TABLE),
    (''08007'', TRANSACTION_RESOLUTION_UNKNOWN), (''42P17'', INVALID_OBJECT_DEFINITION),
    (''0A000'', FEATURE_NOT_SUPPORTED), (''25008'', HELD_CURSOR_REQUIRES_SAME_ISOLATION_LEVEL),
    (''08001'', SQLCLIENT_UNABLE_TO_ESTABLISH_SQLCONNECTION), (''42611'', INVALID_COLUMN_DEFINITION),
    (''3B001'', S_E_INVALID_SPECIFICATION), (''XX002'', INDEX_CORRUPTED),
    (''HV024'', FDW_INVALID_ATTRIBUTE_VALUE), (''01000'', WARNING),
    (''22P06'', NONSTANDARD_USE_OF_ESCAPE_CHARACTER), (''0P000'', INVALID_ROLE_SPECIFICATION),
    (''08000'', CONNECTION_EXCEPTION), (''42602'', INVALID_NAME), (''3B000'', SAVEPOINT_EXCEPTION),
    (''42P05'', DUPLICATE_PSTATEMENT), (''42P20'', WINDOWING_ERROR), (''55P03'', LOCK_NOT_AVAILABLE),
    (''58000'', SYSTEM_ERROR), (''55006'', OBJECT_IN_USE),
    (''25005'', NO_ACTIVE_SQL_TRANSACTION_FOR_BRANCH_TRANSACTION), (''54011'', TOO_MANY_COLUMNS),
    (''55P02'', CANT_CHANGE_RUNTIME_PARAM), (''08003'', CONNECTION_DOES_NOT_EXIST),
    (''57000'', OPERATOR_INTERVENTION), (''HV090'', FDW_INVALID_STRING_LENGTH_OR_BUFFER_LENGTH),
    (''42501'', INSUFFICIENT_PRIVILEGE), (''428C9'', GENERATED_ALWAYS), (''2200N'', INVALID_XML_CONTENT),
    (''57014'', QUERY_CANCELED), (''58P02'', DUPLICATE_FILE), (''42P10'', INVALID_COLUMN_REFERENCE),
    (''2203E'', TOO_MANY_JSON_OBJECT_MEMBERS), (''22P04'', BAD_COPY_FILE_FORMAT),
    (''02001'', NO_ADDITIONAL_DYNAMIC_RESULT_SETS_RETURNED), (''22019'', INVALID_ESCAPE_CHARACTER),
    (''39P02'', E_R_I_E_SRF_PROTOCOL_VIOLATED), (''2200C'', INVALID_USE_OF_ESCAPE_CHARACTER),
    (''P0000'', PLPGSQL_ERROR), (''42883'', UNDEFINED_FUNCTION), (''2201B'', INVALID_REGULAR_EXPRESSION),
    (''2200F'', ZERO_LENGTH_CHARACTER_STRING), (''23001'', RESTRICT_VIOLATION),
    (''01006'', WARNING_PRIVILEGE_NOT_REVOKED), (''38004'', E_R_E_READING_SQL_DATA_NOT_PERMITTED),
    (''2202G'', INVALID_TABLESAMPLE_REPEAT), (''25003'', INAPPROPRIATE_ACCESS_MODE_FOR_BRANCH_TRANSACTION),
    (''08004'', SQLSERVER_REJECTED_ESTABLISHMENT_OF_SQLCONNECTION), (''54000'', PROGRAM_LIMIT_EXCEEDED),
    (''22016'', INVALID_ARGUMENT_FOR_NTH_VALUE), (''22022'', INDICATOR_OVERFLOW), (''XX000'', INTERNAL_ERROR),
    (''22038'', SINGLETON_SQL_JSON_ITEM_REQUIRED), (''42P01'', UNDEFINED_TABLE),
    (''53400'', CONFIGURATION_LIMIT_EXCEEDED)]"

definition map_entries_2 :: "(str \<times> sql_state) list" where
  "map_entries_2 = [
    (''09000'', TRIGGERED_ACTION_EXCEPTION), (''22027'', TRIM_ERROR), (''21000'', CARDINALITY_VIOLATION),
    (''HV014'', FDW_TOO_MANY_HANDLES), (''57P03'', CANNOT_CONNECT_NOW), (''F0001'', LOCK_FILE_EXISTS),
    (''42P04'', DUPLICATE_DATABASE), (''2F004'', S_R_E_READING_SQL_DATA_NOT_PERMITTED),
    (''22011'', SUBSTRING_ERROR), (''39001'', E_R_I_E_INVALID_SQLSTATE_RETURNED),
    (''28000'', INVALID_AUTHORIZATION_SPECIFICATION), (''25000'', INVALID_TRANSACTION_STATE),
    (''22014'', INVALID_ARGUMENT_FOR_NTILE), (''22037'', NON_UNIQUE_KEYS_IN_A_JSON_OBJECT),
    (''2203A'', SQL_JSON_MEMBER_NOT_FOUND), (''2BP01'', DEPENDENT_OBJECTS_STILL_EXIST),
    (''22009'', INVALID_TIME_ZONE_DISPLACEMENT_VALUE), (''2203F'', SQL_JSON_SCALAR_REQUIRED),
    (''25006'', READ_ONLY_SQL_TRANSACTION), (''42846'', CANNOT_COERCE), (''22005'', ERROR_IN_ASSIGNMENT),
    (''53300'', TOO_MANY_CONNECTIONS), (''0Z002'', STACKED_DIAGNOSTICS_ACCESSED_WITHOUT_ACTIVE_HANDLER),
    (''39P03'', E_R_I_E_EVENT_TRIGGER_PROTOCOL_VIOLATED), (''2F000'', SQL_ROUTINE_EXCEPTION),
    (''42830'', INVALID_FOREIGN_KEY), (''42803'', GROUPING_ERROR), (''22025'', INVALID_ESCAPE_SEQUENCE),
    (''HV004'', FDW_INVALID_DATA_TYPE), (''22034'', MORE_THAN_ONE_SQL_JSON_ITEM),
    (''01007'', WARNING_PRIVILEGE_NOT_GRANTED), (''22003'', NUMERIC_VALUE_OUT_OF_RANGE),
    (''39000'', EXTERNAL_ROUTINE_INVOCATION_EXCEPTION),
    (''2B000'', DEPENDENT_PRIVILEGE_DESCRIPTORS_STILL_EXIST), (''42710'', DUPLICATE_OBJECT),
    (''2F002'', S_R_E_MODIFYING_SQL_DATA_NOT_PERMITTED), (''F0000'', CONFIG_FILE_ERROR),
    (''40P01'', T_R_DEADLOCK_DETECTED), (''2202E'', ARRAY_ELEMENT_ERROR),
    (''2203G'', SQL_JSON_ITEM_CANNOT_BE_CAST_TO_TARGET_TYPE), (''22018'', INVALID_CHARACTER_VALUE_FOR_CAST),
    (''42712'', DUPLICATE_ALIAS), (''23503'', FOREIGN_KEY_VIOLATION),
    (''2F003'', S_R_E_PROHIBITED_SQL_STATEMENT_ATTEMPTED), (''22008'', DATETIME_FIELD_OVERFLOW),
    (''2200T'', INVALID_XML_PROCESSING_INSTRUCTION), (''22024'', UNTERMINATED_C_STRING),
    (''42601'', SYNTAX_ERROR), (''3D000'', INVALID_CATALOG_NAME), (''28P01'', INVALID_PASSWORD),
    (''HV006'', FDW_INVALID_DATA_TYPE_DESCRIPTORS), (''HV008'', FDW_INVALID_COLUMN_NUMBER),
    (''2200L'', NOT_AN_XML_DOCUMENT), (''02000'', NO_DATA), (''53200'', OUT_OF_MEMORY),
    (''22002'', NULL_VALUE_NO_INDICATOR_PARAMETER), (''40002'', T_R_INTEGRITY_CONSTRAINT_VIOLATION),
    (''23000'', INTEGRITY_CONSTRAINT_VIOLATION), (''22015'', INTERVAL_FIELD_OVERFLOW),
    (''XX001'', DATA_CORRUPTED), (''2202H'', INVALID_TABLESAMPLE_ARGUMENT), (''20000'', CASE_NOT_FOUND),
    (''54023'', TOO_MANY_ARGUMENTS), (''42725'', AMBIGUOUS_FUNCTION),
    (''22010'', INVALID_INDICATOR_PARAMETER_VALUE), (''39P01'', E_R_I_E_TRIGGER_PROTOCOL_VIOLATED),
    (''3F000'', INVALID_SCHEMA_NAME), (''01004'', WARNING_STRING_DATA_RIGHT_TRUNCATION),
    (''HV00A'', FDW_INVALID_STRING_FORMAT), (''2203B'', SQL_JSON_NUMBER_NOT_FOUND),
    (''2201W'', INVALID_ROW_COUNT_IN_LIMIT_CLAUSE), (''2200D'', INVALID_ESCAPE_OCTET),
    (''24000'', INVALID_CURSOR_STATE), (''53000'', INSUFFICIENT_RESOURCES), (''53100'', DISK_FULL),
    (''2200B'', ESCAPE_CHARACTER_CONFLICT), (''2201X'', INVALID_ROW_COUNT_IN_RESULT_OFFSET_CLAUSE),
    (''55000'', OBJECT_NOT_IN_PREREQUISITE_STATE), (''HV00L'', FDW_UNABLE_TO_CREATE_EXECUTION),
    (''25007'', SCHEMA_AND_DATA_STATEMENT_MIXING_NOT_SUPPORTED), (''0LP01'', INVALID_GRANT_OPERATION),
    (''40003'', T_R_STATEMENT_COMPLETION_UNKNOWN), (''HV00M'', FDW_UNABLE_TO_CREATE_REPLY),
    (''25P01'', NO_ACTIVE_SQL_TRANSACTION), (''25P03'', IDLE_IN_TRANSACTION_SESSION_TIMEOUT),
    (''22P05'', UNTRANSLATABLE_CHARACTER), (''HV00R'', FDW_TABLE_NOT_FOUND),
    (''00000'', SUCCESSFUL_COMPLETION), (''26000'', INVALID_SQL_STATEMENT_NAME), (''P0001'', RAISE_EXCEPTION),
    (''58P01'', UNDEFINED_FILE), (''22026'', STRING_DATA_LENGTH_MISMATCH), (''57P04'', DATABASE_DROPPED),
    (''HV001'', FDW_OUT_OF_MEMORY), (''HV000'', FDW_ERROR), (''42702'', AMBIGUOUS_COLUMN),
    (''42P03'', DUPLICATE_CURSOR), (''42622'', NAME_TOO_LONG), (''58030'', IO_ERROR),
    (''HV002'', FDW_DYNAMIC_PARAMETER_VALUE_NEEDED), (''22023'', INVALID_PARAMETER_VALUE),
    (''57P05'', IDLE_SESSION_TIMEOUT), (''HV00J'', FDW_OPTION_NAME_NOT_FOUND), (''42809'', WRONG_OBJECT_TYPE),
    (''42P13'', INVALID_FUNCTION_DEFINITION), (''22031'', INVALID_ARGUMENT_FOR_SQL_JSON_DATETIME_FUNCTION),
    (''P0003'', TOO_MANY_ROWS), (''38001'', E_R_E_CONTAINING_SQL_NOT_PERMITTED),
    (''22030'', DUPLICATE_JSON_OBJECT_KEY_VALUE), (''08P01'', PROTOCOL_VIOLATION),
    (''HV00B'', FDW_INVALID_HANDLE), (''34000'', INVALID_CURSOR_NAME)]"

definition map_entries :: "(str \<times> sql_state) list" where
  "map_entries = map_entries_1 @ map_entries_2"

section \<open>Codes\<close>

type_synonym phf_get = "(str \<times> sql_state) list \<Rightarrow> str \<Rightarrow> sql_state option"

definition from_code :: "phf_get \<Rightarrow> str \<Rightarrow> sql_state" where
  "from_code get s = (case get map_entries s of Some state \<Rightarrow> state | None \<Rightarrow> OtherCode s)"

primrec state_code :: "sql_state \<Rightarrow> str" where
  "state_code (Known v) = the (map_of code_arms v)"
| "state_code (OtherCode s) = s"

end
