(* ===== verification/TableSort.thy ===== *)
theory TableSort
  imports Prelude "HOL-Library.Multiset"
begin

text \<open>A merge sort on lists of numbers, by which the simplifier compares the generated tables.\<close>

fun merge :: "nat list \<Rightarrow> nat list \<Rightarrow> nat list" where
  "merge [] ys = ys"
| "merge (x # xs) [] = x # xs"
| "merge (x # xs) (y # ys) = (if x \<le> y then x # merge xs (y # ys) else y # merge (x # xs) ys)"

fun merge_pairs :: "nat list list \<Rightarrow> nat list list" where
  "merge_pairs (xs # ys # r) = merge xs ys # merge_pairs r"
| "merge_pairs r = r"

lemma merge_pairs_length: "length (merge_pairs r) \<le> length r"
  by (induction r rule: merge_pairs.induct) simp_all

function merge_all :: "nat list list \<Rightarrow> nat list" where
  "merge_all [] = []"
| "merge_all [xs] = xs"
| "merge_all (xs # ys # r) = merge_all (merge xs ys # merge_pairs r)"
  by pat_completeness auto
termination
  by (relation "measure length") (auto simp: less_Suc_eq_le merge_pairs_length le_SucI)

lemma set_merge: "set (merge xs ys) = set xs \<union> set ys"
  by (induction xs ys rule: merge.induct) auto

lemma set_merge_pairs: "\<Union> (set ` set (merge_pairs r)) = \<Union> (set ` set r)"
  by (induction r rule: merge_pairs.induct) (auto simp: set_merge)

lemma set_merge_all: "set (merge_all r) = \<Union> (set ` set r)"
  by (induction r rule: merge_all.induct) (auto simp: set_merge set_merge_pairs)

lemma set_merge_singles: "set (merge_all (map (\<lambda>x. [f x]) xs)) = f ` set xs"
  by (auto simp: set_merge_all)

lemma mset_merge: "mset (merge xs ys) = mset xs + mset ys"
  by (induction xs ys rule: merge.induct) auto

lemma mset_merge_pairs: "(\<Sum>xs\<leftarrow>merge_pairs r. mset xs) = (\<Sum>xs\<leftarrow>r. mset xs)"
  by (induction r rule: merge_pairs.induct) (auto simp: mset_merge add.assoc)

lemma mset_merge_all: "mset (merge_all r) = (\<Sum>xs\<leftarrow>r. mset xs)"
  by (induction r rule: merge_all.induct) (auto simp: mset_merge mset_merge_pairs add.assoc)

lemma mset_merge_singles: "mset (merge_all (map (\<lambda>x. [f x]) xs)) = mset (map f xs)"
  by (induction xs) (simp_all add: mset_merge_all)

lemma distinct_of_sorted:
  assumes "sorted_wrt (<) (merge_all (map (\<lambda>x. [f x]) xs))"
  shows "distinct xs"
proof -
  from assms have "distinct (merge_all (map (\<lambda>x. [f x]) xs))" by (simp add: strict_sorted_iff)
  then have "distinct (map f xs)" by (metis mset_merge_singles mset_eq_imp_distinct_iff)
  then show ?thesis by (simp add: distinct_map)
qed

end
