(* ===== verification/SqlStatesSpec.thy ===== *)
theory SqlStatesSpec
  imports SqlStates TableSort
begin

text \<open>
  The tables of \<open>sqlstate.rs\<close> agree: a \<open>SqlState\<close> is its code. The codes of the two tables are compared
  as sorted lists of numbers.
\<close>

section \<open>Codes as numbers\<close>

definition code_num :: "str \<Rightarrow> nat" where
  "code_num s = foldl (\<lambda>n c. n * 64 + (of_char c - 48)) 0 s"

definition code_char :: "char \<Rightarrow> bool" where
  "code_char c \<longleftrightarrow> (48::nat) \<le> of_char c \<and> of_char c < (112::nat)"

definition is_code :: "str \<Rightarrow> bool" where
  "is_code s \<longleftrightarrow> length s = 5 \<and> list_all code_char s"

lemma code_num_inj: "length s = length t \<Longrightarrow> list_all code_char s \<Longrightarrow> list_all code_char t \<Longrightarrow> code_num s = code_num t \<Longrightarrow> s = t"
proof (induction s arbitrary: t rule: rev_induct)
  case (snoc c s)
  from snoc.prems(1) obtain u d where t: "t = u @ [d]" by (cases t rule: rev_cases) simp_all
  have bounds: "of_char c - 48 < (64::nat)" "of_char d - 48 < (64::nat)" using snoc.prems(2,3) t by (auto simp: code_char_def)
  have "code_num s * 64 + (of_char c - 48) = code_num u * 64 + (of_char d - 48)"
    using snoc.prems(4) by (simp add: t code_num_def)
  then have "code_num s = code_num u" and "of_char c - 48 = (of_char d - 48 :: nat)"
    using bounds by (metis div_mult_self3 div_less add_0 mod_mult_self3 mod_less add.commute zero_neq_numeral)+
  moreover have "c = d" if "of_char c - 48 = (of_char d - 48 :: nat)"
  proof -
    have "code_char c" "code_char d" using snoc.prems(2,3) t by simp_all
    with that have "(of_char c :: nat) = of_char d" unfolding code_char_def by linarith
    then show ?thesis by simp
  qed
  ultimately show ?case using snoc t by simp
qed simp

definition code_order :: "nat list" where
  "code_order = [
    0, 262144, 262147, 262148, 262150, 262151, 262152, 262163, 393217, 524288, 524289, 786432, 2097152,
    2097153, 2097155, 2097156, 2097158, 2097159, 2228225, 2359296, 4456448, 4718592, 5767168, 5767169, 7340032,
    7471105, 8388608, 11010048, 11010050, 33554432, 33816576, 34078720, 34078721, 34078722, 34078723, 34078724,
    34078725, 34078727, 34078728, 34078729, 34078738, 34078739, 34078740, 34078742, 34078743, 34078744,
    34078748, 34078749, 34078750, 34078755, 34078756, 34078784, 34078785, 34078786, 34078787, 34078788,
    34078789, 34078790, 34078792, 34078793, 34078802, 34078805, 34078806, 34078807, 34078823, 34078824,
    34078849, 34078850, 34078851, 34078852, 34078853, 34078854, 34078855, 34078869, 34078871, 34078872,
    34078912, 34078913, 34078914, 34078915, 34078916, 34078917, 34078918, 34078919, 34078920, 34078921,
    34078929, 34078930, 34078931, 34078932, 34078933, 34078934, 34078935, 34209793, 34209794, 34209795,
    34209796, 34209797, 34209798, 34340864, 34340865, 34361346, 34361347, 34361349, 34361412, 34471937,
    34603008, 34865152, 34865153, 34865154, 34865155, 34865156, 34865157, 34865158, 34865159, 34865160,
    34996225, 34996226, 34996227, 35127296, 35389440, 35651584, 35782657, 38273024, 38404097, 38797312,
    39321600, 39321602, 39321603, 39321604, 39321605, 51380224, 52428800, 52428801, 52428802, 52428803,
    52428804, 52690944, 52690945, 52690948, 52822017, 52822018, 52822019, 55050240, 55050241, 55574528,
    56098816, 67108864, 67108865, 67108866, 67108867, 67239937, 67633152, 67653633, 67657729, 67657730,
    67657793, 67657858, 67661825, 67661826, 67661827, 67661828, 67661888, 67661890, 67661955, 67661957,
    67665923, 67665924, 67665929, 67666112, 67666182, 67666435, 67667145, 67670217, 67764225, 67764226,
    67764227, 67764228, 67764229, 67764230, 67764231, 67764232, 67764233, 67764288, 67764289, 67764290,
    67764291, 67764292, 67764293, 67764294, 67764295, 67764296, 67764297, 67764352, 67764353, 67764354,
    68157440, 84672512, 84676608, 84680704, 84684800, 84688896, 84934656, 84934657, 84934721, 84934787,
    85196800, 85196806, 85327874, 85327875, 85327876, 85721088, 85721156, 85852161, 85852162, 85852163,
    85852164, 85852165, 85983232, 85983424, 86114305, 86114306, 117964800, 369098752, 369098753, 412614656,
    412614657, 412614658, 412614660, 412614661, 412614662, 412614663, 412614664, 412614665, 412614673,
    412614674, 412614675, 412614676, 412614682, 412614683, 412614684, 412614685, 412614686, 412614688,
    412614689, 412614690, 412614720, 412614724, 412614785, 412614788, 412615232, 412615233, 536870912,
    536870913, 536870914, 536870915, 536870916, 681574400, 681574401, 681574402]"

section \<open>The tables\<close>

lemmas variants_defs = inner_variants_def inner_variants_1_def inner_variants_2_def
lemmas arms_defs = code_arms_def code_arms_1_def code_arms_2_def
lemmas entries_defs = map_entries_def map_entries_1_def map_entries_2_def

lemma arms_variants: "code_arms = map (\<lambda>v. (v, tl v)) inner_variants"
  unfolding variants_defs arms_defs by simp

lemma variants_named: "list_all (\<lambda>v. hd v = CHR ''E'' \<and> v \<noteq> [] \<and> is_code (tl v)) inner_variants"
  by (simp add: variants_defs is_code_def code_char_def)

lemma entries_states: "list_all (\<lambda>(c, st). st = Known (CHR ''E'' # c) \<and> is_code c) map_entries"
  by (simp add: entries_defs state_constants is_code_def code_char_def)

lemma variants_sorted: "merge_all (map (\<lambda>v. [code_num (tl v)]) inner_variants) = code_order"
  unfolding variants_defs code_num_def code_order_def by simp

lemma entries_sorted: "merge_all (map (\<lambda>e. [code_num (fst e)]) map_entries) = code_order"
  unfolding entries_defs code_num_def code_order_def by simp

lemma same_codes: "fst ` set map_entries = tl ` set inner_variants"
proof (rule inj_on_image_eq_iff [of code_num "Collect is_code", THEN iffD1])
  show "inj_on code_num (Collect is_code)" by (auto simp: inj_on_def is_code_def intro: code_num_inj)
  show "fst ` set map_entries \<subseteq> Collect is_code" using entries_states by (auto simp: list_all_iff)
  show "tl ` set inner_variants \<subseteq> Collect is_code" using variants_named by (auto simp: list_all_iff)
  have "set (merge_all (map (\<lambda>e. [code_num (fst e)]) map_entries)) = set (merge_all (map (\<lambda>v. [code_num (tl v)]) inner_variants))"
    by (simp only: variants_sorted entries_sorted)
  then show "code_num ` fst ` set map_entries = code_num ` tl ` set inner_variants"
    by (simp add: set_merge_singles image_image)
qed

lemma variant_name: "v \<in> set inner_variants \<Longrightarrow> v = CHR ''E'' # tl v"
  using variants_named by (cases v) (auto simp: list_all_iff)

lemma variant_of_code: "c \<in> tl ` set inner_variants \<longleftrightarrow> CHR ''E'' # c \<in> set inner_variants"
proof
  assume "c \<in> tl ` set inner_variants"
  then obtain v where v: "v \<in> set inner_variants" "c = tl v" by blast
  then show "CHR ''E'' # c \<in> set inner_variants" using variant_name [OF v(1)] by simp
next
  assume "CHR ''E'' # c \<in> set inner_variants"
  then show "c \<in> tl ` set inner_variants" by (rule rev_image_eqI) simp
qed

lemma state_code_Known: "v \<in> set inner_variants \<Longrightarrow> state_code (Known v) = tl v"
  by (simp add: arms_variants map_of_map_restrict)

declare state_code.simps(1) [simp del]

lemma entry_of_code:
  "map_of map_entries c = (if CHR ''E'' # c \<in> set inner_variants then Some (Known (CHR ''E'' # c)) else None)"
proof (cases "map_of map_entries c")
  case None
  then have "c \<notin> fst ` set map_entries" by (simp add: map_of_eq_None_iff)
  with None show ?thesis by (simp add: same_codes variant_of_code)
next
  case (Some st)
  then have m: "(c, st) \<in> set map_entries" by (rule map_of_SomeD)
  then have "c \<in> fst ` set map_entries" by force
  with m Some entries_states show ?thesis by (auto simp: same_codes variant_of_code list_all_iff)
qed

text \<open>
  C38. A \<open>SqlState\<close> is its code. With the lookup that \<open>phf\<close> documents, \<open>code\<close> gives back what
  \<open>from_code\<close> was given, two codes give the same state exactly if they are equal, every variant is the
  state of its code, and the constants the client compares with are the states of their codes.
\<close>

theorem sqlstate_is_code:
  assumes "\<And>c. get map_entries c = map_of map_entries c"
  shows "state_code (from_code get s) = s \<and> (from_code get s = from_code get t \<longleftrightarrow> s = t) \<and>
    (v \<in> set inner_variants \<longrightarrow> from_code get (state_code (Known v)) = Known v) \<and>
    (from_code get s = UNDEFINED_TABLE \<longleftrightarrow> s = ''42P01'') \<and> (from_code get s = UNDEFINED_COLUMN \<longleftrightarrow> s = ''42703'') \<and>
    (from_code get s = INSUFFICIENT_PRIVILEGE \<longleftrightarrow> s = ''42501'') \<and> (from_code get s = FEATURE_NOT_SUPPORTED \<longleftrightarrow> s = ''0A000'')"
proof -
  have f: "from_code get s = (if CHR ''E'' # s \<in> set inner_variants then Known (CHR ''E'' # s) else OtherCode s)" for s
    by (simp add: from_code_def assms entry_of_code)
  have c: "state_code (from_code get s) = s" for s by (simp add: f state_code_Known)
  have inj: "from_code get s = from_code get t \<longleftrightarrow> s = t" for s t by (metis c)
  have v: "from_code get (state_code (Known v)) = Known v" if "v \<in> set inner_variants"
    using f [of "tl v"] variant_name [OF that] that by (simp add: state_code_Known)
  have k: "from_code get s = Known (CHR ''E'' # d) \<longleftrightarrow> s = d" if "CHR ''E'' # d \<in> set inner_variants" for d
    using that by (auto simp: f)
  have known: "''E42P01'' \<in> set inner_variants" "''E42703'' \<in> set inner_variants" "''E42501'' \<in> set inner_variants" "''E0A000'' \<in> set inner_variants"
    by (simp_all add: variants_defs)
  show ?thesis
    using c inj v k [OF known(1)] k [OF known(2)] k [OF known(3)] k [OF known(4)]
    by (simp add: UNDEFINED_TABLE_def UNDEFINED_COLUMN_def INSUFFICIENT_PRIVILEGE_def FEATURE_NOT_SUPPORTED_def)
qed

theorem sqlstate_is_code_witness:
  "state_code (from_code (\<lambda>es c. map_of es c) ''42P01'') = ''42P01'' \<and> from_code (\<lambda>es c. map_of es c) ''42P01'' = UNDEFINED_TABLE"
  using sqlstate_is_code [of "\<lambda>es c. map_of es c" "''42P01''" "''42P01''" "''E42P01''"] by metis

end
