(* ===== verification/TypeVariants.thy ===== *)
theory TypeVariants
  imports TypeTable TableSort
begin

text \<open>
  \<open>postgres-types/src/type_gen.rs\<close>, the enum \<open>Inner\<close> and the constants of \<open>Type\<close>, a variant being its
  identifier. That the tables agree is what allows the rest of the development to name a built-in
  type by its OID.
\<close>

section \<open>The tables\<close>

definition type_variants_1 :: "str list" where
  "type_variants_1 = [
    ''Bool'', ''Bytea'', ''Char'', ''Name'', ''Int8'', ''Int2'', ''Int2Vector'', ''Int4'', ''Regproc'',
    ''Text'', ''Oid'', ''Tid'', ''Xid'', ''Cid'', ''OidVector'', ''PgDdlCommand'', ''Json'', ''Xml'',
    ''XmlArray'', ''PgNodeTree'', ''JsonArray'', ''TableAmHandler'', ''Xid8Array'', ''IndexAmHandler'',
    ''Point'', ''Lseg'', ''Path'', ''Box'', ''Polygon'', ''Line'', ''LineArray'', ''Cidr'', ''CidrArray'',
    ''Float4'', ''Float8'', ''Unknown'', ''Circle'', ''CircleArray'', ''Macaddr8'', ''Macaddr8Array'',
    ''Money'', ''MoneyArray'', ''Macaddr'', ''Inet'', ''BoolArray'', ''ByteaArray'', ''CharArray'',
    ''NameArray'', ''Int2Array'', ''Int2VectorArray'', ''Int4Array'', ''RegprocArray'', ''TextArray'',
    ''TidArray'', ''XidArray'', ''CidArray'', ''OidVectorArray'', ''BpcharArray'', ''VarcharArray'',
    ''Int8Array'', ''PointArray'', ''LsegArray'', ''PathArray'', ''BoxArray'', ''Float4Array'',
    ''Float8Array'', ''PolygonArray'', ''OidArray'', ''Aclitem'', ''AclitemArray'', ''MacaddrArray'',
    ''InetArray'', ''Bpchar'', ''Varchar'', ''Date'', ''Time'', ''Timestamp'', ''TimestampArray'',
    ''DateArray'', ''TimeArray'', ''Timestamptz'', ''TimestamptzArray'', ''Interval'', ''IntervalArray'',
    ''NumericArray'', ''CstringArray'', ''Timetz'', ''TimetzArray'', ''Bit'', ''BitArray'', ''Varbit'',
    ''VarbitArray'', ''Numeric'', ''Refcursor'', ''RefcursorArray'', ''Regprocedure'', ''Regoper'',
    ''Regoperator'', ''Regclass'', ''Regtype'', ''RegprocedureArray'', ''RegoperArray'', ''RegoperatorArray'',
    ''RegclassArray'', ''RegtypeArray'', ''Record'', ''Cstring'', ''Any'', ''Anyarray'', ''Void'', ''Trigger'',
    ''LanguageHandler'', ''Internal'', ''Anyelement'', ''RecordArray'', ''Anynonarray'', ''TxidSnapshotArray'',
    ''Uuid'', ''UuidArray'', ''TxidSnapshot'', ''FdwHandler'', ''PgLsn'', ''PgLsnArray'', ''TsmHandler'',
    ''PgNdistinct'', ''PgDependencies'', ''Anyenum'', ''TsVector'', ''Tsquery'', ''GtsVector'',
    ''TsVectorArray'', ''GtsVectorArray'', ''TsqueryArray'', ''Regconfig'', ''RegconfigArray'',
    ''Regdictionary'', ''RegdictionaryArray'', ''Jsonb'', ''JsonbArray'', ''AnyRange'', ''EventTrigger'',
    ''Int4Range'', ''Int4RangeArray'', ''NumRange'', ''NumRangeArray'', ''TsRange'', ''TsRangeArray'',
    ''TstzRange'']"

definition type_variants_2 :: "str list" where
  "type_variants_2 = [
    ''TstzRangeArray'', ''DateRange'', ''DateRangeArray'', ''Int8Range'', ''Int8RangeArray'', ''Jsonpath'',
    ''JsonpathArray'', ''Regnamespace'', ''RegnamespaceArray'', ''Regrole'', ''RegroleArray'',
    ''Regcollation'', ''RegcollationArray'', ''Int4multiRange'', ''NummultiRange'', ''TsmultiRange'',
    ''TstzmultiRange'', ''DatemultiRange'', ''Int8multiRange'', ''AnymultiRange'', ''AnycompatiblemultiRange'',
    ''PgBrinBloomSummary'', ''PgBrinMinmaxMultiSummary'', ''PgMcvList'', ''PgSnapshot'', ''PgSnapshotArray'',
    ''Xid8'', ''Anycompatible'', ''Anycompatiblearray'', ''Anycompatiblenonarray'', ''AnycompatibleRange'',
    ''Int4multiRangeArray'', ''NummultiRangeArray'', ''TsmultiRangeArray'', ''TstzmultiRangeArray'',
    ''DatemultiRangeArray'', ''Int8multiRangeArray'']"

definition type_variants :: "str list" where
  "type_variants = type_variants_1 @ type_variants_2"

definition from_oid_arms_1 :: "(nat \<times> str) list" where
  "from_oid_arms_1 = [
    (16, ''Bool''), (17, ''Bytea''), (18, ''Char''), (19, ''Name''), (20, ''Int8''), (21, ''Int2''),
    (22, ''Int2Vector''), (23, ''Int4''), (24, ''Regproc''), (25, ''Text''), (26, ''Oid''), (27, ''Tid''),
    (28, ''Xid''), (29, ''Cid''), (30, ''OidVector''), (32, ''PgDdlCommand''), (114, ''Json''), (142, ''Xml''),
    (143, ''XmlArray''), (194, ''PgNodeTree''), (199, ''JsonArray''), (269, ''TableAmHandler''),
    (271, ''Xid8Array''), (325, ''IndexAmHandler''), (600, ''Point''), (601, ''Lseg''), (602, ''Path''),
    (603, ''Box''), (604, ''Polygon''), (628, ''Line''), (629, ''LineArray''), (650, ''Cidr''),
    (651, ''CidrArray''), (700, ''Float4''), (701, ''Float8''), (705, ''Unknown''), (718, ''Circle''),
    (719, ''CircleArray''), (774, ''Macaddr8''), (775, ''Macaddr8Array''), (790, ''Money''),
    (791, ''MoneyArray''), (829, ''Macaddr''), (869, ''Inet''), (1000, ''BoolArray''), (1001, ''ByteaArray''),
    (1002, ''CharArray''), (1003, ''NameArray''), (1005, ''Int2Array''), (1006, ''Int2VectorArray''),
    (1007, ''Int4Array''), (1008, ''RegprocArray''), (1009, ''TextArray''), (1010, ''TidArray''),
    (1011, ''XidArray''), (1012, ''CidArray''), (1013, ''OidVectorArray''), (1014, ''BpcharArray''),
    (1015, ''VarcharArray''), (1016, ''Int8Array''), (1017, ''PointArray''), (1018, ''LsegArray''),
    (1019, ''PathArray''), (1020, ''BoxArray''), (1021, ''Float4Array''), (1022, ''Float8Array''),
    (1027, ''PolygonArray''), (1028, ''OidArray''), (1033, ''Aclitem''), (1034, ''AclitemArray''),
    (1040, ''MacaddrArray''), (1041, ''InetArray''), (1042, ''Bpchar''), (1043, ''Varchar''), (1082, ''Date''),
    (1083, ''Time''), (1114, ''Timestamp''), (1115, ''TimestampArray''), (1182, ''DateArray''),
    (1183, ''TimeArray''), (1184, ''Timestamptz''), (1185, ''TimestamptzArray''), (1186, ''Interval''),
    (1187, ''IntervalArray''), (1231, ''NumericArray''), (1263, ''CstringArray''), (1266, ''Timetz''),
    (1270, ''TimetzArray''), (1560, ''Bit''), (1561, ''BitArray''), (1562, ''Varbit''),
    (1563, ''VarbitArray''), (1700, ''Numeric''), (1790, ''Refcursor''), (2201, ''RefcursorArray''),
    (2202, ''Regprocedure''), (2203, ''Regoper''), (2204, ''Regoperator''), (2205, ''Regclass''),
    (2206, ''Regtype''), (2207, ''RegprocedureArray''), (2208, ''RegoperArray''), (2209, ''RegoperatorArray''),
    (2210, ''RegclassArray''), (2211, ''RegtypeArray''), (2249, ''Record''), (2275, ''Cstring''),
    (2276, ''Any''), (2277, ''Anyarray''), (2278, ''Void''), (2279, ''Trigger''), (2280, ''LanguageHandler''),
    (2281, ''Internal''), (2283, ''Anyelement''), (2287, ''RecordArray''), (2776, ''Anynonarray''),
    (2949, ''TxidSnapshotArray''), (2950, ''Uuid''), (2951, ''UuidArray''), (2970, ''TxidSnapshot''),
    (3115, ''FdwHandler''), (3220, ''PgLsn''), (3221, ''PgLsnArray''), (3310, ''TsmHandler''),
    (3361, ''PgNdistinct''), (3402, ''PgDependencies''), (3500, ''Anyenum''), (3614, ''TsVector''),
    (3615, ''Tsquery''), (3642, ''GtsVector''), (3643, ''TsVectorArray''), (3644, ''GtsVectorArray''),
    (3645, ''TsqueryArray''), (3734, ''Regconfig''), (3735, ''RegconfigArray''), (3769, ''Regdictionary''),
    (3770, ''RegdictionaryArray''), (3802, ''Jsonb''), (3807, ''JsonbArray''), (3831, ''AnyRange''),
    (3838, ''EventTrigger''), (3904, ''Int4Range''), (3905, ''Int4RangeArray''), (3906, ''NumRange''),
    (3907, ''NumRangeArray''), (3908, ''TsRange''), (3909, ''TsRangeArray''), (3910, ''TstzRange'')]"

definition from_oid_arms_2 :: "(nat \<times> str) list" where
  "from_oid_arms_2 = [
    (3911, ''TstzRangeArray''), (3912, ''DateRange''), (3913, ''DateRangeArray''), (3926, ''Int8Range''),
    (3927, ''Int8RangeArray''), (4072, ''Jsonpath''), (4073, ''JsonpathArray''), (4089, ''Regnamespace''),
    (4090, ''RegnamespaceArray''), (4096, ''Regrole''), (4097, ''RegroleArray''), (4191, ''Regcollation''),
    (4192, ''RegcollationArray''), (4451, ''Int4multiRange''), (4532, ''NummultiRange''),
    (4533, ''TsmultiRange''), (4534, ''TstzmultiRange''), (4535, ''DatemultiRange''),
    (4536, ''Int8multiRange''), (4537, ''AnymultiRange''), (4538, ''AnycompatiblemultiRange''),
    (4600, ''PgBrinBloomSummary''), (4601, ''PgBrinMinmaxMultiSummary''), (5017, ''PgMcvList''),
    (5038, ''PgSnapshot''), (5039, ''PgSnapshotArray''), (5069, ''Xid8''), (5077, ''Anycompatible''),
    (5078, ''Anycompatiblearray''), (5079, ''Anycompatiblenonarray''), (5080, ''AnycompatibleRange''),
    (6150, ''Int4multiRangeArray''), (6151, ''NummultiRangeArray''), (6152, ''TsmultiRangeArray''),
    (6153, ''TstzmultiRangeArray''), (6155, ''DatemultiRangeArray''), (6157, ''Int8multiRangeArray'')]"

definition from_oid_arms :: "(nat \<times> str) list" where
  "from_oid_arms = from_oid_arms_1 @ from_oid_arms_2"

definition oid_arms_1 :: "(str \<times> nat) list" where
  "oid_arms_1 = [
    (''Bool'', 16), (''Bytea'', 17), (''Char'', 18), (''Name'', 19), (''Int8'', 20), (''Int2'', 21),
    (''Int2Vector'', 22), (''Int4'', 23), (''Regproc'', 24), (''Text'', 25), (''Oid'', 26), (''Tid'', 27),
    (''Xid'', 28), (''Cid'', 29), (''OidVector'', 30), (''PgDdlCommand'', 32), (''Json'', 114), (''Xml'', 142),
    (''XmlArray'', 143), (''PgNodeTree'', 194), (''JsonArray'', 199), (''TableAmHandler'', 269),
    (''Xid8Array'', 271), (''IndexAmHandler'', 325), (''Point'', 600), (''Lseg'', 601), (''Path'', 602),
    (''Box'', 603), (''Polygon'', 604), (''Line'', 628), (''LineArray'', 629), (''Cidr'', 650),
    (''CidrArray'', 651), (''Float4'', 700), (''Float8'', 701), (''Unknown'', 705), (''Circle'', 718),
    (''CircleArray'', 719), (''Macaddr8'', 774), (''Macaddr8Array'', 775), (''Money'', 790),
    (''MoneyArray'', 791), (''Macaddr'', 829), (''Inet'', 869), (''BoolArray'', 1000), (''ByteaArray'', 1001),
    (''CharArray'', 1002), (''NameArray'', 1003), (''Int2Array'', 1005), (''Int2VectorArray'', 1006),
    (''Int4Array'', 1007), (''RegprocArray'', 1008), (''TextArray'', 1009), (''TidArray'', 1010),
    (''XidArray'', 1011), (''CidArray'', 1012), (''OidVectorArray'', 1013), (''BpcharArray'', 1014),
    (''VarcharArray'', 1015), (''Int8Array'', 1016), (''PointArray'', 1017), (''LsegArray'', 1018),
    (''PathArray'', 1019), (''BoxArray'', 1020), (''Float4Array'', 1021), (''Float8Array'', 1022),
    (''PolygonArray'', 1027), (''OidArray'', 1028), (''Aclitem'', 1033), (''AclitemArray'', 1034),
    (''MacaddrArray'', 1040), (''InetArray'', 1041), (''Bpchar'', 1042), (''Varchar'', 1043), (''Date'', 1082),
    (''Time'', 1083), (''Timestamp'', 1114), (''TimestampArray'', 1115), (''DateArray'', 1182),
    (''TimeArray'', 1183), (''Timestamptz'', 1184), (''TimestamptzArray'', 1185), (''Interval'', 1186),
    (''IntervalArray'', 1187), (''NumericArray'', 1231), (''CstringArray'', 1263), (''Timetz'', 1266),
    (''TimetzArray'', 1270), (''Bit'', 1560), (''BitArray'', 1561), (''Varbit'', 1562),
    (''VarbitArray'', 1563), (''Numeric'', 1700), (''Refcursor'', 1790), (''RefcursorArray'', 2201),
    (''Regprocedure'', 2202), (''Regoper'', 2203), (''Regoperator'', 2204), (''Regclass'', 2205),
    (''Regtype'', 2206), (''RegprocedureArray'', 2207), (''RegoperArray'', 2208), (''RegoperatorArray'', 2209),
    (''RegclassArray'', 2210), (''RegtypeArray'', 2211), (''Record'', 2249), (''Cstring'', 2275),
    (''Any'', 2276), (''Anyarray'', 2277), (''Void'', 2278), (''Trigger'', 2279), (''LanguageHandler'', 2280),
    (''Internal'', 2281), (''Anyelement'', 2283), (''RecordArray'', 2287), (''Anynonarray'', 2776),
    (''TxidSnapshotArray'', 2949), (''Uuid'', 2950), (''UuidArray'', 2951), (''TxidSnapshot'', 2970),
    (''FdwHandler'', 3115), (''PgLsn'', 3220), (''PgLsnArray'', 3221), (''TsmHandler'', 3310),
    (''PgNdistinct'', 3361), (''PgDependencies'', 3402), (''Anyenum'', 3500), (''TsVector'', 3614),
    (''Tsquery'', 3615), (''GtsVector'', 3642), (''TsVectorArray'', 3643), (''GtsVectorArray'', 3644),
    (''TsqueryArray'', 3645), (''Regconfig'', 3734), (''RegconfigArray'', 3735), (''Regdictionary'', 3769),
    (''RegdictionaryArray'', 3770), (''Jsonb'', 3802), (''JsonbArray'', 3807), (''AnyRange'', 3831),
    (''EventTrigger'', 3838), (''Int4Range'', 3904), (''Int4RangeArray'', 3905), (''NumRange'', 3906),
    (''NumRangeArray'', 3907), (''TsRange'', 3908), (''TsRangeArray'', 3909), (''TstzRange'', 3910)]"

definition oid_arms_2 :: "(str \<times> nat) list" where
  "oid_arms_2 = [
    (''TstzRangeArray'', 3911), (''DateRange'', 3912), (''DateRangeArray'', 3913), (''Int8Range'', 3926),
    (''Int8RangeArray'', 3927), (''Jsonpath'', 4072), (''JsonpathArray'', 4073), (''Regnamespace'', 4089),
    (''RegnamespaceArray'', 4090), (''Regrole'', 4096), (''RegroleArray'', 4097), (''Regcollation'', 4191),
    (''RegcollationArray'', 4192), (''Int4multiRange'', 4451), (''NummultiRange'', 4532),
    (''TsmultiRange'', 4533), (''TstzmultiRange'', 4534), (''DatemultiRange'', 4535),
    (''Int8multiRange'', 4536), (''AnymultiRange'', 4537), (''AnycompatiblemultiRange'', 4538),
    (''PgBrinBloomSummary'', 4600), (''PgBrinMinmaxMultiSummary'', 4601), (''PgMcvList'', 5017),
    (''PgSnapshot'', 5038), (''PgSnapshotArray'', 5039), (''Xid8'', 5069), (''Anycompatible'', 5077),
    (''Anycompatiblearray'', 5078), (''Anycompatiblenonarray'', 5079), (''AnycompatibleRange'', 5080),
    (''Int4multiRangeArray'', 6150), (''NummultiRangeArray'', 6151), (''TsmultiRangeArray'', 6152),
    (''TstzmultiRangeArray'', 6153), (''DatemultiRangeArray'', 6155), (''Int8multiRangeArray'', 6157)]"

definition oid_arms :: "(str \<times> nat) list" where
  "oid_arms = oid_arms_1 @ oid_arms_2"

definition type_constants_1 :: "(str \<times> str) list" where
  "type_constants_1 = [
    (''BOOL'', ''Bool''), (''BYTEA'', ''Bytea''), (''CHAR'', ''Char''), (''NAME'', ''Name''),
    (''INT8'', ''Int8''), (''INT2'', ''Int2''), (''INT2_VECTOR'', ''Int2Vector''), (''INT4'', ''Int4''),
    (''REGPROC'', ''Regproc''), (''TEXT'', ''Text''), (''OID'', ''Oid''), (''TID'', ''Tid''),
    (''XID'', ''Xid''), (''CID'', ''Cid''), (''OID_VECTOR'', ''OidVector''),
    (''PG_DDL_COMMAND'', ''PgDdlCommand''), (''JSON'', ''Json''), (''XML'', ''Xml''),
    (''XML_ARRAY'', ''XmlArray''), (''PG_NODE_TREE'', ''PgNodeTree''), (''JSON_ARRAY'', ''JsonArray''),
    (''TABLE_AM_HANDLER'', ''TableAmHandler''), (''XID8_ARRAY'', ''Xid8Array''),
    (''INDEX_AM_HANDLER'', ''IndexAmHandler''), (''POINT'', ''Point''), (''LSEG'', ''Lseg''),
    (''PATH'', ''Path''), (''BOX'', ''Box''), (''POLYGON'', ''Polygon''), (''LINE'', ''Line''),
    (''LINE_ARRAY'', ''LineArray''), (''CIDR'', ''Cidr''), (''CIDR_ARRAY'', ''CidrArray''),
    (''FLOAT4'', ''Float4''), (''FLOAT8'', ''Float8''), (''UNKNOWN'', ''Unknown''), (''CIRCLE'', ''Circle''),
    (''CIRCLE_ARRAY'', ''CircleArray''), (''MACADDR8'', ''Macaddr8''), (''MACADDR8_ARRAY'', ''Macaddr8Array''),
    (''MONEY'', ''Money''), (''MONEY_ARRAY'', ''MoneyArray''), (''MACADDR'', ''Macaddr''),
    (''INET'', ''Inet''), (''BOOL_ARRAY'', ''BoolArray''), (''BYTEA_ARRAY'', ''ByteaArray''),
    (''CHAR_ARRAY'', ''CharArray''), (''NAME_ARRAY'', ''NameArray''), (''INT2_ARRAY'', ''Int2Array''),
    (''INT2_VECTOR_ARRAY'', ''Int2VectorArray'')]"

definition type_constants_2 :: "(str \<times> str) list" where
  "type_constants_2 = [
    (''INT4_ARRAY'', ''Int4Array''), (''REGPROC_ARRAY'', ''RegprocArray''), (''TEXT_ARRAY'', ''TextArray''),
    (''TID_ARRAY'', ''TidArray''), (''XID_ARRAY'', ''XidArray''), (''CID_ARRAY'', ''CidArray''),
    (''OID_VECTOR_ARRAY'', ''OidVectorArray''), (''BPCHAR_ARRAY'', ''BpcharArray''),
    (''VARCHAR_ARRAY'', ''VarcharArray''), (''INT8_ARRAY'', ''Int8Array''), (''POINT_ARRAY'', ''PointArray''),
    (''LSEG_ARRAY'', ''LsegArray''), (''PATH_ARRAY'', ''PathArray''), (''BOX_ARRAY'', ''BoxArray''),
    (''FLOAT4_ARRAY'', ''Float4Array''), (''FLOAT8_ARRAY'', ''Float8Array''),
    (''POLYGON_ARRAY'', ''PolygonArray''), (''OID_ARRAY'', ''OidArray''), (''ACLITEM'', ''Aclitem''),
    (''ACLITEM_ARRAY'', ''AclitemArray''), (''MACADDR_ARRAY'', ''MacaddrArray''),
    (''INET_ARRAY'', ''InetArray''), (''BPCHAR'', ''Bpchar''), (''VARCHAR'', ''Varchar''),
    (''DATE'', ''Date''), (''TIME'', ''Time''), (''TIMESTAMP'', ''Timestamp''),
    (''TIMESTAMP_ARRAY'', ''TimestampArray''), (''DATE_ARRAY'', ''DateArray''),
    (''TIME_ARRAY'', ''TimeArray''), (''TIMESTAMPTZ'', ''Timestamptz''),
    (''TIMESTAMPTZ_ARRAY'', ''TimestamptzArray''), (''INTERVAL'', ''Interval''),
    (''INTERVAL_ARRAY'', ''IntervalArray''), (''NUMERIC_ARRAY'', ''NumericArray''),
    (''CSTRING_ARRAY'', ''CstringArray''), (''TIMETZ'', ''Timetz''), (''TIMETZ_ARRAY'', ''TimetzArray''),
    (''BIT'', ''Bit''), (''BIT_ARRAY'', ''BitArray''), (''VARBIT'', ''Varbit''),
    (''VARBIT_ARRAY'', ''VarbitArray''), (''NUMERIC'', ''Numeric''), (''REFCURSOR'', ''Refcursor''),
    (''REFCURSOR_ARRAY'', ''RefcursorArray''), (''REGPROCEDURE'', ''Regprocedure''),
    (''REGOPER'', ''Regoper''), (''REGOPERATOR'', ''Regoperator''), (''REGCLASS'', ''Regclass''),
    (''REGTYPE'', ''Regtype'')]"

definition type_constants_3 :: "(str \<times> str) list" where
  "type_constants_3 = [
    (''REGPROCEDURE_ARRAY'', ''RegprocedureArray''), (''REGOPER_ARRAY'', ''RegoperArray''),
    (''REGOPERATOR_ARRAY'', ''RegoperatorArray''), (''REGCLASS_ARRAY'', ''RegclassArray''),
    (''REGTYPE_ARRAY'', ''RegtypeArray''), (''RECORD'', ''Record''), (''CSTRING'', ''Cstring''),
    (''ANY'', ''Any''), (''ANYARRAY'', ''Anyarray''), (''VOID'', ''Void''), (''TRIGGER'', ''Trigger''),
    (''LANGUAGE_HANDLER'', ''LanguageHandler''), (''INTERNAL'', ''Internal''),
    (''ANYELEMENT'', ''Anyelement''), (''RECORD_ARRAY'', ''RecordArray''), (''ANYNONARRAY'', ''Anynonarray''),
    (''TXID_SNAPSHOT_ARRAY'', ''TxidSnapshotArray''), (''UUID'', ''Uuid''), (''UUID_ARRAY'', ''UuidArray''),
    (''TXID_SNAPSHOT'', ''TxidSnapshot''), (''FDW_HANDLER'', ''FdwHandler''), (''PG_LSN'', ''PgLsn''),
    (''PG_LSN_ARRAY'', ''PgLsnArray''), (''TSM_HANDLER'', ''TsmHandler''), (''PG_NDISTINCT'', ''PgNdistinct''),
    (''PG_DEPENDENCIES'', ''PgDependencies''), (''ANYENUM'', ''Anyenum''), (''TS_VECTOR'', ''TsVector''),
    (''TSQUERY'', ''Tsquery''), (''GTS_VECTOR'', ''GtsVector''), (''TS_VECTOR_ARRAY'', ''TsVectorArray''),
    (''GTS_VECTOR_ARRAY'', ''GtsVectorArray''), (''TSQUERY_ARRAY'', ''TsqueryArray''),
    (''REGCONFIG'', ''Regconfig''), (''REGCONFIG_ARRAY'', ''RegconfigArray''),
    (''REGDICTIONARY'', ''Regdictionary''), (''REGDICTIONARY_ARRAY'', ''RegdictionaryArray''),
    (''JSONB'', ''Jsonb''), (''JSONB_ARRAY'', ''JsonbArray''), (''ANY_RANGE'', ''AnyRange''),
    (''EVENT_TRIGGER'', ''EventTrigger''), (''INT4_RANGE'', ''Int4Range''),
    (''INT4_RANGE_ARRAY'', ''Int4RangeArray''), (''NUM_RANGE'', ''NumRange''),
    (''NUM_RANGE_ARRAY'', ''NumRangeArray''), (''TS_RANGE'', ''TsRange''),
    (''TS_RANGE_ARRAY'', ''TsRangeArray''), (''TSTZ_RANGE'', ''TstzRange''),
    (''TSTZ_RANGE_ARRAY'', ''TstzRangeArray''), (''DATE_RANGE'', ''DateRange'')]"

definition type_constants_4 :: "(str \<times> str) list" where
  "type_constants_4 = [
    (''DATE_RANGE_ARRAY'', ''DateRangeArray''), (''INT8_RANGE'', ''Int8Range''),
    (''INT8_RANGE_ARRAY'', ''Int8RangeArray''), (''JSONPATH'', ''Jsonpath''),
    (''JSONPATH_ARRAY'', ''JsonpathArray''), (''REGNAMESPACE'', ''Regnamespace''),
    (''REGNAMESPACE_ARRAY'', ''RegnamespaceArray''), (''REGROLE'', ''Regrole''),
    (''REGROLE_ARRAY'', ''RegroleArray''), (''REGCOLLATION'', ''Regcollation''),
    (''REGCOLLATION_ARRAY'', ''RegcollationArray''), (''INT4MULTI_RANGE'', ''Int4multiRange''),
    (''NUMMULTI_RANGE'', ''NummultiRange''), (''TSMULTI_RANGE'', ''TsmultiRange''),
    (''TSTZMULTI_RANGE'', ''TstzmultiRange''), (''DATEMULTI_RANGE'', ''DatemultiRange''),
    (''INT8MULTI_RANGE'', ''Int8multiRange''), (''ANYMULTI_RANGE'', ''AnymultiRange''),
    (''ANYCOMPATIBLEMULTI_RANGE'', ''AnycompatiblemultiRange''),
    (''PG_BRIN_BLOOM_SUMMARY'', ''PgBrinBloomSummary''),
    (''PG_BRIN_MINMAX_MULTI_SUMMARY'', ''PgBrinMinmaxMultiSummary''), (''PG_MCV_LIST'', ''PgMcvList''),
    (''PG_SNAPSHOT'', ''PgSnapshot''), (''PG_SNAPSHOT_ARRAY'', ''PgSnapshotArray''), (''XID8'', ''Xid8''),
    (''ANYCOMPATIBLE'', ''Anycompatible''), (''ANYCOMPATIBLEARRAY'', ''Anycompatiblearray''),
    (''ANYCOMPATIBLENONARRAY'', ''Anycompatiblenonarray''), (''ANYCOMPATIBLE_RANGE'', ''AnycompatibleRange''),
    (''INT4MULTI_RANGE_ARRAY'', ''Int4multiRangeArray''), (''NUMMULTI_RANGE_ARRAY'', ''NummultiRangeArray''),
    (''TSMULTI_RANGE_ARRAY'', ''TsmultiRangeArray''), (''TSTZMULTI_RANGE_ARRAY'', ''TstzmultiRangeArray''),
    (''DATEMULTI_RANGE_ARRAY'', ''DatemultiRangeArray''), (''INT8MULTI_RANGE_ARRAY'', ''Int8multiRangeArray'')]"

definition type_constants :: "(str \<times> str) list" where
  "type_constants = type_constants_1 @ type_constants_2 @ type_constants_3 @ type_constants_4"

section \<open>Looking up\<close>

definition inner_from_oid :: "nat \<Rightarrow> str option" where
  "inner_from_oid n = map_of from_oid_arms n"

definition inner_oid :: "str \<Rightarrow> nat option" where
  "inner_oid v = map_of oid_arms v"

lemmas variants_defs = type_variants_def type_variants_1_def type_variants_2_def
lemmas from_oid_defs = from_oid_arms_def from_oid_arms_1_def from_oid_arms_2_def
lemmas oid_defs = oid_arms_def oid_arms_1_def oid_arms_2_def

lemma from_oid_variants: "map snd from_oid_arms = type_variants \<and> map fst from_oid_arms = builtin_oids"
  unfolding variants_defs from_oid_defs builtin_oids_def by simp

lemma oid_from_oid: "oid_arms = map (\<lambda>(n, v). (v, n)) from_oid_arms"
  unfolding oid_defs from_oid_defs by simp

lemma constants_variants: "map snd type_constants = type_variants"
  unfolding variants_defs type_constants_def type_constants_1_def type_constants_2_def type_constants_3_def type_constants_4_def by simp

text \<open>The variants differ, since a hash of their names does.\<close>

definition variant_hash :: "str \<Rightarrow> nat" where
  "variant_hash s = foldl (\<lambda>n c. (n * 47 + of_char c) mod 4096) 0 s"

lemma variants_distinct: "distinct type_variants"
proof -
  have "ascending (merge_all (map (\<lambda>v. [variant_hash v]) type_variants))"
    unfolding variants_defs variant_hash_def by simp
  then show ?thesis by (intro distinct_of_sorted ascending_sorted)
qed

text \<open>
  A built-in type is its OID. \<open>oid\<close> and \<open>from_oid\<close> are inverse to each other, the OIDs known are
  those of the other tables, and there is one constant for every variant.
\<close>

theorem type_variants_exact:
  "(inner_from_oid n = Some v \<longleftrightarrow> inner_oid v = Some n) \<and> (inner_from_oid n \<noteq> None \<longleftrightarrow> n \<in> set builtin_oids) \<and>
   (inner_oid v \<noteq> None \<longleftrightarrow> v \<in> set (map snd type_constants))"
proof -
  have d: "distinct (map fst from_oid_arms)" "distinct (map fst oid_arms)"
    using builtin_oids_distinct variants_distinct from_oid_variants
    by (simp_all add: oid_from_oid case_prod_unfold comp_def)
  have "inner_from_oid n = Some v \<longleftrightarrow> inner_oid v = Some n"
    unfolding inner_from_oid_def inner_oid_def map_of_eq_Some_iff [OF d(1)] map_of_eq_Some_iff [OF d(2)]
    by (auto simp: oid_from_oid)
  moreover have "inner_from_oid n \<noteq> None \<longleftrightarrow> n \<in> set builtin_oids"
    using from_oid_variants by (metis inner_from_oid_def map_of_eq_None_iff list.set_map)
  moreover have "map fst oid_arms = type_variants"
    using from_oid_variants by (simp add: oid_from_oid case_prod_unfold comp_def)
  then have "inner_oid v \<noteq> None \<longleftrightarrow> v \<in> set (map snd type_constants)"
    by (metis constants_variants inner_oid_def map_of_eq_None_iff list.set_map)
  ultimately show ?thesis by blast
qed

end
