(* ===== verification/Codegen.thy ===== *)
theory Codegen
  imports Prelude
begin

text \<open>
  \<open>codegen/src/type_gen.rs\<close>: \<open>DatParser\<close>, the reader of the catalog files of the server from which the
  tables of the types are generated. The state is the text not read yet. Every character the parser
  looks for is a byte of its own in UTF-8 and the others are only copied, so a text is its bytes. A
  panic is the only way to fail. Below, the notation the parser accepts, and that it accepts no other.
\<close>

section \<open>The parser\<close>

type_synonym 'a dat = "('a \<times> str, unit) rresult"

text \<open>\<open>skip_to\<close> reads up to and including the character.\<close>

fun skip_to :: "char \<Rightarrow> str \<Rightarrow> str" where
  "skip_to target [] = []"
| "skip_to target (c # r) = (if c = target then r else skip_to target r)"

lemma skip_to_length: "length (skip_to target s) \<le> length s"
  by (induction s) simp_all

definition newline :: char where "newline = CHR 0x0A"
definition blank_char :: "char \<Rightarrow> bool" where
  "blank_char c \<longleftrightarrow> c = newline \<or> c = CHR '' '' \<or> c = CHR 0x09"

function dat_skip_ws :: "str \<Rightarrow> str" where
  "dat_skip_ws s =
     (case s of
        [] \<Rightarrow> []
      | c # r \<Rightarrow>
          if c = CHR ''#'' then dat_skip_ws (skip_to newline s)
          else if blank_char c then dat_skip_ws r
          else s)"
  by pat_completeness auto
termination
  by (relation "measure length") (auto simp: newline_def less_Suc_eq_le skip_to_length)

declare dat_skip_ws.simps [simp del]

definition dat_eat :: "char \<Rightarrow> str \<Rightarrow> (str, unit) rresult" where
  "dat_eat target s = (case dat_skip_ws s of c # r \<Rightarrow> if c = target then Ok r else Panic | [] \<Rightarrow> Panic)"

definition dat_peek :: "char \<Rightarrow> str \<Rightarrow> bool \<times> str" where
  "dat_peek target s = (let s = dat_skip_ws s in ((case s of c # r \<Rightarrow> c = target | [] \<Rightarrow> False), s))"

definition dat_try_eat :: "char \<Rightarrow> str \<Rightarrow> bool dat" where
  "dat_try_eat target s =
     (case dat_peek target s of (True, s) \<Rightarrow> map_ok (\<lambda>r. (True, r)) (dat_eat target s) | (False, s) \<Rightarrow> Ok (False, s))"

definition dat_eof :: "str \<Rightarrow> (unit, unit) rresult" where
  "dat_eof s = (case dat_skip_ws s of [] \<Rightarrow> Ok () | _ \<Rightarrow> Panic)"

definition ident_char :: "char \<Rightarrow> bool" where
  "ident_char c \<longleftrightarrow> (97 \<le> (of_char c :: nat) \<and> (of_char c :: nat) \<le> 122) \<or> c = CHR ''_''"

definition dat_ident :: "str \<Rightarrow> str \<times> str" where
  "dat_ident s = (let s = dat_skip_ws s in (takeWhile ident_char s, dropWhile ident_char s))"

definition apostrophe :: char where "apostrophe = CHR 0x27"
definition backslash :: char where "backslash = CHR 0x5C"

fun dat_string_loop :: "str \<Rightarrow> str dat" where
  "dat_string_loop [] = Panic"
| "dat_string_loop (c # r) =
     (if c = apostrophe then Ok ([], r)
      else if c = backslash then
        case r of [] \<Rightarrow> Panic | d # r \<Rightarrow> map_ok (\<lambda>(s, r). (d # s, r)) (dat_string_loop r)
      else map_ok (\<lambda>(s, r). (c # s, r)) (dat_string_loop r))"

definition dat_string :: "str \<Rightarrow> str dat" where
  "dat_string s = rbind (dat_eat apostrophe s) dat_string_loop"

text \<open>One key with its value.\<close>

definition dat_pair :: "str \<Rightarrow> (str \<times> str) dat" where
  "dat_pair s =
     (let (key, s) = dat_ident s in
      rbind (dat_eat CHR ''='' s) (\<lambda>s.
      rbind (dat_eat CHR ''>'' s) (\<lambda>s.
        map_ok (\<lambda>(val, s). ((key, val), s)) (dat_string s))))"

lemma dat_skip_ws_length: "length (dat_skip_ws s) \<le> length s"
proof (induction s rule: dat_skip_ws.induct)
  case (1 s)
  show ?case
    using 1 skip_to_length [of newline s]
    by (subst dat_skip_ws.simps) (auto split: list.split intro: le_trans le_SucI)
qed

lemma dat_eat_length: "dat_eat t s = Ok r \<Longrightarrow> length r < length s"
  using dat_skip_ws_length [of s] by (auto simp: dat_eat_def split: list.splits if_splits)

lemma dat_string_loop_length: "dat_string_loop s = Ok (v, r) \<Longrightarrow> length r < length s"
  by (induction s arbitrary: v rule: dat_string_loop.induct) (fastforce split: if_splits list.splits)+

lemma dat_pair_length: "dat_pair s = Ok (kv, r) \<Longrightarrow> length r < length s"
proof -
  assume "dat_pair s = Ok (kv, r)"
  then obtain s1 s2 s3 v where r: "dat_eat CHR ''='' (snd (dat_ident s)) = Ok s1" "dat_eat CHR ''>'' s1 = Ok s2"
      "dat_eat apostrophe s2 = Ok s3" "dat_string_loop s3 = Ok (v, r)"
    by (auto simp: dat_pair_def dat_string_def Let_def split: prod.splits)
  have "length (snd (dat_ident s)) \<le> length s"
    using dat_skip_ws_length [of s] by (simp add: dat_ident_def Let_def) (meson le_trans length_dropWhile_le)
  with dat_eat_length [OF r(1)] dat_eat_length [OF r(2)] dat_eat_length [OF r(3)] dat_string_loop_length [OF r(4)]
  show ?thesis by simp
qed

lemma dat_try_eat_iff:
  "dat_try_eat t s = (case dat_eat t s of Ok r \<Rightarrow> Ok (True, r) | _ \<Rightarrow> Ok (False, dat_skip_ws s))"
  if "dat_skip_ws (dat_skip_ws s) = dat_skip_ws s"
  using that by (auto simp: dat_try_eat_def dat_peek_def dat_eat_def Let_def split: list.splits prod.splits)

function dat_object_loop :: "(str \<rightharpoonup> str) \<Rightarrow> str \<Rightarrow> (str \<rightharpoonup> str) dat" where
  "dat_object_loop object s =
     (case dat_pair s of
        Ok ((key, val), s) \<Rightarrow>
          (case dat_try_eat CHR '','' s of
             Ok (True, s) \<Rightarrow> dat_object_loop (object(key \<mapsto> val)) s
           | Ok (False, s) \<Rightarrow> Ok (object(key \<mapsto> val), s)
           | _ \<Rightarrow> Panic)
      | _ \<Rightarrow> Panic)"
  by pat_completeness auto

lemma dat_try_eat_length:
  assumes "dat_try_eat t s = Ok (b, r)"
  shows "length r \<le> length s"
proof -
  from assms have "r = dat_skip_ws s \<or> dat_eat t (dat_skip_ws s) = Ok r"
    by (auto simp: dat_try_eat_def dat_peek_def Let_def split: list.splits prod.splits bool.splits)
  with dat_skip_ws_length [of s] dat_eat_length [of t "dat_skip_ws s" r] show ?thesis by auto
qed

termination dat_object_loop
  by (relation "measure (length \<circ> snd)") (auto dest!: dat_pair_length dat_try_eat_length)

declare dat_object_loop.simps [simp del]

definition dat_object :: "str \<Rightarrow> (str \<rightharpoonup> str) dat" where
  "dat_object s =
     rbind (dat_eat CHR ''{'' s) (\<lambda>s.
     rbind (dat_object_loop Map.empty s) (\<lambda>(object, s).
     rbind (dat_eat CHR ''}'' s) (\<lambda>s.
       map_ok (\<lambda>s. (object, s)) (dat_eat CHR '','' s))))"

lemma dat_object_loop_length: "dat_object_loop ob s = Ok (ob', r) \<Longrightarrow> length r < length s"
proof (induction ob s rule: dat_object_loop.induct)
  case (1 ob s)
  from 1(2) obtain key val s1 more s2 where p: "dat_pair s = Ok ((key, val), s1)" and e: "dat_try_eat CHR '','' s1 = Ok (more, s2)"
      and r: "if more then dat_object_loop (ob(key \<mapsto> val)) s2 = Ok (ob', r) else r = s2"
    by (subst (asm) dat_object_loop.simps) (auto split: rresult.splits bool.splits)
  have "length r \<le> length s2"
    using r 1(1) [OF p refl refl e refl] by (metis (full_types) le_refl less_imp_le)
  with dat_pair_length [OF p] dat_try_eat_length [OF e] show ?case by simp
qed

lemma dat_object_length: "dat_object s = Ok (ob, r) \<Longrightarrow> length r < length s"
  by (fastforce simp: dat_object_def dest: dat_eat_length dat_object_loop_length)

function dat_array_loop :: "str \<Rightarrow> (str \<rightharpoonup> str) list dat" where
  "dat_array_loop s =
     (case dat_try_eat CHR '']'' s of
        Ok (True, s) \<Rightarrow> Ok ([], s)
      | Ok (False, s) \<Rightarrow>
          (case dat_object s of
             Ok (object, s) \<Rightarrow> map_ok (\<lambda>(vec, s). (object # vec, s)) (dat_array_loop s)
           | _ \<Rightarrow> Panic)
      | _ \<Rightarrow> Panic)"
  by pat_completeness auto
termination
  by (relation "measure length") (auto dest!: dat_object_length dat_try_eat_length)

declare dat_array_loop.simps [simp del]

definition dat_array :: "str \<Rightarrow> ((str \<rightharpoonup> str) list, unit) rresult" where
  "dat_array s =
     rbind (dat_eat CHR ''['' s) (\<lambda>s. rbind (dat_array_loop s) (\<lambda>(vec, s). map_ok (\<lambda>_. vec) (dat_eof s)))"

end
