(* ===== verification/CodegenSpec.thy ===== *)
theory CodegenSpec
  imports Codegen
begin

text \<open>
  The notation of the catalog files, written as a grammar without reference to the parser, and the
  theorem that \<open>DatParser\<close> reads exactly that notation.
\<close>

section \<open>The notation\<close>

text \<open>Blanks and comments, which end with their line; at the end of the file a comment may be open.\<close>

inductive dat_blank :: "str \<Rightarrow> bool" where
  none: "dat_blank []"
| char: "blank_char c \<Longrightarrow> dat_blank b \<Longrightarrow> dat_blank (c # b)"
| comment: "newline \<notin> set k \<Longrightarrow> dat_blank b \<Longrightarrow> dat_blank (CHR ''#'' # k @ newline # b)"

definition dat_blank_end :: "str \<Rightarrow> bool" where
  "dat_blank_end e \<longleftrightarrow> dat_blank e \<or> (\<exists>b k. dat_blank b \<and> newline \<notin> set k \<and> e = b @ CHR ''#'' # k)"

definition token :: "char \<Rightarrow> str \<Rightarrow> bool" where
  "token t p \<longleftrightarrow> (\<exists>b. dat_blank b \<and> p = b @ [t])"

text \<open>The inside of a string: any character may be escaped, the two special ones are.\<close>

inductive string_body :: "str \<Rightarrow> str \<Rightarrow> bool" where
  none: "string_body [] []"
| plain: "c \<noteq> apostrophe \<Longrightarrow> c \<noteq> backslash \<Longrightarrow> string_body v p \<Longrightarrow> string_body (c # v) (c # p)"
| escaped: "string_body v p \<Longrightarrow> string_body (c # v) (backslash # c # p)"

definition pair_text :: "str \<times> str \<Rightarrow> str \<Rightarrow> bool" where
  "pair_text kv p \<longleftrightarrow>
     (\<exists>b e g a q. dat_blank b \<and> list_all ident_char (fst kv) \<and> token CHR ''='' e \<and> token CHR ''>'' g \<and> token apostrophe a \<and>
        string_body (snd kv) q \<and> p = b @ fst kv @ e @ g @ a @ q @ [apostrophe])"

inductive pairs_text :: "(str \<times> str) list \<Rightarrow> str \<Rightarrow> bool" where
  one: "pair_text kv p \<Longrightarrow> pairs_text [kv] p"
| more: "pair_text kv p \<Longrightarrow> token CHR '','' c \<Longrightarrow> pairs_text kvs q \<Longrightarrow> pairs_text (kv # kvs) (p @ c @ q)"

definition object_text :: "(str \<times> str) list \<Rightarrow> str \<Rightarrow> bool" where
  "object_text kvs p \<longleftrightarrow>
     (\<exists>a q c d. token CHR ''{'' a \<and> pairs_text kvs q \<and> token CHR ''}'' c \<and> token CHR '','' d \<and> p = a @ q @ c @ d)"

definition dat_text :: "(str \<times> str) list list \<Rightarrow> str \<Rightarrow> bool" where
  "dat_text os s \<longleftrightarrow>
     (\<exists>a ps c e. token CHR ''['' a \<and> list_all2 object_text os ps \<and> token CHR '']'' c \<and> dat_blank_end e \<and>
        s = a @ concat ps @ c @ e)"

section \<open>Blanks\<close>

definition starts_text :: "str \<Rightarrow> bool" where
  "starts_text s \<longleftrightarrow> (case s of [] \<Rightarrow> True | c # r \<Rightarrow> \<not> blank_char c \<and> c \<noteq> CHR ''#'')"

lemma skip_starts: "starts_text s \<Longrightarrow> dat_skip_ws s = s"
  by (subst dat_skip_ws.simps) (auto simp: starts_text_def split: list.splits)

lemma skip_to_comment: "newline \<notin> set k \<Longrightarrow> skip_to newline (k @ newline # b) = b"
  by (induction k) auto

lemma not_blank [simp]: "\<not> blank_char CHR ''#''"
  by (simp add: blank_char_def newline_def)

lemma skip_blank: "dat_blank b \<Longrightarrow> dat_skip_ws (b @ r) = dat_skip_ws r"
proof (induction b rule: dat_blank.induct)
  case (char c b)
  then show ?case by (subst dat_skip_ws.simps) auto
next
  case (comment k b)
  have "CHR ''#'' \<noteq> newline" by (simp add: newline_def)
  with comment show ?case by (subst dat_skip_ws.simps) (simp add: skip_to_comment)
qed simp

lemma skip_to_split: "newline \<notin> set s \<and> skip_to newline s = [] \<or> (\<exists>k. newline \<notin> set k \<and> s = k @ newline # skip_to newline s)"
proof (induction s)
  case (Cons c s)
  show ?case
  proof (cases "c = newline")
    case False
    from Cons.IH show ?thesis
    proof (elim disjE exE conjE)
      fix k assume "newline \<notin> set k" "s = k @ newline # skip_to newline s"
      with False show ?thesis by (intro disjI2 exI [of _ "c # k"]) simp
    qed (use False in simp)
  qed (auto intro!: exI [of _ "[]"])
qed simp

lemma skip_split:
  "\<exists>b. s = b @ dat_skip_ws s \<and> starts_text (dat_skip_ws s) \<and> (dat_blank b \<or> dat_skip_ws s = [] \<and> dat_blank_end b)"
proof (induction s rule: dat_skip_ws.induct)
  case (1 s)
  show ?case
  proof (cases s)
    case Nil
    then show ?thesis by (subst (1 2 3) dat_skip_ws.simps) (auto simp: starts_text_def dat_blank.none)
  next
    case (Cons c r)
    consider (comment) "c = CHR ''#''" | (blank) "c \<noteq> CHR ''#''" "blank_char c" | (stop) "c \<noteq> CHR ''#''" "\<not> blank_char c"
      by blast
    then show ?thesis
    proof cases
      case comment
      have skip: "dat_skip_ws s = dat_skip_ws (skip_to newline r)"
        using Cons comment by (subst dat_skip_ws.simps) (simp add: newline_def)
      from skip_to_split [of r] show ?thesis
      proof (elim disjE exE conjE)
        assume "newline \<notin> set r" "skip_to newline r = []"
        then have "dat_skip_ws s = []" "dat_blank_end s"
          using Cons comment skip dat_blank.none unfolding dat_blank_end_def
          by (simp_all add: dat_skip_ws.simps [of "[]"]) (metis append_Nil)
        then show ?thesis by (intro exI [of _ s]) (simp add: starts_text_def)
      next
        fix k assume k: "newline \<notin> set k" "r = k @ newline # skip_to newline r"
        obtain b where b: "skip_to newline r = b @ dat_skip_ws s" "starts_text (dat_skip_ws s)"
            "dat_blank b \<or> dat_skip_ws s = [] \<and> dat_blank_end b"
          using 1(1) [OF Cons comment] Cons comment skip by (auto simp: newline_def)
        let ?b = "CHR ''#'' # k @ newline # b"
        have "s = ?b @ dat_skip_ws s" using Cons comment k(2) b(1) by simp
        moreover have "dat_blank ?b \<or> dat_skip_ws s = [] \<and> dat_blank_end ?b"
          using b(3) k(1) by (auto simp: dat_blank_end_def intro: dat_blank.comment)
        ultimately show ?thesis using b(2) by blast
      qed
    next
      case blank
      have skip: "dat_skip_ws s = dat_skip_ws r" using Cons blank by (subst dat_skip_ws.simps) simp
      obtain b where b: "r = b @ dat_skip_ws r" "starts_text (dat_skip_ws r)" "dat_blank b \<or> dat_skip_ws r = [] \<and> dat_blank_end b"
        using 1(2) [OF Cons blank] by blast
      have "dat_blank (c # b) \<or> dat_skip_ws r = [] \<and> dat_blank_end (c # b)"
        using b(3) blank(2) by (auto simp: dat_blank_end_def intro: dat_blank.char)
      with b(1,2) Cons skip show ?thesis by (intro exI [of _ "c # b"]) simp
    next
      case stop
      then have "starts_text s" using Cons by (simp add: starts_text_def)
      then show ?thesis using skip_starts by (auto intro!: exI [of _ "[]"] dat_blank.none)
    qed
  qed
qed

lemma skip_idem: "dat_skip_ws (dat_skip_ws s) = dat_skip_ws s"
  using skip_split [of s] skip_starts by blast

lemma skip_end: "dat_skip_ws s = [] \<longleftrightarrow> dat_blank_end s"
proof
  assume "dat_skip_ws s = []"
  with skip_split [of s] show "dat_blank_end s" by (auto simp: dat_blank_end_def)
next
  have empty: "dat_skip_ws [] = []" by (subst dat_skip_ws.simps) simp
  have open_comment: "dat_skip_ws (CHR ''#'' # k) = []" if "newline \<notin> set k" for k
  proof -
    have "skip_to newline k = []" using skip_to_split [of k] that by (metis in_set_conv_decomp)
    then show ?thesis by (subst dat_skip_ws.simps) (simp add: newline_def empty)
  qed
  assume "dat_blank_end s"
  then show "dat_skip_ws s = []"
    using skip_blank [of _ "[]"] empty by (auto simp: dat_blank_end_def skip_blank open_comment)
qed

section \<open>Tokens and strings\<close>

definition visible :: "char \<Rightarrow> bool" where
  "visible t \<longleftrightarrow> \<not> blank_char t \<and> t \<noteq> CHR ''#''"

lemma visible_tokens [simp]:
  "visible CHR ''='' \<and> visible CHR ''>'' \<and> visible CHR '','' \<and> visible CHR ''{'' \<and> visible CHR ''}'' \<and>
   visible CHR ''['' \<and> visible CHR '']'' \<and> visible apostrophe"
  by (simp add: visible_def blank_char_def newline_def apostrophe_def)

lemma eat_iff: "visible t \<Longrightarrow> dat_eat t s = Ok r \<longleftrightarrow> (\<exists>p. token t p \<and> s = p @ r)"
proof
  assume v: "visible t" and e: "dat_eat t s = Ok r"
  then have "dat_skip_ws s = t # r" by (auto simp: dat_eat_def split: list.splits if_splits)
  with skip_split [of s] obtain b where "dat_blank b" "s = b @ t # r" by auto
  then show "\<exists>p. token t p \<and> s = p @ r" by (auto simp: token_def)
next
  assume v: "visible t" and "\<exists>p. token t p \<and> s = p @ r"
  then obtain b where "dat_blank b" "s = b @ t # r" by (auto simp: token_def)
  with v have "dat_skip_ws s = t # r" by (simp add: skip_blank skip_starts starts_text_def visible_def)
  then show "dat_eat t s = Ok r" by (simp add: dat_eat_def)
qed

lemma eat_skip: "dat_eat t (dat_skip_ws s) = dat_eat t s"
  by (simp add: dat_eat_def skip_idem)

lemma eat_other: "dat_eat t s = Ok r \<Longrightarrow> u \<noteq> t \<Longrightarrow> dat_eat u s \<noteq> Ok r'"
  by (auto simp: dat_eat_def split: list.splits if_splits)

lemma try_eat: "dat_try_eat t s = (case dat_eat t s of Ok r \<Rightarrow> Ok (True, r) | _ \<Rightarrow> Ok (False, dat_skip_ws s))"
  by (rule dat_try_eat_iff [OF skip_idem])

lemma string_loop_iff: "dat_string_loop s = Ok (v, r) \<longleftrightarrow> (\<exists>q. string_body v q \<and> s = q @ apostrophe # r)"
proof
  have different: "apostrophe \<noteq> backslash" by (simp add: apostrophe_def backslash_def)
  show "\<exists>q. string_body v q \<and> s = q @ apostrophe # r" if "dat_string_loop s = Ok (v, r)"
    using that
  proof (induction s arbitrary: v rule: dat_string_loop.induct)
    case (2 c s)
    consider (stop) "c = apostrophe" | (esc) "c \<noteq> apostrophe" "c = backslash" | (plain) "c \<noteq> apostrophe" "c \<noteq> backslash" by blast
    then show ?case
    proof cases
      case stop
      with 2(3) show ?thesis by (auto intro: string_body.none)
    next
      case esc
      with 2(3) obtain d s' w where s: "s = d # s'" "v = d # w" "dat_string_loop s' = Ok (w, r)"
        by (auto split: list.splits)
      obtain q where q: "string_body w q" "s' = q @ apostrophe # r" using 2(1) [OF esc s(1) s(3)] by blast
      with s esc show ?thesis by (intro exI [of _ "backslash # d # q"]) (simp add: string_body.escaped)
    next
      case plain
      with 2(3) obtain w where s: "v = c # w" "dat_string_loop s = Ok (w, r)" by auto
      obtain q where q: "string_body w q" "s = q @ apostrophe # r" using 2(2) [OF plain s(2)] by blast
      with s plain show ?thesis by (intro exI [of _ "c # q"]) (simp add: string_body.plain)
    qed
  qed simp
  assume "\<exists>q. string_body v q \<and> s = q @ apostrophe # r"
  then obtain q where "string_body v q" "s = q @ apostrophe # r" by blast
  then show "dat_string_loop s = Ok (v, r)"
    using different by (induction v q arbitrary: s rule: string_body.induct) auto
qed

section \<open>Pairs\<close>

lemma ident_visible: "ident_char c \<Longrightarrow> visible c"
  by (auto simp: ident_char_def visible_def blank_char_def newline_def)

lemma token_no_ident: "token t p \<Longrightarrow> \<not> ident_char t \<Longrightarrow> visible t \<Longrightarrow> takeWhile ident_char (dat_skip_ws (p @ r)) = [] \<and> takeWhile ident_char (p @ r) = []"
proof -
  assume t: "token t p" "\<not> ident_char t" "visible t"
  then have "dat_eat t (p @ r) = Ok r" by (auto simp: eat_iff)
  then have "dat_skip_ws (p @ r) = t # r" by (auto simp: dat_eat_def split: list.splits if_splits)
  moreover from t(1) obtain b where "dat_blank b" "p = b @ [t]" by (auto simp: token_def)
  then have "takeWhile ident_char (p @ r) = []"
    using t(2) by (cases rule: dat_blank.cases) (auto simp: ident_char_def blank_char_def newline_def)
  ultimately show ?thesis using t(2) by simp
qed

lemma pair_iff: "dat_pair s = Ok (kv, r) \<longleftrightarrow> (\<exists>p. pair_text kv p \<and> s = p @ r)"
proof
  assume "dat_pair s = Ok (kv, r)"
  then obtain s1 s2 s3 v where kv: "kv = (takeWhile ident_char (dat_skip_ws s), v)"
      and r: "dat_eat CHR ''='' (dropWhile ident_char (dat_skip_ws s)) = Ok s1" "dat_eat CHR ''>'' s1 = Ok s2"
      "dat_eat apostrophe s2 = Ok s3" "dat_string_loop s3 = Ok (v, r)"
    by (auto simp: dat_pair_def dat_ident_def dat_string_def Let_def)
  obtain e g a q where p: "token CHR ''='' e" "dropWhile ident_char (dat_skip_ws s) = e @ s1" "token CHR ''>'' g" "s1 = g @ s2"
      "token apostrophe a" "s2 = a @ s3" "string_body v q" "s3 = q @ apostrophe # r"
    using r by (auto simp: eat_iff string_loop_iff)
  obtain b where b: "s = b @ dat_skip_ws s" "dat_blank b \<or> dat_skip_ws s = []" using skip_split [of s] by blast
  moreover have "dat_skip_ws s \<noteq> []" using p(1,2) by (auto simp: token_def)
  ultimately have "dat_blank b" "s = b @ takeWhile ident_char (dat_skip_ws s) @ e @ g @ a @ q @ apostrophe # r"
    using p(2,4,6,8) by (auto, metis append_assoc takeWhile_dropWhile_id)
  moreover have "list_all ident_char (takeWhile ident_char (dat_skip_ws s))" by (auto simp: list_all_iff dest: set_takeWhileD)
  ultimately have "pair_text kv (b @ takeWhile ident_char (dat_skip_ws s) @ e @ g @ a @ q @ [apostrophe])"
    using p(1,3,5,7) unfolding pair_text_def kv fst_conv snd_conv by blast
  then show "\<exists>p. pair_text kv p \<and> s = p @ r"
    using \<open>s = b @ takeWhile ident_char (dat_skip_ws s) @ e @ g @ a @ q @ apostrophe # r\<close>
    by (intro exI conjI) (assumption, simp)
next
  assume "\<exists>p. pair_text kv p \<and> s = p @ r"
  then obtain b e g a q where kv: "dat_blank b" "list_all ident_char (fst kv)" "token CHR ''='' e" "token CHR ''>'' g" "token apostrophe a"
      "string_body (snd kv) q" and s: "s = b @ fst kv @ e @ g @ a @ q @ apostrophe # r"
    by (auto simp: pair_text_def)
  let ?rest = "e @ g @ a @ q @ apostrophe # r"
  have eq: "visible CHR ''=''" "\<not> ident_char CHR ''=''" by (simp_all add: ident_char_def)
  have i: "takeWhile ident_char (dat_skip_ws s) = fst kv \<and> (dropWhile ident_char (dat_skip_ws s) = ?rest \<or>
      dropWhile ident_char (dat_skip_ws s) = dat_skip_ws ?rest)"
  proof (cases "fst kv")
    case Nil
    with kv(1) s have "dat_skip_ws s = dat_skip_ws ?rest" by (simp add: skip_blank)
    with token_no_ident [OF kv(3) eq(2,1), of "g @ a @ q @ apostrophe # r"] Nil show ?thesis by (metis takeWhile_dropWhile_id append_Nil)
  next
    case (Cons c k)
    with kv(2) have "starts_text (fst kv @ ?rest)" by (auto simp: starts_text_def visible_def dest: ident_visible)
    with kv(1) s have k: "dat_skip_ws s = fst kv @ ?rest" by (simp add: skip_blank skip_starts)
    have "takeWhile ident_char ?rest = []" using token_no_ident [OF kv(3) eq(2,1)] by blast
    then have "takeWhile ident_char (fst kv @ ?rest) = fst kv"
      using kv(2) by (simp add: takeWhile_append2 list_all_iff)
    then show ?thesis unfolding k by (metis append_same_eq same_append_eq takeWhile_dropWhile_id)
  qed
  have "dat_eat CHR ''='' ?rest = Ok (g @ a @ q @ apostrophe # r)"
    using kv(3) by (auto simp: eat_iff)
  then have "dat_eat CHR ''='' (dropWhile ident_char (dat_skip_ws s)) = Ok (g @ a @ q @ apostrophe # r)"
    using i eat_skip by metis
  moreover have "dat_eat CHR ''>'' (g @ a @ q @ apostrophe # r) = Ok (a @ q @ apostrophe # r)"
    using kv(4) by (auto simp: eat_iff)
  moreover have "dat_eat apostrophe (a @ q @ apostrophe # r) = Ok (q @ apostrophe # r)"
    using kv(5) by (auto simp: eat_iff)
  moreover have "dat_string_loop (q @ apostrophe # r) = Ok (snd kv, r)"
    using kv(6) by (auto simp: string_loop_iff)
  ultimately show "dat_pair s = Ok (kv, r)"
    using i by (simp add: dat_pair_def dat_ident_def dat_string_def Let_def)
qed

section \<open>Objects and files\<close>

definition object_of :: "(str \<times> str) list \<Rightarrow> str \<rightharpoonup> str" where
  "object_of kvs = map_of (rev kvs)"

lemma pairs_text_cases:
  "(\<exists>p. pairs_text kvs p \<and> s = p @ r) \<longleftrightarrow>
     (\<exists>kv s1. (\<exists>p. pair_text kv p \<and> s = p @ s1) \<and>
        (kvs = [kv] \<and> s1 = r \<or> (\<exists>c s2 l. token CHR '','' c \<and> s1 = c @ s2 \<and> kvs = kv # l \<and> (\<exists>q. pairs_text l q \<and> s2 = q @ r))))"
  by (subst pairs_text.simps) fastforce

lemma object_of_one: "ob ++ object_of [(key, val)] = ob(key \<mapsto> val)"
  by (rule ext) (simp add: object_of_def map_add_def)

lemma object_of_Cons: "ob ++ object_of ((key, val) # l) = ob(key \<mapsto> val) ++ object_of l"
  by (rule ext) (simp add: object_of_def map_add_def split: option.split)

text \<open>One round of the loop, by what follows the pair.\<close>

lemma object_loop_more:
  assumes "dat_pair s = Ok ((key, val), s1)" and "dat_eat CHR '','' s1 = Ok s2"
  shows "dat_object_loop ob s = dat_object_loop (ob(key \<mapsto> val)) s2"
  using assms by (subst dat_object_loop.simps) (simp add: try_eat)

lemma object_loop_last:
  assumes "dat_pair s = Ok ((key, val), s1)" and "\<And>s2. dat_eat CHR '','' s1 \<noteq> Ok s2"
  shows "dat_object_loop ob s = Ok (ob(key \<mapsto> val), dat_skip_ws s1)"
  using assms by (subst dat_object_loop.simps) (auto simp: try_eat split: rresult.split)

lemma object_loop_panic:
  assumes "\<And>x. dat_pair s \<noteq> Ok x"
  shows "dat_object_loop ob s = Panic"
  using assms by (subst dat_object_loop.simps) (auto split: rresult.split)

lemma object_loop_iff:
  "(\<exists>s2. dat_object_loop ob s = Ok (ob', s2) \<and> dat_eat CHR ''}'' s2 = Ok r) \<longleftrightarrow>
   (\<exists>kvs r1. (\<exists>p. pairs_text kvs p \<and> s = p @ r1) \<and> dat_eat CHR ''}'' r1 = Ok r \<and> ob' = ob ++ object_of kvs)"
proof (induction ob s rule: dat_object_loop.induct)
  case (1 ob s)
  show ?case
  proof (cases "\<exists>x. dat_pair s = Ok x")
    case True
    then obtain key val s1 where Ok: "dat_pair s = Ok ((key, val), s1)" by (metis surj_pair)
    have pair: "(\<exists>p. pair_text kv p \<and> s = p @ s') \<longleftrightarrow> kv = (key, val) \<and> s' = s1" for kv s'
      using pair_iff [of s kv s'] Ok by auto
    show ?thesis
    proof (cases "\<exists>s2. dat_eat CHR '','' s1 = Ok s2")
      case True
      then obtain s2 where comma: "dat_eat CHR '','' s1 = Ok s2" ..
      have e: "dat_try_eat CHR '','' s1 = Ok (True, s2)" by (simp add: try_eat comma)
      have IH: "(\<exists>s3. dat_object_loop (ob(key \<mapsto> val)) s2 = Ok (ob', s3) \<and> dat_eat CHR ''}'' s3 = Ok r) \<longleftrightarrow>
          (\<exists>kvs r1. (\<exists>p. pairs_text kvs p \<and> s2 = p @ r1) \<and> dat_eat CHR ''}'' r1 = Ok r \<and> ob' = (ob(key \<mapsto> val)) ++ object_of kvs)"
        by (rule 1 [OF Ok refl refl e refl refl])
      have after: "(\<exists>c. token CHR '','' c \<and> s1 = c @ s') \<longleftrightarrow> s' = s2" for s'
        using eat_iff [of "CHR '',''" s1 s'] comma by auto
      have stop: "dat_eat CHR ''}'' s1 \<noteq> Ok r" using eat_other [OF comma] by simp
      have "(\<exists>kvs r1. (\<exists>p. pairs_text kvs p \<and> s = p @ r1) \<and> dat_eat CHR ''}'' r1 = Ok r \<and> ob' = ob ++ object_of kvs) \<longleftrightarrow>
          (\<exists>l r1. (\<exists>p. pairs_text l p \<and> s2 = p @ r1) \<and> dat_eat CHR ''}'' r1 = Ok r \<and> ob' = ob ++ object_of ((key, val) # l))"
        unfolding pairs_text_cases [of _ s] pair using stop after by metis
      with IH show ?thesis by (simp only: object_loop_more [OF Ok comma] object_of_Cons)
    next
      case False
      then have after: "\<not> (\<exists>c s'. token CHR '','' c \<and> s1 = c @ s')"
        using eat_iff [of "CHR '',''" s1] by auto
      have "(\<exists>kvs r1. (\<exists>p. pairs_text kvs p \<and> s = p @ r1) \<and> dat_eat CHR ''}'' r1 = Ok r \<and> ob' = ob ++ object_of kvs) \<longleftrightarrow>
          dat_eat CHR ''}'' s1 = Ok r \<and> ob' = ob ++ object_of [(key, val)]"
        unfolding pairs_text_cases [of _ s] pair using after by metis
      moreover have "dat_object_loop ob s = Ok (ob(key \<mapsto> val), dat_skip_ws s1)"
        by (rule object_loop_last [OF Ok]) (use False in blast)
      ultimately show ?thesis by (auto simp only: object_of_one eat_skip rresult.inject prod.inject)
    qed
  next
    case False
    then have no: "dat_pair s \<noteq> Ok x" for x by blast
    have "\<not> (\<exists>p. pair_text kv p \<and> s = p @ s1)" for kv s1 using no pair_iff by metis
    then show ?thesis unfolding pairs_text_cases [of _ s] object_loop_panic [OF no] by simp
  qed
qed

lemma object_iff: "dat_object s = Ok (ob, r) \<longleftrightarrow> (\<exists>kvs p. object_text kvs p \<and> s = p @ r \<and> ob = object_of kvs)"
proof -
  have "dat_object s = Ok (ob, r) \<longleftrightarrow>
      (\<exists>s1 s3. dat_eat CHR ''{'' s = Ok s1 \<and> (\<exists>s2. dat_object_loop Map.empty s1 = Ok (ob, s2) \<and> dat_eat CHR ''}'' s2 = Ok s3) \<and>
         dat_eat CHR '','' s3 = Ok r)"
    by (auto simp: dat_object_def)
  also have "\<dots> \<longleftrightarrow> (\<exists>kvs p. object_text kvs p \<and> s = p @ r \<and> ob = object_of kvs)"
    unfolding object_loop_iff object_text_def by (auto simp: eat_iff) (metis append_assoc)+
  finally show ?thesis .
qed

section \<open>Files\<close>

lemma array_loop_end:
  assumes "dat_eat CHR '']'' s = Ok e"
  shows "dat_array_loop s = Ok ([], e)"
  using assms by (subst dat_array_loop.simps) (simp add: try_eat)

lemma object_skip: "dat_object (dat_skip_ws s) = dat_object s"
  by (simp add: dat_object_def eat_skip)

lemma array_loop_more:
  assumes "\<And>e. dat_eat CHR '']'' s \<noteq> Ok e" and "dat_object s = Ok (ob, s1)"
  shows "dat_array_loop s = map_ok (\<lambda>(vec, s). (ob # vec, s)) (dat_array_loop s1)"
  using assms by (subst dat_array_loop.simps) (auto simp: try_eat object_skip split: rresult.split)

lemma array_loop_panic:
  assumes "\<And>e. dat_eat CHR '']'' s \<noteq> Ok e" and "\<And>x. dat_object s \<noteq> Ok x"
  shows "dat_array_loop s = Panic"
  using assms by (subst dat_array_loop.simps) (auto simp: try_eat object_skip split: rresult.split)

lemma eof_iff: "dat_eof e = Ok () \<longleftrightarrow> dat_blank_end e"
  by (auto simp: dat_eof_def skip_end [symmetric] split: list.splits)

text \<open>The rest of a file after its opening bracket.\<close>

definition rest_text :: "(str \<times> str) list list \<Rightarrow> str \<Rightarrow> bool" where
  "rest_text os s \<longleftrightarrow> (\<exists>ps c e. list_all2 object_text os ps \<and> token CHR '']'' c \<and> dat_blank_end e \<and> s = concat ps @ c @ e)"

lemma rest_Nil: "rest_text [] s \<longleftrightarrow> (\<exists>e. dat_eat CHR '']'' s = Ok e \<and> dat_eof e = Ok ())"
  by (auto simp: rest_text_def eat_iff eof_iff)

lemma rest_Cons: "rest_text (kvs # os) s \<longleftrightarrow> (\<exists>p s1. object_text kvs p \<and> s = p @ s1 \<and> rest_text os s1)"
proof
  assume "rest_text (kvs # os) s"
  then obtain ps c e where "list_all2 object_text (kvs # os) ps" "token CHR '']'' c" "dat_blank_end e" "s = concat ps @ c @ e"
    unfolding rest_text_def by blast
  moreover then obtain p qs where "ps = p # qs" "object_text kvs p" "list_all2 object_text os qs" by (auto simp: list_all2_Cons1)
  ultimately show "\<exists>p s1. object_text kvs p \<and> s = p @ s1 \<and> rest_text os s1"
    unfolding rest_text_def by (intro exI [of _ p] exI [of _ "concat qs @ c @ e"]) auto
next
  assume "\<exists>p s1. object_text kvs p \<and> s = p @ s1 \<and> rest_text os s1"
  then obtain p ps c e where "object_text kvs p" "list_all2 object_text os ps" "token CHR '']'' c" "dat_blank_end e" "s = p @ concat ps @ c @ e"
    unfolding rest_text_def by blast
  then show "rest_text (kvs # os) s"
    unfolding rest_text_def by (intro exI [of _ "p # ps"] exI [of _ c] exI [of _ e]) simp
qed

lemma object_no_end: "dat_object s = Ok x \<Longrightarrow> dat_eat CHR '']'' s \<noteq> Ok e"
proof -
  assume "dat_object s = Ok x"
  then obtain s1 where "dat_eat CHR ''{'' s = Ok s1" by (auto simp: dat_object_def)
  from eat_other [OF this] show ?thesis by simp
qed

lemma array_loop_iff:
  "(\<exists>s1. dat_array_loop s = Ok (obs, s1) \<and> dat_eof s1 = Ok ()) \<longleftrightarrow> (\<exists>os. rest_text os s \<and> obs = map object_of os)"
proof (induction s arbitrary: obs rule: measure_induct_rule [of length])
  case (less s)
  have split: "(\<exists>os. rest_text os s \<and> obs = map object_of os) \<longleftrightarrow>
      (obs = [] \<and> (\<exists>e. dat_eat CHR '']'' s = Ok e \<and> dat_eof e = Ok ())) \<or>
      (\<exists>ob s1 l. dat_object s = Ok (ob, s1) \<and> obs = ob # l \<and> (\<exists>os. rest_text os s1 \<and> l = map object_of os))"
    (is "?L \<longleftrightarrow> ?nil \<or> ?cons")
  proof
    assume ?L
    then obtain os where os: "rest_text os s" "obs = map object_of os" by blast
    then show "?nil \<or> ?cons"
      by (cases os) (simp_all add: rest_Nil rest_Cons object_iff, blast)
  next
    assume "?nil \<or> ?cons"
    then show ?L
    proof
      assume ?cons
      then obtain kvs p s1 os where "object_text kvs p" "s = p @ s1" "rest_text os s1" "obs = object_of kvs # map object_of os"
        by (auto simp: object_iff)
      then show ?thesis by (intro exI [of _ "kvs # os"]) (auto simp: rest_Cons)
    qed (auto simp: rest_Nil [symmetric])
  qed
  show ?case
  proof (cases "\<exists>e. dat_eat CHR '']'' s = Ok e")
    case True
    then obtain e where e: "dat_eat CHR '']'' s = Ok e" ..
    with object_no_end have "dat_object s \<noteq> Ok x" for x by blast
    with e show ?thesis unfolding split array_loop_end [OF e] by auto
  next
    case False
    then have no: "dat_eat CHR '']'' s \<noteq> Ok e" for e by blast
    show ?thesis
    proof (cases "\<exists>x. dat_object s = Ok x")
      case True
      then obtain ob s1 where ob: "dat_object s = Ok (ob, s1)" by auto
      have "(\<exists>s2. dat_array_loop s = Ok (obs, s2) \<and> dat_eof s2 = Ok ()) \<longleftrightarrow>
          (\<exists>l. obs = ob # l \<and> (\<exists>s2. dat_array_loop s1 = Ok (l, s2) \<and> dat_eof s2 = Ok ()))"
        unfolding array_loop_more [OF no ob] by auto
      also have "\<dots> \<longleftrightarrow> (\<exists>l. obs = ob # l \<and> (\<exists>os. rest_text os s1 \<and> l = map object_of os))"
        using less dat_object_length [OF ob] by simp
      finally show ?thesis unfolding split using no ob by auto
    next
      case False
      then have p: "dat_object s \<noteq> Ok x" for x by blast
      show ?thesis unfolding split array_loop_panic [OF no p] using no p by auto
    qed
  qed
qed

text \<open>
  C39. The catalog files are read exactly. \<open>parse_array\<close> accepts a text exactly if it is a list of objects
  in the notation, with blanks and comments between any two tokens and with apostrophes and
  backslashes escaped, and gives for every object its keys with the values, a later key replacing an
  earlier one; on any other text it panics.
\<close>

theorem catalog_read_exactly:
  "dat_array s = Ok objects \<longleftrightarrow> (\<exists>os. dat_text os s \<and> objects = map object_of os)"
proof -
  have "dat_array s = Ok objects \<longleftrightarrow>
      (\<exists>s1. dat_eat CHR ''['' s = Ok s1 \<and> (\<exists>s2. dat_array_loop s1 = Ok (objects, s2) \<and> dat_eof s2 = Ok ()))"
    by (auto simp: dat_array_def)
  also have "\<dots> \<longleftrightarrow> (\<exists>a s1. token CHR ''['' a \<and> s = a @ s1 \<and> (\<exists>os. rest_text os s1 \<and> objects = map object_of os))"
    unfolding array_loop_iff by (auto simp: eat_iff)
  also have "\<dots> \<longleftrightarrow> (\<exists>os. dat_text os s \<and> objects = map object_of os)"
    unfolding rest_text_def dat_text_def by blast
  finally show ?thesis .
qed

end
