(* ===== verification/Spec2Isabelle.thy ===== *)
theory Spec2Isabelle
  imports
    FrontendSpec BackendIters Codec ConnectionSpec ConnectTls SqlTypesSpec RangeSpec Escape ScramSpec PgTypesSpec
    Kingbase ClientInv ClientCalls BinaryCopySpec TransactionSpec ConfigSpec StartupSpec SessionChecksSpec ConnectHostsSpec
    SyncCopySpec SyncConfig Delegates DeriveExpandSpec SqlStatesSpec TypeVariants CodegenSpec
begin

text \<open>
  The wire protocol of the PostgreSQL client library.
\<close>

end
